(* ===== verification/Mc_Prelude.thy ===== *)
theory Mc_Prelude
  imports Main "HOL-Library.Word"
begin

text \<open>
  Shared ground of the development: names for the machine integers the sources use, the
  collections of rewrite rules the component proofs draw on, and the generic facts about
  lists, association lists and words that several components need.
\<close>

unbundle bit_operations_syntax

section \<open>Machine integers\<close>

type_synonym u8 = "8 word"
type_synonym u16 = "16 word"
type_synonym u32 = "32 word"
type_synonym u64 = "64 word"

text \<open>Facts about a single byte hold because they hold for each of the 256 bytes.\<close>

lemma all_bytes: "list_all (\<lambda>i. P (word_of_int i :: u8)) [0..255] \<Longrightarrow> P b"
proof -
  assume "list_all (\<lambda>i. P (word_of_int i :: u8)) [0..255]"
  moreover have "uint b \<in> set [0..255]"
    using uint_lt2p [of b] by simp
  ultimately have "P (word_of_int (uint b))"
    unfolding list_all_iff by blast
  then show "P b" by simp
qed

section \<open>Collections of rewrite rules\<close>

named_theorems wire_simps \<open>layout of encoded MessagePack headers\<close>
named_theorems writer_simps \<open>field-level behaviour of the MessagePack writer\<close>
named_theorems reader_simps \<open>field-level behaviour of the MessagePack reader\<close>
named_theorems fsm_simps \<open>field-level behaviour of the FSM executor\<close>

section \<open>Lists\<close>

lemma take_put:
  "c \<le> length xs \<Longrightarrow> take (c + length ys) (take c xs @ ys @ zs) = take c xs @ ys"
  by simp

lemma length_put:
  "c + length ys \<le> length xs \<Longrightarrow> length (take c xs @ ys @ drop (c + length ys) xs) = length xs"
  by simp

lemma drop_eq_append_take:
  "drop p xs = ys @ zs \<Longrightarrow> take (length ys) (drop p xs) = ys"
  by simp

lemma drop_shift:
  "drop p xs = ys @ zs \<Longrightarrow> drop (p + length ys) xs = zs"
  by (metis add.commute append_eq_conv_conj drop_drop)

section \<open>Association lists kept in insertion order\<close>

text \<open>
  A \<open>std::vector\<close> of keyed entries and the iteration order of a container are kept as
  association lists; \<open>alist_put\<close> is \<open>operator[]\<close> followed by an assignment: it replaces the
  entry in place or appends a new one.
\<close>

fun alist_put :: "'k \<Rightarrow> 'v \<Rightarrow> ('k \<times> 'v) list \<Rightarrow> ('k \<times> 'v) list" where
  "alist_put k v [] = [(k, v)]"
| "alist_put k v ((k', v') # xs) = (if k = k' then (k, v) # xs else (k', v') # alist_put k v xs)"

lemma map_of_alist_put [simp]: "map_of (alist_put k v xs) = (map_of xs)(k \<mapsto> v)"
  by (induction k v xs rule: alist_put.induct) auto

lemma set_fst_alist_put [simp]: "fst ` set (alist_put k v xs) = insert k (fst ` set xs)"
  by (induction k v xs rule: alist_put.induct) auto

lemma distinct_alist_put [simp]:
  "distinct (map fst (alist_put k v xs)) = distinct (map fst xs)"
proof (induction k v xs rule: alist_put.induct)
  case (2 k v k' v' xs)
  have "set (map fst (alist_put k v xs)) = insert k (set (map fst xs))"
    by simp
  with 2 show ?case by auto
qed simp

end
