(* ===== verification/Mpack_Common.thy ===== *)
theory Mpack_Common
  imports Mc_Prelude
begin

text \<open>
  The ground layer of the MessagePack library (\<open>mpack-common\<close> in \<open>mpack.h\<close> and \<open>mpack.c\<close>):
  error codes, types and tags, big-endian loads and stores, tag comparison, the tracking stack
  of open compound elements and the UTF-8 checker.
\<close>

section \<open>Errors, types, tags\<close>

datatype mpack_error =
    mpack_ok
  | mpack_error_io
  | mpack_error_invalid
  | mpack_error_unsupported
  | mpack_error_type
  | mpack_error_too_big
  | mpack_error_memory
  | mpack_error_bug
  | mpack_error_data
  | mpack_error_eof

datatype mpack_type =
    mpack_type_missing
  | mpack_type_nil
  | mpack_type_bool
  | mpack_type_int
  | mpack_type_uint
  | mpack_type_float
  | mpack_type_double
  | mpack_type_str
  | mpack_type_bin
  | mpack_type_array
  | mpack_type_map
  | mpack_type_ext

text \<open>
  The tag is a tagged union. Signed and unsigned integers are both 64-bit words, read with
  \<open>sint\<close> and \<open>unat\<close>; floats and doubles are their IEEE bit patterns, which is all this
  library ever looks at.
\<close>

datatype mpack_tag =
    Tag_missing
  | Tag_nil
  | Tag_bool bool
  | Tag_int u64
  | Tag_uint u64
  | Tag_float u32
  | Tag_double u64
  | Tag_str u32
  | Tag_bin u32
  | Tag_array u32
  | Tag_map u32
  | Tag_ext u8 u32

fun tag_type :: "mpack_tag \<Rightarrow> mpack_type" where
  "tag_type Tag_missing = mpack_type_missing"
| "tag_type Tag_nil = mpack_type_nil"
| "tag_type (Tag_bool _) = mpack_type_bool"
| "tag_type (Tag_int _) = mpack_type_int"
| "tag_type (Tag_uint _) = mpack_type_uint"
| "tag_type (Tag_float _) = mpack_type_float"
| "tag_type (Tag_double _) = mpack_type_double"
| "tag_type (Tag_str _) = mpack_type_str"
| "tag_type (Tag_bin _) = mpack_type_bin"
| "tag_type (Tag_array _) = mpack_type_array"
| "tag_type (Tag_map _) = mpack_type_map"
| "tag_type (Tag_ext _ _) = mpack_type_ext"

section \<open>Big-endian loads and stores\<close>

definition mpack_load_u8 :: "u8 list \<Rightarrow> u8" where
  "mpack_load_u8 p = p ! 0"

definition mpack_load_u16 :: "u8 list \<Rightarrow> u16" where
  "mpack_load_u16 p = push_bit 8 (ucast (p ! 0)) OR ucast (p ! 1)"

definition mpack_load_u32 :: "u8 list \<Rightarrow> u32" where
  "mpack_load_u32 p =
     push_bit 24 (ucast (p ! 0)) OR push_bit 16 (ucast (p ! 1)) OR
     push_bit 8 (ucast (p ! 2)) OR ucast (p ! 3)"

definition mpack_load_u64 :: "u8 list \<Rightarrow> u64" where
  "mpack_load_u64 p =
     push_bit 56 (ucast (p ! 0)) OR push_bit 48 (ucast (p ! 1)) OR
     push_bit 40 (ucast (p ! 2)) OR push_bit 32 (ucast (p ! 3)) OR
     push_bit 24 (ucast (p ! 4)) OR push_bit 16 (ucast (p ! 5)) OR
     push_bit 8 (ucast (p ! 6)) OR ucast (p ! 7)"

definition mpack_store_u8 :: "u8 \<Rightarrow> u8 list" where
  "mpack_store_u8 val = [val]"

definition mpack_store_u16 :: "u16 \<Rightarrow> u8 list" where
  "mpack_store_u16 val = [ucast (drop_bit 8 val AND 0xFF), ucast (val AND 0xFF)]"

definition mpack_store_u32 :: "u32 \<Rightarrow> u8 list" where
  "mpack_store_u32 val =
     [ucast (drop_bit 24 val AND 0xFF), ucast (drop_bit 16 val AND 0xFF),
      ucast (drop_bit 8 val AND 0xFF), ucast (val AND 0xFF)]"

definition mpack_store_u64 :: "u64 \<Rightarrow> u8 list" where
  "mpack_store_u64 val =
     [ucast (drop_bit 56 val AND 0xFF), ucast (drop_bit 48 val AND 0xFF),
      ucast (drop_bit 40 val AND 0xFF), ucast (drop_bit 32 val AND 0xFF),
      ucast (drop_bit 24 val AND 0xFF), ucast (drop_bit 16 val AND 0xFF),
      ucast (drop_bit 8 val AND 0xFF), ucast (val AND 0xFF)]"

lemma length_store [simp, wire_simps]:
  "length (mpack_store_u8 a) = 1"
  "length (mpack_store_u16 b) = 2"
  "length (mpack_store_u32 c) = 4"
  "length (mpack_store_u64 d) = 8"
  by (simp_all add: mpack_store_u8_def mpack_store_u16_def mpack_store_u32_def mpack_store_u64_def)

text \<open>Storing a byte of a word and loading it back keeps exactly that byte of the word.\<close>

lemma byte_part: "push_bit k (drop_bit k v AND 0xFF) = v AND push_bit k (0xFF :: 'a::len word)"
proof -
  have FF: "(0xFF :: 'a word) = mask 8"
    by (simp add: mask_eq_exp_minus_1)
  show ?thesis
    unfolding FF by (rule bit_word_eqI) (auto simp: bit_simps)
qed

lemma byte_cast: "ucast (ucast (v AND 0xFF) :: u8) = (v AND 0xFF :: 'a::len word)"
proof -
  have FF: "(0xFF :: 'a word) = mask 8"
    by (simp add: mask_eq_exp_minus_1)
  show ?thesis
    unfolding FF by (rule bit_word_eqI) (auto simp: bit_simps)
qed

lemma all_ones:
  "(0xFFFF :: u16) = - 1"
  "(0xFFFFFFFF :: u32) = - 1"
  "(0xFFFFFFFFFFFFFFFF :: u64) = - 1"
  by simp_all

lemma load_Cons:
  "mpack_load_u16 (a # b # zs) = push_bit 8 (ucast a) OR ucast b"
  "mpack_load_u32 (a # b # c # d # zs) =
     push_bit 24 (ucast a) OR push_bit 16 (ucast b) OR push_bit 8 (ucast c) OR ucast d"
  "mpack_load_u64 (a # b # c # d # e # f # g # h # zs) =
     push_bit 56 (ucast a) OR push_bit 48 (ucast b) OR push_bit 40 (ucast c) OR
     push_bit 32 (ucast d) OR push_bit 24 (ucast e) OR push_bit 16 (ucast f) OR
     push_bit 8 (ucast g) OR ucast h"
  by (simp_all add: mpack_load_u16_def mpack_load_u32_def mpack_load_u64_def)

lemmas bytes_join = bit.conj_disj_distrib [symmetric] push_bit_eq_mult

lemma load_store_u8 [simp]: "mpack_load_u8 (mpack_store_u8 v @ zs) = v"
  by (simp add: mpack_load_u8_def mpack_store_u8_def)

lemma load_store_u16 [simp]: "mpack_load_u16 (mpack_store_u16 v @ zs) = v"
proof -
  have "mpack_load_u16 (mpack_store_u16 v @ zs) = v AND push_bit 8 0xFF OR v AND 0xFF"
    by (simp only: load_Cons mpack_store_u16_def append_Cons byte_part byte_cast)
  also have "\<dots> = v AND 0xFFFF"
    by (simp add: bytes_join)
  finally show ?thesis by (simp add: all_ones)
qed

lemma load_store_u32 [simp]: "mpack_load_u32 (mpack_store_u32 v @ zs) = v"
proof -
  have "mpack_load_u32 (mpack_store_u32 v @ zs) =
      v AND push_bit 24 0xFF OR v AND push_bit 16 0xFF OR v AND push_bit 8 0xFF OR v AND 0xFF"
    by (simp only: load_Cons mpack_store_u32_def append_Cons byte_part byte_cast)
  also have "\<dots> = v AND 0xFFFFFFFF"
    by (simp add: bytes_join)
  finally show ?thesis by (simp add: all_ones)
qed

lemma load_store_u64 [simp]: "mpack_load_u64 (mpack_store_u64 v @ zs) = v"
proof -
  have "mpack_load_u64 (mpack_store_u64 v @ zs) =
      v AND push_bit 56 0xFF OR v AND push_bit 48 0xFF OR v AND push_bit 40 0xFF OR
      v AND push_bit 32 0xFF OR v AND push_bit 24 0xFF OR v AND push_bit 16 0xFF OR
      v AND push_bit 8 0xFF OR v AND 0xFF"
    by (simp only: load_Cons mpack_store_u64_def append_Cons byte_part byte_cast)
  also have "\<dots> = v AND 0xFFFFFFFFFFFFFFFF"
    by (simp add: bytes_join)
  finally show ?thesis by (simp add: all_ones)
qed

section \<open>Comparing tags\<close>

text \<open>The numeric values of the \<open>mpack_type_t\<close> enumeration.\<close>

fun type_code :: "mpack_type \<Rightarrow> int" where
  "type_code mpack_type_missing = 0"
| "type_code mpack_type_nil = 1"
| "type_code mpack_type_bool = 2"
| "type_code mpack_type_int = 3"
| "type_code mpack_type_uint = 4"
| "type_code mpack_type_float = 5"
| "type_code mpack_type_double = 6"
| "type_code mpack_type_str = 7"
| "type_code mpack_type_bin = 8"
| "type_code mpack_type_array = 9"
| "type_code mpack_type_map = 10"
| "type_code mpack_type_ext = 11"

text \<open>\<open>mpack_memcmp\<close>: the difference of the first two bytes that differ.\<close>

fun mpack_memcmp :: "u8 list \<Rightarrow> u8 list \<Rightarrow> int" where
  "mpack_memcmp (x # xs) (y # ys) = (if x \<noteq> y then uint x - uint y else mpack_memcmp xs ys)"
| "mpack_memcmp _ _ = 0"

text \<open>
  The object representation \<open>memcmp\<close> walks over is the host's: little-endian, the reverse of
  the wire order.
\<close>

definition cmp3 :: "'a::linorder \<Rightarrow> 'a \<Rightarrow> int" where
  "cmp3 x y = (if x = y then 0 else if x < y then - 1 else 1)"

definition tag_normal :: "mpack_tag \<Rightarrow> mpack_tag" where
  "tag_normal t = (case t of Tag_int i \<Rightarrow> if 0 \<le> sint i then Tag_uint i else t | _ \<Rightarrow> t)"

definition mpack_tag_cmp :: "mpack_tag \<Rightarrow> mpack_tag \<Rightarrow> int" where
  "mpack_tag_cmp left0 right0 =
     (let left = tag_normal left0; right = tag_normal right0 in
      if tag_type left \<noteq> tag_type right
      then (if type_code (tag_type left) < type_code (tag_type right) then - 1 else 1)
      else case (left, right) of
        (Tag_bool a, Tag_bool b) \<Rightarrow> of_bool a - of_bool b
      | (Tag_int a, Tag_int b) \<Rightarrow> cmp3 (sint a) (sint b)
      | (Tag_uint a, Tag_uint b) \<Rightarrow> cmp3 a b
      | (Tag_array a, Tag_array b) \<Rightarrow> cmp3 a b
      | (Tag_map a, Tag_map b) \<Rightarrow> cmp3 a b
      | (Tag_str a, Tag_str b) \<Rightarrow> cmp3 a b
      | (Tag_bin a, Tag_bin b) \<Rightarrow> cmp3 a b
      | (Tag_ext t a, Tag_ext u b) \<Rightarrow> if t = u then cmp3 a b else sint t - sint u
      | (Tag_float a, Tag_float b) \<Rightarrow> mpack_memcmp (rev (mpack_store_u32 a)) (rev (mpack_store_u32 b))
      | (Tag_double a, Tag_double b) \<Rightarrow> mpack_memcmp (rev (mpack_store_u64 a)) (rev (mpack_store_u64 b))
      | _ \<Rightarrow> 0)"

lemma store_u32_inj: "mpack_store_u32 a = mpack_store_u32 b \<longleftrightarrow> a = b"
  by (metis append_Nil2 load_store_u32)

lemma store_u64_inj: "mpack_store_u64 a = mpack_store_u64 b \<longleftrightarrow> a = b"
  by (metis append_Nil2 load_store_u64)

lemma memcmp_zero: "length xs = length ys \<Longrightarrow> mpack_memcmp xs ys = 0 \<longleftrightarrow> xs = ys"
  by (induction xs ys rule: mpack_memcmp.induct) (auto simp: word_uint_eq_iff)

lemma memcmp_swap: "mpack_memcmp ys xs + mpack_memcmp xs ys = 0"
  by (induction xs ys rule: mpack_memcmp.induct) auto

lemma memcmp_trans:
  "\<lbrakk>length xs = length ys; length ys = length zs; mpack_memcmp xs ys \<le> 0; mpack_memcmp ys zs \<le> 0\<rbrakk>
   \<Longrightarrow> mpack_memcmp xs zs \<le> 0"
proof (induction xs arbitrary: ys zs)
  case (Cons x xs)
  from Cons.prems(1,2) obtain y ys' z zs' where yz: "ys = y # ys'" "zs = z # zs'"
    by (cases ys; cases zs) simp_all
  have ne: "uint a \<noteq> uint b" if "a \<noteq> b" for a b :: u8
    using that by (simp add: word_uint_eq_iff)
  consider "x = y" "y = z" | "x = y" "y \<noteq> z" | "x \<noteq> y" "y = z" | "x \<noteq> y" "y \<noteq> z"
    by blast
  then show ?case
  proof cases
    case 1
    with Cons.prems yz Cons.IH [of ys' zs'] show ?thesis by simp
  next
    case 2
    with Cons.prems yz show ?thesis by simp
  next
    case 3
    with Cons.prems yz show ?thesis by simp
  next
    case 4
    then have "uint x < uint y" "uint y < uint z"
      using Cons.prems yz ne [of x y] ne [of y z] by auto
    then have "uint x < uint z" by simp
    moreover from this have "x \<noteq> z" by blast
    ultimately show ?thesis using yz by simp
  qed
qed simp

lemma cmp3_zero [simp]: "cmp3 x y = 0 \<longleftrightarrow> x = y"
  by (simp add: cmp3_def)

lemma cmp3_swap: "cmp3 y x + cmp3 x y = 0"
  by (auto simp: cmp3_def)

lemma cmp3_le [simp]: "cmp3 x y \<le> 0 \<longleftrightarrow> x \<le> y"
  by (auto simp: cmp3_def)

lemma type_code_inj [simp]: "type_code s = type_code t \<longleftrightarrow> s = t"
  by (cases s; cases t) simp_all

text \<open>Two tags of the same type are compared by their payloads alone.\<close>

definition payload_cmp :: "mpack_tag \<Rightarrow> mpack_tag \<Rightarrow> int" where
  "payload_cmp left right =
     (case (left, right) of
        (Tag_bool a, Tag_bool b) \<Rightarrow> of_bool a - of_bool b
      | (Tag_int a, Tag_int b) \<Rightarrow> cmp3 (sint a) (sint b)
      | (Tag_uint a, Tag_uint b) \<Rightarrow> cmp3 a b
      | (Tag_array a, Tag_array b) \<Rightarrow> cmp3 a b
      | (Tag_map a, Tag_map b) \<Rightarrow> cmp3 a b
      | (Tag_str a, Tag_str b) \<Rightarrow> cmp3 a b
      | (Tag_bin a, Tag_bin b) \<Rightarrow> cmp3 a b
      | (Tag_ext t a, Tag_ext u b) \<Rightarrow> if t = u then cmp3 a b else sint t - sint u
      | (Tag_float a, Tag_float b) \<Rightarrow> mpack_memcmp (rev (mpack_store_u32 a)) (rev (mpack_store_u32 b))
      | (Tag_double a, Tag_double b) \<Rightarrow> mpack_memcmp (rev (mpack_store_u64 a)) (rev (mpack_store_u64 b))
      | _ \<Rightarrow> 0)"

lemma tag_cmp_by_type:
  "mpack_tag_cmp s t =
     (let a = tag_normal s; b = tag_normal t in
      if tag_type a = tag_type b then payload_cmp a b
      else if type_code (tag_type a) < type_code (tag_type b) then - 1 else 1)"
  by (simp add: mpack_tag_cmp_def payload_cmp_def Let_def)

lemma sint_eq_sint: "sint a = sint b \<longleftrightarrow> a = (b :: 'a::len word)"
  by (auto intro: signed_word_eqI)

lemma payload_zero: "tag_type a = tag_type b \<Longrightarrow> payload_cmp a b = 0 \<longleftrightarrow> a = b"
  by (cases a; cases b)
    (auto simp: payload_cmp_def memcmp_zero store_u32_inj store_u64_inj sint_eq_sint)

lemma payload_swap: "tag_type a = tag_type b \<Longrightarrow> payload_cmp b a + payload_cmp a b = 0"
  by (cases a; cases b) (auto simp: payload_cmp_def cmp3_swap memcmp_swap)

lemma payload_trans:
  "\<lbrakk>tag_type a = tag_type b; tag_type b = tag_type c; payload_cmp a b \<le> 0; payload_cmp b c \<le> 0\<rbrakk>
   \<Longrightarrow> payload_cmp a c \<le> 0"
  by (cases a; cases b; simp; cases c)
    (auto simp: payload_cmp_def sint_eq_sint split: if_splits
      intro: memcmp_trans [of "rev (mpack_store_u32 _)" "rev (mpack_store_u32 _)"]
             memcmp_trans [of "rev (mpack_store_u64 _)" "rev (mpack_store_u64 _)"])

lemma tag_cmp_zero: "mpack_tag_cmp s t = 0 \<longleftrightarrow> tag_normal s = tag_normal t"
  by (auto simp: tag_cmp_by_type Let_def payload_zero)

lemma tag_cmp_swap: "mpack_tag_cmp t s + mpack_tag_cmp s t = 0"
  by (auto simp: tag_cmp_by_type Let_def payload_swap not_less order_le_less)

lemma tag_cmp_trans:
  assumes "mpack_tag_cmp r s \<le> 0" and "mpack_tag_cmp s t \<le> 0"
  shows "mpack_tag_cmp r t \<le> 0"
  using assms payload_trans [of "tag_normal r" "tag_normal s" "tag_normal t"]
  by (auto simp: tag_cmp_by_type Let_def split: if_splits)

section \<open>The tracking stack\<close>

text \<open>
  \<open>mpack_track_t\<close> with its element array; the innermost open element (index \<open>count - 1\<close>) is
  the head of the list. \<open>alloc n\<close> tells whether an allocation of \<open>n\<close> elements succeeds.
\<close>

record mpack_track =
  track_capacity :: nat
  track_elements :: "(mpack_type \<times> u64) list"

definition track_count :: "mpack_track \<Rightarrow> nat" where
  "track_count t = length (track_elements t)"

definition MPACK_TRACKING_INITIAL_CAPACITY :: nat where
  "MPACK_TRACKING_INITIAL_CAPACITY = 8"

definition mpack_track_init :: "(nat \<Rightarrow> bool) \<Rightarrow> mpack_error \<times> mpack_track" where
  "mpack_track_init alloc =
     (let t = \<lparr>track_capacity = MPACK_TRACKING_INITIAL_CAPACITY, track_elements = []\<rparr>
      in if alloc (track_capacity t) then (mpack_ok, t) else (mpack_error_memory, t))"

definition mpack_track_grow :: "(nat \<Rightarrow> bool) \<Rightarrow> mpack_track \<Rightarrow> mpack_error \<times> mpack_track" where
  "mpack_track_grow alloc t =
     (let new_capacity = track_capacity t * 2
      in if alloc new_capacity then (mpack_ok, t\<lparr>track_capacity := new_capacity\<rparr>)
         else (mpack_error_memory, t))"

definition mpack_track_push ::
    "(nat \<Rightarrow> bool) \<Rightarrow> mpack_track \<Rightarrow> mpack_type \<Rightarrow> u64 \<Rightarrow> mpack_error \<times> mpack_track" where
  "mpack_track_push alloc t ty count =
     (let count = (if ty = mpack_type_map then count * 2 else count);
          (err, t) = (if track_count t = track_capacity t then mpack_track_grow alloc t else (mpack_ok, t))
      in if err \<noteq> mpack_ok then (err, t)
         else (mpack_ok, t\<lparr>track_elements := (ty, count) # track_elements t\<rparr>))"

fun mpack_track_pop :: "mpack_track \<Rightarrow> mpack_type \<Rightarrow> mpack_error \<times> mpack_track" where
  "mpack_track_pop t ty =
     (case track_elements t of
        [] \<Rightarrow> (mpack_error_bug, t)
      | (ty', left) # rest \<Rightarrow>
          if ty' \<noteq> ty then (mpack_error_bug, t)
          else if left \<noteq> 0 then (mpack_error_bug, t)
          else (mpack_ok, t\<lparr>track_elements := rest\<rparr>))"

definition mpack_track_peek_element :: "mpack_track \<Rightarrow> mpack_error" where
  "mpack_track_peek_element t =
     (case track_elements t of
        [] \<Rightarrow> mpack_ok
      | (ty, left) # _ \<Rightarrow>
          if ty \<noteq> mpack_type_map \<and> ty \<noteq> mpack_type_array then mpack_error_bug
          else if left = 0 then mpack_error_bug
          else mpack_ok)"

definition mpack_track_element :: "mpack_track \<Rightarrow> mpack_error \<times> mpack_track" where
  "mpack_track_element t =
     (let err = mpack_track_peek_element t in
      case track_elements t of
        [] \<Rightarrow> (err, t)
      | (ty, left) # rest \<Rightarrow>
          if err = mpack_ok then (err, t\<lparr>track_elements := (ty, left - 1) # rest\<rparr>) else (err, t))"

definition mpack_track_bytes :: "mpack_track \<Rightarrow> u64 \<Rightarrow> mpack_error \<times> mpack_track" where
  "mpack_track_bytes t count =
     (case track_elements t of
        [] \<Rightarrow> (mpack_error_bug, t)
      | (ty, left) # rest \<Rightarrow>
          if ty = mpack_type_map \<or> ty = mpack_type_array then (mpack_error_bug, t)
          else if left < count then (mpack_error_bug, t)
          else (mpack_ok, t\<lparr>track_elements := (ty, left - count) # rest\<rparr>))"

definition mpack_track_str_bytes_all :: "mpack_track \<Rightarrow> u64 \<Rightarrow> mpack_error \<times> mpack_track" where
  "mpack_track_str_bytes_all t count =
     (let (err, t) = mpack_track_bytes t count in
      if err \<noteq> mpack_ok then (err, t)
      else case track_elements t of
        [] \<Rightarrow> (mpack_ok, t)
      | (ty, left) # _ \<Rightarrow>
          if ty \<noteq> mpack_type_str then (mpack_error_bug, t)
          else if left \<noteq> 0 then (mpack_error_bug, t)
          else (mpack_ok, t))"

definition mpack_track_check_empty :: "mpack_track \<Rightarrow> mpack_error" where
  "mpack_track_check_empty t = (if track_count t \<noteq> 0 then mpack_error_bug else mpack_ok)"

definition mpack_track_destroy :: "mpack_track \<Rightarrow> bool \<Rightarrow> mpack_error" where
  "mpack_track_destroy t cancel = (if cancel then mpack_ok else mpack_track_check_empty t)"

lemmas track_defs =
  track_count_def mpack_track_grow_def mpack_track_push_def mpack_track_peek_element_def
  mpack_track_element_def mpack_track_bytes_def mpack_track_str_bytes_all_def
  mpack_track_check_empty_def mpack_track_destroy_def

text \<open>The element array never outgrows its allocation.\<close>

definition track_inv :: "mpack_track \<Rightarrow> bool" where
  "track_inv t \<longleftrightarrow> 0 < track_capacity t \<and> track_count t \<le> track_capacity t"

lemma track_inv_init: "track_inv (snd (mpack_track_init alloc))"
  by (simp add: mpack_track_init_def MPACK_TRACKING_INITIAL_CAPACITY_def track_inv_def track_count_def Let_def)

lemma track_inv_push: "track_inv t \<Longrightarrow> track_inv (snd (mpack_track_push alloc t ty n))"
  by (auto simp: track_inv_def track_defs Let_def)

lemma track_inv_pop: "track_inv t \<Longrightarrow> track_inv (snd (mpack_track_pop t ty))"
  by (auto simp: track_inv_def track_defs split: list.splits)

lemma track_inv_element: "track_inv t \<Longrightarrow> track_inv (snd (mpack_track_element t))"
  by (auto simp: track_inv_def track_defs Let_def split: list.splits)

lemma track_inv_bytes: "track_inv t \<Longrightarrow> track_inv (snd (mpack_track_bytes t n))"
  by (auto simp: track_inv_def track_defs split: list.splits)

section \<open>UTF-8\<close>

definition cont_byte :: "u8 \<Rightarrow> bool" where
  "cont_byte c \<longleftrightarrow> c AND 0xC0 = 0x80"

fun mpack_utf8_check_impl :: "u8 list \<Rightarrow> bool \<Rightarrow> bool" where
  "mpack_utf8_check_impl [] allow_null = True"
| "mpack_utf8_check_impl (lead # str) allow_null =
     (if \<not> allow_null \<and> lead = 0 then False
      else if lead \<le> 0x7F then mpack_utf8_check_impl str allow_null
      else if lead AND 0xE0 = 0xC0 then
        (case str of
           cont # str' \<Rightarrow>
             if \<not> cont_byte cont then False
             else let z = push_bit 6 (ucast (lead AND NOT 0xE0)) OR ucast (cont AND NOT 0xC0) :: u32
                  in if z < 0x80 then False else mpack_utf8_check_impl str' allow_null
         | _ \<Rightarrow> False)
      else if lead AND 0xF0 = 0xE0 then
        (case str of
           cont1 # cont2 # str' \<Rightarrow>
             if \<not> cont_byte cont1 then False
             else if \<not> cont_byte cont2 then False
             else let z = push_bit 12 (ucast (lead AND NOT 0xF0)) OR push_bit 6 (ucast (cont1 AND NOT 0xC0))
                          OR ucast (cont2 AND NOT 0xC0) :: u32
                  in if z < 0x800 then False
                     else if 0xD800 \<le> z \<and> z \<le> 0xDFFF then False
                     else mpack_utf8_check_impl str' allow_null
         | _ \<Rightarrow> False)
      else if lead AND 0xF8 = 0xF0 then
        (case str of
           cont1 # cont2 # cont3 # str' \<Rightarrow>
             if \<not> cont_byte cont1 then False
             else if \<not> cont_byte cont2 then False
             else if \<not> cont_byte cont3 then False
             else let z = push_bit 18 (ucast (lead AND NOT 0xF8)) OR push_bit 12 (ucast (cont1 AND NOT 0xC0))
                          OR push_bit 6 (ucast (cont2 AND NOT 0xC0)) OR ucast (cont3 AND NOT 0xC0) :: u32
                  in if z < 0x10000 then False
                     else if 0x10FFFF < z then False
                     else mpack_utf8_check_impl str' allow_null
         | _ \<Rightarrow> False)
      else False)"

definition mpack_utf8_check :: "u8 list \<Rightarrow> bool" where
  "mpack_utf8_check str = mpack_utf8_check_impl str True"

definition mpack_utf8_check_no_null :: "u8 list \<Rightarrow> bool" where
  "mpack_utf8_check_no_null str = mpack_utf8_check_impl str False"

fun mpack_str_check_no_null :: "u8 list \<Rightarrow> bool" where
  "mpack_str_check_no_null [] = True"
| "mpack_str_check_no_null (c # str) = (if c = 0 then False else mpack_str_check_no_null str)"

lemma str_check_no_null_iff: "mpack_str_check_no_null s \<longleftrightarrow> 0 \<notin> set s"
  by (induction s) auto

end
