(* ===== verification/Mpack_Utf8.thy ===== *)
theory Mpack_Utf8
  imports Mpack_Common
begin

text \<open>
  What the UTF-8 checker of \<open>mpack.c\<close> promises: it accepts exactly the byte strings that are a
  sequence of shortest-form encodings of Unicode scalar values, and its no-NUL variant exactly
  those among them that contain no NUL.
\<close>

section \<open>Specification: encoding a scalar value\<close>

definition scalar :: "nat \<Rightarrow> bool" where
  "scalar cp \<longleftrightarrow> cp < 0xD800 \<or> (0xE000 \<le> cp \<and> cp \<le> 0x10FFFF)"

definition utf8_encode :: "nat \<Rightarrow> u8 list" where
  "utf8_encode cp =
     (if cp < 0x80 then [of_nat cp]
      else if cp < 0x800 then [of_nat (0xC0 + cp div 64), of_nat (0x80 + cp mod 64)]
      else if cp < 0x10000 then
        [of_nat (0xE0 + cp div 4096), of_nat (0x80 + cp div 64 mod 64), of_nat (0x80 + cp mod 64)]
      else
        [of_nat (0xF0 + cp div 262144), of_nat (0x80 + cp div 4096 mod 64),
         of_nat (0x80 + cp div 64 mod 64), of_nat (0x80 + cp mod 64)])"

section \<open>Bytes by range\<close>

lemma byte_shapes:
  "((b :: u8) AND 0xE0 = 0xC0 \<longleftrightarrow> (0xC0 \<le> uint b \<and> uint b < 0xE0)) \<and>
   (b AND 0xF0 = 0xE0 \<longleftrightarrow> (0xE0 \<le> uint b \<and> uint b < 0xF0)) \<and>
   (b AND 0xF8 = 0xF0 \<longleftrightarrow> (0xF0 \<le> uint b \<and> uint b < 0xF8)) \<and>
   (b AND 0xC0 = 0x80 \<longleftrightarrow> (0x80 \<le> uint b \<and> uint b < 0xC0))"
  by (rule all_bytes [where b = b]) code_simp

lemma byte_payloads:
  "((b :: u8) AND 0xE0 = 0xC0 \<longrightarrow> uint (b AND NOT 0xE0) = uint b - 0xC0) \<and>
   (b AND 0xF0 = 0xE0 \<longrightarrow> uint (b AND NOT 0xF0) = uint b - 0xE0) \<and>
   (b AND 0xF8 = 0xF0 \<longrightarrow> uint (b AND NOT 0xF8) = uint b - 0xF0) \<and>
   (b AND 0xC0 = 0x80 \<longrightarrow> uint (b AND NOT 0xC0) = uint b - 0x80)"
  by (rule all_bytes [where b = b]) code_simp

lemma unat_bounds:
  "numeral k \<le> unat b \<longleftrightarrow> numeral k \<le> uint (b :: u8)" "unat b < numeral k \<longleftrightarrow> uint b < numeral k"
  unfolding uint_nat by (metis of_nat_le_iff of_nat_numeral, metis of_nat_less_iff of_nat_numeral)

lemma unat_minus:
  assumes "numeral k \<le> uint b" "uint (c :: u8) = uint (b :: u8) - numeral k"
  shows "unat c = unat b - numeral k"
proof -
  have "int n \<le> uint b \<Longrightarrow> uint c = uint b - int n \<Longrightarrow> unat c = unat b - n" for n
    unfolding uint_nat by linarith
  from this [of "numeral k"] assms show ?thesis by (simp only: of_nat_numeral)
qed

lemma lead2_shape: "(b :: u8) AND 0xE0 = 0xC0 \<longleftrightarrow> (0xC0 \<le> unat b \<and> unat b < 0xE0)"
  using byte_shapes [of b] unfolding unat_bounds by blast

lemma lead2_payload: "(b :: u8) AND 0xE0 = 0xC0 \<Longrightarrow> unat (b AND NOT 0xE0) = unat b - 0xC0"
  using byte_shapes [of b] byte_payloads [of b] by (blast intro: unat_minus)

lemma lead3_shape: "(b :: u8) AND 0xF0 = 0xE0 \<longleftrightarrow> (0xE0 \<le> unat b \<and> unat b < 0xF0)"
  using byte_shapes [of b] unfolding unat_bounds by blast

lemma lead3_payload: "(b :: u8) AND 0xF0 = 0xE0 \<Longrightarrow> unat (b AND NOT 0xF0) = unat b - 0xE0"
  using byte_shapes [of b] byte_payloads [of b] by (blast intro: unat_minus)

lemma lead4_shape: "(b :: u8) AND 0xF8 = 0xF0 \<longleftrightarrow> (0xF0 \<le> unat b \<and> unat b < 0xF8)"
  using byte_shapes [of b] unfolding unat_bounds by blast

lemma lead4_payload: "(b :: u8) AND 0xF8 = 0xF0 \<Longrightarrow> unat (b AND NOT 0xF8) = unat b - 0xF0"
  using byte_shapes [of b] byte_payloads [of b] by (blast intro: unat_minus)

lemma cont_shape: "cont_byte b \<longleftrightarrow> (0x80 \<le> unat b \<and> unat b < 0xC0)"
  using byte_shapes [of b] unfolding unat_bounds cont_byte_def by blast

lemma cont_payload: "cont_byte b \<Longrightarrow> unat (b AND NOT 0xC0) = unat b - 0x80"
  using byte_shapes [of b] byte_payloads [of b] unfolding cont_byte_def by (blast intro: unat_minus)

section \<open>Code points as numbers\<close>

lemma push_or_eq_add:
  fixes x y :: "'a::len word"
  assumes "y = take_bit n y"
  shows "push_bit n x OR y = push_bit n x + y"
proof (rule disjunctive_add_eq_or [symmetric])
  show "push_bit n x AND y = 0"
    by (subst assms) (rule bit_word_eqI, auto simp: bit_simps)
qed

lemma unat_join:
  fixes x y :: u32
  assumes "unat x = a" and "unat y = b" and "b < 2 ^ n" and "a * 2 ^ n + b < 2 ^ 32"
  shows "unat (push_bit n x OR y) = a * 2 ^ n + b"
proof -
  have "y = take_bit n y"
    unfolding word_unat_eq_iff unsigned_take_bit_eq
    using assms(2,3) by (simp add: take_bit_nat_eq_self)
  then have "push_bit n x OR y = push_bit n x + y"
    by (rule push_or_eq_add)
  also have "\<dots> = of_nat (a * 2 ^ n + b)"
    using assms(1,2) by (auto simp: push_bit_eq_mult)
  finally have "unat (push_bit n x OR y) = (a * 2 ^ n + b) mod 2 ^ 32"
    by (simp only: unat_of_nat) simp
  then show ?thesis
    using assms(4) by simp
qed

lemma byte_less: "unat (b :: u8) < 256"
  using unsigned_less [of b] by simp

lemma unat_ucast_u8: "unat (ucast (b :: u8) :: u32) = unat b"
  using byte_less [of b] by (simp add: unsigned_ucast_eq take_bit_nat_eq_self)

text \<open>The code point each branch of the checker computes.\<close>

lemma code_point_2:
  fixes lead c :: u8
  assumes "lead AND 0xE0 = 0xC0" and "cont_byte c"
  shows "unat (push_bit 6 (ucast (lead AND NOT 0xE0)) OR ucast (c AND NOT 0xC0) :: u32)
       = (unat lead - 0xC0) * 64 + (unat c - 0x80)"
proof -
  have "unat (push_bit 6 (ucast (lead AND NOT 0xE0)) OR ucast (c AND NOT 0xC0) :: u32)
      = (unat lead - 0xC0) * 2 ^ 6 + (unat c - 0x80)"
    using assms lead2_shape [of lead] cont_shape [of c]
    by (intro unat_join) (simp_all only: unat_ucast_u8 lead2_payload cont_payload, auto)
  then show ?thesis by simp
qed

lemma code_point_3:
  fixes lead c d :: u8
  assumes "lead AND 0xF0 = 0xE0" and "cont_byte c" and "cont_byte d"
  shows "unat (push_bit 12 (ucast (lead AND NOT 0xF0)) OR push_bit 6 (ucast (c AND NOT 0xC0))
               OR ucast (d AND NOT 0xC0) :: u32)
       = (unat lead - 0xE0) * 4096 + ((unat c - 0x80) * 64 + (unat d - 0x80))"
proof -
  have "unat (push_bit 12 (ucast (lead AND NOT 0xF0)) OR push_bit 6 (ucast (c AND NOT 0xC0))
               OR ucast (d AND NOT 0xC0) :: u32)
       = (unat lead - 0xE0) * 2 ^ 12 + ((unat c - 0x80) * 2 ^ 6 + (unat d - 0x80))"
    using assms lead3_shape [of lead] cont_shape [of c] cont_shape [of d]
    by (intro unat_join) (simp_all only: unat_ucast_u8 lead3_payload cont_payload, auto)
  then show ?thesis by simp
qed

lemma code_point_4:
  fixes lead c d e :: u8
  assumes "lead AND 0xF8 = 0xF0" and "cont_byte c" and "cont_byte d" and "cont_byte e"
  shows "unat (push_bit 18 (ucast (lead AND NOT 0xF8)) OR push_bit 12 (ucast (c AND NOT 0xC0))
               OR push_bit 6 (ucast (d AND NOT 0xC0)) OR ucast (e AND NOT 0xC0) :: u32)
       = (unat lead - 0xF0) * 262144
         + ((unat c - 0x80) * 4096 + ((unat d - 0x80) * 64 + (unat e - 0x80)))"
proof -
  have "unat (push_bit 18 (ucast (lead AND NOT 0xF8)) OR push_bit 12 (ucast (c AND NOT 0xC0))
               OR push_bit 6 (ucast (d AND NOT 0xC0)) OR ucast (e AND NOT 0xC0) :: u32)
      = (unat lead - 0xF0) * 2 ^ 18
        + ((unat c - 0x80) * 2 ^ 12 + ((unat d - 0x80) * 2 ^ 6 + (unat e - 0x80)))"
    using assms lead4_shape [of lead] cont_shape [of c] cont_shape [of d] cont_shape [of e]
    by (intro unat_join) (simp_all only: unat_ucast_u8 lead4_payload cont_payload, auto)
  then show ?thesis by simp
qed

section \<open>One step of the checker\<close>

lemma byte_of_nat: "n < 256 \<Longrightarrow> unat (of_nat n :: u8) = n"
  by (simp add: unat_of_nat)

lemma byte_le: "(b :: u8) \<le> 0x7F \<longleftrightarrow> unat b < 0x80"
  by (auto simp: word_le_nat_alt)

lemma byte_nonzero: "0 < unat (b :: u8) \<Longrightarrow> b \<noteq> 0"
  by auto

lemma word_bounds:
  assumes "unat (z :: u32) = n"
  shows "z < 0x80 \<longleftrightarrow> n < 0x80" "z < 0x800 \<longleftrightarrow> n < 0x800" "z < 0x10000 \<longleftrightarrow> n < 0x10000"
    "0x10FFFF < z \<longleftrightarrow> 0x10FFFF < n" "0xD800 \<le> z \<longleftrightarrow> 0xD800 \<le> n" "z \<le> 0xDFFF \<longleftrightarrow> n \<le> 0xDFFF"
  using assms by (auto simp: word_less_nat_alt word_le_nat_alt)

declare mpack_utf8_check_impl.simps(2) [simp del]

lemma check_step_1:
  "unat l < 0x80 \<Longrightarrow>
   mpack_utf8_check_impl (l # str) allow \<longleftrightarrow> (allow \<or> l \<noteq> 0) \<and> mpack_utf8_check_impl str allow"
  by (auto simp: byte_le mpack_utf8_check_impl.simps)

lemma check_step_2:
  assumes l: "l AND 0xE0 = 0xC0" and c: "cont_byte c"
  shows "mpack_utf8_check_impl (l # c # str) allow \<longleftrightarrow>
     0x80 \<le> (unat l - 0xC0) * 64 + (unat c - 0x80) \<and> mpack_utf8_check_impl str allow"
proof -
  have "\<not> l \<le> 0x7F" "l \<noteq> 0"
    using l by (auto simp: lead2_shape byte_le byte_nonzero)
  then show ?thesis
    by (simp only: mpack_utf8_check_impl.simps l c list.case Let_def word_bounds [OF code_point_2 [OF l c]]
        if_True if_False simp_thms split: if_split) auto
qed

lemma check_step_3:
  assumes l: "l AND 0xF0 = 0xE0" and c: "cont_byte c" and d: "cont_byte d"
  defines "n \<equiv> (unat l - 0xE0) * 4096 + ((unat c - 0x80) * 64 + (unat d - 0x80))"
  shows "mpack_utf8_check_impl (l # c # d # str) allow \<longleftrightarrow>
     0x800 \<le> n \<and> \<not> (0xD800 \<le> n \<and> n \<le> 0xDFFF) \<and> mpack_utf8_check_impl str allow"
proof -
  have "\<not> l \<le> 0x7F" "l \<noteq> 0" "\<not> l AND 0xE0 = 0xC0"
    using l by (auto simp: lead3_shape lead2_shape byte_le byte_nonzero)
  then show ?thesis
    by (simp only: mpack_utf8_check_impl.simps l c d list.case Let_def
        word_bounds [OF code_point_3 [OF l c d], folded n_def]
        if_True if_False simp_thms split: if_split) auto
qed

lemma check_step_4:
  assumes l: "l AND 0xF8 = 0xF0" and c: "cont_byte c" and d: "cont_byte d" and e: "cont_byte e"
  defines "n \<equiv> (unat l - 0xF0) * 262144
               + ((unat c - 0x80) * 4096 + ((unat d - 0x80) * 64 + (unat e - 0x80)))"
  shows "mpack_utf8_check_impl (l # c # d # e # str) allow \<longleftrightarrow>
     0x10000 \<le> n \<and> n \<le> 0x10FFFF \<and> mpack_utf8_check_impl str allow"
proof -
  have "\<not> l \<le> 0x7F" "l \<noteq> 0" "\<not> l AND 0xE0 = 0xC0" "\<not> l AND 0xF0 = 0xE0"
    using l by (auto simp: lead4_shape lead3_shape lead2_shape byte_le byte_nonzero)
  then show ?thesis
    by (simp only: mpack_utf8_check_impl.simps l c d e list.case Let_def
        word_bounds [OF code_point_4 [OF l c d e], folded n_def]
        if_True if_False simp_thms split: if_split) auto
qed

section \<open>Base-64 digits of a code point\<close>

lemma digit_push: "c < 64 \<Longrightarrow> (m * 64 + c) div 64 = m \<and> (m * 64 + c) mod 64 = (c :: nat)"
  by simp

lemma div_4096: "n div 4096 = n div 64 div (64 :: nat)"
  by (simp add: div_mult2_eq [symmetric])

lemma div_262144: "n div 262144 = n div 64 div 64 div (64 :: nat)"
  by (simp add: div_mult2_eq [symmetric])

lemma digits_3: "n div 4096 * 4096 + (n div 64 mod 64 * 64 + n mod 64) = (n :: nat)"
  using div_mult_mod_eq [of n 64] div_mult_mod_eq [of "n div 64" 64] unfolding div_4096 by linarith

lemma digits_4:
  "n div 262144 * 262144 + (n div 4096 mod 64 * 4096 + (n div 64 mod 64 * 64 + n mod 64)) = (n :: nat)"
  using div_mult_mod_eq [of n 64] div_mult_mod_eq [of "n div 64" 64] div_mult_mod_eq [of "n div 64 div 64" 64]
  unfolding div_4096 div_262144 by linarith

lemma join_split_2:
  assumes "a < 32" "b < 64" "0x80 \<le> a * 64 + (b :: nat)"
  shows "utf8_encode (a * 64 + b) = [of_nat (0xC0 + a), of_nat (0x80 + b)]"
proof -
  have "(a * 64 + b) div 64 = a" "(a * 64 + b) mod 64 = b" "a * 64 + b < 0x800"
    using assms by auto
  with assms(3) show ?thesis by (simp add: utf8_encode_def)
qed

lemma join_split_3:
  assumes "a < 16" "b < 64" "c < 64" "0x800 \<le> a * 4096 + (b * 64 + (c :: nat))"
  shows "utf8_encode (a * 4096 + (b * 64 + c)) = [of_nat (0xE0 + a), of_nat (0x80 + b), of_nat (0x80 + c)]"
proof -
  let ?n = "a * 4096 + (b * 64 + c)"
  have n: "?n = (a * 64 + b) * 64 + c" by simp
  have "?n div 64 = a * 64 + b" "?n mod 64 = c"
    unfolding n using digit_push [OF assms(3)] by blast+
  moreover have "?n < 0x10000"
    using assms(1-3) by linarith
  ultimately show ?thesis
    using assms(2,4) by (simp add: utf8_encode_def div_4096)
qed

lemma join_split_4:
  assumes "b < 64" "c < 64" "d < 64" "0x10000 \<le> a * 262144 + (b * 4096 + (c * 64 + (d :: nat)))"
  shows "utf8_encode (a * 262144 + (b * 4096 + (c * 64 + d)))
       = [of_nat (0xF0 + a), of_nat (0x80 + b), of_nat (0x80 + c), of_nat (0x80 + d)]"
proof -
  let ?n = "a * 262144 + (b * 4096 + (c * 64 + d))"
  have n: "?n = ((a * 64 + b) * 64 + c) * 64 + d" by simp
  have "?n div 64 = (a * 64 + b) * 64 + c" "?n mod 64 = d"
    unfolding n using digit_push [OF assms(3)] by blast+
  then have "?n div 64 = (a * 64 + b) * 64 + c" "?n mod 64 = d" "?n div 64 div 64 = a * 64 + b"
    "?n div 64 mod 64 = c"
    using digit_push [OF assms(2), of "a * 64 + b"] by auto
  then show ?thesis
    using assms(1,4) by (simp add: utf8_encode_def div_4096 div_262144)
qed

section \<open>The checker accepts exactly the encodings\<close>

lemma check_encode:
  assumes "scalar cp"
  shows "mpack_utf8_check_impl (utf8_encode cp @ rest) allow
       \<longleftrightarrow> (allow \<or> cp \<noteq> 0) \<and> mpack_utf8_check_impl rest allow"
proof -
  consider "cp < 0x80" | "0x80 \<le> cp" "cp < 0x800" | "0x800 \<le> cp" "cp < 0x10000"
    | "0x10000 \<le> cp" "cp \<le> 0x10FFFF"
    using assms by (fastforce simp: scalar_def)
  then show ?thesis
  proof cases
    case 1
    then have u: "unat (of_nat cp :: u8) = cp"
      by (simp add: byte_of_nat)
    then have "(of_nat cp :: u8) = 0 \<longleftrightarrow> cp = 0"
      by (metis unat_eq_zero)
    moreover have "mpack_utf8_check_impl (of_nat cp # rest) allow
        \<longleftrightarrow> (allow \<or> (of_nat cp :: u8) \<noteq> 0) \<and> mpack_utf8_check_impl rest allow"
      using 1 u by (intro check_step_1) simp
    ultimately show ?thesis
      using 1 by (simp add: utf8_encode_def)
  next
    case 2
    define l c where "l = (of_nat (0xC0 + cp div 64) :: u8)" and "c = (of_nat (0x80 + cp mod 64) :: u8)"
    have u: "unat l = 0xC0 + cp div 64" "unat c = 0x80 + cp mod 64"
      unfolding l_def c_def using 2 by (intro byte_of_nat; auto)+
    then have s: "l AND 0xE0 = 0xC0" "cont_byte c"
      using 2 by (auto simp only: lead2_shape cont_shape)
    have "utf8_encode cp = [l, c]"
      using 2 by (simp add: utf8_encode_def l_def c_def)
    with 2 u show ?thesis
      by (simp add: check_step_2 [OF s])
  next
    case 3
    define l c d where "l = (of_nat (0xE0 + cp div 4096) :: u8)"
      and "c = (of_nat (0x80 + cp div 64 mod 64) :: u8)" and "d = (of_nat (0x80 + cp mod 64) :: u8)"
    have u: "unat l = 0xE0 + cp div 4096" "unat c = 0x80 + cp div 64 mod 64" "unat d = 0x80 + cp mod 64"
      unfolding l_def c_def d_def using 3 by (intro byte_of_nat; auto)+
    then have s: "l AND 0xF0 = 0xE0" "cont_byte c" "cont_byte d"
      using 3 by (auto simp only: lead3_shape cont_shape)
    have "utf8_encode cp = [l, c, d]"
      using 3 by (simp add: utf8_encode_def l_def c_def d_def)
    moreover have "cp div 4096 * 4096 + (cp div 64 mod 64 * 64 + cp mod 64) = cp"
      by (rule digits_3)
    ultimately show ?thesis
      using 3 u assms check_step_3 [OF s, of rest allow] by (simp add: scalar_def) linarith
  next
    case 4
    define l c d e where "l = (of_nat (0xF0 + cp div 262144) :: u8)"
      and "c = (of_nat (0x80 + cp div 4096 mod 64) :: u8)"
      and "d = (of_nat (0x80 + cp div 64 mod 64) :: u8)" and "e = (of_nat (0x80 + cp mod 64) :: u8)"
    have u: "unat l = 0xF0 + cp div 262144" "unat c = 0x80 + cp div 4096 mod 64"
      "unat d = 0x80 + cp div 64 mod 64" "unat e = 0x80 + cp mod 64"
      unfolding l_def c_def d_def e_def using 4 by (intro byte_of_nat; auto)+
    then have s: "l AND 0xF8 = 0xF0" "cont_byte c" "cont_byte d" "cont_byte e"
      using 4 by (auto simp only: lead4_shape cont_shape)
    have "utf8_encode cp = [l, c, d, e]"
      using 4 by (simp add: utf8_encode_def l_def c_def d_def e_def)
    moreover have "cp div 262144 * 262144 + (cp div 4096 mod 64 * 4096 + (cp div 64 mod 64 * 64 + cp mod 64)) = cp"
      by (rule digits_4)
    ultimately show ?thesis
      using 4 u check_step_4 [OF s, of rest allow] by simp
  qed
qed

text \<open>Conversely, an accepted non-empty string starts with the encoding of a scalar value.\<close>

lemma check_shape:
  assumes "mpack_utf8_check_impl (l # str) allow" and "\<not> unat l < 0x80"
  shows "(l AND 0xE0 = 0xC0 \<and> (\<exists>c str'. str = c # str' \<and> cont_byte c))
       \<or> (l AND 0xF0 = 0xE0 \<and> (\<exists>c d str'. str = c # d # str' \<and> cont_byte c \<and> cont_byte d))
       \<or> (l AND 0xF8 = 0xF0 \<and>
           (\<exists>c d e str'. str = c # d # e # str' \<and> cont_byte c \<and> cont_byte d \<and> cont_byte e))"
  using assms unfolding mpack_utf8_check_impl.simps(2) byte_le Let_def
  by (simp only: if_False split: if_splits list.splits) blast+

lemma lead_of_byte: "k \<le> unat b \<Longrightarrow> of_nat (k + (unat b - k)) = (b :: u8)"
  by simp

lemma check_decode:
  assumes "mpack_utf8_check_impl (l # str) allow"
  shows "\<exists>cp rest. scalar cp \<and> l # str = utf8_encode cp @ rest"
proof (cases "unat l < 0x80")
  case True
  then have "scalar (unat l)" "l # str = utf8_encode (unat l) @ str"
    by (simp_all add: scalar_def utf8_encode_def)
  then show ?thesis by blast
next
  case False
  from check_shape [OF assms this] consider
      (two) c str' where "l AND 0xE0 = 0xC0" "str = c # str'" "cont_byte c"
    | (three) c d str' where "l AND 0xF0 = 0xE0" "str = c # d # str'" "cont_byte c" "cont_byte d"
    | (four) c d e str' where "l AND 0xF8 = 0xF0" "str = c # d # e # str'"
        "cont_byte c" "cont_byte d" "cont_byte e"
    by blast
  then show ?thesis
  proof cases
    case two
    let ?n = "(unat l - 0xC0) * 64 + (unat c - 0x80)"
    have b: "0xC0 \<le> unat l" "unat l < 0xE0" "0x80 \<le> unat c" "unat c < 0xC0"
      using two by (simp_all only: lead2_shape cont_shape)
    have n: "0x80 \<le> ?n"
      using assms two check_step_2 [OF two(1,3)] by blast
    have "utf8_encode ?n = [l, c]"
      using join_split_2 [OF _ _ n] b by (simp only: lead_of_byte)
    moreover have "scalar ?n" unfolding scalar_def using b by linarith
    ultimately show ?thesis using two by (intro exI [of _ ?n] exI [of _ str']) simp
  next
    case three
    let ?n = "(unat l - 0xE0) * 4096 + ((unat c - 0x80) * 64 + (unat d - 0x80))"
    have b: "0xE0 \<le> unat l" "unat l < 0xF0" "0x80 \<le> unat c" "unat c < 0xC0" "0x80 \<le> unat d" "unat d < 0xC0"
      using three by (simp_all only: lead3_shape cont_shape)
    have n: "0x800 \<le> ?n" "\<not> (0xD800 \<le> ?n \<and> ?n \<le> 0xDFFF)"
      using assms three check_step_3 [OF three(1,3,4)] by blast+
    have "utf8_encode ?n = [l, c, d]"
      using join_split_3 [OF _ _ _ n(1)] b by (simp only: lead_of_byte)
    moreover have "scalar ?n" using b n by (simp add: scalar_def) linarith
    ultimately show ?thesis using three by (intro exI [of _ ?n] exI [of _ str']) simp
  next
    case four
    let ?n = "(unat l - 0xF0) * 262144 + ((unat c - 0x80) * 4096 + ((unat d - 0x80) * 64 + (unat e - 0x80)))"
    have b: "0xF0 \<le> unat l" "0x80 \<le> unat c" "unat c < 0xC0" "0x80 \<le> unat d" "unat d < 0xC0"
      "0x80 \<le> unat e" "unat e < 0xC0"
      using four by (simp_all only: lead4_shape cont_shape)
    have n: "0x10000 \<le> ?n" "?n \<le> 0x10FFFF"
      using assms four check_step_4 [OF four(1,3,4,5)] by blast+
    have "utf8_encode ?n = [l, c, d, e]"
      using join_split_4 [OF _ _ _ n(1)] b by (simp only: lead_of_byte)
    moreover have "scalar ?n" using n by (simp add: scalar_def)
    ultimately show ?thesis using four by (intro exI [of _ ?n] exI [of _ str']) simp
  qed
qed

lemma utf8_encode_length: "0 < length (utf8_encode cp)"
  by (simp add: utf8_encode_def)

lemma check_encode_all:
  "\<forall>cp\<in>set cps. scalar cp \<Longrightarrow>
   mpack_utf8_check_impl (concat (map utf8_encode cps)) allow \<longleftrightarrow> allow \<or> 0 \<notin> set cps"
  by (induction cps) (auto simp: check_encode)

lemma check_decode_all:
  "mpack_utf8_check_impl bs allow \<Longrightarrow>
   \<exists>cps. (\<forall>cp\<in>set cps. scalar cp) \<and> bs = concat (map utf8_encode cps)"
proof (induction bs rule: length_induct)
  case (1 bs)
  show ?case
  proof (cases bs)
    case Nil
    then show ?thesis by (intro exI [of _ "[]"]) simp
  next
    case (Cons l str)
    with 1(2) obtain cp rest where cp: "scalar cp" "bs = utf8_encode cp @ rest"
      using check_decode by blast
    with 1(2) have "mpack_utf8_check_impl rest allow" "length rest < length bs"
      using check_encode [OF cp(1)] utf8_encode_length [of cp] by auto
    with 1(1) obtain cps where "\<forall>cp\<in>set cps. scalar cp" "rest = concat (map utf8_encode cps)"
      by blast
    with cp show ?thesis by (intro exI [of _ "cp # cps"]) simp
  qed
qed

lemma check_impl_iff:
  "mpack_utf8_check_impl bs allow \<longleftrightarrow>
   (\<exists>cps. (\<forall>cp\<in>set cps. scalar cp) \<and> (allow \<or> 0 \<notin> set cps) \<and> bs = concat (map utf8_encode cps))"
  using check_decode_all check_encode_all by blast

end
