(* ===== verification/Mpack_Reader.thy ===== *)
theory Mpack_Reader
  imports Mpack_Common
begin

text \<open>
  The buffered MessagePack decoder (\<open>mpack-reader\<close> in \<open>mpack.c\<close>), without read tracking, as
  mc_rtc builds it. \<open>r_mem\<close> is the memory that \<open>data\<close> and \<open>end\<close> point into: the reader's own
  buffer, or the caller's bytes for a reader made by \<open>mpack_reader_init_data\<close>, whose \<open>r_size\<close> is
  0. The callbacks \<open>fill\<close> and \<open>skip\<close> are arguments of the operations that may call them; the
  record says whether they are set. \<open>r_context\<close> is the stream the callbacks read from. The flag
  \<open>ext\<close> of the parsing operations is \<open>MPACK_EXTENSIONS\<close>.
\<close>

section \<open>The reader\<close>

record mpack_stream =
  st_bytes :: "u8 list"
  st_eof :: bool

record mpack_reader =
  r_context :: mpack_stream
  r_fill :: bool
  r_skip :: bool
  r_mem :: "u8 list"
  r_size :: nat
  r_data :: nat
  r_end :: nat
  r_error :: mpack_error

text \<open>
  \<open>fill(reader, p, max)\<close> stores at most \<open>max\<close> bytes at \<open>p\<close> and returns their number, or
  \<open>(size_t)-1\<close>, which is \<open>None\<close> here.
\<close>

type_synonym fill_fn = "mpack_reader \<Rightarrow> nat \<Rightarrow> mpack_reader \<times> u8 list option"
type_synonym skip_fn = "mpack_reader \<Rightarrow> nat \<Rightarrow> mpack_reader"

definition MPACK_READER_MINIMUM_BUFFER_SIZE :: nat where
  "MPACK_READER_MINIMUM_BUFFER_SIZE = 32"

definition MPACK_READER_SMALL_FRACTION_DENOMINATOR :: nat where
  "MPACK_READER_SMALL_FRACTION_DENOMINATOR = 32"

definition reader_zero :: mpack_reader where
  "reader_zero =
     \<lparr>r_context = \<lparr>st_bytes = [], st_eof = False\<rparr>, r_fill = False, r_skip = False, r_mem = [],
      r_size = 0, r_data = 0, r_end = 0, r_error = mpack_ok\<rparr>"

definition mpack_reader_init :: "u8 list \<Rightarrow> nat \<Rightarrow> mpack_reader" where
  "mpack_reader_init buffer count =
     reader_zero\<lparr>r_mem := buffer, r_size := length buffer, r_data := 0, r_end := count\<rparr>"

definition mpack_reader_init_error :: "mpack_error \<Rightarrow> mpack_reader" where
  "mpack_reader_init_error err = reader_zero\<lparr>r_error := err\<rparr>"

definition mpack_reader_init_data :: "u8 list \<Rightarrow> mpack_reader" where
  "mpack_reader_init_data bytes = reader_zero\<lparr>r_mem := bytes, r_data := 0, r_end := length bytes\<rparr>"

definition mpack_reader_flag_error :: "mpack_reader \<Rightarrow> mpack_error \<Rightarrow> mpack_reader" where
  "mpack_reader_flag_error r err =
     (if r_error r = mpack_ok then r\<lparr>r_error := err, r_end := r_data r\<rparr> else r)"

definition mpack_reader_set_fill :: "mpack_reader \<Rightarrow> mpack_reader" where
  "mpack_reader_set_fill r =
     (if r_size r = 0 then mpack_reader_flag_error r mpack_error_bug
      else if r_size r < MPACK_READER_MINIMUM_BUFFER_SIZE
      then mpack_reader_flag_error r mpack_error_bug
      else r\<lparr>r_fill := True\<rparr>)"

definition mpack_reader_set_skip :: "mpack_reader \<Rightarrow> mpack_reader" where
  "mpack_reader_set_skip r = r\<lparr>r_skip := True\<rparr>"

definition mpack_reader_left :: "mpack_reader \<Rightarrow> nat" where
  "mpack_reader_left r = r_end r - r_data r"

definition reader_window :: "mpack_reader \<Rightarrow> u8 list" where
  "reader_window r = take (mpack_reader_left r) (drop (r_data r) (r_mem r))"

definition mpack_reader_remaining :: "mpack_reader \<Rightarrow> u8 list" where
  "mpack_reader_remaining r = (if r_error r \<noteq> mpack_ok then [] else reader_window r)"

text \<open>\<open>memcpy\<close> or a callback storing \<open>bs\<close> at offset \<open>i\<close> of a block of memory.\<close>

definition mem_put :: "u8 list \<Rightarrow> nat \<Rightarrow> u8 list \<Rightarrow> u8 list" where
  "mem_put m i bs = take i m @ bs @ drop (i + length bs) m"

section \<open>Making bytes available\<close>

text \<open>
  The fill loop, with \<open>acc\<close> the bytes stored so far. The result holds every byte stored at
  \<open>p\<close> and the returned count, which is 0 after an error.
\<close>

function mpack_fill_range ::
  "fill_fn \<Rightarrow> mpack_reader \<Rightarrow> u8 list \<Rightarrow> nat \<Rightarrow> nat \<Rightarrow> mpack_reader \<times> u8 list \<times> nat" where
  "mpack_fill_range fill r acc min_bytes max_bytes =
     (if length acc < min_bytes then
        (case fill r (max_bytes - length acc) of
           (r, None) \<Rightarrow>
             if r_error r \<noteq> mpack_ok then (r, acc, 0)
             else (mpack_reader_flag_error r mpack_error_io, acc, 0)
         | (r, Some bs) \<Rightarrow>
             if r_error r \<noteq> mpack_ok then (r, acc @ bs, 0)
             else if bs = [] then (mpack_reader_flag_error r mpack_error_io, acc, 0)
             else mpack_fill_range fill r (acc @ bs) min_bytes max_bytes)
      else (r, acc, length acc))"
  by pat_completeness auto
termination
  by (relation "measure (\<lambda>(_, _, acc, m, _). m - length acc)")
    (auto intro!: diff_less_mono2 simp: length_greater_0_conv [symmetric] simp del: length_greater_0_conv)

declare mpack_fill_range.simps [simp del]

definition mpack_reader_ensure_straddle :: "fill_fn \<Rightarrow> mpack_reader \<Rightarrow> nat \<Rightarrow> mpack_reader \<times> bool" where
  "mpack_reader_ensure_straddle fill r count =
     (if \<not> r_fill r then (mpack_reader_flag_error r mpack_error_invalid, False)
      else if r_size r < count then (mpack_reader_flag_error r mpack_error_too_big, False)
      else
        let left = mpack_reader_left r;
            r = r\<lparr>r_mem := mem_put (r_mem r) 0 (reader_window r), r_end := left, r_data := 0\<rparr>;
            (r, bs, read) = mpack_fill_range fill r [] (count - left) (r_size r - left);
            r = r\<lparr>r_mem := mem_put (r_mem r) left bs\<rparr>
        in if r_error r \<noteq> mpack_ok then (r, False)
           else (r\<lparr>r_end := r_end r + read\<rparr>, True))"

definition mpack_reader_ensure :: "fill_fn \<Rightarrow> mpack_reader \<Rightarrow> nat \<Rightarrow> mpack_reader \<times> bool" where
  "mpack_reader_ensure fill r count =
     (if count \<le> mpack_reader_left r then (r, True)
      else mpack_reader_ensure_straddle fill r count)"

text \<open>
  Reads into caller memory return the reader and the bytes stored at \<open>p\<close>, from its start; cells
  past them keep their content.
\<close>

definition mpack_read_native_straddle ::
  "fill_fn \<Rightarrow> mpack_reader \<Rightarrow> nat \<Rightarrow> mpack_reader \<times> u8 list" where
  "mpack_read_native_straddle fill r count =
     (if r_error r \<noteq> mpack_ok then (r, replicate count 0)
      else let left = mpack_reader_left r in
        if count \<le> left then (mpack_reader_flag_error r mpack_error_bug, replicate count 0)
        else if \<not> r_fill r then (mpack_reader_flag_error r mpack_error_invalid, replicate count 0)
        else if r_size r = 0 then (mpack_reader_flag_error r mpack_error_io, replicate count 0)
        else
          let p = reader_window r; count = count - left; r = r\<lparr>r_data := r_data r + left\<rparr> in
          if count \<le> r_size r div MPACK_READER_SMALL_FRACTION_DENOMINATOR then
            let (r, bs, read) = mpack_fill_range fill r [] count (r_size r);
                r = r\<lparr>r_mem := mem_put (r_mem r) 0 bs\<rparr>
            in if r_error r \<noteq> mpack_ok then (r, p)
               else (r\<lparr>r_data := count, r_end := read\<rparr>, p @ take count (r_mem r))
          else
            let (r, bs, _) = mpack_fill_range fill r [] count count in (r, p @ bs))"

definition mpack_read_native :: "fill_fn \<Rightarrow> mpack_reader \<Rightarrow> nat \<Rightarrow> mpack_reader \<times> u8 list" where
  "mpack_read_native fill r count =
     (if mpack_reader_left r < count then mpack_read_native_straddle fill r count
      else (r\<lparr>r_data := r_data r + count\<rparr>, take count (drop (r_data r) (r_mem r))))"

section \<open>Skipping bytes\<close>

text \<open>
  \<open>fill\<close> is only ever set on a reader whose buffer has at least 32 bytes, so the loop that fills
  and discards whole buffers makes progress; a zero size, which \<open>set_fill\<close> excludes, ends it here.
\<close>

function skip_whole_buffers :: "fill_fn \<Rightarrow> mpack_reader \<Rightarrow> nat \<Rightarrow> mpack_reader \<times> nat \<times> bool" where
  "skip_whole_buffers fill r count =
     (if r_size r < count \<and> 0 < r_size r then
        let n = r_size r;
            (r', bs, read) = mpack_fill_range fill r [] n n;
            r'' = r'\<lparr>r_mem := mem_put (r_mem r') 0 bs\<rparr>
        in if read < n then (mpack_reader_flag_error r'' mpack_error_io, count, False)
           else skip_whole_buffers fill r'' (count - n)
      else (r, count, True))"
  by pat_completeness auto
termination
  by (relation "measure (\<lambda>(_, _, c). c)") auto

declare skip_whole_buffers.simps [simp del]

definition mpack_reader_skip_using_fill :: "fill_fn \<Rightarrow> mpack_reader \<Rightarrow> nat \<Rightarrow> mpack_reader" where
  "mpack_reader_skip_using_fill fill r count =
     (let (r, count, ok) = skip_whole_buffers fill r count in
      if \<not> ok then r
      else
        let r = r\<lparr>r_data := 0\<rparr>;
            (r, bs, read) = mpack_fill_range fill r [] count (r_size r);
            r = r\<lparr>r_mem := mem_put (r_mem r) 0 bs\<rparr>
        in if read < count then mpack_reader_flag_error r mpack_error_io
           else r\<lparr>r_end := read, r_data := count\<rparr>)"

definition mpack_skip_bytes_straddle :: "fill_fn \<Rightarrow> skip_fn \<Rightarrow> mpack_reader \<Rightarrow> nat \<Rightarrow> mpack_reader" where
  "mpack_skip_bytes_straddle fill skip r count =
     (if \<not> r_fill r then mpack_reader_flag_error r mpack_error_invalid
      else
        let count = count - mpack_reader_left r; r = r\<lparr>r_data := r_end r\<rparr> in
        if r_skip r \<and> r_size r div 16 < count then skip r count
        else mpack_reader_skip_using_fill fill r count)"

definition mpack_skip_bytes :: "fill_fn \<Rightarrow> skip_fn \<Rightarrow> mpack_reader \<Rightarrow> nat \<Rightarrow> mpack_reader" where
  "mpack_skip_bytes fill skip r count =
     (if r_error r \<noteq> mpack_ok then r
      else if count \<le> mpack_reader_left r then r\<lparr>r_data := r_data r + count\<rparr>
      else mpack_skip_bytes_straddle fill skip r count)"

section \<open>Files\<close>

text \<open>
  The C stream behind a file reader. \<open>fe_read n\<close> bounds what one \<open>fread\<close> of \<open>n\<close> bytes hands over
  before a device error; \<open>fe_seek\<close> says that \<open>ftell\<close> and \<open>fseek\<close> succeed, and \<open>fe_error\<close> that a
  failed \<open>fseek\<close> sets the stream's error flag. \<open>fseek\<close> past the end of a file succeeds.
\<close>

record file_env =
  fe_read :: "nat \<Rightarrow> nat"
  fe_tell :: bool
  fe_seek :: bool
  fe_error :: bool

definition mpack_file_reader_fill :: "file_env \<Rightarrow> fill_fn" where
  "mpack_file_reader_fill env r count =
     (if st_eof (r_context r) then (mpack_reader_flag_error r mpack_error_eof, Some [])
      else let bytes = st_bytes (r_context r);
               k = min (fe_read env count) (min count (length bytes))
           in (r\<lparr>r_context := \<lparr>st_bytes = drop k bytes, st_eof = (k = length bytes \<and> k < count)\<rparr>\<rparr>,
               Some (take k bytes)))"

definition mpack_file_reader_skip :: "file_env \<Rightarrow> skip_fn" where
  "mpack_file_reader_skip env r count =
     (if r_error r \<noteq> mpack_ok then r
      else if fe_tell env \<and> fe_seek env then
        r\<lparr>r_context := \<lparr>st_bytes = drop count (st_bytes (r_context r)), st_eof = False\<rparr>\<rparr>
      else if fe_tell env \<and> fe_error env then mpack_reader_flag_error r mpack_error_io
      else mpack_reader_skip_using_fill (mpack_file_reader_fill env) r count)"

text \<open>\<open>alloc\<close> says whether \<open>malloc\<close> succeeds; \<open>junk\<close> is what the new block holds.\<close>

definition mpack_reader_init_stdfile :: "(nat \<Rightarrow> u8 list option) \<Rightarrow> mpack_stream \<Rightarrow> mpack_reader" where
  "mpack_reader_init_stdfile alloc f =
     (case alloc 4096 of
        None \<Rightarrow> mpack_reader_init_error mpack_error_memory
      | Some buffer \<Rightarrow>
          mpack_reader_set_skip (mpack_reader_set_fill
            ((mpack_reader_init buffer 0)\<lparr>r_context := f\<rparr>)))"

definition mpack_reader_init_filename ::
  "(nat \<Rightarrow> u8 list option) \<Rightarrow> u8 list option \<Rightarrow> mpack_reader" where
  "mpack_reader_init_filename alloc f =
     (case f of
        None \<Rightarrow> mpack_reader_init_error mpack_error_io
      | Some bytes \<Rightarrow> mpack_reader_init_stdfile alloc \<lparr>st_bytes = bytes, st_eof = False\<rparr>)"

definition mpack_file_reader_teardown :: "mpack_reader \<Rightarrow> mpack_reader" where
  "mpack_file_reader_teardown r =
     r\<lparr>r_context := \<lparr>st_bytes = [], st_eof = False\<rparr>, r_size := 0, r_fill := False, r_skip := False\<rparr>"

definition mpack_file_reader_teardown_close :: "bool \<Rightarrow> mpack_reader \<Rightarrow> mpack_reader" where
  "mpack_file_reader_teardown_close close_ok r =
     mpack_file_reader_teardown (if close_ok then r else mpack_reader_flag_error r mpack_error_io)"

definition mpack_reader_destroy :: "(mpack_reader \<Rightarrow> mpack_reader) option \<Rightarrow> mpack_reader \<Rightarrow> mpack_error" where
  "mpack_reader_destroy teardown r =
     r_error (case teardown of None \<Rightarrow> r | Some f \<Rightarrow> f r)"

section \<open>Reading bytes and strings\<close>

definition mpack_read_bytes :: "fill_fn \<Rightarrow> mpack_reader \<Rightarrow> nat \<Rightarrow> mpack_reader \<times> u8 list" where
  "mpack_read_bytes fill r count = mpack_read_native fill r count"

definition mpack_read_utf8 :: "fill_fn \<Rightarrow> mpack_reader \<Rightarrow> nat \<Rightarrow> mpack_reader \<times> u8 list" where
  "mpack_read_utf8 fill r count =
     (let (r, p) = mpack_read_native fill r count in
      if r_error r = mpack_ok \<and> \<not> mpack_utf8_check (take count p)
      then (mpack_reader_flag_error r mpack_error_type, p) else (r, p))"

text \<open>
  The string readers return what \<open>buf\<close> holds from its start, the terminator included; after a
  failed read the cells that were never stored are shown as 0.
\<close>

definition mpack_read_cstr_unchecked ::
  "fill_fn \<Rightarrow> mpack_reader \<Rightarrow> nat \<Rightarrow> nat \<Rightarrow> mpack_reader \<times> u8 list" where
  "mpack_read_cstr_unchecked fill r buffer_size byte_count =
     (if r_error r \<noteq> mpack_ok then (r, [0])
      else if buffer_size - 1 < byte_count then (mpack_reader_flag_error r mpack_error_too_big, [0])
      else let (r, p) = mpack_read_native fill r byte_count in
        (r, take byte_count (p @ replicate byte_count 0) @ [0]))"

definition mpack_read_cstr :: "fill_fn \<Rightarrow> mpack_reader \<Rightarrow> nat \<Rightarrow> nat \<Rightarrow> mpack_reader \<times> u8 list" where
  "mpack_read_cstr fill r buffer_size byte_count =
     (let (r, buf) = mpack_read_cstr_unchecked fill r buffer_size byte_count in
      if r_error r = mpack_ok \<and> \<not> mpack_str_check_no_null (take byte_count buf)
      then (mpack_reader_flag_error r mpack_error_type, 0 # tl buf) else (r, buf))"

definition mpack_read_utf8_cstr :: "fill_fn \<Rightarrow> mpack_reader \<Rightarrow> nat \<Rightarrow> nat \<Rightarrow> mpack_reader \<times> u8 list" where
  "mpack_read_utf8_cstr fill r buffer_size byte_count =
     (let (r, buf) = mpack_read_cstr_unchecked fill r buffer_size byte_count in
      if r_error r = mpack_ok \<and> \<not> mpack_utf8_check_no_null (take byte_count buf)
      then (mpack_reader_flag_error r mpack_error_type, 0 # tl buf) else (r, buf))"

definition mpack_read_bytes_alloc_impl ::
  "(nat \<Rightarrow> bool) \<Rightarrow> fill_fn \<Rightarrow> mpack_reader \<Rightarrow> nat \<Rightarrow> bool \<Rightarrow> mpack_reader \<times> u8 list option" where
  "mpack_read_bytes_alloc_impl alloc fill r count null_terminated =
     (if r_error r \<noteq> mpack_ok then (r, None)
      else if count = 0 \<and> \<not> null_terminated then (r, None)
      else if \<not> alloc (count + (if null_terminated then 1 else 0))
      then (mpack_reader_flag_error r mpack_error_memory, None)
      else let (r, p) = mpack_read_native fill r count in
        if r_error r \<noteq> mpack_ok then (r, None)
        else (r, Some (if null_terminated then p @ [0] else p)))"

definition mpack_read_bytes_inplace_notrack ::
  "fill_fn \<Rightarrow> mpack_reader \<Rightarrow> nat \<Rightarrow> mpack_reader \<times> u8 list option" where
  "mpack_read_bytes_inplace_notrack fill r count =
     (if r_error r \<noteq> mpack_ok then (r, None)
      else if count \<le> mpack_reader_left r
      then (r\<lparr>r_data := r_data r + count\<rparr>, Some (take count (drop (r_data r) (r_mem r))))
      else let (r, ok) = mpack_reader_ensure fill r count in
        if \<not> ok then (r, None)
        else (r\<lparr>r_data := r_data r + count\<rparr>, Some (take count (drop (r_data r) (r_mem r)))))"

definition mpack_read_bytes_inplace :: "fill_fn \<Rightarrow> mpack_reader \<Rightarrow> nat \<Rightarrow> mpack_reader \<times> u8 list option" where
  "mpack_read_bytes_inplace fill r count = mpack_read_bytes_inplace_notrack fill r count"

definition mpack_read_utf8_inplace :: "fill_fn \<Rightarrow> mpack_reader \<Rightarrow> nat \<Rightarrow> mpack_reader \<times> u8 list option" where
  "mpack_read_utf8_inplace fill r count =
     (let (r, s) = mpack_read_bytes_inplace_notrack fill r count in
      if r_error r = mpack_ok \<and> \<not> mpack_utf8_check (case s of None \<Rightarrow> [] | Some s \<Rightarrow> s)
      then (mpack_reader_flag_error r mpack_error_type, None) else (r, s))"

definition mpack_should_read_bytes_inplace :: "mpack_reader \<Rightarrow> nat \<Rightarrow> bool" where
  "mpack_should_read_bytes_inplace r count =
     (r_size r = 0 \<or> count \<le> r_size r div MPACK_READER_SMALL_FRACTION_DENOMINATOR)"

section \<open>Tags\<close>

text \<open>
  The cases of the big switch over the first byte, in its order. An entry is the size the case
  ensures and returns, and the tag it builds from the bytes at \<open>data\<close>. Infix types carry their
  payload in the first byte; the size-optimised build finds them by the top four bits.
\<close>

definition tag_infix :: "u8 \<Rightarrow> mpack_tag option" where
  "tag_infix b =
     (if b \<le> 0x7F then Some (Tag_uint (ucast b))
      else if 0xE0 \<le> b then Some (Tag_int (scast b))
      else if 0x80 \<le> b \<and> b \<le> 0x8F then Some (Tag_map (ucast (b AND NOT 0xF0)))
      else if 0x90 \<le> b \<and> b \<le> 0x9F then Some (Tag_array (ucast (b AND NOT 0xF0)))
      else if 0xA0 \<le> b \<and> b \<le> 0xBF then Some (Tag_str (ucast (b AND NOT 0xE0)))
      else None)"

definition tag_infix_for_size :: "u8 \<Rightarrow> mpack_tag option" where
  "tag_infix_for_size b =
     (let hi = drop_bit 4 b in
      if hi \<in> {0x0, 0x1, 0x2, 0x3, 0x4, 0x5, 0x6, 0x7} then Some (Tag_uint (ucast b))
      else if hi \<in> {0xE, 0xF} then Some (Tag_int (scast b))
      else if hi = 0x8 then Some (Tag_map (ucast (b AND NOT 0xF0)))
      else if hi = 0x9 then Some (Tag_array (ucast (b AND NOT 0xF0)))
      else if hi \<in> {0xA, 0xB} then Some (Tag_str (ucast (b AND NOT 0xE0)))
      else None)"

type_synonym tag_entry = "nat \<times> (u8 list \<Rightarrow> mpack_tag)"

definition tag_nil_to_ext :: "bool \<Rightarrow> u8 \<Rightarrow> tag_entry option" where
  "tag_nil_to_ext ext b =
     (if b = 0xC0 then Some (1, \<lambda>p. Tag_nil)
      else if b = 0xC2 \<or> b = 0xC3 then Some (1, \<lambda>p. Tag_bool (b AND 1 \<noteq> 0))
      else if b = 0xC4 then Some (2, \<lambda>p. Tag_bin (ucast (mpack_load_u8 (drop 1 p))))
      else if b = 0xC5 then Some (3, \<lambda>p. Tag_bin (ucast (mpack_load_u16 (drop 1 p))))
      else if b = 0xC6 then Some (5, \<lambda>p. Tag_bin (mpack_load_u32 (drop 1 p)))
      else if ext \<and> b = 0xC7 then Some (3, \<lambda>p. Tag_ext (mpack_load_u8 (drop 2 p)) (ucast (mpack_load_u8 (drop 1 p))))
      else if ext \<and> b = 0xC8 then Some (4, \<lambda>p. Tag_ext (mpack_load_u8 (drop 3 p)) (ucast (mpack_load_u16 (drop 1 p))))
      else if ext \<and> b = 0xC9 then Some (6, \<lambda>p. Tag_ext (mpack_load_u8 (drop 5 p)) (mpack_load_u32 (drop 1 p)))
      else None)"

definition tag_numbers :: "u8 \<Rightarrow> tag_entry option" where
  "tag_numbers b =
     (if b = 0xCA then Some (5, \<lambda>p. Tag_float (mpack_load_u32 (drop 1 p)))
      else if b = 0xCB then Some (9, \<lambda>p. Tag_double (mpack_load_u64 (drop 1 p)))
      else if b = 0xCC then Some (2, \<lambda>p. Tag_uint (ucast (mpack_load_u8 (drop 1 p))))
      else if b = 0xCD then Some (3, \<lambda>p. Tag_uint (ucast (mpack_load_u16 (drop 1 p))))
      else if b = 0xCE then Some (5, \<lambda>p. Tag_uint (ucast (mpack_load_u32 (drop 1 p))))
      else if b = 0xCF then Some (9, \<lambda>p. Tag_uint (mpack_load_u64 (drop 1 p)))
      else if b = 0xD0 then Some (2, \<lambda>p. Tag_int (scast (mpack_load_u8 (drop 1 p))))
      else if b = 0xD1 then Some (3, \<lambda>p. Tag_int (scast (mpack_load_u16 (drop 1 p))))
      else if b = 0xD2 then Some (5, \<lambda>p. Tag_int (scast (mpack_load_u32 (drop 1 p))))
      else if b = 0xD3 then Some (9, \<lambda>p. Tag_int (mpack_load_u64 (drop 1 p)))
      else None)"

definition tag_fixext_to_map :: "bool \<Rightarrow> u8 \<Rightarrow> tag_entry option" where
  "tag_fixext_to_map ext b =
     (if ext \<and> b = 0xD4 then Some (2, \<lambda>p. Tag_ext (mpack_load_u8 (drop 1 p)) 1)
      else if ext \<and> b = 0xD5 then Some (2, \<lambda>p. Tag_ext (mpack_load_u8 (drop 1 p)) 2)
      else if ext \<and> b = 0xD6 then Some (2, \<lambda>p. Tag_ext (mpack_load_u8 (drop 1 p)) 4)
      else if ext \<and> b = 0xD7 then Some (2, \<lambda>p. Tag_ext (mpack_load_u8 (drop 1 p)) 8)
      else if ext \<and> b = 0xD8 then Some (2, \<lambda>p. Tag_ext (mpack_load_u8 (drop 1 p)) 16)
      else if b = 0xD9 then Some (2, \<lambda>p. Tag_str (ucast (mpack_load_u8 (drop 1 p))))
      else if b = 0xDA then Some (3, \<lambda>p. Tag_str (ucast (mpack_load_u16 (drop 1 p))))
      else if b = 0xDB then Some (5, \<lambda>p. Tag_str (mpack_load_u32 (drop 1 p)))
      else if b = 0xDC then Some (3, \<lambda>p. Tag_array (ucast (mpack_load_u16 (drop 1 p))))
      else if b = 0xDD then Some (5, \<lambda>p. Tag_array (mpack_load_u32 (drop 1 p)))
      else if b = 0xDE then Some (3, \<lambda>p. Tag_map (ucast (mpack_load_u16 (drop 1 p))))
      else if b = 0xDF then Some (5, \<lambda>p. Tag_map (mpack_load_u32 (drop 1 p)))
      else None)"

text \<open>The whole switch: an entry, or the error of the reserved and unsupported bytes.\<close>

definition tag_switch :: "bool \<Rightarrow> u8 \<Rightarrow> mpack_error + tag_entry" where
  "tag_switch ext b =
     (case tag_infix b of Some t \<Rightarrow> Inr (1, \<lambda>p. t) | None \<Rightarrow>
      case tag_nil_to_ext ext b of Some e \<Rightarrow> Inr e | None \<Rightarrow>
      case tag_numbers b of Some e \<Rightarrow> Inr e | None \<Rightarrow>
      case tag_fixext_to_map ext b of Some e \<Rightarrow> Inr e | None \<Rightarrow>
      Inl (if b = 0xC1 then mpack_error_invalid else mpack_error_unsupported))"

definition mpack_parse_tag :: "fill_fn \<Rightarrow> bool \<Rightarrow> mpack_reader \<Rightarrow> mpack_reader \<times> mpack_tag \<times> nat" where
  "mpack_parse_tag fill ext r =
     (let (r, ok) = mpack_reader_ensure fill r 1 in
      if \<not> ok then (r, Tag_missing, 0)
      else case tag_switch ext (mpack_load_u8 (reader_window r)) of
          Inl err \<Rightarrow> (mpack_reader_flag_error r err, Tag_missing, 0)
        | Inr (n, mk) \<Rightarrow>
            let (r, ok) = mpack_reader_ensure fill r n in
            if \<not> ok then (r, Tag_missing, 0) else (r, mk (reader_window r), n))"

definition mpack_read_tag :: "fill_fn \<Rightarrow> bool \<Rightarrow> mpack_reader \<Rightarrow> mpack_reader \<times> mpack_tag" where
  "mpack_read_tag fill ext r =
     (if r_error r \<noteq> mpack_ok then (r, Tag_nil)
      else let (r, tag, count) = mpack_parse_tag fill ext r in
        if count = 0 then (r, Tag_nil) else (r\<lparr>r_data := r_data r + count\<rparr>, tag))"

definition mpack_peek_tag :: "fill_fn \<Rightarrow> bool \<Rightarrow> mpack_reader \<Rightarrow> mpack_reader \<times> mpack_tag" where
  "mpack_peek_tag fill ext r =
     (if r_error r \<noteq> mpack_ok then (r, Tag_nil)
      else let (r, tag, count) = mpack_parse_tag fill ext r in
        if count = 0 then (r, Tag_nil) else (r, tag))"

section \<open>Discarding an object\<close>

text \<open>
  \<open>mpack_discard\<close> calls itself for the elements of a compound object. Fuel bounds the calls;
  \<open>None\<close> is running out of it. The closing calls \<open>mpack_done_*\<close> are empty without tracking.
\<close>

fun mpack_discard ::
    "fill_fn \<Rightarrow> skip_fn \<Rightarrow> bool \<Rightarrow> nat \<Rightarrow> mpack_reader \<Rightarrow> mpack_reader option"
  and discard_array ::
    "fill_fn \<Rightarrow> skip_fn \<Rightarrow> bool \<Rightarrow> nat \<Rightarrow> nat \<Rightarrow> mpack_reader \<Rightarrow> mpack_reader option"
  and discard_map ::
    "fill_fn \<Rightarrow> skip_fn \<Rightarrow> bool \<Rightarrow> nat \<Rightarrow> nat \<Rightarrow> mpack_reader \<Rightarrow> mpack_reader option" where
  "mpack_discard fill skip ext 0 r = None"
| "mpack_discard fill skip ext (Suc fuel) r =
     (let (r, var) = mpack_read_tag fill ext r in
      if r_error r \<noteq> mpack_ok then Some r
      else case var of
          Tag_str l \<Rightarrow> Some (mpack_skip_bytes fill skip r (unat l))
        | Tag_bin l \<Rightarrow> Some (mpack_skip_bytes fill skip r (unat l))
        | Tag_ext _ l \<Rightarrow> Some (mpack_skip_bytes fill skip r (unat l))
        | Tag_array n \<Rightarrow> discard_array fill skip ext fuel (unat n) r
        | Tag_map n \<Rightarrow> discard_map fill skip ext fuel (unat n) r
        | _ \<Rightarrow> Some r)"
| "discard_array fill skip ext fuel 0 r = Some r"
| "discard_array fill skip ext 0 (Suc n) r = None"
| "discard_array fill skip ext (Suc fuel) (Suc n) r =
     (case mpack_discard fill skip ext fuel r of
        None \<Rightarrow> None
      | Some r \<Rightarrow> if r_error r \<noteq> mpack_ok then Some r else discard_array fill skip ext fuel n r)"
| "discard_map fill skip ext fuel 0 r = Some r"
| "discard_map fill skip ext 0 (Suc n) r = None"
| "discard_map fill skip ext (Suc fuel) (Suc n) r =
     (case mpack_discard fill skip ext fuel r of
        None \<Rightarrow> None
      | Some r \<Rightarrow>
          case mpack_discard fill skip ext fuel r of
            None \<Rightarrow> None
          | Some r \<Rightarrow> if r_error r \<noteq> mpack_ok then Some r else discard_map fill skip ext fuel n r)"

section \<open>Timestamps\<close>

definition mpack_read_timestamp :: "fill_fn \<Rightarrow> mpack_reader \<Rightarrow> nat \<Rightarrow> mpack_reader \<times> u64 \<times> u32" where
  "mpack_read_timestamp fill r sz =
     (if sz \<noteq> 4 \<and> sz \<noteq> 8 \<and> sz \<noteq> 12 then (mpack_reader_flag_error r mpack_error_invalid, 0, 0)
      else let (r, buf) = mpack_read_bytes fill r sz in
        if r_error r \<noteq> mpack_ok then (r, 0, 0)
        else let (seconds, nanoseconds) =
            (if sz = 4 then (ucast (mpack_load_u32 buf), 0)
             else if sz = 8 then
               (mpack_load_u64 buf AND (push_bit 34 1 - 1), ucast (drop_bit 34 (mpack_load_u64 buf)))
             else (mpack_load_u64 (drop 4 buf), mpack_load_u32 buf))
          in if 999999999 < nanoseconds then (mpack_reader_flag_error r mpack_error_invalid, 0, 0)
             else (r, seconds, nanoseconds))"

end
