(* ===== verification/Mpack_Writer.thy ===== *)
theory Mpack_Writer
  imports Mpack_Common
begin

text \<open>
  The buffered MessagePack encoder (\<open>mpack-writer\<close> in \<open>mpack.c\<close>), in the configuration mc_rtc
  builds: no tracking, no v4 compatibility, speed-optimised. A writer is a buffer, a position in
  it, an error flag and, optionally, a flush function. \<open>writer->flush\<close> is a function pointer:
  the record says whether it is set (\<open>w_flush\<close>), and the function it points to is the first
  argument of every operation that may call it. \<open>w_context\<close> holds the bytes that have left the
  buffer for good (the file behind a file writer). Buffer sizes are natural numbers: the objects
  they measure exist in memory, so \<open>size_t\<close> does not wrap.
\<close>

section \<open>The writer\<close>

record mpack_writer =
  w_flush :: bool
  w_context :: "u8 list"
  w_buffer :: "u8 list"
  w_current :: nat
  w_error :: mpack_error

text \<open>
  \<open>flush(writer, data, count)\<close> is called in two ways: with the writer's own buffer as \<open>data\<close>,
  or with bytes from elsewhere.
\<close>

datatype flush_data = From_buffer nat | External "u8 list"

type_synonym flush_fn = "mpack_writer \<Rightarrow> flush_data \<Rightarrow> mpack_writer"

definition MPACK_WRITER_MINIMUM_BUFFER_SIZE :: nat where
  "MPACK_WRITER_MINIMUM_BUFFER_SIZE = 32"

definition MPACK_BUFFER_SIZE :: nat where
  "MPACK_BUFFER_SIZE = 4096"

definition mpack_writer_buffer_used :: "mpack_writer \<Rightarrow> nat" where
  "mpack_writer_buffer_used w = w_current w"

definition mpack_writer_buffer_left :: "mpack_writer \<Rightarrow> nat" where
  "mpack_writer_buffer_left w = length (w_buffer w) - w_current w"

definition mpack_writer_buffer_size :: "mpack_writer \<Rightarrow> nat" where
  "mpack_writer_buffer_size w = length (w_buffer w)"

definition mpack_writer_clear :: mpack_writer where
  "mpack_writer_clear =
     \<lparr>w_flush = False, w_context = [], w_buffer = [], w_current = 0, w_error = mpack_ok\<rparr>"

definition mpack_writer_init :: "u8 list \<Rightarrow> mpack_writer" where
  "mpack_writer_init buffer = mpack_writer_clear\<lparr>w_buffer := buffer, w_current := 0\<rparr>"

definition mpack_writer_init_error :: "mpack_error \<Rightarrow> mpack_writer" where
  "mpack_writer_init_error err = mpack_writer_clear\<lparr>w_error := err\<rparr>"

definition mpack_writer_flag_error :: "mpack_writer \<Rightarrow> mpack_error \<Rightarrow> mpack_writer" where
  "mpack_writer_flag_error w err = (if w_error w = mpack_ok then w\<lparr>w_error := err\<rparr> else w)"

definition mpack_writer_set_flush :: "mpack_writer \<Rightarrow> mpack_writer" where
  "mpack_writer_set_flush w =
     (if mpack_writer_buffer_size w < MPACK_WRITER_MINIMUM_BUFFER_SIZE
      then mpack_writer_flag_error w mpack_error_bug
      else w\<lparr>w_flush := True\<rparr>)"

text \<open>\<open>memcpy(writer->current, p, count); writer->current += count;\<close>\<close>

definition writer_put :: "mpack_writer \<Rightarrow> u8 list \<Rightarrow> mpack_writer" where
  "writer_put w p =
     w\<lparr>w_buffer := take (w_current w) (w_buffer w) @ p @ drop (w_current w + length p) (w_buffer w),
       w_current := w_current w + length p\<rparr>"

section \<open>Flushing and raw writes\<close>

definition mpack_writer_flush_unchecked :: "flush_fn \<Rightarrow> mpack_writer \<Rightarrow> mpack_writer" where
  "mpack_writer_flush_unchecked flush w =
     (let used = mpack_writer_buffer_used w in flush (w\<lparr>w_current := 0\<rparr>) (From_buffer used))"

definition mpack_writer_flush_message :: "flush_fn \<Rightarrow> mpack_writer \<Rightarrow> mpack_writer" where
  "mpack_writer_flush_message flush w =
     (if w_error w \<noteq> mpack_ok then w
      else if \<not> w_flush w then mpack_writer_flag_error w mpack_error_bug
      else if 0 < mpack_writer_buffer_used w then mpack_writer_flush_unchecked flush w
      else w)"

definition mpack_writer_ensure :: "flush_fn \<Rightarrow> mpack_writer \<Rightarrow> nat \<Rightarrow> mpack_writer \<times> bool" where
  "mpack_writer_ensure flush w count =
     (if w_error w \<noteq> mpack_ok then (w, False)
      else if \<not> w_flush w then (mpack_writer_flag_error w mpack_error_too_big, False)
      else let w = mpack_writer_flush_unchecked flush w in
        if w_error w \<noteq> mpack_ok then (w, False)
        else if count \<le> mpack_writer_buffer_left w then (w, True)
        else (mpack_writer_flag_error w mpack_error_io, False))"

definition mpack_write_native_straddle :: "flush_fn \<Rightarrow> mpack_writer \<Rightarrow> u8 list \<Rightarrow> mpack_writer" where
  "mpack_write_native_straddle flush w p =
     (if w_error w \<noteq> mpack_ok then w
      else if \<not> w_flush w then mpack_writer_flag_error w mpack_error_too_big
      else let w = mpack_writer_flush_unchecked flush w in
        if w_error w \<noteq> mpack_ok then w
        else if mpack_writer_buffer_left w < length p then flush w (External p)
        else writer_put w p)"

definition mpack_write_native :: "flush_fn \<Rightarrow> mpack_writer \<Rightarrow> u8 list \<Rightarrow> mpack_writer" where
  "mpack_write_native flush w p =
     (if mpack_writer_buffer_left w < length p then mpack_write_native_straddle flush w p
      else writer_put w p)"

text \<open>
  The teardown callback, when one is set, is run by the caller on the result; the function
  pointers are cleared and the error is the result.
\<close>

definition mpack_writer_destroy :: "flush_fn \<Rightarrow> mpack_writer \<Rightarrow> mpack_writer" where
  "mpack_writer_destroy flush w =
     (if w_error w = mpack_ok \<and> mpack_writer_buffer_used w \<noteq> 0 \<and> w_flush w
      then (flush w (From_buffer (mpack_writer_buffer_used w)))\<lparr>w_flush := False\<rparr>
      else w)"

text \<open>The macro \<open>MPACK_WRITE_ENCODED\<close>: encode into the buffer, making room first if needed.\<close>

definition MPACK_WRITE_ENCODED :: "flush_fn \<Rightarrow> mpack_writer \<Rightarrow> nat \<Rightarrow> u8 list \<Rightarrow> mpack_writer" where
  "MPACK_WRITE_ENCODED flush w sz p =
     (if sz \<le> mpack_writer_buffer_left w then writer_put w p
      else let (w, ok) = mpack_writer_ensure flush w sz in if ok then writer_put w p else w)"

section \<open>Growing buffers\<close>

text \<open>
  The loop that doubles the new size until the data fits. It is entered with twice the size of
  a buffer that \<open>set_flush\<close> accepted, so its start value is positive.
\<close>

function grow_size :: "nat \<Rightarrow> nat \<Rightarrow> nat" where
  "grow_size new_size need =
     (if 0 < new_size \<and> new_size < need then grow_size (new_size * 2) need else new_size)"
  by pat_completeness auto
termination
  by (relation "measure (\<lambda>(n, need). need - n)") auto

declare grow_size.simps [simp del]

text \<open>
  \<open>mpack_growable_writer_flush\<close>. \<open>alloc n\<close> tells whether the reallocation to \<open>n\<close> bytes
  succeeds. The bytes past the copied ones are indeterminate in C; they are 0 here and are never
  part of the output.
\<close>

definition mpack_growable_writer_flush :: "(nat \<Rightarrow> bool) \<Rightarrow> flush_fn" where
  "mpack_growable_writer_flush alloc w data =
     (let grow = (\<lambda>w extra.
        let used = mpack_writer_buffer_used w;
            size = mpack_writer_buffer_size w;
            new_size = grow_size (size * 2) (used + length extra)
        in if \<not> alloc new_size then mpack_writer_flag_error w mpack_error_memory
           else let w = w\<lparr>w_buffer := take used (w_buffer w) @ replicate (new_size - used) 0, w_current := used\<rparr>
                in if 0 < length extra then writer_put w extra else w)
      in case data of
           From_buffer count \<Rightarrow>
             if mpack_writer_buffer_used w = count then w
             else grow (w\<lparr>w_current := count\<rparr>) []
         | External extra \<Rightarrow> grow w extra)"

text \<open>
  \<open>mpack_file_writer_flush\<close>: \<open>fwrite\<close> either takes all bytes, or takes only the first \<open>k\<close> and
  the error is flagged. \<open>fw n\<close> is the number of bytes \<open>fwrite\<close> takes when given \<open>n\<close>.
\<close>

definition mpack_file_writer_flush :: "(nat \<Rightarrow> nat) \<Rightarrow> flush_fn" where
  "mpack_file_writer_flush fw w data =
     (let bytes = (case data of From_buffer count \<Rightarrow> take count (w_buffer w) | External extra \<Rightarrow> extra);
          written = fw (length bytes);
          w = w\<lparr>w_context := w_context w @ take written bytes\<rparr>
      in if written \<noteq> length bytes then mpack_writer_flag_error w mpack_error_io else w)"

text \<open>
  \<open>mpack_growable_writer_teardown\<close>: the buffer handed to the caller (\<open>target_data\<close> with
  \<open>target_size\<close> valid bytes), shrunk first when it is less than half full, or nothing when the
  writer is in an error state.
\<close>

definition mpack_growable_writer_teardown :: "(nat \<Rightarrow> bool) \<Rightarrow> mpack_writer \<Rightarrow> mpack_writer \<times> (u8 list \<times> nat) option" where
  "mpack_growable_writer_teardown alloc w =
     (if w_error w = mpack_ok then
        let used = mpack_writer_buffer_used w in
        if used < mpack_writer_buffer_size w div 2 then
          let sz = (if used \<noteq> 0 then used else 1) in
          if \<not> alloc sz then (mpack_writer_flag_error w mpack_error_memory, None)
          else let buffer = take used (w_buffer w) @ replicate (sz - used) 0
               in (w\<lparr>w_buffer := [], w_current := 0\<rparr>, Some (buffer, used))
        else (w\<lparr>w_buffer := [], w_current := 0\<rparr>, Some (w_buffer w, used))
      else (w\<lparr>w_buffer := [], w_current := 0\<rparr>, None))"

definition mpack_writer_init_growable :: "(nat \<Rightarrow> bool) \<Rightarrow> mpack_writer" where
  "mpack_writer_init_growable alloc =
     (let capacity = MPACK_BUFFER_SIZE in
      if \<not> alloc capacity then mpack_writer_init_error mpack_error_memory
      else mpack_writer_set_flush (mpack_writer_init (replicate capacity 0)))"

section \<open>Encoding headers\<close>

definition mpack_encode_fixuint :: "u8 \<Rightarrow> u8 list" where
  "mpack_encode_fixuint value = mpack_store_u8 value"

definition mpack_encode_u8 :: "u8 \<Rightarrow> u8 list" where
  "mpack_encode_u8 value = mpack_store_u8 0xcc @ mpack_store_u8 value"

definition mpack_encode_u16 :: "u16 \<Rightarrow> u8 list" where
  "mpack_encode_u16 value = mpack_store_u8 0xcd @ mpack_store_u16 value"

definition mpack_encode_u32 :: "u32 \<Rightarrow> u8 list" where
  "mpack_encode_u32 value = mpack_store_u8 0xce @ mpack_store_u32 value"

definition mpack_encode_u64 :: "u64 \<Rightarrow> u8 list" where
  "mpack_encode_u64 value = mpack_store_u8 0xcf @ mpack_store_u64 value"

definition mpack_encode_fixint :: "u8 \<Rightarrow> u8 list" where
  "mpack_encode_fixint value = mpack_store_u8 value"

definition mpack_encode_i8 :: "u8 \<Rightarrow> u8 list" where
  "mpack_encode_i8 value = mpack_store_u8 0xd0 @ mpack_store_u8 value"

definition mpack_encode_i16 :: "u16 \<Rightarrow> u8 list" where
  "mpack_encode_i16 value = mpack_store_u8 0xd1 @ mpack_store_u16 value"

definition mpack_encode_i32 :: "u32 \<Rightarrow> u8 list" where
  "mpack_encode_i32 value = mpack_store_u8 0xd2 @ mpack_store_u32 value"

definition mpack_encode_i64 :: "u64 \<Rightarrow> u8 list" where
  "mpack_encode_i64 value = mpack_store_u8 0xd3 @ mpack_store_u64 value"

definition mpack_encode_float :: "u32 \<Rightarrow> u8 list" where
  "mpack_encode_float value = mpack_store_u8 0xca @ mpack_store_u32 value"

definition mpack_encode_double :: "u64 \<Rightarrow> u8 list" where
  "mpack_encode_double value = mpack_store_u8 0xcb @ mpack_store_u64 value"

definition mpack_encode_fixarray :: "u8 \<Rightarrow> u8 list" where
  "mpack_encode_fixarray count = mpack_store_u8 (0x90 OR count)"

definition mpack_encode_array16 :: "u16 \<Rightarrow> u8 list" where
  "mpack_encode_array16 count = mpack_store_u8 0xdc @ mpack_store_u16 count"

definition mpack_encode_array32 :: "u32 \<Rightarrow> u8 list" where
  "mpack_encode_array32 count = mpack_store_u8 0xdd @ mpack_store_u32 count"

definition mpack_encode_fixmap :: "u8 \<Rightarrow> u8 list" where
  "mpack_encode_fixmap count = mpack_store_u8 (0x80 OR count)"

definition mpack_encode_map16 :: "u16 \<Rightarrow> u8 list" where
  "mpack_encode_map16 count = mpack_store_u8 0xde @ mpack_store_u16 count"

definition mpack_encode_map32 :: "u32 \<Rightarrow> u8 list" where
  "mpack_encode_map32 count = mpack_store_u8 0xdf @ mpack_store_u32 count"

definition mpack_encode_fixstr :: "u8 \<Rightarrow> u8 list" where
  "mpack_encode_fixstr count = mpack_store_u8 (0xa0 OR count)"

definition mpack_encode_str8 :: "u8 \<Rightarrow> u8 list" where
  "mpack_encode_str8 count = mpack_store_u8 0xd9 @ mpack_store_u8 count"

definition mpack_encode_str16 :: "u16 \<Rightarrow> u8 list" where
  "mpack_encode_str16 count = mpack_store_u8 0xda @ mpack_store_u16 count"

definition mpack_encode_str32 :: "u32 \<Rightarrow> u8 list" where
  "mpack_encode_str32 count = mpack_store_u8 0xdb @ mpack_store_u32 count"

definition mpack_encode_bin8 :: "u8 \<Rightarrow> u8 list" where
  "mpack_encode_bin8 count = mpack_store_u8 0xc4 @ mpack_store_u8 count"

definition mpack_encode_bin16 :: "u16 \<Rightarrow> u8 list" where
  "mpack_encode_bin16 count = mpack_store_u8 0xc5 @ mpack_store_u16 count"

definition mpack_encode_bin32 :: "u32 \<Rightarrow> u8 list" where
  "mpack_encode_bin32 count = mpack_store_u8 0xc6 @ mpack_store_u32 count"

definition mpack_encode_fixext1 :: "u8 \<Rightarrow> u8 list" where
  "mpack_encode_fixext1 exttype = mpack_store_u8 0xd4 @ mpack_store_u8 exttype"

definition mpack_encode_fixext2 :: "u8 \<Rightarrow> u8 list" where
  "mpack_encode_fixext2 exttype = mpack_store_u8 0xd5 @ mpack_store_u8 exttype"

definition mpack_encode_fixext4 :: "u8 \<Rightarrow> u8 list" where
  "mpack_encode_fixext4 exttype = mpack_store_u8 0xd6 @ mpack_store_u8 exttype"

definition mpack_encode_fixext8 :: "u8 \<Rightarrow> u8 list" where
  "mpack_encode_fixext8 exttype = mpack_store_u8 0xd7 @ mpack_store_u8 exttype"

definition mpack_encode_fixext16 :: "u8 \<Rightarrow> u8 list" where
  "mpack_encode_fixext16 exttype = mpack_store_u8 0xd8 @ mpack_store_u8 exttype"

definition mpack_encode_ext8 :: "u8 \<Rightarrow> u8 \<Rightarrow> u8 list" where
  "mpack_encode_ext8 exttype count = mpack_store_u8 0xc7 @ mpack_store_u8 count @ mpack_store_u8 exttype"

definition mpack_encode_ext16 :: "u8 \<Rightarrow> u16 \<Rightarrow> u8 list" where
  "mpack_encode_ext16 exttype count = mpack_store_u8 0xc8 @ mpack_store_u16 count @ mpack_store_u8 exttype"

definition mpack_encode_ext32 :: "u8 \<Rightarrow> u32 \<Rightarrow> u8 list" where
  "mpack_encode_ext32 exttype count = mpack_store_u8 0xc9 @ mpack_store_u32 count @ mpack_store_u8 exttype"

definition MPACK_EXTTYPE_TIMESTAMP :: u8 where
  "MPACK_EXTTYPE_TIMESTAMP = - 1"

definition MPACK_TIMESTAMP_NANOSECONDS_MAX :: u32 where
  "MPACK_TIMESTAMP_NANOSECONDS_MAX = 999999999"

definition mpack_encode_timestamp_4 :: "u32 \<Rightarrow> u8 list" where
  "mpack_encode_timestamp_4 seconds =
     mpack_encode_fixext4 MPACK_EXTTYPE_TIMESTAMP @ mpack_store_u32 seconds"

definition mpack_encode_timestamp_8 :: "u64 \<Rightarrow> u32 \<Rightarrow> u8 list" where
  "mpack_encode_timestamp_8 seconds nanoseconds =
     mpack_encode_fixext8 MPACK_EXTTYPE_TIMESTAMP
     @ mpack_store_u64 (push_bit 34 (ucast nanoseconds) OR seconds)"

definition mpack_encode_timestamp_12 :: "u64 \<Rightarrow> u32 \<Rightarrow> u8 list" where
  "mpack_encode_timestamp_12 seconds nanoseconds =
     mpack_encode_ext8 MPACK_EXTTYPE_TIMESTAMP 12
     @ mpack_store_u32 nanoseconds @ mpack_store_u64 seconds"

lemmas encode_defs =
  mpack_encode_fixuint_def mpack_encode_u8_def mpack_encode_u16_def mpack_encode_u32_def
  mpack_encode_u64_def mpack_encode_fixint_def mpack_encode_i8_def mpack_encode_i16_def
  mpack_encode_i32_def mpack_encode_i64_def mpack_encode_float_def mpack_encode_double_def
  mpack_encode_fixarray_def mpack_encode_array16_def mpack_encode_array32_def
  mpack_encode_fixmap_def mpack_encode_map16_def mpack_encode_map32_def
  mpack_encode_fixstr_def mpack_encode_str8_def mpack_encode_str16_def mpack_encode_str32_def
  mpack_encode_bin8_def mpack_encode_bin16_def mpack_encode_bin32_def
  mpack_encode_fixext1_def mpack_encode_fixext2_def mpack_encode_fixext4_def
  mpack_encode_fixext8_def mpack_encode_fixext16_def
  mpack_encode_ext8_def mpack_encode_ext16_def mpack_encode_ext32_def
  mpack_encode_timestamp_4_def mpack_encode_timestamp_8_def mpack_encode_timestamp_12_def

section \<open>Writing elements\<close>

definition mpack_write_byte_element :: "flush_fn \<Rightarrow> mpack_writer \<Rightarrow> u8 \<Rightarrow> mpack_writer" where
  "mpack_write_byte_element flush w value =
     (if 1 \<le> mpack_writer_buffer_left w then writer_put w [value]
      else let (w, ok) = mpack_writer_ensure flush w 1 in if ok then writer_put w [value] else w)"

definition mpack_write_nil :: "flush_fn \<Rightarrow> mpack_writer \<Rightarrow> mpack_writer" where
  "mpack_write_nil flush w = mpack_write_byte_element flush w 0xc0"

definition mpack_write_bool :: "flush_fn \<Rightarrow> mpack_writer \<Rightarrow> bool \<Rightarrow> mpack_writer" where
  "mpack_write_bool flush w value = mpack_write_byte_element flush w (0xc2 OR (if value then 1 else 0))"

definition mpack_write_true :: "flush_fn \<Rightarrow> mpack_writer \<Rightarrow> mpack_writer" where
  "mpack_write_true flush w = mpack_write_byte_element flush w 0xc3"

definition mpack_write_false :: "flush_fn \<Rightarrow> mpack_writer \<Rightarrow> mpack_writer" where
  "mpack_write_false flush w = mpack_write_byte_element flush w 0xc2"

definition mpack_write_object_bytes :: "flush_fn \<Rightarrow> mpack_writer \<Rightarrow> u8 list \<Rightarrow> mpack_writer" where
  "mpack_write_object_bytes flush w data = mpack_write_native flush w data"

definition mpack_write_u8 :: "flush_fn \<Rightarrow> mpack_writer \<Rightarrow> u8 \<Rightarrow> mpack_writer" where
  "mpack_write_u8 flush w value =
     (if value \<le> 127 then MPACK_WRITE_ENCODED flush w 1 (mpack_encode_fixuint value)
      else MPACK_WRITE_ENCODED flush w 2 (mpack_encode_u8 value))"

definition mpack_write_u16 :: "flush_fn \<Rightarrow> mpack_writer \<Rightarrow> u16 \<Rightarrow> mpack_writer" where
  "mpack_write_u16 flush w value =
     (if value \<le> 127 then MPACK_WRITE_ENCODED flush w 1 (mpack_encode_fixuint (ucast value))
      else if value \<le> 0xFF then MPACK_WRITE_ENCODED flush w 2 (mpack_encode_u8 (ucast value))
      else MPACK_WRITE_ENCODED flush w 3 (mpack_encode_u16 value))"

definition mpack_write_u32 :: "flush_fn \<Rightarrow> mpack_writer \<Rightarrow> u32 \<Rightarrow> mpack_writer" where
  "mpack_write_u32 flush w value =
     (if value \<le> 127 then MPACK_WRITE_ENCODED flush w 1 (mpack_encode_fixuint (ucast value))
      else if value \<le> 0xFF then MPACK_WRITE_ENCODED flush w 2 (mpack_encode_u8 (ucast value))
      else if value \<le> 0xFFFF then MPACK_WRITE_ENCODED flush w 3 (mpack_encode_u16 (ucast value))
      else MPACK_WRITE_ENCODED flush w 5 (mpack_encode_u32 value))"

definition mpack_write_u64 :: "flush_fn \<Rightarrow> mpack_writer \<Rightarrow> u64 \<Rightarrow> mpack_writer" where
  "mpack_write_u64 flush w value =
     (if value \<le> 127 then MPACK_WRITE_ENCODED flush w 1 (mpack_encode_fixuint (ucast value))
      else if value \<le> 0xFF then MPACK_WRITE_ENCODED flush w 2 (mpack_encode_u8 (ucast value))
      else if value \<le> 0xFFFF then MPACK_WRITE_ENCODED flush w 3 (mpack_encode_u16 (ucast value))
      else if value \<le> 0xFFFFFFFF then MPACK_WRITE_ENCODED flush w 5 (mpack_encode_u32 (ucast value))
      else MPACK_WRITE_ENCODED flush w 9 (mpack_encode_u64 value))"

definition mpack_write_i8 :: "flush_fn \<Rightarrow> mpack_writer \<Rightarrow> u8 \<Rightarrow> mpack_writer" where
  "mpack_write_i8 flush w value =
     (if - 32 \<le> sint value then MPACK_WRITE_ENCODED flush w 1 (mpack_encode_fixint value)
      else MPACK_WRITE_ENCODED flush w 2 (mpack_encode_i8 value))"

definition mpack_write_i16 :: "flush_fn \<Rightarrow> mpack_writer \<Rightarrow> u16 \<Rightarrow> mpack_writer" where
  "mpack_write_i16 flush w value =
     (if - 32 \<le> sint value then
        (if sint value \<le> 127 then MPACK_WRITE_ENCODED flush w 1 (mpack_encode_fixint (ucast value))
         else if sint value \<le> 0xFF then MPACK_WRITE_ENCODED flush w 2 (mpack_encode_u8 (ucast value))
         else MPACK_WRITE_ENCODED flush w 3 (mpack_encode_u16 value))
      else if - 128 \<le> sint value then MPACK_WRITE_ENCODED flush w 2 (mpack_encode_i8 (ucast value))
      else MPACK_WRITE_ENCODED flush w 3 (mpack_encode_i16 value))"

definition mpack_write_i32 :: "flush_fn \<Rightarrow> mpack_writer \<Rightarrow> u32 \<Rightarrow> mpack_writer" where
  "mpack_write_i32 flush w value =
     (if - 32 \<le> sint value then
        (if sint value \<le> 127 then MPACK_WRITE_ENCODED flush w 1 (mpack_encode_fixint (ucast value))
         else if sint value \<le> 0xFF then MPACK_WRITE_ENCODED flush w 2 (mpack_encode_u8 (ucast value))
         else if sint value \<le> 0xFFFF then MPACK_WRITE_ENCODED flush w 3 (mpack_encode_u16 (ucast value))
         else MPACK_WRITE_ENCODED flush w 5 (mpack_encode_u32 value))
      else if - 128 \<le> sint value then MPACK_WRITE_ENCODED flush w 2 (mpack_encode_i8 (ucast value))
      else if - 32768 \<le> sint value then MPACK_WRITE_ENCODED flush w 3 (mpack_encode_i16 (ucast value))
      else MPACK_WRITE_ENCODED flush w 5 (mpack_encode_i32 value))"

definition mpack_write_i64 :: "flush_fn \<Rightarrow> mpack_writer \<Rightarrow> u64 \<Rightarrow> mpack_writer" where
  "mpack_write_i64 flush w value =
     (if - 32 \<le> sint value then
        (if sint value \<le> 127 then MPACK_WRITE_ENCODED flush w 1 (mpack_encode_fixint (ucast value))
         else if sint value \<le> 0xFF then MPACK_WRITE_ENCODED flush w 2 (mpack_encode_u8 (ucast value))
         else if sint value \<le> 0xFFFF then MPACK_WRITE_ENCODED flush w 3 (mpack_encode_u16 (ucast value))
         else if sint value \<le> 0xFFFFFFFF then MPACK_WRITE_ENCODED flush w 5 (mpack_encode_u32 (ucast value))
         else MPACK_WRITE_ENCODED flush w 9 (mpack_encode_u64 value))
      else if - 128 \<le> sint value then MPACK_WRITE_ENCODED flush w 2 (mpack_encode_i8 (ucast value))
      else if - 32768 \<le> sint value then MPACK_WRITE_ENCODED flush w 3 (mpack_encode_i16 (ucast value))
      else if - 2147483648 \<le> sint value then MPACK_WRITE_ENCODED flush w 5 (mpack_encode_i32 (ucast value))
      else MPACK_WRITE_ENCODED flush w 9 (mpack_encode_i64 value))"

definition mpack_write_float :: "flush_fn \<Rightarrow> mpack_writer \<Rightarrow> u32 \<Rightarrow> mpack_writer" where
  "mpack_write_float flush w value = MPACK_WRITE_ENCODED flush w 5 (mpack_encode_float value)"

definition mpack_write_double :: "flush_fn \<Rightarrow> mpack_writer \<Rightarrow> u64 \<Rightarrow> mpack_writer" where
  "mpack_write_double flush w value = MPACK_WRITE_ENCODED flush w 9 (mpack_encode_double value)"

definition mpack_write_timestamp :: "flush_fn \<Rightarrow> mpack_writer \<Rightarrow> u64 \<Rightarrow> u32 \<Rightarrow> mpack_writer" where
  "mpack_write_timestamp flush w seconds nanoseconds =
     (if MPACK_TIMESTAMP_NANOSECONDS_MAX < nanoseconds then mpack_writer_flag_error w mpack_error_bug
      else if sint seconds < 0 \<or> 2 ^ 34 \<le> sint seconds
      then MPACK_WRITE_ENCODED flush w 15 (mpack_encode_timestamp_12 seconds nanoseconds)
      else if 0xFFFFFFFF < sint seconds \<or> 0 < nanoseconds
      then MPACK_WRITE_ENCODED flush w 10 (mpack_encode_timestamp_8 seconds nanoseconds)
      else MPACK_WRITE_ENCODED flush w 6 (mpack_encode_timestamp_4 (ucast seconds)))"

definition mpack_start_array :: "flush_fn \<Rightarrow> mpack_writer \<Rightarrow> u32 \<Rightarrow> mpack_writer" where
  "mpack_start_array flush w count =
     (if count \<le> 15 then MPACK_WRITE_ENCODED flush w 1 (mpack_encode_fixarray (ucast count))
      else if count \<le> 0xFFFF then MPACK_WRITE_ENCODED flush w 3 (mpack_encode_array16 (ucast count))
      else MPACK_WRITE_ENCODED flush w 5 (mpack_encode_array32 count))"

definition mpack_start_map :: "flush_fn \<Rightarrow> mpack_writer \<Rightarrow> u32 \<Rightarrow> mpack_writer" where
  "mpack_start_map flush w count =
     (if count \<le> 15 then MPACK_WRITE_ENCODED flush w 1 (mpack_encode_fixmap (ucast count))
      else if count \<le> 0xFFFF then MPACK_WRITE_ENCODED flush w 3 (mpack_encode_map16 (ucast count))
      else MPACK_WRITE_ENCODED flush w 5 (mpack_encode_map32 count))"

definition mpack_start_str_notrack :: "flush_fn \<Rightarrow> mpack_writer \<Rightarrow> u32 \<Rightarrow> mpack_writer" where
  "mpack_start_str_notrack flush w count =
     (if count \<le> 31 then MPACK_WRITE_ENCODED flush w 1 (mpack_encode_fixstr (ucast count))
      else if count \<le> 0xFF then MPACK_WRITE_ENCODED flush w 2 (mpack_encode_str8 (ucast count))
      else if count \<le> 0xFFFF then MPACK_WRITE_ENCODED flush w 3 (mpack_encode_str16 (ucast count))
      else MPACK_WRITE_ENCODED flush w 5 (mpack_encode_str32 count))"

definition mpack_start_bin_notrack :: "flush_fn \<Rightarrow> mpack_writer \<Rightarrow> u32 \<Rightarrow> mpack_writer" where
  "mpack_start_bin_notrack flush w count =
     (if count \<le> 0xFF then MPACK_WRITE_ENCODED flush w 2 (mpack_encode_bin8 (ucast count))
      else if count \<le> 0xFFFF then MPACK_WRITE_ENCODED flush w 3 (mpack_encode_bin16 (ucast count))
      else MPACK_WRITE_ENCODED flush w 5 (mpack_encode_bin32 count))"

definition mpack_start_str :: "flush_fn \<Rightarrow> mpack_writer \<Rightarrow> u32 \<Rightarrow> mpack_writer" where
  "mpack_start_str flush w count = mpack_start_str_notrack flush w count"

definition mpack_start_bin :: "flush_fn \<Rightarrow> mpack_writer \<Rightarrow> u32 \<Rightarrow> mpack_writer" where
  "mpack_start_bin flush w count = mpack_start_bin_notrack flush w count"

definition mpack_start_ext :: "flush_fn \<Rightarrow> mpack_writer \<Rightarrow> u8 \<Rightarrow> u32 \<Rightarrow> mpack_writer" where
  "mpack_start_ext flush w exttype count =
     (if count = 1 then MPACK_WRITE_ENCODED flush w 2 (mpack_encode_fixext1 exttype)
      else if count = 2 then MPACK_WRITE_ENCODED flush w 2 (mpack_encode_fixext2 exttype)
      else if count = 4 then MPACK_WRITE_ENCODED flush w 2 (mpack_encode_fixext4 exttype)
      else if count = 8 then MPACK_WRITE_ENCODED flush w 2 (mpack_encode_fixext8 exttype)
      else if count = 16 then MPACK_WRITE_ENCODED flush w 2 (mpack_encode_fixext16 exttype)
      else if count \<le> 0xFF then MPACK_WRITE_ENCODED flush w 3 (mpack_encode_ext8 exttype (ucast count))
      else if count \<le> 0xFFFF then MPACK_WRITE_ENCODED flush w 4 (mpack_encode_ext16 exttype (ucast count))
      else MPACK_WRITE_ENCODED flush w 6 (mpack_encode_ext32 exttype count))"

text \<open>Without tracking, closing a compound element only checks the type in debug builds.\<close>

definition mpack_finish_type :: "mpack_writer \<Rightarrow> mpack_type \<Rightarrow> mpack_writer" where
  "mpack_finish_type w ty = w"

definition mpack_write_bytes :: "flush_fn \<Rightarrow> mpack_writer \<Rightarrow> u8 list \<Rightarrow> mpack_writer" where
  "mpack_write_bytes flush w data = mpack_write_native flush w data"

text \<open>\<open>data\<close> is the memory behind the pointer; \<open>count\<close> of its bytes are the string.\<close>

definition mpack_write_str :: "flush_fn \<Rightarrow> mpack_writer \<Rightarrow> u8 list \<Rightarrow> u32 \<Rightarrow> mpack_writer" where
  "mpack_write_str flush w data count =
     (let bytes = take (unat count) data in
      if count \<le> 31 then
        (let sz = unat count + 1 in
         if sz \<le> mpack_writer_buffer_left w then writer_put w (mpack_encode_fixstr (ucast count) @ bytes)
         else let (w, ok) = mpack_writer_ensure flush w sz
              in if ok then writer_put w (mpack_encode_fixstr (ucast count) @ bytes) else w)
      else if count \<le> 0xFF then
        (if unat count + 2 \<le> mpack_writer_buffer_left w
         then writer_put w (mpack_encode_str8 (ucast count) @ bytes)
         else mpack_write_native flush (MPACK_WRITE_ENCODED flush w 2 (mpack_encode_str8 (ucast count))) bytes)
      else if count \<le> 0xFFFF then
        mpack_write_native flush (MPACK_WRITE_ENCODED flush w 3 (mpack_encode_str16 (ucast count))) bytes
      else
        mpack_write_native flush (MPACK_WRITE_ENCODED flush w 5 (mpack_encode_str32 count)) bytes)"

definition mpack_write_bin :: "flush_fn \<Rightarrow> mpack_writer \<Rightarrow> u8 list \<Rightarrow> u32 \<Rightarrow> mpack_writer" where
  "mpack_write_bin flush w data count =
     mpack_finish_type (mpack_write_bytes flush (mpack_start_bin flush w count) (take (unat count) data))
       mpack_type_bin"

definition mpack_write_ext :: "flush_fn \<Rightarrow> mpack_writer \<Rightarrow> u8 \<Rightarrow> u8 list \<Rightarrow> u32 \<Rightarrow> mpack_writer" where
  "mpack_write_ext flush w exttype data count =
     mpack_finish_type
       (mpack_write_bytes flush (mpack_start_ext flush w exttype count) (take (unat count) data))
       mpack_type_ext"

text \<open>A C string is the bytes before its NUL; \<open>None\<close> is the null pointer.\<close>

definition mpack_write_cstr :: "flush_fn \<Rightarrow> mpack_writer \<Rightarrow> u8 list \<Rightarrow> mpack_writer" where
  "mpack_write_cstr flush w cstr =
     (let len = length cstr;
          w = (if 0xFFFFFFFF < len then mpack_writer_flag_error w mpack_error_invalid else w)
      in mpack_write_str flush w cstr (of_nat len))"

definition mpack_write_cstr_or_nil :: "flush_fn \<Rightarrow> mpack_writer \<Rightarrow> u8 list option \<Rightarrow> mpack_writer" where
  "mpack_write_cstr_or_nil flush w cstr =
     (case cstr of Some s \<Rightarrow> mpack_write_cstr flush w s | None \<Rightarrow> mpack_write_nil flush w)"

definition mpack_write_utf8 :: "flush_fn \<Rightarrow> mpack_writer \<Rightarrow> u8 list \<Rightarrow> u32 \<Rightarrow> mpack_writer" where
  "mpack_write_utf8 flush w str len =
     (if \<not> mpack_utf8_check (take (unat len) str) then mpack_writer_flag_error w mpack_error_invalid
      else mpack_write_str flush w str len)"

definition mpack_write_utf8_cstr :: "flush_fn \<Rightarrow> mpack_writer \<Rightarrow> u8 list \<Rightarrow> mpack_writer" where
  "mpack_write_utf8_cstr flush w cstr =
     (let len = length cstr in
      if 0xFFFFFFFF < len then mpack_writer_flag_error w mpack_error_invalid
      else mpack_write_utf8 flush w cstr (of_nat len))"

definition mpack_write_utf8_cstr_or_nil :: "flush_fn \<Rightarrow> mpack_writer \<Rightarrow> u8 list option \<Rightarrow> mpack_writer" where
  "mpack_write_utf8_cstr_or_nil flush w cstr =
     (case cstr of Some s \<Rightarrow> mpack_write_utf8_cstr flush w s | None \<Rightarrow> mpack_write_nil flush w)"

fun mpack_write_tag :: "flush_fn \<Rightarrow> mpack_writer \<Rightarrow> mpack_tag \<Rightarrow> mpack_writer" where
  "mpack_write_tag flush w Tag_missing = mpack_writer_flag_error w mpack_error_bug"
| "mpack_write_tag flush w Tag_nil = mpack_write_nil flush w"
| "mpack_write_tag flush w (Tag_bool b) = mpack_write_bool flush w b"
| "mpack_write_tag flush w (Tag_float f) = mpack_write_float flush w f"
| "mpack_write_tag flush w (Tag_double d) = mpack_write_double flush w d"
| "mpack_write_tag flush w (Tag_int i) = mpack_write_i64 flush w i"
| "mpack_write_tag flush w (Tag_uint u) = mpack_write_u64 flush w u"
| "mpack_write_tag flush w (Tag_str l) = mpack_start_str flush w l"
| "mpack_write_tag flush w (Tag_bin l) = mpack_start_bin flush w l"
| "mpack_write_tag flush w (Tag_ext t l) = mpack_start_ext flush w t l"
| "mpack_write_tag flush w (Tag_array n) = mpack_start_array flush w n"
| "mpack_write_tag flush w (Tag_map n) = mpack_start_map flush w n"

end
