(* ===== verification/Mpack_Writer_Contract.thy ===== *)
theory Mpack_Writer_Contract
  imports Mpack_Writer
begin

text \<open>
  What the writer relies on from a flush function, as a locale, and what it then promises: every
  write operation appends exactly the encoding of its argument to the output, or leaves the
  writer in a sticky error state, and never moves past the end of its buffer. The locale is
  interpreted for the growable buffer and for the file writer.
\<close>

section \<open>Encoded headers as byte strings\<close>

text \<open>The shortest header of each tag, as the write functions choose it.\<close>

definition enc_uint :: "u64 \<Rightarrow> u8 list" where
  "enc_uint v =
     (if v \<le> 127 then mpack_encode_fixuint (ucast v)
      else if v \<le> 0xFF then mpack_encode_u8 (ucast v)
      else if v \<le> 0xFFFF then mpack_encode_u16 (ucast v)
      else if v \<le> 0xFFFFFFFF then mpack_encode_u32 (ucast v)
      else mpack_encode_u64 v)"

definition enc_int :: "u64 \<Rightarrow> u8 list" where
  "enc_int v =
     (if 0 \<le> sint v then enc_uint v
      else if - 32 \<le> sint v then mpack_encode_fixint (ucast v)
      else if - 128 \<le> sint v then mpack_encode_i8 (ucast v)
      else if - 32768 \<le> sint v then mpack_encode_i16 (ucast v)
      else if - 2147483648 \<le> sint v then mpack_encode_i32 (ucast v)
      else mpack_encode_i64 v)"

definition enc_str :: "u32 \<Rightarrow> u8 list" where
  "enc_str n =
     (if n \<le> 31 then mpack_encode_fixstr (ucast n)
      else if n \<le> 0xFF then mpack_encode_str8 (ucast n)
      else if n \<le> 0xFFFF then mpack_encode_str16 (ucast n)
      else mpack_encode_str32 n)"

definition enc_bin :: "u32 \<Rightarrow> u8 list" where
  "enc_bin n =
     (if n \<le> 0xFF then mpack_encode_bin8 (ucast n)
      else if n \<le> 0xFFFF then mpack_encode_bin16 (ucast n)
      else mpack_encode_bin32 n)"

definition enc_array :: "u32 \<Rightarrow> u8 list" where
  "enc_array n =
     (if n \<le> 15 then mpack_encode_fixarray (ucast n)
      else if n \<le> 0xFFFF then mpack_encode_array16 (ucast n)
      else mpack_encode_array32 n)"

definition enc_map :: "u32 \<Rightarrow> u8 list" where
  "enc_map n =
     (if n \<le> 15 then mpack_encode_fixmap (ucast n)
      else if n \<le> 0xFFFF then mpack_encode_map16 (ucast n)
      else mpack_encode_map32 n)"

definition enc_ext :: "u8 \<Rightarrow> u32 \<Rightarrow> u8 list" where
  "enc_ext t n =
     (if n = 1 then mpack_encode_fixext1 t
      else if n = 2 then mpack_encode_fixext2 t
      else if n = 4 then mpack_encode_fixext4 t
      else if n = 8 then mpack_encode_fixext8 t
      else if n = 16 then mpack_encode_fixext16 t
      else if n \<le> 0xFF then mpack_encode_ext8 t (ucast n)
      else if n \<le> 0xFFFF then mpack_encode_ext16 t (ucast n)
      else mpack_encode_ext32 t n)"

fun enc_tag :: "mpack_tag \<Rightarrow> u8 list" where
  "enc_tag Tag_missing = []"
| "enc_tag Tag_nil = [0xc0]"
| "enc_tag (Tag_bool b) = [if b then 0xc3 else 0xc2]"
| "enc_tag (Tag_int i) = enc_int i"
| "enc_tag (Tag_uint u) = enc_uint u"
| "enc_tag (Tag_float f) = mpack_encode_float f"
| "enc_tag (Tag_double d) = mpack_encode_double d"
| "enc_tag (Tag_str n) = enc_str n"
| "enc_tag (Tag_bin n) = enc_bin n"
| "enc_tag (Tag_array n) = enc_array n"
| "enc_tag (Tag_map n) = enc_map n"
| "enc_tag (Tag_ext t n) = enc_ext t n"

lemmas enc_defs = enc_uint_def enc_int_def enc_str_def enc_bin_def enc_array_def enc_map_def enc_ext_def

section \<open>Each write function writes one encoded header\<close>

lemma uint_of_nonneg: "0 \<le> sint v \<Longrightarrow> uint v = sint (v :: 'a::len word)"
proof -
  assume "0 \<le> sint v"
  moreover have "sint v < 2 ^ LENGTH('a)"
    using sint_lt [of v] power_increasing [of "LENGTH('a) - 1" "LENGTH('a)" "2 :: int"] by linarith
  ultimately show ?thesis
    by (simp add: uint_sint take_bit_int_eq_self)
qed

lemma le_of_nonneg:
  fixes v :: u64
  assumes "0 \<le> sint v"
  shows "v \<le> 127 \<longleftrightarrow> sint v \<le> 127" "v \<le> 0xFF \<longleftrightarrow> sint v \<le> 0xFF"
    "v \<le> 0xFFFF \<longleftrightarrow> sint v \<le> 0xFFFF" "v \<le> 0xFFFFFFFF \<longleftrightarrow> sint v \<le> 0xFFFFFFFF"
  using uint_of_nonneg [OF assms] by (simp_all add: word_le_def)

lemma encode_length [simp, wire_simps]:
  "length (mpack_encode_fixuint a) = 1" "length (mpack_encode_u8 a) = 2" "length (mpack_encode_u16 b) = 3"
  "length (mpack_encode_u32 c) = 5" "length (mpack_encode_u64 d) = 9"
  "length (mpack_encode_fixint a) = 1" "length (mpack_encode_i8 a) = 2" "length (mpack_encode_i16 b) = 3"
  "length (mpack_encode_i32 c) = 5" "length (mpack_encode_i64 d) = 9"
  "length (mpack_encode_float c) = 5" "length (mpack_encode_double d) = 9"
  "length (mpack_encode_fixarray a) = 1" "length (mpack_encode_array16 b) = 3" "length (mpack_encode_array32 c) = 5"
  "length (mpack_encode_fixmap a) = 1" "length (mpack_encode_map16 b) = 3" "length (mpack_encode_map32 c) = 5"
  "length (mpack_encode_fixstr a) = 1" "length (mpack_encode_str8 a) = 2" "length (mpack_encode_str16 b) = 3"
  "length (mpack_encode_str32 c) = 5"
  "length (mpack_encode_bin8 a) = 2" "length (mpack_encode_bin16 b) = 3" "length (mpack_encode_bin32 c) = 5"
  "length (mpack_encode_fixext1 a) = 2" "length (mpack_encode_fixext2 a) = 2" "length (mpack_encode_fixext4 a) = 2"
  "length (mpack_encode_fixext8 a) = 2" "length (mpack_encode_fixext16 a) = 2"
  "length (mpack_encode_ext8 a e) = 3" "length (mpack_encode_ext16 a b) = 4" "length (mpack_encode_ext32 a c) = 6"
  "length (mpack_encode_timestamp_4 c) = 6" "length (mpack_encode_timestamp_8 d c) = 10"
  "length (mpack_encode_timestamp_12 d c) = 15"
  by (simp_all add: encode_defs)

lemma enc_tag_length: "length (enc_tag t) \<le> 9"
  by (cases t) (simp_all add: enc_defs)

lemma write_u64_enc:
  "mpack_write_u64 flush w v = MPACK_WRITE_ENCODED flush w (length (enc_uint v)) (enc_uint v)"
  by (simp add: mpack_write_u64_def enc_uint_def)

lemma write_i64_enc:
  "mpack_write_i64 flush w v = MPACK_WRITE_ENCODED flush w (length (enc_int v)) (enc_int v)"
proof (cases "0 \<le> sint v")
  case True
  with le_of_nonneg [OF True] show ?thesis
    by (simp add: mpack_write_i64_def enc_int_def enc_uint_def mpack_encode_fixint_def mpack_encode_fixuint_def)
next
  case False
  then show ?thesis
    by (simp add: mpack_write_i64_def enc_int_def)
qed

lemma write_header_enc:
  "mpack_write_float flush w f = MPACK_WRITE_ENCODED flush w (length (mpack_encode_float f)) (mpack_encode_float f)"
  "mpack_write_double flush w d = MPACK_WRITE_ENCODED flush w (length (mpack_encode_double d)) (mpack_encode_double d)"
  "mpack_start_array flush w n = MPACK_WRITE_ENCODED flush w (length (enc_array n)) (enc_array n)"
  "mpack_start_map flush w n = MPACK_WRITE_ENCODED flush w (length (enc_map n)) (enc_map n)"
  "mpack_start_str flush w n = MPACK_WRITE_ENCODED flush w (length (enc_str n)) (enc_str n)"
  "mpack_start_bin flush w n = MPACK_WRITE_ENCODED flush w (length (enc_bin n)) (enc_bin n)"
  "mpack_start_ext flush w t n = MPACK_WRITE_ENCODED flush w (length (enc_ext t n)) (enc_ext t n)"
  by (simp_all add: mpack_write_float_def mpack_write_double_def mpack_start_array_def mpack_start_map_def
      mpack_start_str_def mpack_start_str_notrack_def mpack_start_bin_def mpack_start_bin_notrack_def
      mpack_start_ext_def enc_defs)

text \<open>
  The functions for narrower integers write what the 64-bit ones write for the widened value:
  the speed-optimised and the size-optimised builds produce the same bytes.
\<close>

lemma ucast_narrow:
  "(ucast (ucast (a :: u8) :: u64) :: u8) = a"
  "(ucast (ucast (b :: u16) :: u64) :: u8) = ucast b" "(ucast (ucast b :: u64) :: u16) = b"
  "(ucast (ucast (c :: u32) :: u64) :: u8) = ucast c" "(ucast (ucast c :: u64) :: u16) = ucast c"
  "(ucast (ucast c :: u64) :: u32) = c"
  by (rule bit_word_eqI; auto simp: bit_simps)+

lemma scast_narrow:
  "(ucast (scast (a :: u8) :: u64) :: u8) = a"
  "(ucast (scast (b :: u16) :: u64) :: u8) = ucast b" "(ucast (scast b :: u64) :: u16) = b"
  "(ucast (scast (c :: u32) :: u64) :: u8) = ucast c" "(ucast (scast c :: u64) :: u16) = ucast c"
  "(ucast (scast c :: u64) :: u32) = c"
  by (rule bit_word_eqI; auto simp: bit_simps)+

lemma sint_widen:
  "sint (scast (a :: u8) :: u64) = sint a" "sint (scast (b :: u16) :: u64) = sint b"
  "sint (scast (c :: u32) :: u64) = sint c"
  by (simp_all add: sint_up_scast is_up)

lemma uint_bound: "uint (x :: 'a::len word) < 2 ^ LENGTH('a)"
  by (rule unsigned_less)

lemma uint_widen:
  "uint (ucast (a :: u8) :: u64) = uint a" "uint (ucast (b :: u16) :: u64) = uint b"
  "uint (ucast (c :: u32) :: u64) = uint c"
  using uint_bound [of a] uint_bound [of b] uint_bound [of c]
  by (simp_all add: unsigned_ucast_eq take_bit_int_eq_self)

lemmas word_size_bounds =
  uint_bound [where 'a = 8, simplified] uint_bound [where 'a = 16, simplified] uint_bound [where 'a = 32, simplified]
  sint_lt [where 'a = 8, simplified] sint_lt [where 'a = 16, simplified] sint_lt [where 'a = 32, simplified]
  sint_ge [where 'a = 8, simplified] sint_ge [where 'a = 16, simplified] sint_ge [where 'a = 32, simplified]

lemma write_unsigned_widen:
  "mpack_write_u8 flush w a = mpack_write_u64 flush w (ucast a)"
  "mpack_write_u16 flush w b = mpack_write_u64 flush w (ucast b)"
  "mpack_write_u32 flush w c = mpack_write_u64 flush w (ucast c)"
  using word_size_bounds(1) [of a] word_size_bounds(2) [of b] word_size_bounds(3) [of c]
  by (simp_all add: mpack_write_u8_def mpack_write_u16_def mpack_write_u32_def mpack_write_u64_def
      ucast_narrow word_le_def uint_widen)

lemma write_signed_widen:
  "mpack_write_i8 flush w a = mpack_write_i64 flush w (scast a)"
  "mpack_write_i16 flush w b = mpack_write_i64 flush w (scast b)"
  "mpack_write_i32 flush w c = mpack_write_i64 flush w (scast c)"
  using word_size_bounds(4,7) [of a] word_size_bounds(5,8) [of b] word_size_bounds(6,9) [of c]
  by (simp_all add: mpack_write_i8_def mpack_write_i16_def mpack_write_i32_def mpack_write_i64_def
      scast_narrow sint_widen)

section \<open>Output, readiness, one write\<close>

definition writer_output :: "mpack_writer \<Rightarrow> u8 list" where
  "writer_output w = w_context w @ take (w_current w) (w_buffer w)"

definition writer_wf :: "mpack_writer \<Rightarrow> bool" where
  "writer_wf w \<longleftrightarrow> w_current w \<le> length (w_buffer w) \<and> MPACK_WRITER_MINIMUM_BUFFER_SIZE \<le> length (w_buffer w)"

definition writer_ready :: "mpack_writer \<Rightarrow> bool" where
  "writer_ready w \<longleftrightarrow> (w_error w = mpack_ok \<longrightarrow> writer_wf w \<and> w_flush w)"

definition emits :: "mpack_writer \<Rightarrow> u8 list \<Rightarrow> mpack_writer \<Rightarrow> bool" where
  "emits w p w' \<longleftrightarrow>
     (w_error w' = mpack_ok \<longrightarrow>
        w_error w = mpack_ok \<and> writer_wf w' \<and> w_flush w' \<and> writer_output w' = writer_output w @ p)"

lemma emits_ready: "emits w p w' \<Longrightarrow> writer_ready w'"
  by (auto simp: emits_def writer_ready_def)

lemma emits_seq: "emits w p w' \<Longrightarrow> emits w' q w'' \<Longrightarrow> emits w (p @ q) w''"
  by (auto simp: emits_def)

lemma emits_refl: "writer_ready w \<Longrightarrow> emits w [] w"
  by (auto simp: emits_def writer_ready_def)

lemma emits_error: "w_error w' \<noteq> mpack_ok \<Longrightarrow> emits w p w'"
  by (simp add: emits_def)

lemma flag_error_sets [simp]:
  "e \<noteq> mpack_ok \<Longrightarrow> w_error (mpack_writer_flag_error w e) \<noteq> mpack_ok"
  by (simp add: mpack_writer_flag_error_def)

lemma writer_put_fields [writer_simps]:
  "w_error (writer_put w p) = w_error w" "w_flush (writer_put w p) = w_flush w"
  "w_context (writer_put w p) = w_context w" "w_current (writer_put w p) = w_current w + length p"
  by (simp_all add: writer_put_def)

lemma writer_put_output:
  assumes "w_current w + length p \<le> length (w_buffer w)"
  shows "writer_output (writer_put w p) = writer_output w @ p"
    and "length (w_buffer (writer_put w p)) = length (w_buffer w)"
  using assms by (simp_all add: writer_output_def writer_put_def)

lemma emits_put:
  assumes "writer_ready w" and "length p \<le> mpack_writer_buffer_left w"
  shows "emits w p (writer_put w p)"
proof (cases "w_error w = mpack_ok")
  case True
  then have "w_current w + length p \<le> length (w_buffer w)"
    using assms by (auto simp: writer_ready_def writer_wf_def mpack_writer_buffer_left_def)
  then show ?thesis
    using True assms(1) writer_put_output [of w p]
    by (auto simp: emits_def writer_ready_def writer_wf_def writer_simps)
qed (simp add: emits_def writer_simps)

section \<open>The contract of a flush function\<close>

locale flush_contract =
  fixes flush :: flush_fn
    and clean :: "mpack_writer \<Rightarrow> bool"
  assumes flush_buffer:
    "\<lbrakk>writer_wf w; w_flush w; w_error w = mpack_ok; w_current w = 0; n \<le> length (w_buffer w);
      w' = flush w (From_buffer n); w_error w' = mpack_ok\<rbrakk>
     \<Longrightarrow> writer_wf w' \<and> w_flush w' \<and> writer_output w' = w_context w @ take n (w_buffer w)
         \<and> MPACK_WRITER_MINIMUM_BUFFER_SIZE \<le> mpack_writer_buffer_left w' \<and> clean w'"
  and flush_external:
    "\<lbrakk>writer_wf w; w_flush w; w_error w = mpack_ok; clean w; mpack_writer_buffer_left w < length p;
      w' = flush w (External p); w_error w' = mpack_ok\<rbrakk>
     \<Longrightarrow> writer_wf w' \<and> w_flush w' \<and> writer_output w' = writer_output w @ p"
begin

lemma flush_unchecked:
  assumes "writer_ready w" and "w_error w = mpack_ok"
    and "w_error (mpack_writer_flush_unchecked flush w) = mpack_ok"
  shows "emits w [] (mpack_writer_flush_unchecked flush w)"
    and "MPACK_WRITER_MINIMUM_BUFFER_SIZE \<le> mpack_writer_buffer_left (mpack_writer_flush_unchecked flush w)"
    and "clean (mpack_writer_flush_unchecked flush w)"
proof -
  let ?w = "w\<lparr>w_current := 0\<rparr>"
  have wf: "writer_wf ?w" "w_flush ?w" "w_error ?w = mpack_ok" "w_current w \<le> length (w_buffer ?w)"
    using assms(1,2) by (auto simp: writer_ready_def writer_wf_def)
  have eq: "mpack_writer_flush_unchecked flush w = flush ?w (From_buffer (w_current w))"
    by (simp add: mpack_writer_flush_unchecked_def mpack_writer_buffer_used_def)
  note * = flush_buffer [OF wf(1-3) _ wf(4) eq assms(3)]
  from * show "emits w [] (mpack_writer_flush_unchecked flush w)"
    using assms(2) by (auto simp: emits_def writer_output_def)
  from * show "MPACK_WRITER_MINIMUM_BUFFER_SIZE \<le> mpack_writer_buffer_left (mpack_writer_flush_unchecked flush w)"
    by simp
  from * show "clean (mpack_writer_flush_unchecked flush w)"
    by simp
qed

lemma ensure:
  assumes "writer_ready w" and "mpack_writer_ensure flush w n = (w', ok)"
  shows "emits w [] w'" and "ok \<Longrightarrow> n \<le> mpack_writer_buffer_left w'" and "\<not> ok \<Longrightarrow> w_error w' \<noteq> mpack_ok"
proof -
  show "emits w [] w'"
    using assms flush_unchecked(1) [OF assms(1)]
    by (auto simp: mpack_writer_ensure_def Let_def split: if_splits intro: emits_error)
  show "ok \<Longrightarrow> n \<le> mpack_writer_buffer_left w'"
    using assms by (auto simp: mpack_writer_ensure_def Let_def split: if_splits)
  show "\<not> ok \<Longrightarrow> w_error w' \<noteq> mpack_ok"
    using assms by (auto simp: mpack_writer_ensure_def Let_def split: if_splits)
qed

lemma ensure_put:
  assumes "writer_ready w" and "length p \<le> n"
  shows "emits w p (let (w, ok) = mpack_writer_ensure flush w n in if ok then writer_put w p else w)"
proof -
  obtain w' ok where e: "mpack_writer_ensure flush w n = (w', ok)"
    by (cases "mpack_writer_ensure flush w n")
  show ?thesis
  proof (cases ok)
    case True
    then have "emits w ([] @ p) (writer_put w' p)"
      using ensure [OF assms(1) e] assms(2)
      by (intro emits_seq [of _ _ w'] emits_put) (auto intro: emits_ready)
    with e True show ?thesis by simp
  next
    case False
    with ensure(3) [OF assms(1) e] e show ?thesis by (simp add: emits_def)
  qed
qed

lemma write_encoded: "writer_ready w \<Longrightarrow> length p = n \<Longrightarrow> emits w p (MPACK_WRITE_ENCODED flush w n p)"
  unfolding MPACK_WRITE_ENCODED_def using ensure_put [of w p n] emits_put [of w p] by simp

lemma write_byte_element: "writer_ready w \<Longrightarrow> emits w [b] (mpack_write_byte_element flush w b)"
  unfolding mpack_write_byte_element_def using ensure_put [of w "[b]" 1] emits_put [of w "[b]"] by simp

lemma write_native_straddle: "writer_ready w \<Longrightarrow> emits w p (mpack_write_native_straddle flush w p)"
proof -
  assume r: "writer_ready w"
  let ?w = "mpack_writer_flush_unchecked flush w"
  show ?thesis
  proof (cases "w_error w = mpack_ok \<and> w_flush w \<and> w_error ?w = mpack_ok")
    case False
    with r show ?thesis
      by (auto simp: mpack_write_native_straddle_def Let_def intro: emits_error)
  next
    case True
    note f = flush_unchecked [OF r]
    have "emits ?w p (if mpack_writer_buffer_left ?w < length p then flush ?w (External p) else writer_put ?w p)"
      using True f flush_external [of ?w p] emits_put [of ?w p]
      by (auto simp: emits_def writer_ready_def)
    with True f(1) have "emits w ([] @ p)
        (if mpack_writer_buffer_left ?w < length p then flush ?w (External p) else writer_put ?w p)"
      by (intro emits_seq) auto
    with True show ?thesis
      by (simp add: mpack_write_native_straddle_def Let_def)
  qed
qed

lemma write_native: "writer_ready w \<Longrightarrow> emits w p (mpack_write_native flush w p)"
  unfolding mpack_write_native_def using write_native_straddle [of w p] emits_put [of w p] by simp

lemma write_tag:
  assumes "writer_ready w"
  shows "emits w (enc_tag t) (mpack_write_tag flush w t)"
proof -
  note intros = write_encoded [OF assms] write_byte_element [OF assms] emits_error
  show ?thesis
    by (cases t)
      (auto simp: write_u64_enc write_i64_enc write_header_enc(3-) mpack_write_float_def
        mpack_write_double_def mpack_write_nil_def mpack_write_bool_def intro: intros)
qed

lemma write_str:
  assumes "writer_ready w" and "unat n \<le> length data"
  shows "emits w (enc_str n @ take (unat n) data) (mpack_write_str flush w data n)"
proof -
  let ?b = "take (unat n) data"
  have len: "length ?b = unat n" using assms(2) by simp
  have big: "emits w (h @ ?b) (mpack_write_native flush (MPACK_WRITE_ENCODED flush w k h) ?b)"
    if "length h = k" for h k
    by (rule emits_seq [OF write_encoded [OF assms(1) that] write_native])
      (rule emits_ready [OF write_encoded [OF assms(1) that]])
  consider "n \<le> 31" | "\<not> n \<le> 31" "n \<le> 0xFF" | "\<not> n \<le> 0xFF" "n \<le> 0xFFFF" | "\<not> n \<le> 0xFFFF"
    by blast
  then show ?thesis
  proof cases
    case 1
    let ?p = "mpack_encode_fixstr (ucast n) @ ?b"
    have "length ?p = unat n + 1" using len by simp
    with 1 show ?thesis
      using ensure_put [OF assms(1), of ?p "unat n + 1"] emits_put [OF assms(1), of ?p]
      by (simp add: mpack_write_str_def enc_str_def Let_def)
  next
    case 2
    let ?p = "mpack_encode_str8 (ucast n) @ ?b"
    have "length ?p = unat n + 2" using len by simp
    with 2 show ?thesis
      using big [of "mpack_encode_str8 (ucast n)" 2] emits_put [OF assms(1), of ?p]
      by (simp add: mpack_write_str_def enc_str_def Let_def)
  next
    case 3
    then have "\<not> n \<le> 31" by (simp add: word_le_nat_alt)
    with 3 show ?thesis
      using big [of "mpack_encode_str16 (ucast n)" 3]
      by (simp add: mpack_write_str_def enc_str_def Let_def)
  next
    case 4
    then have "\<not> n \<le> 31" "\<not> n \<le> 0xFF" by (simp_all add: word_le_nat_alt)
    with 4 show ?thesis
      using big [of "mpack_encode_str32 n" 5]
      by (simp add: mpack_write_str_def enc_str_def Let_def)
  qed
qed

lemma write_bin:
  assumes "writer_ready w"
  shows "emits w (enc_bin n @ take (unat n) data) (mpack_write_bin flush w data n)"
  unfolding mpack_write_bin_def mpack_finish_type_def mpack_write_bytes_def write_header_enc
  by (rule emits_seq [OF write_encoded [OF assms refl] write_native])
    (rule emits_ready [OF write_encoded [OF assms refl]])

lemma write_ext:
  assumes "writer_ready w"
  shows "emits w (enc_ext t n @ take (unat n) data) (mpack_write_ext flush w t data n)"
  unfolding mpack_write_ext_def mpack_finish_type_def mpack_write_bytes_def write_header_enc
  by (rule emits_seq [OF write_encoded [OF assms refl] write_native])
    (rule emits_ready [OF write_encoded [OF assms refl]])

lemma write_timestamp:
  assumes "writer_ready w" and "nanoseconds \<le> MPACK_TIMESTAMP_NANOSECONDS_MAX"
  shows "emits w
    (if sint seconds < 0 \<or> 2 ^ 34 \<le> sint seconds then mpack_encode_timestamp_12 seconds nanoseconds
     else if 0xFFFFFFFF < sint seconds \<or> 0 < nanoseconds then mpack_encode_timestamp_8 seconds nanoseconds
     else mpack_encode_timestamp_4 (ucast seconds))
    (mpack_write_timestamp flush w seconds nanoseconds)"
  unfolding mpack_write_timestamp_def
  using assms by (auto simp: not_less intro!: write_encoded)

lemma flush_message: "writer_ready w \<Longrightarrow> emits w [] (mpack_writer_flush_message flush w)"
  using flush_unchecked(1) [of w] emits_refl [of w]
  by (auto simp: mpack_writer_flush_message_def intro: emits_error)

end

text \<open>A flush function that never fails: then no write of a well-formed element fails either.\<close>

locale reliable_flush = flush_contract +
  assumes never_fails:
    "\<lbrakk>writer_wf w; w_flush w; w_error w = mpack_ok\<rbrakk> \<Longrightarrow> w_error (flush w data) = mpack_ok"
begin

lemma flush_unchecked_ok:
  assumes "writer_ready w" and "w_error w = mpack_ok"
  shows "w_error (mpack_writer_flush_unchecked flush w) = mpack_ok"
  unfolding mpack_writer_flush_unchecked_def Let_def
  using assms by (intro never_fails) (auto simp: writer_ready_def writer_wf_def)

lemma ensure_ok:
  assumes "writer_ready w" and "w_error w = mpack_ok" and "n \<le> MPACK_WRITER_MINIMUM_BUFFER_SIZE"
  shows "\<exists>w'. mpack_writer_ensure flush w n = (w', True) \<and> w_error w' = mpack_ok"
  using assms flush_unchecked_ok [OF assms(1,2)] flush_unchecked(2) [OF assms(1,2)]
  by (auto simp: mpack_writer_ensure_def writer_ready_def Let_def)

lemma write_encoded_ok:
  assumes "writer_ready w" and "w_error w = mpack_ok" and "n \<le> MPACK_WRITER_MINIMUM_BUFFER_SIZE"
  shows "w_error (MPACK_WRITE_ENCODED flush w n p) = mpack_ok"
  using assms ensure_ok [OF assms] by (auto simp: MPACK_WRITE_ENCODED_def writer_simps)

lemma write_byte_ok:
  assumes "writer_ready w" and "w_error w = mpack_ok"
  shows "w_error (mpack_write_byte_element flush w b) = mpack_ok"
  using assms ensure_ok [OF assms, of 1]
  by (auto simp: mpack_write_byte_element_def writer_simps MPACK_WRITER_MINIMUM_BUFFER_SIZE_def)

lemma write_native_ok:
  assumes "writer_ready w" and "w_error w = mpack_ok"
  shows "w_error (mpack_write_native flush w p) = mpack_ok"
proof -
  note f = flush_unchecked_ok [OF assms]
  have r: "writer_ready (mpack_writer_flush_unchecked flush w)"
    using flush_unchecked(1) [OF assms f] by (rule emits_ready)
  with f have "w_error (flush (mpack_writer_flush_unchecked flush w) (External p)) = mpack_ok"
    by (intro never_fails) (auto simp: writer_ready_def)
  with assms f show ?thesis
    by (auto simp: mpack_write_native_def mpack_write_native_straddle_def Let_def writer_simps writer_ready_def)
qed

lemma header_fits: "length (enc_tag t) \<le> MPACK_WRITER_MINIMUM_BUFFER_SIZE"
  using enc_tag_length [of t] by (simp add: MPACK_WRITER_MINIMUM_BUFFER_SIZE_def)

lemma write_tag_ok:
  assumes "writer_ready w" and "w_error w = mpack_ok" and "t \<noteq> Tag_missing"
  shows "w_error (mpack_write_tag flush w t) = mpack_ok"
  using assms header_fits [of t] write_byte_ok [OF assms(1,2)] write_encoded_ok [OF assms(1,2)]
  by (cases t) (auto simp: write_u64_enc write_i64_enc write_header_enc mpack_write_nil_def mpack_write_bool_def)

lemma write_str_ok:
  assumes "writer_ready w" and "w_error w = mpack_ok"
  shows "w_error (mpack_write_str flush w data n) = mpack_ok"
proof -
  have big: "w_error (mpack_write_native flush (MPACK_WRITE_ENCODED flush w k h) p) = mpack_ok"
    if "length h = k" "k \<le> MPACK_WRITER_MINIMUM_BUFFER_SIZE" for k h p
    using write_encoded [OF assms(1) that(1)] write_encoded_ok [OF assms that(2)]
    by (intro write_native_ok) (auto intro: emits_ready)
  have "unat n \<le> 31" if "n \<le> 31"
    using that by (simp add: word_le_nat_alt)
  then show ?thesis
    using assms ensure_ok [OF assms, of "unat n + 1"] big
    by (auto simp: mpack_write_str_def Let_def writer_simps MPACK_WRITER_MINIMUM_BUFFER_SIZE_def)
qed

end

section \<open>The flush functions of mpack meet the contract\<close>

lemma grow_size_ge: "0 < n \<Longrightarrow> n \<le> grow_size n need \<and> need \<le> grow_size n need"
proof (induction n need rule: grow_size.induct)
  case (1 n need)
  then show ?case by (subst (1 2) grow_size.simps) (auto intro: order_trans)
qed

lemma grow_size_enough: "need \<le> n \<Longrightarrow> grow_size n need = n"
  by (subst grow_size.simps) simp

lemma growable_buffer:
  assumes "writer_wf w" and "w_current w = 0" and "n \<le> length (w_buffer w)" and "n \<noteq> 0"
  shows "mpack_growable_writer_flush alloc w (From_buffer n) =
    (if alloc (2 * length (w_buffer w))
     then w\<lparr>w_buffer := take n (w_buffer w) @ replicate (2 * length (w_buffer w) - n) 0, w_current := n\<rparr>
     else mpack_writer_flag_error (w\<lparr>w_current := n\<rparr>) mpack_error_memory)"
  using assms grow_size_enough [of n "length (w_buffer w) * 2"]
  by (simp add: mpack_growable_writer_flush_def mpack_writer_buffer_used_def mpack_writer_buffer_size_def
      Let_def mult.commute)

lemma growable_external:
  assumes "writer_wf w" and "0 < length p"
  shows "mpack_growable_writer_flush alloc w (External p) =
    (let m = grow_size (length (w_buffer w) * 2) (w_current w + length p) in
     if alloc m
     then writer_put (w\<lparr>w_buffer := take (w_current w) (w_buffer w) @ replicate (m - w_current w) 0\<rparr>) p
     else mpack_writer_flag_error w mpack_error_memory)"
  using assms
  by (simp add: mpack_growable_writer_flush_def mpack_writer_buffer_used_def mpack_writer_buffer_size_def Let_def)

interpretation growable: flush_contract "mpack_growable_writer_flush alloc" "\<lambda>_. True" for alloc
proof
  fix w n w'
  assume wf: "writer_wf w" "w_flush w" "w_error w = mpack_ok" "w_current w = 0" "n \<le> length (w_buffer w)"
    and w': "w' = mpack_growable_writer_flush alloc w (From_buffer n)" "w_error w' = mpack_ok"
  show "writer_wf w' \<and> w_flush w' \<and> writer_output w' = w_context w @ take n (w_buffer w) \<and>
     MPACK_WRITER_MINIMUM_BUFFER_SIZE \<le> mpack_writer_buffer_left w' \<and> True"
  proof (cases "n = 0")
    case True
    with wf w' show ?thesis
      by (simp add: mpack_growable_writer_flush_def mpack_writer_buffer_used_def writer_output_def
          writer_wf_def mpack_writer_buffer_left_def Let_def)
  next
    case False
    with wf w' show ?thesis
      by (auto simp: growable_buffer writer_output_def writer_wf_def mpack_writer_buffer_left_def
          split: if_splits)
  qed
next
  fix w p w'
  assume wf: "writer_wf w" "w_flush w" "w_error w = mpack_ok" "mpack_writer_buffer_left w < length p"
    and w': "w' = mpack_growable_writer_flush alloc w (External p)" "w_error w' = mpack_ok"
  define m where "m = grow_size (length (w_buffer w) * 2) (w_current w + length p)"
  let ?w = "w\<lparr>w_buffer := take (w_current w) (w_buffer w) @ replicate (m - w_current w) 0\<rparr>"
  have pos: "0 < length p" "0 < length (w_buffer w) * 2" "w_current w \<le> length (w_buffer w)"
    using wf by (auto simp: writer_wf_def MPACK_WRITER_MINIMUM_BUFFER_SIZE_def)
  have m: "length (w_buffer w) * 2 \<le> m" "w_current w + length p \<le> m"
    unfolding m_def using grow_size_ge [OF pos(2)] by blast+
  have eq: "w' = writer_put ?w p"
    using w' growable_external [OF wf(1) pos(1), of alloc] by (auto simp: m_def Let_def split: if_splits)
  have fits: "w_current ?w + length p \<le> length (w_buffer ?w)"
    using m pos(3) by simp
  then show "writer_wf w' \<and> w_flush w' \<and> writer_output w' = writer_output w @ p"
    using wf m pos(3) writer_put_output [OF fits] unfolding eq
    by (simp add: writer_wf_def writer_simps writer_output_def)
qed

interpretation growable_malloc: reliable_flush "mpack_growable_writer_flush (\<lambda>_. True)" "\<lambda>_. True"
proof
  fix w :: mpack_writer and data :: flush_data
  assume "w_error w = mpack_ok"
  then show "w_error (mpack_growable_writer_flush (\<lambda>_. True) w data) = mpack_ok"
    by (cases data) (simp_all add: mpack_growable_writer_flush_def Let_def writer_simps)
qed

interpretation filewriter: flush_contract "mpack_file_writer_flush fw" "\<lambda>w. w_current w = 0" for fw
proof
  fix w n w'
  assume "writer_wf w" "w_flush w" "w_error w = mpack_ok" "w_current w = 0" "n \<le> length (w_buffer w)"
    and "w' = mpack_file_writer_flush fw w (From_buffer n)" "w_error w' = mpack_ok"
  then show "writer_wf w' \<and> w_flush w' \<and> writer_output w' = w_context w @ take n (w_buffer w) \<and>
     MPACK_WRITER_MINIMUM_BUFFER_SIZE \<le> mpack_writer_buffer_left w' \<and> w_current w' = 0"
    by (auto simp: mpack_file_writer_flush_def mpack_writer_flag_error_def writer_wf_def writer_output_def
        mpack_writer_buffer_left_def Let_def split: if_splits)
next
  fix w p w'
  assume "writer_wf w" "w_flush w" "w_error w = mpack_ok" "w_current w = 0"
    and "w' = mpack_file_writer_flush fw w (External p)" "w_error w' = mpack_ok"
  then show "writer_wf w' \<and> w_flush w' \<and> writer_output w' = writer_output w @ p"
    by (auto simp: mpack_file_writer_flush_def mpack_writer_flag_error_def writer_wf_def writer_output_def
        Let_def split: if_splits)
qed

end
