(* ===== verification/Mpack_Reader_Contract.thy ===== *)
theory Mpack_Reader_Contract
  imports Mpack_Reader Mpack_Writer_Contract
begin

text \<open>
  What the decoder promises. \<open>reader_input\<close> is everything a reader has still to deliver: the
  window of its buffer followed by the stream behind \<open>fill\<close>. The contract of a fill function is
  a locale, and inside it every operation is shown to consume exactly the bytes it reports, to
  agree with the pure decoder \<open>dec_tag\<close>, and (\<open>reliable_fill\<close>) to succeed when the bytes are
  there. The file reader's callback discharges both contracts, and \<open>dec_tag\<close> inverts the
  encodings of the writer.
\<close>

section \<open>State and input of a reader\<close>

definition reader_wf :: "mpack_reader \<Rightarrow> bool" where
  "reader_wf r \<longleftrightarrow>
     r_data r \<le> r_end r \<and> r_end r \<le> length (r_mem r) \<and>
     (st_eof (r_context r) \<longrightarrow> st_bytes (r_context r) = []) \<and>
     (r_fill r \<longrightarrow> length (r_mem r) = r_size r \<and> MPACK_READER_MINIMUM_BUFFER_SIZE \<le> r_size r)"

definition reader_ready :: "mpack_reader \<Rightarrow> bool" where
  "reader_ready r \<longleftrightarrow> r_error r = mpack_ok \<and> reader_wf r"

definition reader_input :: "mpack_reader \<Rightarrow> u8 list" where
  "reader_input r = reader_window r @ (if r_fill r then st_bytes (r_context r) else [])"

definition same_source :: "mpack_reader \<Rightarrow> mpack_reader \<Rightarrow> bool" where
  "same_source r r' \<longleftrightarrow> r_fill r' = r_fill r \<and> r_skip r' = r_skip r \<and> r_size r' = r_size r"

definition consumes :: "mpack_reader \<Rightarrow> u8 list \<Rightarrow> mpack_reader \<Rightarrow> bool" where
  "consumes r p r' \<longleftrightarrow>
     (r_error r' = mpack_ok \<longrightarrow>
      reader_ready r' \<and> same_source r r' \<and> reader_input r = p @ reader_input r')"

lemmas reader_state_defs = reader_wf_def reader_ready_def reader_input_def reader_window_def
  mpack_reader_left_def same_source_def

lemma reader_flag_error_sets [simp]:
  "err \<noteq> mpack_ok \<Longrightarrow> r_error (mpack_reader_flag_error r err) \<noteq> mpack_ok"
  by (simp add: mpack_reader_flag_error_def)

lemma consumes_error: "r_error r' \<noteq> mpack_ok \<Longrightarrow> consumes r p r'"
  by (simp add: consumes_def)

lemma consumes_refl: "reader_ready r \<Longrightarrow> consumes r [] r"
  by (simp add: consumes_def same_source_def)

lemma consumes_seq: "consumes r p r' \<Longrightarrow> r_error r' = mpack_ok \<Longrightarrow> consumes r' q r'' \<Longrightarrow> consumes r (p @ q) r''"
  by (auto simp: consumes_def same_source_def)

lemma consumes_ready: "consumes r p r' \<Longrightarrow> r_error r' = mpack_ok \<Longrightarrow> reader_ready r'"
  by (simp add: consumes_def)

lemma window_length: "reader_ready r \<Longrightarrow> length (reader_window r) = mpack_reader_left r"
  by (auto simp: reader_state_defs)

lemma left_le_input: "reader_ready r \<Longrightarrow> mpack_reader_left r \<le> length (reader_input r)"
  by (simp add: reader_input_def window_length)

lemma take_window:
  "reader_ready r \<Longrightarrow> n \<le> mpack_reader_left r \<Longrightarrow>
   take n (drop (r_data r) (r_mem r)) = take n (reader_input r)"
  by (auto simp: reader_state_defs)

text \<open>Moving \<open>data\<close> forward inside the window consumes what it passes over.\<close>

lemma advance:
  assumes "reader_ready r" "n \<le> mpack_reader_left r"
  shows "consumes r (take n (reader_input r)) (r\<lparr>r_data := r_data r + n\<rparr>)"
proof -
  have "reader_window (r\<lparr>r_data := r_data r + n\<rparr>) = drop n (reader_window r)"
    by (simp add: reader_window_def mpack_reader_left_def drop_take add.commute)
  moreover have "take n (reader_input r) = take n (reader_window r)"
    using assms by (simp add: reader_input_def window_length)
  ultimately have "reader_input r = take n (reader_input r) @ reader_input (r\<lparr>r_data := r_data r + n\<rparr>)"
    using assms window_length[OF assms(1)] by (simp add: reader_input_def)
  moreover have "reader_ready (r\<lparr>r_data := r_data r + n\<rparr>)"
    using assms by (auto simp: reader_ready_def reader_wf_def mpack_reader_left_def)
  ultimately show ?thesis
    by (simp add: consumes_def same_source_def)
qed

text \<open>Refilling the buffer from its start, with the first \<open>i\<close> new bytes already consumed.\<close>

lemma refill:
  assumes "reader_ready r" "r_fill r" "st_bytes (r_context r) = bs @ st_bytes c"
    and "i \<le> length bs" "length bs \<le> r_size r" "st_eof c \<longrightarrow> st_bytes c = []"
    and "r' = r\<lparr>r_context := c, r_mem := mem_put (r_mem r) 0 bs, r_data := i, r_end := length bs\<rparr>"
  shows "reader_ready r'" "same_source r r'" "reader_input r' = drop i (st_bytes (r_context r))"
proof -
  have "length (r_mem r) = r_size r"
    using assms(1,2) by (simp add: reader_ready_def reader_wf_def)
  then show "reader_ready r'" "same_source r r'"
    using assms by (auto simp: reader_ready_def reader_wf_def mem_put_def same_source_def)
  have "reader_window r' = drop i bs"
    using assms(4,7) by (simp add: reader_window_def mpack_reader_left_def mem_put_def)
  then show "reader_input r' = drop i (st_bytes (r_context r))"
    using assms by (simp add: reader_input_def)
qed

section \<open>The pure decoder\<close>

definition dec_tag :: "bool \<Rightarrow> u8 list \<Rightarrow> mpack_error + mpack_tag \<times> nat" where
  "dec_tag ext bs =
     (if bs = [] then Inl mpack_error_invalid
      else case tag_switch ext (hd bs) of
          Inl err \<Rightarrow> Inl err
        | Inr (n, mk) \<Rightarrow> if length bs < n then Inl mpack_error_invalid else Inr (mk bs, n))"

lemmas tag_switch_defs = tag_switch_def tag_infix_def tag_nil_to_ext_def tag_numbers_def
  tag_fixext_to_map_def

lemma switch_size: "tag_switch ext b = Inr (n, mk) \<Longrightarrow> 0 < n \<and> n \<le> 9"
  by (auto simp: tag_switch_defs split: if_splits)

lemma switch_error: "tag_switch ext b = Inl err \<Longrightarrow> err \<in> {mpack_error_invalid, mpack_error_unsupported}"
  by (auto simp: tag_switch_defs split: if_splits)

lemma load_append:
  "0 < length p \<Longrightarrow> mpack_load_u8 (p @ q) = mpack_load_u8 p"
  "1 < length p \<Longrightarrow> mpack_load_u16 (p @ q) = mpack_load_u16 p"
  "3 < length p \<Longrightarrow> mpack_load_u32 (p @ q) = mpack_load_u32 p"
  "7 < length p \<Longrightarrow> mpack_load_u64 (p @ q) = mpack_load_u64 p"
  by (auto simp: mpack_load_u8_def mpack_load_u16_def mpack_load_u32_def mpack_load_u64_def nth_append)

lemma switch_local:
  "tag_switch ext b = Inr (n, mk) \<Longrightarrow> n \<le> length p \<Longrightarrow> mk (p @ q) = mk p"
  by (auto simp: tag_switch_defs load_append split: if_splits)

section \<open>The contract of a fill function\<close>

text \<open>
  A fill function hands over bytes of the stream in order, at most as many as asked for, and
  changes nothing of the reader but the stream; or it flags an error.
\<close>

locale fill_contract =
  fixes fill :: fill_fn
  assumes fill_hands_over:
    "reader_ready r \<Longrightarrow> r_fill r \<Longrightarrow> fill r n = (r', Some bs) \<Longrightarrow> r_error r' = mpack_ok \<Longrightarrow>
     \<exists>c. r' = r\<lparr>r_context := c\<rparr> \<and> st_bytes (r_context r) = bs @ st_bytes c \<and> length bs \<le> n \<and>
       (st_eof c \<longrightarrow> st_bytes c = [])"
begin

text \<open>What a run of the fill loop leaves when it succeeds.\<close>

lemma fill_range:
  assumes "mpack_fill_range fill r acc minb maxb = (r', bs, k)"
    and "reader_ready r" "r_fill r" "length acc \<le> maxb"
  shows "if r_error r' = mpack_ok then
       \<exists>c ds. r' = r\<lparr>r_context := c\<rparr> \<and> bs = acc @ ds \<and> st_bytes (r_context r) = ds @ st_bytes c \<and>
         k = length bs \<and> minb \<le> k \<and> k \<le> maxb \<and> (st_eof c \<longrightarrow> st_bytes c = [])
     else k = 0"
  using assms
proof (induction "minb - length acc" arbitrary: r acc rule: less_induct)
  case less
  show ?case
  proof (cases "length acc < minb")
    case False
    then show ?thesis
      using less.prems
      by (auto simp: mpack_fill_range.simps[of _ _ acc] reader_ready_def reader_wf_def
          intro!: exI[of _ "r_context r"])
  next
    case more: True
    obtain r1 res where f: "fill r (maxb - length acc) = (r1, res)"
      by fastforce
    show ?thesis
    proof (cases "\<exists>b. res = Some b \<and> b \<noteq> [] \<and> r_error r1 = mpack_ok")
      case False
      then show ?thesis
        using less.prems more f
        by (auto simp: mpack_fill_range.simps[of _ _ acc] split: option.splits if_splits)
    next
      case True
      then obtain b where b: "res = Some b" "b \<noteq> []" "r_error r1 = mpack_ok" by blast
      from fill_hands_over[OF less.prems(2,3) f[unfolded b(1)] b(3)] obtain c where c:
        "r1 = r\<lparr>r_context := c\<rparr>" "st_bytes (r_context r) = b @ st_bytes c"
        "length b \<le> maxb - length acc" "st_eof c \<longrightarrow> st_bytes c = []" by blast
      have run: "mpack_fill_range fill r1 (acc @ b) minb maxb = (r', bs, k)"
        using less.prems(1) more f b by (simp add: mpack_fill_range.simps[of _ _ acc])
      have "reader_ready r1" "r_fill r1" "minb - length (acc @ b) < minb - length acc"
        using less.prems c b more by (auto simp: reader_ready_def reader_wf_def intro: diff_less_mono2)
      moreover have "length (acc @ b) \<le> maxb"
        using less.prems(4) c by simp
      ultimately show ?thesis
        using less.hyps[OF _ run] c(1,2)
        by (cases "r_error r' = mpack_ok") (clarsimp, metis append_assoc, simp)
    qed
  qed
qed

text \<open>A successful \<open>ensure\<close> keeps the input and puts at least \<open>n\<close> bytes of it in the window.\<close>

lemma ensure:
  assumes "mpack_reader_ensure fill r n = (r', ok)" "reader_ready r"
  shows "if ok then consumes r [] r' \<and> reader_ready r' \<and> n \<le> mpack_reader_left r'
    else r_error r' \<noteq> mpack_ok"
proof (cases "n \<le> mpack_reader_left r \<or> \<not> r_fill r \<or> r_size r < n")
  case True
  then show ?thesis
    using assms consumes_refl
    by (auto simp: mpack_reader_ensure_def mpack_reader_ensure_straddle_def split: if_splits)
next
  case False
  define left where "left = mpack_reader_left r"
  define r0 where "r0 = r\<lparr>r_mem := mem_put (r_mem r) 0 (reader_window r), r_end := left, r_data := 0\<rparr>"
  obtain r1 bs k where run: "mpack_fill_range fill r0 [] (n - left) (r_size r0 - left) = (r1, bs, k)"
    using prod_cases3 by blast
  have len: "length (reader_window r) = left" "left \<le> length (r_mem r)"
    using assms(2) window_length unfolding left_def by (auto simp: reader_state_defs)
  have r0: "reader_ready r0" "r_fill r0"
    using assms(2) False len by (auto simp: r0_def reader_ready_def reader_wf_def mem_put_def)
  have res: "(r', ok) = (if r_error r1 \<noteq> mpack_ok then (r1\<lparr>r_mem := mem_put (r_mem r1) left bs\<rparr>, False)
      else (r1\<lparr>r_mem := mem_put (r_mem r1) left bs, r_end := r_end r1 + k\<rparr>, True))"
    using assms(1) False run
    by (auto simp: mpack_reader_ensure_def mpack_reader_ensure_straddle_def Let_def r0_def left_def
        split: if_splits)
  show ?thesis
  proof (cases "r_error r1 = mpack_ok")
    case False
    with res show ?thesis by auto
  next
    case True
    from fill_range[OF run r0] True obtain c where c: "r1 = r0\<lparr>r_context := c\<rparr>"
      "st_bytes (r_context r) = bs @ st_bytes c" "k = length bs" "n - left \<le> k"
      "k \<le> r_size r - left" "st_eof c \<longrightarrow> st_bytes c = []"
      by (auto simp: r0_def)
    have m: "mem_put (r_mem r1) left bs = reader_window r @ bs @ drop (left + k) (r_mem r)"
      using c(1,3) len by (simp add: r0_def mem_put_def add.commute)
    have sz: "length (r_mem r) = r_size r" "left \<le> r_size r"
      using assms(2) False len by (auto simp: reader_ready_def reader_wf_def)
    have r': "ok" "r' = r\<lparr>r_mem := reader_window r @ bs @ drop (left + k) (r_mem r), r_end := left + k,
        r_data := 0, r_context := c\<rparr>"
      using res True c(1) m by (auto simp: r0_def)
    have "reader_window r' = take (left + k) (reader_window r @ bs @ drop (left + k) (r_mem r))"
      by (subst reader_window_def) (simp add: r'(2) mpack_reader_left_def)
    then have w: "reader_window r' = reader_window r @ bs" "mpack_reader_left r' = left + k"
      using len c(3) r'(2) by (simp_all add: mpack_reader_left_def)
    have "reader_ready r'"
      using assms(2) r' sz c len by (auto simp: reader_ready_def reader_wf_def)
    moreover have "reader_input r' = reader_input r" "same_source r r'"
      using w c(2) r' False by (simp_all add: reader_input_def same_source_def)
    ultimately show ?thesis
      using r'(1) w c(4) by (simp add: consumes_def)
  qed
qed

lemma parse_tag:
  assumes "mpack_parse_tag fill ext r = (r', t, k)" "reader_ready r"
  shows "if k = 0 then r_error r' \<noteq> mpack_ok
    else consumes r [] r' \<and> reader_ready r' \<and> k \<le> mpack_reader_left r' \<and>
      dec_tag ext (reader_input r) = Inr (t, k)"
proof -
  obtain r1 ok1 where e1: "mpack_reader_ensure fill r 1 = (r1, ok1)" by fastforce
  note s1 = ensure[OF e1 assms(2)]
  show ?thesis
  proof (cases "ok1 \<and> \<not> isl (tag_switch ext (mpack_load_u8 (reader_window r1)))")
    case False
    then have "k = 0 \<and> r_error r' \<noteq> mpack_ok"
      using s1 assms(1) e1
      by (cases "tag_switch ext (mpack_load_u8 (reader_window r1))")
        (auto simp: mpack_parse_tag_def split: if_splits dest!: switch_error)
    then show ?thesis by simp
  next
    case True
    then obtain n mk where sw: "ok1" "tag_switch ext (mpack_load_u8 (reader_window r1)) = Inr (n, mk)"
      by (cases "tag_switch ext (mpack_load_u8 (reader_window r1))") auto
    with s1 have r1: "reader_ready r1" "reader_input r1 = reader_input r" "1 \<le> mpack_reader_left r1"
      by (auto simp: consumes_def reader_ready_def)
    obtain r2 ok2 where e2: "mpack_reader_ensure fill r1 n = (r2, ok2)" by fastforce
    note s2 = ensure[OF e2 r1(1)]
    have hd: "reader_input r \<noteq> []" "mpack_load_u8 (reader_window r1) = hd (reader_input r)"
      using r1(3) window_length[OF r1(1)] unfolding r1(2)[symmetric]
      by (cases "reader_window r1"; simp add: reader_input_def mpack_load_u8_def)+
    have res: "(r', t, k) = (if ok2 then (r2, mk (reader_window r2), n) else (r2, Tag_missing, 0))"
      using assms(1) e1 sw e2 by (cases ok2) (auto simp: mpack_parse_tag_def)
    show ?thesis
    proof (cases ok2)
      case False
      with res s2 show ?thesis by simp
    next
      case True
      with s2 have r2: "reader_ready r2" "reader_input r2 = reader_input r" "n \<le> mpack_reader_left r2"
        "consumes r [] r2"
        using r1 s1 sw consumes_seq[of r "[]" r1 "[]" r2] by (auto simp: consumes_def reader_ready_def)
      have "mk (reader_input r2) = mk (reader_window r2)"
        using switch_local[OF sw(2)] r2(3) window_length[OF r2(1)] by (simp add: reader_input_def)
      then show ?thesis
        using res True r2 hd sw switch_size[OF sw(2)] left_le_input[OF r2(1)]
        by (auto simp: dec_tag_def)
    qed
  qed
qed

lemma read_tag:
  assumes "mpack_read_tag fill ext r = (r', t)" "reader_ready r" "r_error r' = mpack_ok"
  shows "\<exists>k. dec_tag ext (reader_input r) = Inr (t, k) \<and> consumes r (take k (reader_input r)) r'"
proof -
  obtain r1 t1 k where p: "mpack_parse_tag fill ext r = (r1, t1, k)"
    using prod_cases3 by blast
  note s = parse_tag[OF p assms(2)]
  have k: "k \<noteq> 0" "r' = r1\<lparr>r_data := r_data r1 + k\<rparr>" "t = t1"
    using assms p s by (auto simp: mpack_read_tag_def reader_ready_def split: if_splits)
  with s have c: "consumes r [] r1" "reader_ready r1" "k \<le> mpack_reader_left r1"
    "dec_tag ext (reader_input r) = Inr (t, k)" by auto
  then have "consumes r1 (take k (reader_input r1)) r'"
    using advance k by simp
  with c show ?thesis
    using consumes_seq[OF c(1)] by (auto simp: consumes_def reader_ready_def)
qed

lemma read_native:
  assumes "mpack_read_native fill r n = (r', p)" "reader_ready r" "r_error r' = mpack_ok"
  shows "n \<le> length (reader_input r) \<and> p = take n (reader_input r) \<and> consumes r p r'"
proof (cases "n \<le> mpack_reader_left r")
  case True
  then show ?thesis
    using assms advance[OF assms(2) True] take_window[OF assms(2) True] left_le_input[OF assms(2)]
    by (auto simp: mpack_read_native_def)
next
  case False
  define left where "left = mpack_reader_left r"
  define r1 where "r1 = r\<lparr>r_data := r_data r + left\<rparr>"
  have fl: "r_fill r"
    using assms False
    by (auto simp: mpack_read_native_def mpack_read_native_straddle_def Let_def reader_ready_def split: if_splits)
  have w: "take left (reader_input r) = reader_window r" "length (reader_window r) = left"
    using window_length[OF assms(2)] by (auto simp: left_def reader_input_def)
  have c1: "consumes r (reader_window r) r1"
    using advance[OF assms(2), of left] w by (simp add: left_def r1_def)
  have r1: "reader_ready r1" "r_fill r1" "reader_window r1 = []"
    using c1 assms(2) fl by (auto simp: consumes_def r1_def left_def reader_state_defs)
  have sz: "r_size r \<noteq> 0" "r_size r1 = r_size r"
    using assms(2) fl by (auto simp: r1_def reader_ready_def reader_wf_def MPACK_READER_MINIMUM_BUFFER_SIZE_def)
  have inp: "reader_input r = reader_window r @ st_bytes (r_context r1)"
    using fl by (simp add: r1_def reader_input_def)
  let ?c = "n - left" and ?m = "if n - left \<le> r_size r div MPACK_READER_SMALL_FRACTION_DENOMINATOR
    then r_size r else n - left"
  obtain r2 bs k where run: "mpack_fill_range fill r1 [] ?c ?m = (r2, bs, k)"
    using prod_cases3 by blast
  have res: "(r', p) = (if n - left \<le> r_size r div MPACK_READER_SMALL_FRACTION_DENOMINATOR then
      (if r_error r2 \<noteq> mpack_ok then (r2\<lparr>r_mem := mem_put (r_mem r2) 0 bs\<rparr>, reader_window r)
       else (r2\<lparr>r_mem := mem_put (r_mem r2) 0 bs, r_data := ?c, r_end := k\<rparr>,
             reader_window r @ take ?c (mem_put (r_mem r2) 0 bs)))
      else (r2, reader_window r @ bs))"
    using assms False fl sz run
    by (auto simp: mpack_read_native_def mpack_read_native_straddle_def left_def[symmetric] reader_ready_def
        r1_def Let_def split: if_splits)
  then have "r_error r2 = mpack_ok"
    using assms(3) by (auto split: if_splits)
  with fill_range[OF run r1(1,2)] obtain c where c: "r2 = r1\<lparr>r_context := c\<rparr>"
    "st_bytes (r_context r1) = bs @ st_bytes c" "k = length bs" "?c \<le> k" "k \<le> ?m"
    "st_eof c \<longrightarrow> st_bytes c = []" by auto
  have p: "p = take n (reader_input r) \<and> n \<le> length (reader_input r)"
    using res c w inp False \<open>r_error r2 = mpack_ok\<close>
    by (auto simp: mem_put_def left_def split: if_splits)
  have "reader_ready r' \<and> same_source r1 r' \<and> reader_input r' = drop ?c (st_bytes (r_context r1))"
  proof (cases "n - left \<le> r_size r div MPACK_READER_SMALL_FRACTION_DENOMINATOR")
    case True
    then have r': "r' = r1\<lparr>r_context := c, r_mem := mem_put (r_mem r1) 0 bs, r_data := ?c, r_end := length bs\<rparr>"
      using res c \<open>r_error r2 = mpack_ok\<close> by simp
    show ?thesis
      using refill[OF r1(1,2) c(2) _ _ c(6) r'] c True sz by simp
  next
    case False
    then show ?thesis
      using res c r1 by (auto simp: reader_state_defs)
  qed
  then show ?thesis
    using p c1 r1 inp w fl False by (auto simp: consumes_def reader_ready_def same_source_def left_def)
qed

text \<open>The loop over whole buffers drops that many bytes of the stream and leaves the window empty.\<close>

lemma skip_whole:
  assumes "skip_whole_buffers fill r n = (r', m, ok)" "reader_ready r" "r_fill r" "r_data r = r_end r"
  shows "if ok then reader_ready r' \<and> same_source r r' \<and> r_data r' = r_end r' \<and> m \<le> n \<and> m \<le> r_size r \<and>
      n - m \<le> length (st_bytes (r_context r)) \<and>
      st_bytes (r_context r') = drop (n - m) (st_bytes (r_context r))
    else r_error r' \<noteq> mpack_ok"
  using assms
proof (induction n arbitrary: r rule: less_induct)
  case (less n)
  have sz: "0 < r_size r" "length (r_mem r) = r_size r"
    using less.prems(2,3) by (auto simp: reader_ready_def reader_wf_def MPACK_READER_MINIMUM_BUFFER_SIZE_def)
  obtain r1 bs k where run: "mpack_fill_range fill r [] (r_size r) (r_size r) = (r1, bs, k)"
    using prod_cases3 by blast
  note fr = fill_range[OF run less.prems(2,3)]
  show ?case
  proof (cases "r_size r < n \<and> r_error r1 = mpack_ok")
    case False
    then show ?thesis
      using less.prems run fr sz
      by (auto simp: skip_whole_buffers.simps[of _ r] Let_def same_source_def mpack_reader_flag_error_def
          split: if_splits)
  next
    case True
    with fr obtain c where c: "r1 = r\<lparr>r_context := c\<rparr>" "st_bytes (r_context r) = bs @ st_bytes c"
      "k = length bs" "k = r_size r" "st_eof c \<longrightarrow> st_bytes c = []" by auto
    define r2 where "r2 = r1\<lparr>r_mem := mem_put (r_mem r1) 0 bs\<rparr>"
    have r2: "reader_ready r2" "r_fill r2" "r_data r2 = r_end r2" "same_source r r2"
      using less.prems c sz by (auto simp: r2_def reader_ready_def reader_wf_def mem_put_def same_source_def)
    have "skip_whole_buffers fill r2 (n - r_size r) = (r', m, ok)"
      using less.prems(1) run True c sz by (simp add: skip_whole_buffers.simps[of _ r] r2_def)
    with less.IH[OF _ this r2(1-3)] True sz(1) c r2(4) show ?thesis
      by (auto simp: same_source_def r2_def add.commute split: if_splits)
  qed
qed

lemma skip_using_fill:
  assumes "mpack_reader_skip_using_fill fill r n = r'" "reader_ready r" "r_fill r" "r_data r = r_end r"
    and "r_error r' = mpack_ok"
  shows "reader_ready r' \<and> same_source r r' \<and> n \<le> length (reader_input r) \<and>
    reader_input r' = drop n (reader_input r)"
proof -
  obtain r1 m ok where s: "skip_whole_buffers fill r n = (r1, m, ok)"
    using prod_cases3 by blast
  note w = skip_whole[OF s assms(2-4)]
  have ok: "ok"
    using assms(1,5) s w by (cases ok) (auto simp: mpack_reader_skip_using_fill_def)
  define r2 where "r2 = r1\<lparr>r_data := 0\<rparr>"
  have r2: "reader_ready r2" "r_fill r2" "r_size r2 = r_size r" "r_context r2 = r_context r1" "same_source r r2"
    using w ok assms(3) by (auto simp: r2_def reader_ready_def reader_wf_def same_source_def)
  obtain r3 bs k where run: "mpack_fill_range fill r2 [] m (r_size r2) = (r3, bs, k)"
    using prod_cases3 by blast
  have res: "r' = (let r = r3\<lparr>r_mem := mem_put (r_mem r3) 0 bs\<rparr> in
      if k < m then mpack_reader_flag_error r mpack_error_io else r\<lparr>r_end := k, r_data := m\<rparr>)"
    using assms(1) s ok run by (simp add: mpack_reader_skip_using_fill_def r2_def)
  have "r_error r3 = mpack_ok"
    using assms(5) res by (auto simp: Let_def mpack_reader_flag_error_def split: if_splits)
  with fill_range[OF run r2(1,2)] obtain c where c: "r3 = r2\<lparr>r_context := c\<rparr>"
    "st_bytes (r_context r2) = bs @ st_bytes c" "k = length bs" "m \<le> k" "k \<le> r_size r2"
    "st_eof c \<longrightarrow> st_bytes c = []" by auto
  have r': "r' = r2\<lparr>r_context := c, r_mem := mem_put (r_mem r2) 0 bs, r_data := m, r_end := length bs\<rparr>"
    using res c by (simp add: Let_def)
  note rf = refill[OF r2(1,2) c(2) _ _ c(6) r']
  have inp: "reader_input r = st_bytes (r_context r)"
    using assms(3,4) by (simp add: reader_input_def reader_window_def mpack_reader_left_def)
  have "m \<le> length (st_bytes (r_context r1))"
    using c(2-4) r2(4) by simp
  then show ?thesis
    using rf c r2 w ok inp by (auto simp: same_source_def)
qed

end

text \<open>A skip function, called with an empty window, drops bytes of the stream; seeking past its end is no error.\<close>

locale skip_contract = fill_contract +
  fixes skip :: skip_fn
  assumes skip_drops:
    "reader_ready r \<Longrightarrow> r_fill r \<Longrightarrow> r_data r = r_end r \<Longrightarrow> skip r n = r' \<Longrightarrow> r_error r' = mpack_ok \<Longrightarrow>
     reader_ready r' \<and> same_source r r' \<and> reader_input r' = drop n (reader_input r)"
begin

lemma skip_bytes:
  assumes "mpack_skip_bytes fill skip r n = r'" "reader_ready r" "r_error r' = mpack_ok"
  shows "reader_ready r' \<and> same_source r r' \<and> reader_input r' = drop n (reader_input r)"
proof (cases "n \<le> mpack_reader_left r")
  case True
  have "r' = r\<lparr>r_data := r_data r + n\<rparr>"
    using assms True by (simp add: mpack_skip_bytes_def reader_ready_def)
  with advance[OF assms(2) True] assms(2) True left_le_input[OF assms(2)] show ?thesis
    by (auto simp: consumes_def reader_ready_def) (metis append_eq_conv_conj append_take_drop_id)
next
  case False
  define r1 where "r1 = r\<lparr>r_data := r_end r\<rparr>"
  have fl: "r_fill r"
    using assms False by (auto simp: mpack_skip_bytes_def mpack_skip_bytes_straddle_def reader_ready_def split: if_splits)
  have r1: "reader_ready r1" "r_fill r1" "r_data r1 = r_end r1" "same_source r r1"
    using assms(2) fl by (auto simp: r1_def reader_ready_def reader_wf_def same_source_def)
  have inp: "drop (n - mpack_reader_left r) (reader_input r1) = drop n (reader_input r)"
    using False fl window_length[OF assms(2)]
    by (simp add: reader_input_def reader_window_def[of r1] mpack_reader_left_def[of r1]) (simp add: r1_def)
  have "r' = (if r_skip r1 \<and> r_size r1 div 16 < n - mpack_reader_left r
      then skip r1 (n - mpack_reader_left r)
      else mpack_reader_skip_using_fill fill r1 (n - mpack_reader_left r))"
    using assms False fl
    by (auto simp: mpack_skip_bytes_def mpack_skip_bytes_straddle_def reader_ready_def r1_def)
  then have "reader_ready r' \<and> same_source r1 r' \<and> reader_input r' = drop (n - mpack_reader_left r) (reader_input r1)"
    using skip_drops[OF r1(1-3)] skip_using_fill[OF _ r1(1-3)] assms(3) by (metis (full_types))
  then show ?thesis
    using inp r1(4) by (simp add: same_source_def)
qed

end

section \<open>Readers that deliver\<close>

text \<open>A reliable fill function hands over at least one byte as long as the stream has one.\<close>

locale reliable_fill = fill_contract +
  assumes fill_delivers:
    "reader_ready r \<Longrightarrow> r_fill r \<Longrightarrow> 0 < n \<Longrightarrow> st_bytes (r_context r) \<noteq> [] \<Longrightarrow>
     \<exists>r' bs. fill r n = (r', Some bs) \<and> bs \<noteq> [] \<and> r_error r' = mpack_ok"
begin

lemma fill_range_ok:
  assumes "mpack_fill_range fill r acc minb maxb = (r', bs, k)"
    and "reader_ready r" "r_fill r" "length acc \<le> maxb" "minb \<le> maxb"
    and "minb \<le> length acc + length (st_bytes (r_context r))"
  shows "r_error r' = mpack_ok"
  using assms
proof (induction "minb - length acc" arbitrary: r acc rule: less_induct)
  case less
  show ?case
  proof (cases "length acc < minb")
    case False
    then show ?thesis
      using less.prems by (auto simp: mpack_fill_range.simps[of _ _ acc] reader_ready_def)
  next
    case True
    with less.prems obtain r1 b where f: "fill r (maxb - length acc) = (r1, Some b)" "b \<noteq> []"
      "r_error r1 = mpack_ok"
      using fill_delivers[of r "maxb - length acc"] by fastforce
    from fill_hands_over[OF less.prems(2,3) f(1,3)] obtain c where c:
      "r1 = r\<lparr>r_context := c\<rparr>" "st_bytes (r_context r) = b @ st_bytes c"
      "length b \<le> maxb - length acc" "st_eof c \<longrightarrow> st_bytes c = []" by blast
    have run: "mpack_fill_range fill r1 (acc @ b) minb maxb = (r', bs, k)"
      using less.prems(1) True f by (simp add: mpack_fill_range.simps[of _ _ acc])
    show ?thesis
      by (rule less.hyps[OF _ run]) (use less.prems c f True in
        \<open>auto simp: reader_ready_def reader_wf_def intro: diff_less_mono2\<close>)
  qed
qed

lemma ensure_ok:
  assumes "reader_ready r" "n \<le> MPACK_READER_MINIMUM_BUFFER_SIZE" "n \<le> length (reader_input r)"
  shows "\<exists>r'. mpack_reader_ensure fill r n = (r', True)"
proof (cases "n \<le> mpack_reader_left r")
  case True
  then show ?thesis by (simp add: mpack_reader_ensure_def)
next
  case False
  define r0 where "r0 = r\<lparr>r_mem := mem_put (r_mem r) 0 (reader_window r), r_end := mpack_reader_left r, r_data := 0\<rparr>"
  have len: "length (reader_window r) = mpack_reader_left r" "mpack_reader_left r \<le> length (r_mem r)"
    using assms(1) window_length by (auto simp: reader_state_defs)
  have fl: "r_fill r"
    using assms(3) False len by (auto simp: reader_input_def split: if_splits)
  then have sz: "n \<le> r_size r" "length (r_mem r) = r_size r"
    using assms(1,2) by (auto simp: reader_ready_def reader_wf_def)
  have r0: "reader_ready r0" "r_fill r0"
    using assms(1) fl len sz by (auto simp: r0_def reader_ready_def reader_wf_def mem_put_def)
  obtain r1 bs k where run:
    "mpack_fill_range fill r0 [] (n - mpack_reader_left r) (r_size r0 - mpack_reader_left r) = (r1, bs, k)"
    using prod_cases3 by blast
  have "r_error r1 = mpack_ok"
    by (rule fill_range_ok[OF run r0]) (use sz assms(3) fl len in \<open>auto simp: r0_def reader_input_def\<close>)
  then show ?thesis
    using False fl sz run
    by (auto simp: mpack_reader_ensure_def mpack_reader_ensure_straddle_def Let_def r0_def)
qed

lemma read_tag_ok:
  assumes "reader_ready r" "dec_tag ext (reader_input r) = Inr (t, k)"
  shows "\<exists>r'. mpack_read_tag fill ext r = (r', t) \<and> r_error r' = mpack_ok \<and>
    consumes r (take k (reader_input r)) r'"
proof -
  obtain n mk where sw: "reader_input r \<noteq> []" "tag_switch ext (hd (reader_input r)) = Inr (n, mk)"
    "n \<le> length (reader_input r)" "k = n" "t = mk (reader_input r)"
    using assms(2) by (auto simp: dec_tag_def split: if_splits sum.splits)
  have sz: "n \<le> MPACK_READER_MINIMUM_BUFFER_SIZE" "0 < n" "1 \<le> MPACK_READER_MINIMUM_BUFFER_SIZE"
    using switch_size[OF sw(2)] by (auto simp: MPACK_READER_MINIMUM_BUFFER_SIZE_def)
  have "1 \<le> length (reader_input r)"
    using sw(1) by (simp add: Suc_le_eq)
  from ensure_ok[OF assms(1) sz(3) this] obtain r1 where e1: "mpack_reader_ensure fill r 1 = (r1, True)" by blast
  from ensure[OF e1 assms(1)] have r1: "reader_ready r1" "reader_input r1 = reader_input r" "1 \<le> mpack_reader_left r1"
    by (auto simp: consumes_def reader_ready_def)
  from ensure_ok[OF r1(1) sz(1)] sw(3) r1(2) obtain r2 where e2: "mpack_reader_ensure fill r1 n = (r2, True)" by auto
  from ensure[OF e2 r1(1)] have r2: "reader_ready r2" by simp
  have "mpack_load_u8 (reader_window r1) = hd (reader_input r)"
    using r1(3) window_length[OF r1(1)] unfolding r1(2)[symmetric]
    by (cases "reader_window r1") (simp_all add: reader_input_def mpack_load_u8_def)
  then have p: "mpack_parse_tag fill ext r = (r2, mk (reader_window r2), n)"
    using e1 e2 sw(2) by (simp add: mpack_parse_tag_def)
  then obtain r3 where r3: "mpack_read_tag fill ext r = (r3, mk (reader_window r2))" "r_error r3 = mpack_ok"
    using assms(1) r2 sz(2) by (simp add: mpack_read_tag_def reader_ready_def)
  from read_tag[OF r3(1) assms(1) r3(2)] assms(2) r3 show ?thesis by auto
qed

end

section \<open>The callbacks of a file reader\<close>

interpretation file_fill: fill_contract "mpack_file_reader_fill env" for env
proof
  fix r r' :: mpack_reader and n :: nat and bs
  assume "reader_ready r" "r_fill r" "mpack_file_reader_fill env r n = (r', Some bs)" "r_error r' = mpack_ok"
  then show "\<exists>c. r' = r\<lparr>r_context := c\<rparr> \<and> st_bytes (r_context r) = bs @ st_bytes c \<and> length bs \<le> n \<and>
       (st_eof c \<longrightarrow> st_bytes c = [])"
    by (intro exI[of _ "r_context r'"])
      (auto simp: mpack_file_reader_fill_def Let_def mpack_reader_flag_error_def split: if_splits)
qed

interpretation file_skip: skip_contract "mpack_file_reader_fill env" "mpack_file_reader_skip env" for env
proof
  fix r r' :: mpack_reader and n :: nat
  assume a: "reader_ready r" "r_fill r" "r_data r = r_end r" "mpack_file_reader_skip env r n = r'"
    "r_error r' = mpack_ok"
  show "reader_ready r' \<and> same_source r r' \<and> reader_input r' = drop n (reader_input r)"
  proof (cases "fe_tell env \<and> fe_seek env")
    case True
    with a show ?thesis
      by (auto simp: mpack_file_reader_skip_def reader_state_defs)
  next
    case False
    with a have "mpack_reader_skip_using_fill (mpack_file_reader_fill env) r n = r'"
      by (auto simp: mpack_file_reader_skip_def reader_ready_def split: if_splits)
    from file_fill.skip_using_fill[OF this a(1-3,5)] show ?thesis by simp
  qed
qed

text \<open>On a device without read errors, \<open>fread\<close> returns every byte asked for that the file still has.\<close>

definition sound_device :: "bool \<Rightarrow> file_env" where
  "sound_device seekable = \<lparr>fe_read = (\<lambda>n. n), fe_tell = seekable, fe_seek = seekable, fe_error = False\<rparr>"

interpretation file_ok: reliable_fill "mpack_file_reader_fill (sound_device seekable)" for seekable
proof
  fix r :: mpack_reader and n :: nat
  assume "reader_ready r" "r_fill r" "0 < n" "st_bytes (r_context r) \<noteq> []"
  then show "\<exists>r' bs. mpack_file_reader_fill (sound_device seekable) r n = (r', Some bs) \<and> bs \<noteq> [] \<and> r_error r' = mpack_ok"
    by (auto simp: mpack_file_reader_fill_def sound_device_def Let_def reader_ready_def reader_wf_def)
qed

end
