(* ===== verification/Mpack_Value.thy ===== *)
theory Mpack_Value
  imports Mpack_Reader_Contract
begin

text \<open>
  MessagePack values as mathematical objects, their canonical encoding (what the write functions
  emit) and the relation \<open>encodes\<close>, which says which byte strings the decoder accepts for a
  value. The decoder of headers inverts the encoder of headers, and with it every canonical
  encoding is an accepted one.
\<close>

section \<open>Headers: decoding inverts encoding\<close>

lemma ucast_back_64:
  fixes v :: u64
  shows "v \<le> 0xFF \<Longrightarrow> ucast (ucast v :: u8) = v" "v \<le> 0xFFFF \<Longrightarrow> ucast (ucast v :: u16) = v"
    "v \<le> 0xFFFFFFFF \<Longrightarrow> ucast (ucast v :: u32) = v"
  by (simp_all add: word_le_def word_uint_eq_iff unsigned_ucast_eq take_bit_int_eq_self unsigned_take_bit_eq)

lemma ucast_back_32:
  fixes v :: u32
  shows "v \<le> 0xFF \<Longrightarrow> ucast (ucast v :: u8) = v" "v \<le> 0xFFFF \<Longrightarrow> ucast (ucast v :: u16) = v"
  by (simp_all add: word_le_def word_uint_eq_iff unsigned_ucast_eq take_bit_int_eq_self unsigned_take_bit_eq)

lemma signed_ucast_narrow:
  fixes v :: u64
  shows "sint (ucast v :: u8) = signed_take_bit 7 (sint v)" "sint (ucast v :: u16) = signed_take_bit 15 (sint v)"
   "sint (ucast v :: u32) = signed_take_bit 31 (sint v)"
  by (simp_all add: sint_uint) (rule bit_eqI, simp add: bit_simps min_def)+

lemma scast_back:
  fixes v :: u64
  assumes "sint v < 0"
  shows "- 128 \<le> sint v \<Longrightarrow> scast (ucast v :: u8) = v" "- 32768 \<le> sint v \<Longrightarrow> scast (ucast v :: u16) = v"
    "- 2147483648 \<le> sint v \<Longrightarrow> scast (ucast v :: u32) = v"
  using assms 
  by (auto simp: sint_eq_sint [symmetric] sint_widen signed_ucast_narrow signed_take_bit_int_eq_self)

lemma first_bytes: "list_all (\<lambda>n. P (of_nat n :: u8)) [0..<m] \<Longrightarrow> unat b < m \<Longrightarrow> P b"
proof -
  assume "list_all (\<lambda>n. P (of_nat n :: u8)) [0..<m]" "unat b < m"
  then have "P (of_nat (unat b))"
    unfolding list_all_iff by (auto dest: bspec [where x = "unat b"])
  then show "P b" by simp
qed

lemma infix_cases:
  "b \<le> 127 \<Longrightarrow> tag_infix b = Some (Tag_uint (ucast b))"
  "0xE0 \<le> b \<Longrightarrow> tag_infix b = Some (Tag_int (scast b))"
  "b \<le> 15 \<Longrightarrow> tag_infix (0x90 OR b) = Some (Tag_array (ucast b))"
  "b \<le> 15 \<Longrightarrow> tag_infix (0x80 OR b) = Some (Tag_map (ucast b))"
  "b \<le> 31 \<Longrightarrow> tag_infix (0xA0 OR b) = Some (Tag_str (ucast b))"
proof -
  show "b \<le> 127 \<Longrightarrow> tag_infix b = Some (Tag_uint (ucast b))"
    by (simp add: tag_infix_def)
  show "0xE0 \<le> b \<Longrightarrow> tag_infix b = Some (Tag_int (scast b))"
    by (auto simp: tag_infix_def word_le_nat_alt)
  have 15: "b \<le> 15 \<Longrightarrow> unat b < 16" and 31: "b \<le> 31 \<Longrightarrow> unat b < 32"
    by (simp_all add: word_le_nat_alt)
  show "b \<le> 15 \<Longrightarrow> tag_infix (0x90 OR b) = Some (Tag_array (ucast b))"
    by (rule first_bytes [where b = b, OF _ 15]) code_simp
  show "b \<le> 15 \<Longrightarrow> tag_infix (0x80 OR b) = Some (Tag_map (ucast b))"
    by (rule first_bytes [where b = b, OF _ 15]) code_simp
  show "b \<le> 31 \<Longrightarrow> tag_infix (0xA0 OR b) = Some (Tag_str (ucast b))"
    by (rule first_bytes [where b = b, OF _ 31]) code_simp
qed

lemma top_bits:
  "drop_bit 4 b \<in> {0x0, 0x1, 0x2, 0x3, 0x4, 0x5, 0x6, 0x7} \<longleftrightarrow> b \<le> (0x7F :: u8)"
  "drop_bit 4 b \<in> {0xE, 0xF} \<longleftrightarrow> 0xE0 \<le> (b :: u8)"
  "drop_bit 4 b = 0x8 \<longleftrightarrow> 0x80 \<le> b \<and> b \<le> (0x8F :: u8)"
  "drop_bit 4 b = 0x9 \<longleftrightarrow> 0x90 \<le> b \<and> b \<le> (0x9F :: u8)"
  "drop_bit 4 b \<in> {0xA, 0xB} \<longleftrightarrow> 0xA0 \<le> b \<and> b \<le> (0xBF :: u8)"
proof -
  define q r where "q = unat b div 16" and "r = unat b mod 16"
  have hi: "unat (drop_bit 4 b) = q" and b: "unat b = 16 * q + r" and lt: "r < 16" "q < 16"
    using unsigned_less [of b, where ?'a = nat] by (simp_all add: drop_bit_eq_div unat_div q_def r_def)
  note words = word_unat_eq_iff word_le_nat_alt hi b
  show "drop_bit 4 b \<in> {0x0, 0x1, 0x2, 0x3, 0x4, 0x5, 0x6, 0x7} \<longleftrightarrow> b \<le> (0x7F :: u8)"
    using lt by (simp add: words) arith
  show "drop_bit 4 b \<in> {0xE, 0xF} \<longleftrightarrow> 0xE0 \<le> (b :: u8)"
    using lt by (simp add: words) arith
  show "drop_bit 4 b = 0x8 \<longleftrightarrow> 0x80 \<le> b \<and> b \<le> (0x8F :: u8)"
    using lt by (simp add: words) arith
  show "drop_bit 4 b = 0x9 \<longleftrightarrow> 0x90 \<le> b \<and> b \<le> (0x9F :: u8)"
    using lt by (simp add: words) arith
  show "drop_bit 4 b \<in> {0xA, 0xB} \<longleftrightarrow> 0xA0 \<le> b \<and> b \<le> (0xBF :: u8)"
    using lt by (simp add: words) arith
qed

lemma infix_for_size: "tag_infix_for_size b = tag_infix b"
  unfolding tag_infix_for_size_def tag_infix_def Let_def top_bits ..

lemma dec_Cons:
  "dec_tag ext (b # p) =
     (case tag_switch ext b of
        Inl err \<Rightarrow> Inl err
      | Inr (n, mk) \<Rightarrow> if length p + 1 < n then Inl mpack_error_invalid else Inr (mk (b # p), n))"
  by (simp add: dec_tag_def cong: if_cong) (simp split: sum.split)

lemma dec_infix: "tag_infix b = Some t \<Longrightarrow> dec_tag ext (b # p) = Inr (t, 1)"
  by (simp add: dec_Cons tag_switch_def)

lemma narrow_bound:
  fixes n :: u32 and v :: u64
  shows "n \<le> 15 \<Longrightarrow> (ucast n :: u8) \<le> 15" "n \<le> 31 \<Longrightarrow> (ucast n :: u8) \<le> 31" "v \<le> 127 \<Longrightarrow> (ucast v :: u8) \<le> 127"
  by (simp_all add: word_le_def unsigned_ucast_eq take_bit_int_eq_self)

lemmas dec_enc_simps = encode_defs mpack_store_u8_def dec_Cons tag_switch_defs mpack_load_u8_def

lemma dec_enc_uint: "dec_tag ext (enc_uint v @ rest) = Inr (Tag_uint v, length (enc_uint v))"
proof (cases "v \<le> 127")
  case True
  then have "v \<le> 0xFF" by (simp add: word_le_def)
  with True show ?thesis
    by (simp add: enc_uint_def encode_defs mpack_store_u8_def dec_infix infix_cases narrow_bound ucast_back_64)
next
  case False
  then show ?thesis
    by (simp add: enc_uint_def dec_enc_simps ucast_back_64)
qed

lemma dec_enc_str: "dec_tag ext (enc_str n @ rest) = Inr (Tag_str n, length (enc_str n))"
proof (cases "n \<le> 31")
  case True
  then have "n \<le> 0xFF" by (simp add: word_le_def)
  with True show ?thesis
    by (simp add: enc_str_def encode_defs mpack_store_u8_def dec_infix infix_cases narrow_bound ucast_back_32)
next
  case False
  then show ?thesis
    by (simp add: enc_str_def dec_enc_simps ucast_back_32)
qed

lemma dec_enc_bin: "dec_tag ext (enc_bin n @ rest) = Inr (Tag_bin n, length (enc_bin n))"
  by (simp add: enc_bin_def dec_enc_simps ucast_back_32)

lemma dec_enc_array: "dec_tag ext (enc_array n @ rest) = Inr (Tag_array n, length (enc_array n))"
proof (cases "n \<le> 15")
  case True
  then have "n \<le> 0xFF" by (simp add: word_le_def)
  with True show ?thesis
    by (simp add: enc_array_def encode_defs mpack_store_u8_def dec_infix infix_cases narrow_bound ucast_back_32)
next
  case False
  then show ?thesis
    by (simp add: enc_array_def dec_enc_simps ucast_back_32)
qed

lemma dec_enc_map: "dec_tag ext (enc_map n @ rest) = Inr (Tag_map n, length (enc_map n))"
proof (cases "n \<le> 15")
  case True
  then have "n \<le> 0xFF" by (simp add: word_le_def)
  with True show ?thesis
    by (simp add: enc_map_def encode_defs mpack_store_u8_def dec_infix infix_cases narrow_bound ucast_back_32)
next
  case False
  then show ?thesis
    by (simp add: enc_map_def dec_enc_simps ucast_back_32)
qed

lemma dec_enc_ext: "dec_tag True (enc_ext t n @ rest) = Inr (Tag_ext t n, length (enc_ext t n))"
  by (simp add: enc_ext_def dec_enc_simps ucast_back_32)

lemma dec_enc_int: "dec_tag ext (enc_int v @ rest) = Inr (tag_normal (Tag_int v), length (enc_int v))"
proof (cases "- 32 \<le> sint v \<and> sint v < 0")
  case True
  then have "sint (ucast v :: u8) = sint v"
    by (simp add: signed_ucast_narrow signed_take_bit_int_eq_self)
  then have "uint (ucast v :: u8) = sint v mod 256"
    by (simp add: uint_sint [of "ucast v"] take_bit_eq_mod)
  moreover have "sint v mod 256 = sint v + 256"
    using True mod_pos_pos_trivial [of "sint v + 256" 256] by simp
  then have "224 \<le> sint v mod 256"
    using True by simp
  ultimately have "0xE0 \<le> (ucast v :: u8)"
    by (simp add: word_le_def)
  then show ?thesis
    using True by (simp add: enc_int_def encode_defs mpack_store_u8_def dec_infix infix_cases scast_back tag_normal_def)
next
  case False
  then consider "0 \<le> sint v" | "sint v < - 32" by linarith
  then show ?thesis
    by cases (simp_all add: enc_int_def dec_enc_uint dec_enc_simps scast_back tag_normal_def)
qed

text \<open>Every tag but the missing one survives the trip; a non-negative signed integer comes back unsigned.\<close>

lemma dec_enc_tag:
  assumes "t \<noteq> Tag_missing" "tag_type t = mpack_type_ext \<longrightarrow> ext"
  shows "dec_tag ext (enc_tag t @ rest) = Inr (tag_normal t, length (enc_tag t))"
  using assms
  by (cases t) (simp_all add: dec_enc_uint dec_enc_int dec_enc_str dec_enc_bin dec_enc_array dec_enc_map
      dec_enc_ext tag_normal_def dec_enc_simps)

lemma dec_tag_append: "dec_tag ext p = Inr (t, k) \<Longrightarrow> dec_tag ext (p @ q) = Inr (t, k)"
  by (auto simp: dec_tag_def switch_local split: if_splits sum.splits)

lemma dec_tag_size: "dec_tag ext p = Inr (t, k) \<Longrightarrow> 0 < k \<and> k \<le> 9 \<and> k \<le> length p"
  by (auto simp: dec_tag_def split: if_splits sum.splits dest: switch_size)

lemma dec_tag_not_missing: "dec_tag ext p = Inr (t, k) \<Longrightarrow> t \<noteq> Tag_missing"
  by (auto simp: dec_tag_def tag_switch_defs split: if_splits sum.splits)

section \<open>Values\<close>

datatype mp_value =
    MP_scalar mpack_tag
  | MP_str "u8 list"
  | MP_bin "u8 list"
  | MP_ext u8 "u8 list"
  | MP_array "mp_value list"
  | MP_map "(mp_value \<times> mp_value) list"

fun scalar_tag :: "mpack_tag \<Rightarrow> bool" where
  "scalar_tag Tag_nil = True"
| "scalar_tag (Tag_bool _) = True"
| "scalar_tag (Tag_int _) = True"
| "scalar_tag (Tag_uint _) = True"
| "scalar_tag (Tag_float _) = True"
| "scalar_tag (Tag_double _) = True"
| "scalar_tag _ = False"

definition pairs :: "('a \<times> 'a) list \<Rightarrow> 'a list" where
  "pairs kvs = concat (map (\<lambda>(k, v). [k, v]) kvs)"

lemma pairs_simps [simp]: "pairs [] = []" "pairs ((k, v) # kvs) = k # v # pairs kvs"
  by (simp_all add: pairs_def)

lemma length_pairs [simp]: "length (pairs kvs) = 2 * length kvs"
  by (induction kvs) auto

fun enc_value :: "mp_value \<Rightarrow> u8 list" where
  "enc_value (MP_scalar t) = enc_tag t"
| "enc_value (MP_str s) = enc_tag (Tag_str (of_nat (length s))) @ s"
| "enc_value (MP_bin s) = enc_tag (Tag_bin (of_nat (length s))) @ s"
| "enc_value (MP_ext t s) = enc_tag (Tag_ext t (of_nat (length s))) @ s"
| "enc_value (MP_array vs) = enc_tag (Tag_array (of_nat (length vs))) @ concat (map enc_value vs)"
| "enc_value (MP_map kvs) =
     enc_tag (Tag_map (of_nat (length kvs))) @ concat (map (\<lambda>(k, v). enc_value k @ enc_value v) kvs)"

fun value_ok :: "bool \<Rightarrow> mp_value \<Rightarrow> bool" where
  "value_ok ext (MP_scalar t) = scalar_tag t"
| "value_ok ext (MP_str s) = (length s < 2 ^ 32)"
| "value_ok ext (MP_bin s) = (length s < 2 ^ 32)"
| "value_ok ext (MP_ext t s) = (ext \<and> length s < 2 ^ 32)"
| "value_ok ext (MP_array vs) = (length vs < 2 ^ 32 \<and> list_all (value_ok ext) vs)"
| "value_ok ext (MP_map kvs) =
     (length kvs < 2 ^ 32 \<and> list_all (\<lambda>(k, v). value_ok ext k \<and> value_ok ext v) kvs)"

text \<open>What comes back: the integers in normal form.\<close>

fun value_normal :: "mp_value \<Rightarrow> mp_value" where
  "value_normal (MP_scalar t) = MP_scalar (tag_normal t)"
| "value_normal (MP_array vs) = MP_array (map value_normal vs)"
| "value_normal (MP_map kvs) = MP_map (map (\<lambda>(k, v). (value_normal k, value_normal v)) kvs)"
| "value_normal v = v"

text \<open>
  The byte strings that carry a value: any header the decoder accepts, the shortest or not,
  followed by the payload or the elements.
\<close>

inductive encodes :: "bool \<Rightarrow> mp_value \<Rightarrow> u8 list \<Rightarrow> bool"
  and encodes_all :: "bool \<Rightarrow> mp_value list \<Rightarrow> u8 list \<Rightarrow> bool" for ext :: bool where
  enc_scalar: "dec_tag ext h = Inr (t, length h) \<Longrightarrow> scalar_tag t \<Longrightarrow> encodes ext (MP_scalar t) h"
| enc_str: "dec_tag ext h = Inr (Tag_str l, length h) \<Longrightarrow> length s = unat l \<Longrightarrow> encodes ext (MP_str s) (h @ s)"
| enc_bin: "dec_tag ext h = Inr (Tag_bin l, length h) \<Longrightarrow> length s = unat l \<Longrightarrow> encodes ext (MP_bin s) (h @ s)"
| enc_ext: "dec_tag ext h = Inr (Tag_ext t l, length h) \<Longrightarrow> length s = unat l \<Longrightarrow> encodes ext (MP_ext t s) (h @ s)"
| enc_array: "dec_tag ext h = Inr (Tag_array n, length h) \<Longrightarrow> length vs = unat n \<Longrightarrow>
    encodes_all ext vs bs \<Longrightarrow> encodes ext (MP_array vs) (h @ bs)"
| enc_map: "dec_tag ext h = Inr (Tag_map n, length h) \<Longrightarrow> length kvs = unat n \<Longrightarrow>
    encodes_all ext (pairs kvs) bs \<Longrightarrow> encodes ext (MP_map kvs) (h @ bs)"
| enc_none: "encodes_all ext [] []"
| enc_more: "encodes ext v b \<Longrightarrow> encodes_all ext vs bs \<Longrightarrow> encodes_all ext (v # vs) (b @ bs)"

inductive_cases encodes_scalarE: "encodes ext (MP_scalar t) bs"
inductive_cases encodes_strE: "encodes ext (MP_str s) bs"
inductive_cases encodes_binE: "encodes ext (MP_bin s) bs"
inductive_cases encodes_extE: "encodes ext (MP_ext t s) bs"
inductive_cases encodes_arrayE: "encodes ext (MP_array vs) bs"
inductive_cases encodes_mapE: "encodes ext (MP_map kvs) bs"
inductive_cases encodes_all_NilE: "encodes_all ext [] bs"
inductive_cases encodes_all_ConsE: "encodes_all ext (v # vs) bs"

lemma encodes_all_concat:
  "(\<And>v. v \<in> set vs \<Longrightarrow> encodes ext (f v) (g v)) \<Longrightarrow> encodes_all ext (map f vs) (concat (map g vs))"
  by (induction vs) (auto intro: enc_none enc_more)

lemma encodes_all_pairs:
  "(\<And>k v. (k, v) \<in> set kvs \<Longrightarrow> encodes ext (f k) (g k) \<and> encodes ext (f v) (g v)) \<Longrightarrow>
   encodes_all ext (pairs (map (\<lambda>(k, v). (f k, f v)) kvs)) (concat (map (\<lambda>(k, v). g k @ g v) kvs))"
proof (induction kvs)
  case (Cons kv kvs)
  then show ?case by (cases kv) (fastforce intro: enc_more)
qed (simp add: enc_none)

lemma tag_dec_exact:
  "t \<noteq> Tag_missing \<Longrightarrow> tag_type t = mpack_type_ext \<longrightarrow> ext \<Longrightarrow>
   dec_tag ext (enc_tag t) = Inr (tag_normal t, length (enc_tag t))"
  using dec_enc_tag [of t ext "[]"] by simp

lemma encodes_enc_value: "value_ok ext v \<Longrightarrow> encodes ext (value_normal v) (enc_value v)"
proof (induction v)
  case (MP_scalar t)
  then have "t \<noteq> Tag_missing" "tag_type t \<noteq> mpack_type_ext" "scalar_tag (tag_normal t)"
    by (cases t; simp add: tag_normal_def)+
  then show ?case
    using tag_dec_exact [of t ext] by (auto intro: enc_scalar)
next
  case (MP_array vs)
  then show ?case
    using tag_dec_exact [of "Tag_array (of_nat (length vs))" ext]
    by (auto intro!: enc_array encodes_all_concat simp: tag_normal_def unat_of_nat list_all_iff take_bit_nat_eq_self)
next
  case (MP_map kvs)
  then show ?case
    using tag_dec_exact [of "Tag_map (of_nat (length kvs))" ext]
    by (auto intro!: enc_map encodes_all_pairs simp: tag_normal_def unat_of_nat list_all_iff take_bit_nat_eq_self)
qed (use tag_dec_exact [of "Tag_str _" ext] tag_dec_exact [of "Tag_bin _" ext] tag_dec_exact [of "Tag_ext _ _" ext]
  in \<open>auto intro!: enc_str enc_bin enc_ext simp: tag_normal_def unat_of_nat take_bit_nat_eq_self\<close>)

end
