(* ===== verification/Mpack_Discard.thy ===== *)
theory Mpack_Discard
  imports Mpack_Value
begin

text \<open>
  \<open>mpack_discard\<close> walks over one object of the input. It returns on every input, with fuel
  linear in its length, and on a well-formed object it consumes exactly the bytes of that
  object. The readers behind it are arbitrary: only the callback contracts are used.
\<close>

section \<open>Return on every input\<close>

lemma read_tag_error: "r_error r \<noteq> mpack_ok \<Longrightarrow> mpack_read_tag fill ext r = (r, Tag_nil)"
  by (simp add: mpack_read_tag_def)

lemma discard_error:
  "r_error r \<noteq> mpack_ok \<Longrightarrow> 0 < fuel \<Longrightarrow> mpack_discard fill skip ext fuel r = Some r"
  by (cases fuel) (simp_all add: read_tag_error)

definition shrinks :: "mpack_reader \<Rightarrow> nat \<Rightarrow> mpack_reader \<Rightarrow> bool" where
  "shrinks r d r' \<longleftrightarrow>
     (r_error r' = mpack_ok \<longrightarrow>
      reader_ready r' \<and> same_source r r' \<and> length (reader_input r') + d \<le> length (reader_input r))"

lemma shrinks_trans:
  "shrinks r d r' \<Longrightarrow> r_error r' = mpack_ok \<Longrightarrow> shrinks r' e r'' \<Longrightarrow> f \<le> d + e \<Longrightarrow> shrinks r f r''"
  by (auto simp: shrinks_def same_source_def)

lemma shrinks_refl: "reader_ready r \<Longrightarrow> shrinks r 0 r"
  by (simp add: shrinks_def same_source_def)

text \<open>The induction hypothesis: with this much fuel, all three loops return on inputs it covers.\<close>

definition discards_return :: "fill_fn \<Rightarrow> skip_fn \<Rightarrow> bool \<Rightarrow> nat \<Rightarrow> bool" where
  "discards_return fill skip ext fuel \<longleftrightarrow>
     (\<forall>r. reader_ready r \<longrightarrow>
       (2 * length (reader_input r) + 1 \<le> fuel \<longrightarrow>
         (\<exists>r'. mpack_discard fill skip ext fuel r = Some r' \<and> shrinks r 1 r')) \<and>
       (2 * length (reader_input r) + 2 \<le> fuel \<longrightarrow>
         (\<forall>n. (\<exists>r'. discard_array fill skip ext fuel n r = Some r' \<and> shrinks r 0 r') \<and>
              (\<exists>r'. discard_map fill skip ext fuel n r = Some r' \<and> shrinks r 0 r'))))"

context skip_contract
begin

lemma read_tag_shrinks:
  assumes "mpack_read_tag fill ext r = (r', t)" "reader_ready r"
  shows "shrinks r 1 r'"
proof (cases "r_error r' = mpack_ok")
  case True
  from read_tag [OF assms True] obtain k where "dec_tag ext (reader_input r) = Inr (t, k)"
    "consumes r (take k (reader_input r)) r'" by blast
  then have c: "reader_input r = take k (reader_input r) @ reader_input r'" "reader_ready r'" "same_source r r'"
    and k: "0 < k" "k \<le> length (reader_input r)"
    using True dec_tag_size [of ext "reader_input r" t k] by (auto simp: consumes_def)
  from arg_cong [OF c(1), of length] k have "length (reader_input r) = k + length (reader_input r')"
    by simp
  then show ?thesis
    using c k by (simp add: shrinks_def)
qed (simp add: shrinks_def)

lemma skip_shrinks:
  assumes "reader_ready r"
  shows "shrinks r 0 (mpack_skip_bytes fill skip r n)"
  using skip_bytes [OF refl assms] by (simp add: shrinks_def)

lemma discard_step:
  assumes IH: "discards_return fill skip ext fuel"
    and a: "reader_ready r" "2 * length (reader_input r) + 1 \<le> Suc fuel"
  shows "\<exists>r'. mpack_discard fill skip ext (Suc fuel) r = Some r' \<and> shrinks r 1 r'"
proof -
  obtain r1 t where rt: "mpack_read_tag fill ext r = (r1, t)" by fastforce
  note s = read_tag_shrinks [OF rt a(1)]
  show ?thesis
  proof (cases "r_error r1 = mpack_ok")
    case True
    with s have r1: "reader_ready r1" "length (reader_input r1) + 1 \<le> length (reader_input r)"
      by (auto simp: shrinks_def)
    then have "2 * length (reader_input r1) + 2 \<le> fuel"
      using a(2) by linarith
    with IH r1 obtain f g where
      "\<And>n. discard_array fill skip ext fuel n r1 = Some (f n) \<and> shrinks r1 0 (f n)"
      "\<And>n. discard_map fill skip ext fuel n r1 = Some (g n) \<and> shrinks r1 0 (g n)" unfolding discards_return_def by metis
    then show ?thesis
      using rt True shrinks_trans [OF s True, of 0 _ 1] skip_shrinks [OF r1(1)] shrinks_refl [OF r1(1)]
      by (auto split: mpack_tag.split)
  qed (use rt s in \<open>simp add: shrinks_def\<close>)
qed

lemma discard_array_step:
  assumes IH: "discards_return fill skip ext fuel"
    and a: "reader_ready r" "2 * length (reader_input r) + 2 \<le> Suc fuel"
  shows "\<exists>r'. discard_array fill skip ext (Suc fuel) n r = Some r' \<and> shrinks r 0 r'"
proof (cases n)
  case 0
  with shrinks_refl a show ?thesis by simp
next
  case (Suc m)
  obtain r1 where r1: "mpack_discard fill skip ext fuel r = Some r1" "shrinks r 1 r1"
    using IH a unfolding discards_return_def by (metis Suc_le_mono Suc_eq_plus1 add_2_eq_Suc')
  show ?thesis
  proof (cases "r_error r1 = mpack_ok")
    case True
    with r1 have "reader_ready r1" "2 * length (reader_input r1) + 2 \<le> fuel"
      using a(2) by (auto simp: shrinks_def)
    with IH obtain r2 where "discard_array fill skip ext fuel m r1 = Some r2" "shrinks r1 0 r2"
      unfolding discards_return_def by blast
    then show ?thesis
      using Suc r1 True shrinks_trans [OF r1(2) True, of 0 r2 0] by simp
  qed (use Suc r1 in \<open>simp add: shrinks_def\<close>)
qed

lemma discard_map_step:
  assumes IH: "discards_return fill skip ext fuel"
    and a: "reader_ready r" "2 * length (reader_input r) + 2 \<le> Suc fuel"
  shows "\<exists>r'. discard_map fill skip ext (Suc fuel) n r = Some r' \<and> shrinks r 0 r'"
proof (cases n)
  case 0
  with shrinks_refl a show ?thesis by simp
next
  case (Suc m)
  obtain r1 where r1: "mpack_discard fill skip ext fuel r = Some r1" "shrinks r 1 r1"
    using IH a unfolding discards_return_def by (metis Suc_le_mono Suc_eq_plus1 add_2_eq_Suc')
  obtain r2 where r2: "mpack_discard fill skip ext fuel r1 = Some r2" "r_error r1 = mpack_ok \<longrightarrow> shrinks r1 1 r2"
    "r_error r1 \<noteq> mpack_ok \<longrightarrow> r2 = r1"
    using IH a r1 discard_error [of r1 fuel]
    by (cases "r_error r1 = mpack_ok") (auto simp: shrinks_def discards_return_def)
  have s2: "shrinks r 1 r2"
    using r1(2) r2(2,3) shrinks_trans [OF r1(2), of 1 r2 1] by (auto simp: shrinks_def)
  show ?thesis
  proof (cases "r_error r2 = mpack_ok")
    case True
    with s2 have "reader_ready r2" "2 * length (reader_input r2) + 2 \<le> fuel"
      using a(2) by (auto simp: shrinks_def)
    with IH obtain r3 where "discard_map fill skip ext fuel m r2 = Some r3" "shrinks r2 0 r3"
      unfolding discards_return_def by blast
    then show ?thesis
      using Suc r1(1) r2(1) True shrinks_trans [OF s2 True, of 0 r3 0] by simp
  qed (use Suc r1(1) r2(1) in \<open>simp add: shrinks_def\<close>)
qed

lemma discard_returns: "discards_return fill skip ext fuel"
proof (induction fuel)
  case 0
  then show ?case by (simp add: discards_return_def)
next
  case (Suc fuel)
  show ?case
    unfolding discards_return_def
    by (intro allI impI conjI discard_step discard_array_step discard_map_step Suc)
qed

end

section \<open>Well-formed objects\<close>

text \<open>A reader over bytes in memory has its whole input in the window, so it cannot run short.\<close>

lemma memory_input: "reader_ready r \<Longrightarrow> \<not> r_fill r \<Longrightarrow> length (reader_input r) = mpack_reader_left r"
  by (simp add: reader_input_def window_length)

lemma memory_read_tag:
  assumes "reader_ready r" "\<not> r_fill r" "dec_tag ext (reader_input r) = Inr (t, k)"
  shows "mpack_read_tag fill ext r = (r\<lparr>r_data := r_data r + k\<rparr>, t)"
proof -
  obtain mk where sw: "tag_switch ext (hd (reader_input r)) = Inr (k, mk)" "reader_input r \<noteq> []"
    "k \<le> length (reader_input r)" "t = mk (reader_input r)"
    using assms(3) by (auto simp: dec_tag_def split: if_splits sum.splits)
  have "reader_input r = reader_window r" "0 < k"
    using assms(2) switch_size [OF sw(1)] by (simp_all add: reader_input_def)
  then have "mpack_parse_tag fill ext r = (r, t, k)" "0 < k"
    using sw memory_input [OF assms(1,2)]
    by (auto simp: mpack_parse_tag_def mpack_reader_ensure_def mpack_load_u8_def hd_conv_nth Suc_le_eq
        simp flip: length_greater_0_conv)
  then show ?thesis
    using assms(1) by (simp add: mpack_read_tag_def reader_ready_def)
qed

lemma memory_skip:
  "reader_ready r \<Longrightarrow> \<not> r_fill r \<Longrightarrow> n \<le> length (reader_input r) \<Longrightarrow>
   r_error (mpack_skip_bytes fill skip r n) = mpack_ok"
  by (simp add: mpack_skip_bytes_def memory_input reader_ready_def)

definition discards_to :: "mpack_reader \<Rightarrow> u8 list \<Rightarrow> mpack_reader \<Rightarrow> bool" where
  "discards_to r rest r' \<longleftrightarrow>
     (r_error r' = mpack_ok \<longrightarrow> reader_ready r' \<and> same_source r r' \<and> reader_input r' = rest) \<and>
     (\<not> r_fill r \<longrightarrow> r_error r' = mpack_ok)"

lemma discards_to_trans:
  "discards_to r q r' \<Longrightarrow> r_error r' = mpack_ok \<Longrightarrow> discards_to r' q' r'' \<Longrightarrow> discards_to r q' r''"
  by (auto simp: discards_to_def same_source_def)

lemma discards_to_refl: "reader_ready r \<Longrightarrow> reader_input r = rest \<Longrightarrow> discards_to r rest r"
  by (simp add: discards_to_def same_source_def reader_ready_def)

definition discards_value :: "fill_fn \<Rightarrow> skip_fn \<Rightarrow> bool \<Rightarrow> mp_value \<Rightarrow> bool" where
  "discards_value fill skip ext v \<longleftrightarrow>
     (\<forall>bs rest r fuel r'. encodes ext v bs \<longrightarrow> reader_ready r \<longrightarrow> reader_input r = bs @ rest \<longrightarrow>
       mpack_discard fill skip ext fuel r = Some r' \<longrightarrow> discards_to r rest r')"

lemma discards_valueI:
  "(\<And>bs rest r fuel r'. encodes ext v bs \<Longrightarrow> reader_ready r \<Longrightarrow> reader_input r = bs @ rest \<Longrightarrow>
     mpack_discard fill skip ext fuel r = Some r' \<Longrightarrow> discards_to r rest r') \<Longrightarrow>
   discards_value fill skip ext v"
  unfolding discards_value_def by blast

lemma discards_valueD:
  "discards_value fill skip ext v \<Longrightarrow> encodes ext v bs \<Longrightarrow> reader_ready r \<Longrightarrow> reader_input r = bs @ rest \<Longrightarrow>
   mpack_discard fill skip ext fuel r = Some r' \<Longrightarrow> discards_to r rest r'"
  unfolding discards_value_def by blast

context skip_contract
begin

lemma read_header:
  assumes "mpack_read_tag fill ext r = (r', t')" "reader_ready r" "reader_input r = h @ rest"
    and "dec_tag ext h = Inr (t, length h)"
  shows "discards_to r rest r'" "r_error r' = mpack_ok \<Longrightarrow> t' = t"
proof -
  have d: "dec_tag ext (reader_input r) = Inr (t, length h)"
    using assms(3,4) dec_tag_append by simp
  show "discards_to r rest r'"
    using read_tag [OF assms(1,2)] d assms memory_read_tag [OF assms(2) _ d, of fill]
    by (auto simp: discards_to_def consumes_def reader_ready_def)
  show "r_error r' = mpack_ok \<Longrightarrow> t' = t"
    using read_tag [OF assms(1,2)] d by auto
qed

lemma skip_payload:
  assumes "reader_ready r" "reader_input r = s @ rest" "length s = n"
  shows "discards_to r rest (mpack_skip_bytes fill skip r n)"
  using skip_bytes [OF refl assms(1), of n] memory_skip [OF assms(1), of n] assms(2,3)
  by (auto simp: discards_to_def)

lemma discard_elements:
  assumes "\<And>v. v \<in> set vs \<Longrightarrow> discards_value fill skip ext v"
  shows "encodes_all ext vs bs \<Longrightarrow> reader_ready r \<Longrightarrow> reader_input r = bs @ rest \<Longrightarrow>
    discard_array fill skip ext fuel (length vs) r = Some r' \<Longrightarrow> discards_to r rest r'"
  using assms
proof (induction vs arbitrary: bs r fuel)
  case Nil
  then show ?case by (auto elim!: encodes_all_NilE intro!: discards_to_refl)
next
  case (Cons v vs)
  then obtain b bs' where b: "bs = b @ bs'" "encodes ext v b" "encodes_all ext vs bs'"
    by (auto elim: encodes_all_ConsE)
  obtain f r1 where r1: "mpack_discard fill skip ext f r = Some r1"
    "if r_error r1 \<noteq> mpack_ok then r' = r1 else discard_array fill skip ext f (length vs) r1 = Some r'"
    using Cons.prems(4) by (cases fuel) (auto split: option.splits if_splits)
  have d: "discards_to r (bs' @ rest) r1"
    using discards_valueD [OF _ b(2) Cons.prems(2) _ r1(1)] Cons.prems(3,5) b(1) by simp
  show ?case
  proof (cases "r_error r1 = mpack_ok")
    case True
    with d have "reader_ready r1" "reader_input r1 = bs' @ rest"
      by (auto simp: discards_to_def)
    from Cons.IH [OF b(3) this, of f] r1 True Cons.prems(5) show ?thesis
      using discards_to_trans [OF d True] by simp
  qed (use d r1 in \<open>auto simp: discards_to_def\<close>)
qed

lemma discard_pairs:
  assumes "\<And>k v. (k, v) \<in> set kvs \<Longrightarrow> discards_value fill skip ext k \<and> discards_value fill skip ext v"
  shows "encodes_all ext (pairs kvs) bs \<Longrightarrow> reader_ready r \<Longrightarrow> reader_input r = bs @ rest \<Longrightarrow>
    discard_map fill skip ext fuel (length kvs) r = Some r' \<Longrightarrow> discards_to r rest r'"
  using assms
proof (induction kvs arbitrary: bs r fuel)
  case Nil
  then show ?case by (auto elim!: encodes_all_NilE intro!: discards_to_refl)
next
  case (Cons kv kvs)
  obtain k v where kv: "kv = (k, v)" by fastforce
  with Cons.prems obtain a b bs' where b: "bs = a @ b @ bs'" "encodes ext k a" "encodes ext v b"
    "encodes_all ext (pairs kvs) bs'"
    by (fastforce elim!: encodes_all_ConsE)
  obtain f r1 r2 where r1: "mpack_discard fill skip ext f r = Some r1" "mpack_discard fill skip ext f r1 = Some r2"
    "if r_error r2 \<noteq> mpack_ok then r' = r2 else discard_map fill skip ext f (length kvs) r2 = Some r'"
    using Cons.prems(4) by (cases fuel) (auto split: option.splits if_splits)
  have P: "discards_value fill skip ext k" "discards_value fill skip ext v"
    using Cons.prems(5) kv by auto
  have d1: "discards_to r (b @ bs' @ rest) r1"
    using discards_valueD [OF P(1) b(2) Cons.prems(2) _ r1(1)] Cons.prems(3) b(1) by simp
  have d2: "discards_to r (bs' @ rest) r2"
  proof (cases "r_error r1 = mpack_ok")
    case True
    with d1 have "discards_to r1 (bs' @ rest) r2"
      by (intro discards_valueD [OF P(2) b(3) _ _ r1(2)]) (auto simp: discards_to_def)
    then show ?thesis
      by (rule discards_to_trans [OF d1 True])
  next
    case False
    with r1(2) d1 show ?thesis by (cases f) (auto simp: discards_to_def read_tag_error)
  qed
  show ?case
  proof (cases "r_error r2 = mpack_ok")
    case True
    with d2 have "reader_ready r2" "reader_input r2 = bs' @ rest"
      by (auto simp: discards_to_def)
    moreover have "discards_value fill skip ext k' \<and> discards_value fill skip ext v'"
      if "(k', v') \<in> set kvs" for k' v'
      using Cons.prems(5) that by (meson list.set_intros(2))
    ultimately show ?thesis
      using Cons.IH [OF b(4), of r2 f] r1(3) True discards_to_trans [OF d2 True] by simp
  qed (use d2 r1(3) in \<open>auto simp: discards_to_def\<close>)
qed

text \<open>What follows a header that was read: its payload is skipped, its elements are discarded.\<close>

lemma discard_after_header:
  assumes "dec_tag ext h = Inr (t, length h)" "reader_ready r" "reader_input r = h @ bs"
    and "mpack_discard fill skip ext fuel r = Some r'"
    and body: "\<And>r1 f. reader_ready r1 \<Longrightarrow> reader_input r1 = bs \<Longrightarrow>
      (case t of
         Tag_str l \<Rightarrow> Some (mpack_skip_bytes fill skip r1 (unat l))
       | Tag_bin l \<Rightarrow> Some (mpack_skip_bytes fill skip r1 (unat l))
       | Tag_ext _ l \<Rightarrow> Some (mpack_skip_bytes fill skip r1 (unat l))
       | Tag_array n \<Rightarrow> discard_array fill skip ext f (unat n) r1
       | Tag_map n \<Rightarrow> discard_map fill skip ext f (unat n) r1
       | _ \<Rightarrow> Some r1) = Some r' \<Longrightarrow> discards_to r1 rest r'"
  shows "discards_to r rest r'"
proof -
  obtain f where f: "fuel = Suc f"
    using assms(4) by (cases fuel) auto
  obtain r1 t' where rt: "mpack_read_tag fill ext r = (r1, t')" by fastforce
  note h = read_header [OF rt assms(2,3,1)]
  show ?thesis
  proof (cases "r_error r1 = mpack_ok")
    case True
    with h have "reader_ready r1" "reader_input r1 = bs" "t' = t"
      by (auto simp: discards_to_def)
    with body [OF this(1,2), of f] assms(4) f rt True show ?thesis
      using discards_to_trans [OF h(1) True] by simp
  next
    case False
    then show ?thesis
      using h(1) assms(4) f rt by (auto simp: discards_to_def)
  qed
qed

lemma discard_payload:
  assumes "dec_tag ext h = Inr (t, length h)" "t = Tag_str l \<or> t = Tag_bin l \<or> t = Tag_ext x l" "length s = unat l"
    and "reader_ready r" "reader_input r = h @ s @ rest" "mpack_discard fill skip ext fuel r = Some r'"
  shows "discards_to r rest r'"
  by (rule discard_after_header [OF assms(1,4,5,6)]) (use assms(2,3) skip_payload in auto)

lemma discard_value: "discards_value fill skip ext v"
proof (induction v)
  case (MP_scalar t)
  show ?case
  proof (rule discards_valueI, elim encodes_scalarE)
    fix bs rest r fuel r'
    assume a: "reader_ready r" "reader_input r = bs @ rest" "mpack_discard fill skip ext fuel r = Some r'"
      "dec_tag ext bs = Inr (t, length bs)" "scalar_tag t"
    show "discards_to r rest r'"
      by (rule discard_after_header [OF a(4,1,2,3)])
        (use a(5) in \<open>cases t; auto intro: discards_to_refl\<close>)
  qed
next
  case (MP_array vs)
  show ?case
  proof (rule discards_valueI, elim encodes_arrayE)
    fix bs rest r fuel r' h n es
    assume a: "reader_ready r" "reader_input r = bs @ rest" "mpack_discard fill skip ext fuel r = Some r'"
      "bs = h @ es" "dec_tag ext h = Inr (Tag_array n, length h)" "length vs = unat n" "encodes_all ext vs es"
    show "discards_to r rest r'"
      by (rule discard_after_header [OF a(5,1) _ a(3), of "es @ rest"])
        (simp_all add: a discard_elements [OF MP_array a(7)] flip: a(6))
  qed
next
  case (MP_map kvs)
  have IH: "discards_value fill skip ext k \<and> discards_value fill skip ext v" if "(k, v) \<in> set kvs" for k v
    using MP_map [OF that] by (simp add: fsts.intros snds.intros)
  show ?case
  proof (rule discards_valueI, elim encodes_mapE)
    fix bs rest r fuel r' h n es
    assume a: "reader_ready r" "reader_input r = bs @ rest" "mpack_discard fill skip ext fuel r = Some r'"
      "bs = h @ es" "dec_tag ext h = Inr (Tag_map n, length h)" "length kvs = unat n" "encodes_all ext (pairs kvs) es"
    show "discards_to r rest r'"
      by (rule discard_after_header [OF a(5,1) _ a(3), of "es @ rest"])
        (simp_all add: a discard_pairs [OF IH a(7)] flip: a(6))
  qed
next
  case (MP_str s)
  show ?case
    by (rule discards_valueI, elim encodes_strE) (rule discard_payload, auto)
next
  case (MP_bin s)
  show ?case
    by (rule discards_valueI, elim encodes_binE) (rule discard_payload, auto)
next
  case (MP_ext t s)
  show ?case
    by (rule discards_valueI, elim encodes_extE) (rule discard_payload, auto)
qed

end

end
