(* ===== verification/Mpack_Properties.thy ===== *)
theory Mpack_Properties
  imports Mpack_Utf8 Mpack_Discard
begin

text \<open>
  The properties of the MessagePack library, stated over its own functions: each rests on the
  interpretations of the callback contracts and on the header round trip.
\<close>

section \<open>The ground layer\<close>

text \<open>\<open>mpack_tag_cmp\<close> is a total preorder on tags whose equivalence identifies exactly the tags
  with the same normal form, i.e. a non-negative signed integer and the same unsigned one.\<close>

theorem tag_cmp_total_order:
  "(mpack_tag_cmp s t = 0 \<longleftrightarrow> tag_normal s = tag_normal t) \<and>
   mpack_tag_cmp t s = - mpack_tag_cmp s t \<and>
   (mpack_tag_cmp r s \<le> 0 \<longrightarrow> mpack_tag_cmp s t \<le> 0 \<longrightarrow> mpack_tag_cmp r t \<le> 0)"
  using tag_cmp_zero [of s t] tag_cmp_swap [of s t] tag_cmp_trans [of r s t] by auto

theorem tag_cmp_total_order_witness:
  "mpack_tag_cmp (Tag_int 3) (Tag_uint 3) = 0 \<and> mpack_tag_cmp (Tag_uint 3) (Tag_array 2) \<le> 0 \<and>
   mpack_tag_cmp (Tag_int 3) (Tag_array 2) \<le> 0"
proof -
  have "mpack_tag_cmp (Tag_int 3) (Tag_uint 3) = 0" "mpack_tag_cmp (Tag_uint 3) (Tag_array 2) \<le> 0"
    by (simp_all add: mpack_tag_cmp_def tag_normal_def cmp3_def)
  then show ?thesis
    using tag_cmp_total_order [of "Tag_uint 3" "Tag_array 2" "Tag_int 3"] by simp
qed

text \<open>C5: the UTF-8 checker accepts a byte string exactly when it is the concatenation of the
  encodings of Unicode scalar values, none of them NUL when NUL is not allowed: no overlong form, no
  surrogate and nothing above U+10FFFF gets through.\<close>

theorem utf8_check_exact:
  "mpack_utf8_check_impl bs allow_null \<longleftrightarrow>
   (\<exists>cps. list_all (\<lambda>cp. scalar cp \<and> (if allow_null then True else cp \<noteq> 0)) cps \<and>
     bs = concat (map utf8_encode cps))"
proof -
  have "list_all (\<lambda>cp. scalar cp \<and> (if allow_null then True else cp \<noteq> 0)) cps \<longleftrightarrow>
      (\<forall>cp\<in>set cps. scalar cp) \<and> (allow_null \<or> 0 \<notin> set cps)" for cps
    by (induction cps) auto
  then show ?thesis
    using check_impl_iff [of bs allow_null] by simp
qed

section \<open>The encoder\<close>

text \<open>C4: writing a tag into a growable writer whose allocator serves every request succeeds and
  appends exactly the shortest encoding of that tag to what was written before, however often the
  buffer had to grow.\<close>

theorem growable_write_tag:
  assumes "writer_ready w" "w_error w = mpack_ok" "t \<noteq> Tag_missing"
    and "w' = mpack_write_tag (mpack_growable_writer_flush (\<lambda>_. True)) w t"
  shows "w_error w' = mpack_ok \<and> writer_ready w' \<and> writer_output w' = writer_output w @ enc_tag t"
  using growable_malloc.write_tag_ok [OF assms(1-3)] growable.write_tag [OF assms(1), of t "\<lambda>_. True"] assms(4)
  by (auto simp: emits_def writer_ready_def)

theorem growable_write_tag_witness:
  "w_error (mpack_write_tag (mpack_growable_writer_flush (\<lambda>_. True))
     (mpack_writer_init_growable (\<lambda>_. True)) (Tag_array 3)) = mpack_ok \<and>
   writer_output (mpack_write_tag (mpack_growable_writer_flush (\<lambda>_. True))
     (mpack_writer_init_growable (\<lambda>_. True)) (Tag_array 3)) = [0x93]"
proof -
  let ?w = "mpack_writer_init_growable (\<lambda>_. True)"
  have "writer_ready ?w" "w_error ?w = mpack_ok" "writer_output ?w = []"
    by (simp_all add: mpack_writer_init_growable_def mpack_writer_init_def mpack_writer_clear_def
        mpack_writer_set_flush_def mpack_writer_buffer_size_def writer_ready_def writer_wf_def
        writer_output_def MPACK_BUFFER_SIZE_def MPACK_WRITER_MINIMUM_BUFFER_SIZE_def)
  with growable_write_tag [OF this(1,2) _ refl, of "Tag_array 3"] show ?thesis
    by (simp add: enc_array_def encode_defs mpack_store_u8_def)
qed

text \<open>C24: with an allocator or a file that may fail at any moment, a tag or a string written is
  either appended in full or the writer's error is set; it is never appended in part unnoticed.\<close>

theorem write_all_or_error:
  assumes "writer_ready w" and "unat n \<le> length bytes"
  shows "emits w (enc_tag t) (mpack_write_tag (mpack_growable_writer_flush alloc) w t) \<and>
    emits w (enc_tag t) (mpack_write_tag (mpack_file_writer_flush fw) w t) \<and>
    emits w (enc_tag (Tag_str n) @ take (unat n) bytes) (mpack_write_str (mpack_growable_writer_flush alloc) w bytes n) \<and>
    emits w (enc_tag (Tag_str n) @ take (unat n) bytes) (mpack_write_str (mpack_file_writer_flush fw) w bytes n)"
  using growable.write_tag [OF assms(1)] filewriter.write_tag [OF assms(1)]
    growable.write_str [OF assms] filewriter.write_str [OF assms] by simp

theorem write_all_or_error_witness:
  "emits ((mpack_writer_init (replicate 32 0))\<lparr>w_flush := True\<rparr>) (enc_tag (Tag_str 2) @ [0x61, 0x62])
     (mpack_write_str (mpack_file_writer_flush (\<lambda>_. 0)) ((mpack_writer_init (replicate 32 0))\<lparr>w_flush := True\<rparr>)
       [0x61, 0x62, 0x63] 2)"
  using write_all_or_error [of "(mpack_writer_init (replicate 32 0))\<lparr>w_flush := True\<rparr>" 2 "[0x61, 0x62, 0x63]"]
  by (simp add: mpack_writer_init_def mpack_writer_clear_def writer_ready_def writer_wf_def
      MPACK_WRITER_MINIMUM_BUFFER_SIZE_def)

text \<open>The writers for narrow integers do what the 64-bit writers do on the widened value, so the
  shortest encoding does not depend on the C type a number had.\<close>

lemma narrow_writers_agree:
  "mpack_write_u8 flush w a = mpack_write_u64 flush w (ucast a) \<and>
   mpack_write_u16 flush w b = mpack_write_u64 flush w (ucast b) \<and>
   mpack_write_u32 flush w c = mpack_write_u64 flush w (ucast c) \<and>
   mpack_write_i8 flush w a = mpack_write_i64 flush w (scast a) \<and>
   mpack_write_i16 flush w b = mpack_write_i64 flush w (scast b) \<and>
   mpack_write_i32 flush w c = mpack_write_i64 flush w (scast c)"
  by (intro conjI write_unsigned_widen write_signed_widen)

section \<open>The decoder\<close>

text \<open>C3: a reader whose remaining input starts with the encoding of a tag returns that tag (a
  non-negative signed integer as an unsigned one), consumes exactly its bytes and flags no error,
  wherever the buffer boundary falls and however the file behind it delivers its bytes.\<close>

theorem read_written_tag:
  assumes "reader_ready r" "reader_input r = enc_tag t @ rest" "t \<noteq> Tag_missing"
    and "tag_type t = mpack_type_ext \<longrightarrow> ext"
  shows "\<exists>r'. mpack_read_tag (mpack_file_reader_fill (sound_device seekable)) ext r = (r', tag_normal t) \<and>
    reader_ready r' \<and> reader_input r' = rest"
proof -
  have d: "dec_tag ext (reader_input r) = Inr (tag_normal t, length (enc_tag t))"
    using assms(2) dec_enc_tag [OF assms(3,4), of rest] by simp
  from file_ok.read_tag_ok [OF assms(1) d, of seekable] assms(2) show ?thesis
    by (auto simp: consumes_def)
qed

theorem read_written_tag_witness:
  "\<exists>r'. mpack_read_tag (mpack_file_reader_fill (sound_device True)) False
     (mpack_reader_init_data [0x93, 0x01]) = (r', Tag_array 3) \<and> reader_ready r' \<and> reader_input r' = [0x01]"
  using read_written_tag [of "mpack_reader_init_data [0x93, 0x01]" "Tag_array 3" "[0x01]" False True]
  by (simp add: mpack_reader_init_data_def reader_zero_def reader_state_defs enc_array_def encode_defs
      mpack_store_u8_def tag_normal_def)

text \<open>C32: whatever the device does, a tag the file reader returns without error is the one the
  first bytes of its input spell, and exactly those bytes are consumed.\<close>

theorem read_tag_sound:
  assumes "reader_ready r" "mpack_read_tag (mpack_file_reader_fill env) ext r = (r', t)" "r_error r' = mpack_ok"
  shows "\<exists>k. dec_tag ext (reader_input r) = Inr (t, k) \<and> reader_ready r' \<and>
    reader_input r = take k (reader_input r) @ reader_input r'"
  using file_fill.read_tag [OF assms(2,1,3)] assms(3) by (auto simp: consumes_def)

theorem read_tag_sound_witness:
  "\<exists>k. dec_tag False (reader_input (mpack_reader_init_data [0xC3])) = Inr (Tag_bool True, k)"
proof -
  let ?r = "mpack_reader_init_data [0xC3]"
  have "reader_ready ?r"
    by (simp add: mpack_reader_init_data_def reader_zero_def reader_state_defs)
  moreover have "mpack_read_tag (mpack_file_reader_fill (sound_device True)) False ?r = (?r\<lparr>r_data := 1\<rparr>, Tag_bool True)"
    by (simp add: mpack_read_tag_def mpack_parse_tag_def mpack_reader_ensure_def mpack_reader_init_data_def
        reader_zero_def mpack_reader_left_def reader_window_def tag_switch_defs mpack_load_u8_def)
  ultimately show ?thesis
    using read_tag_sound [of ?r "sound_device True" False "?r\<lparr>r_data := 1\<rparr>" "Tag_bool True"]
    by (auto simp: mpack_reader_init_data_def reader_zero_def)
qed

text \<open>C31: \<open>mpack_discard\<close> returns on every input, valid or not, over every device: the number of
  nested calls is at most linear in the bytes left.\<close>

theorem discard_terminates:
  assumes "reader_ready r" "2 * length (reader_input r) < fuel"
  shows "\<exists>r'. mpack_discard (mpack_file_reader_fill env) (mpack_file_reader_skip env) ext fuel r = Some r'"
  using file_skip.discard_returns [of env ext fuel] assms by (auto simp: discards_return_def)

theorem discard_terminates_witness:
  "\<exists>r'. mpack_discard (mpack_file_reader_fill (sound_device True)) (mpack_file_reader_skip (sound_device True))
     False 5 (mpack_reader_init_data [0xDC, 0xFF]) = Some r'"
  using discard_terminates [of "mpack_reader_init_data [0xDC, 0xFF]" 5 "sound_device True" False]
  by (simp add: mpack_reader_init_data_def reader_zero_def reader_state_defs)

text \<open>Discarding from a message in memory that starts with any encoding of a value, canonical or
  not, consumes exactly that value and flags no error.\<close>

theorem discard_one_value:
  assumes "encodes ext v bs"
  shows "\<exists>r'. mpack_discard (mpack_file_reader_fill env) (mpack_file_reader_skip env) ext
      (2 * length (bs @ rest) + 1) (mpack_reader_init_data (bs @ rest)) = Some r' \<and>
    r_error r' = mpack_ok \<and> reader_input r' = rest"
proof -
  let ?r = "mpack_reader_init_data (bs @ rest)"
  have r: "reader_ready ?r" "reader_input ?r = bs @ rest" "\<not> r_fill ?r"
    by (simp_all add: mpack_reader_init_data_def reader_zero_def reader_state_defs)
  then obtain r' where r': "mpack_discard (mpack_file_reader_fill env) (mpack_file_reader_skip env) ext
      (2 * length (bs @ rest) + 1) ?r = Some r'"
    using file_skip.discard_returns [of env ext "2 * length (bs @ rest) + 1"]
    unfolding discards_return_def by (metis order_refl)
  from discards_valueD [OF file_skip.discard_value assms r(1,2) r'] r(3) r' show ?thesis
    by (auto simp: discards_to_def)
qed

theorem discard_one_value_witness:
  "\<exists>r'. mpack_discard (mpack_file_reader_fill (sound_device True)) (mpack_file_reader_skip (sound_device True)) False
      (2 * length [0x92, 0xC0, 0xA1, 0x61, 0x07 :: u8] + 1) (mpack_reader_init_data [0x92, 0xC0, 0xA1, 0x61, 0x07]) = Some r' \<and>
    r_error r' = mpack_ok \<and> reader_input r' = [0x07]"
proof -
  have "encodes False (value_normal (MP_array [MP_scalar Tag_nil, MP_str [0x61]]))
      (enc_value (MP_array [MP_scalar Tag_nil, MP_str [0x61]]))"
    by (rule encodes_enc_value) simp
  then have "encodes False (MP_array [MP_scalar Tag_nil, MP_str [0x61]]) [0x92, 0xC0, 0xA1, 0x61]"
    by (simp add: enc_defs encode_defs mpack_store_u8_def tag_normal_def)
  from discard_one_value [OF this, of "sound_device True" "[0x07]"] show ?thesis
    by simp
qed

end
