(* ===== verification/Mpack_Tree.thy ===== *)
theory Mpack_Tree
  imports Mpack_Reader Mpack_Writer
begin

text \<open>
  The tree parser (\<open>mpack-node\<close> in \<open>mpack.c\<close>): it turns one message into an array of nodes in
  which the children of a node are contiguous. The memory of all pages is one list, \<open>t_nodes\<close>: a
  node's address is an index, and allocating a page appends a block of uninitialised nodes.
  \<open>p_nodes\<close> and \<open>p_nodes_left\<close> delimit the free part of the current page. The parse stack is a list
  of pairs (next child, children left) with the current level first. Sizes are natural numbers;
  \<open>size_t\<close> has 64 bits, which none of the sums formed here reaches.
\<close>

section \<open>Nodes and trees\<close>

datatype node_value =
    NV_none
  | NV_b bool
  | NV_f u32
  | NV_d u64
  | NV_i u64
  | NV_u u64
  | NV_offset nat
  | NV_children nat

record mpack_node_data =
  n_type :: mpack_type
  n_len :: u32
  n_value :: node_value

datatype mpack_tree_parse_state = not_started | in_progress | parsed

record mpack_tree =
  t_read :: bool
  t_context :: "u8 list list"
  t_error :: mpack_error
  t_buffer :: bool
  t_capacity :: nat
  t_data :: "u8 list"
  t_size :: nat
  t_node_count :: nat
  t_max_size :: nat
  t_max_nodes :: nat
  t_pool :: "nat option"
  t_next :: bool
  t_nodes :: "mpack_node_data list"
  t_root :: nat
  p_state :: mpack_tree_parse_state
  p_possible :: nat
  p_nodes :: nat
  p_nodes_left :: nat
  p_reserved :: nat
  p_stack :: "(nat \<times> nat) list"
  p_capacity :: nat

text \<open>
  What the parser calls: the tree's read function (its result is the bytes stored, \<open>None\<close> for
  \<open>(size_t)-1\<close>), the allocator, and the build option \<open>MPACK_EXTENSIONS\<close>.
\<close>

record tree_env =
  te_read :: "mpack_tree \<Rightarrow> nat \<Rightarrow> mpack_tree \<times> u8 list option"
  te_alloc :: "nat \<Rightarrow> bool"
  te_ext :: bool

definition SIZE_MAX :: nat where
  "SIZE_MAX = 2 ^ 64 - 1"

definition MPACK_NODE_INITIAL_DEPTH :: nat where
  "MPACK_NODE_INITIAL_DEPTH = 8"

text \<open>On a 64-bit platform a node has 16 bytes and a page header of one node 24.\<close>

definition MPACK_NODES_PER_PAGE :: nat where
  "MPACK_NODES_PER_PAGE = (4096 - 24) div 16 + 1"

definition MPACK_PAGE_ALLOC_SIZE :: nat where
  "MPACK_PAGE_ALLOC_SIZE = 24 + 16 * (MPACK_NODES_PER_PAGE - 1)"

text \<open>The content of a freshly allocated node is arbitrary; it is written before it is read.\<close>

definition junk_node :: mpack_node_data where
  "junk_node = \<lparr>n_type = mpack_type_missing, n_len = 0, n_value = NV_none\<rparr>"

definition mpack_tree_flag_error :: "mpack_tree \<Rightarrow> mpack_error \<Rightarrow> mpack_tree" where
  "mpack_tree_flag_error t err = (if t_error t = mpack_ok then t\<lparr>t_error := err\<rparr> else t)"

definition node_at :: "mpack_tree \<Rightarrow> nat \<Rightarrow> mpack_node_data" where
  "node_at t i = t_nodes t ! i"

definition node_set :: "mpack_tree \<Rightarrow> nat \<Rightarrow> (mpack_node_data \<Rightarrow> mpack_node_data) \<Rightarrow> mpack_tree" where
  "node_set t i f = t\<lparr>t_nodes := (t_nodes t)[i := f (t_nodes t ! i)]\<rparr>"

section \<open>Creating trees\<close>

definition mpack_tree_init_clear :: mpack_tree where
  "mpack_tree_init_clear =
     \<lparr>t_read = False, t_context = [], t_error = mpack_ok, t_buffer = False, t_capacity = 0,
      t_data = [], t_size = 0, t_node_count = 0, t_max_size = SIZE_MAX, t_max_nodes = SIZE_MAX,
      t_pool = None, t_next = False, t_nodes = [], t_root = 0, p_state = not_started, p_possible = 0,
      p_nodes = 0, p_nodes_left = 0, p_reserved = 0, p_stack = [], p_capacity = 0\<rparr>"

definition mpack_tree_init_data :: "u8 list \<Rightarrow> mpack_tree" where
  "mpack_tree_init_data bytes = mpack_tree_init_clear\<lparr>t_data := bytes, t_pool := None, t_next := False\<rparr>"

definition mpack_tree_init_pool :: "u8 list \<Rightarrow> nat \<Rightarrow> mpack_tree" where
  "mpack_tree_init_pool bytes node_pool_count =
     (if node_pool_count = 0 then mpack_tree_flag_error mpack_tree_init_clear mpack_error_bug
      else mpack_tree_init_clear\<lparr>t_data := bytes, t_pool := Some node_pool_count\<rparr>)"

definition mpack_tree_init_error :: "mpack_error \<Rightarrow> mpack_tree" where
  "mpack_tree_init_error err = mpack_tree_init_clear\<lparr>t_error := err\<rparr>"

definition mpack_tree_set_limits :: "mpack_tree \<Rightarrow> nat \<Rightarrow> nat \<Rightarrow> mpack_tree" where
  "mpack_tree_set_limits t max_message_size max_message_nodes =
     t\<lparr>t_max_size := max_message_size, t_max_nodes := max_message_nodes\<rparr>"

definition mpack_tree_init_stream :: "u8 list list \<Rightarrow> nat \<Rightarrow> nat \<Rightarrow> mpack_tree" where
  "mpack_tree_init_stream context max_message_size max_message_nodes =
     mpack_tree_set_limits (mpack_tree_init_clear\<lparr>t_read := True, t_context := context\<rparr>)
       max_message_size max_message_nodes"

section \<open>Reserving bytes\<close>

text \<open>The do-while loop that calls the read function until there are enough bytes.\<close>

function tree_read_loop :: "tree_env \<Rightarrow> mpack_tree \<Rightarrow> nat \<Rightarrow> nat \<Rightarrow> mpack_tree \<times> bool" where
  "tree_read_loop env t possible bytes =
     (case te_read env t (t_capacity t - length (t_data t)) of
        (t, None) \<Rightarrow>
          if t_error t \<noteq> mpack_ok then (t, False) else (mpack_tree_flag_error t mpack_error_io, False)
      | (t, Some bs) \<Rightarrow>
          if t_error t \<noteq> mpack_ok then (t, False)
          else if bs = [] then (t, False)
          else
            let possible' = possible + length bs;
                t = t\<lparr>t_data := t_data t @ bs, p_possible := possible'\<rparr>
            in if possible' < bytes then tree_read_loop env t possible' bytes else (t, True))"
  by pat_completeness auto
termination
  by (relation "measure (\<lambda>(_, _, p, b). b - p)")
    (auto intro!: diff_less_mono2 simp: length_greater_0_conv [symmetric] simp del: length_greater_0_conv)

declare tree_read_loop.simps [simp del]

definition mpack_tree_reserve_fill :: "tree_env \<Rightarrow> mpack_tree \<Rightarrow> mpack_tree \<times> bool" where
  "mpack_tree_reserve_fill env t =
     (let bytes = p_reserved t; need = length (t_data t) + bytes in
      if t_max_size t < need then (mpack_tree_flag_error t mpack_error_too_big, False)
      else if \<not> t_read t then (mpack_tree_flag_error t mpack_error_invalid, False)
      else if t_capacity t < need then
        let new_capacity =
              min (grow_size (if t_capacity t = 0 then MPACK_BUFFER_SIZE else t_capacity t) need) (t_max_size t)
        in if \<not> te_alloc env new_capacity then (mpack_tree_flag_error t mpack_error_memory, False)
           else tree_read_loop env (t\<lparr>t_buffer := True, t_capacity := new_capacity\<rparr>) (p_possible t) bytes
      else tree_read_loop env t (p_possible t) bytes)"

definition mpack_tree_reserve_bytes :: "tree_env \<Rightarrow> mpack_tree \<Rightarrow> nat \<Rightarrow> mpack_tree \<times> bool" where
  "mpack_tree_reserve_bytes env t extra_bytes =
     (if SIZE_MAX < p_reserved t + extra_bytes then (mpack_tree_flag_error t mpack_error_invalid, False)
      else
        let t = t\<lparr>p_reserved := p_reserved t + extra_bytes\<rparr> in
        if p_reserved t \<le> p_possible t then (t, True) else mpack_tree_reserve_fill env t)"

section \<open>Children and payloads\<close>

definition mpack_tree_parser_stack_capacity :: "mpack_tree \<Rightarrow> nat" where
  "mpack_tree_parser_stack_capacity t = p_capacity t"

text \<open>\<open>level\<close> is one less than the number of entries on the stack; an entry has 16 bytes.\<close>

definition mpack_tree_push_stack :: "tree_env \<Rightarrow> mpack_tree \<Rightarrow> nat \<Rightarrow> nat \<Rightarrow> mpack_tree \<times> bool" where
  "mpack_tree_push_stack env t first_child total_count =
     (if total_count = 0 then (t, True)
      else if length (p_stack t) = mpack_tree_parser_stack_capacity t then
        let new_capacity = p_capacity t * 2 in
        if \<not> te_alloc env (16 * new_capacity) then (mpack_tree_flag_error t mpack_error_memory, False)
        else (t\<lparr>p_capacity := new_capacity, p_stack := (first_child, total_count) # p_stack t\<rparr>, True)
      else (t\<lparr>p_stack := (first_child, total_count) # p_stack t\<rparr>, True))"

text \<open>
  Storage for the children of a node: from the current page, in a page of their own, or in a
  new page that replaces the current one.
\<close>

definition tree_alloc_children :: "tree_env \<Rightarrow> mpack_tree \<Rightarrow> nat \<Rightarrow> mpack_tree \<times> nat option" where
  "tree_alloc_children env t total_count =
     (if total_count \<le> p_nodes_left t then
        (t\<lparr>p_nodes := p_nodes t + total_count, p_nodes_left := p_nodes_left t - total_count\<rparr>, Some (p_nodes t))
      else if \<not> t_next t then (mpack_tree_flag_error t mpack_error_too_big, None)
      else if MPACK_NODES_PER_PAGE < total_count \<or> MPACK_NODES_PER_PAGE div 8 < p_nodes_left t then
        if \<not> te_alloc env (24 + 16 * (total_count - 1)) then (mpack_tree_flag_error t mpack_error_memory, None)
        else (t\<lparr>t_nodes := t_nodes t @ replicate total_count junk_node\<rparr>, Some (length (t_nodes t)))
      else
        if \<not> te_alloc env MPACK_PAGE_ALLOC_SIZE then (mpack_tree_flag_error t mpack_error_memory, None)
        else (t\<lparr>t_nodes := t_nodes t @ replicate MPACK_NODES_PER_PAGE junk_node,
                p_nodes := length (t_nodes t) + total_count, p_nodes_left := MPACK_NODES_PER_PAGE - total_count\<rparr>,
              Some (length (t_nodes t))))"

definition mpack_tree_parse_children :: "tree_env \<Rightarrow> mpack_tree \<Rightarrow> nat \<Rightarrow> mpack_tree \<times> bool" where
  "mpack_tree_parse_children env t node =
     (let is_map = n_type (node_at t node) = mpack_type_map; len = unat (n_len (node_at t node)) in
      if is_map \<and> SIZE_MAX < len * 2 then (mpack_tree_flag_error t mpack_error_too_big, False)
      else
        let total_count = (if is_map then len * 2 else len);
            t = t\<lparr>t_node_count := t_node_count t + total_count\<rparr>
        in if t_max_nodes t < t_node_count t then (mpack_tree_flag_error t mpack_error_too_big, False)
        else
          let (t, ok) = mpack_tree_reserve_bytes env t total_count in
          if \<not> ok then (t, False)
          else case tree_alloc_children env t total_count of
              (t, None) \<Rightarrow> (t, False)
            | (t, Some children) \<Rightarrow>
                mpack_tree_push_stack env (node_set t node (\<lambda>n. n\<lparr>n_value := NV_children children\<rparr>)) children total_count)"

definition mpack_tree_parse_bytes :: "tree_env \<Rightarrow> mpack_tree \<Rightarrow> nat \<Rightarrow> mpack_tree \<times> bool" where
  "mpack_tree_parse_bytes env t node =
     (let t = node_set t node (\<lambda>n. n\<lparr>n_value := NV_offset (t_size t + p_reserved t + 1)\<rparr>) in
      mpack_tree_reserve_bytes env t (unat (n_len (node_at t node))))"

definition mpack_tree_parse_ext :: "tree_env \<Rightarrow> mpack_tree \<Rightarrow> nat \<Rightarrow> mpack_tree \<times> bool" where
  "mpack_tree_parse_ext env t node =
     mpack_tree_parse_bytes env
       (node_set (t\<lparr>p_reserved := p_reserved t + 1\<rparr>) node (\<lambda>n. n\<lparr>n_type := mpack_type_ext\<rparr>)) node"

section \<open>One node\<close>

text \<open>
  The switch over the type byte. \<open>tree_reserve\<close> is the guard
  \<open>if (!mpack_tree_reserve_bytes(tree, n)) return false;\<close>, and \<open>tree_arg\<close> the bytes after the type.
\<close>

definition tree_reserve :: "tree_env \<Rightarrow> mpack_tree \<Rightarrow> nat \<Rightarrow> (mpack_tree \<Rightarrow> mpack_tree \<times> bool) \<Rightarrow> mpack_tree \<times> bool" where
  "tree_reserve env t n k = (let (t, ok) = mpack_tree_reserve_bytes env t n in if ok then k t else (t, False))"

definition tree_arg :: "mpack_tree \<Rightarrow> u8 list" where
  "tree_arg t = drop (t_size t + 1) (t_data t)"

definition set_type :: "mpack_type \<Rightarrow> mpack_tree \<Rightarrow> nat \<Rightarrow> mpack_tree" where
  "set_type ty t i = node_set t i (\<lambda>n. n\<lparr>n_type := ty\<rparr>)"

definition set_len :: "u32 \<Rightarrow> mpack_tree \<Rightarrow> nat \<Rightarrow> mpack_tree" where
  "set_len l t i = node_set t i (\<lambda>n. n\<lparr>n_len := l\<rparr>)"

definition set_value :: "node_value \<Rightarrow> mpack_tree \<Rightarrow> nat \<Rightarrow> mpack_tree" where
  "set_value v t i = node_set t i (\<lambda>n. n\<lparr>n_value := v\<rparr>)"

definition node_infix :: "tree_env \<Rightarrow> mpack_tree \<Rightarrow> nat \<Rightarrow> u8 \<Rightarrow> (mpack_tree \<times> bool) option" where
  "node_infix env t i b =
     (if b \<le> 0x7F then Some (set_value (NV_u (ucast b)) (set_type mpack_type_uint t i) i, True)
      else if 0xE0 \<le> b then Some (set_value (NV_i (scast b)) (set_type mpack_type_int t i) i, True)
      else if 0x80 \<le> b \<and> b \<le> 0x8F then
        Some (mpack_tree_parse_children env (set_len (ucast (b AND NOT 0xF0)) (set_type mpack_type_map t i) i) i)
      else if 0x90 \<le> b \<and> b \<le> 0x9F then
        Some (mpack_tree_parse_children env (set_len (ucast (b AND NOT 0xF0)) (set_type mpack_type_array t i) i) i)
      else if 0xA0 \<le> b \<and> b \<le> 0xBF then
        Some (mpack_tree_parse_bytes env (set_len (ucast (b AND NOT 0xE0)) (set_type mpack_type_str t i) i) i)
      else None)"

definition node_infix_for_size :: "tree_env \<Rightarrow> mpack_tree \<Rightarrow> nat \<Rightarrow> u8 \<Rightarrow> (mpack_tree \<times> bool) option" where
  "node_infix_for_size env t i b =
     (let hi = drop_bit 4 b in
      if hi \<in> {0x0, 0x1, 0x2, 0x3, 0x4, 0x5, 0x6, 0x7}
      then Some (set_value (NV_u (ucast b)) (set_type mpack_type_uint t i) i, True)
      else if hi \<in> {0xE, 0xF} then Some (set_value (NV_i (scast b)) (set_type mpack_type_int t i) i, True)
      else if hi = 0x8 then
        Some (mpack_tree_parse_children env (set_len (ucast (b AND NOT 0xF0)) (set_type mpack_type_map t i) i) i)
      else if hi = 0x9 then
        Some (mpack_tree_parse_children env (set_len (ucast (b AND NOT 0xF0)) (set_type mpack_type_array t i) i) i)
      else if hi \<in> {0xA, 0xB} then
        Some (mpack_tree_parse_bytes env (set_len (ucast (b AND NOT 0xE0)) (set_type mpack_type_str t i) i) i)
      else None)"

definition node_nil_to_ext :: "tree_env \<Rightarrow> mpack_tree \<Rightarrow> nat \<Rightarrow> u8 \<Rightarrow> (mpack_tree \<times> bool) option" where
  "node_nil_to_ext env t i b =
     (if b = 0xC0 then Some (set_type mpack_type_nil t i, True)
      else if b = 0xC2 \<or> b = 0xC3 then Some (set_value (NV_b (b AND 1 \<noteq> 0)) (set_type mpack_type_bool t i) i, True)
      else if b = 0xC4 then
        Some (tree_reserve env (set_type mpack_type_bin t i) 1 (\<lambda>t.
          mpack_tree_parse_bytes env (set_len (ucast (mpack_load_u8 (tree_arg t))) t i) i))
      else if b = 0xC5 then
        Some (tree_reserve env (set_type mpack_type_bin t i) 2 (\<lambda>t.
          mpack_tree_parse_bytes env (set_len (ucast (mpack_load_u16 (tree_arg t))) t i) i))
      else if b = 0xC6 then
        Some (tree_reserve env (set_type mpack_type_bin t i) 4 (\<lambda>t.
          mpack_tree_parse_bytes env (set_len (mpack_load_u32 (tree_arg t)) t i) i))
      else if te_ext env \<and> b = 0xC7 then
        Some (tree_reserve env t 1 (\<lambda>t. mpack_tree_parse_ext env (set_len (ucast (mpack_load_u8 (tree_arg t))) t i) i))
      else if te_ext env \<and> b = 0xC8 then
        Some (tree_reserve env t 2 (\<lambda>t. mpack_tree_parse_ext env (set_len (ucast (mpack_load_u16 (tree_arg t))) t i) i))
      else if te_ext env \<and> b = 0xC9 then
        Some (tree_reserve env t 4 (\<lambda>t. mpack_tree_parse_ext env (set_len (mpack_load_u32 (tree_arg t)) t i) i))
      else None)"

definition node_numbers :: "tree_env \<Rightarrow> mpack_tree \<Rightarrow> nat \<Rightarrow> u8 \<Rightarrow> (mpack_tree \<times> bool) option" where
  "node_numbers env t i b =
     (let uint = set_type mpack_type_uint t i; int = set_type mpack_type_int t i in
      if b = 0xCA then
        Some (tree_reserve env t 4 (\<lambda>t. (set_type mpack_type_float (set_value (NV_f (mpack_load_u32 (tree_arg t))) t i) i, True)))
      else if b = 0xCB then
        Some (tree_reserve env t 8 (\<lambda>t. (set_type mpack_type_double (set_value (NV_d (mpack_load_u64 (tree_arg t))) t i) i, True)))
      else if b = 0xCC then
        Some (tree_reserve env uint 1 (\<lambda>t. (set_value (NV_u (ucast (mpack_load_u8 (tree_arg t)))) t i, True)))
      else if b = 0xCD then
        Some (tree_reserve env uint 2 (\<lambda>t. (set_value (NV_u (ucast (mpack_load_u16 (tree_arg t)))) t i, True)))
      else if b = 0xCE then
        Some (tree_reserve env uint 4 (\<lambda>t. (set_value (NV_u (ucast (mpack_load_u32 (tree_arg t)))) t i, True)))
      else if b = 0xCF then
        Some (tree_reserve env uint 8 (\<lambda>t. (set_value (NV_u (mpack_load_u64 (tree_arg t))) t i, True)))
      else if b = 0xD0 then
        Some (tree_reserve env int 1 (\<lambda>t. (set_value (NV_i (scast (mpack_load_u8 (tree_arg t)))) t i, True)))
      else if b = 0xD1 then
        Some (tree_reserve env int 2 (\<lambda>t. (set_value (NV_i (scast (mpack_load_u16 (tree_arg t)))) t i, True)))
      else if b = 0xD2 then
        Some (tree_reserve env int 4 (\<lambda>t. (set_value (NV_i (scast (mpack_load_u32 (tree_arg t)))) t i, True)))
      else if b = 0xD3 then
        Some (tree_reserve env int 8 (\<lambda>t. (set_value (NV_i (mpack_load_u64 (tree_arg t))) t i, True)))
      else None)"

definition node_fixext_to_map :: "tree_env \<Rightarrow> mpack_tree \<Rightarrow> nat \<Rightarrow> u8 \<Rightarrow> (mpack_tree \<times> bool) option" where
  "node_fixext_to_map env t i b =
     (let str = (\<lambda>t l. mpack_tree_parse_bytes env (set_type mpack_type_str (set_len l t i) i) i);
          children = (\<lambda>ty t l. mpack_tree_parse_children env (set_type ty (set_len l t i) i) i)
      in
      if te_ext env \<and> b = 0xD4 then Some (mpack_tree_parse_ext env (set_len 1 t i) i)
      else if te_ext env \<and> b = 0xD5 then Some (mpack_tree_parse_ext env (set_len 2 t i) i)
      else if te_ext env \<and> b = 0xD6 then Some (mpack_tree_parse_ext env (set_len 4 t i) i)
      else if te_ext env \<and> b = 0xD7 then Some (mpack_tree_parse_ext env (set_len 8 t i) i)
      else if te_ext env \<and> b = 0xD8 then Some (mpack_tree_parse_ext env (set_len 16 t i) i)
      else if b = 0xD9 then Some (tree_reserve env t 1 (\<lambda>t. str t (ucast (mpack_load_u8 (tree_arg t)))))
      else if b = 0xDA then Some (tree_reserve env t 2 (\<lambda>t. str t (ucast (mpack_load_u16 (tree_arg t)))))
      else if b = 0xDB then Some (tree_reserve env t 4 (\<lambda>t. str t (mpack_load_u32 (tree_arg t))))
      else if b = 0xDC then Some (tree_reserve env t 2 (\<lambda>t. children mpack_type_array t (ucast (mpack_load_u16 (tree_arg t)))))
      else if b = 0xDD then Some (tree_reserve env t 4 (\<lambda>t. children mpack_type_array t (mpack_load_u32 (tree_arg t))))
      else if b = 0xDE then Some (tree_reserve env t 2 (\<lambda>t. children mpack_type_map t (ucast (mpack_load_u16 (tree_arg t)))))
      else if b = 0xDF then Some (tree_reserve env t 4 (\<lambda>t. children mpack_type_map t (mpack_load_u32 (tree_arg t))))
      else None)"

definition mpack_tree_parse_node_contents :: "tree_env \<Rightarrow> mpack_tree \<Rightarrow> nat \<Rightarrow> mpack_tree \<times> bool" where
  "mpack_tree_parse_node_contents env t i =
     (let b = mpack_load_u8 (drop (t_size t) (t_data t)); t = t\<lparr>p_reserved := 0\<rparr> in
      case node_infix env t i b of Some res \<Rightarrow> res | None \<Rightarrow>
      case node_nil_to_ext env t i b of Some res \<Rightarrow> res | None \<Rightarrow>
      case node_numbers env t i b of Some res \<Rightarrow> res | None \<Rightarrow>
      case node_fixext_to_map env t i b of Some res \<Rightarrow> res | None \<Rightarrow>
      (mpack_tree_flag_error t (if b = 0xC1 then mpack_error_invalid else mpack_error_unsupported), False))"

text \<open>\<open>node->len * 2\<close> is computed in 32 bits.\<close>

definition mpack_tree_parse_node :: "tree_env \<Rightarrow> mpack_tree \<Rightarrow> nat \<Rightarrow> mpack_tree \<times> bool" where
  "mpack_tree_parse_node env t i =
     (let (t, ok) = mpack_tree_parse_node_contents env t i in
      if \<not> ok then (t, False)
      else
        let n = node_at t i;
            kids = (if n_type n = mpack_type_array then unat (n_len n)
                    else if n_type n = mpack_type_map then unat (n_len n * 2) else 0);
            node_size = p_reserved t + 1 - kids
        in (t\<lparr>p_possible := p_possible t - p_reserved t, t_size := t_size t + node_size\<rparr>, True))"

section \<open>The parse loop\<close>

text \<open>Pop the levels that have no children left; \<open>True\<close> when the bottom one is finished.\<close>

fun tree_pop :: "(nat \<times> nat) list \<Rightarrow> (nat \<times> nat) list \<times> bool" where
  "tree_pop [] = ([], True)"
| "tree_pop [(c, 0)] = ([(c, 0)], True)"
| "tree_pop ((c, 0) # l # ls) = tree_pop (l # ls)"
| "tree_pop ((c, Suc n) # ls) = ((c, Suc n) # ls, False)"

text \<open>
  One turn of the loop. The node parsed is the next child of the current level; its own
  children may have been pushed above it. \<open>Some b\<close> ends the loop with result \<open>b\<close>.
\<close>

definition stack_advance :: "nat \<Rightarrow> (nat \<times> nat) list \<Rightarrow> (nat \<times> nat) list" where
  "stack_advance level stack =
     (let k = length stack - 1 - level in stack[k := (fst (stack ! k) + 1, snd (stack ! k) - 1)])"

definition tree_turn :: "tree_env \<Rightarrow> mpack_tree \<Rightarrow> mpack_tree \<times> bool option" where
  "tree_turn env t =
     (let node = fst (hd (p_stack t)); level = length (p_stack t) - 1;
          (t, ok) = mpack_tree_parse_node env t node
      in if \<not> ok then (t, Some False)
         else
           let (stack, finished) = tree_pop (stack_advance level (p_stack t));
               t = t\<lparr>p_stack := stack\<rparr>
           in (t, if finished then Some True else None))"

fun tree_loop :: "tree_env \<Rightarrow> nat \<Rightarrow> mpack_tree \<Rightarrow> (mpack_tree \<times> bool) option" where
  "tree_loop env 0 t = None"
| "tree_loop env (Suc fuel) t =
     (case tree_turn env t of (t, Some b) \<Rightarrow> Some (t, b) | (t, None) \<Rightarrow> tree_loop env fuel t)"

definition mpack_tree_continue_parsing :: "tree_env \<Rightarrow> nat \<Rightarrow> mpack_tree \<Rightarrow> (mpack_tree \<times> bool) option" where
  "mpack_tree_continue_parsing env fuel t =
     (if t_error t \<noteq> mpack_ok then Some (t, False) else tree_loop env fuel t)"

definition mpack_tree_cleanup :: "mpack_tree \<Rightarrow> mpack_tree" where
  "mpack_tree_cleanup t = (if t_next t then t\<lparr>t_next := False, t_nodes := [], p_stack := []\<rparr> else t\<lparr>p_stack := []\<rparr>)"

definition mpack_tree_parse_start :: "tree_env \<Rightarrow> mpack_tree \<Rightarrow> mpack_tree \<times> bool" where
  "mpack_tree_parse_start env t =
     (if t_error t \<noteq> mpack_ok then (t, False)
      else
        let t = (if p_state t = parsed then mpack_tree_cleanup t else t);
            t = t\<lparr>p_state := in_progress, p_reserved := 0\<rparr>;
            t = (if 0 < t_size t
                 then t\<lparr>t_data := drop (t_size t) (t_data t), t_size := 0, t_node_count := 0\<rparr> else t);
            t = t\<lparr>p_possible := length (t_data t)\<rparr>;
            (t, ok) = mpack_tree_reserve_bytes env t 1
        in if \<not> ok then (t\<lparr>p_state := not_started\<rparr>, False)
        else
          let t = t\<lparr>p_possible := p_possible t - 1, t_node_count := 1, p_capacity := MPACK_NODE_INITIAL_DEPTH\<rparr> in
          if t_pool t = None \<and> \<not> te_alloc env MPACK_PAGE_ALLOC_SIZE then (t\<lparr>t_error := mpack_error_memory\<rparr>, False)
          else
            let t = (case t_pool t of
                  None \<Rightarrow> t\<lparr>t_next := True, t_nodes := replicate MPACK_NODES_PER_PAGE junk_node,
                             p_nodes := 0, p_nodes_left := MPACK_NODES_PER_PAGE\<rparr>
                | Some n \<Rightarrow> t\<lparr>t_nodes := replicate n junk_node, p_nodes := 0, p_nodes_left := n\<rparr>)
            in (t\<lparr>t_root := p_nodes t, p_nodes := p_nodes t + 1, p_nodes_left := p_nodes_left t - 1,
                  p_stack := [(p_nodes t, 1)]\<rparr>, True))"

definition tree_incomplete :: "mpack_tree \<Rightarrow> mpack_tree" where
  "tree_incomplete t = mpack_tree_flag_error t (if t_read t then mpack_error_io else mpack_error_invalid)"

definition mpack_tree_parse :: "tree_env \<Rightarrow> nat \<Rightarrow> mpack_tree \<Rightarrow> mpack_tree option" where
  "mpack_tree_parse env fuel t =
     (if t_error t \<noteq> mpack_ok then Some t
      else
        let (t, ok) = (if p_state t \<noteq> in_progress then mpack_tree_parse_start env t else (t, True)) in
        if \<not> ok then Some (tree_incomplete t)
        else case mpack_tree_continue_parsing env fuel t of
            None \<Rightarrow> None
          | Some (t, False) \<Rightarrow> Some (if t_error t \<noteq> mpack_ok then t else tree_incomplete t)
          | Some (t, True) \<Rightarrow> Some (t\<lparr>p_state := parsed\<rparr>))"

definition mpack_tree_try_parse :: "tree_env \<Rightarrow> nat \<Rightarrow> mpack_tree \<Rightarrow> (mpack_tree \<times> bool) option" where
  "mpack_tree_try_parse env fuel t =
     (if t_error t \<noteq> mpack_ok then Some (t, False)
      else
        let (t, ok) = (if p_state t \<noteq> in_progress then mpack_tree_parse_start env t else (t, True)) in
        if \<not> ok then Some (t, False)
        else case mpack_tree_continue_parsing env fuel t of
            None \<Rightarrow> None
          | Some (t, False) \<Rightarrow> Some (t, False)
          | Some (t, True) \<Rightarrow> Some (t\<lparr>p_state := parsed\<rparr>, True))"

definition mpack_tree_destroy :: "mpack_tree \<Rightarrow> mpack_error" where
  "mpack_tree_destroy t = t_error (mpack_tree_cleanup t)"

end
