(* ===== verification/Mpack_Tree_Correct.thy ===== *)
theory Mpack_Tree_Correct
  imports Mpack_Tree Mpack_Value
begin

text \<open>
  The tree parser is correct: on a message in memory that starts with an encoding of a value,
  it stops after exactly that encoding and leaves nodes that represent the value. The proof
  follows the parser: one turn of the loop parses one node, a turn on a compound node pushes its
  children, and the children are finished before the next sibling is looked at.
\<close>

section \<open>One node, in terms of its tag\<close>

lemma reserve_ok:
  "p_reserved t + n \<le> p_possible t \<Longrightarrow> p_possible t \<le> SIZE_MAX \<Longrightarrow>
   mpack_tree_reserve_bytes env t n = (t\<lparr>p_reserved := p_reserved t + n\<rparr>, True)"
  by (simp add: mpack_tree_reserve_bytes_def)

lemma tree_reserve_ok:
  "p_reserved t + n \<le> p_possible t \<Longrightarrow> p_possible t \<le> SIZE_MAX \<Longrightarrow>
   tree_reserve env t n k = k (t\<lparr>p_reserved := p_reserved t + n\<rparr>)"
  by (simp add: tree_reserve_def reserve_ok)

text \<open>What remains of a node's case once its header has been read.\<close>

fun node_finish :: "tree_env \<Rightarrow> mpack_tag \<Rightarrow> mpack_tree \<Rightarrow> nat \<Rightarrow> mpack_tree \<times> bool" where
  "node_finish env Tag_missing t i = (t, False)"
| "node_finish env Tag_nil t i = (set_type mpack_type_nil t i, True)"
| "node_finish env (Tag_bool b) t i = (set_value (NV_b b) (set_type mpack_type_bool t i) i, True)"
| "node_finish env (Tag_int v) t i = (set_value (NV_i v) (set_type mpack_type_int t i) i, True)"
| "node_finish env (Tag_uint v) t i = (set_value (NV_u v) (set_type mpack_type_uint t i) i, True)"
| "node_finish env (Tag_float f) t i = (set_value (NV_f f) (set_type mpack_type_float t i) i, True)"
| "node_finish env (Tag_double d) t i = (set_value (NV_d d) (set_type mpack_type_double t i) i, True)"
| "node_finish env (Tag_str l) t i = mpack_tree_parse_bytes env (set_len l (set_type mpack_type_str t i) i) i"
| "node_finish env (Tag_bin l) t i = mpack_tree_parse_bytes env (set_len l (set_type mpack_type_bin t i) i) i"
| "node_finish env (Tag_array n) t i = mpack_tree_parse_children env (set_len n (set_type mpack_type_array t i) i) i"
| "node_finish env (Tag_map n) t i = mpack_tree_parse_children env (set_len n (set_type mpack_type_map t i) i) i"
| "node_finish env (Tag_ext x l) t i = mpack_tree_parse_ext env (set_len l t i) i"

lemma node_set_fields [simp]:
  "p_reserved (node_set t i f) = p_reserved t" "p_possible (node_set t i f) = p_possible t"
  "t_size (node_set t i f) = t_size t" "t_data (node_set t i f) = t_data t"
  "length (t_nodes (node_set t i f)) = length (t_nodes t)"
  by (simp_all add: node_set_def)

lemma node_set_beyond: "\<not> i < length (t_nodes t) \<Longrightarrow> node_set t i f = t"
  by (simp add: node_set_def list_update_beyond)

lemma node_set_set: "node_set (node_set t i f) i g = node_set t i (\<lambda>n. g (f n))"
  by (cases "i < length (t_nodes t)") (simp add: node_set_def, simp add: node_set_beyond)

lemma node_set_reserved [simp]: "node_set (t\<lparr>p_reserved := r\<rparr>) i f = (node_set t i f)\<lparr>p_reserved := r\<rparr>"
  by (simp add: node_set_def)

lemmas set_defs = set_type_def set_len_def set_value_def

lemma set_commute:
  "set_type ty (set_len l t i) i = set_len l (set_type ty t i) i"
  "set_type ty (set_value v t i) i = set_value v (set_type ty t i) i"
  unfolding set_defs node_set_set
  by (rule arg_cong [where f = "node_set t i"], simp add: fun_eq_iff)+

lemma set_fields [simp]:
  "p_reserved (set_type ty t i) = p_reserved t" "p_possible (set_type ty t i) = p_possible t"
  "set_type ty (t\<lparr>p_reserved := r\<rparr>) i = (set_type ty t i)\<lparr>p_reserved := r\<rparr>"
  "set_len l (t\<lparr>p_reserved := r\<rparr>) i = (set_len l t i)\<lparr>p_reserved := r\<rparr>"
  "set_value v (t\<lparr>p_reserved := r\<rparr>) i = (set_value v t i)\<lparr>p_reserved := r\<rparr>"
  "tree_arg (set_type ty t i) = tree_arg t" "tree_arg (t\<lparr>p_reserved := r\<rparr>) = tree_arg t"
  by (simp_all add: set_defs tree_arg_def)

definition ext_tag :: "mpack_tag \<Rightarrow> nat" where
  "ext_tag t = (case t of Tag_ext _ _ \<Rightarrow> 1 | _ \<Rightarrow> 0)"

lemma infix_finish:
  "node_infix env t i b = map_option (\<lambda>tag. node_finish env tag t i) (tag_infix b)"
  by (simp add: node_infix_def tag_infix_def)

lemma nil_to_ext_finish:
  assumes "tag_nil_to_ext (te_ext env) b = Some (k, mk)" "k - 1 \<le> p_possible t" "p_possible t \<le> SIZE_MAX"
  shows "node_nil_to_ext env (t\<lparr>p_reserved := 0\<rparr>) i b =
    Some (node_finish env (mk (b # tree_arg t)) (t\<lparr>p_reserved := k - 1 - ext_tag (mk (b # tree_arg t))\<rparr>) i)"
  using assms unfolding tag_nil_to_ext_def node_nil_to_ext_def
  by (simp add: tree_reserve_ok ext_tag_def set_commute split: if_splits; elim conjE disjE; hypsubst?;
    simp add: tree_reserve_ok ext_tag_def set_commute flip: numeral_2_eq_2)

lemma numbers_finish:
  assumes "tag_numbers b = Some (k, mk)" "k - 1 \<le> p_possible t" "p_possible t \<le> SIZE_MAX"
  shows "node_numbers env (t\<lparr>p_reserved := 0\<rparr>) i b =
    Some (node_finish env (mk (b # tree_arg t)) (t\<lparr>p_reserved := k - 1 - ext_tag (mk (b # tree_arg t))\<rparr>) i)"
  using assms unfolding tag_numbers_def node_numbers_def
  by (simp add: tree_reserve_ok ext_tag_def set_commute split: if_splits; elim conjE disjE; hypsubst?;
    simp add: tree_reserve_ok ext_tag_def set_commute flip: numeral_2_eq_2)

lemma fixext_to_map_finish:
  assumes "tag_fixext_to_map (te_ext env) b = Some (k, mk)" "k - 1 \<le> p_possible t" "p_possible t \<le> SIZE_MAX"
  shows "node_fixext_to_map env (t\<lparr>p_reserved := 0\<rparr>) i b =
    Some (node_finish env (mk (b # tree_arg t)) (t\<lparr>p_reserved := k - 1 - ext_tag (mk (b # tree_arg t))\<rparr>) i)"
  using assms unfolding tag_fixext_to_map_def node_fixext_to_map_def
  by (simp add: tree_reserve_ok ext_tag_def set_commute split: if_splits; elim conjE disjE; hypsubst?;
    simp add: tree_reserve_ok ext_tag_def set_commute flip: numeral_2_eq_2)

lemma switch_none:
  "tag_nil_to_ext (te_ext env) b = None \<Longrightarrow> node_nil_to_ext env t i b = None"
  "tag_numbers b = None \<Longrightarrow> node_numbers env t i b = None"
  by (auto simp: tag_nil_to_ext_def node_nil_to_ext_def tag_numbers_def node_numbers_def split: if_splits)

lemma contents_finish:
  assumes "dec_tag (te_ext env) (drop (t_size t) (t_data t)) = Inr (tag, k)"
    and "k - 1 \<le> p_possible t" "p_possible t \<le> SIZE_MAX"
  shows "mpack_tree_parse_node_contents env t i = node_finish env tag (t\<lparr>p_reserved := k - 1 - ext_tag tag\<rparr>) i"
proof -
  obtain b where b: "drop (t_size t) (t_data t) = b # tree_arg t"
    using assms(1) by (cases "drop (t_size t) (t_data t)") (auto simp: dec_tag_def tree_arg_def drop_Suc drop_tl)
  obtain mk where sw: "tag_switch (te_ext env) b = Inr (k, mk)" "tag = mk (b # tree_arg t)"
    using assms(1) unfolding b by (auto simp: dec_tag_def split: sum.splits if_splits)
  note [simp] = mpack_tree_parse_node_contents_def b mpack_load_u8_def infix_finish switch_none
  show ?thesis
  proof (cases "tag_infix b")
    case (Some tg)
    then have "k = 1" "tag = tg" "ext_tag tg = 0"
      using sw by (auto simp: tag_switch_def tag_infix_def ext_tag_def split: if_splits)
    with Some show ?thesis by simp
  next
    case None
    then consider "tag_nil_to_ext (te_ext env) b = Some (k, mk)"
      | "tag_nil_to_ext (te_ext env) b = None" "tag_numbers b = Some (k, mk)"
      | "tag_nil_to_ext (te_ext env) b = None" "tag_numbers b = None" "tag_fixext_to_map (te_ext env) b = Some (k, mk)"
      using sw(1) by (auto simp: tag_switch_def split: option.splits)
    then show ?thesis
      using None assms(2,3) sw(2)
      by cases (simp_all add: nil_to_ext_finish numbers_finish fixext_to_map_finish)
  qed
qed

section \<open>Nodes that represent a value\<close>

fun scalar_node :: "mpack_tag \<Rightarrow> mpack_node_data \<Rightarrow> bool" where
  "scalar_node Tag_nil n = (n_type n = mpack_type_nil)"
| "scalar_node (Tag_bool b) n = (n_type n = mpack_type_bool \<and> n_value n = NV_b b)"
| "scalar_node (Tag_int v) n = (n_type n = mpack_type_int \<and> n_value n = NV_i v)"
| "scalar_node (Tag_uint v) n = (n_type n = mpack_type_uint \<and> n_value n = NV_u v)"
| "scalar_node (Tag_float f) n = (n_type n = mpack_type_float \<and> n_value n = NV_f f)"
| "scalar_node (Tag_double d) n = (n_type n = mpack_type_double \<and> n_value n = NV_d d)"
| "scalar_node _ n = False"

definition data_node :: "mpack_type \<Rightarrow> u8 list \<Rightarrow> u8 list \<Rightarrow> mpack_node_data \<Rightarrow> bool" where
  "data_node ty bytes s n \<longleftrightarrow>
     n_type n = ty \<and> unat (n_len n) = length s \<and>
     (\<exists>off. n_value n = NV_offset off \<and> off + length s \<le> length bytes \<and> take (length s) (drop off bytes) = s)"

definition children_node :: "mpack_type \<Rightarrow> nat \<Rightarrow> nat \<Rightarrow> mpack_node_data \<Rightarrow> bool" where
  "children_node ty len c n \<longleftrightarrow> n_type n = ty \<and> unat (n_len n) = len \<and> n_value n = NV_children c"

text \<open>
  \<open>represents bytes nodes S i v\<close>: the node at address \<open>i\<close> and the nodes below it, all with
  addresses in \<open>S\<close>, hold the value \<open>v\<close>, with strings found in \<open>bytes\<close>.
\<close>

inductive represents :: "u8 list \<Rightarrow> mpack_node_data list \<Rightarrow> nat set \<Rightarrow> nat \<Rightarrow> mp_value \<Rightarrow> bool"
  and represents_all :: "u8 list \<Rightarrow> mpack_node_data list \<Rightarrow> nat set \<Rightarrow> nat \<Rightarrow> mp_value list \<Rightarrow> bool"
  for bytes :: "u8 list" and nodes :: "mpack_node_data list" and S :: "nat set" where
  rep_scalar: "i \<in> S \<Longrightarrow> i < length nodes \<Longrightarrow> scalar_node t (nodes ! i) \<Longrightarrow>
    represents bytes nodes S i (MP_scalar t)"
| rep_str: "i \<in> S \<Longrightarrow> i < length nodes \<Longrightarrow> data_node mpack_type_str bytes s (nodes ! i) \<Longrightarrow>
    represents bytes nodes S i (MP_str s)"
| rep_bin: "i \<in> S \<Longrightarrow> i < length nodes \<Longrightarrow> data_node mpack_type_bin bytes s (nodes ! i) \<Longrightarrow>
    represents bytes nodes S i (MP_bin s)"
| rep_ext: "i \<in> S \<Longrightarrow> i < length nodes \<Longrightarrow> data_node mpack_type_ext bytes s (nodes ! i) \<Longrightarrow>
    n_value (nodes ! i) = NV_offset (Suc off) \<Longrightarrow> off < length bytes \<Longrightarrow> bytes ! off = x \<Longrightarrow>
    represents bytes nodes S i (MP_ext x s)"
| rep_array: "i \<in> S \<Longrightarrow> i < length nodes \<Longrightarrow> children_node mpack_type_array (length vs) c (nodes ! i) \<Longrightarrow>
    represents_all bytes nodes S c vs \<Longrightarrow> represents bytes nodes S i (MP_array vs)"
| rep_map: "i \<in> S \<Longrightarrow> i < length nodes \<Longrightarrow> children_node mpack_type_map (length kvs) c (nodes ! i) \<Longrightarrow>
    represents_all bytes nodes S c (pairs kvs) \<Longrightarrow> represents bytes nodes S i (MP_map kvs)"
| rep_none: "represents_all bytes nodes S c []"
| rep_more: "represents bytes nodes S c v \<Longrightarrow> represents_all bytes nodes S (Suc c) vs \<Longrightarrow>
    represents_all bytes nodes S c (v # vs)"

text \<open>Nodes outside the footprint may change, and the footprint may grow.\<close>

lemma represents_frame:
  assumes "\<And>i. i \<in> S \<Longrightarrow> i < length nodes \<Longrightarrow> i \<in> S' \<and> i < length nodes' \<and> nodes' ! i = nodes ! i"
  shows "represents bytes nodes S i v \<Longrightarrow> represents bytes nodes' S' i v"
    "represents_all bytes nodes S c vs \<Longrightarrow> represents_all bytes nodes' S' c vs"
proof (induction rule: represents_represents_all.inducts)
  case (rep_ext i s off x)
  then show ?case using assms by (intro represents_represents_all.rep_ext [where off = off]) auto
qed (use assms in \<open>auto intro: represents_represents_all.intros\<close>)

lemma represents_mono:
  "represents bytes nodes S i v \<Longrightarrow> S \<subseteq> S' \<Longrightarrow> represents bytes nodes S' i v"
  "represents_all bytes nodes S c vs \<Longrightarrow> S \<subseteq> S' \<Longrightarrow> represents_all bytes nodes S' c vs"
  by (rule represents_frame; auto)+

lemma represents_all_nth:
  "represents_all bytes nodes S c vs \<Longrightarrow> j < length vs \<Longrightarrow> represents bytes nodes S (c + j) (vs ! j)"
proof (induction vs arbitrary: c j)
  case (Cons v vs)
  from Cons.prems(1) have "represents bytes nodes S c v" "represents_all bytes nodes S (Suc c) vs"
    by (auto elim: represents_all.cases)
  with Cons.IH [of "Suc c" "j - 1"] Cons.prems(2) show ?case by (cases j) auto
qed simp

section \<open>The invariant of the parse loop\<close>

definition free_nodes :: "mpack_tree \<Rightarrow> nat set" where
  "free_nodes t = {p_nodes t ..< p_nodes t + p_nodes_left t} \<union> {length (t_nodes t) ..}"

definition pending :: "(nat \<times> nat) list \<Rightarrow> nat" where
  "pending st = sum_list (map snd st)"

lemma pending_simps [simp]: "pending [] = 0" "pending ((c, n) # st) = n + pending st"
  by (simp_all add: pending_def)

text \<open>
  \<open>possible_nodes_left\<close> is what the data has left beyond one byte for every node still to be
  parsed, and there are never more nodes than bytes.
\<close>

definition tree_inv :: "mpack_tree \<Rightarrow> bool" where
  "tree_inv t \<longleftrightarrow>
     \<not> t_read t \<and> t_error t = mpack_ok \<and> t_next t \<and> length (t_data t) < 2 ^ 32 \<and> t_max_nodes t = SIZE_MAX \<and>
     p_nodes t + p_nodes_left t \<le> length (t_nodes t) \<and>
     t_node_count t + p_possible t \<le> length (t_data t) \<and>
     p_possible t + t_size t + pending (p_stack t) = length (t_data t)"

lemma tree_inv_possible: "tree_inv t \<Longrightarrow> p_possible t < 2 ^ 32" "tree_inv t \<Longrightarrow> p_possible t \<le> SIZE_MAX"
  by (auto simp: tree_inv_def SIZE_MAX_def)

section \<open>The effect of one turn\<close>

definition payload :: "mpack_tag \<Rightarrow> nat" where
  "payload t = (case t of Tag_str l \<Rightarrow> unat l | Tag_bin l \<Rightarrow> unat l | Tag_ext _ l \<Rightarrow> unat l | _ \<Rightarrow> 0)"

definition kids :: "mpack_tag \<Rightarrow> nat" where
  "kids t = (case t of Tag_array n \<Rightarrow> unat n | Tag_map n \<Rightarrow> 2 * unat n | _ \<Rightarrow> 0)"

fun compound_tag :: "mpack_tag \<Rightarrow> bool" where
  "compound_tag (Tag_array _) = True"
| "compound_tag (Tag_map _) = True"
| "compound_tag _ = False"

text \<open>The node left by a tag without children, whose payload starts at \<open>off\<close>.\<close>

fun plain_node :: "mpack_tag \<Rightarrow> nat \<Rightarrow> mpack_node_data \<Rightarrow> mpack_node_data" where
  "plain_node Tag_nil off n = n\<lparr>n_type := mpack_type_nil\<rparr>"
| "plain_node (Tag_bool b) off n = n\<lparr>n_type := mpack_type_bool, n_value := NV_b b\<rparr>"
| "plain_node (Tag_int v) off n = n\<lparr>n_type := mpack_type_int, n_value := NV_i v\<rparr>"
| "plain_node (Tag_uint v) off n = n\<lparr>n_type := mpack_type_uint, n_value := NV_u v\<rparr>"
| "plain_node (Tag_float f) off n = n\<lparr>n_type := mpack_type_float, n_value := NV_f f\<rparr>"
| "plain_node (Tag_double d) off n = n\<lparr>n_type := mpack_type_double, n_value := NV_d d\<rparr>"
| "plain_node (Tag_str l) off n = n\<lparr>n_type := mpack_type_str, n_len := l, n_value := NV_offset off\<rparr>"
| "plain_node (Tag_bin l) off n = n\<lparr>n_type := mpack_type_bin, n_len := l, n_value := NV_offset off\<rparr>"
| "plain_node (Tag_ext x l) off n = n\<lparr>n_type := mpack_type_ext, n_len := l, n_value := NV_offset off\<rparr>"
| "plain_node t off n = n"

lemma parse_bytes_ok:
  assumes "p_reserved t + unat (n_len (t_nodes t ! i)) \<le> p_possible t" "p_possible t \<le> SIZE_MAX" "i < length (t_nodes t)"
  shows "mpack_tree_parse_bytes env t i =
    (t\<lparr>t_nodes := (t_nodes t)[i := (t_nodes t ! i)\<lparr>n_value := NV_offset (t_size t + p_reserved t + 1)\<rparr>],
       p_reserved := p_reserved t + unat (n_len (t_nodes t ! i))\<rparr>, True)"
  using assms by (simp add: mpack_tree_parse_bytes_def Let_def reserve_ok node_at_def node_set_def)

lemma node_upd_commute: "n\<lparr>n_len := l, n_type := ty\<rparr> = n\<lparr>n_type := ty, n_len := l\<rparr>"
  by simp

lemma finish_plain:
  assumes "\<not> compound_tag tag" "tag \<noteq> Tag_missing" "1 + ext_tag tag \<le> k"
    and "k - 1 + payload tag \<le> p_possible t" "p_possible t \<le> SIZE_MAX" "i < length (t_nodes t)"
  shows "node_finish env tag (t\<lparr>p_reserved := k - 1 - ext_tag tag\<rparr>) i =
    (t\<lparr>t_nodes := (t_nodes t)[i := plain_node tag (t_size t + k) (t_nodes t ! i)],
       p_reserved := k - 1 + payload tag\<rparr>, True)"
proof (cases tag)
  case (Tag_str l)
  with assms show ?thesis by (simp add: set_defs node_set_def payload_def ext_tag_def parse_bytes_ok)
next
  case (Tag_bin l)
  with assms show ?thesis by (simp add: set_defs node_set_def payload_def ext_tag_def parse_bytes_ok)
next
  case (Tag_ext x l)
  with assms(3) have "2 \<le> k"
    by (simp add: ext_tag_def)
  then obtain j where k: "k = Suc (Suc j)"
    using nat_le_iff_add by auto
  let ?n = "(t_nodes t ! i)\<lparr>n_type := mpack_type_ext, n_len := l\<rparr>"
  have "(node_set t i (\<lambda>n. n\<lparr>n_len := l, n_type := mpack_type_ext\<rparr>))\<lparr>p_reserved := Suc j\<rparr> =
      t\<lparr>t_nodes := (t_nodes t)[i := ?n], p_reserved := Suc j\<rparr>"
    by (simp add: node_set_def node_upd_commute)
  then have "mpack_tree_parse_ext env (set_len l (t\<lparr>p_reserved := j\<rparr>) i) i =
      mpack_tree_parse_bytes env (t\<lparr>t_nodes := (t_nodes t)[i := ?n], p_reserved := Suc j\<rparr>) i"
    by (simp add: mpack_tree_parse_ext_def set_len_def node_set_set)
  with Tag_ext assms k show ?thesis
    by (simp add: parse_bytes_ok payload_def ext_tag_def)
next
  case Tag_nil
  with assms show ?thesis by (simp add: set_defs node_set_def payload_def ext_tag_def)
next
  case (Tag_bool b)
  with assms show ?thesis by (simp add: set_defs node_set_def payload_def ext_tag_def)
next
  case (Tag_int b)
  with assms show ?thesis by (simp add: set_defs node_set_def payload_def ext_tag_def)
next
  case (Tag_uint b)
  with assms show ?thesis by (simp add: set_defs node_set_def payload_def ext_tag_def)
next
  case (Tag_float b)
  with assms show ?thesis by (simp add: set_defs node_set_def payload_def ext_tag_def)
next
  case (Tag_double b)
  with assms show ?thesis by (simp add: set_defs node_set_def payload_def ext_tag_def)
qed (use assms in simp_all)

lemma alloc_children_ok:
  assumes "\<And>n. te_alloc env n" "t_next t" "p_nodes t + p_nodes_left t \<le> length (t_nodes t)"
  shows "\<exists>c t' x. tree_alloc_children env t m = (t', Some c) \<and>
    t' = t\<lparr>t_nodes := t_nodes t @ replicate x junk_node, p_nodes := p_nodes t', p_nodes_left := p_nodes_left t'\<rparr> \<and>
    p_nodes t' + p_nodes_left t' \<le> length (t_nodes t') \<and> c + m \<le> length (t_nodes t') \<and>
    {c..<c + m} \<subseteq> free_nodes t \<and> {c..<c + m} \<inter> free_nodes t' = {} \<and> free_nodes t' \<subseteq> free_nodes t"
proof -
  consider "m \<le> p_nodes_left t" | "p_nodes_left t < m" "MPACK_NODES_PER_PAGE < m \<or> MPACK_NODES_PER_PAGE div 8 < p_nodes_left t"
    | "p_nodes_left t < m" "m \<le> MPACK_NODES_PER_PAGE" "\<not> MPACK_NODES_PER_PAGE div 8 < p_nodes_left t"
    by linarith
  then show ?thesis
  proof cases
    case 1
    then show ?thesis
      using assms by (auto simp: tree_alloc_children_def free_nodes_def intro!: exI [of _ 0])
  next
    case 2
    then show ?thesis
      using assms by (auto simp: tree_alloc_children_def free_nodes_def intro!: exI [of _ m])
  next
    case 3
    then show ?thesis
      using assms by (auto simp: tree_alloc_children_def free_nodes_def intro!: exI [of _ MPACK_NODES_PER_PAGE])
  qed
qed

text \<open>The fields that allocating children leaves alone.\<close>

definition same_input :: "mpack_tree \<Rightarrow> mpack_tree \<Rightarrow> bool" where
  "same_input t t' \<longleftrightarrow>
     t_read t' = t_read t \<and> t_error t' = t_error t \<and> t_next t' = t_next t \<and> t_data t' = t_data t \<and>
     t_size t' = t_size t \<and> t_max_nodes t' = t_max_nodes t \<and> p_possible t' = p_possible t \<and>
     t_root t' = t_root t"

lemma push_stack_ok:
  assumes "\<And>n. te_alloc env n" "mpack_tree_push_stack env t c m = (t', ok)"
  shows "ok" "p_stack t' = (if m = 0 then p_stack t else (c, m) # p_stack t)" "same_input t t'"
    "t_nodes t' = t_nodes t" "p_reserved t' = p_reserved t" "t_node_count t' = t_node_count t"
    "p_nodes t' = p_nodes t" "p_nodes_left t' = p_nodes_left t"
  using assms
  by (auto simp: mpack_tree_push_stack_def mpack_tree_parser_stack_capacity_def Let_def same_input_def split: if_splits)

lemma parse_children_ok:
  assumes alloc: "\<And>n. te_alloc env n" and t: "t_next t" "p_nodes t + p_nodes_left t \<le> length (t_nodes t)"
    and n: "n = t_nodes t ! i" "n_type n = mpack_type_array \<or> n_type n = mpack_type_map" "i < length (t_nodes t)"
    and m: "m = (if n_type n = mpack_type_map then unat (n_len n) * 2 else unat (n_len n))"
    and fits: "p_reserved t + m \<le> p_possible t" "p_possible t \<le> SIZE_MAX" "t_node_count t + m \<le> t_max_nodes t"
  shows "\<exists>c x t'. mpack_tree_parse_children env t i = (t', True) \<and> same_input t t' \<and>
    t_nodes t' = (t_nodes t @ replicate x junk_node)[i := n\<lparr>n_value := NV_children c\<rparr>] \<and>
    p_reserved t' = p_reserved t + m \<and> t_node_count t' = t_node_count t + m \<and>
    p_stack t' = (if m = 0 then p_stack t else (c, m) # p_stack t) \<and>
    p_nodes t' + p_nodes_left t' \<le> length (t_nodes t') \<and> c + m \<le> length (t_nodes t') \<and>
    {c..<c + m} \<subseteq> free_nodes t \<and> {c..<c + m} \<inter> free_nodes t' = {} \<and> free_nodes t' \<subseteq> free_nodes t"
proof -
  define t1 where "t1 = t\<lparr>t_node_count := t_node_count t + m, p_reserved := p_reserved t + m\<rparr>"
  have res: "mpack_tree_reserve_bytes env (t\<lparr>t_node_count := t_node_count t + m\<rparr>) m = (t1, True)"
    using fits by (simp add: reserve_ok t1_def)
  have sz: "\<not> SIZE_MAX < unat (n_len n) * 2"
    using unsigned_less [of "n_len n", where ?'a = nat] by (simp add: SIZE_MAX_def)
  have t1: "t_next t1" "p_nodes t1 + p_nodes_left t1 \<le> length (t_nodes t1)" "free_nodes t1 = free_nodes t"
    using t by (simp_all add: t1_def free_nodes_def)
  from alloc_children_ok [OF alloc t1(1,2), of m] obtain c t2 x where a: "tree_alloc_children env t1 m = (t2, Some c)"
    "t2 = t1\<lparr>t_nodes := t_nodes t1 @ replicate x junk_node, p_nodes := p_nodes t2, p_nodes_left := p_nodes_left t2\<rparr>"
    "p_nodes t2 + p_nodes_left t2 \<le> length (t_nodes t2)" "c + m \<le> length (t_nodes t2)"
    "{c..<c + m} \<subseteq> free_nodes t" "{c..<c + m} \<inter> free_nodes t2 = {}" "free_nodes t2 \<subseteq> free_nodes t"
    unfolding t1(3) by blast
  have n2: "t_nodes t2 = t_nodes t @ replicate x junk_node" "same_input t t2" "p_stack t2 = p_stack t"
    "p_reserved t2 = p_reserved t + m" "t_node_count t2 = t_node_count t + m"
    by (subst a(2), simp add: t1_def same_input_def)+
  define t3 where "t3 = node_set t2 i (\<lambda>n. n\<lparr>n_value := NV_children c\<rparr>)"
  have n3: "t_nodes t3 = (t_nodes t @ replicate x junk_node)[i := n\<lparr>n_value := NV_children c\<rparr>]" "same_input t2 t3"
    "p_stack t3 = p_stack t2" "p_reserved t3 = p_reserved t2" "t_node_count t3 = t_node_count t2"
    "p_nodes t3 = p_nodes t2" "p_nodes_left t3 = p_nodes_left t2"
    using n(1,3) n2(1) by (simp_all add: t3_def node_set_def nth_append same_input_def)
  obtain t4 ok where p: "mpack_tree_push_stack env t3 c m = (t4, ok)" by fastforce
  note n4 = push_stack_ok [OF alloc p]
  have "mpack_tree_parse_children env t i = mpack_tree_push_stack env t3 c m"
    using n(2) fits(3) sz res a(1) unfolding mpack_tree_parse_children_def node_at_def n(1)[symmetric] Let_def m [symmetric]
    by (simp add: t3_def)
  moreover have "free_nodes t4 = free_nodes t2" "length (t_nodes t4) = length (t_nodes t2)"
    using n3 n4 n2(1) by (simp_all add: free_nodes_def)
  moreover have "same_input t t4"
    using n2(2) n3(2) n4(3) by (simp add: same_input_def)
  ultimately show ?thesis
    using p n2 n3 n4 a(3-7) by (intro exI [of _ c] exI [of _ x] exI [of _ t4]) simp
qed

end
