(* ===== verification/Mpack_Tree_Loop.thy ===== *)
theory Mpack_Tree_Loop
  imports Mpack_Tree_Correct
begin

text \<open>
  The parse loop: turns compose into the parsing of a value and of a row of siblings, and the
  whole parse of an in-memory message yields nodes that represent its value.
\<close>

section \<open>Turns\<close>

text \<open>What the loop does after a node: pop the finished levels, then stop or go on.\<close>

definition tree_after :: "tree_env \<Rightarrow> nat \<Rightarrow> mpack_tree \<Rightarrow> (mpack_tree \<times> bool) option" where
  "tree_after env fuel u =
     (let (st, finished) = tree_pop (p_stack u) in
      if finished then Some (u\<lparr>p_stack := st\<rparr>, True) else tree_loop env fuel (u\<lparr>p_stack := st\<rparr>))"

lemma after_going_on: "p_stack u = (c, Suc n) # st \<Longrightarrow> tree_after env fuel u = tree_loop env fuel u"
  by (cases u) (simp add: tree_after_def)

lemma after_pop: "p_stack u = (c, 0) # l # st \<Longrightarrow> tree_after env fuel u = tree_after env fuel (u\<lparr>p_stack := l # st\<rparr>)"
  by (cases "tree_pop (l # st)") (simp add: tree_after_def)

lemma after_finished: "p_stack u = [(c, 0)] \<Longrightarrow> tree_after env fuel u = Some (u, True)"
  by (cases u) (simp add: tree_after_def)

lemma stack_advance_top: "stack_advance (length st) ((i, Suc n) # st) = (Suc i, n) # st"
  by (simp add: stack_advance_def)

lemma stack_advance_below: "stack_advance (length st) ((c, m) # (i, Suc n) # st) = (c, m) # (Suc i, n) # st"
  by (simp add: stack_advance_def)

lemma loop_turn:
  assumes "p_stack t = (i, n) # st" "mpack_tree_parse_node env t i = (t', True)"
  shows "tree_loop env (Suc fuel) t = tree_after env fuel (t'\<lparr>p_stack := stack_advance (length st) (p_stack t')\<rparr>)"
  using assms
  by (cases "tree_pop (stack_advance (length st) (p_stack t'))") (auto simp: tree_turn_def tree_after_def)

text \<open>The effect of parsing, in \<open>k\<close> turns, the nodes at the addresses \<open>D\<close> and all below them.\<close>

definition parses :: "tree_env \<Rightarrow> mpack_tree \<Rightarrow> nat \<Rightarrow> nat set \<Rightarrow> nat \<Rightarrow> mpack_tree \<Rightarrow> bool" where
  "parses env t k D len u \<longleftrightarrow>
     (\<forall>fuel. tree_loop env (k + fuel) t = tree_after env fuel u) \<and> tree_inv u \<and>
     t_data u = t_data t \<and> t_size u = t_size t + len \<and> t_root u = t_root t \<and>
     length (t_nodes t) \<le> length (t_nodes u) \<and> free_nodes u \<subseteq> free_nodes t \<and>
     (\<forall>j. j < length (t_nodes t) \<longrightarrow> j \<notin> free_nodes t \<longrightarrow> j \<notin> D \<longrightarrow> t_nodes u ! j = t_nodes t ! j)"

lemma plain_type: "\<not> compound_tag tag \<Longrightarrow> tag \<noteq> Tag_missing \<Longrightarrow> n_type (plain_node tag off n) = tag_type tag"
  by (cases tag) simp_all

lemma plain_not_compound: "\<not> compound_tag tag \<Longrightarrow> tag_type tag \<noteq> mpack_type_array \<and> tag_type tag \<noteq> mpack_type_map"
  by (cases tag) simp_all

lemma dec_tag_ext_size: "dec_tag ext p = Inr (t, k) \<Longrightarrow> 1 + ext_tag t \<le> k"
  by (auto simp: dec_tag_def tag_switch_defs ext_tag_def split: if_splits sum.splits)

lemma turn_plain:
  assumes inv: "tree_inv t" and stack: "p_stack t = (i, Suc n) # st"
    and dec: "dec_tag (te_ext env) (drop (t_size t) (t_data t)) = Inr (tag, k)"
    and tag: "\<not> compound_tag tag" and fits: "k - 1 + payload tag \<le> p_possible t"
    and i: "i < length (t_nodes t)"
  shows "\<exists>u. parses env t 1 {i} (k + payload tag) u \<and> p_stack u = (Suc i, n) # st \<and>
    t_nodes u = (t_nodes t)[i := plain_node tag (t_size t + k) (t_nodes t ! i)] \<and> free_nodes u = free_nodes t"
proof -
  have k: "1 + ext_tag tag \<le> k" "tag \<noteq> Tag_missing" and pos: "p_possible t \<le> SIZE_MAX" "k - 1 \<le> p_possible t"
    using dec_tag_ext_size [OF dec] dec_tag_not_missing [OF dec] tree_inv_possible(2) [OF inv] fits by auto
  define t1 where "t1 = t\<lparr>t_nodes := (t_nodes t)[i := plain_node tag (t_size t + k) (t_nodes t ! i)],
       p_reserved := k - 1 + payload tag\<rparr>"
  define t2 where "t2 = t1\<lparr>p_possible := p_possible t - (k - 1 + payload tag), t_size := t_size t + (k + payload tag)\<rparr>"
  have "mpack_tree_parse_node_contents env t i = (t1, True)"
    using contents_finish [OF dec pos(2,1)] finish_plain [OF tag k(2,1) fits pos(1) i] by (simp add: t1_def)
  then have node: "mpack_tree_parse_node env t i = (t2, True)"
    using i plain_type [OF tag k(2)] plain_not_compound [OF tag] k(1)
    by (simp add: mpack_tree_parse_node_def node_at_def t2_def) (simp add: t1_def)
  define u where "u = t2\<lparr>p_stack := (Suc i, n) # st\<rparr>"
  have "tree_loop env (1 + fuel) t = tree_after env fuel u" for fuel
    using loop_turn [OF stack node] stack stack_advance_top by (simp add: u_def t2_def t1_def)
  moreover have "tree_inv u"
    using inv stack fits k(1) by (auto simp: u_def t2_def t1_def tree_inv_def)
  ultimately show ?thesis
    by (intro exI [of _ u]) (auto simp: parses_def u_def t2_def t1_def free_nodes_def)
qed

lemma kids_node: "compound_tag tag \<Longrightarrow> kids tag < 2 ^ 32 \<Longrightarrow>
  (case tag of Tag_array l \<Rightarrow> unat l | Tag_map l \<Rightarrow> unat (l * 2) | _ \<Rightarrow> 0) = kids tag"
  by (cases tag) (simp_all add: kids_def unat_mult_lem [symmetric] mult.commute unat_word_ariths)

definition kids_len :: "mpack_tag \<Rightarrow> u32" where
  "kids_len tag = (case tag of Tag_array l \<Rightarrow> l | Tag_map l \<Rightarrow> l | _ \<Rightarrow> 0)"

lemma turn_children:
  assumes alloc: "\<And>n. te_alloc env n" and inv: "tree_inv t" and stack: "p_stack t = (i, Suc n) # st"
    and dec: "dec_tag (te_ext env) (drop (t_size t) (t_data t)) = Inr (tag, k)"
    and tag: "compound_tag tag" and fits: "k - 1 + kids tag \<le> p_possible t"
    and i: "i < length (t_nodes t)" "i \<notin> free_nodes t"
  shows "\<exists>u c. parses env t 1 {i} k u \<and>
    p_stack u = (if kids tag = 0 then (Suc i, n) # st else (c, kids tag) # (Suc i, n) # st) \<and>
    i < length (t_nodes u) \<and> children_node (tag_type tag) (unat (kids_len tag)) c (t_nodes u ! i) \<and>
    c + kids tag \<le> length (t_nodes u) \<and> {c..<c + kids tag} \<subseteq> free_nodes t \<and>
    {c..<c + kids tag} \<inter> free_nodes u = {}"
proof -
  have k: "1 \<le> k" "ext_tag tag = 0" and pos: "p_possible t \<le> SIZE_MAX" "k - 1 \<le> p_possible t" "kids tag < 2 ^ 32"
    using dec_tag_size [OF dec] tag tree_inv_possible [OF inv] fits by (auto simp: ext_tag_def split: mpack_tag.splits)
  define n0 where "n0 = (t_nodes t ! i)\<lparr>n_type := tag_type tag, n_len := kids_len tag\<rparr>"
  define t0 where "t0 = t\<lparr>t_nodes := (t_nodes t)[i := n0], p_reserved := k - 1\<rparr>"
  have "set_len (kids_len tag) (set_type (tag_type tag) t i) i = t\<lparr>t_nodes := (t_nodes t)[i := n0]\<rparr>"
    by (simp add: set_defs node_set_set) (simp add: node_set_def n0_def)
  then have hdr: "set_len (kids_len tag) (set_type (tag_type tag) (t\<lparr>p_reserved := k - 1\<rparr>) i) i = t0"
    by (simp add: t0_def)
  have fin: "mpack_tree_parse_node_contents env t i = mpack_tree_parse_children env t0 i"
    using contents_finish [OF dec pos(2,1)] tag k(2) hdr by (cases tag) (simp_all add: kids_len_def)
  have node0: "n0 = t_nodes t0 ! i" "n_type n0 = mpack_type_array \<or> n_type n0 = mpack_type_map" "i < length (t_nodes t0)"
    "kids tag = (if n_type n0 = mpack_type_map then unat (n_len n0) * 2 else unat (n_len n0))"
    using tag i by (cases tag; simp add: t0_def n0_def kids_def kids_len_def)+
  have fits0: "t_next t0" "p_nodes t0 + p_nodes_left t0 \<le> length (t_nodes t0)" "p_reserved t0 + kids tag \<le> p_possible t0"
    "p_possible t0 \<le> SIZE_MAX" "t_node_count t0 + kids tag \<le> t_max_nodes t0" "free_nodes t0 = free_nodes t"
    using inv fits pos by (auto simp: t0_def tree_inv_def SIZE_MAX_def free_nodes_def)
  from parse_children_ok [OF alloc fits0(1,2) node0 fits0(3-5)] obtain c x t1 where c:
    "mpack_tree_parse_children env t0 i = (t1, True)" "same_input t0 t1"
    "t_nodes t1 = (t_nodes t0 @ replicate x junk_node)[i := n0\<lparr>n_value := NV_children c\<rparr>]"
    "p_reserved t1 = k - 1 + kids tag" "t_node_count t1 = t_node_count t + kids tag"
    "p_stack t1 = (if kids tag = 0 then p_stack t else (c, kids tag) # p_stack t)"
    "p_nodes t1 + p_nodes_left t1 \<le> length (t_nodes t1)" "c + kids tag \<le> length (t_nodes t1)"
    "{c..<c + kids tag} \<subseteq> free_nodes t" "{c..<c + kids tag} \<inter> free_nodes t1 = {}" "free_nodes t1 \<subseteq> free_nodes t"
    unfolding fits0(6) by (auto simp: t0_def)
  have ni: "t_nodes t1 ! i = n0\<lparr>n_value := NV_children c\<rparr>" "i < length (t_nodes t1)"
    using c(3) node0(3) by simp_all
  define t2 where "t2 = t1\<lparr>p_possible := p_possible t - (k - 1 + kids tag), t_size := t_size t + k\<rparr>"
  have size_u32: "unat (kids_len tag * 2) = kids tag" if "tag_type tag = mpack_type_map"
    using kids_node [OF tag pos(3)] that by (cases tag) (simp_all add: kids_len_def)
  have node: "mpack_tree_parse_node env t i = (t2, True)"
    using fin c(1,2,4) ni tag k(1) size_u32 node0(4)
    by (cases tag) (auto simp: mpack_tree_parse_node_def node_at_def t2_def n0_def kids_len_def kids_def same_input_def t0_def)
  define u where "u = t2\<lparr>p_stack := (if kids tag = 0 then (Suc i, n) # st else (c, kids tag) # (Suc i, n) # st)\<rparr>"
  have "tree_loop env (1 + fuel) t = tree_after env fuel u" for fuel
    using loop_turn [OF stack node] stack stack_advance_top stack_advance_below c(6)
    by (simp add: u_def t2_def)
  moreover have "tree_inv u"
    using inv stack fits k(1) c(2,5,7) by (auto simp: u_def t2_def t0_def tree_inv_def same_input_def)
  moreover have "t_nodes u ! j = t_nodes t ! j" if "j < length (t_nodes t)" "j \<noteq> i" for j
    using that c(3) by (simp add: u_def t2_def t0_def nth_append)
  ultimately show ?thesis
    using c ni i
    by (intro exI [of _ u] exI [of _ c])
      (auto simp: parses_def u_def t2_def t0_def same_input_def free_nodes_def children_node_def n0_def)
qed

section \<open>Rows of siblings\<close>

lemma parses_trans:
  assumes "parses env t k D l u" "p_stack u = (c, Suc n) # st" "parses env u k' D' l' w"
  shows "parses env t (k + k') (D \<union> D') (l + l') w"
proof -
  have "tree_loop env (k + k' + fuel) t = tree_after env fuel w" for fuel
    using assms after_going_on [OF assms(2), of env] by (simp add: parses_def add.assoc)
  moreover have "t_nodes w ! j = t_nodes t ! j"
    if "j < length (t_nodes t)" "j \<notin> free_nodes t" "j \<notin> D" "j \<notin> D'" for j
    using assms(1,3) that unfolding parses_def by (metis in_mono less_le_trans)
  ultimately show ?thesis
    using assms(1,3) unfolding parses_def by (auto simp: subset_iff)
qed

lemma parses_represents:
  assumes "represents bytes (t_nodes u) S i v" "parses env u k D l w"
    and "\<And>j. j \<in> S \<Longrightarrow> j \<notin> free_nodes u \<and> j \<notin> D"
  shows "represents bytes (t_nodes w) S i v"
  by (rule represents_frame(1) [OF _ assms(1)]) (use assms(2,3) in \<open>auto simp: parses_def\<close>)

lemma possible_bound:
  assumes "tree_inv t" "p_stack t = (i, Suc n) # st" "drop (t_size t) (t_data t) = bs @ rest"
    and "bs \<noteq> []" "n + pending st \<le> length rest"
  shows "length bs \<le> p_possible t + 1"
proof -
  have "length (t_data t) - t_size t = length bs + length rest"
    using arg_cong [OF assms(3), of length] by simp
  with assms(1,2,5) show ?thesis
    by (auto simp: tree_inv_def)
qed

lemma encodes_nonempty:
  "encodes ext v bs \<Longrightarrow> bs \<noteq> []"
  by (erule encodes.cases) (auto dest: dec_tag_size)

definition parse_value_ok :: "tree_env \<Rightarrow> mp_value \<Rightarrow> bool" where
  "parse_value_ok env v \<longleftrightarrow>
     (\<forall>t i n st bs rest. encodes (te_ext env) v bs \<longrightarrow> tree_inv t \<longrightarrow> p_stack t = (i, Suc n) # st \<longrightarrow>
       drop (t_size t) (t_data t) = bs @ rest \<longrightarrow> n + pending st \<le> length rest \<longrightarrow>
       i < length (t_nodes t) \<longrightarrow> i \<notin> free_nodes t \<longrightarrow>
       (\<exists>k u S. k \<le> length bs \<and> parses env t k {i} (length bs) u \<and> p_stack u = (Suc i, n) # st \<and>
         represents (t_data u) (t_nodes u) S i v \<and> S \<subseteq> insert i (free_nodes t - free_nodes u)))"

lemma encodes_all_length: "encodes_all ext vs bs \<Longrightarrow> length vs \<le> length bs"
proof (induction vs arbitrary: bs)
  case (Cons v vs)
  then obtain b bs' where "bs = b @ bs'" "encodes ext v b" "encodes_all ext vs bs'"
    by (auto elim: encodes_all_ConsE)
  with Cons.IH encodes_nonempty show ?case
    by (fastforce simp: Suc_le_eq simp flip: length_greater_0_conv)
qed simp

lemma parse_row:
  assumes "\<And>v. v \<in> set vs \<Longrightarrow> parse_value_ok env v" "vs \<noteq> []" "encodes_all (te_ext env) vs bs"
    and "tree_inv t" "p_stack t = (c, length vs) # st" "drop (t_size t) (t_data t) = bs @ rest"
    and "pending st \<le> length rest" "c + length vs \<le> length (t_nodes t)" "{c..<c + length vs} \<inter> free_nodes t = {}"
  shows "\<exists>k u S. k \<le> length bs \<and> parses env t k {c..<c + length vs} (length bs) u \<and>
    p_stack u = (c + length vs, 0) # st \<and> represents_all (t_data u) (t_nodes u) S c vs \<and>
    S \<subseteq> {c..<c + length vs} \<union> (free_nodes t - free_nodes u)"
  using assms
proof (induction vs arbitrary: t c bs)
  case (Cons v vs)
  from Cons.prems(3) obtain b bs' where b: "bs = b @ bs'" "encodes (te_ext env) v b" "encodes_all (te_ext env) vs bs'"
    by (auto elim: encodes_all_ConsE)
  have dr: "drop (t_size t) (t_data t) = b @ (bs' @ rest)" "length vs + pending st \<le> length (bs' @ rest)"
    using Cons.prems(6,7) b encodes_all_length [OF b(3)] by simp_all
  have c: "c < length (t_nodes t)" "c \<notin> free_nodes t" "p_stack t = (c, Suc (length vs)) # st"
    using Cons.prems(5,8,9) by (auto simp: disjoint_iff)
  obtain k u S where u: "k \<le> length b" "parses env t k {c} (length b) u" "p_stack u = (Suc c, length vs) # st"
    "represents (t_data u) (t_nodes u) S c v" "S \<subseteq> insert c (free_nodes t - free_nodes u)"
    using Cons.prems(1) [of v] b(2) Cons.prems(4) c dr unfolding parse_value_ok_def by (metis list.set_intros(1))
  have fu: "free_nodes u \<subseteq> free_nodes t" "tree_inv u" "t_data u = t_data t" "t_size u = t_size t + length b"
    "length (t_nodes t) \<le> length (t_nodes u)"
    using u(2) by (auto simp: parses_def)
  show ?case
  proof (cases "vs = []")
    case True
    then have "bs' = []" using b(3) by (auto elim: encodes_all_NilE)
    with True u b(1) show ?thesis
      by (intro exI [of _ k] exI [of _ u] exI [of _ S]) (auto intro: rep_more rep_none simp: atLeastLessThanSuc)
  next
    case False
    then obtain m where m: "length vs = Suc m" by (cases vs) auto
    have du: "drop (t_size u) (t_data u) = bs' @ rest"
      using fu dr by (metis append_eq_conv_conj drop_drop add.commute)
    have cu: "Suc c + length vs \<le> length (t_nodes u)" "{Suc c..<Suc c + length vs} \<inter> free_nodes u = {}"
      using Cons.prems(8,9) fu(1,5) by (auto simp: disjoint_iff)
    obtain k' w S' where w: "k' \<le> length bs'" "parses env u k' {Suc c..<Suc c + length vs} (length bs') w"
      "p_stack w = (Suc c + length vs, 0) # st" "represents_all (t_data w) (t_nodes w) S' (Suc c) vs"
      "S' \<subseteq> {Suc c..<Suc c + length vs} \<union> (free_nodes u - free_nodes w)"
      using Cons.IH [OF _ False b(3) fu(2) u(3) du Cons.prems(7) cu] Cons.prems(1) by auto
    have fw: "free_nodes w \<subseteq> free_nodes u" "t_data w = t_data u" "length (t_nodes u) \<le> length (t_nodes w)"
      using w(2) by (auto simp: parses_def)
    have "{c} \<union> {Suc c..<Suc c + length vs} = {c..<c + length (v # vs)}" by auto
    with parses_trans [OF u(2) _ w(2)] u(3) m have p: "parses env t (k + k') {c..<c + length (v # vs)} (length bs) w"
      by (simp add: b(1))
    have Sd: "j \<notin> free_nodes u \<and> j \<notin> {Suc c..<Suc c + length vs}" if "j \<in> S" for j
    proof -
      have "{Suc c..<Suc c + length vs} \<inter> free_nodes t = {}"
        using Cons.prems(9) by (auto simp: disjoint_iff)
      then show ?thesis
        using that u(5) c(2) fu(1) by (auto simp: disjoint_iff)
    qed
    have "represents (t_data w) (t_nodes w) S c v"
      using parses_represents [OF u(4) w(2) Sd] fw(2) by simp
    then have "represents_all (t_data w) (t_nodes w) (S \<union> S') c (v # vs)"
      using represents_mono(2) [OF w(4)] by (intro rep_more) (auto intro: represents_mono(1))
    moreover have "S \<union> S' \<subseteq> {c..<c + length (v # vs)} \<union> (free_nodes t - free_nodes w)"
      using u(5) w(5) fu(1) fw(1) by auto
    ultimately show ?thesis
      using w(1,3) u(1) p by (intro exI [of _ "k + k'"] exI [of _ w] exI [of _ "S \<union> S'"]) (auto simp: b(1))
  qed
qed simp

section \<open>Values\<close>

lemma parse_plain_value:
  assumes "\<not> compound_tag tag" "dec_tag (te_ext env) h = Inr (tag, length h)" "length s = payload tag"
    and "tree_inv t" "p_stack t = (i, Suc n) # st" "drop (t_size t) (t_data t) = (h @ s) @ rest"
    and "n + pending st \<le> length rest" "i < length (t_nodes t)"
  shows "\<exists>u. parses env t 1 {i} (length (h @ s)) u \<and> p_stack u = (Suc i, n) # st \<and>
    i < length (t_nodes u) \<and> t_nodes u ! i = plain_node tag (t_size t + length h) (t_nodes t ! i)"
proof -
  have d: "dec_tag (te_ext env) (drop (t_size t) (t_data t)) = Inr (tag, length h)"
    using dec_tag_append [OF assms(2)] assms(6) by simp
  have "h \<noteq> []"
    using dec_tag_size [OF assms(2)] by auto
  then have "length (h @ s) \<le> p_possible t + 1"
    by (intro possible_bound [OF assms(4-6) _ assms(7)]) simp
  then have "length h - 1 + payload tag \<le> p_possible t"
    using assms(3) \<open>h \<noteq> []\<close> by (cases h) simp_all
  from turn_plain [OF assms(4,5) d assms(1) this assms(8)] show ?thesis
    using assms(3,8) by auto
qed

lemma payload_in_data:
  assumes "drop p d = (h @ s) @ rest" "p \<le> length d"
  shows "p + length h + length s \<le> length d \<and> take (length s) (drop (p + length h) d) = s"
proof -
  have "length d - p = length h + length s + length rest"
    using arg_cong [OF assms(1), of length] by simp
  then show ?thesis
    using assms drop_shift [of p d h "s @ rest"] by auto
qed

lemma parse_compound_value:
  assumes alloc: "\<And>n. te_alloc env n"
    and IH: "\<And>v. v \<in> set vs \<Longrightarrow> parse_value_ok env v"
    and tag: "compound_tag tag" "dec_tag (te_ext env) h = Inr (tag, length h)" "length vs = kids tag"
    and enc: "encodes_all (te_ext env) vs bs"
    and t: "tree_inv t" "p_stack t = (i, Suc n) # st" "drop (t_size t) (t_data t) = (h @ bs) @ rest"
    and rest: "n + pending st \<le> length rest" and i: "i < length (t_nodes t)" "i \<notin> free_nodes t"
  shows "\<exists>k u S c. k \<le> length (h @ bs) \<and> parses env t k {i} (length (h @ bs)) u \<and> p_stack u = (Suc i, n) # st \<and>
    i < length (t_nodes u) \<and> children_node (tag_type tag) (unat (kids_len tag)) c (t_nodes u ! i) \<and>
    represents_all (t_data u) (t_nodes u) S c vs \<and> S \<subseteq> free_nodes t - free_nodes u"
proof -
  have d: "dec_tag (te_ext env) (drop (t_size t) (t_data t)) = Inr (tag, length h)"
    using dec_tag_append [OF tag(2)] t(3) by simp
  have "h \<noteq> []"
    using dec_tag_size [OF tag(2)] by auto
  then have "length (h @ bs) \<le> p_possible t + 1"
    by (intro possible_bound [OF t _ rest]) simp
  then have "length h - 1 + kids tag \<le> p_possible t"
    using encodes_all_length [OF enc] tag(3) \<open>h \<noteq> []\<close> by (cases h) simp_all
  from turn_children [OF alloc t(1,2) d tag(1) this i] obtain u c where u: "parses env t 1 {i} (length h) u"
    "p_stack u = (if kids tag = 0 then (Suc i, n) # st else (c, kids tag) # (Suc i, n) # st)"
    "i < length (t_nodes u)" "children_node (tag_type tag) (unat (kids_len tag)) c (t_nodes u ! i)"
    "c + kids tag \<le> length (t_nodes u)" "{c..<c + kids tag} \<subseteq> free_nodes t" "{c..<c + kids tag} \<inter> free_nodes u = {}"
    by blast
  show ?thesis
  proof (cases "vs = []")
    case True
    then have "bs = []" using enc by (auto elim: encodes_all_NilE)
    with True u tag(3) \<open>h \<noteq> []\<close> show ?thesis
      by (intro exI [of _ 1] exI [of _ u] exI [of _ "{}"] exI [of _ c]) (auto intro: rep_none simp: Suc_le_eq)
  next
    case False
    have fu: "free_nodes u \<subseteq> free_nodes t" "tree_inv u" "t_data u = t_data t" "t_size u = t_size t + length h"
      using u(1) by (auto simp: parses_def)
    have su: "p_stack u = (c, length vs) # (Suc i, n) # st" "pending ((Suc i, n) # st) \<le> length rest"
      "drop (t_size u) (t_data u) = bs @ rest"
      using u(2) False rest fu t(3) drop_shift [of "t_size t" "t_data t" h "bs @ rest"]
      by (auto simp flip: tag(3))
    obtain k w S where w: "k \<le> length bs" "parses env u k {c..<c + length vs} (length bs) w"
      "p_stack w = (c + length vs, 0) # (Suc i, n) # st" "represents_all (t_data w) (t_nodes w) S c vs"
      "S \<subseteq> {c..<c + length vs} \<union> (free_nodes u - free_nodes w)"
      using parse_row [OF IH False enc fu(2) su(1,3,2)] u(5,7) tag(3) by auto
    define w' where "w' = w\<lparr>p_stack := (Suc i, n) # st\<rparr>"
    have up: "parses env t (1 + k) ({i} \<union> {c..<c + length vs}) (length h + length bs) w"
      using parses_trans [OF u(1) _ w(2)] su(1) False by (cases vs) auto
    have fw: "free_nodes w \<subseteq> free_nodes u" "t_nodes w' = t_nodes w" "t_data w' = t_data w" "free_nodes w' = free_nodes w"
      "i \<notin> free_nodes u" "i \<notin> {c..<c + length vs}"
      using w(2) i(2) fu(1) u(6) tag(3) by (auto simp: parses_def w'_def free_nodes_def)
    have "tree_inv w"
      using up by (simp add: parses_def)
    then have "tree_inv w'"
      using w(3) by (simp add: w'_def tree_inv_def)
    moreover have "tree_after env fuel w = tree_after env fuel w'" for fuel
      using after_pop [OF w(3)] by (simp add: w'_def)
    moreover have "t_nodes w ! j = t_nodes t ! j" if "j < length (t_nodes t)" "j \<notin> free_nodes t" "j \<noteq> i" for j
    proof -
      have "j \<notin> {i} \<union> {c..<c + length vs}"
        using that u(6) tag(3) by auto
      then show ?thesis
        using up that unfolding parses_def by blast
    qed
    ultimately have "parses env t (1 + k) {i} (length (h @ bs)) w'"
      using up fw(2-4) by (simp add: parses_def) (simp add: w'_def)
    moreover have "t_nodes w ! i = t_nodes u ! i" "length (t_nodes u) \<le> length (t_nodes w)"
      using w(2) fw(5,6) u(3) by (auto simp: parses_def)
    moreover have "S \<subseteq> free_nodes t - free_nodes w"
    proof
      fix j
      assume "j \<in> S"
      with w(5) consider "j \<in> {c..<c + kids tag}" | "j \<in> free_nodes u - free_nodes w"
        unfolding tag(3) by fastforce
      then show "j \<in> free_nodes t - free_nodes w"
        by cases (use u(6,7) fu(1) fw(1) in blast)+
    qed
    moreover have "1 + k \<le> length (h @ bs)"
      using w(1) \<open>h \<noteq> []\<close> by (cases h) simp_all
    ultimately show ?thesis
      using w(4) u(3,4) fw(2-4) unfolding w'_def
      by (intro exI [of _ "1 + k"] exI [of _ w'] exI [of _ S] exI [of _ c] conjI)
        (simp_all add: w'_def)
  qed
qed

lemma dec_tag_ext_last: "dec_tag ext p = Inr (Tag_ext x l, k) \<Longrightarrow> p ! (k - 1) = x"
  by (auto simp: dec_tag_def tag_switch_defs mpack_load_u8_def split: if_splits sum.splits)

lemma tree_inv_size: "tree_inv t \<Longrightarrow> t_size t \<le> length (t_data t)"
  by (auto simp: tree_inv_def)

lemma parse_value_okI:
  assumes "\<And>t i n st bs rest. \<lbrakk>encodes (te_ext env) v bs; tree_inv t; p_stack t = (i, Suc n) # st;
      drop (t_size t) (t_data t) = bs @ rest; n + pending st \<le> length rest;
      i < length (t_nodes t); i \<notin> free_nodes t\<rbrakk> \<Longrightarrow>
    \<exists>k u S. k \<le> length bs \<and> parses env t k {i} (length bs) u \<and> p_stack u = (Suc i, n) # st \<and>
      represents (t_data u) (t_nodes u) S i v \<and> S \<subseteq> insert i (free_nodes t - free_nodes u)"
  shows "parse_value_ok env v"
  unfolding parse_value_ok_def using assms by blast

text \<open>A value without children: one turn, and the node it leaves represents the value.\<close>

lemma parse_plain_ok:
  assumes "\<And>bs. encodes (te_ext env) v bs \<Longrightarrow> \<exists>h s tag. bs = h @ s \<and> \<not> compound_tag tag \<and>
      dec_tag (te_ext env) h = Inr (tag, length h) \<and> length s = payload tag \<and>
      (\<forall>d p nodes n i. p + length h + length s \<le> length d \<longrightarrow> take (length h) (drop p d) = h \<longrightarrow>
        take (length s) (drop (p + length h) d) = s \<longrightarrow> i < length nodes \<longrightarrow>
        nodes ! i = plain_node tag (p + length h) n \<longrightarrow> represents d nodes {i} i v)"
  shows "parse_value_ok env v"
proof (rule parse_value_okI)
  fix t i n st bs rest
  assume t: "encodes (te_ext env) v bs" "tree_inv t" "p_stack t = (i, Suc n) # st"
    "drop (t_size t) (t_data t) = bs @ rest" "n + pending st \<le> length rest" "i < length (t_nodes t)"
  from assms [OF t(1)] obtain h s tag where h: "bs = h @ s" "\<not> compound_tag tag"
    "dec_tag (te_ext env) h = Inr (tag, length h)" "length s = payload tag" and
    rep: "\<And>d p nodes n i. p + length h + length s \<le> length d \<Longrightarrow> take (length h) (drop p d) = h \<Longrightarrow>
      take (length s) (drop (p + length h) d) = s \<Longrightarrow> i < length nodes \<Longrightarrow>
      nodes ! i = plain_node tag (p + length h) n \<Longrightarrow> represents d nodes {i} i v" by blast
  obtain u where u: "parses env t 1 {i} (length bs) u" "p_stack u = (Suc i, n) # st"
    "i < length (t_nodes u)" "t_nodes u ! i = plain_node tag (t_size t + length h) (t_nodes t ! i)"
    using parse_plain_value [OF h(2-4) t(2,3) _ t(5,6)] t(4) h(1) by auto
  have d: "t_size t + length h + length s \<le> length (t_data t)" "take (length s) (drop (t_size t + length h) (t_data t)) = s"
    using payload_in_data [of "t_size t" "t_data t" h s rest] t(4) h(1) tree_inv_size [OF t(2)] by auto
  have "represents (t_data t) (t_nodes u) {i} i v"
    by (rule rep [OF d(1) _ d(2) u(3,4)]) (use t(4) h(1) in simp)
  moreover have "t_data u = t_data t"
    using u(1) by (simp add: parses_def)
  ultimately show "\<exists>k u S. k \<le> length bs \<and> parses env t k {i} (length bs) u \<and> p_stack u = (Suc i, n) # st \<and>
      represents (t_data u) (t_nodes u) S i v \<and> S \<subseteq> insert i (free_nodes t - free_nodes u)"
    using u(1,2) encodes_nonempty [OF t(1)] by (intro exI [of _ 1] exI [of _ u] exI [of _ "{i}"]) (auto simp: Suc_le_eq)
qed

lemma ext_node_represents:
  assumes "dec_tag ext h = Inr (Tag_ext x l, length h)" "length s = unat l"
    and "p + length h + length s \<le> length d" "take (length h) (drop p d) = h"
    and "take (length s) (drop (p + length h) d) = s" "i < length nodes"
    and "nodes ! i = plain_node (Tag_ext x l) (p + length h) n"
  shows "represents d nodes {i} i (MP_ext x s)"
proof -
  obtain m where m: "length h = Suc m"
    using dec_tag_size [OF assms(1)] by (cases "length h") auto
  have "h ! m = d ! (p + m)"
    using assms(3,4) m by (metis Suc_leD add_leD1 le_add1 le_add2 lessI nth_drop nth_take order_trans)
  then have "d ! (p + m) = x"
    using dec_tag_ext_last [OF assms(1)] m by simp
  then show ?thesis
    using assms m by (intro rep_ext [where off = "p + m"]) (auto simp: data_node_def)
qed

lemma parse_value_plain:
  "parse_value_ok env (MP_scalar t)" "parse_value_ok env (MP_str s)" "parse_value_ok env (MP_bin s)"
  "parse_value_ok env (MP_ext x s)"
proof -
  show "parse_value_ok env (MP_scalar t)"
  proof (rule parse_plain_ok)
    fix bs
    assume "encodes (te_ext env) (MP_scalar t) bs"
    then have "dec_tag (te_ext env) bs = Inr (t, length bs)" "scalar_tag t"
      by (auto elim: encodes_scalarE)
    then show "\<exists>h s tag. bs = h @ s \<and> \<not> compound_tag tag \<and> dec_tag (te_ext env) h = Inr (tag, length h) \<and>
        length s = payload tag \<and> (\<forall>d p nodes n i. p + length h + length s \<le> length d \<longrightarrow> take (length h) (drop p d) = h \<longrightarrow>
          take (length s) (drop (p + length h) d) = s \<longrightarrow> i < length nodes \<longrightarrow>
          nodes ! i = plain_node tag (p + length h) n \<longrightarrow> represents d nodes {i} i (MP_scalar t))"
      by (intro exI [of _ bs] exI [of _ "[]"] exI [of _ t])
        (cases t; auto simp: payload_def intro: rep_scalar)
  qed
  show "parse_value_ok env (MP_str s)"
    by (rule parse_plain_ok, elim encodes_strE)
      (fastforce simp: payload_def data_node_def intro!: rep_str)
  show "parse_value_ok env (MP_bin s)"
    by (rule parse_plain_ok, elim encodes_binE)
      (fastforce simp: payload_def data_node_def intro!: rep_bin)
  show "parse_value_ok env (MP_ext x s)"
  proof (rule parse_plain_ok, elim encodes_extE)
    fix bs h l
    assume "bs = h @ s" "dec_tag (te_ext env) h = Inr (Tag_ext x l, length h)" "length s = unat l"
    then show "\<exists>h s' tag. bs = h @ s' \<and> \<not> compound_tag tag \<and> dec_tag (te_ext env) h = Inr (tag, length h) \<and>
        length s' = payload tag \<and> (\<forall>d p nodes n i. p + length h + length s' \<le> length d \<longrightarrow> take (length h) (drop p d) = h \<longrightarrow>
          take (length s') (drop (p + length h) d) = s' \<longrightarrow> i < length nodes \<longrightarrow>
          nodes ! i = plain_node tag (p + length h) n \<longrightarrow> represents d nodes {i} i (MP_ext x s))"
      by (intro exI [of _ h] exI [of _ s] exI [of _ "Tag_ext x l"])
        (auto simp: payload_def intro: ext_node_represents)
  qed
qed

lemma parse_value:
  assumes alloc: "\<And>n. te_alloc env n"
  shows "parse_value_ok env v"
proof (induction v)
  case (MP_array vs)
  show ?case
  proof (rule parse_value_okI, elim encodes_arrayE)
    fix t i n st bs rest h l es
    assume t: "tree_inv t" "p_stack t = (i, Suc n) # st" "drop (t_size t) (t_data t) = bs @ rest"
      "n + pending st \<le> length rest" "i < length (t_nodes t)" "i \<notin> free_nodes t"
      and bs: "bs = h @ es" "dec_tag (te_ext env) h = Inr (Tag_array l, length h)" "length vs = unat l"
        "encodes_all (te_ext env) vs es"
    from parse_compound_value [OF alloc MP_array, where tag = "Tag_array l" and h = h and bs = es and t = t and i = i and n = n and st = st and rest = rest and vs = vs] t bs
    obtain k u S c where u: "k \<le> length bs" "parses env t k {i} (length bs) u" "p_stack u = (Suc i, n) # st"
      "i < length (t_nodes u)" "children_node mpack_type_array (length vs) c (t_nodes u ! i)"
      "represents_all (t_data u) (t_nodes u) S c vs" "S \<subseteq> free_nodes t - free_nodes u"
      by (auto simp: kids_def kids_len_def)
    have "represents (t_data u) (t_nodes u) (insert i S) i (MP_array vs)"
      using u(4,5) represents_mono(2) [OF u(6), of "insert i S"] by (intro rep_array) auto
    with u show "\<exists>k u S. k \<le> length bs \<and> parses env t k {i} (length bs) u \<and> p_stack u = (Suc i, n) # st \<and>
      represents (t_data u) (t_nodes u) S i (MP_array vs) \<and> S \<subseteq> insert i (free_nodes t - free_nodes u)"
      by (intro exI [of _ k] exI [of _ u] exI [of _ "insert i S"]) auto
  qed
next
  case (MP_map kvs)
  have IH: "parse_value_ok env v" if "v \<in> set (pairs kvs)" for v
    using that MP_map by (fastforce simp: pairs_def fsts.simps snds.simps)
  show ?case
  proof (rule parse_value_okI, elim encodes_mapE)
    fix t i n st bs rest h l es
    assume t: "tree_inv t" "p_stack t = (i, Suc n) # st" "drop (t_size t) (t_data t) = bs @ rest"
      "n + pending st \<le> length rest" "i < length (t_nodes t)" "i \<notin> free_nodes t"
      and bs: "bs = h @ es" "dec_tag (te_ext env) h = Inr (Tag_map l, length h)" "length kvs = unat l"
        "encodes_all (te_ext env) (pairs kvs) es"
    from parse_compound_value [OF alloc IH, where tag = "Tag_map l" and h = h and bs = es and t = t and i = i and n = n and st = st and rest = rest and vs = "pairs kvs"] t bs
    obtain k u S c where u: "k \<le> length bs" "parses env t k {i} (length bs) u" "p_stack u = (Suc i, n) # st"
      "i < length (t_nodes u)" "children_node mpack_type_map (length kvs) c (t_nodes u ! i)"
      "represents_all (t_data u) (t_nodes u) S c (pairs kvs)" "S \<subseteq> free_nodes t - free_nodes u"
      by (auto simp: kids_def kids_len_def)
    have "represents (t_data u) (t_nodes u) (insert i S) i (MP_map kvs)"
      using u(4,5) represents_mono(2) [OF u(6), of "insert i S"] by (intro rep_map) auto
    with u show "\<exists>k u S. k \<le> length bs \<and> parses env t k {i} (length bs) u \<and> p_stack u = (Suc i, n) # st \<and>
      represents (t_data u) (t_nodes u) S i (MP_map kvs) \<and> S \<subseteq> insert i (free_nodes t - free_nodes u)"
      by (intro exI [of _ k] exI [of _ u] exI [of _ "insert i S"]) auto
  qed
qed (auto intro: parse_value_plain)

section \<open>Whole messages\<close>

lemma parse_start_data:
  assumes "\<And>n. te_alloc env n" "bytes \<noteq> []" "length bytes < 2 ^ 32"
  shows "\<exists>t. mpack_tree_parse_start env (mpack_tree_init_data bytes) = (t, True) \<and> tree_inv t \<and> t_data t = bytes \<and>
    t_size t = 0 \<and> t_root t = 0 \<and> p_stack t = [(0, 1)] \<and> 0 < length (t_nodes t) \<and> 0 \<notin> free_nodes t \<and>
    t_error t = mpack_ok"
  using assms
  by (auto simp: mpack_tree_parse_start_def mpack_tree_init_data_def mpack_tree_init_clear_def Let_def
      mpack_tree_reserve_bytes_def tree_inv_def free_nodes_def SIZE_MAX_def MPACK_NODES_PER_PAGE_def Suc_le_eq
      simp flip: length_greater_0_conv)

lemma parse_message:
  assumes alloc: "\<And>n. te_alloc env n" and enc: "encodes (te_ext env) v bs" and len: "length (bs @ rest) < 2 ^ 32"
    and fuel: "length bs \<le> fuel"
  shows "\<exists>t. mpack_tree_parse env fuel (mpack_tree_init_data (bs @ rest)) = Some t \<and> t_error t = mpack_ok \<and>
    p_state t = parsed \<and> t_size t = length bs \<and> t_data t = bs @ rest \<and>
    represents (t_data t) (t_nodes t) UNIV (t_root t) v"
proof -
  have "bs @ rest \<noteq> []"
    using encodes_nonempty [OF enc] by simp
  from parse_start_data [OF alloc this len] obtain t0 where t0:
    "mpack_tree_parse_start env (mpack_tree_init_data (bs @ rest)) = (t0, True)" "tree_inv t0" "t_data t0 = bs @ rest"
    "t_size t0 = 0" "t_root t0 = 0" "p_stack t0 = [(0, 1)]" "0 < length (t_nodes t0)" "0 \<notin> free_nodes t0"
    "t_error t0 = mpack_ok" by blast
  have "p_stack t0 = (0, Suc 0) # []" "drop (t_size t0) (t_data t0) = bs @ rest" "0 + pending [] \<le> length rest"
    using t0 by simp_all
  with parse_value [OF alloc, of v] enc t0 obtain k u S where u: "k \<le> length bs" "parses env t0 k {0} (length bs) u"
    "p_stack u = [(Suc 0, 0)]" "represents (t_data u) (t_nodes u) S 0 v"
    unfolding parse_value_ok_def by metis
  have "tree_loop env (k + (fuel - k)) t0 = Some (u, True)"
    using u(2) after_finished [OF u(3)] by (simp add: parses_def)
  then have loop: "tree_loop env fuel t0 = Some (u, True)"
    using u(1) fuel by simp
  have "mpack_tree_parse env fuel (mpack_tree_init_data (bs @ rest)) = Some (u\<lparr>p_state := parsed\<rparr>)"
    using t0(1,9) loop
    by (simp add: mpack_tree_parse_def mpack_tree_continue_parsing_def)
      (simp add: mpack_tree_init_data_def mpack_tree_init_clear_def)
  moreover have "represents (t_data u) (t_nodes u) UNIV 0 v"
    by (rule represents_mono(1) [OF u(4)]) simp
  ultimately show ?thesis
    using u(2) t0 by (auto simp: parses_def tree_inv_def)
qed

end
