(* ===== verification/Ieee754.thy ===== *)
theory Ieee754
  imports Mc_Prelude
begin

text \<open>
  The floating-point conversions of the C language that the sources use, on bit patterns: integers
  to \<open>double\<close> and \<open>float\<close>, \<open>float\<close> to \<open>double\<close> and back. Rounding is to the nearest, ties to even,
  which is the mode the program runs in.
\<close>

section \<open>Rounding a dyadic number\<close>

text \<open>\<open>shift_round m s\<close> is \<open>m\<close> divided by \<open>2 ^ s\<close>, rounded to the nearest integer, ties to even.\<close>

definition shift_round :: "nat \<Rightarrow> nat \<Rightarrow> nat" where
  "shift_round m s =
     (let q = m div 2 ^ s; r = m mod 2 ^ s in
      if 2 * r < 2 ^ s then q else if 2 ^ s < 2 * r then q + 1 else if even q then q else q + 1)"

fun bit_length :: "nat \<Rightarrow> nat" where
  "bit_length n = (if n = 0 then 0 else Suc (bit_length (n div 2)))"

declare bit_length.simps [simp del]

text \<open>
  The encoding of \<open>m * 2 ^ e\<close> with \<open>mb\<close> mantissa bits and \<open>eb\<close> exponent bits, without the sign. The
  exponent of the last place is that of the leading bit less \<open>mb\<close>, or the subnormal one if that
  is larger; adding the rounded mantissa to the shifted exponent field lets a carry move into the
  exponent, up to infinity.
\<close>

definition fp_encode :: "nat \<Rightarrow> nat \<Rightarrow> nat \<Rightarrow> int \<Rightarrow> nat" where
  "fp_encode mb eb m e =
     (if m = 0 then 0
      else
        let bias = 2 ^ (eb - 1) - 1;
            q = max (e + int (bit_length m) - 1 - int mb) (1 - bias - int mb);
            m' = (if q \<le> e then m * 2 ^ nat (e - q) else shift_round m (nat (q - e)));
            bits = nat (q + int mb + bias - 1) * 2 ^ mb + m'
        in min bits ((2 ^ eb - 1) * 2 ^ mb))"

definition fp_sign :: "nat \<Rightarrow> nat \<Rightarrow> bool \<Rightarrow> nat" where
  "fp_sign mb eb neg = (if neg then 2 ^ (mb + eb) else 0)"

section \<open>Conversions\<close>

definition double_of_int :: "int \<Rightarrow> u64" where
  "double_of_int i = of_nat (fp_sign 52 11 (i < 0) + fp_encode 52 11 (nat \<bar>i\<bar>) 0)"

definition float_of_int :: "int \<Rightarrow> u32" where
  "float_of_int i = of_nat (fp_sign 23 8 (i < 0) + fp_encode 23 8 (nat \<bar>i\<bar>) 0)"

text \<open>Mantissa and exponent of a finite pattern.\<close>

definition fp_mantissa :: "nat \<Rightarrow> nat \<Rightarrow> nat \<Rightarrow> nat" where
  "fp_mantissa mb eb bits =
     (if bits div 2 ^ mb mod 2 ^ eb = 0 then bits mod 2 ^ mb else 2 ^ mb + bits mod 2 ^ mb)"

definition fp_exponent :: "nat \<Rightarrow> nat \<Rightarrow> nat \<Rightarrow> int" where
  "fp_exponent mb eb bits = int (max 1 (bits div 2 ^ mb mod 2 ^ eb)) - (2 ^ (eb - 1) - 1) - int mb"

text \<open>
  Infinities keep their sign; a NaN keeps its sign and the top of its payload and becomes quiet.
\<close>

definition fp_special :: "nat \<Rightarrow> nat \<Rightarrow> nat \<Rightarrow> bool" where
  "fp_special mb eb bits \<longleftrightarrow> bits div 2 ^ mb mod 2 ^ eb = 2 ^ eb - 1"

definition double_of_float :: "u32 \<Rightarrow> u64" where
  "double_of_float f =
     (let b = unat f; neg = 2 ^ 31 \<le> b; frac = b mod 2 ^ 23 in
      of_nat (fp_sign 52 11 neg +
        (if fp_special 23 8 b
         then 2047 * 2 ^ 52 + (if frac = 0 then 0 else frac * 2 ^ 29 mod 2 ^ 51 + 2 ^ 51)
         else fp_encode 52 11 (fp_mantissa 23 8 b) (fp_exponent 23 8 b))))"

definition float_of_double :: "u64 \<Rightarrow> u32" where
  "float_of_double d =
     (let b = unat d; neg = 2 ^ 63 \<le> b; frac = b mod 2 ^ 52 in
      of_nat (fp_sign 23 8 neg +
        (if fp_special 52 11 b
         then 255 * 2 ^ 23 + (if frac = 0 then 0 else frac div 2 ^ 29 mod 2 ^ 22 + 2 ^ 22)
         else fp_encode 23 8 (fp_mantissa 52 11 b) (fp_exponent 52 11 b))))"

section \<open>Small integers convert exactly\<close>

text \<open>The integer a finite double stands for, when it is one.\<close>

definition int_of_double :: "u64 \<Rightarrow> int" where
  "int_of_double d =
     (let b = unat d; m = fp_mantissa 52 11 b; e = fp_exponent 52 11 b;
          v = (if 0 \<le> e then m * 2 ^ nat e else m div 2 ^ nat (- e))
      in if 2 ^ 63 \<le> b then - int v else int v)"

lemma bit_length_bounds: "0 < n \<Longrightarrow> 2 ^ (bit_length n - 1) \<le> n \<and> n < 2 ^ bit_length n \<and> 0 < bit_length n"
proof (induction n rule: bit_length.induct)
  case (1 n)
  show ?case
  proof (cases "n = 1")
    case False
    with 1 have n: "0 < n div 2" "n \<noteq> 0" by auto
    with 1 have IH: "2 ^ (bit_length (n div 2) - 1) \<le> n div 2" "n div 2 < 2 ^ bit_length (n div 2)"
      "0 < bit_length (n div 2)" by auto
    then obtain k where k: "bit_length (n div 2) = Suc k"
      by (cases "bit_length (n div 2)") auto
    have "bit_length n = Suc (Suc k)"
      using n(2) k by (subst bit_length.simps) simp
    with IH k show ?thesis by auto
  qed (simp add: bit_length.simps)
qed

lemma encode_small:
  assumes "0 < n" "n < 2 ^ 53"
  defines "L \<equiv> bit_length n"
  shows "0 < L" "L \<le> 53" "2 ^ 52 \<le> n * 2 ^ (53 - L)" "n * 2 ^ (53 - L) < 2 ^ 53"
    "fp_encode 52 11 n 0 = (L + 1022) * 2 ^ 52 + (n * 2 ^ (53 - L) - 2 ^ 52)"
proof -
  have L: "2 ^ (L - 1) \<le> n" "n < 2 ^ L" "0 < L"
    using bit_length_bounds [OF assms(1)] unfolding L_def by auto
  show "0 < L" by (rule L(3))
  have "(2::nat) ^ (L - 1) < 2 ^ 53"
    using L(1) assms(2) by (rule le_less_trans)
  then have "L - 1 < 53"
    by (rule power_less_imp_less_exp [rotated]) simp
  then show le: "L \<le> 53" by simp
  have "2 ^ (L - 1) * 2 ^ (53 - L) \<le> n * 2 ^ (53 - L)" "n * 2 ^ (53 - L) < 2 ^ L * 2 ^ (53 - L)"
    using L by simp_all
  moreover have "(L - 1) + (53 - L) = 52" "L + (53 - L) = 53"
    using L(3) le by simp_all
  ultimately show m: "2 ^ 52 \<le> n * 2 ^ (53 - L)" "n * 2 ^ (53 - L) < 2 ^ 53"
    unfolding power_add [symmetric] by simp_all
  define m where "m = n * 2 ^ (53 - L)"
  have "fp_encode 52 11 n 0 = min (nat (int L + 1021) * 2 ^ 52 + m) (2047 * 2 ^ 52)"
    using assms(1) le L(3) unfolding fp_encode_def m_def L_def [symmetric]
    by (simp add: Let_def max_def nat_diff_distrib of_nat_diff)
  also have "nat (int L + 1021) = L + 1021" by simp
  also have "(L + 1021) * 2 ^ 52 + m = (L + 1022) * 2 ^ 52 + (m - 2 ^ 52)"
    using m(1) unfolding m_def [symmetric] by (simp add: algebra_simps)
  also have "min \<dots> (2047 * 2 ^ 52) = (L + 1022) * 2 ^ 52 + (m - 2 ^ 52)"
  proof -
    have "(L + 1022) * 2 ^ 52 + (m - 2 ^ 52) < (L + 1022) * 2 ^ 52 + 2 ^ 52"
      using m unfolding m_def [symmetric] by simp
    also have "\<dots> = (L + 1023) * 2 ^ 52" by simp
    also have "\<dots> \<le> 2047 * 2 ^ 52" using le by simp
    finally show ?thesis by simp
  qed
  finally show "fp_encode 52 11 n 0 = (L + 1022) * 2 ^ 52 + (n * 2 ^ (53 - L) - 2 ^ 52)"
    by (simp add: m_def)
qed

lemma decode_fields:
  assumes "f < 2 ^ 52" "0 < ex" "ex < 2047"
  shows "fp_mantissa 52 11 (fp_sign 52 11 neg + (ex * 2 ^ 52 + f)) = 2 ^ 52 + f"
    "fp_exponent 52 11 (fp_sign 52 11 neg + (ex * 2 ^ 52 + f)) = int ex - 1075"
    "2 ^ 63 \<le> fp_sign 52 11 neg + (ex * 2 ^ 52 + f) \<longleftrightarrow> neg"
    "fp_sign 52 11 neg + (ex * 2 ^ 52 + f) < 2 ^ 64"
proof -
  let ?b = "fp_sign 52 11 neg + (ex * 2 ^ 52 + f)"
  have b: "?b = (if neg then 2048 + ex else ex) * 2 ^ 52 + f"
    by (simp add: fp_sign_def algebra_simps)
  have "?b div 2 ^ 52 = (if neg then 2048 + ex else ex)" "?b mod 2 ^ 52 = f"
    unfolding b using assms(1) by simp_all
  moreover have "(if neg then 2048 + ex else ex) mod 2 ^ 11 = ex"
    using assms(3) by simp
  ultimately show "fp_mantissa 52 11 ?b = 2 ^ 52 + f" "fp_exponent 52 11 ?b = int ex - 1075"
    using assms(2) by (simp_all add: fp_mantissa_def fp_exponent_def max_def)
  have "ex * 2 ^ 52 + f < 2047 * 2 ^ 52"
    using assms(1,3) by simp
  then show "2 ^ 63 \<le> ?b \<longleftrightarrow> neg" "?b < 2 ^ 64"
    by (auto simp: fp_sign_def)
qed

lemma unat_small: "x < 2 ^ 64 \<Longrightarrow> unat (of_nat x :: u64) = x"
  by (simp add: unat_of_nat)

lemma int_double_exact:
  assumes "\<bar>i\<bar> < 2 ^ 53"
  shows "int_of_double (double_of_int i) = i"
proof (cases "i = 0")
  case True
  then show ?thesis
    by (simp add: double_of_int_def int_of_double_def fp_encode_def fp_sign_def fp_mantissa_def fp_exponent_def)
next
  case False
  define n where "n = nat \<bar>i\<bar>"
  define L where "L = bit_length n"
  define m where "m = n * 2 ^ (53 - L)"
  have "0 < n" "n < 2 ^ 53"
    using False assms by (simp_all add: n_def nat_less_iff)
  note e = encode_small [OF this, folded L_def, folded m_def]
  let ?b = "fp_sign 52 11 (i < 0) + ((L + 1022) * 2 ^ 52 + (m - 2 ^ 52))"
  note d = decode_fields [where ex = "L + 1022" and f = "m - 2 ^ 52" and neg = "i < 0"]
  have "m - 2 ^ 52 < 2 ^ 52" "0 < L + 1022" "L + 1022 < 2047"
    using e by simp_all
  note d = d [OF this]
  have b: "unat (double_of_int i) = ?b"
    unfolding double_of_int_def n_def [symmetric] e(5) by (rule unat_small [OF d(4)])
  have v: "fp_mantissa 52 11 ?b = m" "fp_exponent 52 11 ?b = int L - 53"
    using d(1,2) e(3) by simp_all
  have val: "(if 0 \<le> int L - 53 then m * 2 ^ nat (int L - 53) else m div 2 ^ nat (- (int L - 53))) = n"
    using e(2) by (cases "L = 53") (simp_all add: m_def nat_diff_distrib)
  show ?thesis
    unfolding int_of_double_def b Let_def v val d(3) by (simp add: n_def)
qed

end
