(* ===== verification/Mpack_Node.thy ===== *)
theory Mpack_Node
  imports Mpack_Tree Ieee754
begin

text \<open>
  The accessors of \<open>mpack-node\<close>: what a client of a parsed tree calls. A node handle
  (\<open>mpack_node_t\<close>) pairs the tree with the address of a node; the tree keeps two nodes of its own,
  the nil node and the missing node, which failed and optional lookups return. Every accessor
  returns the tree, whose error flag it may set, and its result. A pointer to payload bytes is an
  offset into the message; a null pointer is \<open>None\<close>. Only a tree parsed with \<open>MPACK_EXTENSIONS\<close>
  has nodes of type ext, so the tests for that type need no build option.
\<close>

section \<open>Handles\<close>

datatype mpack_node = N_at nat | N_nil | N_missing

fun node_data :: "mpack_tree \<Rightarrow> mpack_node \<Rightarrow> mpack_node_data" where
  "node_data t (N_at i) = t_nodes t ! i"
| "node_data t N_nil = \<lparr>n_type = mpack_type_nil, n_len = 0, n_value = NV_none\<rparr>"
| "node_data t N_missing = \<lparr>n_type = mpack_type_missing, n_len = 0, n_value = NV_none\<rparr>"

abbreviation node_type :: "mpack_tree \<Rightarrow> mpack_node \<Rightarrow> mpack_type" where
  "node_type t n \<equiv> n_type (node_data t n)"

abbreviation node_len :: "mpack_tree \<Rightarrow> mpack_node \<Rightarrow> u32" where
  "node_len t n \<equiv> n_len (node_data t n)"

text \<open>Reading a member of the value union; the type of the node says which one was stored.\<close>

fun value_b :: "node_value \<Rightarrow> bool" where
  "value_b (NV_b b) = b"
| "value_b _ = False"

fun value_f :: "node_value \<Rightarrow> u32" where
  "value_f (NV_f f) = f"
| "value_f _ = 0"

fun value_d :: "node_value \<Rightarrow> u64" where
  "value_d (NV_d d) = d"
| "value_d _ = 0"

fun value_i :: "node_value \<Rightarrow> u64" where
  "value_i (NV_i i) = i"
| "value_i _ = 0"

fun value_u :: "node_value \<Rightarrow> u64" where
  "value_u (NV_u u) = u"
| "value_u _ = 0"

fun value_offset :: "node_value \<Rightarrow> nat" where
  "value_offset (NV_offset off) = off"
| "value_offset _ = 0"

fun value_children :: "node_value \<Rightarrow> nat" where
  "value_children (NV_children c) = c"
| "value_children _ = 0"

abbreviation node_i :: "mpack_tree \<Rightarrow> mpack_node \<Rightarrow> u64" where
  "node_i t n \<equiv> value_i (n_value (node_data t n))"

abbreviation node_u :: "mpack_tree \<Rightarrow> mpack_node \<Rightarrow> u64" where
  "node_u t n \<equiv> value_u (n_value (node_data t n))"

definition mpack_node_child :: "mpack_tree \<Rightarrow> mpack_node \<Rightarrow> nat \<Rightarrow> mpack_node" where
  "mpack_node_child t n child = N_at (value_children (n_value (node_data t n)) + child)"

definition mpack_node_error :: "mpack_tree \<Rightarrow> mpack_error" where
  "mpack_node_error t = t_error t"

definition mpack_node_flag_error :: "mpack_tree \<Rightarrow> mpack_error \<Rightarrow> mpack_tree" where
  "mpack_node_flag_error t err = mpack_tree_flag_error t err"

definition mpack_node_data_unchecked :: "mpack_tree \<Rightarrow> mpack_node \<Rightarrow> nat" where
  "mpack_node_data_unchecked t n = value_offset (n_value (node_data t n))"

text \<open>The bytes a pointer into the message shows, and the whole payload of a node.\<close>

definition tree_bytes :: "mpack_tree \<Rightarrow> nat \<Rightarrow> nat \<Rightarrow> u8 list" where
  "tree_bytes t p len = take len (drop p (t_data t))"

definition node_bytes :: "mpack_tree \<Rightarrow> mpack_node \<Rightarrow> u8 list" where
  "node_bytes t n = tree_bytes t (mpack_node_data_unchecked t n) (unat (node_len t n))"

text \<open>The extension type is in the byte before the payload.\<close>

definition mpack_node_exttype_unchecked :: "mpack_tree \<Rightarrow> mpack_node \<Rightarrow> u8" where
  "mpack_node_exttype_unchecked t n = t_data t ! (mpack_node_data_unchecked t n - 1)"

definition mpack_tree_root :: "mpack_tree \<Rightarrow> mpack_tree \<times> mpack_node" where
  "mpack_tree_root t =
     (if t_error t \<noteq> mpack_ok then (t, N_nil)
      else if p_state t \<noteq> parsed then (mpack_tree_flag_error t mpack_error_bug, N_nil)
      else (t, N_at (t_root t)))"

definition mpack_node_tag :: "mpack_tree \<Rightarrow> mpack_node \<Rightarrow> mpack_tag" where
  "mpack_node_tag t n =
     (if mpack_node_error t \<noteq> mpack_ok then Tag_nil
      else let v = n_value (node_data t n); len = node_len t n in
        case node_type t n of
          mpack_type_missing \<Rightarrow> Tag_missing
        | mpack_type_nil \<Rightarrow> Tag_nil
        | mpack_type_bool \<Rightarrow> Tag_bool (value_b v)
        | mpack_type_float \<Rightarrow> Tag_float (value_f v)
        | mpack_type_double \<Rightarrow> Tag_double (value_d v)
        | mpack_type_int \<Rightarrow> Tag_int (value_i v)
        | mpack_type_uint \<Rightarrow> Tag_uint (value_u v)
        | mpack_type_str \<Rightarrow> Tag_str len
        | mpack_type_bin \<Rightarrow> Tag_bin len
        | mpack_type_ext \<Rightarrow> Tag_ext (mpack_node_exttype_unchecked t n) len
        | mpack_type_array \<Rightarrow> Tag_array len
        | mpack_type_map \<Rightarrow> Tag_map len)"

section \<open>Simple values\<close>

definition mpack_node_type :: "mpack_tree \<Rightarrow> mpack_node \<Rightarrow> mpack_type" where
  "mpack_node_type t n = (if mpack_node_error t \<noteq> mpack_ok then mpack_type_nil else node_type t n)"

definition mpack_node_is_nil :: "mpack_tree \<Rightarrow> mpack_node \<Rightarrow> bool" where
  "mpack_node_is_nil t n = (if mpack_node_error t \<noteq> mpack_ok then True else node_type t n = mpack_type_nil)"

definition mpack_node_is_missing :: "mpack_tree \<Rightarrow> mpack_node \<Rightarrow> bool" where
  "mpack_node_is_missing t n =
     (if mpack_node_error t \<noteq> mpack_ok then False else node_type t n = mpack_type_missing)"

definition mpack_node_nil :: "mpack_tree \<Rightarrow> mpack_node \<Rightarrow> mpack_tree" where
  "mpack_node_nil t n =
     (if mpack_node_error t \<noteq> mpack_ok then t
      else if node_type t n \<noteq> mpack_type_nil then mpack_node_flag_error t mpack_error_type else t)"

definition mpack_node_missing :: "mpack_tree \<Rightarrow> mpack_node \<Rightarrow> mpack_tree" where
  "mpack_node_missing t n =
     (if mpack_node_error t \<noteq> mpack_ok then t
      else if node_type t n \<noteq> mpack_type_missing then mpack_node_flag_error t mpack_error_type else t)"

definition mpack_node_bool :: "mpack_tree \<Rightarrow> mpack_node \<Rightarrow> mpack_tree \<times> bool" where
  "mpack_node_bool t n =
     (if mpack_node_error t \<noteq> mpack_ok then (t, False)
      else if node_type t n = mpack_type_bool then (t, value_b (n_value (node_data t n)))
      else (mpack_node_flag_error t mpack_error_type, False))"

definition mpack_node_true :: "mpack_tree \<Rightarrow> mpack_node \<Rightarrow> mpack_tree" where
  "mpack_node_true t n =
     (let (t, b) = mpack_node_bool t n in if b \<noteq> True then mpack_node_flag_error t mpack_error_type else t)"

definition mpack_node_false :: "mpack_tree \<Rightarrow> mpack_node \<Rightarrow> mpack_tree" where
  "mpack_node_false t n =
     (let (t, b) = mpack_node_bool t n in if b \<noteq> False then mpack_node_flag_error t mpack_error_type else t)"

section \<open>Integers\<close>

text \<open>Narrowing keeps the low bits; a signed result is the two's complement reading of the word.\<close>

definition mpack_node_u8 :: "mpack_tree \<Rightarrow> mpack_node \<Rightarrow> mpack_tree \<times> u8" where
  "mpack_node_u8 t n =
     (if mpack_node_error t \<noteq> mpack_ok then (t, 0)
      else if node_type t n = mpack_type_uint \<and> node_u t n \<le> 0xFF then (t, ucast (node_u t n))
      else if node_type t n = mpack_type_int \<and> 0 \<le> sint (node_i t n) \<and> sint (node_i t n) \<le> 0xFF
      then (t, ucast (node_i t n))
      else (mpack_node_flag_error t mpack_error_type, 0))"

definition mpack_node_i8 :: "mpack_tree \<Rightarrow> mpack_node \<Rightarrow> mpack_tree \<times> u8" where
  "mpack_node_i8 t n =
     (if mpack_node_error t \<noteq> mpack_ok then (t, 0)
      else if node_type t n = mpack_type_uint \<and> node_u t n \<le> 0x7F then (t, ucast (node_u t n))
      else if node_type t n = mpack_type_int \<and> - 0x80 \<le> sint (node_i t n) \<and> sint (node_i t n) \<le> 0x7F
      then (t, ucast (node_i t n))
      else (mpack_node_flag_error t mpack_error_type, 0))"

definition mpack_node_u16 :: "mpack_tree \<Rightarrow> mpack_node \<Rightarrow> mpack_tree \<times> u16" where
  "mpack_node_u16 t n =
     (if mpack_node_error t \<noteq> mpack_ok then (t, 0)
      else if node_type t n = mpack_type_uint \<and> node_u t n \<le> 0xFFFF then (t, ucast (node_u t n))
      else if node_type t n = mpack_type_int \<and> 0 \<le> sint (node_i t n) \<and> sint (node_i t n) \<le> 0xFFFF
      then (t, ucast (node_i t n))
      else (mpack_node_flag_error t mpack_error_type, 0))"

definition mpack_node_i16 :: "mpack_tree \<Rightarrow> mpack_node \<Rightarrow> mpack_tree \<times> u16" where
  "mpack_node_i16 t n =
     (if mpack_node_error t \<noteq> mpack_ok then (t, 0)
      else if node_type t n = mpack_type_uint \<and> node_u t n \<le> 0x7FFF then (t, ucast (node_u t n))
      else if node_type t n = mpack_type_int \<and> - 0x8000 \<le> sint (node_i t n) \<and> sint (node_i t n) \<le> 0x7FFF
      then (t, ucast (node_i t n))
      else (mpack_node_flag_error t mpack_error_type, 0))"

definition mpack_node_u32 :: "mpack_tree \<Rightarrow> mpack_node \<Rightarrow> mpack_tree \<times> u32" where
  "mpack_node_u32 t n =
     (if mpack_node_error t \<noteq> mpack_ok then (t, 0)
      else if node_type t n = mpack_type_uint \<and> node_u t n \<le> 0xFFFFFFFF then (t, ucast (node_u t n))
      else if node_type t n = mpack_type_int \<and> 0 \<le> sint (node_i t n) \<and> sint (node_i t n) \<le> 0xFFFFFFFF
      then (t, ucast (node_i t n))
      else (mpack_node_flag_error t mpack_error_type, 0))"

definition mpack_node_i32 :: "mpack_tree \<Rightarrow> mpack_node \<Rightarrow> mpack_tree \<times> u32" where
  "mpack_node_i32 t n =
     (if mpack_node_error t \<noteq> mpack_ok then (t, 0)
      else if node_type t n = mpack_type_uint \<and> node_u t n \<le> 0x7FFFFFFF then (t, ucast (node_u t n))
      else if node_type t n = mpack_type_int \<and> - 0x80000000 \<le> sint (node_i t n) \<and> sint (node_i t n) \<le> 0x7FFFFFFF
      then (t, ucast (node_i t n))
      else (mpack_node_flag_error t mpack_error_type, 0))"

definition mpack_node_u64 :: "mpack_tree \<Rightarrow> mpack_node \<Rightarrow> mpack_tree \<times> u64" where
  "mpack_node_u64 t n =
     (if mpack_node_error t \<noteq> mpack_ok then (t, 0)
      else if node_type t n = mpack_type_uint then (t, node_u t n)
      else if node_type t n = mpack_type_int \<and> 0 \<le> sint (node_i t n) then (t, node_i t n)
      else (mpack_node_flag_error t mpack_error_type, 0))"

definition mpack_node_i64 :: "mpack_tree \<Rightarrow> mpack_node \<Rightarrow> mpack_tree \<times> u64" where
  "mpack_node_i64 t n =
     (if mpack_node_error t \<noteq> mpack_ok then (t, 0)
      else if node_type t n = mpack_type_uint \<and> node_u t n \<le> 0x7FFFFFFFFFFFFFFF then (t, node_u t n)
      else if node_type t n = mpack_type_int then (t, node_i t n)
      else (mpack_node_flag_error t mpack_error_type, 0))"

text \<open>\<open>int\<close> and \<open>unsigned int\<close> have four bytes, so the first return of each is taken.\<close>

definition mpack_node_uint :: "mpack_tree \<Rightarrow> mpack_node \<Rightarrow> mpack_tree \<times> u32" where
  "mpack_node_uint t n = mpack_node_u32 t n"

definition mpack_node_int :: "mpack_tree \<Rightarrow> mpack_node \<Rightarrow> mpack_tree \<times> u32" where
  "mpack_node_int t n = mpack_node_i32 t n"

section \<open>Floating point\<close>

definition mpack_node_float :: "mpack_tree \<Rightarrow> mpack_node \<Rightarrow> mpack_tree \<times> u32" where
  "mpack_node_float t n =
     (if mpack_node_error t \<noteq> mpack_ok then (t, 0)
      else if node_type t n = mpack_type_uint then (t, float_of_int (uint (node_u t n)))
      else if node_type t n = mpack_type_int then (t, float_of_int (sint (node_i t n)))
      else if node_type t n = mpack_type_float then (t, value_f (n_value (node_data t n)))
      else if node_type t n = mpack_type_double then (t, float_of_double (value_d (n_value (node_data t n))))
      else (mpack_node_flag_error t mpack_error_type, 0))"

definition mpack_node_double :: "mpack_tree \<Rightarrow> mpack_node \<Rightarrow> mpack_tree \<times> u64" where
  "mpack_node_double t n =
     (if mpack_node_error t \<noteq> mpack_ok then (t, 0)
      else if node_type t n = mpack_type_uint then (t, double_of_int (uint (node_u t n)))
      else if node_type t n = mpack_type_int then (t, double_of_int (sint (node_i t n)))
      else if node_type t n = mpack_type_float then (t, double_of_float (value_f (n_value (node_data t n))))
      else if node_type t n = mpack_type_double then (t, value_d (n_value (node_data t n)))
      else (mpack_node_flag_error t mpack_error_type, 0))"

definition mpack_node_float_strict :: "mpack_tree \<Rightarrow> mpack_node \<Rightarrow> mpack_tree \<times> u32" where
  "mpack_node_float_strict t n =
     (if mpack_node_error t \<noteq> mpack_ok then (t, 0)
      else if node_type t n = mpack_type_float then (t, value_f (n_value (node_data t n)))
      else (mpack_node_flag_error t mpack_error_type, 0))"

definition mpack_node_double_strict :: "mpack_tree \<Rightarrow> mpack_node \<Rightarrow> mpack_tree \<times> u64" where
  "mpack_node_double_strict t n =
     (if mpack_node_error t \<noteq> mpack_ok then (t, 0)
      else if node_type t n = mpack_type_float then (t, double_of_float (value_f (n_value (node_data t n))))
      else if node_type t n = mpack_type_double then (t, value_d (n_value (node_data t n)))
      else (mpack_node_flag_error t mpack_error_type, 0))"

section \<open>Strings and binary data\<close>

definition data_type :: "mpack_type \<Rightarrow> bool" where
  "data_type ty \<longleftrightarrow> ty = mpack_type_str \<or> ty = mpack_type_bin \<or> ty = mpack_type_ext"

definition mpack_node_exttype :: "mpack_tree \<Rightarrow> mpack_node \<Rightarrow> mpack_tree \<times> u8" where
  "mpack_node_exttype t n =
     (if mpack_node_error t \<noteq> mpack_ok then (t, 0)
      else if node_type t n = mpack_type_ext then (t, mpack_node_exttype_unchecked t n)
      else (mpack_node_flag_error t mpack_error_type, 0))"

definition mpack_node_data_len :: "mpack_tree \<Rightarrow> mpack_node \<Rightarrow> mpack_tree \<times> u32" where
  "mpack_node_data_len t n =
     (if mpack_node_error t \<noteq> mpack_ok then (t, 0)
      else if data_type (node_type t n) then (t, node_len t n)
      else (mpack_node_flag_error t mpack_error_type, 0))"

definition mpack_node_strlen :: "mpack_tree \<Rightarrow> mpack_node \<Rightarrow> mpack_tree \<times> nat" where
  "mpack_node_strlen t n =
     (if mpack_node_error t \<noteq> mpack_ok then (t, 0)
      else if node_type t n = mpack_type_str then (t, unat (node_len t n))
      else (mpack_node_flag_error t mpack_error_type, 0))"

definition mpack_node_str :: "mpack_tree \<Rightarrow> mpack_node \<Rightarrow> mpack_tree \<times> nat option" where
  "mpack_node_str t n =
     (if mpack_node_error t \<noteq> mpack_ok then (t, None)
      else if node_type t n = mpack_type_str then (t, Some (mpack_node_data_unchecked t n))
      else (mpack_node_flag_error t mpack_error_type, None))"

definition mpack_node_data_ptr :: "mpack_tree \<Rightarrow> mpack_node \<Rightarrow> mpack_tree \<times> nat option" where
  "mpack_node_data_ptr t n =
     (if mpack_node_error t \<noteq> mpack_ok then (t, None)
      else if data_type (node_type t n) then (t, Some (mpack_node_data_unchecked t n))
      else (mpack_node_flag_error t mpack_error_type, None))"

definition mpack_node_bin_data :: "mpack_tree \<Rightarrow> mpack_node \<Rightarrow> mpack_tree \<times> nat option" where
  "mpack_node_bin_data t n =
     (if mpack_node_error t \<noteq> mpack_ok then (t, None)
      else if node_type t n = mpack_type_bin then (t, Some (mpack_node_data_unchecked t n))
      else (mpack_node_flag_error t mpack_error_type, None))"

definition mpack_node_bin_size :: "mpack_tree \<Rightarrow> mpack_node \<Rightarrow> mpack_tree \<times> nat" where
  "mpack_node_bin_size t n =
     (if mpack_node_error t \<noteq> mpack_ok then (t, 0)
      else if node_type t n = mpack_type_bin then (t, unat (node_len t n))
      else (mpack_node_flag_error t mpack_error_type, 0))"

definition mpack_node_check_utf8 :: "mpack_tree \<Rightarrow> mpack_node \<Rightarrow> mpack_tree" where
  "mpack_node_check_utf8 t n =
     (if mpack_node_error t \<noteq> mpack_ok then t
      else if node_type t n \<noteq> mpack_type_str \<or> \<not> mpack_utf8_check (node_bytes t n)
      then mpack_node_flag_error t mpack_error_type else t)"

definition mpack_node_check_utf8_cstr :: "mpack_tree \<Rightarrow> mpack_node \<Rightarrow> mpack_tree" where
  "mpack_node_check_utf8_cstr t n =
     (if mpack_node_error t \<noteq> mpack_ok then t
      else if node_type t n \<noteq> mpack_type_str \<or> \<not> mpack_utf8_check_no_null (node_bytes t n)
      then mpack_node_flag_error t mpack_error_type else t)"

text \<open>
  The copying accessors take the caller's buffer, whose size is its length, and return what it
  holds afterwards.
\<close>

definition mpack_node_copy_data :: "mpack_tree \<Rightarrow> mpack_node \<Rightarrow> u8 list \<Rightarrow> mpack_tree \<times> u8 list \<times> nat" where
  "mpack_node_copy_data t n buf =
     (if mpack_node_error t \<noteq> mpack_ok then (t, buf, 0)
      else if \<not> data_type (node_type t n) then (mpack_node_flag_error t mpack_error_type, buf, 0)
      else if length buf < unat (node_len t n) then (mpack_node_flag_error t mpack_error_too_big, buf, 0)
      else (t, mem_put buf 0 (node_bytes t n), unat (node_len t n)))"

definition mpack_node_copy_utf8 :: "mpack_tree \<Rightarrow> mpack_node \<Rightarrow> u8 list \<Rightarrow> mpack_tree \<times> u8 list \<times> nat" where
  "mpack_node_copy_utf8 t n buf =
     (if mpack_node_error t \<noteq> mpack_ok then (t, buf, 0)
      else if node_type t n \<noteq> mpack_type_str then (mpack_node_flag_error t mpack_error_type, buf, 0)
      else if length buf < unat (node_len t n) then (mpack_node_flag_error t mpack_error_too_big, buf, 0)
      else if \<not> mpack_utf8_check (node_bytes t n) then (mpack_node_flag_error t mpack_error_type, buf, 0)
      else (t, mem_put buf 0 (node_bytes t n), unat (node_len t n)))"

definition mpack_node_copy_cstr :: "mpack_tree \<Rightarrow> mpack_node \<Rightarrow> u8 list \<Rightarrow> mpack_tree \<times> u8 list" where
  "mpack_node_copy_cstr t n buf =
     (if mpack_node_error t \<noteq> mpack_ok then (t, mem_put buf 0 [0])
      else if node_type t n \<noteq> mpack_type_str then (mpack_node_flag_error t mpack_error_type, mem_put buf 0 [0])
      else if length buf - 1 < unat (node_len t n)
      then (mpack_node_flag_error t mpack_error_too_big, mem_put buf 0 [0])
      else if \<not> mpack_str_check_no_null (node_bytes t n)
      then (mpack_node_flag_error t mpack_error_type, mem_put buf 0 [0])
      else (t, mem_put (mem_put buf 0 (node_bytes t n)) (unat (node_len t n)) [0]))"

definition mpack_node_copy_utf8_cstr :: "mpack_tree \<Rightarrow> mpack_node \<Rightarrow> u8 list \<Rightarrow> mpack_tree \<times> u8 list" where
  "mpack_node_copy_utf8_cstr t n buf =
     (if mpack_node_error t \<noteq> mpack_ok then (t, mem_put buf 0 [0])
      else if node_type t n \<noteq> mpack_type_str then (mpack_node_flag_error t mpack_error_type, mem_put buf 0 [0])
      else if length buf - 1 < unat (node_len t n)
      then (mpack_node_flag_error t mpack_error_too_big, mem_put buf 0 [0])
      else if \<not> mpack_utf8_check_no_null (node_bytes t n)
      then (mpack_node_flag_error t mpack_error_type, mem_put buf 0 [0])
      else (t, mem_put (mem_put buf 0 (node_bytes t n)) (unat (node_len t n)) [0]))"

text \<open>
  The allocating accessors return the size of the block they asked for and the bytes they stored
  from its start. The size of a C string is computed in the 32 bits of the length.
\<close>

definition mpack_node_data_alloc ::
  "(nat \<Rightarrow> bool) \<Rightarrow> mpack_tree \<Rightarrow> mpack_node \<Rightarrow> nat \<Rightarrow> mpack_tree \<times> (nat \<times> u8 list) option" where
  "mpack_node_data_alloc alloc t n maxlen =
     (if mpack_node_error t \<noteq> mpack_ok then (t, None)
      else if \<not> data_type (node_type t n) then (mpack_node_flag_error t mpack_error_type, None)
      else if maxlen < unat (node_len t n) then (mpack_node_flag_error t mpack_error_too_big, None)
      else if \<not> alloc (unat (node_len t n)) then (mpack_node_flag_error t mpack_error_memory, None)
      else (t, Some (unat (node_len t n), node_bytes t n)))"

definition mpack_node_cstr_alloc ::
  "(nat \<Rightarrow> bool) \<Rightarrow> mpack_tree \<Rightarrow> mpack_node \<Rightarrow> nat \<Rightarrow> mpack_tree \<times> (nat \<times> u8 list) option" where
  "mpack_node_cstr_alloc alloc t n maxlen =
     (if mpack_node_error t \<noteq> mpack_ok then (t, None)
      else if maxlen < 1 then (mpack_node_flag_error t mpack_error_bug, None)
      else if node_type t n \<noteq> mpack_type_str then (mpack_node_flag_error t mpack_error_type, None)
      else if maxlen - 1 < unat (node_len t n) then (mpack_node_flag_error t mpack_error_too_big, None)
      else if \<not> mpack_str_check_no_null (node_bytes t n) then (mpack_node_flag_error t mpack_error_type, None)
      else if \<not> alloc (unat (node_len t n + 1)) then (mpack_node_flag_error t mpack_error_memory, None)
      else (t, Some (unat (node_len t n + 1), node_bytes t n @ [0])))"

definition mpack_node_utf8_cstr_alloc ::
  "(nat \<Rightarrow> bool) \<Rightarrow> mpack_tree \<Rightarrow> mpack_node \<Rightarrow> nat \<Rightarrow> mpack_tree \<times> (nat \<times> u8 list) option" where
  "mpack_node_utf8_cstr_alloc alloc t n maxlen =
     (if mpack_node_error t \<noteq> mpack_ok then (t, None)
      else if maxlen < 1 then (mpack_node_flag_error t mpack_error_bug, None)
      else if node_type t n \<noteq> mpack_type_str then (mpack_node_flag_error t mpack_error_type, None)
      else if maxlen - 1 < unat (node_len t n) then (mpack_node_flag_error t mpack_error_too_big, None)
      else if \<not> mpack_utf8_check_no_null (node_bytes t n) then (mpack_node_flag_error t mpack_error_type, None)
      else if \<not> alloc (unat (node_len t n + 1)) then (mpack_node_flag_error t mpack_error_memory, None)
      else (t, Some (unat (node_len t n + 1), node_bytes t n @ [0])))"

definition mpack_node_timestamp :: "mpack_tree \<Rightarrow> mpack_node \<Rightarrow> mpack_tree \<times> u64 \<times> u32" where
  "mpack_node_timestamp t n =
     (let (t, exttype) = mpack_node_exttype t n in
      if exttype \<noteq> MPACK_EXTTYPE_TIMESTAMP then (mpack_node_flag_error t mpack_error_type, 0, 0)
      else
        let p = drop (mpack_node_data_unchecked t n) (t_data t); len = unat (node_len t n) in
        if len \<noteq> 4 \<and> len \<noteq> 8 \<and> len \<noteq> 12 then (mpack_tree_flag_error t mpack_error_invalid, 0, 0)
        else
          let (seconds, nanoseconds) =
              (if len = 4 then (ucast (mpack_load_u32 p), 0)
               else if len = 8 then
                 (mpack_load_u64 p AND (push_bit 34 1 - 1), ucast (drop_bit 34 (mpack_load_u64 p)))
               else (mpack_load_u64 (drop 4 p), mpack_load_u32 p))
          in if MPACK_TIMESTAMP_NANOSECONDS_MAX < nanoseconds
             then (mpack_tree_flag_error t mpack_error_invalid, 0, 0)
             else (t, seconds, nanoseconds))"

definition mpack_node_timestamp_seconds :: "mpack_tree \<Rightarrow> mpack_node \<Rightarrow> mpack_tree \<times> u64" where
  "mpack_node_timestamp_seconds t n = (let (t, s, _) = mpack_node_timestamp t n in (t, s))"

definition mpack_node_timestamp_nanoseconds :: "mpack_tree \<Rightarrow> mpack_node \<Rightarrow> mpack_tree \<times> u32" where
  "mpack_node_timestamp_nanoseconds t n = (let (t, _, ns) = mpack_node_timestamp t n in (t, ns))"

section \<open>Arrays and maps\<close>

definition mpack_node_array_length :: "mpack_tree \<Rightarrow> mpack_node \<Rightarrow> mpack_tree \<times> nat" where
  "mpack_node_array_length t n =
     (if mpack_node_error t \<noteq> mpack_ok then (t, 0)
      else if node_type t n \<noteq> mpack_type_array then (mpack_node_flag_error t mpack_error_type, 0)
      else (t, unat (node_len t n)))"

definition mpack_node_array_at :: "mpack_tree \<Rightarrow> mpack_node \<Rightarrow> nat \<Rightarrow> mpack_tree \<times> mpack_node" where
  "mpack_node_array_at t n index =
     (if mpack_node_error t \<noteq> mpack_ok then (t, N_nil)
      else if node_type t n \<noteq> mpack_type_array then (mpack_node_flag_error t mpack_error_type, N_nil)
      else if unat (node_len t n) \<le> index then (mpack_node_flag_error t mpack_error_data, N_nil)
      else (t, mpack_node_child t n index))"

definition mpack_node_map_count :: "mpack_tree \<Rightarrow> mpack_node \<Rightarrow> mpack_tree \<times> nat" where
  "mpack_node_map_count t n =
     (if mpack_node_error t \<noteq> mpack_ok then (t, 0)
      else if node_type t n \<noteq> mpack_type_map then (mpack_node_flag_error t mpack_error_type, 0)
      else (t, unat (node_len t n)))"

definition mpack_node_map_at :: "mpack_tree \<Rightarrow> mpack_node \<Rightarrow> nat \<Rightarrow> nat \<Rightarrow> mpack_tree \<times> mpack_node" where
  "mpack_node_map_at t n index off =
     (if mpack_node_error t \<noteq> mpack_ok then (t, N_nil)
      else if node_type t n \<noteq> mpack_type_map then (mpack_node_flag_error t mpack_error_type, N_nil)
      else if unat (node_len t n) \<le> index then (mpack_node_flag_error t mpack_error_data, N_nil)
      else (t, mpack_node_child t n (index * 2 + off)))"

definition mpack_node_map_key_at :: "mpack_tree \<Rightarrow> mpack_node \<Rightarrow> nat \<Rightarrow> mpack_tree \<times> mpack_node" where
  "mpack_node_map_key_at t n index = mpack_node_map_at t n index 0"

definition mpack_node_map_value_at :: "mpack_tree \<Rightarrow> mpack_node \<Rightarrow> nat \<Rightarrow> mpack_tree \<times> mpack_node" where
  "mpack_node_map_value_at t n index = mpack_node_map_at t n index 1"

text \<open>
  The three lookups run the same loop over the keys with their own test: a second match is an
  error, and the value after the only match is the result. \<open>map_lookup\<close> is that loop from pair \<open>i\<close>
  on, with the pairs left as its last argument.
\<close>

fun map_lookup ::
  "(mpack_node \<Rightarrow> bool) \<Rightarrow> mpack_tree \<Rightarrow> mpack_node \<Rightarrow> mpack_node option \<Rightarrow> nat \<Rightarrow> nat \<Rightarrow> mpack_tree \<times> mpack_node option"
where
  "map_lookup matches t n found i 0 = (t, found)"
| "map_lookup matches t n found i (Suc left) =
     (if matches (mpack_node_child t n (i * 2)) then
        if found \<noteq> None then (mpack_node_flag_error t mpack_error_data, None)
        else map_lookup matches t n (Some (mpack_node_child t n (i * 2 + 1))) (i + 1) left
      else map_lookup matches t n found (i + 1) left)"

definition mpack_node_map_int_impl :: "mpack_tree \<Rightarrow> mpack_node \<Rightarrow> u64 \<Rightarrow> mpack_tree \<times> mpack_node option" where
  "mpack_node_map_int_impl t n num =
     (if mpack_node_error t \<noteq> mpack_ok then (t, None)
      else if node_type t n \<noteq> mpack_type_map then (mpack_node_flag_error t mpack_error_type, None)
      else map_lookup (\<lambda>key. node_type t key = mpack_type_int \<and> node_i t key = num \<or>
          node_type t key = mpack_type_uint \<and> 0 \<le> sint num \<and> node_u t key = num)
        t n None 0 (unat (node_len t n)))"

definition mpack_node_map_uint_impl :: "mpack_tree \<Rightarrow> mpack_node \<Rightarrow> u64 \<Rightarrow> mpack_tree \<times> mpack_node option" where
  "mpack_node_map_uint_impl t n num =
     (if mpack_node_error t \<noteq> mpack_ok then (t, None)
      else if node_type t n \<noteq> mpack_type_map then (mpack_node_flag_error t mpack_error_type, None)
      else map_lookup (\<lambda>key. node_type t key = mpack_type_uint \<and> node_u t key = num \<or>
          node_type t key = mpack_type_int \<and> 0 \<le> sint (node_i t key) \<and> node_i t key = num)
        t n None 0 (unat (node_len t n)))"

definition mpack_node_map_str_impl :: "mpack_tree \<Rightarrow> mpack_node \<Rightarrow> u8 list \<Rightarrow> mpack_tree \<times> mpack_node option" where
  "mpack_node_map_str_impl t n str =
     (if mpack_node_error t \<noteq> mpack_ok then (t, None)
      else if node_type t n \<noteq> mpack_type_map then (mpack_node_flag_error t mpack_error_type, None)
      else map_lookup (\<lambda>key. node_type t key = mpack_type_str \<and> unat (node_len t key) = length str \<and>
          mpack_memcmp str (tree_bytes t (mpack_node_data_unchecked t key) (length str)) = 0)
        t n None 0 (unat (node_len t n)))"

definition mpack_node_wrap_lookup :: "mpack_tree \<times> mpack_node option \<Rightarrow> mpack_tree \<times> mpack_node" where
  "mpack_node_wrap_lookup r =
     (case r of
        (t, None) \<Rightarrow> (if t_error t = mpack_ok then mpack_tree_flag_error t mpack_error_data else t, N_nil)
      | (t, Some n) \<Rightarrow> (t, n))"

definition mpack_node_wrap_lookup_optional :: "mpack_tree \<times> mpack_node option \<Rightarrow> mpack_tree \<times> mpack_node" where
  "mpack_node_wrap_lookup_optional r =
     (case r of
        (t, None) \<Rightarrow> (t, if t_error t = mpack_ok then N_missing else N_nil)
      | (t, Some n) \<Rightarrow> (t, n))"

definition mpack_node_map_int :: "mpack_tree \<Rightarrow> mpack_node \<Rightarrow> u64 \<Rightarrow> mpack_tree \<times> mpack_node" where
  "mpack_node_map_int t n num = mpack_node_wrap_lookup (mpack_node_map_int_impl t n num)"

definition mpack_node_map_int_optional :: "mpack_tree \<Rightarrow> mpack_node \<Rightarrow> u64 \<Rightarrow> mpack_tree \<times> mpack_node" where
  "mpack_node_map_int_optional t n num = mpack_node_wrap_lookup_optional (mpack_node_map_int_impl t n num)"

definition mpack_node_map_uint :: "mpack_tree \<Rightarrow> mpack_node \<Rightarrow> u64 \<Rightarrow> mpack_tree \<times> mpack_node" where
  "mpack_node_map_uint t n num = mpack_node_wrap_lookup (mpack_node_map_uint_impl t n num)"

definition mpack_node_map_uint_optional :: "mpack_tree \<Rightarrow> mpack_node \<Rightarrow> u64 \<Rightarrow> mpack_tree \<times> mpack_node" where
  "mpack_node_map_uint_optional t n num = mpack_node_wrap_lookup_optional (mpack_node_map_uint_impl t n num)"

definition mpack_node_map_str :: "mpack_tree \<Rightarrow> mpack_node \<Rightarrow> u8 list \<Rightarrow> mpack_tree \<times> mpack_node" where
  "mpack_node_map_str t n str = mpack_node_wrap_lookup (mpack_node_map_str_impl t n str)"

definition mpack_node_map_str_optional :: "mpack_tree \<Rightarrow> mpack_node \<Rightarrow> u8 list \<Rightarrow> mpack_tree \<times> mpack_node" where
  "mpack_node_map_str_optional t n str = mpack_node_wrap_lookup_optional (mpack_node_map_str_impl t n str)"

text \<open>A C string is its bytes up to the first NUL.\<close>

definition cstr :: "u8 list \<Rightarrow> u8 list" where
  "cstr s = takeWhile (\<lambda>b. b \<noteq> 0) s"

definition mpack_node_map_cstr :: "mpack_tree \<Rightarrow> mpack_node \<Rightarrow> u8 list \<Rightarrow> mpack_tree \<times> mpack_node" where
  "mpack_node_map_cstr t n s = mpack_node_map_str t n (cstr s)"

definition mpack_node_map_cstr_optional :: "mpack_tree \<Rightarrow> mpack_node \<Rightarrow> u8 list \<Rightarrow> mpack_tree \<times> mpack_node" where
  "mpack_node_map_cstr_optional t n s = mpack_node_map_str_optional t n (cstr s)"

definition mpack_node_map_contains_int :: "mpack_tree \<Rightarrow> mpack_node \<Rightarrow> u64 \<Rightarrow> mpack_tree \<times> bool" where
  "mpack_node_map_contains_int t n num = (let (t, r) = mpack_node_map_int_impl t n num in (t, r \<noteq> None))"

definition mpack_node_map_contains_uint :: "mpack_tree \<Rightarrow> mpack_node \<Rightarrow> u64 \<Rightarrow> mpack_tree \<times> bool" where
  "mpack_node_map_contains_uint t n num = (let (t, r) = mpack_node_map_uint_impl t n num in (t, r \<noteq> None))"

definition mpack_node_map_contains_str :: "mpack_tree \<Rightarrow> mpack_node \<Rightarrow> u8 list \<Rightarrow> mpack_tree \<times> bool" where
  "mpack_node_map_contains_str t n str = (let (t, r) = mpack_node_map_str_impl t n str in (t, r \<noteq> None))"

definition mpack_node_map_contains_cstr :: "mpack_tree \<Rightarrow> mpack_node \<Rightarrow> u8 list \<Rightarrow> mpack_tree \<times> bool" where
  "mpack_node_map_contains_cstr t n s = mpack_node_map_contains_str t n (cstr s)"

section \<open>Enumerations\<close>

text \<open>\<open>enum_match\<close> is the loop over the strings from index \<open>i\<close> on.\<close>

fun enum_match :: "mpack_tree \<Rightarrow> nat \<Rightarrow> nat \<Rightarrow> u8 list list \<Rightarrow> nat \<Rightarrow> nat" where
  "enum_match t key keylen [] i = i"
| "enum_match t key keylen (other # strings) i =
     (if keylen = length (cstr other) \<and> mpack_memcmp (tree_bytes t key keylen) (cstr other) = 0 then i
      else enum_match t key keylen strings (i + 1))"

definition mpack_node_enum_optional :: "mpack_tree \<Rightarrow> mpack_node \<Rightarrow> u8 list list \<Rightarrow> mpack_tree \<times> nat" where
  "mpack_node_enum_optional t n strings =
     (if mpack_node_error t \<noteq> mpack_ok then (t, length strings)
      else if mpack_node_type t n \<noteq> mpack_type_str then (t, length strings)
      else
        let (t, key) = mpack_node_str t n; (t, keylen) = mpack_node_strlen t n in
        (t, enum_match t (the key) keylen strings 0))"

definition mpack_node_enum :: "mpack_tree \<Rightarrow> mpack_node \<Rightarrow> u8 list list \<Rightarrow> mpack_tree \<times> nat" where
  "mpack_node_enum t n strings =
     (let (t, v) = mpack_node_enum_optional t n strings in
      if v = length strings then (mpack_node_flag_error t mpack_error_type, v) else (t, v))"

end
