(* ===== verification/Mpack_Node_Correct.thy ===== *)
theory Mpack_Node_Correct
  imports Mpack_Node Mpack_Tree_Correct
begin

text \<open>
  The accessors of a parsed tree against the value its nodes represent: tags, integers in range,
  payload bytes, array elements and map lookups, and what happens once the tree is in error.
\<close>

section \<open>Nodes that hold a value\<close>

definition node_holds :: "mpack_tree \<Rightarrow> mpack_node \<Rightarrow> mp_value \<Rightarrow> bool" where
  "node_holds t n v \<longleftrightarrow> (\<exists>i. n = N_at i \<and> represents (t_data t) (t_nodes t) UNIV i v)"

fun value_tag :: "mp_value \<Rightarrow> mpack_tag" where
  "value_tag (MP_scalar t) = t"
| "value_tag (MP_str s) = Tag_str (of_nat (length s))"
| "value_tag (MP_bin s) = Tag_bin (of_nat (length s))"
| "value_tag (MP_ext x s) = Tag_ext x (of_nat (length s))"
| "value_tag (MP_array vs) = Tag_array (of_nat (length vs))"
| "value_tag (MP_map kvs) = Tag_map (of_nat (length kvs))"

inductive_cases represents_scalarE: "represents bytes nodes S i (MP_scalar t)"
inductive_cases represents_strE: "represents bytes nodes S i (MP_str s)"
inductive_cases represents_binE: "represents bytes nodes S i (MP_bin s)"
inductive_cases represents_extE: "represents bytes nodes S i (MP_ext x s)"
inductive_cases represents_arrayE: "represents bytes nodes S i (MP_array vs)"
inductive_cases represents_mapE: "represents bytes nodes S i (MP_map kvs)"

lemmas representsE = represents_scalarE represents_strE represents_binE represents_extE represents_arrayE represents_mapE

lemma len_word: "unat l = k \<Longrightarrow> l = of_nat k"
  by auto

lemma node_tag_holds:
  assumes "node_holds t n v" "t_error t = mpack_ok"
  shows "mpack_node_tag t n = value_tag v"
proof -
  obtain i where n: "n = N_at i" "represents (t_data t) (t_nodes t) UNIV i v"
    using assms(1) by (auto simp: node_holds_def)
  show ?thesis
  proof (cases v)
    case (MP_scalar tag)
    then have "scalar_node tag (t_nodes t ! i)"
      using n by (auto elim: represents_scalarE)
    with MP_scalar n(1) assms(2) show ?thesis
      by (cases tag) (simp_all add: mpack_node_tag_def mpack_node_error_def)
  qed (use n assms(2) in \<open>auto elim!: representsE simp: mpack_node_tag_def mpack_node_error_def data_node_def
      children_node_def mpack_node_exttype_unchecked_def mpack_node_data_unchecked_def len_word\<close>)
qed

lemma node_type_holds:
  assumes "node_holds t n v" "t_error t = mpack_ok"
  shows "node_type t n = tag_type (value_tag v)"
proof -
  have "mpack_node_tag t n = value_tag v"
    by (rule node_tag_holds [OF assms])
  moreover have "tag_type (mpack_node_tag t n) = node_type t n"
    using assms(2) by (simp add: mpack_node_tag_def mpack_node_error_def Let_def split: mpack_type.split)
  ultimately show ?thesis by simp
qed

section \<open>Integers\<close>

fun value_int :: "mp_value \<Rightarrow> int option" where
  "value_int (MP_scalar (Tag_uint u)) = Some (uint u)"
| "value_int (MP_scalar (Tag_int i)) = Some (sint i)"
| "value_int _ = None"

text \<open>What an integer accessor of range \<open>lo .. hi\<close> returns.\<close>

definition int_in_range :: "mpack_tree \<Rightarrow> int option \<Rightarrow> int \<Rightarrow> int \<Rightarrow> mpack_tree \<times> int" where
  "int_in_range t z lo hi =
     (case z of
        Some z \<Rightarrow> if lo \<le> z \<and> z \<le> hi then (t, z) else (mpack_tree_flag_error t mpack_error_type, 0)
      | None \<Rightarrow> (mpack_tree_flag_error t mpack_error_type, 0))"

lemma node_int_cases:
  assumes "node_holds t n v" "t_error t = mpack_ok"
  obtains (uint) u where "value_int v = Some (uint u)" "node_type t n = mpack_type_uint" "node_u t n = u"
    | (int) i where "value_int v = Some (sint i)" "node_type t n = mpack_type_int" "node_i t n = i"
    | (other) "value_int v = None" "node_type t n \<noteq> mpack_type_uint" "node_type t n \<noteq> mpack_type_int"
proof -
  obtain i where n: "n = N_at i" "represents (t_data t) (t_nodes t) UNIV i v"
    using assms(1) by (auto simp: node_holds_def)
  show thesis
  proof (cases "\<exists>tag. v = MP_scalar tag")
    case True
    then obtain tag where v: "v = MP_scalar tag" "scalar_node tag (t_nodes t ! i)"
      using n by (auto elim: represents_scalarE)
    then show thesis
      using that n(1) by (cases tag) auto
  next
    case False
    with node_type_holds [OF assms] show thesis
      by (intro that(3)) (cases v; auto)+
  qed
qed

lemma uint_narrow:
  fixes w :: u64
  shows "uint w \<le> 0xFF \<Longrightarrow> uint (ucast w :: u8) = uint w" "uint w \<le> 0xFFFF \<Longrightarrow> uint (ucast w :: u16) = uint w"
    "uint w \<le> 0xFFFFFFFF \<Longrightarrow> uint (ucast w :: u32) = uint w"
  by (simp_all add: unsigned_ucast_eq take_bit_int_eq_self)

lemma sint_narrow:
  fixes w :: u64
  shows "- 0x80 \<le> sint w \<Longrightarrow> sint w \<le> 0x7F \<Longrightarrow> sint (ucast w :: u8) = sint w"
    "- 0x8000 \<le> sint w \<Longrightarrow> sint w \<le> 0x7FFF \<Longrightarrow> sint (ucast w :: u16) = sint w"
    "- 0x80000000 \<le> sint w \<Longrightarrow> sint w \<le> 0x7FFFFFFF \<Longrightarrow> sint (ucast w :: u32) = sint w"
  by (simp_all add: signed_ucast_narrow signed_take_bit_int_eq_self)

lemma sint_of_small: "uint w < 2 ^ (LENGTH('a) - 1) \<Longrightarrow> sint (w :: 'a::len word) = uint w"
  by (simp add: sint_uint signed_take_bit_int_eq_self order_trans [OF _ uint_nonnegative])

lemma sint_narrow_small:
  fixes w :: u64
  shows "uint w \<le> 0x7F \<Longrightarrow> sint (ucast w :: u8) = uint w" "uint w \<le> 0x7FFF \<Longrightarrow> sint (ucast w :: u16) = uint w"
    "uint w \<le> 0x7FFFFFFF \<Longrightarrow> sint (ucast w :: u32) = uint w"
    "uint w \<le> 0x7FFFFFFFFFFFFFFF \<Longrightarrow> sint w = uint w"
  by (simp_all add: sint_of_small uint_narrow)

lemma int_accessors_unsigned:
  assumes "node_holds t n v" "t_error t = mpack_ok"
  shows "apsnd uint (mpack_node_u8 t n) = int_in_range t (value_int v) 0 0xFF"
    "apsnd uint (mpack_node_u16 t n) = int_in_range t (value_int v) 0 0xFFFF"
    "apsnd uint (mpack_node_u32 t n) = int_in_range t (value_int v) 0 0xFFFFFFFF"
    "apsnd uint (mpack_node_u64 t n) = int_in_range t (value_int v) 0 0xFFFFFFFFFFFFFFFF"
  using assms(2) uint_lt2p [of "node_u t n"] sint_lt [of "node_i t n"]
  by (rule_tac [!] node_int_cases [OF assms])
    (auto simp: int_in_range_def mpack_node_u8_def mpack_node_u16_def mpack_node_u32_def mpack_node_u64_def
      mpack_node_error_def mpack_node_flag_error_def word_le_def uint_narrow uint_of_nonneg)

lemma neg_le_uint: "- numeral k \<le> uint w"
  by (rule order_trans [of _ 0]) simp_all

lemma int_accessors_signed:
  assumes "node_holds t n v" "t_error t = mpack_ok"
  shows "apsnd sint (mpack_node_i8 t n) = int_in_range t (value_int v) (- 0x80) 0x7F"
    "apsnd sint (mpack_node_i16 t n) = int_in_range t (value_int v) (- 0x8000) 0x7FFF"
    "apsnd sint (mpack_node_i32 t n) = int_in_range t (value_int v) (- 0x80000000) 0x7FFFFFFF"
    "apsnd sint (mpack_node_i64 t n) = int_in_range t (value_int v) (- 0x8000000000000000) 0x7FFFFFFFFFFFFFFF"
  using assms(2) sint_lt [of "node_i t n"] sint_ge [of "node_i t n"]
  by (rule_tac [!] node_int_cases [OF assms])
    (auto simp: int_in_range_def mpack_node_i8_def mpack_node_i16_def mpack_node_i32_def mpack_node_i64_def
      mpack_node_error_def mpack_node_flag_error_def word_le_def sint_narrow sint_narrow_small neg_le_uint)

section \<open>Payloads\<close>

fun value_bytes :: "mp_value \<Rightarrow> u8 list option" where
  "value_bytes (MP_str s) = Some s"
| "value_bytes (MP_bin s) = Some s"
| "value_bytes (MP_ext x s) = Some s"
| "value_bytes _ = None"

lemma node_bytes_holds:
  assumes "node_holds t n v" "value_bytes v = Some s"
  shows "node_bytes t n = s" "unat (node_len t n) = length s" "data_type (node_type t n)"
    "mpack_node_data_unchecked t n + length s \<le> length (t_data t)"
  using assms
  by (cases v; auto simp: node_holds_def node_bytes_def tree_bytes_def data_node_def data_type_def
      mpack_node_data_unchecked_def elim!: representsE)+

lemma data_type_iff:
  assumes "node_holds t n v" "t_error t = mpack_ok"
  shows "data_type (node_type t n) \<longleftrightarrow> value_bytes v \<noteq> None"
    "node_type t n = mpack_type_str \<longleftrightarrow> (\<exists>s. v = MP_str s)"
    "node_type t n = mpack_type_bin \<longleftrightarrow> (\<exists>s. v = MP_bin s)"
    "node_type t n = mpack_type_array \<longleftrightarrow> (\<exists>vs. v = MP_array vs)"
    "node_type t n = mpack_type_map \<longleftrightarrow> (\<exists>kvs. v = MP_map kvs)"
proof -
  have *: "node_type t n = tag_type (value_tag v)" "\<exists>tag. v = MP_scalar tag \<Longrightarrow> scalar_tag (value_tag v)"
    using assms node_type_holds [OF assms] 
    by (auto simp: node_holds_def elim!: represents_scalarE) (case_tac tag; simp)
  show "data_type (node_type t n) \<longleftrightarrow> value_bytes v \<noteq> None"
    "node_type t n = mpack_type_str \<longleftrightarrow> (\<exists>s. v = MP_str s)"
    "node_type t n = mpack_type_bin \<longleftrightarrow> (\<exists>s. v = MP_bin s)"
    "node_type t n = mpack_type_array \<longleftrightarrow> (\<exists>vs. v = MP_array vs)"
    "node_type t n = mpack_type_map \<longleftrightarrow> (\<exists>kvs. v = MP_map kvs)"
    using * by (cases v; cases "value_tag v"; simp add: data_type_def)+
qed

lemma no_null_iff: "mpack_str_check_no_null s \<longleftrightarrow> 0 \<notin> set s"
  by (induction s) auto

text \<open>Copying a string into a caller's buffer of at least one byte.\<close>

lemma copy_cstr_holds:
  assumes "node_holds t n v" "t_error t = mpack_ok" "buf \<noteq> []"
  shows "mpack_node_copy_cstr t n buf =
    (case v of
       MP_str s \<Rightarrow>
         if length buf \<le> length s then (mpack_tree_flag_error t mpack_error_too_big, 0 # tl buf)
         else if 0 \<in> set s then (mpack_tree_flag_error t mpack_error_type, 0 # tl buf)
         else (t, s @ 0 # drop (length s + 1) buf)
     | _ \<Rightarrow> (mpack_tree_flag_error t mpack_error_type, 0 # tl buf))"
proof -
  have put: "mem_put buf 0 [0] = 0 # tl buf"
    using assms(3) by (cases buf) (simp_all add: mem_put_def)
  show ?thesis
  proof (cases "\<exists>s. v = MP_str s")
    case True
    then obtain s where v: "v = MP_str s" by blast
    then have s: "node_bytes t n = s" "unat (node_len t n) = length s" "node_type t n = mpack_type_str"
      using node_bytes_holds [OF assms(1), of s] data_type_iff(2) [OF assms(1,2)] by auto
    have "mem_put (mem_put buf 0 s) (length s) [0] = s @ 0 # drop (length s + 1) buf" if "length s < length buf"
      using that by (simp add: mem_put_def)
    moreover have "length buf - 1 < length s \<longleftrightarrow> length buf \<le> length s"
      using assms(3) by (cases buf) auto
    ultimately show ?thesis
      using v s put assms(2)
      by (simp add: mpack_node_copy_cstr_def mpack_node_error_def mpack_node_flag_error_def no_null_iff)
  next
    case False
    with put show ?thesis
      using assms(2) data_type_iff(2) [OF assms(1,2)]
      by (auto simp: mpack_node_copy_cstr_def mpack_node_error_def mpack_node_flag_error_def split: mp_value.split)
  qed
qed

section \<open>Arrays\<close>

lemma array_at_holds:
  assumes "node_holds t n (MP_array vs)" "t_error t = mpack_ok"
  shows "i < length vs \<Longrightarrow> \<exists>m. mpack_node_array_at t n i = (t, m) \<and> node_holds t m (vs ! i)"
    "length vs \<le> i \<Longrightarrow> mpack_node_array_at t n i = (mpack_tree_flag_error t mpack_error_data, N_nil)"
  using assms represents_all_nth [of "t_data t" "t_nodes t" UNIV _ vs i]
  by (auto simp: node_holds_def mpack_node_array_at_def mpack_node_error_def mpack_node_flag_error_def
      children_node_def mpack_node_child_def elim!: represents_arrayE)

section \<open>Maps\<close>

lemma pairs_nth:
  "i < length kvs \<Longrightarrow> pairs kvs ! (2 * i) = fst (kvs ! i)"
  "i < length kvs \<Longrightarrow> pairs kvs ! (Suc (2 * i)) = snd (kvs ! i)"
proof (induction kvs arbitrary: i)
  case (Cons kv kvs)
  { case 1 then show ?case using Cons by (cases kv; cases i) auto }
  { case 2 then show ?case using Cons by (cases kv; cases i) auto }
qed simp_all

lemma map_child_holds:
  assumes "node_holds t n (MP_map kvs)" "i < length kvs"
  shows "node_holds t (mpack_node_child t n (2 * i)) (fst (kvs ! i))"
    "node_holds t (mpack_node_child t n (Suc (2 * i))) (snd (kvs ! i))"
  using assms represents_all_nth [of "t_data t" "t_nodes t" UNIV _ "pairs kvs" "2 * i"]
    represents_all_nth [of "t_data t" "t_nodes t" UNIV _ "pairs kvs" "Suc (2 * i)"]
  by (auto simp: node_holds_def children_node_def mpack_node_child_def pairs_nth elim!: represents_mapE)

text \<open>The lookup loop finds the only matching pair from \<open>i\<close> on, if there is exactly one.\<close>

lemma map_lookup_found:
  "map_lookup m t n (Some r) i left =
    (if \<exists>j < left. m (mpack_node_child t n (2 * (i + j))) then (mpack_node_flag_error t mpack_error_data, None)
     else (t, Some r))"
proof (induction left arbitrary: i)
  case (Suc left)
  have "(\<exists>j < Suc left. m (mpack_node_child t n (2 * (i + j)))) \<longleftrightarrow>
      m (mpack_node_child t n (2 * i)) \<or> (\<exists>j < left. m (mpack_node_child t n (2 * (i + 1 + j))))"
    by (auto simp: less_Suc_eq_0_disj)
  with Suc show ?case by (simp add: mult.commute)
qed simp

lemma map_lookup_from:
  "map_lookup m t n None i left =
    (case filter (\<lambda>j. m (mpack_node_child t n (2 * j))) [i..<i + left] of
       [] \<Rightarrow> (t, None)
     | [j] \<Rightarrow> (t, Some (mpack_node_child t n (Suc (2 * j))))
     | _ \<Rightarrow> (mpack_node_flag_error t mpack_error_data, None))"
proof (induction left arbitrary: i)
  case (Suc left)
  have upt: "[i..<i + Suc left] = i # [Suc i..<Suc i + left]"
    by (simp add: upt_rec)
  have rest: "(\<exists>j < left. m (mpack_node_child t n (2 * (Suc i + j)))) \<longleftrightarrow>
      filter (\<lambda>j. m (mpack_node_child t n (2 * j))) [Suc i..<Suc i + left] \<noteq> []"
  proof -
    have "[Suc i..<Suc i + left] = map (\<lambda>j. j + Suc i) [0..<left]"
      using map_add_upt [of "Suc i" left] by (simp add: add.commute del: upt_Suc)
    then show ?thesis
      by (auto simp: filter_empty_conv add.commute simp del: upt_Suc)
  qed
  show ?case
  proof (cases "m (mpack_node_child t n (2 * i))")
    case True
    then show ?thesis
      unfolding upt using rest by (simp add: map_lookup_found mult.commute split: list.split del: upt_Suc)
  next
    case False
    then show ?thesis
      unfolding upt using Suc [of "Suc i"] by (simp add: mult.commute del: upt_Suc)
  qed
qed simp

text \<open>The values a map of pairs has under the keys that satisfy a predicate, in order.\<close>

definition map_values :: "(mp_value \<Rightarrow> bool) \<Rightarrow> (mp_value \<times> mp_value) list \<Rightarrow> mp_value list" where
  "map_values P kvs = map snd (filter (\<lambda>kv. P (fst kv)) kvs)"

text \<open>What a lookup of keys satisfying a predicate returns from a map.\<close>

definition lookup_finds ::
  "mpack_tree \<Rightarrow> (mp_value \<Rightarrow> bool) \<Rightarrow> (mp_value \<times> mp_value) list \<Rightarrow> mpack_tree \<times> mpack_node option \<Rightarrow> bool" where
  "lookup_finds t P kvs r \<longleftrightarrow>
     (case map_values P kvs of
        [] \<Rightarrow> r = (t, None)
      | [v] \<Rightarrow> (\<exists>m. r = (t, Some m) \<and> node_holds t m v)
      | _ \<Rightarrow> r = (mpack_tree_flag_error t mpack_error_data, None))"

lemma map_lookup_finds:
  assumes n: "node_holds t n (MP_map kvs)"
    and m: "\<And>i. i < length kvs \<Longrightarrow> m (mpack_node_child t n (2 * i)) \<longleftrightarrow> P (fst (kvs ! i))"
  shows "lookup_finds t P kvs (map_lookup m t n None 0 (length kvs))"
proof -
  let ?js = "filter (\<lambda>j. P (fst (kvs ! j))) [0..<length kvs]"
  have "filter (\<lambda>kv. P (fst kv)) (map ((!) kvs) [0..<length kvs]) = map ((!) kvs) ?js"
    by (simp add: filter_map o_def)
  then have kvs: "map_values P kvs = map (\<lambda>j. snd (kvs ! j)) ?js"
    by (simp add: map_values_def map_nth)
  have "filter (\<lambda>j. m (mpack_node_child t n (2 * j))) [0..<length kvs] = ?js"
    using m by (intro filter_cong) auto
  then have run: "map_lookup m t n None 0 (length kvs) =
      (case ?js of [] \<Rightarrow> (t, None) | [j] \<Rightarrow> (t, Some (mpack_node_child t n (Suc (2 * j))))
       | _ \<Rightarrow> (mpack_node_flag_error t mpack_error_data, None))"
    by (simp add: map_lookup_from)
  have "j < length kvs" if "?js = [j]" for j
  proof -
    have "j \<in> set ?js" unfolding that by simp
    then show ?thesis by simp
  qed
  then have "node_holds t (mpack_node_child t n (Suc (2 * j))) (snd (kvs ! j))" if "?js = [j]" for j
    using map_child_holds(2) [OF n] that by blast
  then show ?thesis
    unfolding lookup_finds_def kvs run mpack_node_flag_error_def
    by (cases ?js rule: remdups_adj.cases) simp_all
qed

lemma map_node:
  assumes "node_holds t n (MP_map kvs)"
  shows "node_type t n = mpack_type_map" "unat (node_len t n) = length kvs"
  using assms by (auto simp: node_holds_def children_node_def elim!: represents_mapE)

lemma str_key:
  assumes "node_holds t n v" "t_error t = mpack_ok"
  shows "(node_type t n = mpack_type_str \<and> unat (node_len t n) = length s \<and>
    mpack_memcmp s (tree_bytes t (mpack_node_data_unchecked t n) (length s)) = 0) \<longleftrightarrow> v = MP_str s"
proof (cases "\<exists>x. v = MP_str x")
  case True
  then obtain x where v: "v = MP_str x" by blast
  have x: "node_bytes t n = x" "unat (node_len t n) = length x" "node_type t n = mpack_type_str"
    using v node_bytes_holds [OF assms(1), of x] data_type_iff(2) [OF assms] by auto
  show ?thesis
  proof (cases "length x = length s")
    case True
    then have "tree_bytes t (mpack_node_data_unchecked t n) (length s) = x"
      using x by (simp add: node_bytes_def)
    with True x v show ?thesis by (auto simp: memcmp_zero)
  qed (use x v in auto)
qed (use data_type_iff(2) [OF assms] in auto)

fun int_key :: "int \<Rightarrow> mp_value \<Rightarrow> bool" where
  "int_key z v = (value_int v = Some z)"

lemma int_key_node:
  assumes "node_holds t n v" "t_error t = mpack_ok"
  shows "(node_type t n = mpack_type_int \<and> node_i t n = num \<or>
      node_type t n = mpack_type_uint \<and> 0 \<le> sint num \<and> node_u t n = num) \<longleftrightarrow> int_key (sint num) v"
    "(node_type t n = mpack_type_uint \<and> node_u t n = num \<or>
      node_type t n = mpack_type_int \<and> 0 \<le> sint (node_i t n) \<and> node_i t n = num) \<longleftrightarrow> int_key (uint num) v"
proof -
  have s: "uint w = sint num \<longleftrightarrow> 0 \<le> sint num \<and> w = num" for w :: u64
    using uint_of_nonneg [of num] uint_nonnegative [of w] by (metis word_uint_eq_iff)
  have u: "sint w = uint num \<longleftrightarrow> 0 \<le> sint w \<and> w = num" for w :: u64
    using uint_of_nonneg [of w] uint_nonnegative [of num] by (metis word_uint_eq_iff)
  have w: "uint w = uint num \<longleftrightarrow> w = num" for w :: u64
    by (simp add: word_uint_eq_iff)
  have i: "sint w = sint num \<longleftrightarrow> w = num" for w :: u64
    by (simp add: sint_eq_sint)
  show "(node_type t n = mpack_type_int \<and> node_i t n = num \<or>
      node_type t n = mpack_type_uint \<and> 0 \<le> sint num \<and> node_u t n = num) \<longleftrightarrow> int_key (sint num) v"
    using assms by (rule node_int_cases) (auto simp: s i)
  show "(node_type t n = mpack_type_uint \<and> node_u t n = num \<or>
      node_type t n = mpack_type_int \<and> 0 \<le> sint (node_i t n) \<and> node_i t n = num) \<longleftrightarrow> int_key (uint num) v"
    using assms by (rule node_int_cases) (auto simp: u w)
qed

lemma map_impl_finds:
  assumes "node_holds t n (MP_map kvs)" "t_error t = mpack_ok"
  shows "lookup_finds t (\<lambda>k. k = MP_str s) kvs (mpack_node_map_str_impl t n s)"
    "lookup_finds t (int_key (sint num)) kvs (mpack_node_map_int_impl t n num)"
    "lookup_finds t (int_key (uint num)) kvs (mpack_node_map_uint_impl t n num)"
proof -
  have "lookup_finds t P kvs (map_lookup m t n None 0 (unat (node_len t n)))"
    if "\<And>n v. node_holds t n v \<Longrightarrow> m n \<longleftrightarrow> P v" for m P
    using map_lookup_finds [OF assms(1), of m P] that [OF map_child_holds(1) [OF assms(1)]] map_node [OF assms(1)]
    by simp
  note finds = this [OF str_key [OF _ assms(2)]] this [OF int_key_node(1) [OF _ assms(2)]]
    this [OF int_key_node(2) [OF _ assms(2)]]
  show "lookup_finds t (\<lambda>k. k = MP_str s) kvs (mpack_node_map_str_impl t n s)"
    "lookup_finds t (int_key (sint num)) kvs (mpack_node_map_int_impl t n num)"
    "lookup_finds t (int_key (uint num)) kvs (mpack_node_map_uint_impl t n num)"
    using assms(2) finds map_node(1) [OF assms(1)]
    by (simp_all add: mpack_node_map_str_impl_def mpack_node_map_int_impl_def mpack_node_map_uint_impl_def
        mpack_node_error_def del: int_key.simps)
qed

section \<open>Allocating accessors\<close>

text \<open>
  The block a C string is copied to holds it and its terminator, provided the length limit keeps
  the string shorter than \<open>UINT32_MAX\<close> bytes.
\<close>

lemma cstr_alloc_fits:
  assumes "node_holds t n v" "mpack_node_cstr_alloc alloc t n maxlen = (t', Some (sz, bytes))" "maxlen < 2 ^ 32"
  shows "\<exists>s. v = MP_str s \<and> 0 \<notin> set s \<and> bytes = s @ [0] \<and> sz = length bytes \<and> sz \<le> maxlen \<and> alloc sz \<and> t' = t"
proof -
  have ok: "t_error t = mpack_ok" and str: "node_type t n = mpack_type_str" and max: "1 \<le> maxlen"
    "unat (node_len t n) \<le> maxlen - 1" and r: "t' = t" "bytes = node_bytes t n @ [0]" "sz = unat (node_len t n + 1)"
    "alloc sz" and nul: "mpack_str_check_no_null (node_bytes t n)"
    using assms(2) by (auto simp: mpack_node_cstr_alloc_def mpack_node_error_def split: if_splits)
  obtain s where v: "v = MP_str s"
    using data_type_iff(2) [OF assms(1) ok] str by blast
  have s: "node_bytes t n = s" "unat (node_len t n) = length s"
    using node_bytes_holds [OF assms(1)] v by simp_all
  have "unat (node_len t n) + 1 < 2 ^ 32"
    using max assms(3) by linarith
  then have "sz = length s + 1"
    using r(3) s(2) by (simp add: unat_word_ariths)
  moreover have "0 \<notin> set s"
    using nul s(1) by (simp add: no_null_iff)
  ultimately show ?thesis
    using v r s max by auto
qed

text \<open>
  At exactly \<open>UINT32_MAX\<close> bytes the size wraps to 0 and the copy overruns an empty block.
\<close>

lemma cstr_alloc_wraps:
  assumes "node_holds t n (MP_str s)" "t_error t = mpack_ok" "length s = 2 ^ 32 - 1" "mpack_str_check_no_null s"
    and "length s < maxlen" "alloc 0"
  shows "mpack_node_cstr_alloc alloc t n maxlen = (t, Some (0, s @ [0]))"
proof -
  have s: "node_bytes t n = s" "unat (node_len t n) = length s" "node_type t n = mpack_type_str"
    using node_bytes_holds [OF assms(1)] data_type_iff(2) [OF assms(1,2)] by simp_all
  have "unat (node_len t n + 1) = 0"
    using s(2) assms(3) by (simp add: unat_word_ariths)
  then show ?thesis
    using assms s by (simp add: mpack_node_cstr_alloc_def mpack_node_error_def)
qed

section \<open>Enumerations\<close>

lemma enum_match_index:
  "length (tree_bytes t key keylen) = keylen \<Longrightarrow>
   enum_match t key keylen strings i = i + length (takeWhile (\<lambda>other. cstr other \<noteq> tree_bytes t key keylen) strings)"
proof (induction t key keylen strings i rule: enum_match.induct)
  case (2 t key keylen other strings i)
  have "(keylen = length (cstr other) \<and> mpack_memcmp (tree_bytes t key keylen) (cstr other) = 0) \<longleftrightarrow>
      cstr other = tree_bytes t key keylen"
    using 2(2) memcmp_zero [of "tree_bytes t key keylen" "cstr other"] by auto
  with 2 show ?case by auto
qed simp

lemma enum_optional_holds:
  assumes "node_holds t n v" "t_error t = mpack_ok"
  shows "mpack_node_enum_optional t n strings =
    (t, length (takeWhile (\<lambda>other. v \<noteq> MP_str (cstr other)) strings))"
proof (cases "\<exists>s. v = MP_str s")
  case True
  then obtain s where v: "v = MP_str s" by blast
  have s: "node_bytes t n = s" "unat (node_len t n) = length s" "node_type t n = mpack_type_str"
    using v node_bytes_holds [OF assms(1)] data_type_iff(2) [OF assms] by simp_all
  then have bytes: "tree_bytes t (mpack_node_data_unchecked t n) (length s) = s"
    by (simp add: node_bytes_def)
  have "takeWhile (\<lambda>other. cstr other \<noteq> s) strings = takeWhile (\<lambda>other. v \<noteq> MP_str (cstr other)) strings"
    unfolding v by (rule takeWhile_cong) auto
  then have "enum_match t (mpack_node_data_unchecked t n) (length s) strings 0 =
      length (takeWhile (\<lambda>other. v \<noteq> MP_str (cstr other)) strings)"
    using enum_match_index [of t "mpack_node_data_unchecked t n" "length s" strings 0] unfolding bytes by simp
  then show ?thesis
    using assms(2) s(2,3)
    by (simp add: mpack_node_enum_optional_def mpack_node_error_def mpack_node_type_def mpack_node_str_def
        mpack_node_strlen_def)
next
  case False
  then have "takeWhile (\<lambda>other. v \<noteq> MP_str (cstr other)) strings = strings"
    unfolding takeWhile_eq_all_conv by simp
  then have "length (takeWhile (\<lambda>other. v \<noteq> MP_str (cstr other)) strings) = length strings"
    by (rule arg_cong)
  moreover have "node_type t n \<noteq> mpack_type_str"
    using False data_type_iff(2) [OF assms] by simp
  ultimately show ?thesis
    using assms(2) by (simp add: mpack_node_enum_optional_def mpack_node_error_def mpack_node_type_def)
qed

end
