(* ===== verification/Mpack_Tree_Properties.thy ===== *)
theory Mpack_Tree_Properties
  imports Mpack_Tree_Loop Mpack_Node_Correct
begin

text \<open>
  The properties of the tree parser and of the accessors that read its nodes.
\<close>

section \<open>Parsing\<close>

text \<open>C33: parsing a message in memory that starts with the encoding of a value returns after at most
  one turn of the parse loop per byte, flags no error, stops exactly at the end of that encoding
  and leaves nodes whose root represents the value the writer was given.\<close>

theorem tree_parse_message:
  assumes "te_alloc env = (\<lambda>_. True)" "value_ok (te_ext env) v" "length (enc_value v @ rest) < 2 ^ 32"
    and "length (enc_value v) \<le> fuel"
  shows "\<exists>t. mpack_tree_parse env fuel (mpack_tree_init_data (enc_value v @ rest)) = Some t \<and>
    t_error t = mpack_ok \<and> p_state t = parsed \<and> t_size t = length (enc_value v) \<and>
    represents (t_data t) (t_nodes t) UNIV (t_root t) (value_normal v)"
  using parse_message [OF _ encodes_enc_value [OF assms(2)] assms(3,4)] assms(1) by auto

theorem tree_parse_message_witness:
  "\<exists>t. mpack_tree_parse \<lparr>te_read = \<lambda>t n. (t, None), te_alloc = \<lambda>_. True, te_ext = False\<rparr> 5
      (mpack_tree_init_data [0x92, 0xC0, 0xA1, 0x61, 0x07]) = Some t \<and>
    t_error t = mpack_ok \<and> p_state t = parsed \<and> t_size t = 4 \<and>
    represents (t_data t) (t_nodes t) UNIV (t_root t) (MP_array [MP_scalar Tag_nil, MP_str [0x61]])"
  using tree_parse_message [of "\<lparr>te_read = \<lambda>t n. (t, None), te_alloc = \<lambda>_. True, te_ext = False\<rparr>"
      "MP_array [MP_scalar Tag_nil, MP_str [0x61]]" "[0x07]" 5]
  by (simp add: enc_defs encode_defs mpack_store_u8_def tag_normal_def) (simp add: eval_nat_numeral)

section \<open>Accessors\<close>

text \<open>
  A small tree that the witnesses below use: the map from \<open>"a"\<close> to 300 and from \<open>"b"\<close> to an array.
\<close>

definition sample_value :: mp_value where
  "sample_value = MP_map [(MP_str [0x61], MP_scalar (Tag_uint 300)), (MP_str [0x62], MP_array [MP_scalar Tag_nil])]"

definition sample_tree :: mpack_tree where
  "sample_tree = mpack_tree_init_clear
     \<lparr>t_data := [0x82, 0xA1, 0x61, 0xCD, 0x01, 0x2C, 0xA1, 0x62, 0x91, 0xC0], t_size := 10, p_state := parsed,
      t_nodes := [
        \<lparr>n_type = mpack_type_map, n_len = 2, n_value = NV_children 1\<rparr>,
        \<lparr>n_type = mpack_type_str, n_len = 1, n_value = NV_offset 2\<rparr>,
        \<lparr>n_type = mpack_type_uint, n_len = 0, n_value = NV_u 300\<rparr>,
        \<lparr>n_type = mpack_type_str, n_len = 1, n_value = NV_offset 7\<rparr>,
        \<lparr>n_type = mpack_type_array, n_len = 1, n_value = NV_children 5\<rparr>,
        \<lparr>n_type = mpack_type_nil, n_len = 0, n_value = NV_none\<rparr>]\<rparr>"

lemma sample_holds:
  "node_holds sample_tree (N_at 0) sample_value" "t_error sample_tree = mpack_ok"
  "node_holds sample_tree (N_at 1) (MP_str [0x61])" "node_holds sample_tree (N_at 2) (MP_scalar (Tag_uint 300))"
  "node_holds sample_tree (N_at 4) (MP_array [MP_scalar Tag_nil])"
proof -
  let ?rep = "represents (t_data sample_tree) (t_nodes sample_tree) UNIV"
  have key: "?rep 1 (MP_str [0x61])" "?rep 3 (MP_str [0x62])"
    by (rule rep_str; simp add: sample_tree_def data_node_def)+
  have leaf: "?rep 2 (MP_scalar (Tag_uint 300))" "?rep 5 (MP_scalar Tag_nil)"
    by (rule rep_scalar; simp add: sample_tree_def)+
  have arr: "?rep 4 (MP_array [MP_scalar Tag_nil])"
    using leaf(2) by (intro rep_array [where c = 5])
      (auto simp: sample_tree_def children_node_def intro: rep_more rep_none)
  have "represents_all (t_data sample_tree) (t_nodes sample_tree) UNIV 1
      (pairs [(MP_str [0x61], MP_scalar (Tag_uint 300)), (MP_str [0x62], MP_array [MP_scalar Tag_nil])])"
    using key leaf arr by (auto simp: numeral_eq_Suc intro!: rep_more rep_none)
  then have "?rep 0 sample_value"
    unfolding sample_value_def by (intro rep_map [where c = 1]) (auto simp: sample_tree_def children_node_def)
  with key leaf arr show "node_holds sample_tree (N_at 0) sample_value" "node_holds sample_tree (N_at 1) (MP_str [0x61])"
    "node_holds sample_tree (N_at 2) (MP_scalar (Tag_uint 300))"
    "node_holds sample_tree (N_at 4) (MP_array [MP_scalar Tag_nil])"
    by (auto simp: node_holds_def)
  show "t_error sample_tree = mpack_ok"
    by (simp add: sample_tree_def mpack_tree_init_clear_def)
qed

text \<open>C36: the type and the tag read from a node are those of the value it holds.\<close>

theorem node_tag_of_value:
  assumes "node_holds t n v" "t_error t = mpack_ok"
  shows "mpack_node_tag t n = value_tag v \<and> mpack_node_type t n = tag_type (value_tag v)"
  using node_tag_holds [OF assms] node_type_holds [OF assms] assms(2)
  by (simp add: mpack_node_type_def mpack_node_error_def)

theorem node_tag_of_value_witness:
  "mpack_node_tag sample_tree (N_at 4) = Tag_array 1 \<and> mpack_node_type sample_tree (N_at 4) = mpack_type_array"
  using node_tag_of_value [OF sample_holds(5,2)] by simp

text \<open>C35: every integer accessor returns exactly the integer a node holds when its result type can
  represent it, whether the message spelled it signed or unsigned, and otherwise flags a type
  error and returns 0.\<close>

theorem node_integer_accessors:
  assumes "node_holds t n v" "t_error t = mpack_ok"
  shows "apsnd uint (mpack_node_u8 t n) = int_in_range t (value_int v) 0 0xFF \<and>
    apsnd uint (mpack_node_u16 t n) = int_in_range t (value_int v) 0 0xFFFF \<and>
    apsnd uint (mpack_node_u32 t n) = int_in_range t (value_int v) 0 0xFFFFFFFF \<and>
    apsnd uint (mpack_node_u64 t n) = int_in_range t (value_int v) 0 0xFFFFFFFFFFFFFFFF \<and>
    apsnd sint (mpack_node_i8 t n) = int_in_range t (value_int v) (- 0x80) 0x7F \<and>
    apsnd sint (mpack_node_i16 t n) = int_in_range t (value_int v) (- 0x8000) 0x7FFF \<and>
    apsnd sint (mpack_node_i32 t n) = int_in_range t (value_int v) (- 0x80000000) 0x7FFFFFFF \<and>
    apsnd sint (mpack_node_i64 t n) = int_in_range t (value_int v) (- 0x8000000000000000) 0x7FFFFFFFFFFFFFFF"
  by (intro conjI int_accessors_unsigned int_accessors_signed assms)

theorem node_integer_accessors_witness:
  "apsnd uint (mpack_node_u8 sample_tree (N_at 2)) = (mpack_tree_flag_error sample_tree mpack_error_type, 0) \<and>
   apsnd sint (mpack_node_i16 sample_tree (N_at 2)) = (sample_tree, 300)"
proof -
  have "int_in_range sample_tree (value_int (MP_scalar (Tag_uint 300))) 0 0xFF =
      (mpack_tree_flag_error sample_tree mpack_error_type, 0)"
    "int_in_range sample_tree (value_int (MP_scalar (Tag_uint 300))) (- 0x8000) 0x7FFF = (sample_tree, 300)"
    by (simp_all add: int_in_range_def)
  with node_integer_accessors [OF sample_holds(4,2)] show ?thesis by metis
qed

text \<open>C37: looking up a string key in a map returns the value of the only pair with that key; when no
  pair has it, the plain lookup flags a data error and returns nil while the optional one returns
  the missing node, and when several have it both flag a data error.\<close>

theorem node_map_lookup:
  assumes "node_holds t n (MP_map kvs)" "t_error t = mpack_ok"
  shows "case map_values (\<lambda>k. k = MP_str s) kvs of
      [] \<Rightarrow> mpack_node_map_str t n s = (mpack_tree_flag_error t mpack_error_data, N_nil) \<and>
        mpack_node_map_str_optional t n s = (t, N_missing) \<and> mpack_node_map_contains_str t n s = (t, False)
    | [v] \<Rightarrow> (\<exists>m. mpack_node_map_str t n s = (t, m) \<and> mpack_node_map_str_optional t n s = (t, m) \<and>
        mpack_node_map_contains_str t n s = (t, True) \<and> node_holds t m v)
    | _ \<Rightarrow> mpack_node_map_str t n s = (mpack_tree_flag_error t mpack_error_data, N_nil) \<and>
        mpack_node_map_str_optional t n s = (mpack_tree_flag_error t mpack_error_data, N_nil) \<and>
        mpack_node_map_contains_str t n s = (mpack_tree_flag_error t mpack_error_data, False)"
proof -
  have "t_error (mpack_tree_flag_error t mpack_error_data) \<noteq> mpack_ok"
    using assms(2) by (simp add: mpack_tree_flag_error_def)
  with map_impl_finds(1) [OF assms, of s] assms(2) show ?thesis
    by (cases "map_values (\<lambda>k. k = MP_str s) kvs" rule: remdups_adj.cases)
      (auto simp: lookup_finds_def mpack_node_map_str_def mpack_node_map_str_optional_def
        mpack_node_map_contains_str_def mpack_node_wrap_lookup_def mpack_node_wrap_lookup_optional_def)
qed

theorem node_map_lookup_witness:
  "(\<exists>m. mpack_node_map_str sample_tree (N_at 0) [0x61] = (sample_tree, m) \<and>
     node_holds sample_tree m (MP_scalar (Tag_uint 300))) \<and>
   mpack_node_map_str_optional sample_tree (N_at 0) [0x63] = (sample_tree, N_missing)"
proof -
  let ?kvs = "[(MP_str [0x61], MP_scalar (Tag_uint 300)), (MP_str [0x62], MP_array [MP_scalar Tag_nil])]"
  have "node_holds sample_tree (N_at 0) (MP_map ?kvs)"
    using sample_holds(1) by (simp add: sample_value_def)
  from node_map_lookup [OF this sample_holds(2), of "[0x61]"] node_map_lookup [OF this sample_holds(2), of "[0x63]"]
  show ?thesis by (auto simp: map_values_def)
qed

text \<open>Integer keys are looked up by their numeric value: a key spelled unsigned is found by the
  signed lookup and the other way round, exactly when both stand for the same integer.\<close>

theorem node_map_lookup_int:
  assumes "node_holds t n (MP_map kvs)" "t_error t = mpack_ok"
  shows "lookup_finds t (\<lambda>k. value_int k = Some (sint i)) kvs (mpack_node_map_int_impl t n i) \<and>
    lookup_finds t (\<lambda>k. value_int k = Some (uint u)) kvs (mpack_node_map_uint_impl t n u)"
  using map_impl_finds(2,3) [OF assms] by (simp add: lookup_finds_def map_values_def)

theorem node_map_lookup_int_witness:
  "mpack_node_map_int_impl sample_tree (N_at 0) 5 = (sample_tree, None)"
proof -
  let ?kvs = "[(MP_str [0x61], MP_scalar (Tag_uint 300)), (MP_str [0x62], MP_array [MP_scalar Tag_nil])]"
  have "node_holds sample_tree (N_at 0) (MP_map ?kvs)"
    using sample_holds(1) by (simp add: sample_value_def)
  from node_map_lookup_int [OF this sample_holds(2), of 5] show ?thesis
    by (simp add: lookup_finds_def map_values_def)
qed

text \<open>Copying a string node into a caller's buffer never changes the buffer's size and always
  leaves a C string: the node's bytes and a terminator when they fit and contain no NUL, the empty
  string and an error otherwise.\<close>

theorem node_copy_cstr_terminated:
  assumes "node_holds t n v" "t_error t = mpack_ok" "buf \<noteq> []" "mpack_node_copy_cstr t n buf = (t', buf')"
  shows "length buf' = length buf \<and> 0 \<in> set buf' \<and>
    (if t_error t' = mpack_ok then v = MP_str (cstr buf') else cstr buf' = [])"
proof -
  have c: "cstr (s @ 0 # r) = s" if "0 \<notin> set s" for s r
    unfolding cstr_def using that by (induction s) auto
  have e: "cstr (0 # r) = []" for r
    by (simp add: cstr_def)
  have f: "t_error (mpack_tree_flag_error t err) = err" for err
    using assms(2) by (simp add: mpack_tree_flag_error_def)
  show ?thesis
    using copy_cstr_holds [OF assms(1-3)] assms(2-4) by (auto simp: c e f split: mp_value.splits if_splits)
qed

theorem node_copy_cstr_terminated_witness:
  "mpack_node_copy_cstr sample_tree (N_at 1) [7, 7, 7] = (sample_tree, [0x61, 0, 7]) \<and> cstr [0x61, 0, 7] = [0x61]"
proof -
  have "mpack_node_copy_cstr sample_tree (N_at 1) [7, 7, 7] = (sample_tree, [0x61, 0, 7])"
    by (simp add: mpack_node_copy_cstr_def sample_tree_def mpack_node_error_def mpack_tree_init_clear_def
        node_bytes_def tree_bytes_def mpack_node_data_unchecked_def mem_put_def)
  with node_copy_cstr_terminated [OF sample_holds(3,2) _ this] sample_holds(2) show ?thesis by simp
qed

text \<open>The block allocated for a C string is as large as the string and its terminator, and no
  larger than the caller's limit, as long as that limit is below 2 to the 32.\<close>

theorem node_cstr_alloc_bounds:
  assumes "node_holds t n v" "mpack_node_cstr_alloc alloc t n maxlen = (t', Some (sz, bytes))" "maxlen < 2 ^ 32"
  shows "v = MP_str (cstr bytes) \<and> bytes = cstr bytes @ [0] \<and> sz = length bytes \<and> sz \<le> maxlen \<and> alloc sz"
proof -
  obtain s where "v = MP_str s" "0 \<notin> set s" "bytes = s @ [0]" "sz = length bytes" "sz \<le> maxlen" "alloc sz"
    using cstr_alloc_fits [OF assms] by blast
  moreover from this(2) have "cstr (s @ [0]) = s"
    unfolding cstr_def by (induction s) auto
  ultimately show ?thesis by simp
qed

theorem node_cstr_alloc_bounds_witness:
  "mpack_node_cstr_alloc (\<lambda>sz. sz = 2) sample_tree (N_at 1) 100 = (sample_tree, Some (2, [0x61, 0])) \<and>
   MP_str [0x61] = MP_str (cstr [0x61, 0])"
proof -
  have "mpack_node_cstr_alloc (\<lambda>sz. sz = 2) sample_tree (N_at 1) 100 = (sample_tree, Some (2, [0x61, 0]))"
    by (simp add: mpack_node_cstr_alloc_def sample_tree_def mpack_node_error_def mpack_tree_init_clear_def
        node_bytes_def tree_bytes_def mpack_node_data_unchecked_def)
  with node_cstr_alloc_bounds [OF sample_holds(3) this] show ?thesis by simp
qed

section \<open>Write, parse and look up\<close>

text \<open>C34: the parts compose: a map encoded by the writer's format, parsed into a tree and looked up by
  a key that occurs in exactly one pair gives a node that holds the value stored under it, in normal
  form, and no step flags an error.\<close>

theorem write_parse_lookup:
  assumes "te_alloc env = (\<lambda>_. True)" "value_ok (te_ext env) (MP_map kvs)" "length (enc_value (MP_map kvs)) < 2 ^ 32"
    and "map_values (\<lambda>k. k = MP_str s) kvs = [v]"
  shows "\<exists>t root m. mpack_tree_parse env (length (enc_value (MP_map kvs))) (mpack_tree_init_data (enc_value (MP_map kvs))) = Some t \<and>
    mpack_tree_root t = (t, root) \<and> mpack_node_map_str t root s = (t, m) \<and>
    node_holds t m (value_normal v) \<and> t_error t = mpack_ok"
proof -
  let ?kvs = "map (\<lambda>(k, v). (value_normal k, value_normal v)) kvs"
  have "length (enc_value (MP_map kvs) @ []) < 2 ^ 32"
    using assms(3) by simp
  from parse_message [OF _ encodes_enc_value [OF assms(2)] this order_refl] assms(1)
  obtain t where "mpack_tree_parse env (length (enc_value (MP_map kvs))) (mpack_tree_init_data (enc_value (MP_map kvs) @ [])) = Some t"
    and t: "t_error t = mpack_ok" "p_state t = parsed" "represents (t_data t) (t_nodes t) UNIV (t_root t) (value_normal (MP_map kvs))"
    by auto
  then have run: "mpack_tree_parse env (length (enc_value (MP_map kvs))) (mpack_tree_init_data (enc_value (MP_map kvs))) = Some t"
    and holds: "node_holds t (N_at (t_root t)) (MP_map ?kvs)"
    unfolding node_holds_def value_normal.simps append_Nil2 by blast+
  have str: "value_normal k = MP_str s \<longleftrightarrow> k = MP_str s" for k
    by (cases k) auto
  have "map_values (\<lambda>k. k = MP_str s) ?kvs = map value_normal (map_values (\<lambda>k. k = MP_str s) kvs)"
    unfolding map_values_def by (simp add: filter_map o_def case_prod_beta str)
  with assms(4) map_impl_finds(1) [OF holds t(1), of s]
  obtain m where "mpack_node_map_str_impl t (N_at (t_root t)) s = (t, Some m)" "node_holds t m (value_normal v)"
    by (auto simp: lookup_finds_def)
  with run t(1,2) show ?thesis
    by (intro exI [of _ t] exI [of _ "N_at (t_root t)"] exI [of _ m] conjI)
      (simp_all add: mpack_tree_root_def mpack_node_map_str_def mpack_node_wrap_lookup_def)
qed

theorem write_parse_lookup_witness:
  "\<exists>t root m. mpack_tree_parse \<lparr>te_read = \<lambda>t n. (t, None), te_alloc = \<lambda>_. True, te_ext = False\<rparr> 7
     (mpack_tree_init_data [0x82, 0xA1, 0x61, 0x05, 0xA1, 0x62, 0xC3]) = Some t \<and>
    mpack_tree_root t = (t, root) \<and> mpack_node_map_str t root [0x61] = (t, m) \<and>
    node_holds t m (MP_scalar (Tag_uint 5)) \<and> t_error t = mpack_ok"
  using write_parse_lookup [of "\<lparr>te_read = \<lambda>t n. (t, None), te_alloc = \<lambda>_. True, te_ext = False\<rparr>"
      "[(MP_str [0x61], MP_scalar (Tag_int 5)), (MP_str [0x62], MP_scalar (Tag_bool True))]" "[0x61]" "MP_scalar (Tag_int 5)"]
  by (simp add: enc_defs encode_defs mpack_store_u8_def tag_normal_def map_values_def) (simp add: eval_nat_numeral)

end
