(* ===== verification/Rapid_Json.thy ===== *)
theory Rapid_Json
  imports Mc_Prelude
begin

text \<open>
  The document model behind \<open>mc_rtc::Configuration\<close>: the part of the bundled RapidJSON
  (\<open>rapidjson/document.h\<close>) it calls. An object is the array of its members in storage order, names
  may repeat, a lookup returns the first match, and \<open>RemoveMember\<close> moves the last member into the
  hole. RapidJSON tags a number with every integer type that can hold it, so an integer is one
  mathematical integer between \<open>INT64_MIN\<close> and \<open>UINT64_MAX\<close> and the type tests are range tests; a
  double is its bit pattern.
\<close>

section \<open>Values\<close>

datatype json =
    J_null
  | J_bool bool
  | J_int int
  | J_double u64
  | J_string string
  | J_array "json list"
  | J_object "(string \<times> json) list"

type_synonym members = "(string \<times> json) list"

fun IsNull :: "json \<Rightarrow> bool" where
  "IsNull J_null = True"
| "IsNull _ = False"

fun IsBool :: "json \<Rightarrow> bool" where
  "IsBool (J_bool _) = True"
| "IsBool _ = False"

fun IsObject :: "json \<Rightarrow> bool" where
  "IsObject (J_object _) = True"
| "IsObject _ = False"

fun IsArray :: "json \<Rightarrow> bool" where
  "IsArray (J_array _) = True"
| "IsArray _ = False"

fun IsString :: "json \<Rightarrow> bool" where
  "IsString (J_string _) = True"
| "IsString _ = False"

fun IsDouble :: "json \<Rightarrow> bool" where
  "IsDouble (J_double _) = True"
| "IsDouble _ = False"

fun IsNumber :: "json \<Rightarrow> bool" where
  "IsNumber (J_int _) = True"
| "IsNumber (J_double _) = True"
| "IsNumber _ = False"

fun IsInt :: "json \<Rightarrow> bool" where
  "IsInt (J_int i) = (- (2 ^ 31) \<le> i \<and> i < 2 ^ 31)"
| "IsInt _ = False"

fun IsUint :: "json \<Rightarrow> bool" where
  "IsUint (J_int i) = (0 \<le> i \<and> i < 2 ^ 32)"
| "IsUint _ = False"

fun IsInt64 :: "json \<Rightarrow> bool" where
  "IsInt64 (J_int i) = (- (2 ^ 63) \<le> i \<and> i < 2 ^ 63)"
| "IsInt64 _ = False"

fun IsUint64 :: "json \<Rightarrow> bool" where
  "IsUint64 (J_int i) = (0 \<le> i \<and> i < 2 ^ 64)"
| "IsUint64 _ = False"

text \<open>The integer a number node stores.\<close>

fun GetInteger :: "json \<Rightarrow> int" where
  "GetInteger (J_int i) = i"
| "GetInteger _ = 0"

section \<open>Members\<close>

definition FindMember :: "members \<Rightarrow> string \<Rightarrow> json option" where
  "FindMember ms name = map_of ms name"

definition HasMember :: "members \<Rightarrow> string \<Rightarrow> bool" where
  "HasMember ms name \<longleftrightarrow> FindMember ms name \<noteq> None"

definition AddMember :: "members \<Rightarrow> string \<Rightarrow> json \<Rightarrow> members" where
  "AddMember ms name value = ms @ [(name, value)]"

fun RemoveMember :: "members \<Rightarrow> string \<Rightarrow> members" where
  "RemoveMember [] name = []"
| "RemoveMember ((n, v) # ms) name =
     (if n = name then if ms = [] then [] else last ms # butlast ms else (n, v) # RemoveMember ms name)"

text \<open>Assigning through the iterator that \<open>FindMember\<close> returned.\<close>

fun SetMember :: "members \<Rightarrow> string \<Rightarrow> json \<Rightarrow> members" where
  "SetMember [] name value = []"
| "SetMember ((n, v) # ms) name value = (if n = name then (n, value) # ms else (n, v) # SetMember ms name value)"

section \<open>Documents with distinct names\<close>

text \<open>
  A document built through \<open>Configuration\<close> has distinct names in every object, integers in the
  range RapidJSON can store, and nothing else to check.
\<close>

fun json_wf :: "json \<Rightarrow> bool" where
  "json_wf (J_int i) = (- (2 ^ 63) \<le> i \<and> i < 2 ^ 64)"
| "json_wf (J_array vs) = list_all json_wf vs"
| "json_wf (J_object ms) = (distinct (map fst ms) \<and> list_all (\<lambda>(n, v). json_wf v) ms)"
| "json_wf _ = True"

lemma map_of_append_new: "name \<notin> fst ` set ms \<Longrightarrow> map_of (ms @ [(name, v)]) = (map_of ms)(name \<mapsto> v)"
  by (induction ms) (auto simp: fun_eq_iff)

lemma set_rotate_last: "ms \<noteq> [] \<Longrightarrow> set (last ms # butlast ms) = set ms"
  by (cases ms rule: rev_cases) auto

lemma set_RemoveMember: "distinct (map fst ms) \<Longrightarrow> set (RemoveMember ms name) = {m \<in> set ms. fst m \<noteq> name}"
proof (induction ms)
  case (Cons m ms)
  obtain n v where m: "m = (n, v)" by fastforce
  show ?case
  proof (cases "n = name")
    case True
    have "set (RemoveMember (m # ms) name) = set ms"
      using True m set_rotate_last [of ms] by simp
    with Cons True m show ?thesis by force
  qed (use Cons m in auto)
qed simp

lemma distinct_RemoveMember: "distinct (map fst ms) \<Longrightarrow> distinct (map fst (RemoveMember ms name))"
proof (induction ms)
  case (Cons m ms)
  obtain n v where m: "m = (n, v)" by fastforce
  show ?case
  proof (cases "n = name \<and> ms \<noteq> []")
    case True
    then obtain ns l where "ms = ns @ [l]"
      by (cases ms rule: rev_cases) auto
    with True Cons.prems m show ?thesis by auto
  next
    case False
    have "fst ` set (RemoveMember ms name) \<subseteq> fst ` set ms"
      using set_RemoveMember [of ms name] Cons.prems by auto
    with False Cons m show ?thesis by auto
  qed
qed simp

lemma map_of_RemoveMember:
  assumes "distinct (map fst ms)"
  shows "map_of (RemoveMember ms name) = (map_of ms)(name := None)"
proof
  fix k
  have "map_of (RemoveMember ms name) k = Some v \<longleftrightarrow> ((map_of ms)(name := None)) k = Some v" for v
    using set_RemoveMember [OF assms, of name] distinct_RemoveMember [OF assms, of name] assms
    by (auto simp: map_of_eq_Some_iff)
  then show "map_of (RemoveMember ms name) k = ((map_of ms)(name := None)) k"
    by (metis not_Some_eq)
qed

lemma SetMember_names [simp]: "map fst (SetMember ms name v) = map fst ms"
  by (induction ms name v rule: SetMember.induct) auto

lemma map_of_SetMember:
  "map_of (SetMember ms name v) = (if name \<in> fst ` set ms then (map_of ms)(name \<mapsto> v) else map_of ms)"
  by (induction ms name v rule: SetMember.induct) (auto simp: fun_eq_iff)

lemma map_of_SetMember_Some: "map_of ms name = Some old \<Longrightarrow> map_of (SetMember ms name v) = (map_of ms)(name \<mapsto> v)"
  by (metis domI dom_map_of_conv_image_fst map_of_SetMember)

lemma HasMember_iff: "HasMember ms name \<longleftrightarrow> name \<in> fst ` set ms"
  by (simp add: HasMember_def FindMember_def map_of_eq_None_iff)

lemmas member_defs = FindMember_def AddMember_def HasMember_iff

lemma FindMember_wf: "list_all (\<lambda>(n, v). json_wf v) ms \<Longrightarrow> FindMember ms name = Some v \<Longrightarrow> json_wf v"
  by (auto simp: FindMember_def list_all_iff dest!: map_of_SomeD)

lemma SetMember_all:
  "list_all (\<lambda>(n, v). json_wf v) ms \<Longrightarrow> json_wf v \<Longrightarrow> list_all (\<lambda>(n, v). json_wf v) (SetMember ms name v)"
  by (induction ms name v rule: SetMember.induct) auto

lemma members_wf_simps:
  assumes "json_wf (J_object ms)"
  shows "json_wf (J_object (RemoveMember ms name))"
    "json_wf v \<Longrightarrow> \<not> HasMember ms name \<Longrightarrow> json_wf (J_object (AddMember ms name v))"
    "json_wf v \<Longrightarrow> json_wf (J_object (SetMember ms name v))"
  using assms set_RemoveMember [of ms name] distinct_RemoveMember [of ms name]
  by (auto simp: list_all_iff member_defs dest: SetMember_all [unfolded list_all_iff])

lemma not_HasMember_RemoveMember: "distinct (map fst ms) \<Longrightarrow> \<not> HasMember (RemoveMember ms name) name"
  by (auto simp: HasMember_iff set_RemoveMember)

end
