(* ===== verification/Configuration.thy ===== *)
theory Configuration
  imports Rapid_Json Ieee754 "HOL-Library.List_Lexorder" "HOL-Library.Char_ord"
begin

text \<open>
  \<open>mc_rtc::Configuration\<close> (\<open>Configuration.h\<close>, \<open>Configuration.cpp\<close>): typed access to a JSON document and
  in-place modification. A \<open>Configuration\<close> is a handle on one value of a document; an operation
  on a handle is a function from that value to its new content, and an operation on a nested
  handle is stored back with \<open>store_member\<close> or \<open>store_last\<close>. Every exception is a value of
  \<open>config_error\<close>; \<open>Rapidjson_assert\<close> marks the places where RapidJSON asserts and a release build has
  undefined behaviour.
\<close>

section \<open>Errors and access\<close>

datatype config_error =
    No_entry string
  | Out_of_bound
  | Wrong_type string
  | Too_large string
  | Not_object
  | Not_array
  | Not_unique
  | Unsupported_type
  | Rapidjson_assert

definition config_empty :: "json \<Rightarrow> bool" where
  "config_empty v = (case v of J_array vs \<Rightarrow> vs = [] | J_object ms \<Rightarrow> ms = [] | _ \<Rightarrow> IsNull v)"

definition config_has :: "json \<Rightarrow> string \<Rightarrow> bool" where
  "config_has v key = (case v of J_object ms \<Rightarrow> HasMember ms key | _ \<Rightarrow> False)"

definition config_find :: "json \<Rightarrow> string \<Rightarrow> json option" where
  "config_find v key = (case v of J_object ms \<Rightarrow> FindMember ms key | _ \<Rightarrow> None)"

definition config_call :: "json \<Rightarrow> string \<Rightarrow> config_error + json" where
  "config_call v key = (case config_find v key of Some out \<Rightarrow> Inr out | None \<Rightarrow> Inl (No_entry key))"

fun config_find_path :: "json \<Rightarrow> string list \<Rightarrow> json option" where
  "config_find_path v [] = Some v"
| "config_find_path v (key # others) =
     (case config_find v key of Some out \<Rightarrow> config_find_path out others | None \<Rightarrow> None)"

definition config_size :: "json \<Rightarrow> nat" where
  "config_size v = (case v of J_array vs \<Rightarrow> length vs | _ \<Rightarrow> 0)"

definition config_index :: "json \<Rightarrow> nat \<Rightarrow> config_error + json" where
  "config_index v i =
     (if config_size v \<le> i then Inl Out_of_bound else case v of J_array vs \<Rightarrow> Inr (vs ! i) | _ \<Rightarrow> Inl Rapidjson_assert)"

definition config_keys :: "json \<Rightarrow> string list" where
  "config_keys v = (case v of J_object ms \<Rightarrow> map fst ms | _ \<Rightarrow> [])"

text \<open>\<open>operator()(key, default)\<close> and \<open>at(i, default)\<close>: any exception selects the default.\<close>

definition config_or :: "json \<Rightarrow> string \<Rightarrow> (json \<Rightarrow> config_error + 'a) \<Rightarrow> 'a \<Rightarrow> 'a" where
  "config_or v key convert d =
     (case config_call v key of
        Inl _ \<Rightarrow> d
      | Inr c \<Rightarrow> (case convert c of Inl _ \<Rightarrow> d | Inr x \<Rightarrow> x))"

definition config_at_or :: "json \<Rightarrow> nat \<Rightarrow> (json \<Rightarrow> config_error + 'a) \<Rightarrow> 'a \<Rightarrow> 'a" where
  "config_at_or v i convert d =
     (case config_index v i of
        Inl _ \<Rightarrow> d
      | Inr c \<Rightarrow> (case convert c of Inl _ \<Rightarrow> d | Inr x \<Rightarrow> x))"

section \<open>Conversions\<close>

definition to_bool :: "json \<Rightarrow> config_error + bool" where
  "to_bool v =
     (if IsBool v then case v of J_bool b \<Rightarrow> Inr b | _ \<Rightarrow> Inl Rapidjson_assert
      else if IsUint v then Inr (GetInteger v \<noteq> 0)
      else if IsInt v then Inr (GetInteger v \<noteq> 0)
      else Inl (Wrong_type ''bool''))"

definition to_int8 :: "json \<Rightarrow> config_error + u8" where
  "to_int8 v =
     (if IsInt v then
        if - 128 \<le> GetInteger v \<and> GetInteger v \<le> 127 then Inr (of_int (GetInteger v)) else Inl (Too_large ''int8_t'')
      else Inl (Wrong_type ''int''))"

definition to_int16 :: "json \<Rightarrow> config_error + u16" where
  "to_int16 v =
     (if IsInt v then
        if - 32768 \<le> GetInteger v \<and> GetInteger v \<le> 32767 then Inr (of_int (GetInteger v)) else Inl (Too_large ''int16_t'')
      else Inl (Wrong_type ''int''))"

definition to_int32 :: "json \<Rightarrow> config_error + u32" where
  "to_int32 v = (if IsInt v then Inr (of_int (GetInteger v)) else Inl (Wrong_type ''int32_t''))"

definition to_int64 :: "json \<Rightarrow> config_error + u64" where
  "to_int64 v = (if IsInt64 v then Inr (of_int (GetInteger v)) else Inl (Wrong_type ''int64_t''))"

definition to_uint8 :: "json \<Rightarrow> config_error + u8" where
  "to_uint8 v =
     (if IsUint v then if GetInteger v \<le> 255 then Inr (of_int (GetInteger v)) else Inl (Too_large ''uint8_t'')
      else Inl (Wrong_type ''uint''))"

definition to_uint16 :: "json \<Rightarrow> config_error + u16" where
  "to_uint16 v =
     (if IsUint v then if GetInteger v \<le> 65535 then Inr (of_int (GetInteger v)) else Inl (Too_large ''uint16_t'')
      else Inl (Wrong_type ''uint''))"

definition to_uint32 :: "json \<Rightarrow> config_error + u32" where
  "to_uint32 v = (if IsUint v then Inr (of_int (GetInteger v)) else Inl (Wrong_type ''uint32_t''))"

definition to_uint64 :: "json \<Rightarrow> config_error + u64" where
  "to_uint64 v =
     (if IsUint64 v \<or> IsInt64 v \<and> 0 \<le> GetInteger v then Inr (of_int (GetInteger v)) else Inl (Wrong_type ''uint64_t''))"

fun GetDouble :: "json \<Rightarrow> config_error + u64" where
  "GetDouble (J_double d) = Inr d"
| "GetDouble (J_int i) = Inr (double_of_int i)"
| "GetDouble _ = Inl Rapidjson_assert"

definition to_double :: "json \<Rightarrow> config_error + u64" where
  "to_double v = (if IsNumber v then GetDouble v else Inl (Wrong_type ''double''))"

definition to_string :: "json \<Rightarrow> config_error + string" where
  "to_string v = (case v of J_string s \<Rightarrow> Inr s | _ \<Rightarrow> Inl (Wrong_type ''string''))"

text \<open>Converting every element, stopping at the first exception.\<close>

fun convert_all :: "('b \<Rightarrow> config_error + 'a) \<Rightarrow> 'b list \<Rightarrow> config_error + 'a list" where
  "convert_all f [] = Inr []"
| "convert_all f (x # xs) =
     (case f x of
        Inl err \<Rightarrow> Inl err
      | Inr y \<Rightarrow> (case convert_all f xs of Inl err \<Rightarrow> Inl err | Inr ys \<Rightarrow> Inr (y # ys)))"

text \<open>
  \<open>Vector2d\<close>, \<open>Vector3d\<close>, \<open>Vector4d\<close> and \<open>Vector6d\<close> differ in their size \<open>n\<close> only. The type of the first
  element is tested; the others are converted without a test.
\<close>

definition to_vector :: "nat \<Rightarrow> json \<Rightarrow> config_error + u64 list" where
  "to_vector n v =
     (case v of
        J_array vs \<Rightarrow>
          if length vs = n \<and> IsNumber (vs ! 0) then convert_all GetDouble vs else Inl (Wrong_type ''Vector'')
      | _ \<Rightarrow> Inl (Wrong_type ''Vector''))"

definition to_vectorx :: "json \<Rightarrow> config_error + u64 list" where
  "to_vectorx v =
     (case v of
        J_array vs \<Rightarrow>
          if length vs = 0 \<or> IsNumber (vs ! 0) then convert_all GetDouble vs else Inl (Wrong_type ''VectorXd'')
      | _ \<Rightarrow> Inl (Wrong_type ''VectorXd''))"

definition to_std_vector :: "(json \<Rightarrow> config_error + 'a) \<Rightarrow> json \<Rightarrow> config_error + 'a list" where
  "to_std_vector convert v =
     (case v of J_array vs \<Rightarrow> convert_all convert vs | _ \<Rightarrow> Inl (Wrong_type ''vector''))"

definition to_std_array :: "nat \<Rightarrow> (json \<Rightarrow> config_error + 'a) \<Rightarrow> json \<Rightarrow> config_error + 'a list" where
  "to_std_array n convert v =
     (case v of J_array vs \<Rightarrow> if length vs = n then convert_all convert vs else Inl (Wrong_type ''array'')
      | _ \<Rightarrow> Inl (Wrong_type ''array''))"

text \<open>A \<open>std::map\<close> is the list of its entries in the order of the keys.\<close>

definition to_std_map :: "(json \<Rightarrow> config_error + 'a) \<Rightarrow> json \<Rightarrow> config_error + (string \<times> 'a) list" where
  "to_std_map convert v =
     (case v of
        J_object ms \<Rightarrow>
          (case convert_all (\<lambda>k. case FindMember ms k of
               None \<Rightarrow> Inl Rapidjson_assert
             | Some c \<Rightarrow> (case convert c of Inl err \<Rightarrow> Inl err | Inr x \<Rightarrow> Inr (k, x))) (map fst ms) of
             Inl err \<Rightarrow> Inl err
           | Inr kvs \<Rightarrow> Inr (sort_key fst (remdups kvs)))
      | _ \<Rightarrow> Inl (Wrong_type ''object''))"

text \<open>A \<open>std::set\<close> is kept as the list of its elements.\<close>

fun insert_all :: "('b \<Rightarrow> config_error + 'a) \<Rightarrow> 'a list \<Rightarrow> 'b list \<Rightarrow> config_error + 'a list" where
  "insert_all f acc [] = Inr acc"
| "insert_all f acc (x # xs) =
     (case f x of
        Inl err \<Rightarrow> Inl err
      | Inr y \<Rightarrow> if y \<in> set acc then Inl Not_unique else insert_all f (acc @ [y]) xs)"

definition to_std_set :: "(json \<Rightarrow> config_error + 'a) \<Rightarrow> json \<Rightarrow> config_error + 'a list" where
  "to_std_set convert v =
     (case v of J_array vs \<Rightarrow> insert_all convert [] vs | _ \<Rightarrow> Inl (Wrong_type ''array''))"

section \<open>Modification\<close>

text \<open>
  What the document holds after an operation on the handle \<open>(*this)(key)\<close> or \<open>(*this)[size() - 1]\<close>
  left \<open>c\<close> in the value that handle refers to.
\<close>

definition store_member :: "string \<Rightarrow> json \<Rightarrow> json \<Rightarrow> json" where
  "store_member key c v = (case v of J_object ms \<Rightarrow> J_object (SetMember ms key c) | _ \<Rightarrow> v)"

definition store_last :: "json \<Rightarrow> json \<Rightarrow> json" where
  "store_last c v = (case v of J_array vs \<Rightarrow> J_array (butlast vs @ [c]) | _ \<Rightarrow> v)"

text \<open>
  The modifying operations pass \<open>key.c_str()\<close> to RapidJSON: a name ends at its first NUL.
\<close>

definition c_str :: "string \<Rightarrow> string" where
  "c_str s = takeWhile (\<lambda>c. c \<noteq> CHR 0x00) s"

text \<open>\<open>add_impl\<close>, for every scalar type: an existing member keeps its place.\<close>

definition config_add :: "string \<Rightarrow> json \<Rightarrow> json \<Rightarrow> config_error + json" where
  "config_add key value v =
     (case v of
        J_object ms \<Rightarrow>
          if \<not> HasMember ms (c_str key) then Inr (J_object (AddMember ms (c_str key) value))
          else Inr (J_object (SetMember ms (c_str key) value))
      | _ \<Rightarrow> Inl Not_object)"

definition config_add_null :: "string \<Rightarrow> json \<Rightarrow> config_error + json" where
  "config_add_null key v =
     (case v of
        J_object ms \<Rightarrow>
          if \<not> HasMember ms (c_str key) then Inr (J_object (AddMember ms (c_str key) J_null))
          else Inr (J_object (SetMember ms (c_str key) J_null))
      | _ \<Rightarrow> Inl Not_object)"

definition config_push :: "json \<Rightarrow> json \<Rightarrow> config_error + json" where
  "config_push value v = (case v of J_array vs \<Rightarrow> Inr (J_array (vs @ [value])) | _ \<Rightarrow> Inl Not_array)"

definition config_push_null :: "json \<Rightarrow> config_error + json" where
  "config_push_null v = (case v of J_array vs \<Rightarrow> Inr (J_array (vs @ [J_null])) | _ \<Rightarrow> Inl Not_array)"

text \<open>Adding a whole configuration, a new object or a new array replaces an existing member.\<close>

definition config_add_config :: "string \<Rightarrow> json \<Rightarrow> json \<Rightarrow> config_error + json" where
  "config_add_config key value v =
     (case v of
        J_object ms \<Rightarrow>
          let k = c_str key; ms = (if HasMember ms k then RemoveMember ms k else ms) in
          Inr (J_object (AddMember ms k value))
      | _ \<Rightarrow> Inl Not_object)"

definition config_add_object :: "string \<Rightarrow> json \<Rightarrow> config_error + json" where
  "config_add_object key v =
     (case v of
        J_object ms \<Rightarrow>
          let k = c_str key; ms = (if HasMember ms k then RemoveMember ms k else ms) in
          Inr (J_object (AddMember ms k (J_object [])))
      | _ \<Rightarrow> Inl Not_object)"

definition config_array_key :: "string \<Rightarrow> json \<Rightarrow> config_error + json" where
  "config_array_key key v =
     (case v of
        J_object ms \<Rightarrow>
          let k = c_str key; ms = (if HasMember ms k then RemoveMember ms k else ms) in
          Inr (J_object (AddMember ms k (J_array [])))
      | _ \<Rightarrow> Inl Rapidjson_assert)"

definition config_array :: "json \<Rightarrow> config_error + json" where
  "config_array v = (case v of J_array vs \<Rightarrow> Inr (J_array (vs @ [J_array []])) | _ \<Rightarrow> Inl Not_array)"

definition config_object :: "json \<Rightarrow> config_error + json" where
  "config_object v = (case v of J_array vs \<Rightarrow> Inr (J_array (vs @ [J_object []])) | _ \<Rightarrow> Inl Not_array)"

definition config_push_config :: "json \<Rightarrow> json \<Rightarrow> config_error + json" where
  "config_push_config value v = (case v of J_array vs \<Rightarrow> Inr (J_array (vs @ [value])) | _ \<Rightarrow> Inl Not_array)"

definition config_remove :: "string \<Rightarrow> json \<Rightarrow> config_error + json \<times> bool" where
  "config_remove key v =
     (case v of
        J_object ms \<Rightarrow>
          if HasMember ms (c_str key) then Inr (J_object (RemoveMember ms (c_str key)), True) else Inr (v, False)
      | _ \<Rightarrow> Inl Rapidjson_assert)"

section \<open>Merging\<close>

text \<open>
  \<open>load\<close> merges a configuration into the target. \<open>load_members\<close> is its loop over the members of the
  source object \<open>src\<close>. Where both have an object under a name, the loop looks the name up again as a C
  string in the target and in the source and merges what it finds there: a name with a NUL is cut.
\<close>

function (sequential) config_load :: "json \<Rightarrow> json \<Rightarrow> config_error + json"
  and load_members :: "members \<Rightarrow> members \<Rightarrow> members \<Rightarrow> config_error + members" where
  "config_load J_null v = Inr v"
| "config_load target (J_object src) =
     (case target of
        J_object ts \<Rightarrow> (case load_members src src ts of Inl err \<Rightarrow> Inl err | Inr ts \<Rightarrow> Inr (J_object ts))
      | _ \<Rightarrow> if src = [] then Inr target else Inl Rapidjson_assert)"
| "config_load target (J_array vs) =
     (case target of J_array ts \<Rightarrow> Inr (J_array (ts @ vs)) | _ \<Rightarrow> Inr (J_array vs))"
| "config_load target v = Inr v"
| "load_members src [] ts = Inr ts"
| "load_members src ((name, value) # ms) ts =
     (case FindMember ts name of
        None \<Rightarrow> load_members src ms (AddMember ts name value)
      | Some old \<Rightarrow>
          if IsObject value \<and> IsObject old then
            (case FindMember ts (c_str name) of
               None \<Rightarrow> Inl (No_entry (c_str name))
             | Some into \<Rightarrow>
                 (case FindMember src (c_str name) of
                    None \<Rightarrow> Inl (No_entry (c_str name))
                  | Some from \<Rightarrow>
                      (case config_load into from of
                         Inl err \<Rightarrow> Inl err
                       | Inr new \<Rightarrow> load_members src ms (SetMember ts (c_str name) new))))
          else load_members src ms (AddMember (RemoveMember ts name) name value))"
  by pat_completeness auto

lemma size_FindMember: "FindMember src name = Some v \<Longrightarrow> size v < size_list (size_prod (\<lambda>_. 0) size) src"
  by (induction src) (auto simp: FindMember_def split: if_splits)

termination config_load
  by (relation "measures [\<lambda>x. case x of Inl (t, v) \<Rightarrow> size v | Inr (src, ms, ts) \<Rightarrow> size_list (size_prod (\<lambda>_. 0) size) src,
      \<lambda>x. case x of Inl _ \<Rightarrow> 0 | Inr (src, ms, ts) \<Rightarrow> Suc (length ms)]")
    (auto dest: size_FindMember)

end
