(* ===== verification/Msgpack_Builder.thy ===== *)
theory Msgpack_Builder
  imports Mpack_Writer_Contract
begin

text \<open>
  \<open>mc_rtc::MessagePackBuilder\<close> (\<open>MessagePackBuilder.h\<close>, \<open>MessagePackBuilder.cpp\<close>): the encoder mc_rtc's
  logger, GUI and configuration write through. It drives an mpack writer whose buffer is the
  caller's \<open>std::vector<char>\<close> and whose flush function resizes that vector. \<open>resize\<close> either succeeds
  or throws \<open>std::bad_alloc\<close>, which is not modelled; the new bytes are zero. A builder is its writer.
\<close>

section \<open>The flush function\<close>

definition mpack_std_vector_writer_flush :: flush_fn where
  "mpack_std_vector_writer_flush w data =
     (let grow = (\<lambda>w extra.
        let used = mpack_writer_buffer_used w;
            sz = mpack_writer_buffer_size w;
            new_size = grow_size (sz * 2) (used + length extra);
            w = w\<lparr>w_buffer := w_buffer w @ replicate (new_size - sz) 0, w_current := used\<rparr>
        in if 0 < length extra then writer_put w extra else w)
      in case data of
           From_buffer count \<Rightarrow>
             if mpack_writer_buffer_used w = count then w
             else grow (w\<lparr>w_current := count\<rparr>) []
         | External extra \<Rightarrow> grow w extra)"

lemma vector_buffer:
  assumes "writer_wf w" "w_current w = 0" "n \<le> length (w_buffer w)" "n \<noteq> 0"
  shows "mpack_std_vector_writer_flush w (From_buffer n) =
    w\<lparr>w_buffer := w_buffer w @ replicate (length (w_buffer w)) 0, w_current := n\<rparr>"
  using assms grow_size_enough [of n "length (w_buffer w) * 2"]
  by (simp add: mpack_std_vector_writer_flush_def mpack_writer_buffer_used_def mpack_writer_buffer_size_def Let_def)

lemma vector_external:
  assumes "0 < length p"
  shows "mpack_std_vector_writer_flush w (External p) =
    writer_put (w\<lparr>w_buffer := w_buffer w @
      replicate (grow_size (length (w_buffer w) * 2) (w_current w + length p) - length (w_buffer w)) 0\<rparr>) p"
  using assms
  by (simp add: mpack_std_vector_writer_flush_def mpack_writer_buffer_used_def mpack_writer_buffer_size_def Let_def)

interpretation vec: flush_contract mpack_std_vector_writer_flush "\<lambda>_. True"
proof
  fix w n w'
  assume wf: "writer_wf w" "w_flush w" "w_error w = mpack_ok" "w_current w = 0" "n \<le> length (w_buffer w)"
    and w': "w' = mpack_std_vector_writer_flush w (From_buffer n)" "w_error w' = mpack_ok"
  show "writer_wf w' \<and> w_flush w' \<and> writer_output w' = w_context w @ take n (w_buffer w) \<and>
     MPACK_WRITER_MINIMUM_BUFFER_SIZE \<le> mpack_writer_buffer_left w' \<and> True"
  proof (cases "n = 0")
    case True
    then have "w' = w"
      using w' wf by (simp add: mpack_std_vector_writer_flush_def mpack_writer_buffer_used_def Let_def)
    then show ?thesis
      using wf True by (simp add: writer_output_def writer_wf_def mpack_writer_buffer_left_def)
  next
    case False
    then show ?thesis
      using wf w' vector_buffer [OF wf(1,4,5)]
      by (simp add: writer_output_def writer_wf_def mpack_writer_buffer_left_def)
  qed
next
  fix w p w'
  assume wf: "writer_wf w" "w_flush w" "w_error w = mpack_ok" "mpack_writer_buffer_left w < length p"
    and w': "w' = mpack_std_vector_writer_flush w (External p)" "w_error w' = mpack_ok"
  define m where "m = grow_size (length (w_buffer w) * 2) (w_current w + length p)"
  let ?w = "w\<lparr>w_buffer := w_buffer w @ replicate (m - length (w_buffer w)) 0\<rparr>"
  have pos: "0 < length p" "0 < length (w_buffer w) * 2" "w_current w \<le> length (w_buffer w)"
    using wf by (auto simp: writer_wf_def MPACK_WRITER_MINIMUM_BUFFER_SIZE_def)
  have m: "length (w_buffer w) * 2 \<le> m" "w_current w + length p \<le> m"
    unfolding m_def using grow_size_ge [OF pos(2)] by blast+
  have eq: "w' = writer_put ?w p"
    using w'(1) vector_external [OF pos(1), of w] by (simp add: m_def)
  have fits: "w_current ?w + length p \<le> length (w_buffer ?w)"
    using m pos(3) by simp
  then show "writer_wf w' \<and> w_flush w' \<and> writer_output w' = writer_output w @ p"
    using wf m pos(3) writer_put_output [OF fits] unfolding eq
    by (simp add: writer_wf_def writer_simps writer_output_def)
qed

interpretation vec_ok: reliable_flush mpack_std_vector_writer_flush "\<lambda>_. True"
proof
  fix w :: mpack_writer and data :: flush_data
  assume "w_error w = mpack_ok"
  then show "w_error (mpack_std_vector_writer_flush w data) = mpack_ok"
    by (cases data) (simp_all add: mpack_std_vector_writer_flush_def Let_def writer_simps)
qed

text \<open>Nothing ever leaves the vector.\<close>

lemma vec_context: "w_context (mpack_std_vector_writer_flush w data) = w_context w"
  by (cases data) (simp_all add: mpack_std_vector_writer_flush_def Let_def writer_simps)

lemma vec_context_ensure: "mpack_writer_ensure mpack_std_vector_writer_flush w n = (w', ok) \<Longrightarrow> w_context w' = w_context w"
  by (auto simp: mpack_writer_ensure_def mpack_writer_flush_unchecked_def mpack_writer_flag_error_def vec_context Let_def
      split: if_splits)

lemma vec_context_writes [writer_simps]:
  "w_context (MPACK_WRITE_ENCODED mpack_std_vector_writer_flush w n p) = w_context w"
  "w_context (mpack_write_byte_element mpack_std_vector_writer_flush w b) = w_context w"
  "w_context (mpack_write_native mpack_std_vector_writer_flush w p) = w_context w"
  using vec_context_ensure [of w n] vec_context_ensure [of w 1]
  by (auto simp: MPACK_WRITE_ENCODED_def mpack_write_byte_element_def mpack_write_native_def mpack_write_native_straddle_def
      mpack_writer_flush_unchecked_def mpack_writer_flag_error_def vec_context writer_simps Let_def split: prod.split)

lemma vec_context_tag: "w_context (mpack_write_tag mpack_std_vector_writer_flush w t) = w_context w"
  by (cases t) (simp_all add: write_u64_enc write_i64_enc write_header_enc mpack_write_nil_def mpack_write_bool_def
      mpack_write_float_def mpack_write_double_def mpack_writer_flag_error_def writer_simps)

lemma vec_context_str: "w_context (mpack_write_str mpack_std_vector_writer_flush w s n) = w_context w"
  using vec_context_ensure [of w "unat n + 1"]
  by (auto simp: mpack_write_str_def Let_def writer_simps split: prod.split)

section \<open>The builder\<close>

definition builder_new :: "u8 list \<Rightarrow> mpack_writer" where
  "builder_new buffer =
     (let buffer = (if length buffer = 0 then replicate MPACK_BUFFER_SIZE 0 else buffer) in
      mpack_writer_set_flush (mpack_writer_init buffer))"

definition builder_write_nil :: "mpack_writer \<Rightarrow> mpack_writer" where
  "builder_write_nil w = mpack_write_nil mpack_std_vector_writer_flush w"

definition builder_write_bool :: "mpack_writer \<Rightarrow> bool \<Rightarrow> mpack_writer" where
  "builder_write_bool w b = mpack_write_bool mpack_std_vector_writer_flush w b"

definition builder_write_i8 :: "mpack_writer \<Rightarrow> u8 \<Rightarrow> mpack_writer" where
  "builder_write_i8 w i = mpack_write_i8 mpack_std_vector_writer_flush w i"

definition builder_write_i16 :: "mpack_writer \<Rightarrow> u16 \<Rightarrow> mpack_writer" where
  "builder_write_i16 w i = mpack_write_i16 mpack_std_vector_writer_flush w i"

definition builder_write_i32 :: "mpack_writer \<Rightarrow> u32 \<Rightarrow> mpack_writer" where
  "builder_write_i32 w i = mpack_write_i32 mpack_std_vector_writer_flush w i"

definition builder_write_i64 :: "mpack_writer \<Rightarrow> u64 \<Rightarrow> mpack_writer" where
  "builder_write_i64 w i = mpack_write_i64 mpack_std_vector_writer_flush w i"

definition builder_write_u8 :: "mpack_writer \<Rightarrow> u8 \<Rightarrow> mpack_writer" where
  "builder_write_u8 w i = mpack_write_u8 mpack_std_vector_writer_flush w i"

definition builder_write_u16 :: "mpack_writer \<Rightarrow> u16 \<Rightarrow> mpack_writer" where
  "builder_write_u16 w i = mpack_write_u16 mpack_std_vector_writer_flush w i"

definition builder_write_u32 :: "mpack_writer \<Rightarrow> u32 \<Rightarrow> mpack_writer" where
  "builder_write_u32 w i = mpack_write_u32 mpack_std_vector_writer_flush w i"

definition builder_write_u64 :: "mpack_writer \<Rightarrow> u64 \<Rightarrow> mpack_writer" where
  "builder_write_u64 w i = mpack_write_u64 mpack_std_vector_writer_flush w i"

definition builder_write_float :: "mpack_writer \<Rightarrow> u32 \<Rightarrow> mpack_writer" where
  "builder_write_float w f = mpack_write_float mpack_std_vector_writer_flush w f"

definition builder_write_double :: "mpack_writer \<Rightarrow> u64 \<Rightarrow> mpack_writer" where
  "builder_write_double w d = mpack_write_double mpack_std_vector_writer_flush w d"

text \<open>\<open>write(const std::string &)\<close> and \<open>write(const char *, size_t)\<close>: the length is cut to 32 bits.\<close>

definition builder_write_string :: "mpack_writer \<Rightarrow> u8 list \<Rightarrow> mpack_writer" where
  "builder_write_string w s = mpack_write_str mpack_std_vector_writer_flush w s (of_nat (length s))"

definition builder_write_cstr :: "mpack_writer \<Rightarrow> u8 list \<Rightarrow> mpack_writer" where
  "builder_write_cstr w s = mpack_write_cstr mpack_std_vector_writer_flush w s"

definition builder_write_chars :: "mpack_writer \<Rightarrow> u8 list \<Rightarrow> nat \<Rightarrow> mpack_writer" where
  "builder_write_chars w s len = mpack_write_str mpack_std_vector_writer_flush w s (of_nat len)"

definition builder_start_array :: "mpack_writer \<Rightarrow> nat \<Rightarrow> mpack_writer" where
  "builder_start_array w s = mpack_start_array mpack_std_vector_writer_flush w (of_nat s)"

definition builder_finish_array :: "mpack_writer \<Rightarrow> mpack_writer" where
  "builder_finish_array w = mpack_finish_type w mpack_type_array"

definition builder_start_map :: "mpack_writer \<Rightarrow> nat \<Rightarrow> mpack_writer" where
  "builder_start_map w s = mpack_start_map mpack_std_vector_writer_flush w (of_nat s)"

definition builder_finish_map :: "mpack_writer \<Rightarrow> mpack_writer" where
  "builder_finish_map w = mpack_finish_type w mpack_type_map"

definition builder_write_object :: "mpack_writer \<Rightarrow> u8 list \<Rightarrow> mpack_writer" where
  "builder_write_object w data = mpack_write_object_bytes mpack_std_vector_writer_flush w data"

text \<open>
  Eigen vectors and matrices are lists of doubles, by rows, and spatial quantities their parts.
\<close>

definition write_vector :: "mpack_writer \<Rightarrow> u64 list \<Rightarrow> mpack_writer" where
  "write_vector w v = fold (\<lambda>d w. mpack_write_double mpack_std_vector_writer_flush w d) v w"

definition write_matrix :: "mpack_writer \<Rightarrow> u64 list list \<Rightarrow> mpack_writer" where
  "write_matrix w m = fold (\<lambda>row w. fold (\<lambda>d w. mpack_write_double mpack_std_vector_writer_flush w d) row w) m w"

definition builder_write_vectorx :: "mpack_writer \<Rightarrow> u64 list \<Rightarrow> mpack_writer" where
  "builder_write_vectorx w v = builder_finish_array (write_vector (builder_start_array w (length v)) v)"

definition builder_write_vector2 :: "mpack_writer \<Rightarrow> u64 list \<Rightarrow> mpack_writer" where
  "builder_write_vector2 w v = builder_finish_array (write_vector (builder_start_array w 2) v)"

definition builder_write_vector3 :: "mpack_writer \<Rightarrow> u64 list \<Rightarrow> mpack_writer" where
  "builder_write_vector3 w v = builder_finish_array (write_vector (builder_start_array w 3) v)"

definition builder_write_vector4 :: "mpack_writer \<Rightarrow> u64 list \<Rightarrow> mpack_writer" where
  "builder_write_vector4 w v = builder_finish_array (write_vector (builder_start_array w 4) v)"

definition builder_write_vector6 :: "mpack_writer \<Rightarrow> u64 list \<Rightarrow> mpack_writer" where
  "builder_write_vector6 w v = builder_finish_array (write_vector (builder_start_array w 6) v)"

definition builder_write_quaternion :: "mpack_writer \<Rightarrow> u64 \<Rightarrow> u64 \<Rightarrow> u64 \<Rightarrow> u64 \<Rightarrow> mpack_writer" where
  "builder_write_quaternion w qw qx qy qz =
     (let w = builder_start_array w 4; w = builder_write_double w qw; w = builder_write_double w qx;
          w = builder_write_double w qy; w = builder_write_double w qz
      in builder_finish_array w)"

definition builder_write_matrix3 :: "mpack_writer \<Rightarrow> u64 list list \<Rightarrow> mpack_writer" where
  "builder_write_matrix3 w m = builder_finish_array (write_matrix (builder_start_array w 9) m)"

definition builder_write_matrixx :: "mpack_writer \<Rightarrow> nat \<Rightarrow> u64 list list \<Rightarrow> mpack_writer" where
  "builder_write_matrixx w cols m =
     builder_finish_array
       (fold (\<lambda>row w. builder_finish_array
          (fold (\<lambda>d w. builder_write_double w d) row (builder_start_array w cols))) m (builder_start_array w (length m)))"

definition builder_write_ptransform :: "mpack_writer \<Rightarrow> u64 list list \<Rightarrow> u64 list \<Rightarrow> mpack_writer" where
  "builder_write_ptransform w rotation translation =
     builder_finish_array (write_vector (write_matrix (builder_start_array w 12) rotation) translation)"

text \<open>\<open>ForceVecd\<close>, \<open>MotionVecd\<close> and \<open>ImpedanceVecd\<close>: the angular part first.\<close>

definition builder_write_spatial :: "mpack_writer \<Rightarrow> u64 list \<Rightarrow> u64 list \<Rightarrow> mpack_writer" where
  "builder_write_spatial w angular linear =
     builder_finish_array (write_vector (write_vector (builder_start_array w 6) angular) linear)"

text \<open>The size of the message, 0 when the conversion failed; the bytes are in the vector.\<close>

definition builder_finish :: "mpack_writer \<Rightarrow> mpack_writer \<times> nat" where
  "builder_finish w =
     (let w = mpack_writer_destroy mpack_std_vector_writer_flush w in
      if w_error w \<noteq> mpack_ok then (w, 0) else (w, mpack_writer_buffer_used w))"

section \<open>What the builder writes\<close>

text \<open>A builder that can be written to: its writer is in order and nothing has left the vector.\<close>

definition builder_ok :: "mpack_writer \<Rightarrow> bool" where
  "builder_ok w \<longleftrightarrow> w_error w = mpack_ok \<and> writer_wf w \<and> w_flush w \<and> w_context w = []"

definition builder_appends :: "mpack_writer \<Rightarrow> u8 list \<Rightarrow> mpack_writer \<Rightarrow> bool" where
  "builder_appends w p w' \<longleftrightarrow> builder_ok w' \<and> writer_output w' = writer_output w @ p"

lemma builder_ok_ready: "builder_ok w \<Longrightarrow> writer_ready w \<and> w_error w = mpack_ok \<and> w_context w = []"
  by (simp add: builder_ok_def writer_ready_def)

lemma appends_refl: "builder_ok w \<Longrightarrow> builder_appends w [] w"
  by (simp add: builder_appends_def)

lemma appends_seq: "builder_appends w p w' \<Longrightarrow> builder_appends w' q w'' \<Longrightarrow> builder_appends w (p @ q) w''"
  by (simp add: builder_appends_def)

lemma appends_ok: "builder_appends w p w' \<Longrightarrow> builder_ok w'"
  by (simp add: builder_appends_def)

lemma emits_appends: "emits w p w' \<Longrightarrow> w_error w' = mpack_ok \<Longrightarrow> w_context w' = [] \<Longrightarrow> builder_appends w p w'"
  by (simp add: emits_def builder_appends_def builder_ok_def)

lemma appends_tag:
  assumes "builder_ok w" "t \<noteq> Tag_missing"
  shows "builder_appends w (enc_tag t) (mpack_write_tag mpack_std_vector_writer_flush w t)"
  using vec.write_tag [of w t] vec_ok.write_tag_ok [of w t] builder_ok_ready [OF assms(1)] assms(2)
  by (auto intro: emits_appends simp: vec_context_tag)

lemma builder_writes_tags:
  "builder_write_nil w = mpack_write_tag mpack_std_vector_writer_flush w Tag_nil"
  "builder_write_bool w b = mpack_write_tag mpack_std_vector_writer_flush w (Tag_bool b)"
  "builder_write_i8 w i8 = mpack_write_tag mpack_std_vector_writer_flush w (Tag_int (scast i8))"
  "builder_write_i16 w i16 = mpack_write_tag mpack_std_vector_writer_flush w (Tag_int (scast i16))"
  "builder_write_i32 w i32 = mpack_write_tag mpack_std_vector_writer_flush w (Tag_int (scast i32))"
  "builder_write_i64 w i64 = mpack_write_tag mpack_std_vector_writer_flush w (Tag_int i64)"
  "builder_write_u8 w u8 = mpack_write_tag mpack_std_vector_writer_flush w (Tag_uint (ucast u8))"
  "builder_write_u16 w u16 = mpack_write_tag mpack_std_vector_writer_flush w (Tag_uint (ucast u16))"
  "builder_write_u32 w u32 = mpack_write_tag mpack_std_vector_writer_flush w (Tag_uint (ucast u32))"
  "builder_write_u64 w u64 = mpack_write_tag mpack_std_vector_writer_flush w (Tag_uint u64)"
  "builder_write_float w f = mpack_write_tag mpack_std_vector_writer_flush w (Tag_float f)"
  "builder_write_double w d = mpack_write_tag mpack_std_vector_writer_flush w (Tag_double d)"
  "builder_start_array w n = mpack_write_tag mpack_std_vector_writer_flush w (Tag_array (of_nat n))"
  "builder_start_map w n = mpack_write_tag mpack_std_vector_writer_flush w (Tag_map (of_nat n))"
  by (simp_all add: builder_write_nil_def builder_write_bool_def builder_write_i8_def builder_write_i16_def
      builder_write_i32_def builder_write_i64_def builder_write_u8_def builder_write_u16_def builder_write_u32_def
      builder_write_u64_def builder_write_float_def builder_write_double_def builder_start_array_def
      builder_start_map_def write_signed_widen write_unsigned_widen)

lemma finish_noop [simp]: "builder_finish_array w = w" "builder_finish_map w = w"
  by (simp_all add: builder_finish_array_def builder_finish_map_def mpack_finish_type_def)

lemma appends_string:
  assumes "builder_ok w" "length s < 2 ^ 32"
  shows "builder_appends w (enc_str (of_nat (length s)) @ s) (builder_write_string w s)"
    "builder_appends w (enc_str (of_nat (length s)) @ s) (builder_write_chars w s (length s))"
proof -
  have "unat (of_nat (length s) :: u32) = length s"
    using assms(2) by (simp add: unat_of_nat)
  then have "emits w (enc_str (of_nat (length s)) @ s)
      (mpack_write_str mpack_std_vector_writer_flush w s (of_nat (length s)))"
    using vec.write_str [of w "of_nat (length s)" s] builder_ok_ready [OF assms(1)] by simp
  then show "builder_appends w (enc_str (of_nat (length s)) @ s) (builder_write_string w s)"
    "builder_appends w (enc_str (of_nat (length s)) @ s) (builder_write_chars w s (length s))"
    using vec_ok.write_str_ok builder_ok_ready [OF assms(1)]
    by (auto simp: builder_write_string_def builder_write_chars_def vec_context_str intro!: emits_appends)
qed

lemma appends_doubles:
  "builder_ok w \<Longrightarrow> builder_appends w (concat (map (\<lambda>d. enc_tag (Tag_double d)) v)) (write_vector w v)"
proof (induction v arbitrary: w)
  case Nil
  then show ?case by (simp add: write_vector_def appends_refl)
next
  case (Cons d v)
  have "builder_appends w (enc_tag (Tag_double d)) (mpack_write_double mpack_std_vector_writer_flush w d)"
    using appends_tag [OF Cons.prems, of "Tag_double d"] by simp
  from appends_seq [OF this Cons.IH [OF appends_ok [OF this]]] show ?case
    by (simp add: write_vector_def)
qed

lemma builder_new_ok: "length buf = 0 \<or> 32 \<le> length buf \<Longrightarrow> builder_ok (builder_new buf) \<and> writer_output (builder_new buf) = []"
  by (auto simp: builder_new_def mpack_writer_set_flush_def mpack_writer_init_def mpack_writer_clear_def builder_ok_def
      writer_wf_def writer_output_def mpack_writer_buffer_size_def MPACK_WRITER_MINIMUM_BUFFER_SIZE_def
      MPACK_BUFFER_SIZE_def Let_def)

text \<open>A non-empty vector of fewer than 32 bytes is refused, although a vector could grow: nothing is written.\<close>

lemma builder_small_buffer:
  assumes "0 < length buf" "length buf < 32"
  shows "w_error (builder_new buf) = mpack_error_bug" "snd (builder_finish (builder_new buf)) = 0"
  using assms
  by (simp_all add: builder_new_def mpack_writer_set_flush_def mpack_writer_init_def mpack_writer_clear_def
      mpack_writer_flag_error_def mpack_writer_buffer_size_def MPACK_WRITER_MINIMUM_BUFFER_SIZE_def builder_finish_def
      mpack_writer_destroy_def Let_def)

lemma builder_finish_ok:
  assumes "builder_ok w"
  shows "snd (builder_finish w) = length (writer_output w)"
    "take (snd (builder_finish w)) (w_buffer (fst (builder_finish w))) = writer_output w"
  using assms
  by (auto simp: builder_finish_def mpack_writer_destroy_def mpack_std_vector_writer_flush_def builder_ok_def
      writer_wf_def writer_output_def mpack_writer_buffer_used_def Let_def)

end
