(* ===== verification/Config_Msgpack.thy ===== *)
theory Config_Msgpack
  imports Configuration Msgpack_Builder Mpack_Node
begin

text \<open>
  Configurations as MessagePack: \<open>toMessagePack\<close> (\<open>internals/json.h\<close>) writes a document through the
  builder, \<open>fromMessagePack\<close> (\<open>internals/msgpack.h\<close>) rebuilds one from the nodes of a parsed tree.
  The strings of a document are byte strings. Rebuilding follows the nodes, whose depth nothing
  bounds a priori: fuel counts the nested calls and loop turns, and \<open>None\<close> means it ran out.
\<close>

section \<open>Strings as bytes\<close>

definition str_bytes :: "string \<Rightarrow> u8 list" where
  "str_bytes s = map (\<lambda>c. of_nat (of_char c)) s"

definition bytes_str :: "u8 list \<Rightarrow> string" where
  "bytes_str bs = map (\<lambda>b. char_of (unat b)) bs"

section \<open>Writing\<close>

definition toMessagePack_number :: "mpack_writer \<Rightarrow> int \<Rightarrow> mpack_writer" where
  "toMessagePack_number w i =
     (if IsInt (J_int i) then builder_write_i32 w (of_int i)
      else if IsUint (J_int i) then builder_write_u32 w (of_int i)
      else if IsInt64 (J_int i) then builder_write_i64 w (of_int i)
      else if IsUint64 (J_int i) then builder_write_u64 w (of_int i)
      else builder_write_double w (double_of_int i))"

fun toMessagePack :: "json \<Rightarrow> mpack_writer \<Rightarrow> mpack_writer" where
  "toMessagePack J_null w = builder_write_nil w"
| "toMessagePack (J_bool b) w = builder_write_bool w b"
| "toMessagePack (J_object ms) w =
     builder_finish_map
       (fold (\<lambda>(name, v) w. toMessagePack v (builder_write_chars w (str_bytes name) (length name))) ms
         (builder_start_map w (length ms)))"
| "toMessagePack (J_array vs) w =
     builder_finish_array (fold (\<lambda>v w. toMessagePack v w) vs (builder_start_array w (length vs)))"
| "toMessagePack (J_string s) w = builder_write_chars w (str_bytes s) (length s)"
| "toMessagePack (J_int i) w = toMessagePack_number w i"
| "toMessagePack (J_double d) w = builder_write_double w d"

text \<open>\<open>Configuration::toMessagePack(std::vector<char> &)\<close>: the vector afterwards and the message size.\<close>

definition config_toMessagePack :: "json \<Rightarrow> u8 list \<Rightarrow> u8 list \<times> nat" where
  "config_toMessagePack v data = (let (w, n) = builder_finish (toMessagePack v (builder_new data)) in (w_buffer w, n))"

section \<open>Reading\<close>

type_synonym 'a res = "(config_error + 'a) option"

definition res_bind :: "'a res \<Rightarrow> ('a \<Rightarrow> 'b res) \<Rightarrow> 'b res" where
  "res_bind r f = (case r of None \<Rightarrow> None | Some (Inl err) \<Rightarrow> Some (Inl err) | Some (Inr x) \<Rightarrow> f x)"

definition res_lift :: "mpack_tree \<Rightarrow> config_error + json \<Rightarrow> (mpack_tree \<times> json) res" where
  "res_lift t r = Some (case r of Inl err \<Rightarrow> Inl err | Inr v \<Rightarrow> Inr (t, v))"

lemma res_bind_cong [fundef_cong]:
  "r = r' \<Longrightarrow> (\<And>x. r' = Some (Inr x) \<Longrightarrow> f x = f' x) \<Longrightarrow> res_bind r f = res_bind r' f'"
  by (auto simp: res_bind_def split: option.split sum.split)

definition msgpack_toString :: "mpack_tree \<Rightarrow> mpack_node \<Rightarrow> mpack_tree \<times> string" where
  "msgpack_toString t n =
     (let (t, p) = mpack_node_str t n; (t, len) = mpack_node_strlen t n in
      (t, case p of None \<Rightarrow> [] | Some p \<Rightarrow> bytes_str (tree_bytes t p len)))"

text \<open>
  The scalar cases are the same for the overload that adds to a map and the one that pushes to an
  array; \<open>msgpack_scalar\<close> is the value they store.
\<close>

definition msgpack_scalar :: "mpack_tree \<Rightarrow> mpack_node \<Rightarrow> mpack_tree \<times> json" where
  "msgpack_scalar t n =
     (case mpack_node_type t n of
        mpack_type_bool \<Rightarrow> (let (t, b) = mpack_node_bool t n in (t, J_bool b))
      | mpack_type_int \<Rightarrow> (let (t, i) = mpack_node_i64 t n in (t, J_int (sint i)))
      | mpack_type_uint \<Rightarrow> (let (t, u) = mpack_node_u64 t n in (t, J_int (uint u)))
      | mpack_type_float \<Rightarrow> (let (t, f) = mpack_node_float t n in (t, J_double (double_of_float f)))
      | mpack_type_double \<Rightarrow> (let (t, d) = mpack_node_double t n in (t, J_double d))
      | mpack_type_str \<Rightarrow> (let (t, s) = msgpack_toString t n in (t, J_string s))
      | _ \<Rightarrow> (t, J_null))"

function (sequential) fromMessagePack_key :: "nat \<Rightarrow> mpack_tree \<Rightarrow> json \<Rightarrow> string \<Rightarrow> mpack_node \<Rightarrow> (mpack_tree \<times> json) res"
  and fromMessagePack_push :: "nat \<Rightarrow> mpack_tree \<Rightarrow> json \<Rightarrow> mpack_node \<Rightarrow> (mpack_tree \<times> json) res"
  and fromMessagePackArray :: "nat \<Rightarrow> mpack_tree \<Rightarrow> json \<Rightarrow> mpack_node \<Rightarrow> nat \<Rightarrow> (mpack_tree \<times> json) res"
  and fromMessagePackMap :: "nat \<Rightarrow> mpack_tree \<Rightarrow> json \<Rightarrow> mpack_node \<Rightarrow> nat \<Rightarrow> (mpack_tree \<times> json) res" where
  "fromMessagePack_key 0 t config key node = None"
| "fromMessagePack_key (Suc fuel) t config key node =
     (case mpack_node_type t node of
        mpack_type_missing \<Rightarrow> Some (Inr (t, config))
      | mpack_type_nil \<Rightarrow> res_lift t (config_add_null key config)
      | mpack_type_array \<Rightarrow>
          (let (t, _) = mpack_node_array_length t node in
           res_bind (res_lift t (config_array_key key config)) (\<lambda>(t, config).
           res_bind (res_lift t (config_call config key)) (\<lambda>(t, c).
           res_bind (fromMessagePackArray fuel t c node 0) (\<lambda>(t, c). Some (Inr (t, store_member key c config))))))
      | mpack_type_map \<Rightarrow>
          res_bind (res_lift t (config_add_object key config)) (\<lambda>(t, config).
          res_bind (res_lift t (config_call config key)) (\<lambda>(t, c).
          res_bind (fromMessagePackMap fuel t c node 0) (\<lambda>(t, c). Some (Inr (t, store_member key c config)))))
      | mpack_type_bin \<Rightarrow> Some (Inl Unsupported_type)
      | mpack_type_ext \<Rightarrow> Some (Inl Unsupported_type)
      | _ \<Rightarrow> (let (t, v) = msgpack_scalar t node in res_lift t (config_add key v config)))"
| "fromMessagePack_push 0 t config node = None"
| "fromMessagePack_push (Suc fuel) t config node =
     (case mpack_node_type t node of
        mpack_type_missing \<Rightarrow> Some (Inr (t, config))
      | mpack_type_nil \<Rightarrow> res_lift t (config_push_null config)
      | mpack_type_array \<Rightarrow>
          (let (t, _) = mpack_node_array_length t node in
           res_bind (res_lift t (config_array config)) (\<lambda>(t, config).
           res_bind (res_lift t (config_index config (config_size config - 1))) (\<lambda>(t, c).
           res_bind (fromMessagePackArray fuel t c node 0) (\<lambda>(t, c). Some (Inr (t, store_last c config))))))
      | mpack_type_map \<Rightarrow>
          res_bind (res_lift t (config_object config)) (\<lambda>(t, config).
          res_bind (res_lift t (config_index config (config_size config - 1))) (\<lambda>(t, c).
          res_bind (fromMessagePackMap fuel t c node 0) (\<lambda>(t, c). Some (Inr (t, store_last c config)))))
      | mpack_type_bin \<Rightarrow> Some (Inl Unsupported_type)
      | mpack_type_ext \<Rightarrow> Some (Inl Unsupported_type)
      | _ \<Rightarrow> (let (t, v) = msgpack_scalar t node in res_lift t (config_push v config)))"
| "fromMessagePackArray 0 t config node i = None"
| "fromMessagePackArray (Suc fuel) t config node i =
     (let (t, len) = mpack_node_array_length t node in
      if i < len then
        let (t, m) = mpack_node_array_at t node i in
        res_bind (fromMessagePack_push fuel t config m) (\<lambda>(t, config).
          fromMessagePackArray fuel t config node (i + 1))
      else Some (Inr (t, config)))"
| "fromMessagePackMap 0 t config node i = None"
| "fromMessagePackMap (Suc fuel) t config node i =
     (let (t, count) = mpack_node_map_count t node in
      if i < count then
        let (t, k) = mpack_node_map_key_at t node i; (t, key) = msgpack_toString t k;
            (t, m) = mpack_node_map_value_at t node i
        in res_bind (fromMessagePack_key fuel t config key m) (\<lambda>(t, config).
             fromMessagePackMap fuel t config node (i + 1))
      else Some (Inr (t, config)))"
  by pat_completeness auto

termination
  by (relation "measure (\<lambda>x. case x of
      Inl (Inl (fuel, _)) \<Rightarrow> fuel | Inl (Inr (fuel, _)) \<Rightarrow> fuel | Inr (Inl (fuel, _)) \<Rightarrow> fuel | Inr (Inr (fuel, _)) \<Rightarrow> fuel)")
    simp_all

definition fromMessagePack_root :: "nat \<Rightarrow> mpack_tree \<Rightarrow> mpack_node \<Rightarrow> (mpack_tree \<times> json) res" where
  "fromMessagePack_root fuel t root =
     (if mpack_node_type t root = mpack_type_map then fromMessagePackMap fuel t (J_object []) root 0
      else if mpack_node_type t root = mpack_type_array then fromMessagePackArray fuel t (J_array []) root 0
      else
        res_bind (fromMessagePack_key fuel t (J_object []) ''data'' root)
          (\<lambda>(t, config). res_lift t (config_call config ''data'')))"

text \<open>When the message cannot be parsed the configuration is left as it was.\<close>

definition fromMessagePack :: "tree_env \<Rightarrow> nat \<Rightarrow> json \<Rightarrow> u8 list \<Rightarrow> json res" where
  "fromMessagePack env fuel config data =
     (case mpack_tree_parse env fuel (mpack_tree_init_data data) of
        None \<Rightarrow> None
      | Some t \<Rightarrow>
          if t_error t \<noteq> mpack_ok then Some (Inr config)
          else let (t, root) = mpack_tree_root t in
            res_bind (fromMessagePack_root fuel t root) (\<lambda>(t, config). Some (Inr config)))"

definition config_fromMessagePack :: "tree_env \<Rightarrow> nat \<Rightarrow> u8 list \<Rightarrow> json res" where
  "config_fromMessagePack env fuel data = fromMessagePack env fuel (J_object []) data"

end
