(* ===== verification/Configuration_Correct.thy ===== *)
theory Configuration_Correct
  imports Configuration
begin

text \<open>
  What \<open>mc_rtc::Configuration\<close> promises: modifications keep documents well formed and change only
  the entry they name, merging lets the source win wherever it has a val and keeps the rest of
  the target, and conversions return the stored number or an exception.
\<close>

section \<open>Modifications\<close>

lemma add_ok:
  assumes "json_wf v" "json_wf x"
  shows "config_add key x v = Inr v' \<Longrightarrow> json_wf v'" "config_add_null key v = Inr v' \<Longrightarrow> json_wf v'"
    "config_add_config key x v = Inr v' \<Longrightarrow> json_wf v'" "config_add_object key v = Inr v' \<Longrightarrow> json_wf v'"
    "config_array_key key v = Inr v' \<Longrightarrow> json_wf v'" "config_remove key v = Inr (v', b) \<Longrightarrow> json_wf v'"
proof -
  have put: "json_wf (J_object (AddMember (if HasMember ms (c_str key) then RemoveMember ms (c_str key) else ms) (c_str key) y))"
    if "json_wf (J_object ms)" "json_wf y" for ms y
    using that members_wf_simps(1,2) not_HasMember_RemoveMember [of ms "c_str key"] by simp
  have set: "json_wf (J_object (if \<not> HasMember ms (c_str key) then AddMember ms (c_str key) y else SetMember ms (c_str key) y))"
    if "json_wf (J_object ms)" "json_wf y" for ms y
    using that members_wf_simps(2,3) by simp
  have if_Inr: "(if b then Inr (J_object p) else Inr (J_object q)) = Inr v' \<longleftrightarrow> v' = J_object (if b then p else q)" for b p q
    by auto
  have scalars: "json_wf J_null" "json_wf (J_object [])" "json_wf (J_array [])" by simp_all
  show "config_add key x v = Inr v' \<Longrightarrow> json_wf v'" "config_add_null key v = Inr v' \<Longrightarrow> json_wf v'"
    "config_add_config key x v = Inr v' \<Longrightarrow> json_wf v'" "config_add_object key v = Inr v' \<Longrightarrow> json_wf v'"
    "config_array_key key v = Inr v' \<Longrightarrow> json_wf v'" "config_remove key v = Inr (v', b) \<Longrightarrow> json_wf v'"
  proof -
    assume "config_add key x v = Inr v'"
    then show "json_wf v'"
      using assms set by (cases v) (simp_all add: config_add_def if_Inr del: json_wf.simps)
  next
    assume "config_add_null key v = Inr v'"
    then show "json_wf v'"
      using assms(1) set scalars(1) by (cases v) (simp_all add: config_add_null_def if_Inr del: json_wf.simps)
  next
    assume "config_add_config key x v = Inr v'"
    then show "json_wf v'"
      using assms put by (cases v) (simp_all add: config_add_config_def Let_def del: json_wf.simps, blast)
  next
    assume "config_add_object key v = Inr v'"
    then show "json_wf v'"
      using assms(1) put scalars(2) by (cases v) (simp_all add: config_add_object_def Let_def del: json_wf.simps, blast)
  next
    assume "config_array_key key v = Inr v'"
    then show "json_wf v'"
      using assms(1) put scalars(3) by (cases v) (simp_all add: config_array_key_def Let_def del: json_wf.simps, blast)
  next
    assume "config_remove key v = Inr (v', b)"
    then show "json_wf v'"
      using assms(1) members_wf_simps(1) by (cases v) (auto simp: config_remove_def simp del: json_wf.simps split: if_splits)
  qed
qed

section \<open>Lookups after modifications\<close>

lemma find_after_put:
  assumes "json_wf v" "c_str key = key"
  shows "config_add key x v = Inr v' \<Longrightarrow> config_find v' k = (if k = key then Some x else config_find v k)"
    "config_add_config key x v = Inr v' \<Longrightarrow> config_find v' k = (if k = key then Some x else config_find v k)"
    "config_remove key v = Inr (v', b) \<Longrightarrow> config_find v' k = (if k = key then None else config_find v k)"
proof -
  have m: "map_of (ms @ [(key, x)]) k = (if k = key then Some x else map_of ms k)" if "key \<notin> fst ` set ms" for ms
    using map_of_append_new [OF that] by simp
  show "config_add key x v = Inr v' \<Longrightarrow> config_find v' k = (if k = key then Some x else config_find v k)"
    using assms
    by (cases v) (auto simp: config_add_def config_find_def member_defs m map_of_SetMember simp del: map_of_append split: if_splits,
        force)
  show "config_add_config key x v = Inr v' \<Longrightarrow> config_find v' k = (if k = key then Some x else config_find v k)"
    using assms m not_HasMember_RemoveMember [of _ key]
    by (cases v) (auto simp: config_add_config_def config_find_def member_defs map_of_RemoveMember Let_def
        simp del: map_of_append split: if_splits)
  show "config_remove key v = Inr (v', b) \<Longrightarrow> config_find v' k = (if k = key then None else config_find v k)"
    using assms
    by (cases v) (auto simp: config_remove_def config_find_def member_defs map_of_RemoveMember map_of_eq_None_iff split: if_splits)
qed

section \<open>Merging\<close>

text \<open>
  Objects are merged under their names as C strings, so that merging needs names without NUL for the
  objects inside the source.
\<close>

fun merge_names :: "json \<Rightarrow> bool" where
  "merge_names (J_object ms) = list_all (\<lambda>(n, v). (IsObject v \<longrightarrow> c_str n = n) \<and> merge_names v) ms"
| "merge_names _ = True"

lemma FindMember_merge_names:
  "merge_names (J_object ms) \<Longrightarrow> FindMember ms name = Some v \<Longrightarrow> merge_names v \<and> (IsObject v \<longrightarrow> c_str name = name)"
  by (auto simp: FindMember_def list_all_iff dest!: map_of_SomeD)

lemma config_find_merge_names: "merge_names s \<Longrightarrow> config_find s k = Some v \<Longrightarrow> merge_names v"
  by (cases s) (auto simp: config_find_def simp del: merge_names.simps(1) dest: FindMember_merge_names)

text \<open>The entry that merging leaves under one name.\<close>

definition merged :: "json option \<Rightarrow> json option \<Rightarrow> config_error + json option" where
  "merged old new =
     (case new of
        None \<Rightarrow> Inr old
      | Some v \<Rightarrow>
          (case old of
             None \<Rightarrow> Inr (Some v)
           | Some o' \<Rightarrow> if IsObject v \<and> IsObject o' then map_sum id Some (config_load o' v) else Inr (Some v)))"

lemma load_members_ok:
  assumes "json_wf (J_object src)" "json_wf (J_object ts)" "set ms \<subseteq> set src" "distinct (map fst ms)"
    and names: "\<And>n v. FindMember src n = Some v \<Longrightarrow> IsObject v \<Longrightarrow> c_str n = n"
    and IH: "\<And>v old name. FindMember src name = Some v \<Longrightarrow> IsObject v \<Longrightarrow> IsObject old \<Longrightarrow> json_wf old \<Longrightarrow>
      \<exists>r. config_load old v = Inr r \<and> json_wf r \<and> IsObject r"
  shows "\<exists>rs. load_members src ms ts = Inr rs \<and> json_wf (J_object rs) \<and>
    (\<forall>k. merged (map_of ts k) (map_of ms k) = Inr (map_of rs k))"
  using assms(2-4)
proof (induction ms arbitrary: ts)
  case (Cons m ms)
  obtain name val where m: "m = (name, val)" by fastforce
  have src: "FindMember src name = Some val" "json_wf val"
    using Cons.prems(2) assms(1) m by (auto simp: FindMember_def list_all_iff)
  have fresh: "map_of ms name = None"
    using Cons.prems(3) m by (simp add: map_of_eq_None_iff)
  have step: "\<exists>rs. load_members src ms ts' = Inr rs \<and> json_wf (J_object rs) \<and>
      (\<forall>k. merged (map_of ts k) (map_of (m # ms) k) = Inr (map_of rs k))"
    if ts': "json_wf (J_object ts')" "map_of ts' = (map_of ts)(name \<mapsto> x)" "merged (map_of ts name) (Some val) = Inr (Some x)"
    for ts' x
  proof -
    obtain rs where rs: "load_members src ms ts' = Inr rs" "json_wf (J_object rs)"
      "\<And>k. merged (map_of ts' k) (map_of ms k) = Inr (map_of rs k)"
      using Cons.IH [OF ts'(1)] Cons.prems m by auto
    have "merged (map_of ts k) (map_of (m # ms) k) = Inr (map_of rs k)" for k
      using rs(3) [of k] ts'(2,3) fresh m by (cases "k = name") (auto simp: merged_def)
    with rs show ?thesis by blast
  qed
  show ?case
  proof (cases "map_of ts name")
    case None
    then have n: "name \<notin> fst ` set ts" by (simp add: map_of_eq_None_iff)
    then have "json_wf (J_object (AddMember ts name val))"
      using Cons.prems(1) src(2) members_wf_simps(2) by (simp add: HasMember_iff del: json_wf.simps)
    with None step [of "AddMember ts name val" val] map_of_append_new [OF n] m show ?thesis
      by (simp add: member_defs merged_def)
  next
    case (Some old)
    show ?thesis
    proof (cases "IsObject val \<and> IsObject old")
      case True
      have old: "json_wf old"
        using Some Cons.prems(1) by (auto simp: list_all_iff dest!: map_of_SomeD)
      with IH [OF src(1)] True obtain r where r: "config_load old val = Inr r" "json_wf r" by blast
      have "json_wf (J_object (SetMember ts name r))"
        using Cons.prems(1) r(2) by (rule members_wf_simps(3))
      moreover have "map_of (SetMember ts name r) = (map_of ts)(name \<mapsto> r)"
        by (rule map_of_SetMember_Some [OF Some])
      moreover have "merged (map_of ts name) (Some val) = Inr (Some r)"
        using Some True r by (simp add: merged_def)
      ultimately show ?thesis
        using step [of "SetMember ts name r" r] Some True src r m names [OF src(1)] by (simp add: FindMember_def del: json_wf.simps)
    next
      case False
      let ?ts = "AddMember (RemoveMember ts name) name val"
      have d: "distinct (map fst ts)" using Cons.prems(1) by simp
      have "json_wf (J_object ?ts)"
        using members_wf_simps [OF Cons.prems(1)] members_wf_simps(2) src(2) not_HasMember_RemoveMember [OF d] by blast
      moreover have "map_of ?ts = (map_of ts)(name \<mapsto> val)"
        using map_of_append_new [of name "RemoveMember ts name"] not_HasMember_RemoveMember [OF d, of name]
        by (simp add: member_defs map_of_RemoveMember [OF d])
      moreover have "merged (map_of ts name) (Some val) = Inr (Some val)"
        using Some False by (auto simp: merged_def)
      ultimately show ?thesis
        using step [of ?ts val] Some False m by (auto simp: FindMember_def simp del: json_wf.simps)
    qed
  qed
qed (simp add: merged_def)

lemma load_objects:
  "json_wf t \<Longrightarrow> json_wf s \<Longrightarrow> IsObject t \<Longrightarrow> IsObject s \<Longrightarrow> merge_names s \<Longrightarrow>
   \<exists>r. config_load t s = Inr r \<and> json_wf r \<and> IsObject r \<and>
     (\<forall>k. merged (config_find t k) (config_find s k) = Inr (config_find r k))"
proof (induction "size s" arbitrary: t s rule: less_induct)
  case less
  obtain ts src where ts: "t = J_object ts" "s = J_object src"
    using less.prems by (cases t; cases s) auto
  have "\<exists>rs. load_members src src ts = Inr rs \<and> json_wf (J_object rs) \<and>
      (\<forall>k. merged (map_of ts k) (map_of src k) = Inr (map_of rs k))"
  proof (rule load_members_ok)
    fix v old name
    assume v: "FindMember src name = Some v" "IsObject v" "IsObject old" "json_wf old"
    have "json_wf v"
      using v(1) less.prems(2) ts by (intro FindMember_wf) auto
    moreover have "merge_names v"
      using FindMember_merge_names v(1) less.prems(5) unfolding ts(2) by blast
    moreover have "size v < size s"
      using size_FindMember [OF v(1)] ts by simp
    ultimately show "\<exists>r. config_load old v = Inr r \<and> json_wf r \<and> IsObject r"
      using less.hyps [of v old] v by blast
  next
    fix n v
    assume "FindMember src n = Some v" "IsObject v"
    then show "c_str n = n"
      using FindMember_merge_names less.prems(5) unfolding ts(2) by blast
  qed (use less.prems ts in auto)
  then obtain rs where "load_members src src ts = Inr rs" "json_wf (J_object rs)"
    "\<forall>k. merged (map_of ts k) (map_of src k) = Inr (map_of rs k)" by blast
  with ts show ?case by (auto simp: config_find_def FindMember_def simp del: json_wf.simps)
qed

lemma load_merged:
  assumes "json_wf t" "json_wf s" "IsObject t" "IsObject s" "merge_names s" "config_load t s = Inr r"
  shows "merged (config_find t k) (config_find s k) = Inr (config_find r k)"
  using load_objects [OF assms(1-5)] assms(6) by auto

text \<open>The same along whole paths.\<close>

lemma config_find_wf: "json_wf v \<Longrightarrow> config_find v k = Some c \<Longrightarrow> json_wf c"
  by (cases v) (auto simp: config_find_def intro: FindMember_wf)

lemma config_find_object: "config_find v k = Some c \<Longrightarrow> IsObject v"
  by (cases v) (auto simp: config_find_def)

lemma load_path_source:
  "json_wf t \<Longrightarrow> json_wf s \<Longrightarrow> IsObject t \<Longrightarrow> IsObject s \<Longrightarrow> merge_names s \<Longrightarrow> config_load t s = Inr r \<Longrightarrow>
   config_find_path s p = Some x \<Longrightarrow> \<not> IsObject x \<Longrightarrow> config_find_path r p = Some x"
proof (induction p arbitrary: t s r)
  case (Cons k p)
  obtain v where v: "config_find s k = Some v" "config_find_path v p = Some x"
    using Cons.prems(7) by (auto split: option.splits)
  have r: "merged (config_find t k) (Some v) = Inr (config_find r k)"
    using load_merged [OF Cons.prems(1-6), of k] v(1) by simp
  show ?case
  proof (cases "\<exists>c. config_find t k = Some c \<and> IsObject c \<and> IsObject v")
    case True
    then obtain c where c: "config_find t k = Some c" "IsObject c" "IsObject v" by blast
    have wf: "json_wf c" "json_wf v"
      using config_find_wf c(1) v(1) Cons.prems(1,2) by blast+
    have names: "merge_names v"
      using config_find_merge_names [OF Cons.prems(5) v(1)] .
    obtain r' where r': "config_load c v = Inr r'"
      using load_objects [OF wf c(2,3) names] by blast
    with r c have "config_find r k = Some r'" by (simp add: merged_def)
    with Cons.IH [OF wf c(2,3) names r' v(2) Cons.prems(8)] show ?thesis by simp
  next
    case False
    with r have "config_find r k = Some v"
      by (auto simp: merged_def split: option.splits if_splits)
    with v show ?thesis by simp
  qed
qed simp

text \<open>A path the source says nothing about: it leaves the source at a missing name.\<close>

fun untouched :: "json \<Rightarrow> string list \<Rightarrow> bool" where
  "untouched s [] = False"
| "untouched s (k # p) = (case config_find s k of None \<Rightarrow> True | Some c \<Rightarrow> IsObject c \<and> untouched c p)"

lemma untouched_None: "untouched s p \<Longrightarrow> config_find_path s p = None"
  by (induction s p rule: untouched.induct) (auto split: option.splits)

lemma load_path_target:
  "json_wf t \<Longrightarrow> json_wf s \<Longrightarrow> IsObject t \<Longrightarrow> IsObject s \<Longrightarrow> merge_names s \<Longrightarrow> config_load t s = Inr r \<Longrightarrow>
   untouched s p \<Longrightarrow> config_find_path r p = config_find_path t p"
proof (induction p arbitrary: t s r)
  case (Cons k p)
  have r: "merged (config_find t k) (config_find s k) = Inr (config_find r k)"
    by (rule load_merged [OF Cons.prems(1-6)])
  show ?case
  proof (cases "config_find s k")
    case None
    with r show ?thesis by (simp add: merged_def)
  next
    case (Some v)
    with Cons.prems(7) have v: "IsObject v" "untouched v p" by auto
    show ?thesis
    proof (cases "\<exists>c. config_find t k = Some c \<and> IsObject c")
      case True
      then obtain c where c: "config_find t k = Some c" "IsObject c" by blast
      have wf: "json_wf c" "json_wf v"
        using config_find_wf c(1) Some Cons.prems(1,2) by blast+
      have names: "merge_names v"
        using config_find_merge_names [OF Cons.prems(5) Some] .
      obtain r' where r': "config_load c v = Inr r'"
        using load_objects [OF wf c(2) v(1) names] by blast
      with r c Some v have "config_find r k = Some r'" by (simp add: merged_def)
      with Cons.IH [OF wf c(2) v(1) names r' v(2)] c show ?thesis by simp
    next
      case False
      with r Some have "config_find r k = Some v"
        by (auto simp: merged_def split: option.splits if_splits)
      moreover have "config_find_path c p = None" if "config_find t k = Some c" for c
        using that False v(2) by (cases p) (auto simp: config_find_def split: json.splits option.splits)
      ultimately show ?thesis
        using untouched_None [OF v(2)] by (auto split: option.splits)
    qed
  qed
qed simp

section \<open>Conversions\<close>

lemma of_int_unsigned: "0 \<le> i \<Longrightarrow> i < 2 ^ LENGTH('a) \<Longrightarrow> uint (of_int i :: 'a::len word) = i"
  by (simp add: unsigned_of_int take_bit_int_eq_self)

lemma of_int_signed:
  "- (2 ^ (LENGTH('a) - 1)) \<le> i \<Longrightarrow> i < 2 ^ (LENGTH('a) - 1) \<Longrightarrow> sint (of_int i :: 'a::len word) = i"
  by (simp add: signed_of_int signed_take_bit_int_eq_self)

text \<open>What a conversion to an integer type of range \<open>lo .. hi\<close> gives: the stored integer, or an exception.\<close>

definition converts_in_range :: "json \<Rightarrow> (config_error + int) \<Rightarrow> int \<Rightarrow> int \<Rightarrow> bool" where
  "converts_in_range v r lo hi \<longleftrightarrow>
     (case r of
        Inr z \<Rightarrow> v = J_int z \<and> lo \<le> z \<and> z \<le> hi
      | Inl _ \<Rightarrow> (\<forall>z. v = J_int z \<longrightarrow> z < lo \<or> hi < z))"

lemmas converts_defs = converts_in_range_def to_int8_def to_int16_def to_int32_def to_int64_def to_uint8_def
  to_uint16_def to_uint32_def to_uint64_def

lemma integer_conversions:
  "converts_in_range v (map_sum id sint (to_int8 v)) (- 128) 127"
  "converts_in_range v (map_sum id sint (to_int16 v)) (- 32768) 32767"
  "converts_in_range v (map_sum id sint (to_int32 v)) (- (2 ^ 31)) (2 ^ 31 - 1)"
  "converts_in_range v (map_sum id sint (to_int64 v)) (- (2 ^ 63)) (2 ^ 63 - 1)"
  "converts_in_range v (map_sum id uint (to_uint8 v)) 0 255"
  "converts_in_range v (map_sum id uint (to_uint16 v)) 0 65535"
  "converts_in_range v (map_sum id uint (to_uint32 v)) 0 (2 ^ 32 - 1)"
  "json_wf v \<Longrightarrow> converts_in_range v (map_sum id uint (to_uint64 v)) 0 (2 ^ 64 - 1)"
  by (cases v; simp add: converts_defs of_int_signed of_int_unsigned; linarith?)+

end
