(* ===== verification/Config_Msgpack_Correct.thy ===== *)
theory Config_Msgpack_Correct
  imports Config_Msgpack Configuration_Correct Mpack_Tree_Loop Mpack_Node_Correct
begin

text \<open>
  A configuration written as MessagePack and read back is the same configuration: the writer
  emits the encoding of the value the document stands for, the tree parser finds that value, and
  rebuilding stores its entries in the same order.
\<close>

section \<open>The value of a document\<close>

definition number_value :: "int \<Rightarrow> mp_value" where
  "number_value i =
     (if IsInt (J_int i) \<or> \<not> IsUint (J_int i) \<and> IsInt64 (J_int i) then MP_scalar (Tag_int (of_int i))
      else MP_scalar (Tag_uint (of_int i)))"

fun json_value :: "json \<Rightarrow> mp_value" where
  "json_value J_null = MP_scalar Tag_nil"
| "json_value (J_bool b) = MP_scalar (Tag_bool b)"
| "json_value (J_int i) = number_value i"
| "json_value (J_double d) = MP_scalar (Tag_double d)"
| "json_value (J_string s) = MP_str (str_bytes s)"
| "json_value (J_array vs) = MP_array (map json_value vs)"
| "json_value (J_object ms) = MP_map (map (\<lambda>(n, v). (MP_str (str_bytes n), json_value v)) ms)"

text \<open>
  The documents that survive: integers in range, sizes below 2 to the 32, names distinct and free
  of NUL.
\<close>

fun json_packable :: "json \<Rightarrow> bool" where
  "json_packable (J_int i) = (- (2 ^ 63) \<le> i \<and> i < 2 ^ 64)"
| "json_packable (J_string s) = (length s < 2 ^ 32)"
| "json_packable (J_array vs) = (length vs < 2 ^ 32 \<and> list_all json_packable vs)"
| "json_packable (J_object ms) =
     (length ms < 2 ^ 32 \<and> distinct (map fst ms) \<and>
      list_all (\<lambda>(n, v). length n < 2 ^ 32 \<and> c_str n = n \<and> json_packable v) ms)"
| "json_packable _ = True"

lemma length_str_bytes [simp]: "length (str_bytes s) = length s"
  by (simp add: str_bytes_def)

lemma bytes_str_bytes [simp]: "bytes_str (str_bytes s) = s"
proof -
  have "char_of (unat (of_nat (of_char c) :: u8)) = c" for c
  proof -
    have "(of_char c :: nat) < 256" by simp
    then show ?thesis by (simp add: unat_of_nat)
  qed
  then show ?thesis
    by (simp add: bytes_str_def str_bytes_def o_def)
qed

lemma packable_value_ok: "json_packable v \<Longrightarrow> value_ok ext (json_value v)"
proof (induction v)
  case (J_object ms)
  then show ?case by (fastforce simp: list_all_iff)
qed (auto simp: list_all_iff number_value_def)

section \<open>Writing\<close>

lemma appends_number:
  assumes "builder_ok w" "json_packable (J_int i)"
  shows "builder_appends w (enc_value (number_value i)) (toMessagePack_number w i)"
proof -
  have s: "- (2 ^ 31) \<le> i \<Longrightarrow> i < 2 ^ 31 \<Longrightarrow> scast (of_int i :: u32) = (of_int i :: u64)"
    by (simp add: scast_eq of_int_signed)
  have u: "0 \<le> i \<Longrightarrow> i < 2 ^ 32 \<Longrightarrow> ucast (of_int i :: u32) = (of_int i :: u64)"
    by (simp add: ucast_eq of_int_unsigned)
  show ?thesis
    using assms(2) appends_tag [OF assms(1)]
    by (auto simp: toMessagePack_number_def number_value_def builder_writes_tags s u simp del: mpack_write_tag.simps enc_tag.simps)
qed

lemma appends_fold:
  assumes "\<And>x w. x \<in> set xs \<Longrightarrow> builder_ok w \<Longrightarrow> builder_appends w (g x) (f x w)" "builder_ok w"
  shows "builder_appends w (concat (map g xs)) (fold f xs w)"
  using assms
proof (induction xs arbitrary: w)
  case (Cons x xs)
  have x: "builder_appends w (g x) (f x w)"
    using Cons.prems by simp
  have "builder_appends (f x w) (concat (map g xs)) (fold f xs (f x w))"
    using Cons.prems appends_ok [OF x] by (intro Cons.IH) auto
  from appends_seq [OF x this] show ?case by simp
qed (simp add: appends_refl)

lemma appends_json:
  "json_packable v \<Longrightarrow> builder_ok w \<Longrightarrow> builder_appends w (enc_value (json_value v)) (toMessagePack v w)"
proof (induction v arbitrary: w)
  case (J_array vs)
  have h: "builder_appends w (enc_tag (Tag_array (of_nat (length vs)))) (builder_start_array w (length vs))"
    using appends_tag [OF J_array.prems(2)] by (simp add: builder_writes_tags del: mpack_write_tag.simps enc_tag.simps)
  have "builder_appends (builder_start_array w (length vs)) (concat (map (\<lambda>v. enc_value (json_value v)) vs))
      (fold toMessagePack vs (builder_start_array w (length vs)))"
    using J_array appends_ok [OF h] by (intro appends_fold) (auto simp: list_all_iff)
  from appends_seq [OF h this] show ?case
    by (simp add: o_def)
next
  case (J_object ms)
  let ?f = "\<lambda>(name, v) w. toMessagePack v (builder_write_chars w (str_bytes name) (length name))"
  let ?g = "\<lambda>(name, v). enc_value (MP_str (str_bytes name)) @ enc_value (json_value v)"
  have h: "builder_appends w (enc_tag (Tag_map (of_nat (length ms)))) (builder_start_map w (length ms))"
    using appends_tag [OF J_object.prems(2)] by (simp add: builder_writes_tags del: mpack_write_tag.simps enc_tag.simps)
  have "builder_appends (builder_start_map w (length ms)) (concat (map ?g ms)) (fold ?f ms (builder_start_map w (length ms)))"
  proof (rule appends_fold [OF _ appends_ok [OF h]])
    fix x w
    assume x: "x \<in> set ms" "builder_ok w"
    obtain name v where nv: "x = (name, v)" by fastforce
    have ok: "length name < 2 ^ 32" "json_packable v"
      using x(1) nv J_object.prems(1) by (auto simp: list_all_iff)
    have k: "builder_appends w (enc_value (MP_str (str_bytes name))) (builder_write_chars w (str_bytes name) (length name))"
      using appends_string(2) [OF x(2), of "str_bytes name"] ok(1) by simp
    have "builder_appends (builder_write_chars w (str_bytes name) (length name)) (enc_value (json_value v))
        (toMessagePack v (builder_write_chars w (str_bytes name) (length name)))"
      using J_object.IH [of x v] x(1) nv ok(2) appends_ok [OF k] by (auto simp: snds.simps)
    from appends_seq [OF k this] nv show "builder_appends w (?g x) (?f x w)" by simp
  qed
  note appends = appends_seq [OF h this]
  have "map (\<lambda>(k, v). enc_value k @ enc_value v) (map (\<lambda>(n, v). (MP_str (str_bytes n), json_value v)) ms) = map ?g ms"
    by (simp add: o_def) auto
  with appends show ?case
    by (simp del: map_map enc_tag.simps)
next
  case (J_string s)
  then show ?case
    using appends_string(2) [of w "str_bytes s"] by simp
next
  case (J_int i)
  then show ?case
    using appends_number by simp
qed (use appends_tag in \<open>simp_all add: builder_writes_tags del: mpack_write_tag.simps enc_tag.simps\<close>)

lemma toMessagePack_output:
  assumes "json_packable v" "length buf = 0 \<or> 32 \<le> length buf"
  shows "(let (data, n) = config_toMessagePack v buf in take n data) = enc_value (json_value v)"
    "snd (config_toMessagePack v buf) = length (enc_value (json_value v))"
proof -
  have new: "builder_ok (builder_new buf)" "writer_output (builder_new buf) = []"
    using builder_new_ok [OF assms(2)] by auto
  have w: "builder_ok (toMessagePack v (builder_new buf))"
    "writer_output (toMessagePack v (builder_new buf)) = enc_value (json_value v)"
    using appends_json [OF assms(1) new(1)] new(2) by (auto simp: builder_appends_def)
  show "(let (data, n) = config_toMessagePack v buf in take n data) = enc_value (json_value v)"
    "snd (config_toMessagePack v buf) = length (enc_value (json_value v))"
    using builder_finish_ok [OF w(1)] w(2) by (simp_all add: config_toMessagePack_def case_prod_beta)
qed

section \<open>Reading\<close>

text \<open>A node that holds what the writer emitted for a document.\<close>

definition holds_json :: "mpack_tree \<Rightarrow> mpack_node \<Rightarrow> json \<Rightarrow> bool" where
  "holds_json t n v \<longleftrightarrow> t_error t = mpack_ok \<and> node_holds t n (value_normal (json_value v))"

lemma normal_number:
  assumes "json_packable (J_int i)"
  shows "value_normal (number_value i) = MP_scalar (if i < 0 then Tag_int (of_int i) else Tag_uint (of_int i))"
proof -
  have "- (2 ^ 63) \<le> i \<Longrightarrow> i < 2 ^ 63 \<Longrightarrow> sint (of_int i :: u64) = i"
    using of_int_signed [of i, where 'a = 64] by simp
  with assms show ?thesis
    by (auto simp: number_value_def tag_normal_def)
qed

lemma node_string:
  assumes "t_error t = mpack_ok" "node_holds t n (MP_str (str_bytes s))"
  shows "msgpack_toString t n = (t, s)"
proof -
  have "node_type t n = mpack_type_str"
    using data_type_iff(2) [OF assms(2,1)] by simp
  moreover have "tree_bytes t (mpack_node_data_unchecked t n) (unat (node_len t n)) = str_bytes s"
    using node_bytes_holds(1) [OF assms(2)] by (simp add: node_bytes_def)
  ultimately show ?thesis
    using assms(1) by (simp add: msgpack_toString_def mpack_node_str_def mpack_node_strlen_def mpack_node_error_def)
qed

lemma node_scalar:
  assumes "holds_json t n v" "json_packable v" "\<not> IsNull v" "\<not> IsArray v" "\<not> IsObject v"
  shows "msgpack_scalar t n = (t, v)"
    "mpack_node_type t n \<in> {mpack_type_bool, mpack_type_int, mpack_type_uint, mpack_type_double, mpack_type_str}"
proof -
  have ok: "t_error t = mpack_ok" and h: "node_holds t n (value_normal (json_value v))"
    using assms(1) by (simp_all add: holds_json_def)
  have ty: "mpack_node_type t n = tag_type (value_tag (value_normal (json_value v)))"
    "mpack_node_type t n = node_type t n"
    using node_type_holds [OF h ok] ok by (simp_all add: mpack_node_type_def mpack_node_error_def)
  have tag: "mpack_node_tag t n = value_tag (value_normal (json_value v))"
    by (rule node_tag_holds [OF h ok])
  show "msgpack_scalar t n = (t, v)"
  proof (cases v)
    case (J_int i)
    have "apsnd sint (mpack_node_i64 t n) = (t, i)" if "i < 0"
      using int_accessors_signed(4) [OF h ok] that J_int assms(2) normal_number [of i] of_int_signed [of i, where 'a = 64]
      by (simp add: int_in_range_def)
    moreover have "apsnd uint (mpack_node_u64 t n) = (t, i)" if "\<not> i < 0"
      using int_accessors_unsigned(4) [OF h ok] that J_int assms(2) normal_number [of i] of_int_unsigned [of i, where 'a = 64]
      by (simp add: int_in_range_def)
    ultimately show ?thesis
      using ty(1) J_int assms(2) normal_number [of i]
      by (cases "i < 0"; cases "mpack_node_i64 t n"; cases "mpack_node_u64 t n") (simp_all add: msgpack_scalar_def)
  next
    case (J_string s)
    then show ?thesis
      using ty(1) node_string [OF ok] h by (simp add: msgpack_scalar_def)
  qed (use ty tag ok assms(3-5) in \<open>auto simp: msgpack_scalar_def mpack_node_bool_def mpack_node_double_def
      mpack_node_error_def mpack_node_tag_def tag_normal_def\<close>)
  show "mpack_node_type t n \<in> {mpack_type_bool, mpack_type_int, mpack_type_uint, mpack_type_double, mpack_type_str}"
    unfolding ty(1) using assms(2-5) by (cases v) (auto simp: normal_number tag_normal_def)
qed

text \<open>The nested calls and loop turns that rebuilding a document takes.\<close>

fun json_weight :: "json \<Rightarrow> nat" where
  "json_weight (J_array vs) = 2 + sum_list (map (\<lambda>v. Suc (json_weight v)) vs)"
| "json_weight (J_object ms) = 2 + sum_list (map (\<lambda>(n, v). Suc (json_weight v)) ms)"
| "json_weight _ = 1"

definition reads_json :: "json \<Rightarrow> bool" where
  "reads_json v \<longleftrightarrow>
     (\<forall>t n fuel. holds_json t n v \<longrightarrow> json_packable v \<longrightarrow> json_weight v \<le> fuel \<longrightarrow>
        (\<forall>xs. fromMessagePack_push fuel t (J_array xs) n = Some (Inr (t, J_array (xs @ [v])))) \<and>
        (\<forall>ms key. key \<notin> fst ` set ms \<longrightarrow> c_str key = key \<longrightarrow>
           fromMessagePack_key fuel t (J_object ms) key n = Some (Inr (t, J_object (ms @ [(key, v)])))))"

lemma holds_array:
  assumes "holds_json t n (J_array vs)"
  shows "mpack_node_array_length t n = (t, length vs)"
    "i < length vs \<Longrightarrow> \<exists>m. mpack_node_array_at t n i = (t, m) \<and> holds_json t m (vs ! i)"
    "mpack_node_type t n = mpack_type_array"
proof -
  have ok: "t_error t = mpack_ok" and h: "node_holds t n (MP_array (map (value_normal \<circ> json_value) vs))"
    using assms by (simp_all add: holds_json_def)
  have "unat (node_len t n) = length vs" "node_type t n = mpack_type_array"
    using h by (auto simp: node_holds_def children_node_def elim!: represents_arrayE)
  then show "mpack_node_array_length t n = (t, length vs)" "mpack_node_type t n = mpack_type_array"
    using ok by (simp_all add: mpack_node_array_length_def mpack_node_error_def mpack_node_type_def)
  show "\<exists>m. mpack_node_array_at t n i = (t, m) \<and> holds_json t m (vs ! i)" if "i < length vs"
    using array_at_holds(1) [OF h ok, of i] that ok by (auto simp: holds_json_def)
qed

lemma holds_object:
  assumes "holds_json t n (J_object ms)"
  shows "mpack_node_map_count t n = (t, length ms)" "mpack_node_type t n = mpack_type_map"
    "i < length ms \<Longrightarrow> \<exists>k. mpack_node_map_key_at t n i = (t, k) \<and> msgpack_toString t k = (t, fst (ms ! i))"
    "i < length ms \<Longrightarrow> \<exists>m. mpack_node_map_value_at t n i = (t, m) \<and> holds_json t m (snd (ms ! i))"
proof -
  let ?kvs = "map (\<lambda>x. (MP_str (str_bytes (fst x)), value_normal (json_value (snd x)))) ms"
  have ok: "t_error t = mpack_ok" and h: "node_holds t n (MP_map ?kvs)"
    using assms by (simp_all add: holds_json_def o_def case_prod_beta)
  have len: "unat (node_len t n) = length ms" "node_type t n = mpack_type_map"
    using map_node [OF h] by simp_all
  then show "mpack_node_map_count t n = (t, length ms)" "mpack_node_type t n = mpack_type_map"
    using ok by (simp_all add: mpack_node_map_count_def mpack_node_error_def mpack_node_type_def)
  assume i: "i < length ms"
  have at: "fst (?kvs ! i) = MP_str (str_bytes (fst (ms ! i)))" "snd (?kvs ! i) = value_normal (json_value (snd (ms ! i)))"
    using i by (simp_all add: case_prod_beta)
  have c: "node_holds t (mpack_node_child t n (2 * i)) (MP_str (str_bytes (fst (ms ! i))))"
    "node_holds t (mpack_node_child t n (Suc (2 * i))) (value_normal (json_value (snd (ms ! i))))"
    using map_child_holds [OF h, of i] i unfolding at by simp_all
  show "\<exists>k. mpack_node_map_key_at t n i = (t, k) \<and> msgpack_toString t k = (t, fst (ms ! i))"
    using ok len i node_string [OF ok c(1)]
    by (simp add: mpack_node_map_key_at_def mpack_node_map_at_def mpack_node_error_def mult.commute)
  show "\<exists>m. mpack_node_map_value_at t n i = (t, m) \<and> holds_json t m (snd (ms ! i))"
    using ok len i c(2)
    by (simp add: mpack_node_map_value_at_def mpack_node_map_at_def mpack_node_error_def mult.commute holds_json_def)
qed

lemma read_array:
  assumes h: "holds_json t n (J_array vs)" and vs: "\<And>v. v \<in> set vs \<Longrightarrow> reads_json v \<and> json_packable v"
  shows "i \<le> length vs \<Longrightarrow> sum_list (map (\<lambda>v. Suc (json_weight v)) (drop i vs)) < fuel \<Longrightarrow>
    fromMessagePackArray fuel t (J_array xs) n i = Some (Inr (t, J_array (xs @ drop i vs)))"
proof (induction "length vs - i" arbitrary: i xs fuel)
  case 0
  then obtain f where "fuel = Suc f" "i = length vs" by (cases fuel) auto
  then show ?case using holds_array(1) [OF h] by simp
next
  case (Suc k)
  then have i: "i < length vs" by simp
  then have d: "drop i vs = vs ! i # drop (Suc i) vs" by (simp add: Cons_nth_drop_Suc)
  obtain f where f: "fuel = Suc f" using Suc.prems by (cases fuel) auto
  have w: "json_weight (vs ! i) \<le> f" "sum_list (map (\<lambda>v. Suc (json_weight v)) (drop (Suc i) vs)) < f"
    using Suc.prems(2) unfolding d f by simp_all
  obtain m where m: "mpack_node_array_at t n i = (t, m)" "holds_json t m (vs ! i)"
    using holds_array(2) [OF h i] by blast
  have "fromMessagePack_push f t (J_array xs) m = Some (Inr (t, J_array (xs @ [vs ! i])))"
    using vs [of "vs ! i"] i m(2) w(1) by (simp add: reads_json_def)
  moreover have "fromMessagePackArray f t (J_array (xs @ [vs ! i])) n (Suc i) =
      Some (Inr (t, J_array ((xs @ [vs ! i]) @ drop (Suc i) vs)))"
    using Suc.hyps(1) [of "Suc i" f "xs @ [vs ! i]"] Suc.hyps(2) i w(2) by simp
  ultimately show ?case
    using i m(1) holds_array(1) [OF h] by (simp add: f d res_bind_def)
qed

lemma read_object:
  assumes h: "holds_json t n (J_object ms)" and vs: "\<And>k v. (k, v) \<in> set ms \<Longrightarrow> reads_json v \<and> json_packable v \<and> c_str k = k"
    and ms: "distinct (map fst ms)"
  shows "i \<le> length ms \<Longrightarrow> sum_list (map (\<lambda>(n, v). Suc (json_weight v)) (drop i ms)) < fuel \<Longrightarrow>
    fromMessagePackMap fuel t (J_object (take i ms)) n i = Some (Inr (t, J_object ms))"
proof (induction "length ms - i" arbitrary: i fuel)
  case 0
  then obtain f where "fuel = Suc f" "i = length ms" by (cases fuel) auto
  then show ?case using holds_object(1) [OF h] by simp
next
  case (Suc k)
  then have i: "i < length ms" by simp
  then have d: "drop i ms = ms ! i # drop (Suc i) ms" by (simp add: Cons_nth_drop_Suc)
  obtain key v where kv: "ms ! i = (key, v)" by fastforce
  obtain f where f: "fuel = Suc f" using Suc.prems by (cases fuel) auto
  have w: "json_weight v \<le> f" "sum_list (map (\<lambda>(n, v). Suc (json_weight v)) (drop (Suc i) ms)) < f"
    using Suc.prems(2) unfolding d f kv by simp_all
  obtain kn where kn: "mpack_node_map_key_at t n i = (t, kn)" "msgpack_toString t kn = (t, key)"
    using holds_object(3) [OF h i] kv by auto
  obtain m where m: "mpack_node_map_value_at t n i = (t, m)" "holds_json t m v"
    using holds_object(4) [OF h i] kv by auto
  have mem: "(key, v) \<in> set ms"
    using i kv by (metis nth_mem)
  have "key \<notin> fst ` set (take i ms)"
  proof
    assume "key \<in> fst ` set (take i ms)"
    then obtain j where "j < i" "fst (ms ! j) = key"
      by (auto simp: in_set_conv_nth)
    then have "map fst ms ! j = map fst ms ! i" "j \<noteq> i" "j < length ms"
      using i kv by auto
    with ms i show False by (metis distinct_conv_nth length_map)
  qed
  then have "fromMessagePack_key f t (J_object (take i ms)) key m = Some (Inr (t, J_object (take i ms @ [(key, v)])))"
    using vs [OF mem] m(2) w(1) by (simp add: reads_json_def)
  also have "take i ms @ [(key, v)] = take (Suc i) ms"
    using i kv by (simp add: take_Suc_conv_app_nth)
  finally have step: "fromMessagePack_key f t (J_object (take i ms)) key m = Some (Inr (t, J_object (take (Suc i) ms)))" .
  have "fromMessagePackMap f t (J_object (take (Suc i) ms)) n (Suc i) = Some (Inr (t, J_object ms))"
    using Suc.hyps(1) [of "Suc i" f] Suc.hyps(2) i w(2) by simp
  with step show ?case
    using i m(1) kn holds_object(1) [OF h] by (simp add: f res_bind_def)
qed

lemma read_nested:
  assumes "c_str key = key" "key \<notin> fst ` set ms"
  shows "config_array_key key (J_object ms) = Inr (J_object (ms @ [(key, J_array [])]))"
    "config_add_object key (J_object ms) = Inr (J_object (ms @ [(key, J_object [])]))"
    "config_call (J_object (ms @ [(key, c)])) key = Inr c"
    "store_member key c' (J_object (ms @ [(key, c)])) = J_object (ms @ [(key, c')])"
    "config_add key c (J_object ms) = Inr (J_object (ms @ [(key, c)]))"
    "config_add_null key (J_object ms) = Inr (J_object (ms @ [(key, J_null)]))"
proof -
  have "SetMember (ms @ [(key, c)]) key c' = ms @ [(key, c')]"
    using assms(2) by (induction ms) auto
  then show "store_member key c' (J_object (ms @ [(key, c)])) = J_object (ms @ [(key, c')])"
    by (simp add: store_member_def)
  show "config_call (J_object (ms @ [(key, c)])) key = Inr c"
    using map_of_append_new [OF assms(2)] by (simp add: config_call_def config_find_def FindMember_def del: map_of_append)
qed (use assms in \<open>simp_all add: config_array_key_def config_add_object_def config_add_def config_add_null_def member_defs\<close>)

lemma reads_scalar:
  assumes "\<not> IsArray v" "\<not> IsObject v"
  shows "reads_json v"
  unfolding reads_json_def
proof (intro allI impI)
  fix t n fuel
  assume h: "holds_json t n v" "json_packable v" "json_weight v \<le> fuel"
  then obtain f where f: "fuel = Suc f" using assms by (cases fuel; cases v) auto
  show "(\<forall>xs. fromMessagePack_push fuel t (J_array xs) n = Some (Inr (t, J_array (xs @ [v])))) \<and>
      (\<forall>ms key. key \<notin> fst ` set ms \<longrightarrow> c_str key = key \<longrightarrow>
         fromMessagePack_key fuel t (J_object ms) key n = Some (Inr (t, J_object (ms @ [(key, v)]))))"
  proof (cases "IsNull v")
    case True
    then have v: "v = J_null" by (cases v) auto
    have "mpack_node_type t n = mpack_type_nil"
      using h(1) node_type_holds [of t n "MP_scalar Tag_nil"] v
      by (simp add: holds_json_def mpack_node_type_def mpack_node_error_def tag_normal_def)
    then show ?thesis
      using v f read_nested(6) by (simp add: res_lift_def config_push_null_def)
  next
    case False
    from node_scalar [OF h(1,2) False assms] f read_nested(5) show ?thesis
      by (auto simp: res_lift_def config_push_def)
  qed
qed

lemma reads_all: "reads_json v"
proof (induction v)
  case (J_array vs)
  show ?case
    unfolding reads_json_def
  proof (intro allI impI)
    fix t n fuel
    assume h: "holds_json t n (J_array vs)" "json_packable (J_array vs)" "json_weight (J_array vs) \<le> fuel"
    then obtain f where f: "fuel = Suc f" "sum_list (map (\<lambda>v. Suc (json_weight v)) (drop 0 vs)) < f"
      by (cases fuel) auto
    have "fromMessagePackArray f t (J_array []) n 0 = Some (Inr (t, J_array ([] @ drop 0 vs)))"
      using h(2) J_array.IH f(2) by (intro read_array [OF h(1)]) (auto simp: list_all_iff)
    then show "(\<forall>xs. fromMessagePack_push fuel t (J_array xs) n = Some (Inr (t, J_array (xs @ [J_array vs])))) \<and>
      (\<forall>ms key. key \<notin> fst ` set ms \<longrightarrow> c_str key = key \<longrightarrow>
         fromMessagePack_key fuel t (J_object ms) key n = Some (Inr (t, J_object (ms @ [(key, J_array vs)]))))"
      using f(1) holds_array(1,3) [OF h(1)]
      by (simp add: read_nested res_bind_def res_lift_def config_array_def config_index_def config_size_def store_last_def)
  qed
next
  case (J_object os)
  show ?case
    unfolding reads_json_def
  proof (intro allI impI)
    fix t n fuel
    assume h: "holds_json t n (J_object os)" "json_packable (J_object os)" "json_weight (J_object os) \<le> fuel"
    then obtain f where f: "fuel = Suc f" "sum_list (map (\<lambda>(n, v). Suc (json_weight v)) (drop 0 os)) < f"
      by (cases fuel) auto
    have "fromMessagePackMap f t (J_object (take 0 os)) n 0 = Some (Inr (t, J_object os))"
      using h(2) J_object.IH f(2) by (intro read_object [OF h(1)]) (force simp: list_all_iff snds.simps)+
    then show "(\<forall>xs. fromMessagePack_push fuel t (J_array xs) n = Some (Inr (t, J_array (xs @ [J_object os])))) \<and>
      (\<forall>ms key. key \<notin> fst ` set ms \<longrightarrow> c_str key = key \<longrightarrow>
         fromMessagePack_key fuel t (J_object ms) key n = Some (Inr (t, J_object (ms @ [(key, J_object os)]))))"
      using f(1) holds_object(2) [OF h(1)]
      by (simp add: read_nested res_bind_def res_lift_def config_object_def config_index_def config_size_def store_last_def)
  qed
qed (auto intro: reads_scalar)

section \<open>Round trip\<close>

lemma enc_tag_nonempty: "t \<noteq> Tag_missing \<Longrightarrow> 1 \<le> length (enc_tag t)"
  by (cases t) (simp_all add: enc_defs)

lemma weight_bound: "json_weight v + 1 \<le> 3 * length (enc_value (json_value v))"
proof (induction v)
  case (J_array vs)
  have "sum_list (map (\<lambda>v. Suc (json_weight v)) vs) \<le> sum_list (map (\<lambda>v. 3 * length (enc_value (json_value v))) vs)"
    using J_array by (intro sum_list_mono) auto
  also have "\<dots> = 3 * length (concat (map (enc_value \<circ> json_value) vs))"
    by (simp add: length_concat o_def sum_list_const_mult)
  finally show ?case
    using enc_tag_nonempty [of "Tag_array (of_nat (length vs))"] by simp
next
  case (J_object ms)
  let ?e = "\<lambda>x. enc_value (MP_str (str_bytes (fst x))) @ enc_value (json_value (snd x))"
  have "sum_list (map (\<lambda>(n, v). Suc (json_weight v)) ms) \<le> sum_list (map (\<lambda>x. 3 * length (?e x)) ms)"
  proof (rule sum_list_mono)
    fix x
    assume "x \<in> set ms"
    with J_object [of x "snd x"] show "(case x of (n, v) \<Rightarrow> Suc (json_weight v)) \<le> 3 * length (?e x)"
      by (cases x) (auto simp: snds.simps)
  qed
  also have "\<dots> = 3 * length (concat (map ?e ms))"
    by (simp only: length_concat map_map o_def sum_list_const_mult)
  finally have "sum_list (map (\<lambda>(n, v). Suc (json_weight v)) ms) \<le> 3 * length (concat (map ?e ms))" .
  moreover have "enc_value (json_value (J_object ms)) = enc_tag (Tag_map (of_nat (length ms))) @ concat (map ?e ms)"
    by (simp add: o_def case_prod_beta)
  ultimately show ?case
    using enc_tag_nonempty [of "Tag_map (of_nat (length ms))"] by simp
next
  case (J_string s)
  then show ?case using enc_tag_nonempty [of "Tag_str (of_nat (length s))"] by simp
next
  case (J_int i)
  then show ?case
    using enc_tag_nonempty [of "Tag_int (of_int i)"] enc_tag_nonempty [of "Tag_uint (of_int i)"]
    by (simp add: number_value_def del: enc_tag.simps)
qed (simp_all add: enc_defs)

lemma read_root:
  assumes "holds_json t n v" "json_packable v" "json_weight v \<le> fuel"
  shows "fromMessagePack_root fuel t n = Some (Inr (t, v))"
proof -
  have ty: "mpack_node_type t n = mpack_type_array \<longleftrightarrow> IsArray v" "mpack_node_type t n = mpack_type_map \<longleftrightarrow> IsObject v"
    using assms(1,2) data_type_iff(4,5) [of t n "value_normal (json_value v)"]
    by (cases v; auto simp: holds_json_def mpack_node_type_def mpack_node_error_def normal_number)+
  consider vs where "v = J_array vs" | ms where "v = J_object ms" | "\<not> IsArray v" "\<not> IsObject v"
    by (cases v) auto
  then show ?thesis
  proof cases
    case 1
    have "fromMessagePackArray fuel t (J_array []) n 0 = Some (Inr (t, J_array ([] @ drop 0 vs)))"
      using assms 1 reads_all by (intro read_array) (auto simp: list_all_iff)
    with 1 ty show ?thesis by (simp add: fromMessagePack_root_def)
  next
    case 2
    have "fromMessagePackMap fuel t (J_object (take 0 ms)) n 0 = Some (Inr (t, J_object ms))"
      using assms 2 reads_all by (intro read_object) (force simp: list_all_iff)+
    with 2 ty show ?thesis by (simp add: fromMessagePack_root_def)
  next
    case 3
    have "c_str ''data'' = ''data''" by (simp add: c_str_def)
    with reads_all [of v] assms
    have "fromMessagePack_key fuel t (J_object []) ''data'' n = Some (Inr (t, J_object ([] @ [(''data'', v)])))"
      unfolding reads_json_def by force
    with 3 ty show ?thesis
      by (simp add: fromMessagePack_root_def res_bind_def res_lift_def config_call_def config_find_def FindMember_def)
  qed
qed

lemma read_written:
  assumes alloc: "te_alloc env = (\<lambda>_. True)" and v: "json_packable v"
    and len: "length (enc_value (json_value v) @ rest) < 2 ^ 32" and fuel: "3 * length (enc_value (json_value v)) \<le> fuel"
  shows "fromMessagePack env fuel config (enc_value (json_value v) @ rest) = Some (Inr v)"
proof -
  have "length (enc_value (json_value v)) \<le> fuel"
    using fuel by simp
  from parse_message [OF _ encodes_enc_value [OF packable_value_ok [OF v]] len this, of env] alloc
  obtain t where t: "mpack_tree_parse env fuel (mpack_tree_init_data (enc_value (json_value v) @ rest)) = Some t"
    "t_error t = mpack_ok" "p_state t = parsed"
    "represents (t_data t) (t_nodes t) UNIV (t_root t) (value_normal (json_value v))"
    by auto
  then have "holds_json t (N_at (t_root t)) v"
    by (simp add: holds_json_def node_holds_def)
  moreover have "json_weight v \<le> fuel"
    using weight_bound [of v] fuel by linarith
  ultimately have "fromMessagePack_root fuel t (N_at (t_root t)) = Some (Inr (t, v))"
    using v by (intro read_root)
  with t show ?thesis
    by (simp add: fromMessagePack_def mpack_tree_root_def res_bind_def)
qed

end
