(* ===== verification/Config_Properties.thy ===== *)
theory Config_Properties
  imports Config_Msgpack_Correct
begin

text \<open>
  The properties of \<open>mc_rtc::Configuration\<close>: its MessagePack form, merging, modification and typed
  access.
\<close>

section \<open>MessagePack\<close>

text \<open>C1: a configuration survives MessagePack: converting it into a vector that is empty or has at
  least 32 bytes reports the size of the message, and reading that many bytes back gives the
  same document, members in the same order.\<close>

theorem config_msgpack_roundtrip:
  assumes "json_packable v" "length buf = 0 \<or> 32 \<le> length buf" "te_alloc env = (\<lambda>_. True)"
    and "config_toMessagePack v buf = (data, n)" "n < 2 ^ 32" "3 * n \<le> fuel"
  shows "0 < n \<and> n \<le> length data \<and> config_fromMessagePack env fuel (take n data) = Some (Inr v)"
proof -
  have out: "take n data = enc_value (json_value v)" "n = length (enc_value (json_value v))"
    using toMessagePack_output [OF assms(1,2)] assms(4) by simp_all
  have "0 < n"
    using weight_bound [of v] out(2) by linarith
  moreover have "n \<le> length data"
    using arg_cong [OF out(1), of length] out(2) by simp
  moreover have "config_fromMessagePack env fuel (take n data) = Some (Inr v)"
    using read_written [OF assms(3,1), of "[]" fuel] assms(5,6) out by (simp add: config_fromMessagePack_def)
  ultimately show ?thesis by blast
qed

theorem config_msgpack_roundtrip_witness:
  "\<exists>data n. config_toMessagePack (J_object [(''a'', J_int (- 5)), (''b'', J_array [J_bool True, J_string ''x''])]) [] = (data, n) \<and>
     0 < n \<and> config_fromMessagePack \<lparr>te_read = \<lambda>t n. (t, None), te_alloc = \<lambda>_. True, te_ext = False\<rparr> (3 * n) (take n data) =
       Some (Inr (J_object [(''a'', J_int (- 5)), (''b'', J_array [J_bool True, J_string ''x''])]))"
proof -
  let ?v = "J_object [(''a'', J_int (- 5)), (''b'', J_array [J_bool True, J_string ''x''])]"
  have v: "json_packable ?v" by (simp add: c_str_def)
  obtain data n where r: "config_toMessagePack ?v [] = (data, n)" by fastforce
  have "n = length (enc_value (json_value ?v))"
    using toMessagePack_output(2) [OF v, of "[]"] r by simp
  also have "\<dots> < 2 ^ 32"
    by (simp add: number_value_def enc_defs)
  finally show ?thesis
    using config_msgpack_roundtrip [OF v _ _ r, of "\<lparr>te_read = \<lambda>t n. (t, None), te_alloc = \<lambda>_. True, te_ext = False\<rparr>" "3 * n"] r
    by auto
qed

text \<open>
  A map whose first key is not a string does not raise an exception: the tree falls into its
  error state while the map is being read, and the result is a document with one null member of
  empty name.
\<close>

lemma non_string_key_lost:
  assumes "te_alloc env = (\<lambda>_. True)" "value_ok (te_ext env) (MP_map ((MP_scalar (Tag_uint k), v) # kvs))"
    and "length (enc_value (MP_map ((MP_scalar (Tag_uint k), v) # kvs)) @ []) < 2 ^ 32"
    and "length (enc_value (MP_map ((MP_scalar (Tag_uint k), v) # kvs))) \<le> fuel"
  shows "fromMessagePack env fuel config (enc_value (MP_map ((MP_scalar (Tag_uint k), v) # kvs))) =
    Some (Inr (J_object [('''', J_null)]))"
proof -
  let ?m = "MP_map ((MP_scalar (Tag_uint k), v) # kvs)"
  from parse_message [OF _ encodes_enc_value [OF assms(2)] assms(3,4)] assms(1)
  obtain t where t: "mpack_tree_parse env fuel (mpack_tree_init_data (enc_value ?m)) = Some t"
    "t_error t = mpack_ok" "p_state t = parsed"
    "represents (t_data t) (t_nodes t) UNIV (t_root t) (value_normal ?m)"
    by auto
  let ?r = "N_at (t_root t)" and ?e = "mpack_tree_flag_error t mpack_error_type"
  let ?kvs = "(MP_scalar (Tag_uint k), value_normal v) # map (\<lambda>(k, v). (value_normal k, value_normal v)) kvs"
  have h: "node_holds t ?r (MP_map ?kvs)"
    using t(4) by (simp add: node_holds_def tag_normal_def)
  have n: "node_type t ?r = mpack_type_map" "unat (node_len t ?r) = length ?kvs"
    using map_node [OF h] by simp_all
  have key: "node_type t (mpack_node_child t ?r 0) = mpack_type_uint"
    using map_child_holds(1) [OF h, of 0] node_type_holds [OF _ t(2), of "mpack_node_child t ?r 0"] by simp
  have e: "t_error ?e = mpack_error_type"
    using t(2) by (simp add: mpack_tree_flag_error_def)
  have "2 \<le> length (enc_value ?m)"
    using enc_tag_nonempty [of "Tag_map (1 + of_nat (length kvs))"] enc_tag_nonempty [of "Tag_uint k"] by simp
  then obtain f where f: "fuel = Suc (Suc f)"
    using assms(4) by (metis add_2_eq_Suc le_trans le_Suc_ex)
  have "fromMessagePack_root fuel t ?r = Some (Inr (?e, J_object [('''', J_null)]))"
    using n key e t(2) unfolding f
    by (simp add: fromMessagePack_root_def mpack_node_type_def mpack_node_map_count_def mpack_node_map_key_at_def
        mpack_node_map_value_at_def mpack_node_map_at_def msgpack_toString_def mpack_node_str_def mpack_node_strlen_def
        mpack_node_error_def mpack_node_flag_error_def res_bind_def res_lift_def config_add_null_def HasMember_iff
        AddMember_def c_str_def)
  with t show ?thesis
    by (simp add: fromMessagePack_def mpack_tree_root_def res_bind_def del: fromMessagePackMap.simps)
qed

section \<open>Merging\<close>

text \<open>
  The loop looks an object up again by its name as a C string. With a name that contains a NUL it then
  throws when there is no entry under the part before the NUL, and otherwise merges into that entry.
\<close>

lemma merge_nul_name:
  "config_load (J_object [(''a'' @ [CHR 0x00], J_object [])]) (J_object [(''a'' @ [CHR 0x00], J_object [(''x'', v)])])
     = Inl (No_entry ''a'')"
  "config_load (J_object [(''a'', J_object []), (''a'' @ [CHR 0x00], J_object [])])
      (J_object [(''a'', J_object [(''y'', J_int 1)]), (''a'' @ [CHR 0x00], J_object [(''x'', v)])])
     = Inr (J_object [(''a'', J_object [(''y'', J_int 1)]), (''a'' @ [CHR 0x00], J_object [])])"
  by (simp_all add: FindMember_def c_str_def AddMember_def)

text \<open>C2: merging an object into an object, when the names of the objects inside the source contain no NUL,
  never fails and keeps names distinct; afterwards every value the source has at a path, other than
  an object, is what the result has there, and along every path the source says nothing about the
  result has what the target had.\<close>

theorem config_load_merges:
  assumes "json_wf t" "json_wf s" "IsObject t" "IsObject s" "merge_names s"
  shows "\<exists>r. config_load t s = Inr r \<and> json_wf r \<and> IsObject r \<and>
    (\<forall>p x. config_find_path s p = Some x \<longrightarrow> \<not> IsObject x \<longrightarrow> config_find_path r p = Some x) \<and>
    (\<forall>p. untouched s p \<longrightarrow> config_find_path r p = config_find_path t p)"
  using load_objects [OF assms] load_path_source [OF assms] load_path_target [OF assms] by blast

theorem config_load_merges_witness:
  "\<exists>r. config_load (J_object [(''a'', J_object [(''x'', J_int 1), (''y'', J_int 2)]), (''b'', J_null)])
      (J_object [(''a'', J_object [(''y'', J_int 3)])]) = Inr r \<and>
    config_find_path r [''a'', ''y''] = Some (J_int 3) \<and> config_find_path r [''a'', ''x''] = Some (J_int 1) \<and>
    config_find_path r [''b''] = Some J_null"
proof -
  let ?t = "J_object [(''a'', J_object [(''x'', J_int 1), (''y'', J_int 2)]), (''b'', J_null)]"
  let ?s = "J_object [(''a'', J_object [(''y'', J_int 3)])]"
  have p: "config_find_path ?s [''a'', ''y''] = Some (J_int 3)" "untouched ?s [''a'', ''x'']" "untouched ?s [''b'']"
    "config_find_path ?t [''a'', ''x''] = Some (J_int 1)" "config_find_path ?t [''b''] = Some J_null"
    by (simp_all add: config_find_def FindMember_def)
  have "json_wf ?t" "json_wf ?s" "IsObject ?t" "IsObject ?s" "merge_names ?s" by (simp_all add: c_str_def)
  from config_load_merges [OF this] obtain r where r: "config_load ?t ?s = Inr r"
    "\<And>p x. config_find_path ?s p = Some x \<Longrightarrow> \<not> IsObject x \<Longrightarrow> config_find_path r p = Some x"
    "\<And>p. untouched ?s p \<Longrightarrow> config_find_path r p = config_find_path ?t p" by blast
  have "config_find_path r [''a'', ''y''] = Some (J_int 3)"
    by (rule r(2) [OF p(1)]) simp
  with r(1) r(3) [OF p(2)] r(3) [OF p(3)] p(4,5) show ?thesis by metis
qed

section \<open>Modification\<close>

text \<open>C38: adding and removing entries keeps a document well formed: distinct names in every object and
  integers in the range RapidJSON stores.\<close>

theorem config_modifications_wf:
  assumes "json_wf v" "json_wf x"
  shows "(\<forall>v'. config_add key x v = Inr v' \<longrightarrow> json_wf v') \<and> (\<forall>v'. config_add_null key v = Inr v' \<longrightarrow> json_wf v') \<and>
    (\<forall>v'. config_add_config key x v = Inr v' \<longrightarrow> json_wf v') \<and> (\<forall>v'. config_add_object key v = Inr v' \<longrightarrow> json_wf v') \<and>
    (\<forall>v'. config_array_key key v = Inr v' \<longrightarrow> json_wf v') \<and> (\<forall>v' b. config_remove key v = Inr (v', b) \<longrightarrow> json_wf v') \<and>
    (\<forall>v'. config_push x v = Inr v' \<longrightarrow> json_wf v') \<and> (\<forall>v'. config_push_null v = Inr v' \<longrightarrow> json_wf v') \<and>
    (\<forall>v'. config_array v = Inr v' \<longrightarrow> json_wf v') \<and> (\<forall>v'. config_object v = Inr v' \<longrightarrow> json_wf v')"
proof -
  have "config_push x v = Inr v' \<Longrightarrow> json_wf v'" "config_push_null v = Inr v' \<Longrightarrow> json_wf v'"
    "config_array v = Inr v' \<Longrightarrow> json_wf v'" "config_object v = Inr v' \<Longrightarrow> json_wf v'" for v'
    using assms
    by (cases v; auto simp: config_push_def config_push_null_def config_array_def config_object_def)+
  with add_ok [OF assms] show ?thesis by blast
qed

theorem config_modifications_wf_witness:
  "json_wf (J_object [(''c'', J_int 3), (''b'', J_int 2)])"
proof -
  have "config_remove ''a'' (J_object [(''a'', J_int 1), (''b'', J_int 2), (''c'', J_int 3)]) =
      Inr (J_object [(''c'', J_int 3), (''b'', J_int 2)], True)"
    by (simp add: config_remove_def HasMember_iff c_str_def)
  moreover have "json_wf (J_object [(''a'', J_int 1), (''b'', J_int 2), (''c'', J_int 3)])" "json_wf J_null"
    by simp_all
  ultimately show ?thesis
    using config_modifications_wf by blast
qed

text \<open>C39: an added entry is found under its name, a removed one is not, and every other lookup is
  unaffected, although removal reorders the members.\<close>

theorem config_lookup_after_change:
  assumes "json_wf v" "c_str key = key"
  shows "(\<forall>v'. config_add key x v = Inr v' \<longrightarrow> config_find v' k = (if k = key then Some x else config_find v k)) \<and>
    (\<forall>v'. config_add_config key x v = Inr v' \<longrightarrow> config_find v' k = (if k = key then Some x else config_find v k)) \<and>
    (\<forall>v' b. config_remove key v = Inr (v', b) \<longrightarrow> config_find v' k = (if k = key then None else config_find v k))"
  using find_after_put [OF assms] by blast

theorem config_lookup_after_change_witness:
  "config_find (J_object [(''c'', J_int 3), (''b'', J_int 2)]) ''c'' = Some (J_int 3)"
proof -
  let ?v = "J_object [(''a'', J_int 1), (''b'', J_int 2), (''c'', J_int 3)]"
  have "config_remove ''a'' ?v = Inr (J_object [(''c'', J_int 3), (''b'', J_int 2)], True)"
    by (simp add: config_remove_def HasMember_iff c_str_def)
  moreover have "json_wf ?v" "c_str ''a'' = ''a''" by (simp_all add: c_str_def)
  ultimately have "config_find (J_object [(''c'', J_int 3), (''b'', J_int 2)]) ''c'' =
      (if ''c'' = ''a'' then None else config_find ?v ''c'')"
    using config_lookup_after_change [of ?v "''a''" J_null "''c''"] by blast
  then show ?thesis by (simp add: config_find_def FindMember_def)
qed

section \<open>Typed access\<close>

text \<open>C40: converting an entry to an integer type gives the stored integer exactly when it lies in the
  range of the type, and an exception otherwise.\<close>

theorem config_integer_conversions:
  assumes "json_wf v"
  shows "converts_in_range v (map_sum id sint (to_int8 v)) (- 128) 127 \<and>
    converts_in_range v (map_sum id sint (to_int16 v)) (- 32768) 32767 \<and>
    converts_in_range v (map_sum id sint (to_int32 v)) (- (2 ^ 31)) (2 ^ 31 - 1) \<and>
    converts_in_range v (map_sum id sint (to_int64 v)) (- (2 ^ 63)) (2 ^ 63 - 1) \<and>
    converts_in_range v (map_sum id uint (to_uint8 v)) 0 255 \<and>
    converts_in_range v (map_sum id uint (to_uint16 v)) 0 65535 \<and>
    converts_in_range v (map_sum id uint (to_uint32 v)) 0 (2 ^ 32 - 1) \<and>
    converts_in_range v (map_sum id uint (to_uint64 v)) 0 (2 ^ 64 - 1)"
  using integer_conversions assms by blast

theorem config_integer_conversions_witness:
  "converts_in_range (J_int 300) (map_sum id uint (to_uint8 (J_int 300))) 0 255"
  using config_integer_conversions [of "J_int 300"] by simp

text \<open>Reading an integer entry as a double is exact for all integers of at most 53 bits.\<close>

lemma config_double_exact:
  assumes "\<bar>i\<bar> < 2 ^ 53"
  shows "\<exists>d. to_double (J_int i) = Inr d \<and> int_of_double d = i"
  using int_double_exact [OF assms] by (simp add: to_double_def)

end
