(* ===== verification/State_Factory.thy ===== *)
theory State_Factory
  imports Configuration
begin

text \<open>
  The factory of FSM states (\<open>fsm/StateFactory.h\<close>, \<open>fsm/StateFactory.cpp\<close>): the list of known states, the
  configurations of the states derived from others, the resolution of states declared before their
  base, and the creation of state objects. The classes behind the states are plug-ins: they appear
  as the parameter \<open>state_api\<close>.
\<close>

section \<open>Data\<close>

datatype fsm_error =
    Config_error config_error
  | Loader_exception string
  | No_base string
  | Already_exists string
  | Null_state string
  | Invalid_transitions
  | Invalid_transition_entry
  | No_valid_transition

text \<open>
  A plug-in library: \<open>new_object\<close> is the \<open>create\<close> symbol of a class, called with an argument or
  without one (\<open>None\<close> is a \<open>LoaderException\<close>), and the member functions of \<open>State\<close> that the factory and
  the executor call. A member function gets the controller and may change it.
\<close>

record ('o, 'c) state_api =
  new_object :: "string \<Rightarrow> string option \<Rightarrow> 'o option"
  set_name :: "string \<Rightarrow> 'o \<Rightarrow> 'o"
  configure :: "json \<Rightarrow> 'o \<Rightarrow> config_error + 'o"
  start :: "'o \<Rightarrow> 'c \<Rightarrow> 'o \<times> 'c"
  run_state :: "'o \<Rightarrow> 'c \<Rightarrow> bool \<times> 'o \<times> 'c"
  output_state :: "'o \<Rightarrow> string"
  stop_state :: "'o \<Rightarrow> 'c \<Rightarrow> 'o \<times> 'c"
  teardown_state :: "'o \<Rightarrow> 'c \<Rightarrow> 'c"

record state_configuration =
  sc_base :: string
  sc_arg :: string
  sc_config :: json

text \<open>
  \<open>factory_handles\<close> and \<open>factory_callbacks\<close> are the names of the classes that \<open>ObjectLoader\<close> found in libraries and of
  those registered by the program.
\<close>

record state_factory =
  factory_handles :: "string list"
  factory_callbacks :: "string list"
  factory_states :: "string list"
  factory_configurations :: "(string \<times> state_configuration) list"

definition has_object :: "state_factory \<Rightarrow> string \<Rightarrow> bool" where
  "has_object f s \<longleftrightarrow> s \<in> set (factory_handles f) \<or> s \<in> set (factory_callbacks f)"

definition hasState :: "state_factory \<Rightarrow> string \<Rightarrow> bool" where
  "hasState f s \<longleftrightarrow> s \<in> set (factory_states f)"

section \<open>Registering states\<close>

definition update_states :: "string \<Rightarrow> state_factory \<Rightarrow> state_factory" where
  "update_states cn f = f\<lparr>factory_states := factory_states f @ [cn]\<rparr>"

text \<open>Loading a library: \<open>ObjectLoader\<close> records the class, then calls \<open>update\<close>.\<close>

definition load_class :: "string \<Rightarrow> state_factory \<Rightarrow> state_factory" where
  "load_class cn f = update_states cn (f\<lparr>factory_handles := (if cn \<in> set (factory_handles f) then factory_handles f else factory_handles f @ [cn])\<rparr>)"

definition register_object :: "string \<Rightarrow> state_factory \<Rightarrow> fsm_error + state_factory" where
  "register_object name f =
     (if has_object f name then Inl (Loader_exception name)
      else Inr (f\<lparr>factory_callbacks := factory_callbacks f @ [name], factory_states := factory_states f @ [name]\<rparr>))"

text \<open>A name \<open>loader#arg\<close> asks the class \<open>loader\<close> for the state \<open>arg\<close>.\<close>

definition loader_part :: "string \<Rightarrow> string" where
  "loader_part s = takeWhile (\<lambda>c. c \<noteq> CHR ''#'') s"

definition arg_part :: "string \<Rightarrow> string" where
  "arg_part s = drop (Suc (length (loader_part s))) s"

definition load_with_loader :: "string \<Rightarrow> state_factory \<Rightarrow> bool \<times> state_factory" where
  "load_with_loader s f =
     (let sharp = length (loader_part s) in
      if CHR ''#'' \<notin> set s \<or> sharp = length s - 1 then (False, f)
      else if \<not> has_object f (loader_part s) then (False, f)
      else (True, f\<lparr>factory_states := factory_states f @ [s],
                    factory_configurations := alist_put s
                      \<lparr>sc_base = loader_part s, sc_arg = arg_part s, sc_config = J_object []\<rparr> (factory_configurations f)\<rparr>))"

text \<open>The test \<open>hasState(base) || load_with_loader(base)\<close> that several functions share.\<close>

definition find_base :: "string \<Rightarrow> state_factory \<Rightarrow> bool \<times> state_factory" where
  "find_base b f = (if hasState f b then (True, f) else load_with_loader b f)"

text \<open>
  \<open>load(name, base, config)\<close>. In a static build (\<open>MC_RTC_BUILD_STATIC\<close>) the factory is shared by all
  controllers and a state that exists is replaced instead of refused.
\<close>

definition load_state :: "bool \<Rightarrow> string \<Rightarrow> string \<Rightarrow> json \<Rightarrow> state_factory \<Rightarrow> fsm_error + state_factory" where
  "load_state static_build name base config f =
     (case find_base base f of
        (False, f) \<Rightarrow> Inl (No_base base)
      | (True, f) \<Rightarrow>
          if hasState f name \<and> \<not> static_build then Inl (Already_exists name)
          else
            let states = (if hasState f name then remove1 name (factory_states f) else factory_states f) in
            Inr (f\<lparr>factory_states := states @ [name],
                   factory_configurations :=
                     alist_put name \<lparr>sc_base = base, sc_arg = '''', sc_config = config\<rparr> (factory_configurations f)\<rparr>))"

section \<open>States declared before their base\<close>

record ud_state =
  ud_name :: string
  ud_base :: string
  ud_config :: json

fun resolve_pass :: "bool \<Rightarrow> state_factory \<Rightarrow> ud_state list \<Rightarrow> fsm_error + state_factory \<times> ud_state list" where
  "resolve_pass static_build f [] = Inr (f, [])"
| "resolve_pass static_build f (uds # states) =
     (case find_base (ud_base uds) f of
        (True, f) \<Rightarrow>
          (case load_state static_build (ud_name uds) (ud_base uds) (ud_config uds) f of
             Inl err \<Rightarrow> Inl err
           | Inr f \<Rightarrow> resolve_pass static_build f states)
      | (False, f) \<Rightarrow>
          (case resolve_pass static_build f states of Inl err \<Rightarrow> Inl err | Inr (f, rest) \<Rightarrow> Inr (f, uds # rest)))"

lemma resolve_pass_shrinks: "resolve_pass sb f us = Inr (f', rest) \<Longrightarrow> length rest \<le> length us"
proof (induction sb f us arbitrary: f' rest rule: resolve_pass.induct)
  case (2 sb f uds states)
  then show ?case
    by (fastforce split: prod.splits bool.splits sum.splits)
qed simp

text \<open>The loop of \<open>resolve\<close>; the states that are left over are reported and dropped.\<close>

function resolve_loop :: "bool \<Rightarrow> state_factory \<Rightarrow> ud_state list \<Rightarrow> nat \<Rightarrow> fsm_error + state_factory \<times> ud_state list" where
  "resolve_loop static_build f states prev_size =
     (if length states = 0 then Inr (f, states)
      else
        case resolve_pass static_build f states of
          Inl err \<Rightarrow> Inl err
        | Inr (f, states) \<Rightarrow>
            if length states = prev_size then Inr (f, states)
            else resolve_loop static_build f states (length states))"
  by pat_completeness auto
termination
  by (relation "measures [\<lambda>(sb, f, states, prev_size). length states,
      \<lambda>(sb, f, states, prev_size). if prev_size = length states then 0 else 1]")
    (auto dest!: resolve_pass_shrinks)

declare resolve_loop.simps [simp del]

definition resolve :: "bool \<Rightarrow> state_factory \<Rightarrow> ud_state list \<Rightarrow> fsm_error + state_factory \<times> ud_state list" where
  "resolve static_build f states = resolve_loop static_build f states 0"

fun load_ud :: "bool \<Rightarrow> (string \<times> json) list \<Rightarrow> state_factory \<Rightarrow> ud_state list \<Rightarrow> fsm_error + state_factory \<times> ud_state list"
where
  "load_ud static_build [] f ud_states = Inr (f, ud_states)"
| "load_ud static_build ((name, config) # states) f ud_states =
     (let base = config_or config ''base'' to_string '''' in
      if base = '''' then load_ud static_build states f ud_states
      else
        case find_base base f of
          (True, f) \<Rightarrow>
            (case load_state static_build name base config f of
               Inl err \<Rightarrow> Inl err
             | Inr f \<Rightarrow> load_ud static_build states f ud_states)
        | (False, f) \<Rightarrow>
            load_ud static_build states f
              (ud_states @ [\<lparr>ud_name = name, ud_base = base, ud_config = config\<rparr>]))"

text \<open>\<open>load(states)\<close>: a \<open>std::map\<close> from names to configurations.\<close>

definition load_states :: "bool \<Rightarrow> (string \<times> json) list \<Rightarrow> state_factory \<Rightarrow> fsm_error + state_factory" where
  "load_states static_build states f =
     (case load_ud static_build states f [] of
        Inl err \<Rightarrow> Inl err
      | Inr (f, ud_states) \<Rightarrow>
          if ud_states = [] then Inr f
          else case resolve static_build f ud_states of Inl err \<Rightarrow> Inl err | Inr (f, _) \<Rightarrow> Inr f)"

section \<open>State files\<close>

text \<open>
  What a path of the file system is: a regular file with the document it parses to, a directory
  with its entries in iteration order, or something else (a socket, a device).
\<close>

datatype fs_node =
    FS_file json
  | FS_dir "fs_node list"
  | FS_other

definition load_file :: "bool \<Rightarrow> json \<Rightarrow> state_factory \<Rightarrow> ud_state list \<Rightarrow> fsm_error + state_factory \<times> ud_state list" where
  "load_file static_build doc f ud_states =
     (case to_std_map Inr doc of
        Inl err \<Rightarrow> Inl (Config_error err)
      | Inr states \<Rightarrow> load_ud static_build states f ud_states)"

fun load_dir :: "bool \<Rightarrow> fs_node list \<Rightarrow> state_factory \<Rightarrow> ud_state list \<Rightarrow> fsm_error + state_factory \<times> ud_state list" where
  "load_dir static_build [] f ud_states = Inr (f, ud_states)"
| "load_dir static_build (p # drange) f ud_states =
     (case (case p of
              FS_file doc \<Rightarrow> load_file static_build doc f ud_states
            | FS_dir ps \<Rightarrow> load_dir static_build ps f ud_states
            | FS_other \<Rightarrow> Inr (f, ud_states)) of
        Inl err \<Rightarrow> Inl err
      | Inr (f, ud_states) \<Rightarrow> load_dir static_build drange f ud_states)"

fun load_paths :: "bool \<Rightarrow> (string \<Rightarrow> fs_node option) \<Rightarrow> string list \<Rightarrow> state_factory \<Rightarrow> ud_state list
    \<Rightarrow> fsm_error + state_factory \<times> ud_state list" where
  "load_paths static_build fs [] f ud_states = Inr (f, ud_states)"
| "load_paths static_build fs (p # files) f ud_states =
     (case (case fs p of
              Some (FS_dir ps) \<Rightarrow> load_dir static_build ps f ud_states
            | Some (FS_file doc) \<Rightarrow> load_file static_build doc f ud_states
            | _ \<Rightarrow> Inr (f, ud_states)) of
        Inl err \<Rightarrow> Inl err
      | Inr (f, ud_states) \<Rightarrow> load_paths static_build fs files f ud_states)"

definition load_files :: "bool \<Rightarrow> (string \<Rightarrow> fs_node option) \<Rightarrow> string list \<Rightarrow> state_factory \<Rightarrow> fsm_error + state_factory" where
  "load_files static_build fs files f =
     (case load_paths static_build fs files f [] of
        Inl err \<Rightarrow> Inl err
      | Inr (f, ud_states) \<Rightarrow>
          if ud_states = [] then Inr f
          else case resolve static_build f ud_states of Inl err \<Rightarrow> Inl err | Inr (f, _) \<Rightarrow> Inr f)"

section \<open>Creating states\<close>

text \<open>
  \<open>create(state, final_name)\<close>: \<open>None\<close> when the call does not return, \<open>Inr None\<close> for a null pointer.
  A derived state is its base, configured with its own configuration on top; the base is
  dereferenced without a test.
\<close>

definition configure_ptr :: "('o, 'c) state_api \<Rightarrow> string \<Rightarrow> json \<Rightarrow> fsm_error + 'o option \<Rightarrow> fsm_error + 'o option" where
  "configure_ptr api name config ret =
     (case ret of
        Inl err \<Rightarrow> Inl err
      | Inr None \<Rightarrow> Inl (Null_state name)
      | Inr (Some o') \<Rightarrow> (case configure api config o' of Inl err \<Rightarrow> Inl (Config_error err) | Inr o' \<Rightarrow> Inr (Some o')))"

definition create_object :: "('o, 'c) state_api \<Rightarrow> string \<Rightarrow> string option \<Rightarrow> string \<Rightarrow> fsm_error + 'o option" where
  "create_object api cn arg final_name =
     (case new_object api cn arg of
        None \<Rightarrow> Inl (Loader_exception cn)
      | Some o' \<Rightarrow> Inr (Some (set_name api final_name o')))"

partial_function (option) create_named ::
  "('o, 'c) state_api \<Rightarrow> state_factory \<Rightarrow> string \<Rightarrow> string \<Rightarrow> (fsm_error + 'o option) option" where
  "create_named api f state final_name =
     (if \<not> hasState f state then Some (Inr None)
      else if has_object f state then Some (create_object api state None final_name)
      else
        case map_of (factory_configurations f) state of
          None \<Rightarrow> Some (Inr None)
        | Some cfg \<Rightarrow>
            if sc_arg cfg \<noteq> '''' then
              Some (configure_ptr api state (sc_config cfg)
                (if has_object f (sc_base cfg) then create_object api (sc_base cfg) (Some (sc_arg cfg)) final_name
                 else Inl (Loader_exception (sc_base cfg))))
            else
              Option.bind (create_named api f (sc_base cfg) final_name)
                (\<lambda>ret. Some (configure_ptr api state (sc_config cfg) ret)))"

text \<open>\<open>create(state, ctl, configure, config)\<close>, the implementation behind the public \<open>create\<close> functions.\<close>

definition create_started ::
  "('o, 'c) state_api \<Rightarrow> state_factory \<Rightarrow> string \<Rightarrow> json option \<Rightarrow> 'c \<Rightarrow> (fsm_error + 'o option \<times> 'c) option" where
  "create_started api f state config ctl =
     (case create_named api f state state of
        None \<Rightarrow> None
      | Some (Inl err) \<Rightarrow> Some (Inl err)
      | Some (Inr None) \<Rightarrow> Some (Inr (None, ctl))
      | Some (Inr (Some o')) \<Rightarrow>
          (case (case config of None \<Rightarrow> Inr o' | Some cfg \<Rightarrow> configure api cfg o') of
             Inl err \<Rightarrow> Some (Inl (Config_error err))
           | Inr o' \<Rightarrow> (case start api o' ctl of (o', ctl) \<Rightarrow> Some (Inr (Some o', ctl)))))"

text \<open>\<open>create(state, config)\<close>: configured, not started; the result of \<open>create(state)\<close> is not tested.\<close>

definition create_configured ::
  "('o, 'c) state_api \<Rightarrow> state_factory \<Rightarrow> string \<Rightarrow> json \<Rightarrow> (fsm_error + 'o option) option" where
  "create_configured api f state config =
     Option.bind (create_named api f state state) (\<lambda>ret. Some (configure_ptr api state config ret))"

end
