(* ===== verification/Transition_Map.thy ===== *)
theory Transition_Map
  imports State_Factory "HOL-Library.Product_Lexorder"
begin

text \<open>
  The transitions of an FSM (\<open>fsm/Transition.h\<close>, \<open>fsm/TransitionMap.h\<close>, \<open>fsm/TransitionMap.cpp\<close>): a
  \<open>std::map\<close> from a state and an output to the next state, its initialisation from a configuration and
  the lookup that falls back to the output \<open>DEFAULT\<close>. The map is kept as an association list; where the
  code iterates over it, the model sorts it by key first.
\<close>

datatype transition_type = StepByStep | Auto | Strict

record Transition =
  trans_state :: string
  trans_type :: transition_type

record transition_map =
  init_state :: string
  transition_entries :: "((string \<times> string) \<times> Transition) list"

definition empty_transition_map :: transition_map where
  "empty_transition_map = \<lparr>init_state = '''', transition_entries = []\<rparr>"

definition transition :: "transition_map \<Rightarrow> string \<Rightarrow> string \<Rightarrow> Transition option" where
  "transition tm state out =
     (case map_of (transition_entries tm) (state, out) of
        Some t \<Rightarrow> Some t
      | None \<Rightarrow> map_of (transition_entries tm) (state, ''DEFAULT''))"

definition transitions :: "transition_map \<Rightarrow> string \<Rightarrow> string set" where
  "transitions tm state = trans_state ` snd ` set (filter (\<lambda>e. fst (fst e) = state) (transition_entries tm))"

definition str2type :: "string \<Rightarrow> transition_type" where
  "str2type s = (if s = ''StepByStep'' then StepByStep else if s = ''Auto'' then Auto
                 else if s = ''Strict'' then Strict else StepByStep)"

fun type2str :: "transition_type \<Rightarrow> string" where
  "type2str StepByStep = ''StepByStep''"
| "type2str Auto = ''Auto''"
| "type2str Strict = ''Strict''"

section \<open>Initialisation\<close>

text \<open>
  The loop over the entries of the configuration. Besides the map it keeps whether the initial
  state is the origin of a valid transition and the first valid origin.
\<close>

fun init_entries :: "state_factory \<Rightarrow> string \<Rightarrow> string list list \<Rightarrow> ((string \<times> string) \<times> Transition) list
    \<Rightarrow> bool \<Rightarrow> string \<Rightarrow> fsm_error + ((string \<times> string) \<times> Transition) list \<times> bool \<times> string" where
  "init_entries factory ini [] m valid first = Inr (m, valid, first)"
| "init_entries factory ini (t # ts) m valid first =
     (if length t < 3 \<or> 4 < length t then Inl Invalid_transition_entry
      else
        let from = t ! 0; to = t ! 2; by' = t ! 1; ty = (if length t = 4 then str2type (t ! 3) else StepByStep) in
        if \<not> (hasState factory from \<and> hasState factory to) then init_entries factory ini ts m valid first
        else
          init_entries factory ini ts (alist_put (from, by') \<lparr>trans_state = to, trans_type = ty\<rparr> m)
            (valid \<or> ini = from) (if first = '''' then from else first))"

definition transition_map_init :: "state_factory \<Rightarrow> json \<Rightarrow> transition_map \<Rightarrow> fsm_error + transition_map" where
  "transition_map_init factory config tm =
     (let ini = config_or config ''init'' to_string '''';
          ts = config_or config ''transitions'' (to_std_vector (to_std_vector to_string)) [] in
      if ts = [] then Inl Invalid_transitions
      else
        case init_entries factory ini ts (transition_entries tm) False '''' of
          Inl err \<Rightarrow> Inl err
        | Inr (m, valid, first) \<Rightarrow>
            if m = [] then Inl No_valid_transition
            else Inr \<lparr>init_state = (if valid then ini else first), transition_entries = m\<rparr>)"

section \<open>Printing\<close>

definition print_entry :: "(string \<times> string) \<times> Transition \<Rightarrow> string" where
  "print_entry e =
     fst (fst e) @ '' -- ('' @ snd (fst e) @ '') --> '' @ trans_state (snd e) @ '' ['' @ type2str (trans_type (snd e)) @ '']''
       @ [CHR 0x0A]"

definition print_transition_map :: "transition_map \<Rightarrow> string" where
  "print_transition_map tm = concat (map print_entry (sort_key fst (transition_entries tm)))"

section \<open>What the map holds\<close>

text \<open>The valid entries of a configuration, and the entry that decides a key: the last one.\<close>

definition entry_valid :: "state_factory \<Rightarrow> string list \<Rightarrow> bool" where
  "entry_valid factory t \<longleftrightarrow> hasState factory (t ! 0) \<and> hasState factory (t ! 2)"

definition entry_transition :: "string list \<Rightarrow> Transition" where
  "entry_transition t =
     \<lparr>trans_state = t ! 2, trans_type = (if length t = 4 then str2type (t ! 3) else StepByStep)\<rparr>"

definition entry_map :: "state_factory \<Rightarrow> string list list \<Rightarrow> (string \<times> string) \<rightharpoonup> Transition" where
  "entry_map factory ts = map_of (rev (map (\<lambda>t. ((t ! 0, t ! 1), entry_transition t)) (filter (entry_valid factory) ts)))"

lemma init_entries_ok:
  assumes "\<forall>t\<in>set ts. length t = 3 \<or> length t = 4"
  shows "\<exists>m' valid' first'. init_entries factory ini ts m valid first = Inr (m', valid', first') \<and>
    map_of m' = map_of m ++ entry_map factory ts \<and>
    (valid' \<longleftrightarrow> valid \<or> (\<exists>t\<in>set ts. entry_valid factory t \<and> t ! 0 = ini)) \<and>
    first' = hd (filter (\<lambda>s. s \<noteq> '''') ([first] @ map (\<lambda>t. t ! 0) (filter (entry_valid factory) ts)) @ [''''])"
  using assms
proof (induction ts arbitrary: m valid first)
  case Nil
  then show ?case by (simp add: entry_map_def)
next
  case (Cons t ts)
  have len: "\<not> (length t < 3 \<or> 4 < length t)" "\<forall>t\<in>set ts. length t = 3 \<or> length t = 4"
    using Cons.prems by auto
  show ?case
  proof (cases "entry_valid factory t")
    case True
    let ?m = "alist_put (t ! 0, t ! 1) (entry_transition t) m"
    have "map_of ?m ++ entry_map factory ts = map_of m ++ entry_map factory (t # ts)"
      using True by (simp add: entry_map_def)
    note merge = this
    have step: "init_entries factory ini (t # ts) m valid first =
        init_entries factory ini ts ?m (valid \<or> ini = t ! 0) (if first = '''' then t ! 0 else first)"
      using True len(1) by (simp add: entry_valid_def entry_transition_def Let_def)
    obtain m' valid' first' where ih:
      "init_entries factory ini ts ?m (valid \<or> ini = t ! 0) (if first = '''' then t ! 0 else first) = Inr (m', valid', first')"
      "map_of m' = map_of ?m ++ entry_map factory ts"
      "valid' \<longleftrightarrow> (valid \<or> ini = t ! 0) \<or> (\<exists>t\<in>set ts. entry_valid factory t \<and> t ! 0 = ini)"
      "first' = hd (filter (\<lambda>s. s \<noteq> '''') ([if first = '''' then t ! 0 else first]
        @ map (\<lambda>t. t ! 0) (filter (entry_valid factory) ts)) @ [''''])"
      using Cons.IH [OF len(2), of ?m "valid \<or> ini = t ! 0" "if first = '''' then t ! 0 else first"] by blast
    show ?thesis
      unfolding step ih(1) sum.inject prod.inject
      using ih(2-4) merge True by auto
  next
    case False
    then have step: "init_entries factory ini (t # ts) m valid first = init_entries factory ini ts m valid first"
      using len(1) by (auto simp: entry_valid_def Let_def)
    have "entry_map factory (t # ts) = entry_map factory ts"
      using False by (simp add: entry_map_def)
    then show ?thesis
      unfolding step
      using Cons.IH [OF len(2), of m valid first] False by auto
  qed
qed

lemma init_entries_invalid:
  assumes "t \<in> set ts" "\<not> (length t = 3 \<or> length t = 4)"
  shows "init_entries factory ini ts m valid first = Inl Invalid_transition_entry"
  using assms
proof (induction ts arbitrary: m valid first)
  case (Cons t' ts)
  then show ?case
    by (cases "length t' < 3 \<or> 4 < length t'") (auto simp: Let_def)
qed simp

lemma entry_map_empty: "entry_map factory ts = Map.empty \<longleftrightarrow> (\<forall>t\<in>set ts. \<not> entry_valid factory t)"
  by (auto simp: entry_map_def filter_empty_conv)

lemma entry_map_SomeD:
  assumes "entry_map factory ts (s, out) = Some t"
  shows "hasState factory s" "hasState factory (trans_state t)"
proof -
  obtain e where "e \<in> set ts" "entry_valid factory e" "s = e ! 0" "t = entry_transition e"
    using assms by (auto simp: entry_map_def dest!: map_of_SomeD)
  then show "hasState factory s" "hasState factory (trans_state t)"
    by (auto simp: entry_valid_def entry_transition_def)
qed

text \<open>A map built from scratch only holds known states.\<close>

lemma init_entries_states:
  assumes "init_entries factory ini ts m valid first = Inr (m', valid', first')"
    "\<forall>e\<in>set m. hasState factory (fst (fst e)) \<and> hasState factory (trans_state (snd e))"
  shows "\<forall>e\<in>set m'. hasState factory (fst (fst e)) \<and> hasState factory (trans_state (snd e))"
  using assms
proof (induction ts arbitrary: m valid first)
  case (Cons t ts)
  have put: "set (alist_put k v xs) \<subseteq> insert (k, v) (set xs)" for k :: "string \<times> string" and v :: Transition and xs
    by (induction k v xs rule: alist_put.induct) auto
  let ?m = "alist_put (t ! 0, t ! 1) (entry_transition t) m"
  show ?case
  proof (cases "entry_valid factory t")
    case True
    then have "\<forall>e\<in>set ?m. hasState factory (fst (fst e)) \<and> hasState factory (trans_state (snd e))"
      using put [of "(t ! 0, t ! 1)" "entry_transition t" m] Cons.prems(2)
      by (auto simp: entry_valid_def entry_transition_def)
    moreover have "init_entries factory ini ts ?m (valid \<or> ini = t ! 0) (if first = '''' then t ! 0 else first) =
        Inr (m', valid', first')"
      using Cons.prems(1) True by (auto simp: entry_valid_def entry_transition_def Let_def split: if_splits)
    ultimately show ?thesis
      using Cons.IH by blast
  next
    case False
    then have "init_entries factory ini ts m valid first = Inr (m', valid', first')"
      using Cons.prems(1) by (auto simp: entry_valid_def Let_def split: if_splits)
    then show ?thesis
      using Cons.IH Cons.prems(2) by blast
  qed
qed simp

lemma first_nonempty: "xs \<noteq> [] \<Longrightarrow> hd (filter (\<lambda>s. s \<noteq> []) xs @ [[]]) \<in> set xs"
proof (induction xs)
  case (Cons x xs)
  then show ?case by (cases "xs = []") auto
qed simp

lemma transition_map_states:
  assumes "transition_map_init factory config empty_transition_map = Inr tm"
  shows "hasState factory (init_state tm)"
    "\<forall>e\<in>set (transition_entries tm). hasState factory (fst (fst e)) \<and> hasState factory (trans_state (snd e))"
proof -
  define ini where "ini = config_or config ''init'' to_string ''''"
  define ts where "ts = config_or config ''transitions'' (to_std_vector (to_std_vector to_string)) []"
  obtain m valid first where e: "init_entries factory ini ts [] False '''' = Inr (m, valid, first)" "m \<noteq> []"
    and tm: "tm = \<lparr>init_state = (if valid then ini else first), transition_entries = m\<rparr>"
    using assms by (auto simp: transition_map_init_def empty_transition_map_def Let_def ini_def ts_def
        split: if_splits sum.splits)
  show "\<forall>e\<in>set (transition_entries tm). hasState factory (fst (fst e)) \<and> hasState factory (trans_state (snd e))"
    using init_entries_states [OF e(1)] by (simp add: tm)
  have len: "\<forall>t\<in>set ts. length t = 3 \<or> length t = 4"
  proof
    fix t
    assume "t \<in> set ts"
    then show "length t = 3 \<or> length t = 4"
      using init_entries_invalid [of t ts factory ini "[]" False "''''"] e(1) by auto
  qed
  then have m: "map_of m = entry_map factory ts"
    and v: "valid \<longleftrightarrow> (\<exists>t\<in>set ts. entry_valid factory t \<and> t ! 0 = ini)"
    and f: "first = hd (filter (\<lambda>s. s \<noteq> '''') (map (\<lambda>t. t ! 0) (filter (entry_valid factory) ts)) @ [''''])"
    using init_entries_ok [OF len, of factory ini "[]" False "''''"] e(1) by simp_all
  let ?os = "map (\<lambda>t. t ! 0) (filter (entry_valid factory) ts)"
  have os: "\<And>s. s \<in> set ?os \<Longrightarrow> hasState factory s" by (auto simp: entry_valid_def)
  have "map_of m \<noteq> Map.empty" using e(2) by simp
  then have "?os \<noteq> []"
    unfolding m entry_map_empty by (simp add: filter_empty_conv)
  then have "first \<in> set ?os"
    unfolding f by (rule first_nonempty)
  then have "hasState factory first" by (rule os)
  moreover have "valid \<Longrightarrow> hasState factory ini"
    unfolding v by (auto simp: entry_valid_def)
  ultimately show "hasState factory (init_state tm)"
    by (simp add: tm)
qed

end
