(* ===== verification/Fsm_Executor.thy ===== *)
theory Fsm_Executor
  imports Transition_Map
begin

text \<open>
  The executor of an FSM (\<open>fsm/Executor.h\<close>, \<open>fsm/Executor.cpp\<close>): it runs the current state once per
  control iteration, follows the transition map when the state completes, and reacts to
  interruption, to requests for the next transition and to requests to resume in another state.
  The environment gives it the state classes, the factory and \<open>resetPostures\<close> of the controller.
  A result \<open>None\<close> is a call that does not return, \<open>Inl\<close> an exception or a null dereference. The timers,
  the log entries and the GUI elements are not part of the state; the GUI callbacks are the requests
  \<open>executor_next_request\<close>, \<open>executor_interrupt\<close> and \<open>executor_resume\<close>.
\<close>

section \<open>State\<close>

record ('o, 'c) fsm_env =
  env_api :: "('o, 'c) state_api"
  env_factory :: state_factory
  env_resetPostures :: "'c \<Rightarrow> 'c"

record 'o executor =
  ex_config :: json
  managed :: bool
  step_by_step :: bool
  reset_postures :: bool
  ex_map :: transition_map
  ex_state :: "'o option"
  curr_state :: string
  state_output :: string
  interrupt_triggered :: bool
  ready :: bool
  transition_triggered :: bool
  complete :: bool
  next_state :: string

definition new_executor :: "'o executor" where
  "new_executor =
     \<lparr>ex_config = J_object [], managed = False, step_by_step = True, reset_postures = True,
      ex_map = empty_transition_map, ex_state = None, curr_state = '''', state_output = '''',
      interrupt_triggered = False, ready = True, transition_triggered = False, complete = False, next_state = ''''\<rparr>"

definition executor_running :: "'o executor \<Rightarrow> bool" where
  "executor_running ex \<longleftrightarrow> ex_state ex \<noteq> None"

section \<open>Operations\<close>

definition executor_init :: "state_factory \<Rightarrow> json \<Rightarrow> 'o executor \<Rightarrow> fsm_error + 'o executor" where
  "executor_init factory config ex =
     (let ex = ex\<lparr>ex_config := config, managed := config_or config ''Managed'' to_bool (managed ex),
                  step_by_step := config_or config ''StepByStep'' to_bool (step_by_step ex),
                  reset_postures := config_or config ''ResetPostures'' to_bool (reset_postures ex)\<rparr> in
      if managed ex then Inr ex
      else
        case transition_map_init factory config (ex_map ex) of
          Inl err \<Rightarrow> Inl err
        | Inr tm \<Rightarrow> Inr (ex\<lparr>ex_map := tm, transition_triggered := True, next_state := init_state tm\<rparr>))"

text \<open>\<open>complete(ctl, keep_state)\<close> dereferences the state without a test.\<close>

definition executor_complete ::
  "('o, 'c) fsm_env \<Rightarrow> bool \<Rightarrow> 'o executor \<Rightarrow> 'c \<Rightarrow> (fsm_error + bool \<times> 'o executor \<times> 'c) option" where
  "executor_complete env keep_state ex ctl =
     (if keep_state then Some (Inr (True, ex\<lparr>ready := True\<rparr>, ctl))
      else
        case ex_state ex of
          None \<Rightarrow> Some (Inl (Null_state (curr_state ex)))
        | Some o' \<Rightarrow> Some (Inr (True, ex\<lparr>ex_state := None, ready := True\<rparr>, teardown_state (env_api env) o' ctl)))"

definition executor_next_request :: "'o executor \<Rightarrow> bool \<times> 'o executor" where
  "executor_next_request ex =
     (if \<not> managed ex \<and> ready ex then (True, ex\<lparr>transition_triggered := True\<rparr>) else (False, ex))"

text \<open>The configuration given to the next state: the entry of the state in \<open>configs\<close>, if any.\<close>

definition next_config :: "json \<Rightarrow> string \<Rightarrow> json option" where
  "next_config config s = config_find_path config [''configs'', s]"

definition executor_next ::
  "('o, 'c) fsm_env \<Rightarrow> 'o executor \<Rightarrow> 'c \<Rightarrow> (fsm_error + 'o executor \<times> 'c) option" where
  "executor_next env ex ctl =
     (if \<not> ready ex \<or> next_state ex = '''' then Some (Inr (ex, ctl))
      else
        let ex = ex\<lparr>ready := False, transition_triggered := False\<rparr>;
            ctl = (case ex_state ex of
                     None \<Rightarrow> ctl
                   | Some o' \<Rightarrow>
                       let ctl = teardown_state (env_api env) o' ctl in
                       if reset_postures ex then env_resetPostures env ctl else ctl) in
        case create_started (env_api env) (env_factory env) (next_state ex) (next_config (ex_config ex) (next_state ex)) ctl of
          None \<Rightarrow> None
        | Some (Inl err) \<Rightarrow> Some (Inl err)
        | Some (Inr (state, ctl)) \<Rightarrow>
            Some (Inr (ex\<lparr>ex_state := state, curr_state := next_state ex, next_state := ''''\<rparr>, ctl)))"

text \<open>The first part of \<open>run\<close>: a pending interruption stops the state and tears it down.\<close>

definition executor_handle_interrupt ::
  "('o, 'c) fsm_env \<Rightarrow> 'o executor \<Rightarrow> 'c \<Rightarrow> (fsm_error + 'o executor \<times> 'c) option" where
  "executor_handle_interrupt env ex ctl =
     (if \<not> interrupt_triggered ex then Some (Inr (ex, ctl))
      else
        let ex = ex\<lparr>interrupt_triggered := False\<rparr> in
        case ex_state ex of
          None \<Rightarrow> Some (Inr (ex, ctl))
        | Some o' \<Rightarrow>
            (case stop_state (env_api env) o' ctl of
               (o', ctl) \<Rightarrow>
                 (case executor_complete env False (ex\<lparr>ex_state := Some o'\<rparr>) ctl of
                    None \<Rightarrow> None
                  | Some (Inl err) \<Rightarrow> Some (Inl err)
                  | Some (Inr (_, ex, ctl)) \<Rightarrow> Some (Inr (ex, ctl)))))"

text \<open>What \<open>run\<close> does with a state whose \<open>run\<close> returned true, now or earlier.\<close>

definition executor_follow ::
  "('o, 'c) fsm_env \<Rightarrow> bool \<Rightarrow> 'o executor \<Rightarrow> 'c \<Rightarrow> (fsm_error + bool \<times> 'o executor \<times> 'c) option" where
  "executor_follow env keep_state ex ctl =
     (if managed ex then executor_complete env keep_state (ex\<lparr>complete := True\<rparr>) ctl
      else
        case transition (ex_map ex) (curr_state ex) (state_output ex) of
          None \<Rightarrow> executor_complete env keep_state (ex\<lparr>complete := True\<rparr>) ctl
        | Some t \<Rightarrow>
            let ex = ex\<lparr>next_state := trans_state t\<rparr> in
            if trans_type t = Auto \<or> (trans_type t = StepByStep \<and> \<not> step_by_step ex) \<or> transition_triggered ex then
              (case executor_next env ex ctl of
                 None \<Rightarrow> None
               | Some (Inl err) \<Rightarrow> Some (Inl err)
               | Some (Inr (ex, ctl)) \<Rightarrow> Some (Inr (True, ex, ctl)))
            else executor_complete env keep_state ex ctl)"

definition executor_step ::
  "('o, 'c) fsm_env \<Rightarrow> bool \<Rightarrow> 'o executor \<Rightarrow> 'c \<Rightarrow> (fsm_error + bool \<times> 'o executor \<times> 'c) option" where
  "executor_step env keep_state ex ctl =
     (case ex_state ex of
        Some o' \<Rightarrow>
          (case run_state (env_api env) o' ctl of
             (finished, o', ctl) \<Rightarrow>
               let ex = ex\<lparr>ex_state := Some o'\<rparr> in
               if \<not> (finished \<or> ready ex) then Some (Inr (False, ex, ctl))
               else
                 executor_follow env keep_state
                   (if ready ex then ex else ex\<lparr>ready := True, state_output := output_state (env_api env) o'\<rparr>) ctl)
      | None \<Rightarrow>
          if transition_triggered ex then
            (case executor_next env ex ctl of
               None \<Rightarrow> None
             | Some (Inl err) \<Rightarrow> Some (Inl err)
             | Some (Inr (ex, ctl)) \<Rightarrow> Some (Inr (ready ex, ex, ctl)))
          else Some (Inr (ready ex, ex, ctl)))"

definition executor_run ::
  "('o, 'c) fsm_env \<Rightarrow> bool \<Rightarrow> 'o executor \<Rightarrow> 'c \<Rightarrow> (fsm_error + bool \<times> 'o executor \<times> 'c) option" where
  "executor_run env keep_state ex ctl =
     (case executor_handle_interrupt env ex ctl of
        None \<Rightarrow> None
      | Some (Inl err) \<Rightarrow> Some (Inl err)
      | Some (Inr (ex, ctl)) \<Rightarrow> executor_step env keep_state ex ctl)"

definition executor_interrupt :: "'o executor \<Rightarrow> 'o executor" where
  "executor_interrupt ex = ex\<lparr>interrupt_triggered := True\<rparr>"

definition executor_resume :: "string \<Rightarrow> 'o executor \<Rightarrow> 'o executor" where
  "executor_resume s ex =
     ex\<lparr>complete := False, interrupt_triggered := True, transition_triggered := True, next_state := s\<rparr>"

definition executor_stop :: "('o, 'c) fsm_env \<Rightarrow> 'o executor \<Rightarrow> 'c \<Rightarrow> 'o executor \<times> 'c" where
  "executor_stop env ex ctl =
     (case ex_state ex of
        None \<Rightarrow> (ex, ctl)
      | Some o' \<Rightarrow> (case stop_state (env_api env) o' ctl of (o', ctl) \<Rightarrow> (ex\<lparr>ex_state := Some o'\<rparr>, ctl)))"

definition executor_teardown :: "('o, 'c) fsm_env \<Rightarrow> 'o executor \<Rightarrow> 'c \<Rightarrow> 'o executor \<times> 'c" where
  "executor_teardown env ex ctl =
     (case ex_state ex of
        None \<Rightarrow> (ex, ctl)
      | Some o' \<Rightarrow> (ex\<lparr>ex_state := None\<rparr>, teardown_state (env_api env) o' ctl))"

section \<open>Histories\<close>

text \<open>What happens to an executor between its initialisation and its teardown.\<close>

datatype executor_event =
    Run bool
  | Interrupt
  | Next
  | Resume string
  | Stop

fun handle_event ::
  "('o, 'c) fsm_env \<Rightarrow> executor_event \<Rightarrow> 'o executor \<times> 'c \<Rightarrow> (fsm_error + 'o executor \<times> 'c) option" where
  "handle_event env (Run keep_state) (ex, ctl) =
     (case executor_run env keep_state ex ctl of
        None \<Rightarrow> None | Some (Inl err) \<Rightarrow> Some (Inl err) | Some (Inr (_, ex, ctl)) \<Rightarrow> Some (Inr (ex, ctl)))"
| "handle_event env Interrupt (ex, ctl) = Some (Inr (executor_interrupt ex, ctl))"
| "handle_event env Next (ex, ctl) = Some (Inr (snd (executor_next_request ex), ctl))"
| "handle_event env (Resume s) (ex, ctl) = Some (Inr (executor_resume s ex, ctl))"
| "handle_event env Stop (ex, ctl) = Some (Inr (executor_stop env ex ctl))"

fun handle_events ::
  "('o, 'c) fsm_env \<Rightarrow> executor_event list \<Rightarrow> 'o executor \<times> 'c \<Rightarrow> (fsm_error + 'o executor \<times> 'c) option" where
  "handle_events env [] st = Some (Inr st)"
| "handle_events env (e # es) st =
     (case handle_event env e st of
        None \<Rightarrow> None | Some (Inl err) \<Rightarrow> Some (Inl err) | Some (Inr st) \<Rightarrow> handle_events env es st)"

end
