(* ===== verification/State_Factory_Correct.thy ===== *)
theory State_Factory_Correct
  imports State_Factory
begin

text \<open>
  The factory keeps every known state creatable: the chain of bases of a state ends in a loaded
  class. Creation then returns, and configures the object with the configurations of the chain from
  the root to the requested state. Loading a set of states finds exactly the states whose chain of
  bases can be completed, whatever the order of the declarations.
\<close>

section \<open>Creatable states\<close>

inductive buildable :: "state_factory \<Rightarrow> string \<Rightarrow> string \<times> string option \<times> (string \<times> json) list \<Rightarrow> bool" for f where
  from_class: "hasState f s \<Longrightarrow> has_object f s \<Longrightarrow> buildable f s (s, None, [])"
| from_loader: "hasState f s \<Longrightarrow> \<not> has_object f s \<Longrightarrow> map_of (factory_configurations f) s = Some cfg
    \<Longrightarrow> sc_arg cfg \<noteq> '''' \<Longrightarrow> has_object f (sc_base cfg)
    \<Longrightarrow> buildable f s (sc_base cfg, Some (sc_arg cfg), [(s, sc_config cfg)])"
| from_base: "hasState f s \<Longrightarrow> \<not> has_object f s \<Longrightarrow> map_of (factory_configurations f) s = Some cfg
    \<Longrightarrow> sc_arg cfg = '''' \<Longrightarrow> buildable f (sc_base cfg) (root, arg, cfgs)
    \<Longrightarrow> buildable f s (root, arg, cfgs @ [(s, sc_config cfg)])"

definition factory_ok :: "state_factory \<Rightarrow> bool" where
  "factory_ok f \<longleftrightarrow> (\<forall>s. has_object f s \<longrightarrow> hasState f s) \<and> (\<forall>s. hasState f s \<longrightarrow> (\<exists>b. buildable f s b))"

text \<open>Configuring an object with a list of configurations, in order.\<close>

definition configure_all :: "('o, 'c) state_api \<Rightarrow> (string \<times> json) list \<Rightarrow> fsm_error + 'o option \<Rightarrow> fsm_error + 'o option" where
  "configure_all api cfgs ret = fold (\<lambda>(n, cfg). configure_ptr api n cfg) cfgs ret"

lemma create_buildable:
  assumes "buildable f s b" "b = (root, arg, cfgs)"
  shows "create_named api f s final = Some (configure_all api cfgs (create_object api root arg final))"
  using assms
proof (induction arbitrary: root arg cfgs)
  case (from_class s)
  then show ?case
    by (simp add: create_named.simps configure_all_def)
next
  case (from_loader s cfg)
  then show ?case
    by (auto simp add: create_named.simps configure_all_def)
next
  case (from_base s cfg root' arg' cfgs')
  then show ?case
    by (auto simp add: create_named.simps [of api f s] configure_all_def)
qed

lemma buildable_hasState: "buildable f s b \<Longrightarrow> hasState f s"
  by (induction rule: buildable.induct) auto

text \<open>A change that keeps the known states, their configurations and the classes keeps every chain.\<close>

definition extends :: "state_factory \<Rightarrow> state_factory \<Rightarrow> bool" where
  "extends f f' \<longleftrightarrow>
     has_object f' = has_object f \<and>
     (\<forall>s. hasState f s \<longrightarrow> hasState f' s \<and> map_of (factory_configurations f') s = map_of (factory_configurations f) s)"

lemma extends_refl [simp]: "extends f f"
  by (simp add: extends_def)

lemma extends_trans: "extends f g \<Longrightarrow> extends g h \<Longrightarrow> extends f h"
  by (simp add: extends_def)

lemma extends_buildable: "buildable f s b \<Longrightarrow> extends f f' \<Longrightarrow> buildable f' s b"
  by (induction rule: buildable.induct) (auto simp: extends_def intro: buildable.intros)

lemma extends_ok:
  assumes "factory_ok f" "extends f f'" "\<And>s. hasState f' s \<Longrightarrow> \<not> hasState f s \<Longrightarrow> \<exists>b. buildable f' s b"
  shows "factory_ok f'"
  unfolding factory_ok_def
proof (intro conjI allI impI)
  fix s
  assume "has_object f' s"
  then show "hasState f' s"
    using assms(1,2) by (auto simp: factory_ok_def extends_def)
next
  fix s
  assume "hasState f' s"
  then show "\<exists>b. buildable f' s b"
    using assms extends_buildable by (metis factory_ok_def)
qed

section \<open>Adding states\<close>

definition loadable :: "state_factory \<Rightarrow> string \<Rightarrow> bool" where
  "loadable f s \<longleftrightarrow> CHR ''#'' \<in> set s \<and> length (loader_part s) \<noteq> length s - 1 \<and> has_object f (loader_part s)"

lemma load_with_loader_iff: "fst (load_with_loader s f) \<longleftrightarrow> loadable f s"
  by (auto simp: load_with_loader_def loadable_def Let_def)

lemma takeWhile_shorter: "x \<in> set xs \<Longrightarrow> \<not> P x \<Longrightarrow> length (takeWhile P xs) < length xs"
  by (induction xs) auto

lemma arg_part_nonempty:
  assumes "loadable f s"
  shows "arg_part s \<noteq> ''''"
proof -
  have "length (loader_part s) < length s"
    using assms unfolding loadable_def loader_part_def by (auto intro: takeWhile_shorter)
  with assms show ?thesis
    by (auto simp: arg_part_def loadable_def)
qed

lemma has_object_simps [simp]:
  "has_object (f\<lparr>factory_states := x\<rparr>) = has_object f"
  "has_object (f\<lparr>factory_configurations := y\<rparr>) = has_object f"
  by (auto simp: has_object_def fun_eq_iff)

lemma load_with_loader_ok:
  assumes "load_with_loader s f = (True, f')" "\<not> hasState f s" "factory_ok f"
  shows "extends f f'" "hasState f' t \<longleftrightarrow> t = s \<or> hasState f t" "factory_ok f'"
proof -
  have l: "loadable f s"
    using assms(1) load_with_loader_iff [of s f] by simp
  let ?c = "\<lparr>sc_base = loader_part s, sc_arg = arg_part s, sc_config = J_object []\<rparr>"
  have f': "f' = f\<lparr>factory_states := factory_states f @ [s],
      factory_configurations := alist_put s ?c (factory_configurations f)\<rparr>"
    using assms(1) l by (simp add: load_with_loader_def loadable_def Let_def)
  show ext: "extends f f'"
    using assms(2) by (auto simp: f' extends_def hasState_def)
  show new: "hasState f' t \<longleftrightarrow> t = s \<or> hasState f t" for t
    by (auto simp: f' hasState_def)
  have "\<not> has_object f s"
    using assms(2,3) by (auto simp: factory_ok_def)
  moreover have "map_of (factory_configurations f') s = Some ?c" "has_object f' = has_object f"
    by (simp_all add: f')
  ultimately have "buildable f' s (sc_base ?c, Some (sc_arg ?c), [(s, sc_config ?c)])"
    using new [of s] l arg_part_nonempty [OF l] by (intro buildable.from_loader) (simp_all add: loadable_def)
  then have "\<exists>b. buildable f' s b" ..
  then show "factory_ok f'"
    by (intro extends_ok [OF assms(3) ext]) (simp add: new)
qed

lemma find_base_ok:
  assumes "find_base b f = (r, f')" "factory_ok f"
  shows "r \<longleftrightarrow> hasState f b \<or> loadable f b" "extends f f'" "factory_ok f'"
    "hasState f' t \<longleftrightarrow> hasState f t \<or> (r \<and> t = b)"
    "\<not> r \<Longrightarrow> f' = f"
proof -
  have iff: "hasState f b \<or> (r \<longleftrightarrow> loadable f b)"
    using assms load_with_loader_iff [of b f] by (auto simp: find_base_def split: if_splits)
  show r: "r \<longleftrightarrow> hasState f b \<or> loadable f b"
    using assms iff by (auto simp: find_base_def)
  show same: "\<not> r \<Longrightarrow> f' = f"
    using assms by (auto simp: find_base_def load_with_loader_def Let_def split: if_splits)
  have "extends f f' \<and> factory_ok f' \<and> (hasState f' t \<longleftrightarrow> hasState f t \<or> (r \<and> t = b))" for t
  proof (cases "hasState f b \<or> \<not> r")
    case True
    then have "f' = f"
      using same assms(1) by (auto simp: find_base_def)
    with True assms(2) show ?thesis by auto
  next
    case False
    then have "load_with_loader b f = (True, f')"
      using assms(1) by (simp add: find_base_def)
    with False assms(2) show ?thesis
      using load_with_loader_ok by blast
  qed
  then show "extends f f'" "factory_ok f'" "hasState f' t \<longleftrightarrow> hasState f t \<or> (r \<and> t = b)"
    by blast+
qed

text \<open>Loading one state in a build with dynamic libraries.\<close>

lemma load_state_ok:
  assumes "load_state False name b cfg f = Inr f'" "factory_ok f"
  shows "extends f f'" "factory_ok f'" "hasState f' t \<longleftrightarrow> hasState f t \<or> t = name \<or> t = b"
    "map_of (factory_configurations f') name = Some \<lparr>sc_base = b, sc_arg = '''', sc_config = cfg\<rparr>"
proof -
  obtain f1 where f1: "find_base b f = (True, f1)" "\<not> hasState f1 name"
    and f': "f' = f1\<lparr>factory_states := factory_states f1 @ [name], factory_configurations :=
      alist_put name \<lparr>sc_base = b, sc_arg = '''', sc_config = cfg\<rparr> (factory_configurations f1)\<rparr>"
    using assms(1) by (auto simp: load_state_def Let_def split: prod.splits bool.splits if_splits)
  note base = find_base_ok [OF f1(1) assms(2)]
  have ext: "extends f1 f'"
    using f1(2) by (auto simp: f' extends_def hasState_def)
  show "extends f f'"
    using extends_trans [OF base(2) ext] .
  have new: "hasState f' t \<longleftrightarrow> hasState f1 t \<or> t = name" for t
    by (auto simp: f' hasState_def)
  show "hasState f' t \<longleftrightarrow> hasState f t \<or> t = name \<or> t = b"
    using base(4) new by auto
  show cfg: "map_of (factory_configurations f') name = Some \<lparr>sc_base = b, sc_arg = '''', sc_config = cfg\<rparr>"
    by (simp add: f')
  have "hasState f1 b" using base(4) by auto
  then obtain root arg cfgs where "buildable f1 b (root, arg, cfgs)"
    using base(3) by (metis factory_ok_def prod.exhaust)
  then have "buildable f' b (root, arg, cfgs)"
    using ext extends_buildable by blast
  moreover have "\<not> has_object f' name"
    using base(3) f1(2) by (auto simp: f' factory_ok_def)
  ultimately have "\<exists>x. buildable f' name x"
    using buildable.from_base [OF _ _ cfg] new [of name] by fastforce
  then show "factory_ok f'"
    using extends_ok [OF base(3) ext] new by blast
qed

lemma load_state_returns:
  assumes "factory_ok f" "hasState f b \<or> loadable f b" "\<not> hasState f name" "name \<noteq> b"
  shows "\<exists>f'. load_state False name b cfg f = Inr f'"
proof -
  obtain f1 where f1: "find_base b f = (True, f1)"
    using find_base_ok(1) [OF _ assms(1)] assms(2) by (metis (full_types) prod.exhaust)
  then have "\<not> hasState f1 name"
    using find_base_ok(4) [OF f1 assms(1), of name] assms(3,4) by blast
  with f1 show ?thesis by (auto simp: load_state_def Let_def)
qed

section \<open>Resolution\<close>

text \<open>The states a loader can still find: no pending name is taken and none has the form \<open>loader#arg\<close>.\<close>

definition pending_ok :: "state_factory \<Rightarrow> ud_state list \<Rightarrow> bool" where
  "pending_ok f us \<longleftrightarrow> factory_ok f \<and> distinct (map ud_name us) \<and>
     (\<forall>u\<in>set us. \<not> hasState f (ud_name u) \<and> CHR ''#'' \<notin> set (ud_name u))"

definition loaded :: "state_factory \<Rightarrow> ud_state \<Rightarrow> bool" where
  "loaded f u \<longleftrightarrow> hasState f (ud_name u) \<and>
     map_of (factory_configurations f) (ud_name u) = Some \<lparr>sc_base = ud_base u, sc_arg = '''', sc_config = ud_config u\<rparr>"

text \<open>The least set of states closed under the declarations.\<close>

inductive derives :: "state_factory \<Rightarrow> ud_state set \<Rightarrow> string \<Rightarrow> bool" for f U where
  known: "hasState f s \<Longrightarrow> derives f U s"
| by_loader: "loadable f s \<Longrightarrow> derives f U s"
| declared: "u \<in> U \<Longrightarrow> derives f U (ud_base u) \<Longrightarrow> derives f U (ud_name u)"

definition stuck :: "state_factory \<Rightarrow> ud_state list \<Rightarrow> bool" where
  "stuck f us \<longleftrightarrow> (\<forall>u\<in>set us. \<not> hasState f (ud_base u) \<and> \<not> loadable f (ud_base u))"

text \<open>What one pass or the whole loop achieves when it starts in \<open>f\<close> with \<open>us\<close> and ends in \<open>f'\<close> with \<open>rest\<close>.\<close>

definition resolves :: "state_factory \<Rightarrow> ud_state list \<Rightarrow> state_factory \<Rightarrow> ud_state list \<Rightarrow> bool" where
  "resolves f us f' rest \<longleftrightarrow> pending_ok f' rest \<and> extends f f' \<and> set rest \<subseteq> set us \<and>
     (\<forall>u\<in>set us. u \<in> set rest \<or> loaded f' u) \<and>
     (\<forall>s. hasState f' s \<longrightarrow> derives f (set us) s \<and> (hasState f s \<or> CHR ''#'' \<in> set s \<or> s \<in> ud_name ` set us))"

lemma loaded_extends: "loaded f u \<Longrightarrow> extends f f' \<Longrightarrow> loaded f' u"
  by (simp add: loaded_def extends_def)

lemma loadable_extends: "extends f f' \<Longrightarrow> loadable f' s = loadable f s"
  by (simp add: extends_def loadable_def)

lemma derives_mono:
  assumes "derives f' V s" "V \<subseteq> U" "extends f f'" "\<And>t. hasState f' t \<Longrightarrow> derives f U t"
  shows "derives f U s"
  using assms(1)
proof induction
  case (declared u)
  with assms(2) show ?case by (blast intro: derives.declared)
qed (use assms loadable_extends in \<open>auto intro: derives.by_loader\<close>)

lemma resolves_refl: "pending_ok f us \<Longrightarrow> resolves f us f us"
  by (auto simp: resolves_def intro: derives.known)

lemma resolves_trans:
  assumes "resolves f us g vs" "resolves g vs h ws"
  shows "resolves f us h ws"
proof -
  have "derives f (set us) s \<and> (hasState f s \<or> CHR ''#'' \<in> set s \<or> s \<in> ud_name ` set us)" if "hasState h s" for s
  proof
    have "derives g (set vs) s"
      using assms(2) that by (simp add: resolves_def)
    then show "derives f (set us) s"
      by (rule derives_mono) (use assms(1) in \<open>auto simp: resolves_def\<close>)
    show "hasState f s \<or> CHR ''#'' \<in> set s \<or> s \<in> ud_name ` set us"
      using assms that unfolding resolves_def by blast
  qed
  moreover have "u \<in> set ws \<or> loaded h u" if "u \<in> set us" for u
    using assms that loaded_extends unfolding resolves_def by blast
  ultimately show ?thesis
    using assms extends_trans unfolding resolves_def by blast
qed

lemma pending_names: "pending_ok f (u # us) \<Longrightarrow> v \<in> set us \<Longrightarrow> ud_name v \<noteq> ud_name u"
  unfolding pending_ok_def by (metis distinct.simps(2) image_eqI list.set_map list.simps(9))

lemma pending_load:
  assumes "pending_ok f (u # us)" "find_base (ud_base u) f = (True, f1)"
  obtains f2 where "load_state False (ud_name u) (ud_base u) (ud_config u) f1 = Inr f2"
    "resolves f (u # us) f2 us"
proof -
  have ok: "factory_ok f" using assms(1) by (simp add: pending_ok_def)
  note base = find_base_ok [OF assms(2) ok]
  have fresh: "\<not> hasState f (ud_name v)" "CHR ''#'' \<notin> set (ud_name v)" if "v \<in> set (u # us)" for v
    using assms(1) that by (auto simp: pending_ok_def)
  have not_base: "ud_base u \<noteq> ud_name v" if "v \<in> set (u # us)" for v
    using base(1) fresh [OF that] by (auto simp: loadable_def)
  have free: "\<not> hasState f1 (ud_name v)" if "v \<in> set (u # us)" for v
    using base(4) [of "ud_name v"] fresh(1) [OF that] not_base [OF that] by metis
  have has: "hasState f1 (ud_base u)" using base(4) by blast
  obtain f2 where f2: "load_state False (ud_name u) (ud_base u) (ud_config u) f1 = Inr f2"
    using load_state_returns [OF base(3)] has free [of u] not_base [of u] by fastforce
  note new = load_state_ok [OF f2 base(3)]
  have rest: "\<not> hasState f2 (ud_name v)" if "v \<in> set us" for v
  proof -
    have "ud_name v \<noteq> ud_name u"
      using pending_names [OF assms(1) that] .
    then show ?thesis
      using new(3) [of "ud_name v"] free [of v] not_base [of v] that by auto
  qed
  have d: "derives f (set (u # us)) (ud_base u)" "hasState f (ud_base u) \<or> CHR ''#'' \<in> set (ud_base u)"
    using base(1) by (auto simp: loadable_def intro: derives.intros)
  then have "derives f (set (u # us)) (ud_name u)"
    by (intro derives.declared) auto
  with d have "derives f (set (u # us)) s \<and> (hasState f s \<or> CHR ''#'' \<in> set s \<or> s \<in> ud_name ` set (u # us))"
    if "hasState f2 s" for s
    using that new(3) [of s] base(4) [of s] by (auto intro: derives.known)
  moreover have "loaded f2 u"
    using new(3) [of "ud_name u"] new(4) by (simp add: loaded_def)
  moreover have "pending_ok f2 us"
    using assms(1) new(2) rest by (simp add: pending_ok_def)
  ultimately have "resolves f (u # us) f2 us"
    using extends_trans [OF base(2) new(1)] unfolding resolves_def by auto
  with f2 show ?thesis using that by blast
qed

lemma pending_keep:
  assumes "pending_ok f (u # us)" "resolves f us f' rest"
  shows "resolves f (u # us) f' (u # rest)"
proof -
  note names = pending_names [OF assms(1)]
  from this have "\<not> hasState f' (ud_name u)"
    using assms by (auto simp: pending_ok_def resolves_def)
  then have "pending_ok f' (u # rest)"
    using assms names by (auto simp: pending_ok_def resolves_def)
  moreover have "derives f (set (u # us)) s" if "hasState f' s" for s
  proof (rule derives_mono)
    show "derives f (set us) s"
      using assms(2) that by (simp add: resolves_def)
  qed (auto intro: derives.known)
  ultimately show ?thesis
    using assms(2) by (auto simp: resolves_def)
qed

lemma resolve_pass_ok:
  assumes "pending_ok f us"
  shows "\<exists>f' rest. resolve_pass False f us = Inr (f', rest) \<and> resolves f us f' rest \<and>
    (length rest = length us \<longrightarrow> f' = f \<and> rest = us \<and> stuck f us)"
  using assms
proof (induction us arbitrary: f)
  case Nil
  then show ?case
    by (simp add: resolves_refl stuck_def)
next
  case (Cons u us)
  obtain r f1 where f1: "find_base (ud_base u) f = (r, f1)"
    by (metis prod.exhaust)
  have ok: "factory_ok f" "pending_ok f us"
    using Cons.prems by (auto simp: pending_ok_def)
  show ?case
  proof (cases r)
    case True
    then obtain f2 where f2: "load_state False (ud_name u) (ud_base u) (ud_config u) f1 = Inr f2"
      "resolves f (u # us) f2 us"
      using pending_load [OF Cons.prems] f1 by metis
    then have "pending_ok f2 us" by (simp add: resolves_def)
    then obtain f' rest where rest: "resolve_pass False f2 us = Inr (f', rest)" "resolves f2 us f' rest"
      using Cons.IH by blast
    have "length rest < length (u # us)"
      using resolve_pass_shrinks [OF rest(1)] by simp
    then show ?thesis
      using f1 f2(1) rest(1) True resolves_trans [OF f2(2) rest(2)] by simp
  next
    case False
    then have same: "f1 = f" and base: "\<not> hasState f (ud_base u)" "\<not> loadable f (ud_base u)"
      using find_base_ok(1,5) [OF f1 ok(1)] by auto
    obtain f' rest where rest: "resolve_pass False f us = Inr (f', rest)" "resolves f us f' rest"
      "length rest = length us \<longrightarrow> f' = f \<and> rest = us \<and> stuck f us"
      using Cons.IH [OF ok(2)] by blast
    then show ?thesis
      using f1 False same base pending_keep [OF Cons.prems rest(2)] by (simp add: stuck_def)
  qed
qed

lemma resolve_loop_ok:
  assumes "pending_ok f us" "prev = length us \<or> prev = 0"
  shows "\<exists>f' rest. resolve_loop False f us prev = Inr (f', rest) \<and> resolves f us f' rest \<and> stuck f' rest"
  using assms
proof (induction "False" f us prev rule: resolve_loop.induct)
  case (1 f us prev)
  obtain f1 us1 where pass: "resolve_pass False f us = Inr (f1, us1)" "resolves f us f1 us1"
    "length us1 = length us \<longrightarrow> f1 = f \<and> us1 = us \<and> stuck f us"
    using resolve_pass_ok [OF 1(2)] by blast
  show ?case
  proof (cases "length us = 0 \<or> length us1 = prev")
    case True
    then have "stuck f1 us1"
      using 1(3) pass by (auto simp: stuck_def)
    with True pass 1(2) show ?thesis
      by (auto simp: resolve_loop.simps [of False f us prev] resolves_refl stuck_def)
  next
    case False
    have "pending_ok f1 us1" using pass(2) by (simp add: resolves_def)
    with 1(1) False pass(1) obtain f' rest
      where "resolve_loop False f1 us1 (length us1) = Inr (f', rest)" "resolves f1 us1 f' rest" "stuck f' rest"
      by blast
    with False pass(1) show ?thesis
      using resolves_trans [OF pass(2)] by (simp add: resolve_loop.simps [of False f us prev])
  qed
qed

text \<open>Resolution loads exactly the declared states whose base can be derived.\<close>

lemma resolves_exactly:
  assumes "pending_ok f us" "resolves f us f' rest" "stuck f' rest" "u \<in> set us"
  shows "loaded f' u \<longleftrightarrow> derives f (set us) (ud_base u)"
proof
  assume l: "loaded f' u"
  have ext: "extends f f'" and ok: "factory_ok f'"
    using assms(2) by (auto simp: resolves_def pending_ok_def)
  have "\<not> has_object f (ud_name u)"
    using assms(1,4) by (auto simp: pending_ok_def factory_ok_def)
  then have no: "\<not> has_object f' (ud_name u)"
    using ext by (simp add: extends_def)
  obtain b where "buildable f' (ud_name u) b"
    using l ok by (auto simp: loaded_def factory_ok_def)
  then have "hasState f' (ud_base u)"
    using l no by (cases rule: buildable.cases) (auto simp: loaded_def dest: buildable_hasState)
  then show "derives f (set us) (ud_base u)"
    using assms(2) by (simp add: resolves_def)
next
  have closed: "hasState f' s \<or> loadable f' s" if "derives f (set us) s" for s
    using that
  proof induction
    case (known s)
    then show ?case using assms(2) by (auto simp: resolves_def extends_def)
  next
    case (by_loader s)
    then show ?case using assms(2) loadable_extends by (auto simp: resolves_def)
  next
    case (declared v)
    then show ?case using assms(2,3) by (auto simp: resolves_def stuck_def loaded_def)
  qed
  assume "derives f (set us) (ud_base u)"
  then have "u \<notin> set rest"
    using closed assms(3) by (auto simp: stuck_def)
  then show "loaded f' u"
    using assms(2,4) by (auto simp: resolves_def)
qed

section \<open>Declarations as a list\<close>

text \<open>Reading declarations is one pass of resolution over the declared states.\<close>

definition declared_states :: "(string \<times> json) list \<Rightarrow> ud_state list" where
  "declared_states m = [\<lparr>ud_name = n, ud_base = config_or c ''base'' to_string '''', ud_config = c\<rparr>.
     (n, c) \<leftarrow> m, config_or c ''base'' to_string '''' \<noteq> '''']"

lemma load_ud_pass:
  "load_ud sb m f us =
     (case resolve_pass sb f (declared_states m) of Inl err \<Rightarrow> Inl err | Inr (f', rest) \<Rightarrow> Inr (f', us @ rest))"
proof (induction sb m f us rule: load_ud.induct)
  case (2 sb n c m f us)
  then show ?case
    by (auto simp: declared_states_def Let_def split: prod.splits bool.splits sum.splits)
qed (simp add: declared_states_def)

lemma load_states_ok:
  assumes "pending_ok f (declared_states m)"
  shows "\<exists>f' rest. load_states False m f = Inr f' \<and> resolves f (declared_states m) f' rest \<and> stuck f' rest"
proof -
  obtain f1 us1 where pass: "resolve_pass False f (declared_states m) = Inr (f1, us1)"
    "resolves f (declared_states m) f1 us1"
    using resolve_pass_ok [OF assms] by blast
  then have "pending_ok f1 us1" by (simp add: resolves_def)
  then obtain f' rest where loop: "resolve_loop False f1 us1 0 = Inr (f', rest)" "resolves f1 us1 f' rest" "stuck f' rest"
    using resolve_loop_ok by blast
  show ?thesis
  proof (cases "us1 = []")
    case True
    then show ?thesis
      using pass by (auto simp: load_states_def load_ud_pass stuck_def)
  next
    case False
    then show ?thesis
      using pass loop resolves_trans [OF pass(2) loop(2)] by (auto simp: load_states_def load_ud_pass resolve_def)
  qed
qed

section \<open>State files\<close>

lemma resolve_pass_append:
  "resolve_pass sb f (us @ vs) =
     (case resolve_pass sb f us of
        Inl err \<Rightarrow> Inl err
      | Inr (f1, us1) \<Rightarrow> (case resolve_pass sb f1 vs of Inl err \<Rightarrow> Inl err | Inr (f2, vs1) \<Rightarrow> Inr (f2, us1 @ vs1)))"
  by (induction sb f us rule: resolve_pass.induct) (auto split: prod.splits bool.splits sum.splits)

text \<open>The states the files below a path declare, in the order they are read; \<open>None\<close> when a document is not an object.\<close>

definition doc_states :: "json \<Rightarrow> ud_state list option" where
  "doc_states doc = (case to_std_map Inr doc of Inl _ \<Rightarrow> None | Inr m \<Rightarrow> Some (declared_states m))"

definition append_opt :: "'a list option \<Rightarrow> 'a list option \<Rightarrow> 'a list option" where
  "append_opt xs ys = (case (xs, ys) of (Some xs, Some ys) \<Rightarrow> Some (xs @ ys) | _ \<Rightarrow> None)"

lemma append_opt_Some: "append_opt xs ys = Some zs \<longleftrightarrow> (\<exists>us vs. xs = Some us \<and> ys = Some vs \<and> zs = us @ vs)"
  by (auto simp: append_opt_def split: option.splits)

fun dir_states :: "fs_node list \<Rightarrow> ud_state list option" where
  "dir_states [] = Some []"
| "dir_states (FS_file doc # ps) = append_opt (doc_states doc) (dir_states ps)"
| "dir_states (FS_dir qs # ps) = append_opt (dir_states qs) (dir_states ps)"
| "dir_states (FS_other # ps) = dir_states ps"

fun path_states :: "(string \<Rightarrow> fs_node option) \<Rightarrow> string list \<Rightarrow> ud_state list option" where
  "path_states fs [] = Some []"
| "path_states fs (p # ps) =
     append_opt (case fs p of Some (FS_dir qs) \<Rightarrow> dir_states qs | Some (FS_file doc) \<Rightarrow> doc_states doc | _ \<Rightarrow> Some [])
       (path_states fs ps)"

text \<open>Reading files is one pass over the states they declare.\<close>

definition passes :: "bool \<Rightarrow> ud_state list \<Rightarrow> (state_factory \<Rightarrow> ud_state list \<Rightarrow> fsm_error + state_factory \<times> ud_state list) \<Rightarrow> bool"
where
  "passes sb us load \<longleftrightarrow> (\<forall>f ud. load f ud =
     (case resolve_pass sb f us of Inl err \<Rightarrow> Inl err | Inr (f', rest) \<Rightarrow> Inr (f', ud @ rest)))"

lemma passes_Nil [simp]: "passes sb [] (\<lambda>f ud. Inr (f, ud))"
  by (simp add: passes_def)

lemma passes_append:
  assumes "passes sb us load" "passes sb vs load'"
  shows "passes sb (us @ vs) (\<lambda>f ud. case load f ud of Inl err \<Rightarrow> Inl err | Inr (f, ud) \<Rightarrow> load' f ud)"
  using assms unfolding passes_def by (auto simp: resolve_pass_append split: sum.splits)

lemma load_file_passes: "doc_states doc = Some us \<Longrightarrow> passes sb us (load_file sb doc)"
  by (auto simp: passes_def load_file_def doc_states_def load_ud_pass split: sum.splits)

lemma load_dir_passes: "dir_states ps = Some us \<Longrightarrow> passes sb us (load_dir sb ps)"
proof (induction ps arbitrary: us rule: dir_states.induct)
  case (2 doc ps)
  then show ?case
    using passes_append [OF load_file_passes [of doc]] by (fastforce simp: append_opt_Some passes_def)
next
  case (3 qs ps)
  then show ?case
    using passes_append [of sb _ "load_dir sb qs"] by (fastforce simp: append_opt_Some passes_def)
qed (simp_all add: passes_def)

lemma load_paths_passes: "path_states fs ps = Some us \<Longrightarrow> passes sb us (load_paths sb fs ps)"
proof (induction ps arbitrary: us)
  case (Cons p ps)
  then obtain us1 us2 where us: "us = us1 @ us2" "path_states fs ps = Some us2"
    "(case fs p of Some (FS_dir qs) \<Rightarrow> dir_states qs | Some (FS_file doc) \<Rightarrow> doc_states doc | _ \<Rightarrow> Some []) = Some us1"
    by (auto simp: append_opt_Some)
  then have "passes sb us1 (\<lambda>f ud. case fs p of
      Some (FS_dir qs) \<Rightarrow> load_dir sb qs f ud | Some (FS_file doc) \<Rightarrow> load_file sb doc f ud | _ \<Rightarrow> Inr (f, ud))"
    by (auto split: option.splits fs_node.splits intro: load_file_passes load_dir_passes)
  then show ?case
    using passes_append [of sb us1 _ us2 "load_paths sb fs ps"] Cons.IH us by (simp add: fun_eq_iff passes_def)
qed (simp add: passes_def)

lemma load_files_ok:
  assumes "path_states fs ps = Some us" "pending_ok f us"
  shows "\<exists>f' rest. load_files False fs ps f = Inr f' \<and> resolves f us f' rest \<and> stuck f' rest"
proof -
  have load: "load_paths False fs ps f [] = resolve_pass False f us"
    using load_paths_passes [OF assms(1), of False] by (auto simp: passes_def split: sum.splits)
  obtain f1 us1 where pass: "resolve_pass False f us = Inr (f1, us1)" "resolves f us f1 us1"
    using resolve_pass_ok [OF assms(2)] by blast
  then have "pending_ok f1 us1" by (simp add: resolves_def)
  then obtain f' rest where loop: "resolve_loop False f1 us1 0 = Inr (f', rest)" "resolves f1 us1 f' rest" "stuck f' rest"
    using resolve_loop_ok by blast
  show ?thesis
  proof (cases "us1 = []")
    case True
    then show ?thesis
      using pass load by (auto simp: load_files_def stuck_def)
  next
    case False
    then show ?thesis
      using pass loop load resolves_trans [OF pass(2) loop(2)] by (auto simp: load_files_def resolve_def)
  qed
qed

section \<open>Static builds\<close>

text \<open>
  Where two states are each other's base, creation never returns. A static build reaches such a
  factory by replacing a state with one that is based on its own descendant.
\<close>

lemma create_cycle:
  assumes "hasState f a" "hasState f b" "\<not> has_object f a" "\<not> has_object f b"
    "map_of (factory_configurations f) a = Some ca" "sc_arg ca = ''''" "sc_base ca = b"
    "map_of (factory_configurations f) b = Some cb" "sc_arg cb = ''''" "sc_base cb = a"
  shows "create_named api f a n = None"
proof -
  have "api' = api \<longrightarrow> f' = f \<longrightarrow> s = a \<or> s = b \<longrightarrow> False"
    if "create_named api' f' s m = Some r" for api' f' s m r
    using _ that
  proof (rule create_named.raw_induct)
    fix create :: "('a, 'b) state_api \<Rightarrow> state_factory \<Rightarrow> string \<Rightarrow> string \<Rightarrow> (fsm_error + 'a option) option"
      and api' :: "('a, 'b) state_api" and f' s m r
    assume IH: "\<And>api' f' s m r. create api' f' s m = Some r \<Longrightarrow> api' = api \<longrightarrow> f' = f \<longrightarrow> s = a \<or> s = b \<longrightarrow> False"
      and body: "(if \<not> hasState f' s then Some (Inr None)
        else if has_object f' s then Some (create_object api' s None m)
        else case map_of (factory_configurations f') s of None \<Rightarrow> Some (Inr None)
          | Some cfg \<Rightarrow> if sc_arg cfg \<noteq> '''' then
              Some (configure_ptr api' s (sc_config cfg)
                (if has_object f' (sc_base cfg) then create_object api' (sc_base cfg) (Some (sc_arg cfg)) m
                 else Inl (Loader_exception (sc_base cfg))))
            else Option.bind (create api' f' (sc_base cfg) m)
              (\<lambda>ret. Some (configure_ptr api' s (sc_config cfg) ret))) = Some r"
    show "api' = api \<longrightarrow> f' = f \<longrightarrow> s = a \<or> s = b \<longrightarrow> False"
      using body assms IH [of api f a m] IH [of api f b m] by (auto simp: Option.bind_eq_Some_conv)
  qed
  then show ?thesis
    by (cases "create_named api f a n") blast+
qed

end
