(* ===== verification/Fsm_Executor_Correct.thy ===== *)
theory Fsm_Executor_Correct
  imports Fsm_Executor State_Factory_Correct
begin

text \<open>
  The executor over a reliable environment, where classes can be instantiated and configured: it
  never dereferences a null state, always has a state to run or is ready to start one, follows the
  transition map, and starts a resumed state in the next iteration. Resuming in an unknown state
  breaks it for good.
\<close>

section \<open>What the executor relies on\<close>

text \<open>
  A source of states: known states are created, unknown ones give a null pointer. \<open>good\<close> is the
  condition on the environment under which this holds.
\<close>

locale state_source =
  fixes good :: "'e \<Rightarrow> bool"
    and has :: "'e \<Rightarrow> string \<Rightarrow> bool"
    and make :: "'e \<Rightarrow> string \<Rightarrow> json option \<Rightarrow> 'c \<Rightarrow> (fsm_error + 'o option \<times> 'c) option"
  assumes make_known: "good e \<Longrightarrow> has e s \<Longrightarrow> \<exists>x ctl'. make e s cfg ctl = Some (Inr (Some x, ctl'))"
    and make_unknown: "\<not> has e s \<Longrightarrow> make e s cfg ctl = Some (Inr (None, ctl))"
begin

lemma make_returns: "good e \<Longrightarrow> \<exists>x ctl'. make e s cfg ctl = Some (Inr (x, ctl')) \<and> (x = None \<longleftrightarrow> \<not> has e s)"
  using make_known make_unknown by (cases "has e s") fastforce+

end

definition reliable :: "('o, 'c) fsm_env \<Rightarrow> bool" where
  "reliable env \<longleftrightarrow> factory_ok (env_factory env) \<and> (\<forall>cn arg. new_object (env_api env) cn arg \<noteq> None) \<and>
     (\<forall>cfg x. \<exists>x'. configure (env_api env) cfg x = Inr x')"

lemma configure_all_returns:
  assumes "\<forall>cfg x. \<exists>x'. configure api cfg x = Inr x'"
  shows "\<exists>x'. configure_all api cfgs (Inr (Some x)) = Inr (Some x')"
proof (induction cfgs arbitrary: x)
  case (Cons c cfgs)
  obtain x' where "configure api (snd c) x = Inr x'" using assms by blast
  with Cons show ?case
    by (simp add: configure_all_def configure_ptr_def case_prod_beta)
qed (simp add: configure_all_def)

lemma create_reliable:
  assumes "reliable env" "hasState (env_factory env) s"
  shows "\<exists>x ctl'. create_started (env_api env) (env_factory env) s cfg ctl = Some (Inr (Some x, ctl'))"
proof -
  obtain root arg cfgs where b: "buildable (env_factory env) s (root, arg, cfgs)"
    using assms by (metis factory_ok_def prod.exhaust reliable_def)
  obtain x where x: "new_object (env_api env) root arg = Some x"
    using assms(1) unfolding reliable_def by blast
  obtain x1 where x1: "create_named (env_api env) (env_factory env) s s = Some (Inr (Some x1))"
    using configure_all_returns [of "env_api env" cfgs] create_buildable [OF b refl, of "env_api env"] assms(1) x
    by (metis create_object_def option.simps(5) reliable_def)
  obtain x2 where x2: "(case cfg of None \<Rightarrow> Inr x1 | Some cfg \<Rightarrow> configure (env_api env) cfg x1) = Inr x2"
    using assms(1) unfolding reliable_def by (cases cfg) (simp, fastforce)
  obtain x3 ctl' where "start (env_api env) x2 ctl = (x3, ctl')" by fastforce
  with x1 x2 show ?thesis
    by (simp add: create_started_def)
qed

interpretation factory_source: state_source reliable "\<lambda>env. hasState (env_factory env)"
  "\<lambda>env. create_started (env_api env) (env_factory env)"
proof
  fix env :: "('a, 'b) fsm_env" and s cfg and ctl :: 'b
  assume "\<not> hasState (env_factory env) s"
  then show "create_started (env_api env) (env_factory env) s cfg ctl = Some (Inr (None, ctl))"
    by (simp add: create_started_def create_named.simps)
qed (rule create_reliable)

section \<open>Invariant\<close>

definition executor_inv :: "('o, 'c) fsm_env \<Rightarrow> 'o executor \<Rightarrow> bool" where
  "executor_inv env ex \<longleftrightarrow>
     (ex_state ex = None \<longrightarrow> ready ex) \<and>
     (next_state ex = '''' \<or> hasState (env_factory env) (next_state ex)) \<and>
     (\<forall>e\<in>set (transition_entries (ex_map ex)). hasState (env_factory env) (trans_state (snd e)))"

lemma transition_target:
  assumes "transition tm s out = Some t" "\<forall>e\<in>set (transition_entries tm). P (trans_state (snd e))"
  shows "P (trans_state t)"
  using assms by (fastforce simp: transition_def split: option.splits dest: map_of_SomeD)

text \<open>Starting the next state.\<close>

lemma next_returns:
  assumes "reliable env" "executor_inv env ex"
  shows "\<exists>ex' ctl'. executor_next env ex ctl = Some (Inr (ex', ctl')) \<and> executor_inv env ex' \<and>
    ex_map ex' = ex_map ex \<and> managed ex' = managed ex \<and> step_by_step ex' = step_by_step ex \<and>
    interrupt_triggered ex' = interrupt_triggered ex \<and>
    (if ready ex \<and> next_state ex \<noteq> '''' then curr_state ex' = next_state ex \<and> executor_running ex' \<and> \<not> ready ex' \<and>
        next_state ex' = '''' \<and> \<not> transition_triggered ex'
     else ex' = ex)"
proof (cases "ready ex \<and> next_state ex \<noteq> ''''")
  case True
  then have "hasState (env_factory env) (next_state ex)"
    using assms(2) by (auto simp: executor_inv_def)
  then obtain x c' where "create_started (env_api env) (env_factory env) (next_state ex)
      (next_config (ex_config ex) (next_state ex)) c = Some (Inr (Some (x c), c' c))" for c
    using create_reliable [OF assms(1)] by metis
  then show ?thesis
    using True assms(2) by (simp add: executor_next_def Let_def executor_inv_def executor_running_def)
next
  case False
  then show ?thesis
    using assms(2) by (auto simp: executor_next_def)
qed

lemma complete_returns:
  assumes "ex_state ex \<noteq> None"
  shows "\<exists>ctl'. executor_complete env keep_state ex ctl =
    Some (Inr (True, ex\<lparr>ex_state := (if keep_state then ex_state ex else None), ready := True\<rparr>, ctl'))"
  using assms by (auto simp: executor_complete_def)

lemma interrupt_returns:
  assumes "executor_inv env ex"
  shows "\<exists>ex' ctl'. executor_handle_interrupt env ex ctl = Some (Inr (ex', ctl')) \<and> executor_inv env ex' \<and>
    \<not> interrupt_triggered ex' \<and> curr_state ex' = curr_state ex \<and> next_state ex' = next_state ex \<and>
    transition_triggered ex' = transition_triggered ex \<and> ex_map ex' = ex_map ex \<and> managed ex' = managed ex \<and>
    step_by_step ex' = step_by_step ex \<and>
    (interrupt_triggered ex \<longrightarrow> ex_state ex' = None) \<and> (\<not> interrupt_triggered ex \<longrightarrow> ex' = ex)"
  using assms
  by (auto simp: executor_handle_interrupt_def executor_inv_def executor_complete_def Let_def
      split: option.splits prod.splits)

text \<open>Where the executor may be after one iteration, in terms of where it was before.\<close>

definition may_enter :: "'o executor \<Rightarrow> string \<Rightarrow> bool" where
  "may_enter ex s \<longleftrightarrow>
     (transition_triggered ex \<and> s = next_state ex) \<or>
     (\<not> managed ex \<and> (\<exists>out t. transition (ex_map ex) (curr_state ex) out = Some t \<and> s = trans_state t \<and>
        (trans_type t = Auto \<or> (trans_type t = StepByStep \<and> \<not> step_by_step ex) \<or> transition_triggered ex)))"

lemma follow_returns:
  assumes "reliable env" "executor_inv env ex" "ex_state ex \<noteq> None" "ready ex"
  shows "\<exists>r ex' ctl'. executor_follow env keep_state ex ctl = Some (Inr (r, ex', ctl')) \<and> executor_inv env ex' \<and>
    ex_map ex' = ex_map ex \<and> (curr_state ex' = curr_state ex \<or> may_enter ex (curr_state ex'))"
proof (cases "managed ex \<or> transition (ex_map ex) (curr_state ex) (state_output ex) = None")
  case True
  then show ?thesis
    using complete_returns [of "ex\<lparr>complete := True\<rparr>" env keep_state ctl] assms
    by (auto simp: executor_follow_def executor_inv_def)
next
  case False
  then obtain t where t: "\<not> managed ex" "transition (ex_map ex) (curr_state ex) (state_output ex) = Some t"
    by auto
  then have target: "hasState (env_factory env) (trans_state t)"
    using transition_target [OF t(2)] assms(2) by (auto simp: executor_inv_def)
  let ?ex = "ex\<lparr>next_state := trans_state t\<rparr>"
  have inv: "executor_inv env ?ex"
    using assms(2) target by (auto simp: executor_inv_def)
  show ?thesis
  proof (cases "trans_type t = Auto \<or> (trans_type t = StepByStep \<and> \<not> step_by_step ex) \<or> transition_triggered ex")
    case True
    obtain ex' ctl' where nxt: "executor_next env ?ex ctl = Some (Inr (ex', ctl'))" "executor_inv env ex'"
      "ex_map ex' = ex_map ex" "curr_state ex' = trans_state t \<or> curr_state ex' = curr_state ex"
      using next_returns [OF assms(1) inv, of ctl] by (auto split: if_splits)
    then show ?thesis
      using t True by (auto simp: executor_follow_def Let_def may_enter_def)
  next
    case False
    then show ?thesis
      using t complete_returns [of ?ex env keep_state ctl] assms(3) inv
      by (auto simp: executor_follow_def Let_def executor_inv_def)
  qed
qed

lemma step_returns:
  assumes "reliable env" "executor_inv env ex"
  shows "\<exists>r ex' ctl'. executor_step env keep_state ex ctl = Some (Inr (r, ex', ctl')) \<and> executor_inv env ex' \<and>
    ex_map ex' = ex_map ex \<and> (curr_state ex' = curr_state ex \<or> may_enter ex (curr_state ex'))"
proof (cases "ex_state ex")
  case None
  show ?thesis
  proof (cases "transition_triggered ex")
    case True
    then show ?thesis
      using None next_returns [OF assms, of ctl] by (auto simp: executor_step_def may_enter_def split: if_splits)
  next
    case False
    with None show ?thesis
      using assms(2) by (auto simp: executor_step_def)
  qed
next
  case (Some x)
  obtain fin x' ctl1 where r: "run_state (env_api env) x ctl = (fin, x', ctl1)"
    by (metis prod.exhaust)
  let ?ex = "ex\<lparr>ex_state := Some x'\<rparr>"
  let ?ex1 = "if ready ex then ?ex else ?ex\<lparr>ready := True, state_output := output_state (env_api env) x'\<rparr>"
  have inv: "executor_inv env ?ex" "executor_inv env ?ex1" "ex_state ?ex1 \<noteq> None" "ready ?ex1"
    using assms(2) by (auto simp: executor_inv_def)
  have same: "may_enter ?ex1 = may_enter ex" "ex_map ?ex1 = ex_map ex" "curr_state ?ex1 = curr_state ex"
    by (auto simp: may_enter_def fun_eq_iff)
  show ?thesis
    using Some r inv(1) follow_returns [OF assms(1) inv(2-4), of keep_state ctl1] unfolding same
    by (auto simp: executor_step_def Let_def)
qed

lemma run_returns:
  assumes "reliable env" "executor_inv env ex"
  shows "\<exists>r ex' ctl'. executor_run env keep_state ex ctl = Some (Inr (r, ex', ctl')) \<and> executor_inv env ex' \<and>
    ex_map ex' = ex_map ex \<and> (curr_state ex' = curr_state ex \<or> may_enter ex (curr_state ex'))"
proof -
  obtain ex1 ctl1 where i: "executor_handle_interrupt env ex ctl = Some (Inr (ex1, ctl1))" "executor_inv env ex1"
    "curr_state ex1 = curr_state ex" "ex_map ex1 = ex_map ex" "may_enter ex1 = may_enter ex"
    using interrupt_returns [OF assms(2), of ctl] by (auto simp: may_enter_def fun_eq_iff)
  then show ?thesis
    using step_returns [OF assms(1) i(2), of keep_state ctl1] by (auto simp: executor_run_def)
qed

text \<open>Every event returns and keeps the invariant, as long as only known states are resumed.\<close>

definition event_ok :: "('o, 'c) fsm_env \<Rightarrow> executor_event \<Rightarrow> bool" where
  "event_ok env e \<longleftrightarrow> (case e of Resume s \<Rightarrow> hasState (env_factory env) s | _ \<Rightarrow> True)"

lemma event_returns:
  assumes "reliable env" "executor_inv env ex" "event_ok env e"
  shows "\<exists>ex' ctl'. handle_event env e (ex, ctl) = Some (Inr (ex', ctl')) \<and> executor_inv env ex'"
proof (cases e)
  case (Run keep_state)
  then show ?thesis
    using run_returns [OF assms(1,2), of keep_state ctl] by auto
qed (use assms in \<open>auto simp: executor_inv_def executor_interrupt_def executor_next_request_def executor_resume_def
    executor_stop_def event_ok_def split: option.splits prod.splits\<close>)

text \<open>Invariants of a system whose steps may fail: here they show that no step does.\<close>

locale safe_steps =
  fixes ok_event :: "'e \<Rightarrow> 'i \<Rightarrow> bool"
    and step :: "'e \<Rightarrow> 'i \<Rightarrow> 's \<Rightarrow> ('err + 's) option"
    and inv :: "'e \<Rightarrow> 's \<Rightarrow> bool"
    and good_env :: "'e \<Rightarrow> bool"
  assumes safe: "good_env e \<Longrightarrow> inv e s \<Longrightarrow> ok_event e i \<Longrightarrow> \<exists>s'. step e i s = Some (Inr s') \<and> inv e s'"
begin

inductive reaches :: "'e \<Rightarrow> 's \<Rightarrow> 's \<Rightarrow> bool" for e where
  here: "reaches e s s"
| later: "reaches e s t \<Longrightarrow> ok_event e i \<Longrightarrow> step e i t = Some (Inr u) \<Longrightarrow> reaches e s u"

lemma reaches_inv: "reaches e s t \<Longrightarrow> good_env e \<Longrightarrow> inv e s \<Longrightarrow> inv e t"
  by (induction rule: reaches.induct) (use safe in fastforce)+

lemma reaches_safe: "reaches e s t \<Longrightarrow> good_env e \<Longrightarrow> inv e s \<Longrightarrow> ok_event e i \<Longrightarrow> \<exists>u. step e i t = Some (Inr u)"
  using reaches_inv safe by blast

end

interpretation exec: safe_steps event_ok handle_event "\<lambda>env st. executor_inv env (fst st)" reliable
proof
  fix env :: "('a, 'b) fsm_env" and s :: "'a executor \<times> 'b" and i
  assume "reliable env" "executor_inv env (fst s)" "event_ok env i"
  then show "\<exists>s'. handle_event env i s = Some (Inr s') \<and> executor_inv env (fst s')"
    using event_returns [of env "fst s" i "snd s"] by auto
qed

lemma events_return:
  assumes "reliable env" "executor_inv env (fst st)" "\<forall>e\<in>set es. event_ok env e"
  shows "\<exists>st'. handle_events env es st = Some (Inr st') \<and> executor_inv env (fst st')"
  using assms(2,3)
proof (induction es arbitrary: st)
  case (Cons e es)
  obtain st' where "handle_event env e st = Some (Inr st')" "executor_inv env (fst st')"
    using exec.safe [OF assms(1) Cons.prems(1), of e] Cons.prems(2) by auto
  with Cons show ?case by simp
qed simp

lemma init_inv:
  assumes "executor_init (env_factory env) config new_executor = Inr ex"
  shows "executor_inv env ex"
proof (cases "managed ex")
  case True
  then show ?thesis
    using assms by (auto simp: executor_init_def new_executor_def Let_def executor_inv_def empty_transition_map_def
        split: if_splits sum.splits)
next
  case False
  then obtain tm where tm: "transition_map_init (env_factory env) config empty_transition_map = Inr tm"
    "ex_map ex = tm" "next_state ex = init_state tm" "ready ex"
    using assms by (auto simp: executor_init_def new_executor_def Let_def split: if_splits sum.splits)
  then show ?thesis
    using transition_map_states [OF tm(1)] by (auto simp: executor_inv_def)
qed

section \<open>Progress\<close>

text \<open>A resumed state starts in the next iteration.\<close>

lemma resume_run:
  assumes "reliable env" "executor_inv env ex" "hasState (env_factory env) s" "s \<noteq> ''''"
  shows "\<exists>r ex' ctl'. executor_run env keep_state (executor_resume s ex) ctl = Some (Inr (r, ex', ctl')) \<and>
    curr_state ex' = s \<and> executor_running ex' \<and> \<not> ready ex' \<and> \<not> transition_triggered ex' \<and> \<not> interrupt_triggered ex'"
proof -
  let ?ex = "executor_resume s ex"
  have inv: "executor_inv env ?ex" and trig: "interrupt_triggered ?ex" "transition_triggered ?ex" "next_state ?ex = s"
    using assms by (auto simp: executor_inv_def executor_resume_def)
  obtain ex1 ctl1 where i: "executor_handle_interrupt env ?ex ctl = Some (Inr (ex1, ctl1))" "executor_inv env ex1"
    "ex_state ex1 = None" "transition_triggered ex1" "next_state ex1 = s" "\<not> interrupt_triggered ex1"
    using interrupt_returns [OF inv, of ctl] trig by auto
  then have "ready ex1" by (simp add: executor_inv_def)
  then show ?thesis
    using i next_returns [OF assms(1) i(2), of ctl1] assms(4)
    by (auto simp: executor_run_def executor_step_def)
qed

text \<open>Running a state object alone, iteration after iteration.\<close>

fun completes_at :: "('o, 'c) state_api \<Rightarrow> nat \<Rightarrow> 'o \<Rightarrow> 'c \<Rightarrow> 'o \<times> 'c \<Rightarrow> bool" where
  "completes_at api 0 x ctl st \<longleftrightarrow> run_state api x ctl = (True, st)"
| "completes_at api (Suc n) x ctl st \<longleftrightarrow>
     (case run_state api x ctl of (fin, x', ctl') \<Rightarrow> \<not> fin \<and> completes_at api n x' ctl' st)"

lemma run_unfinished:
  assumes "ex_state ex = Some x" "\<not> interrupt_triggered ex" "\<not> ready ex" "run_state (env_api env) x ctl = (False, x', ctl')"
  shows "executor_run env keep_state ex ctl = Some (Inr (False, ex\<lparr>ex_state := Some x'\<rparr>, ctl'))"
  using assms by (simp add: executor_run_def executor_handle_interrupt_def executor_step_def Let_def)

lemma auto_transition:
  assumes "reliable env" "executor_inv env ex" "ex_state ex = Some x" "\<not> interrupt_triggered ex" "\<not> ready ex"
    "\<not> managed ex" "completes_at (env_api env) n x ctl (x', ctl')"
    "transition (ex_map ex) (curr_state ex) (output_state (env_api env) x') = Some t" "trans_state t \<noteq> ''''"
    "trans_type t = Auto \<or> (trans_type t = StepByStep \<and> \<not> step_by_step ex) \<or> transition_triggered ex"
  shows "\<exists>ex' ctl2. handle_events env (replicate (Suc n) (Run keep_state)) (ex, ctl) = Some (Inr (ex', ctl2)) \<and>
    curr_state ex' = trans_state t \<and> executor_running ex' \<and> \<not> ready ex'"
  using assms(2-)
proof (induction n arbitrary: ex x ctl)
  case 0
  let ?ex1 = "ex\<lparr>ex_state := Some x', ready := True, state_output := output_state (env_api env) x', next_state := trans_state t\<rparr>"
  have "hasState (env_factory env) (trans_state t)"
    using transition_target [OF 0(7)] 0(1) by (auto simp: executor_inv_def)
  then have inv: "executor_inv env ?ex1"
    using 0(1) by (simp add: executor_inv_def)
  then obtain ex' ctl2 where nxt: "executor_next env ?ex1 ctl' = Some (Inr (ex', ctl2))"
    "curr_state ex' = trans_state t" "executor_running ex'" "\<not> ready ex'"
    using next_returns [OF assms(1) inv, of ctl'] 0(8) by auto
  have "executor_run env keep_state ex ctl = Some (Inr (True, ex', ctl2))"
    using 0 nxt(1) by (simp add: executor_run_def executor_handle_interrupt_def executor_step_def executor_follow_def Let_def)
  with nxt show ?case by simp
next
  case (Suc n)
  obtain x1 ctl1 where r: "run_state (env_api env) x ctl = (False, x1, ctl1)" "completes_at (env_api env) n x1 ctl1 (x', ctl')"
    using Suc.prems(6) by (auto split: prod.splits)
  let ?ex = "ex\<lparr>ex_state := Some x1\<rparr>"
  have "\<exists>ex' ctl2. handle_events env (replicate (Suc n) (Run keep_state)) (?ex, ctl1) = Some (Inr (ex', ctl2)) \<and>
    curr_state ex' = trans_state t \<and> executor_running ex' \<and> \<not> ready ex'"
    by (rule Suc.IH [of ?ex x1]) (use Suc.prems r(2) in \<open>auto simp: executor_inv_def\<close>)
  then show ?case
    using run_unfinished [OF Suc.prems(2-4) r(1), of keep_state] by (simp del: replicate.simps add: replicate_Suc)
qed

section \<open>Resuming in an unknown state\<close>

text \<open>The executor has no state, is not ready and will never be: no event changes this.\<close>

definition wedged :: "'o executor \<Rightarrow> bool" where
  "wedged ex \<longleftrightarrow> ex_state ex = None \<and> \<not> ready ex"

lemma wedged_next: "wedged ex \<Longrightarrow> executor_next env ex ctl = Some (Inr (ex, ctl))"
  by (simp add: wedged_def executor_next_def)

lemma wedged_event:
  assumes "wedged ex"
  shows "\<exists>ex' ctl'. handle_event env e (ex, ctl) = Some (Inr (ex', ctl')) \<and> wedged ex'"
proof (cases e)
  case (Run keep_state)
  have "executor_handle_interrupt env ex ctl = Some (Inr (ex\<lparr>interrupt_triggered := False\<rparr>, ctl))"
    using assms by (auto simp: executor_handle_interrupt_def wedged_def Let_def)
  moreover have "wedged (ex\<lparr>interrupt_triggered := False\<rparr>)"
    using assms by (simp add: wedged_def)
  ultimately show ?thesis
    using Run wedged_next [of "ex\<lparr>interrupt_triggered := False\<rparr>" env ctl]
    by (auto simp: executor_run_def executor_step_def wedged_def)
qed (use assms in \<open>auto simp: wedged_def executor_interrupt_def executor_next_request_def executor_resume_def executor_stop_def\<close>)

lemma wedged_events:
  assumes "wedged ex"
  shows "\<exists>ex' ctl'. handle_events env es (ex, ctl) = Some (Inr (ex', ctl')) \<and> wedged ex'"
  using assms
proof (induction es arbitrary: ex ctl)
  case (Cons e es)
  then show ?case
    using wedged_event [OF Cons.prems, of env e ctl] by fastforce
qed simp

lemma resume_unknown_wedges:
  assumes "executor_inv env ex" "\<not> hasState (env_factory env) s" "s \<noteq> ''''"
  shows "\<exists>ex' ctl'. handle_events env [Resume s, Run keep_state] (ex, ctl) = Some (Inr (ex', ctl')) \<and> wedged ex'"
proof -
  let ?ex = "executor_resume s ex"
  have "\<exists>ex1 ctl1. executor_handle_interrupt env ?ex ctl = Some (Inr (ex1, ctl1)) \<and>
      ex_state ex1 = None \<and> ready ex1 \<and> transition_triggered ex1 \<and> next_state ex1 = s"
    using assms(1) by (auto simp: executor_handle_interrupt_def executor_resume_def executor_inv_def executor_complete_def
        Let_def split: option.splits prod.splits)
  then show ?thesis
    using assms(2,3) factory_source.make_unknown [OF assms(2)]
    by (auto simp: executor_run_def executor_step_def executor_next_def Let_def wedged_def)
qed

end
