(* ===== verification/Mc_Contacts.thy ===== *)
theory Mc_Contacts
  imports Configuration
begin

text \<open>
  Contacts and collision pairs of a controller: the contact set of \<open>MCController\<close> (\<open>mc_control/Contact.h\<close>,
  \<open>MCController.cpp\<close>), the collision managers per pair of robots and the bookkeeping of
  \<open>CollisionsConstraint\<close> (\<open>mc_solver/CollisionsConstraint.cpp\<close>). The numeric constraints handed to the
  solver backends, the GUI and the logs are left out.
\<close>

section \<open>Contacts\<close>

text \<open>Comparison of doubles with \<open>==\<close>: equal patterns or two zeros, and never a NaN.\<close>

definition double_nan :: "u64 \<Rightarrow> bool" where
  "double_nan d \<longleftrightarrow> fp_special 52 11 (unat d) \<and> unat d mod 2 ^ 52 \<noteq> 0"

definition double_eq :: "u64 \<Rightarrow> u64 \<Rightarrow> bool" where
  "double_eq a b \<longleftrightarrow> \<not> double_nan a \<and> \<not> double_nan b \<and> (a = b \<or> (push_bit 1 a = 0 \<and> push_bit 1 b = 0))"

record contact =
  c_r1 :: "string option"
  c_r2 :: "string option"
  c_r1Surface :: string
  c_r2Surface :: string
  c_friction :: u64
  c_dof :: "u64 list"

definition contact_eq :: "contact \<Rightarrow> contact \<Rightarrow> bool" where
  "contact_eq a b \<longleftrightarrow>
     (c_r1 a = c_r1 b \<and> c_r2 a = c_r2 b \<and> c_r1Surface a = c_r1Surface b \<and> c_r2Surface a = c_r2Surface b) \<or>
     (c_r1 a = c_r2 b \<and> c_r2 a = c_r1 b \<and> c_r1Surface a = c_r2Surface b \<and> c_r2Surface a = c_r1Surface b)"

text \<open>\<open>std::hash<Contact>\<close> over a hash of strings, in 64 bits.\<close>

definition hash_combine :: "(string \<Rightarrow> u64) \<Rightarrow> string \<Rightarrow> string \<Rightarrow> u64" where
  "hash_combine h robot surface =
     (let k = h robot in k XOR (h surface + 0x9e3779b9 + push_bit 6 k + drop_bit 2 k))"

definition contact_hash :: "(string \<Rightarrow> u64) \<Rightarrow> contact \<Rightarrow> u64" where
  "contact_hash h c =
     hash_combine h (case c_r1 c of None \<Rightarrow> '''' | Some r \<Rightarrow> r) (c_r1Surface c) XOR
     hash_combine h (case c_r2 c of None \<Rightarrow> '''' | Some r \<Rightarrow> r) (c_r2Surface c)"

definition default_friction :: u64 where
  "default_friction = 0x3FE6666666666666"

definition default_dof :: "u64 list" where
  "default_dof = replicate 6 0x3FF0000000000000"

definition to_optional :: "(json \<Rightarrow> config_error + 'a) \<Rightarrow> json \<Rightarrow> config_error + 'a option" where
  "to_optional convert v = (case convert v of Inl _ \<Rightarrow> Inr None | Inr x \<Rightarrow> Inr (Some x))"

definition load_contact :: "json \<Rightarrow> config_error + contact" where
  "load_contact config =
     (case config_call config ''r1Surface'' of
        Inl err \<Rightarrow> Inl err
      | Inr s1 \<Rightarrow>
          (case config_call config ''r2Surface'' of
             Inl err \<Rightarrow> Inl err
           | Inr s2 \<Rightarrow>
               (case (to_string s1, to_string s2) of
                  (Inr s1, Inr s2) \<Rightarrow>
                    Inr \<lparr>c_r1 = config_or config ''r1'' (to_optional to_string) None,
                         c_r2 = config_or config ''r2'' (to_optional to_string) None,
                         c_r1Surface = s1, c_r2Surface = s2,
                         c_friction = config_or config ''friction'' to_double default_friction,
                         c_dof = config_or config ''dof'' (to_vector 6) default_dof\<rparr>
                | (Inl err, _) \<Rightarrow> Inl err
                | (_, Inl err) \<Rightarrow> Inl err)))"

text \<open>A \<open>ContactSet\<close> as the list of its elements; inserting into it and reading it from a configuration.\<close>

fun contact_in :: "contact \<Rightarrow> contact list \<Rightarrow> bool" where
  "contact_in c [] = False"
| "contact_in c (d # ds) = (contact_eq d c \<or> contact_in c ds)"

fun to_contact_set :: "contact list \<Rightarrow> json list \<Rightarrow> config_error + contact list" where
  "to_contact_set acc [] = Inr acc"
| "to_contact_set acc (v # vs) =
     (case load_contact v of
        Inl err \<Rightarrow> Inl err
      | Inr c \<Rightarrow> if contact_in c acc then Inl Not_unique else to_contact_set (acc @ [c]) vs)"

section \<open>The contact set of a controller\<close>

record contact_manager =
  main_robot :: string
  contacts :: "contact list"
  contacts_changed :: bool

definition name_robots :: "string \<Rightarrow> contact \<Rightarrow> contact" where
  "name_robots main c =
     c\<lparr>c_r1 := Some (case c_r1 c of Some r \<Rightarrow> r | None \<Rightarrow> main), c_r2 := Some (case c_r2 c of Some r \<Rightarrow> r | None \<Rightarrow> main)\<rparr>"

text \<open>Updating friction and degrees of freedom of the element equal to \<open>c\<close>, as \<open>addContact\<close> does.\<close>

fun refresh_contact :: "contact \<Rightarrow> contact list \<Rightarrow> contact list \<times> bool" where
  "refresh_contact c [] = ([], False)"
| "refresh_contact c (d # ds) =
     (if contact_eq d c then
        (let dof_changed = \<not> list_all2 double_eq (c_dof d) (c_dof c);
             d = (if dof_changed then d\<lparr>c_dof := c_dof c\<rparr> else d);
             friction_changed = \<not> double_eq (c_friction d) (c_friction c);
             d = (if friction_changed then d\<lparr>c_friction := c_friction c\<rparr> else d) in
         (d # ds, dof_changed \<or> friction_changed))
      else let (ds, changed) = refresh_contact c ds in (d # ds, changed))"

definition addContact :: "contact \<Rightarrow> contact_manager \<Rightarrow> contact_manager" where
  "addContact c m =
     (let c = name_robots (main_robot m) c in
      if contact_in c (contacts m) then
        (let (cs, changed) = refresh_contact c (contacts m) in
         m\<lparr>contacts := cs, contacts_changed := contacts_changed m \<or> changed\<rparr>)
      else m\<lparr>contacts := contacts m @ [c], contacts_changed := True\<rparr>)"

definition removeContact :: "contact \<Rightarrow> contact_manager \<Rightarrow> contact_manager" where
  "removeContact c m =
     (let c = name_robots (main_robot m) c in
      m\<lparr>contacts := filter (\<lambda>d. \<not> contact_eq d c) (contacts m),
        contacts_changed := contacts_changed m \<or> contact_in c (contacts m)\<rparr>)"

definition clearContacts :: "contact_manager \<Rightarrow> contact_manager" where
  "clearContacts m = m\<lparr>contacts_changed := (contacts m \<noteq> []), contacts := []\<rparr>"

definition hasContact :: "contact \<Rightarrow> contact_manager \<Rightarrow> bool" where
  "hasContact c m \<longleftrightarrow> contact_in c (contacts m)"

text \<open>
  \<open>updateContacts\<close>: the contacts given to the solver, when the set changed and there is a contact
  constraint. \<open>valid\<close> says whether a robot has a surface; an unknown robot or surface is an exception.
\<close>

definition updateContacts ::
  "bool \<Rightarrow> (string \<Rightarrow> string \<Rightarrow> bool) \<Rightarrow> contact_manager \<Rightarrow> contact list \<Rightarrow> (string + contact_manager \<times> contact list)" where
  "updateContacts has_constraint valid m solver_contacts =
     (if contacts_changed m \<and> has_constraint then
        if list_all (\<lambda>c. valid (case c_r1 c of Some r \<Rightarrow> r | None \<Rightarrow> main_robot m) (c_r1Surface c) \<and>
             valid (case c_r2 c of Some r \<Rightarrow> r | None \<Rightarrow> main_robot m) (c_r2Surface c)) (contacts m)
        then Inr (m\<lparr>contacts_changed := False\<rparr>, contacts m)
        else Inl ''Failed to add contact''
      else Inr (m\<lparr>contacts_changed := False\<rparr>, solver_contacts))"

section \<open>Collision pairs\<close>

record collision =
  body1 :: string
  body2 :: string
  iDist :: u64
  sDist :: u64
  damping :: u64
  r1Joints :: "string list option"
  r2Joints :: "string list option"
  r1JointsInactive :: bool
  r2JointsInactive :: bool
  overDamping :: u64
  lambda_cbf :: u64

definition collision_eq :: "collision \<Rightarrow> collision \<Rightarrow> bool" where
  "collision_eq a b \<longleftrightarrow> body1 a = body1 b \<and> body2 a = body2 b"

text \<open>An object that a solver refers to by its address, with the backend it was created for.\<close>

datatype backend = Backend_Unset | Backend_Tasks | Backend_TVM

record solver_object =
  address :: nat
  object_backend :: backend

text \<open>
  The bookkeeping of a \<open>CollisionsConstraint\<close>, the object \<open>cc_object\<close>, between robots \<open>cc_r1\<close> and \<open>cc_r2\<close>; \<open>collIdDict\<close> maps the
  concatenated body names to the identifier and the collision.
\<close>

record collisions_constraint =
  cc_object :: solver_object
  cc_r1 :: string
  cc_r2 :: string
  cols :: "collision list"
  collId :: int
  collIdDict :: "(string \<times> int \<times> collision) list"

definition new_collisions_constraint :: "solver_object \<Rightarrow> string \<Rightarrow> string \<Rightarrow> collisions_constraint" where
  "new_collisions_constraint x r1 r2 = \<lparr>cc_object = x, cc_r1 = r1, cc_r2 = r2, cols = [], collId = 0, collIdDict = []\<rparr>"

definition keyByNames :: "string \<Rightarrow> string \<Rightarrow> string" where
  "keyByNames name1 name2 = name1 @ name2"

definition createCollId :: "collision \<Rightarrow> collisions_constraint \<Rightarrow> bool \<times> collisions_constraint" where
  "createCollId col cc =
     (let key = keyByNames (body1 col) (body2 col) in
      if map_of (collIdDict cc) key \<noteq> None then (False, cc)
      else (True, cc\<lparr>collIdDict := (key, collId cc, col) # collIdDict cc, collId := collId cc + 1\<rparr>))"

definition popCollId :: "string \<Rightarrow> string \<Rightarrow> collisions_constraint \<Rightarrow> collision option \<times> collisions_constraint" where
  "popCollId name1 name2 cc =
     (let key = keyByNames name1 name2 in
      case map_of (collIdDict cc) key of
        Some (_, col) \<Rightarrow> (Some col, cc\<lparr>collIdDict := filter (\<lambda>e. fst e \<noteq> key) (collIdDict cc)\<rparr>)
      | None \<Rightarrow> (None, cc))"

datatype collision_error = No_wildcard_match string | No_joint | No_convex | Empty_body

text \<open>
  The robots: the names of the convexes of a robot in the order of its map, and whether it has all
  of a list of joints.
\<close>

record robot_geometry =
  convexes :: "string \<Rightarrow> string list"
  has_joints :: "string \<Rightarrow> string list \<Rightarrow> bool"

definition wildcard_matches :: "robot_geometry \<Rightarrow> string \<Rightarrow> string \<Rightarrow> string list" where
  "wildcard_matches g robot body =
     filter (\<lambda>c. length (butlast body) \<le> length c \<and> take (length (butlast body)) c = butlast body) (convexes g robot)"

text \<open>Joint selectors are checked for the first robot, and for the second one unless it is the same.\<close>

definition joints_exist :: "robot_geometry \<Rightarrow> collision \<Rightarrow> collisions_constraint \<Rightarrow> bool" where
  "joints_exist g col cc \<longleftrightarrow>
     (case r1Joints col of None \<Rightarrow> True | Some js \<Rightarrow> has_joints g (cc_r1 cc) js) \<and>
     (cc_r1 cc = cc_r2 cc \<or> (case r2Joints col of None \<Rightarrow> True | Some js \<Rightarrow> has_joints g (cc_r2 cc) js))"

text \<open>\<open>Robot::convex\<close>, which both backends call for the two bodies, raises for an unknown name.\<close>

definition convexes_exist :: "robot_geometry \<Rightarrow> collision \<Rightarrow> collisions_constraint \<Rightarrow> bool" where
  "convexes_exist g col cc \<longleftrightarrow> body1 col \<in> set (convexes g (cc_r1 cc)) \<and> body2 col \<in> set (convexes g (cc_r2 cc))"

text \<open>
  Adding and removing one pair. A body name that ends in \<open>*\<close> stands for every convex with that prefix;
  \<open>fuel\<close> bounds the nesting of such names, which two levels exhaust unless a convex is itself named
  with a final \<open>*\<close>.
\<close>

fun addCollision :: "nat \<Rightarrow> robot_geometry \<Rightarrow> collision \<Rightarrow> collisions_constraint \<Rightarrow> (collision_error + collisions_constraint) option"
  and addCollision_all :: "nat \<Rightarrow> robot_geometry \<Rightarrow> collision list \<Rightarrow> collisions_constraint
    \<Rightarrow> (collision_error + collisions_constraint) option" where
  "addCollision 0 g col cc = None"
| "addCollision (Suc fuel) g col cc =
     (if body1 col = '''' \<or> body2 col = '''' then Some (Inr cc)
      else if last (body1 col) = CHR ''*'' then
        (let ns = wildcard_matches g (cc_r1 cc) (body1 col) in
         if ns = [] then Some (Inl (No_wildcard_match (body1 col)))
         else addCollision_all fuel g (map (\<lambda>n. col\<lparr>body1 := n\<rparr>) ns) cc)
      else if last (body2 col) = CHR ''*'' then
        (let ns = wildcard_matches g (cc_r2 cc) (body2 col) in
         if ns = [] then Some (Inl (No_wildcard_match (body2 col)))
         else addCollision_all fuel g (map (\<lambda>n. col\<lparr>body2 := n\<rparr>) ns) cc)
      else
        (let (fresh, cc) = createCollId col cc in
         if \<not> fresh then Some (Inr cc)
         else
           let cc = cc\<lparr>cols := cols cc @ [col]\<rparr> in
           if \<not> joints_exist g col cc then Some (Inl No_joint)
           else if \<not> convexes_exist g col cc then Some (Inl No_convex)
           else Some (Inr cc)))"
| "addCollision_all fuel g [] cc = Some (Inr cc)"
| "addCollision_all fuel g (col # rest) cc =
     (case addCollision fuel g col cc of
        None \<Rightarrow> None
      | Some (Inl err) \<Rightarrow> Some (Inl err)
      | Some (Inr cc) \<Rightarrow> addCollision_all fuel g rest cc)"

definition eraseCollision :: "string \<Rightarrow> string \<Rightarrow> collisions_constraint \<Rightarrow> collisions_constraint" where
  "eraseCollision b1 b2 cc =
     (case popCollId b1 b2 cc of
        (None, cc) \<Rightarrow> cc
      | (Some p, cc) \<Rightarrow>
          if body1 p = ''NONE'' \<and> body2 p = ''NONE'' then cc
          else
            cc\<lparr>cols := (case List.extract (collision_eq p) (cols cc) of None \<Rightarrow> cols cc | Some (xs, _, ys) \<Rightarrow> xs @ ys)\<rparr>)"

fun removeCollision :: "nat \<Rightarrow> robot_geometry \<Rightarrow> string \<times> string \<Rightarrow> collisions_constraint \<Rightarrow> (collision_error + collisions_constraint) option"
  and removeCollision_all :: "nat \<Rightarrow> robot_geometry \<Rightarrow> (string \<times> string) list \<Rightarrow> collisions_constraint
    \<Rightarrow> (collision_error + collisions_constraint) option" where
  "removeCollision 0 g bs cc = None"
| "removeCollision (Suc fuel) g bs cc =
     (let b1 = fst bs; b2 = snd bs in
      if b1 = '''' then Some (Inl Empty_body)
      else if last b1 = CHR ''*'' then
        (let ns = wildcard_matches g (cc_r1 cc) b1 in
         if ns = [] then Some (Inl (No_wildcard_match b1))
         else removeCollision_all fuel g (map (\<lambda>n. (n, b2)) ns) cc)
      else if b2 = '''' then Some (Inl Empty_body)
      else if last b2 = CHR ''*'' then
        (let ns = wildcard_matches g (cc_r2 cc) b2 in
         if ns = [] then Some (Inl (No_wildcard_match b2))
         else removeCollision_all fuel g (map (\<lambda>n. (b1, n)) ns) cc)
      else Some (Inr (eraseCollision b1 b2 cc)))"
| "removeCollision_all fuel g [] cc = Some (Inr cc)"
| "removeCollision_all fuel g (bs # rest) cc =
     (case removeCollision fuel g bs cc of
        None \<Rightarrow> None
      | Some (Inl err) \<Rightarrow> Some (Inl err)
      | Some (Inr cc) \<Rightarrow> removeCollision_all fuel g rest cc)"

definition reset_collisions :: "collisions_constraint \<Rightarrow> collisions_constraint" where
  "reset_collisions cc = cc\<lparr>cols := [], collIdDict := []\<rparr>"

definition constraint_hasCollision :: "string \<Rightarrow> string \<Rightarrow> collisions_constraint \<Rightarrow> bool" where
  "constraint_hasCollision c1 c2 cc \<longleftrightarrow> list_ex (\<lambda>c. body1 c = c1 \<and> body2 c = c2) (cols cc)"

section \<open>The collision managers of a controller\<close>

record collision_manager =
  robot_names :: "string list"
  collision_constraints :: "((string \<times> string) \<times> collisions_constraint) list"

definition swap_collision :: "collision \<Rightarrow> collision" where
  "swap_collision c =
     \<lparr>body1 = body2 c, body2 = body1 c, iDist = iDist c, sDist = sDist c, damping = damping c,
      r1Joints = None, r2Joints = None, r1JointsInactive = False, r2JointsInactive = False,
      overDamping = 0, lambda_cbf = 0\<rparr>"

definition hasCollision :: "string \<Rightarrow> string \<Rightarrow> string \<Rightarrow> string \<Rightarrow> collision_manager \<Rightarrow> bool" where
  "hasCollision r1 r2 c1 c2 m =
     (case map_of (collision_constraints m) (r1, r2) of
        Some cc \<Rightarrow> constraint_hasCollision c1 c2 cc
      | None \<Rightarrow>
          r1 \<noteq> r2 \<and>
          (case map_of (collision_constraints m) (r2, r1) of
             Some cc \<Rightarrow> constraint_hasCollision c2 c1 cc
           | None \<Rightarrow> False))"

definition removeCollisions :: "nat \<Rightarrow> robot_geometry \<Rightarrow> string \<Rightarrow> string \<Rightarrow> collision list \<Rightarrow> collision_manager
    \<Rightarrow> (collision_error + collision_manager) option" where
  "removeCollisions fuel g r1 r2 collisions m =
     (case map_of (collision_constraints m) (r1, r2) of
        None \<Rightarrow> Some (Inr m)
      | Some cc \<Rightarrow>
          (case removeCollision_all fuel g (map (\<lambda>c. (body1 c, body2 c)) collisions) cc of
             None \<Rightarrow> None
           | Some (Inl err) \<Rightarrow> Some (Inl err)
           | Some (Inr cc) \<Rightarrow> Some (Inr (m\<lparr>collision_constraints := alist_put (r1, r2) cc (collision_constraints m)\<rparr>))))"

definition removeAllCollisions :: "string \<Rightarrow> string \<Rightarrow> collision_manager \<Rightarrow> collision_manager" where
  "removeAllCollisions r1 r2 m =
     (case map_of (collision_constraints m) (r1, r2) of
        None \<Rightarrow> m
      | Some cc \<Rightarrow> m\<lparr>collision_constraints := alist_put (r1, r2) (reset_collisions cc) (collision_constraints m)\<rparr>)"

end
