(* ===== verification/Mc_Controller.thy ===== *)
theory Mc_Controller
  imports Mc_Contacts
begin

text \<open>
  What of a controller the FSM states act on: its contacts, its collision managers, its posture tasks,
  and the lists of tasks and constraint sets of its solver (\<open>mc_solver/QPSolver.cpp\<close>). Objects of the solver
  are known by their address, and \<open>next_address\<close> is that of the next object created. The backend of an
  object is the one of the thread when it is created (\<open>context_backend\<close>).
\<close>

section \<open>Results\<close>

datatype state_error =
    State_config config_error
  | State_collision collision_error
  | Wrong_backend
  | Unsupported_backend
  | Load_failed json

text \<open>\<open>None\<close> is a call that does not return, \<open>Inl\<close> an exception.\<close>

type_synonym 'a outcome = "(state_error + 'a) option"

definition outcome_bind :: "'a outcome \<Rightarrow> ('a \<Rightarrow> 'b outcome) \<Rightarrow> 'b outcome" where
  "outcome_bind r f = (case r of None \<Rightarrow> None | Some (Inl err) \<Rightarrow> Some (Inl err) | Some (Inr x) \<Rightarrow> f x)"

definition from_config :: "config_error + 'a \<Rightarrow> 'a outcome" where
  "from_config r = Some (case r of Inl err \<Rightarrow> Inl (State_config err) | Inr x \<Rightarrow> Inr x)"

definition from_collision :: "(collision_error + 'a) option \<Rightarrow> 'a outcome" where
  "from_collision r =
     (case r of None \<Rightarrow> None | Some (Inl err) \<Rightarrow> Some (Inl (State_collision err)) | Some (Inr x) \<Rightarrow> Some (Inr x))"

fun outcome_fold :: "('x \<Rightarrow> 'a \<Rightarrow> 'a outcome) \<Rightarrow> 'x list \<Rightarrow> 'a \<Rightarrow> 'a outcome" where
  "outcome_fold f [] a = Some (Inr a)"
| "outcome_fold f (x # xs) a = outcome_bind (f x a) (outcome_fold f xs)"

section \<open>The solver and the controller\<close>

record fsm_controller =
  ctl_contacts :: contact_manager
  ctl_collisions :: collision_manager
  solver_backend :: backend
  context_backend :: backend
  metaTasks :: "solver_object list"
  constraint_sets :: "solver_object list"
  posture_tasks :: "(string \<times> solver_object) list"
  next_address :: nat

definition known :: "solver_object \<Rightarrow> solver_object list \<Rightarrow> bool" where
  "known x xs \<longleftrightarrow> address x \<in> address ` set xs"

definition addTask :: "solver_object \<Rightarrow> 'u fsm_controller_scheme \<Rightarrow> 'u fsm_controller_scheme outcome" where
  "addTask t ctl =
     (if known t (metaTasks ctl) then Some (Inr ctl)
      else if object_backend t \<noteq> solver_backend ctl then Some (Inl Wrong_backend)
      else Some (Inr (ctl\<lparr>metaTasks := metaTasks ctl @ [t]\<rparr>)))"

definition removeTask :: "solver_object \<Rightarrow> 'u fsm_controller_scheme \<Rightarrow> 'u fsm_controller_scheme outcome" where
  "removeTask t ctl =
     (if \<not> known t (metaTasks ctl) then Some (Inr ctl)
      else if object_backend t \<noteq> solver_backend ctl then Some (Inl Wrong_backend)
      else
        Some (Inr (ctl\<lparr>metaTasks := (case List.extract (\<lambda>x. address x = address t) (metaTasks ctl) of
          None \<Rightarrow> metaTasks ctl | Some (xs, _, ys) \<Rightarrow> xs @ ys)\<rparr>)))"

definition addConstraintSet :: "solver_object \<Rightarrow> 'u fsm_controller_scheme \<Rightarrow> 'u fsm_controller_scheme outcome" where
  "addConstraintSet cs ctl =
     (if object_backend cs \<noteq> solver_backend ctl then Some (Inl Wrong_backend)
      else if known cs (constraint_sets ctl) then Some (Inr ctl)
      else Some (Inr (ctl\<lparr>constraint_sets := constraint_sets ctl @ [cs]\<rparr>)))"

definition removeConstraintSet :: "solver_object \<Rightarrow> 'u fsm_controller_scheme \<Rightarrow> 'u fsm_controller_scheme outcome" where
  "removeConstraintSet cs ctl =
     (if object_backend cs \<noteq> solver_backend ctl then Some (Inl Wrong_backend)
      else if \<not> known cs (constraint_sets ctl) then Some (Inr ctl)
      else
        Some (Inr (ctl\<lparr>constraint_sets := (case List.extract (\<lambda>x. address x = address cs) (constraint_sets ctl) of
          None \<Rightarrow> constraint_sets ctl | Some (xs, _, ys) \<Rightarrow> xs @ ys)\<rparr>)))"

definition getPostureTask :: "string \<Rightarrow> 'u fsm_controller_scheme \<Rightarrow> solver_object option" where
  "getPostureTask robot ctl = map_of (posture_tasks ctl) robot"

section \<open>Adding collisions\<close>

text \<open>
  The constraint between the robots of \<open>key\<close>. The first time it is asked for, it is created, stored and
  given to the solver; \<open>None\<close> when one of the robots is unknown.
\<close>

definition manager_constraint ::
  "string \<times> string \<Rightarrow> 'u fsm_controller_scheme \<Rightarrow> (collisions_constraint option \<times> 'u fsm_controller_scheme) outcome" where
  "manager_constraint key ctl =
     (let m = ctl_collisions ctl in
      case map_of (collision_constraints m) key of
        Some cc \<Rightarrow> Some (Inr (Some cc, ctl))
      | None \<Rightarrow>
          if fst key \<notin> set (robot_names m) \<or> snd key \<notin> set (robot_names m) then Some (Inr (None, ctl))
          else if context_backend ctl = Backend_Unset then Some (Inl Unsupported_backend)
          else
            (let x = \<lparr>address = next_address ctl, object_backend = context_backend ctl\<rparr>;
                 cc = new_collisions_constraint x (fst key) (snd key);
                 ctl = ctl\<lparr>next_address := Suc (next_address ctl),
                   ctl_collisions := m\<lparr>collision_constraints := alist_put key cc (collision_constraints m)\<rparr>\<rparr> in
             outcome_bind (addConstraintSet x ctl) (\<lambda>ctl. Some (Inr (Some cc, ctl)))))"

definition store_constraint ::
  "string \<times> string \<Rightarrow> collisions_constraint \<Rightarrow> 'u fsm_controller_scheme \<Rightarrow> 'u fsm_controller_scheme" where
  "store_constraint key cc ctl =
     ctl\<lparr>ctl_collisions := ctl_collisions ctl
       \<lparr>collision_constraints := alist_put key cc (collision_constraints (ctl_collisions ctl))\<rparr>\<rparr>"

definition add_to_manager ::
  "nat \<Rightarrow> robot_geometry \<Rightarrow> string \<times> string \<Rightarrow> collision list \<Rightarrow> 'u fsm_controller_scheme \<Rightarrow> 'u fsm_controller_scheme outcome" where
  "add_to_manager fuel g key collisions ctl =
     outcome_bind (manager_constraint key ctl) (\<lambda>(found, ctl).
       case found of
         None \<Rightarrow> Some (Inr ctl)
       | Some cc \<Rightarrow>
           outcome_bind (from_collision (addCollision_all fuel g collisions cc)) (\<lambda>cc.
             Some (Inr (store_constraint key cc ctl))))"

text \<open>
  \<open>addCollisions\<close>: a pair registered in the other order is used instead, with the bodies swapped; the
  code calls itself for it. \<open>None\<close> when the recursion does not end.
\<close>

partial_function (option) addCollisions ::
  "nat \<Rightarrow> robot_geometry \<Rightarrow> string \<Rightarrow> string \<Rightarrow> collision list \<Rightarrow> 'u fsm_controller_scheme \<Rightarrow> 'u fsm_controller_scheme outcome" where
  "addCollisions fuel g r1 r2 collisions ctl =
     (if r1 \<noteq> r2 \<and> map_of (collision_constraints (ctl_collisions ctl)) (r2, r1) \<noteq> None
      then addCollisions fuel g r2 r1 (map swap_collision collisions) ctl
      else add_to_manager fuel g (r1, r2) collisions ctl)"

end
