(* ===== verification/Fsm_State.thy ===== *)
theory Fsm_State
  imports Mc_Controller
begin

text \<open>
  The part of an FSM state that every state shares (\<open>fsm/State.h\<close>, \<open>fsm/State.cpp\<close>): configuration by
  merging, and the contacts, collisions, posture tasks, constraints and tasks that \<open>start_\<close> installs
  and \<open>teardown_\<close> removes. The loaders that build tasks and constraints from a configuration and the
  overridden members of a state are parameters.
\<close>

section \<open>States\<close>

record fsm_state =
  st_name :: string
  st_output :: string
  add_contacts_config :: json
  remove_contacts_config :: json
  add_contacts_after_config :: json
  remove_contacts_after_config :: json
  add_collisions_config :: json
  remove_collisions_config :: json
  add_collisions_after_config :: json
  remove_collisions_after_config :: json
  constraints_config :: json
  tasks_config :: json
  remove_posture_task :: json
  st_config :: json
  st_constraints :: "solver_object list"
  st_tasks :: "(solver_object \<times> json) list"
  st_postures :: "solver_object list"

text \<open>\<open>State::configure\<close>, which derived classes may override.\<close>

definition State_configure :: "json \<Rightarrow> 'u fsm_state_scheme \<Rightarrow> config_error + 'u fsm_state_scheme" where
  "State_configure config st =
     (case config_load (st_config st) config of Inl err \<Rightarrow> Inl err | Inr c \<Rightarrow> Inr (st\<lparr>st_config := c\<rparr>))"

text \<open>One line of \<open>configure_\<close>: an entry of the configuration is merged into the stored one.\<close>

definition load_entry :: "json \<Rightarrow> string \<Rightarrow> ('s \<Rightarrow> json) \<Rightarrow> (json \<Rightarrow> 's \<Rightarrow> 's) \<Rightarrow> 's \<Rightarrow> config_error + 's" where
  "load_entry config key get put st =
     (if config_has config key then
        (case config_call config key of
           Inl err \<Rightarrow> Inl err
         | Inr c \<Rightarrow> (case config_load (get st) c of Inl err \<Rightarrow> Inl err | Inr v \<Rightarrow> Inr (put v st)))
      else Inr st)"

fun config_fold :: "('s \<Rightarrow> config_error + 's) list \<Rightarrow> 's \<Rightarrow> config_error + 's" where
  "config_fold [] st = Inr st"
| "config_fold (f # fs) st = (case f st of Inl err \<Rightarrow> Inl err | Inr st \<Rightarrow> config_fold fs st)"

definition State_configure_all ::
  "(json \<Rightarrow> 'u fsm_state_scheme \<Rightarrow> config_error + 'u fsm_state_scheme) \<Rightarrow> json \<Rightarrow> 'u fsm_state_scheme
    \<Rightarrow> config_error + 'u fsm_state_scheme" where
  "State_configure_all v_configure config =
     config_fold
       [load_entry config ''RemoveContacts'' remove_contacts_config (\<lambda>v st. st\<lparr>remove_contacts_config := v\<rparr>),
        load_entry config ''AddContacts'' add_contacts_config (\<lambda>v st. st\<lparr>add_contacts_config := v\<rparr>),
        load_entry config ''RemoveContactsAfter'' remove_contacts_after_config (\<lambda>v st. st\<lparr>remove_contacts_after_config := v\<rparr>),
        load_entry config ''AddContactsAfter'' add_contacts_after_config (\<lambda>v st. st\<lparr>add_contacts_after_config := v\<rparr>),
        load_entry config ''RemoveCollisions'' remove_collisions_config (\<lambda>v st. st\<lparr>remove_collisions_config := v\<rparr>),
        load_entry config ''AddCollisions'' add_collisions_config (\<lambda>v st. st\<lparr>add_collisions_config := v\<rparr>),
        load_entry config ''RemoveCollisionsAfter'' remove_collisions_after_config (\<lambda>v st. st\<lparr>remove_collisions_after_config := v\<rparr>),
        load_entry config ''AddCollisionsAfter'' add_collisions_after_config (\<lambda>v st. st\<lparr>add_collisions_after_config := v\<rparr>),
        load_entry config ''constraints'' constraints_config (\<lambda>v st. st\<lparr>constraints_config := v\<rparr>),
        load_entry config ''tasks'' tasks_config (\<lambda>v st. st\<lparr>tasks_config := v\<rparr>),
        load_entry config ''RemovePostureTask'' remove_posture_task (\<lambda>v st. st\<lparr>remove_posture_task := v\<rparr>),
        load_entry config ''DisablePostureTask'' remove_posture_task (\<lambda>v st. st\<lparr>remove_posture_task := v\<rparr>),
        v_configure config]"

section \<open>Contacts and collisions\<close>

definition apply_contacts ::
  "(contact \<Rightarrow> contact_manager \<Rightarrow> contact_manager) \<Rightarrow> json \<Rightarrow> 'u fsm_controller_scheme \<Rightarrow> 'u fsm_controller_scheme outcome" where
  "apply_contacts op config ctl =
     (case config of
        J_array (v # vs) \<Rightarrow>
          outcome_bind (from_config (to_contact_set [] (v # vs)))
            (\<lambda>cs. Some (Inr (ctl\<lparr>ctl_contacts := fold op cs (ctl_contacts ctl)\<rparr>)))
      | _ \<Rightarrow> Some (Inr ctl))"

definition load_joints :: "json \<Rightarrow> string \<Rightarrow> config_error + string list option \<times> bool" where
  "load_joints config prefix =
     (let listed = (\<lambda>v inactive. case to_std_vector to_string v of Inl err \<Rightarrow> Inl err | Inr js \<Rightarrow> Inr (Some js, inactive)) in
      case config_find config (prefix @ ''Joints'') of
        Some v \<Rightarrow> listed v False
      | None \<Rightarrow>
          (case config_find config (prefix @ ''ActiveJoints'') of
             Some v \<Rightarrow> listed v False
           | None \<Rightarrow>
               (case config_find config (prefix @ ''InactiveJoints'') of
                  Some v \<Rightarrow> listed v True
                | None \<Rightarrow> Inr (None, False))))"

text \<open>The defaults of \<open>iDist\<close> and \<open>sDist\<close> are the doubles nearest to 0.05 and 0.01.\<close>

definition load_collision :: "json \<Rightarrow> config_error + collision" where
  "load_collision config =
     (case (config_call config ''body1'', config_call config ''body2'') of
        (Inr b1, Inr b2) \<Rightarrow>
          (case (load_joints config ''r1'', load_joints config ''r2'') of
             (Inr (j1, i1), Inr (j2, i2)) \<Rightarrow>
               (case (to_string b1, to_string b2) of
                  (Inr b1, Inr b2) \<Rightarrow>
                    Inr \<lparr>body1 = b1, body2 = b2,
                         iDist = config_or config ''iDist'' to_double 0x3FA999999999999A,
                         sDist = config_or config ''sDist'' to_double 0x3F847AE147AE147B,
                         damping = config_or config ''damping'' to_double 0,
                         r1Joints = j1, r2Joints = j2, r1JointsInactive = i1, r2JointsInactive = i2,
                         overDamping = 0, lambda_cbf = 0\<rparr>
                | (Inl err, _) \<Rightarrow> Inl err
                | (_, Inl err) \<Rightarrow> Inl err)
           | (Inl err, _) \<Rightarrow> Inl err
           | (_, Inl err) \<Rightarrow> Inl err)
      | (Inl err, _) \<Rightarrow> Inl err
      | (_, Inl err) \<Rightarrow> Inl err)"

text \<open>The robots of an entry: \<open>r2\<close> is \<open>r1\<close> when it is absent.\<close>

definition collision_robots :: "json \<Rightarrow> config_error + string \<times> string" where
  "collision_robots c =
     (case config_call c ''r1'' of
        Inl err \<Rightarrow> Inl err
      | Inr v \<Rightarrow>
          (case to_string v of
             Inl err \<Rightarrow> Inl err
           | Inr r1 \<Rightarrow>
               (case config_find c ''r2'' of
                  None \<Rightarrow> Inr (r1, r1)
                | Some v \<Rightarrow> (case to_string v of Inl err \<Rightarrow> Inl err | Inr r2 \<Rightarrow> Inr (r1, r2)))))"

definition remove_collision_entry ::
  "nat \<Rightarrow> robot_geometry \<Rightarrow> json \<Rightarrow> 'u fsm_controller_scheme \<Rightarrow> 'u fsm_controller_scheme outcome" where
  "remove_collision_entry fuel g c ctl =
     outcome_bind (from_config (collision_robots c)) (\<lambda>(r1, r2).
       case config_find c ''collisions'' of
         Some v \<Rightarrow>
           outcome_bind (from_config (to_std_vector load_collision v)) (\<lambda>cols.
           outcome_bind (from_collision (removeCollisions fuel g r1 r2 cols (ctl_collisions ctl))) (\<lambda>m.
             Some (Inr (ctl\<lparr>ctl_collisions := m\<rparr>))))
       | None \<Rightarrow> Some (Inr (ctl\<lparr>ctl_collisions := removeAllCollisions r1 r2 (ctl_collisions ctl)\<rparr>)))"

definition add_collision_entry ::
  "nat \<Rightarrow> robot_geometry \<Rightarrow> json \<Rightarrow> 'u fsm_controller_scheme \<Rightarrow> 'u fsm_controller_scheme outcome" where
  "add_collision_entry fuel g c ctl =
     outcome_bind (from_config (collision_robots c)) (\<lambda>(r1, r2).
       outcome_bind (from_config (config_call c ''collisions'')) (\<lambda>v.
       outcome_bind (from_config (to_std_vector load_collision v)) (\<lambda>cols.
         addCollisions fuel g r1 r2 cols ctl)))"

definition apply_collisions ::
  "(json \<Rightarrow> 'u fsm_controller_scheme \<Rightarrow> 'u fsm_controller_scheme outcome) \<Rightarrow> json \<Rightarrow> 'u fsm_controller_scheme
    \<Rightarrow> 'u fsm_controller_scheme outcome" where
  "apply_collisions op config ctl =
     (case config of J_array vs \<Rightarrow> outcome_fold op vs ctl | _ \<Rightarrow> Some (Inr ctl))"

section \<open>Starting and tearing down\<close>

text \<open>
  What the framework supplies: the geometry of the robots, the loaders of \<open>ConstraintSetLoader\<close> and
  \<open>MetaTaskLoader\<close> (the backend of the object built, or a failure) and the overridden \<open>start\<close> and \<open>teardown\<close>.
  The loaders set the backend of the thread to that of the solver (\<open>GenericLoader.hpp\<close>).
\<close>

record ('s, 'c) state_env =
  env_fuel :: nat
  env_geometry :: robot_geometry
  load_constraint :: "json \<Rightarrow> backend option"
  load_task :: "json \<Rightarrow> backend option"
  v_start :: "'s \<Rightarrow> 'c \<Rightarrow> 's \<times> 'c"
  v_teardown :: "'s \<Rightarrow> 'c \<Rightarrow> 'c"

definition disable_posture ::
  "string \<Rightarrow> 'v fsm_state_scheme \<times> 'u fsm_controller_scheme \<Rightarrow> ('v fsm_state_scheme \<times> 'u fsm_controller_scheme) outcome" where
  "disable_posture robot sc =
     (case sc of (st, ctl) \<Rightarrow>
        (case getPostureTask robot ctl of
           None \<Rightarrow> Some (Inr (st, ctl))
         | Some pt \<Rightarrow>
             outcome_bind (removeTask pt ctl) (\<lambda>ctl. Some (Inr (st\<lparr>st_postures := st_postures st @ [pt]\<rparr>, ctl)))))"

definition disable_postures ::
  "'v fsm_state_scheme \<times> 'u fsm_controller_scheme \<Rightarrow> ('v fsm_state_scheme \<times> 'u fsm_controller_scheme) outcome" where
  "disable_postures sc =
     (case sc of (st, ctl) \<Rightarrow>
        (let config = remove_posture_task st in
         if config_empty config then Some (Inr (st, ctl))
         else if config_size config = 0 then
           outcome_bind (from_config (to_bool config)) (\<lambda>remove.
             if remove then outcome_fold disable_posture (robot_names (ctl_collisions ctl)) (st, ctl) else Some (Inr (st, ctl)))
         else
           outcome_bind (from_config (to_std_vector to_string config)) (\<lambda>robots.
             outcome_fold disable_posture robots (st, ctl))))"

definition start_constraint ::
  "(json \<Rightarrow> backend option) \<Rightarrow> string \<times> json \<Rightarrow> 'v fsm_state_scheme \<times> 'u fsm_controller_scheme
    \<Rightarrow> ('v fsm_state_scheme \<times> 'u fsm_controller_scheme) outcome" where
  "start_constraint load c sc =
     (case sc of (st, ctl) \<Rightarrow>
        (case load (snd c) of
           None \<Rightarrow> Some (Inl (Load_failed (snd c)))
         | Some b \<Rightarrow>
             (let x = \<lparr>address = next_address ctl, object_backend = b\<rparr>;
                  ctl = ctl\<lparr>next_address := Suc (next_address ctl), context_backend := solver_backend ctl\<rparr> in
              outcome_bind (addConstraintSet x ctl) (\<lambda>ctl.
                Some (Inr (st\<lparr>st_constraints := st_constraints st @ [x]\<rparr>, ctl))))))"

definition start_constraints ::
  "(json \<Rightarrow> backend option) \<Rightarrow> 'v fsm_state_scheme \<times> 'u fsm_controller_scheme
    \<Rightarrow> ('v fsm_state_scheme \<times> 'u fsm_controller_scheme) outcome" where
  "start_constraints load sc =
     (if config_empty (constraints_config (fst sc)) then Some (Inr sc)
      else
        outcome_bind (from_config (to_std_map Inr (constraints_config (fst sc)))) (\<lambda>cs.
          outcome_fold (start_constraint load) cs sc))"

text \<open>The handle on the configuration of a task is shared, so a name that is added shows in the state.\<close>

definition start_task ::
  "(json \<Rightarrow> backend option) \<Rightarrow> string \<times> json \<Rightarrow> 'v fsm_state_scheme \<times> 'u fsm_controller_scheme
    \<Rightarrow> ('v fsm_state_scheme \<times> 'u fsm_controller_scheme) outcome" where
  "start_task load t sc =
     (case sc of (st, ctl) \<Rightarrow>
        outcome_bind
          (if config_has (snd t) ''name'' then Some (Inr (snd t)) else from_config (config_add ''name'' (J_string (fst t)) (snd t)))
          (\<lambda>tConfig.
             case load tConfig of
               None \<Rightarrow> Some (Inl (Load_failed tConfig))
             | Some b \<Rightarrow>
                 (let x = \<lparr>address = next_address ctl, object_backend = b\<rparr>;
                      ctl = ctl\<lparr>next_address := Suc (next_address ctl), context_backend := solver_backend ctl\<rparr> in
                  outcome_bind (addTask x ctl) (\<lambda>ctl.
                    Some (Inr (st\<lparr>st_tasks := st_tasks st @ [(x, tConfig)],
                                  tasks_config := store_member (fst t) tConfig (tasks_config st)\<rparr>, ctl))))))"

definition start_tasks ::
  "(json \<Rightarrow> backend option) \<Rightarrow> 'v fsm_state_scheme \<times> 'u fsm_controller_scheme
    \<Rightarrow> ('v fsm_state_scheme \<times> 'u fsm_controller_scheme) outcome" where
  "start_tasks load sc =
     (if config_empty (tasks_config (fst sc)) then Some (Inr sc)
      else
        outcome_bind (from_config (to_std_map Inr (tasks_config (fst sc)))) (\<lambda>ts.
          outcome_fold (start_task load) ts sc))"

definition State_start ::
  "('v fsm_state_scheme, 'u fsm_controller_scheme) state_env \<Rightarrow> 'v fsm_state_scheme \<Rightarrow> 'u fsm_controller_scheme
    \<Rightarrow> ('v fsm_state_scheme \<times> 'u fsm_controller_scheme) outcome" where
  "State_start env st ctl =
     outcome_bind (apply_contacts removeContact (remove_contacts_config st) ctl) (\<lambda>ctl.
     outcome_bind (apply_contacts addContact (add_contacts_config st) ctl) (\<lambda>ctl.
     outcome_bind (apply_collisions (remove_collision_entry (env_fuel env) (env_geometry env)) (remove_collisions_config st) ctl) (\<lambda>ctl.
     outcome_bind (apply_collisions (add_collision_entry (env_fuel env) (env_geometry env)) (add_collisions_config st) ctl) (\<lambda>ctl.
     outcome_bind (disable_postures (st, ctl)) (\<lambda>sc.
     outcome_bind (start_constraints (load_constraint env) sc) (\<lambda>sc.
     outcome_bind (start_tasks (load_task env) sc) (\<lambda>(st, ctl).
       Some (Inr (v_start env st ctl)))))))))"

definition State_teardown ::
  "('v fsm_state_scheme, 'u fsm_controller_scheme) state_env \<Rightarrow> 'v fsm_state_scheme \<Rightarrow> 'u fsm_controller_scheme
    \<Rightarrow> 'u fsm_controller_scheme outcome" where
  "State_teardown env st ctl =
     outcome_bind (outcome_fold addTask (st_postures st) ctl) (\<lambda>ctl.
     outcome_bind (apply_contacts removeContact (remove_contacts_after_config st) ctl) (\<lambda>ctl.
     outcome_bind (apply_contacts addContact (add_contacts_after_config st) ctl) (\<lambda>ctl.
     outcome_bind (apply_collisions (remove_collision_entry (env_fuel env) (env_geometry env)) (remove_collisions_after_config st) ctl) (\<lambda>ctl.
     outcome_bind (apply_collisions (add_collision_entry (env_fuel env) (env_geometry env)) (add_collisions_after_config st) ctl) (\<lambda>ctl.
     outcome_bind (outcome_fold removeConstraintSet (st_constraints st) ctl) (\<lambda>ctl.
     outcome_bind (outcome_fold (\<lambda>t. removeTask (fst t)) (st_tasks st) ctl) (\<lambda>ctl.
       Some (Inr (v_teardown env st ctl)))))))))"

end
