(* ===== verification/Mc_Contacts_Correct.thy ===== *)
theory Mc_Contacts_Correct
  imports Mc_Contacts
begin

text \<open>
  The contact set of a controller refines a set of unordered pairs of surfaces, and the change flag
  keeps the solver in step with it. The bookkeeping of collision pairs is a set of pairs of bodies
  as long as the concatenated names tell the pairs apart.
\<close>

section \<open>Contacts as unordered pairs\<close>

definition contact_ends :: "contact \<Rightarrow> (string option \<times> string) set" where
  "contact_ends c = {(c_r1 c, c_r1Surface c), (c_r2 c, c_r2Surface c)}"

lemma contact_eq_ends: "contact_eq a b \<longleftrightarrow> contact_ends a = contact_ends b"
  by (auto simp: contact_eq_def contact_ends_def doubleton_eq_iff)

lemma contact_in_iff: "contact_in c cs \<longleftrightarrow> contact_ends c \<in> contact_ends ` set cs"
  by (induction cs) (auto simp: contact_eq_ends)

text \<open>Equal contacts have equal hashes, as the unordered set requires.\<close>

lemma contact_hash_eq: "contact_eq a b \<Longrightarrow> contact_hash h a = contact_hash h b"
  by (auto simp: contact_eq_def contact_hash_def xor.commute)

definition contacts_inv :: "contact_manager \<Rightarrow> bool" where
  "contacts_inv m \<longleftrightarrow> distinct (map contact_ends (contacts m)) \<and> (\<forall>c\<in>set (contacts m). c_r1 c \<noteq> None \<and> c_r2 c \<noteq> None)"

definition contact_pairs :: "contact_manager \<Rightarrow> (string option \<times> string) set set" where
  "contact_pairs m = contact_ends ` set (contacts m)"

lemma refresh_ends: "map contact_ends (fst (refresh_contact c cs)) = map contact_ends cs"
  by (induction c cs rule: refresh_contact.induct)
    (auto simp: contact_ends_def Let_def split: prod.splits)

lemma refresh_named:
  "\<forall>d\<in>set cs. c_r1 d \<noteq> None \<and> c_r2 d \<noteq> None \<Longrightarrow>
   \<forall>d\<in>set (fst (refresh_contact c cs)). c_r1 d \<noteq> None \<and> c_r2 d \<noteq> None"
  by (induction c cs rule: refresh_contact.induct) (auto simp: Let_def split: prod.splits)

lemma refresh_unchanged: "\<not> snd (refresh_contact c cs) \<Longrightarrow> fst (refresh_contact c cs) = cs"
  by (induction c cs rule: refresh_contact.induct) (auto simp: Let_def split: prod.splits)

text \<open>The stored element takes the friction and the degrees of freedom of the contact that is added.\<close>

definition same_data :: "contact \<Rightarrow> contact \<Rightarrow> bool" where
  "same_data d c \<longleftrightarrow> (c_friction d = c_friction c \<or> double_eq (c_friction d) (c_friction c)) \<and>
     (c_dof d = c_dof c \<or> list_all2 double_eq (c_dof d) (c_dof c))"

lemma refresh_data:
  assumes "contact_in c cs"
  shows "\<exists>d\<in>set (fst (refresh_contact c cs)). contact_eq d c \<and> same_data d c"
  using assms
proof (induction c cs rule: refresh_contact.induct)
  case (2 c d ds)
  show ?case
  proof (cases "contact_eq d c")
    case True
    then show ?thesis
      by (auto simp: Let_def same_data_def contact_eq_def)
  next
    case False
    with 2 show ?thesis by (auto simp: Let_def split: prod.splits)
  qed
qed simp

lemma name_robots_named: "c_r1 (name_robots r c) \<noteq> None" "c_r2 (name_robots r c) \<noteq> None"
  by (auto simp: name_robots_def)

lemma addContact_ok:
  assumes "contacts_inv m"
  shows "contacts_inv (addContact c m)"
    "contact_pairs (addContact c m) = insert (contact_ends (name_robots (main_robot m) c)) (contact_pairs m)"
    "\<exists>d\<in>set (contacts (addContact c m)). contact_eq d (name_robots (main_robot m) c) \<and> same_data d c"
    "main_robot (addContact c m) = main_robot m"
    "contacts_changed (addContact c m) \<or> contacts (addContact c m) = contacts m"
    "contacts_changed m \<Longrightarrow> contacts_changed (addContact c m)"
proof -
  let ?c = "name_robots (main_robot m) c"
  have data: "same_data d ?c = same_data d c" for d
    by (simp add: same_data_def name_robots_def)
  have fields: "contacts_inv (addContact c m) \<and>
      contact_pairs (addContact c m) = insert (contact_ends ?c) (contact_pairs m) \<and>
      (\<exists>d\<in>set (contacts (addContact c m)). contact_eq d ?c \<and> same_data d c) \<and>
      main_robot (addContact c m) = main_robot m \<and>
      (contacts_changed (addContact c m) \<or> contacts (addContact c m) = contacts m) \<and>
      (contacts_changed m \<longrightarrow> contacts_changed (addContact c m))"
  proof (cases "contact_in ?c (contacts m)")
    case True
    obtain cs ch where r: "refresh_contact ?c (contacts m) = (cs, ch)" by fastforce
    have ends: "map contact_ends cs = map contact_ends (contacts m)"
      using refresh_ends [of ?c "contacts m"] unfolding r by simp
    have "contact_ends ` set cs = contact_ends ` set (contacts m)"
      using arg_cong [OF ends, of set] by simp
    moreover note ends
    moreover have "\<forall>d\<in>set (contacts m). c_r1 d \<noteq> None \<and> c_r2 d \<noteq> None"
      using assms unfolding contacts_inv_def by blast
    then have "\<forall>d\<in>set cs. c_r1 d \<noteq> None \<and> c_r2 d \<noteq> None"
      using refresh_named [of "contacts m" ?c] unfolding r fst_conv by blast
    moreover have "\<not> ch \<Longrightarrow> cs = contacts m"
      using refresh_unchanged [of ?c "contacts m"] r by simp
    moreover have "\<exists>d\<in>set cs. contact_eq d ?c \<and> same_data d c"
      using refresh_data [OF True] r data by simp
    ultimately show ?thesis
      using True assms r by (auto simp: addContact_def Let_def contacts_inv_def contact_pairs_def contact_in_iff)
  next
    case False
    have "contact_eq ?c ?c \<and> same_data ?c c"
      by (simp add: contact_eq_def same_data_def name_robots_def)
    with False show ?thesis
      using assms name_robots_named
      by (auto simp: addContact_def Let_def contacts_inv_def contact_pairs_def contact_in_iff)
  qed
  then show "contacts_inv (addContact c m)"
    "contact_pairs (addContact c m) = insert (contact_ends ?c) (contact_pairs m)"
    "\<exists>d\<in>set (contacts (addContact c m)). contact_eq d ?c \<and> same_data d c"
    "main_robot (addContact c m) = main_robot m"
    "contacts_changed (addContact c m) \<or> contacts (addContact c m) = contacts m"
    "contacts_changed m \<Longrightarrow> contacts_changed (addContact c m)"
    by auto
qed

lemma removeContact_ok:
  assumes "contacts_inv m"
  shows "contacts_inv (removeContact c m)"
    "contact_pairs (removeContact c m) = contact_pairs m - {contact_ends (name_robots (main_robot m) c)}"
    "contacts_changed (removeContact c m) \<or> contacts (removeContact c m) = contacts m"
    "contacts_changed m \<Longrightarrow> contacts_changed (removeContact c m)"
  using assms
  by (auto simp: removeContact_def Let_def contacts_inv_def contact_pairs_def contact_in_iff contact_eq_ends
      distinct_map_filter filter_id_conv)

text \<open>The solver is in step with the set, or an update is pending.\<close>

definition contacts_synced :: "contact_manager \<Rightarrow> contact list \<Rightarrow> bool" where
  "contacts_synced m solver_contacts \<longleftrightarrow> contacts_changed m \<or> solver_contacts = contacts m"

lemma sync_add: "contacts_inv m \<Longrightarrow> contacts_synced m s \<Longrightarrow> contacts_synced (addContact c m) s"
  using addContact_ok(5,6) [of m c] by (auto simp: contacts_synced_def)

lemma sync_remove: "contacts_inv m \<Longrightarrow> contacts_synced m s \<Longrightarrow> contacts_synced (removeContact c m) s"
  using removeContact_ok(3,4) [of m c] by (auto simp: contacts_synced_def)

lemma sync_update:
  "contacts_synced m s \<Longrightarrow> updateContacts True valid m s = Inr (m', s') \<Longrightarrow>
   s' = contacts m \<and> contacts m' = contacts m \<and> contacts_synced m' s'"
  by (auto simp: updateContacts_def contacts_synced_def split: if_splits)

lemma clearContacts_ok:
  "contacts_inv (clearContacts m)" "contact_pairs (clearContacts m) = {}"
  "contacts_synced (clearContacts m) s \<longleftrightarrow> contacts m \<noteq> [] \<or> s = []"
  by (auto simp: clearContacts_def contacts_inv_def contact_pairs_def contacts_synced_def)

text \<open>
  \<open>clearContacts\<close> overwrites the flag: clearing a set that has just become empty cancels the pending
  update, and the solver keeps the contact that was removed.
\<close>

lemma clear_loses_update:
  "\<exists>m c s. contacts_inv m \<and> contacts_synced m s \<and>
     updateContacts True valid (clearContacts (removeContact c m)) s = Inr (m\<lparr>contacts := [], contacts_changed := False\<rparr>, s) \<and>
     s \<noteq> []"
proof -
  let ?c = "\<lparr>c_r1 = Some ''a'', c_r2 = Some ''b'', c_r1Surface = ''s'', c_r2Surface = ''t'', c_friction = 0, c_dof = []\<rparr>"
  let ?m = "\<lparr>main_robot = ''a'', contacts = [?c], contacts_changed = False\<rparr>"
  have "contacts_inv ?m \<and> contacts_synced ?m [?c] \<and>
     updateContacts True valid (clearContacts (removeContact ?c ?m)) [?c] = Inr (?m\<lparr>contacts := [], contacts_changed := False\<rparr>, [?c])"
    by (simp add: contacts_inv_def contacts_synced_def updateContacts_def clearContacts_def removeContact_def name_robots_def
        contact_eq_def)
  then show ?thesis by blast
qed

section \<open>Collision pairs\<close>

definition bodies :: "collision \<Rightarrow> string \<times> string" where
  "bodies c = (body1 c, body2 c)"

definition joined :: "string \<times> string \<Rightarrow> string" where
  "joined p = fst p @ snd p"

definition constraint_pairs :: "collisions_constraint \<Rightarrow> (string \<times> string) set" where
  "constraint_pairs cc = bodies ` set (cols cc)"

definition cc_inv :: "collisions_constraint \<Rightarrow> bool" where
  "cc_inv cc \<longleftrightarrow> distinct (map fst (collIdDict cc)) \<and> (\<forall>e\<in>set (collIdDict cc). fst e = joined (bodies (snd (snd e)))) \<and>
     set (cols cc) = (snd \<circ> snd) ` set (collIdDict cc) \<and> distinct (map bodies (cols cc)) \<and>
     (\<forall>c\<in>set (cols cc). bodies c \<noteq> (''NONE'', ''NONE''))"

text \<open>A body name that is neither empty nor a wildcard.\<close>

definition plain_body :: "string \<Rightarrow> bool" where
  "plain_body b \<longleftrightarrow> b \<noteq> '''' \<and> last b \<noteq> CHR ''*''"

lemma has_pair: "constraint_hasCollision c1 c2 cc \<longleftrightarrow> (c1, c2) \<in> constraint_pairs cc"
  by (auto simp: constraint_hasCollision_def constraint_pairs_def bodies_def list_ex_iff)

lemma dict_key:
  assumes "cc_inv cc"
  shows "map_of (collIdDict cc) (joined p) = None \<longleftrightarrow> (\<forall>q\<in>constraint_pairs cc. joined q \<noteq> joined p)"
proof -
  have keys: "fst ` set (collIdDict cc) = joined ` constraint_pairs cc"
    using assms unfolding cc_inv_def constraint_pairs_def by (force simp: image_image)
  then show ?thesis
    unfolding map_of_eq_None_iff keys by (metis image_iff)
qed

lemma joints_exist_update [simp]:
  "joints_exist g col (cc\<lparr>collIdDict := d, collId := i, cols := cs\<rparr>) = joints_exist g col cc"
  by (simp add: joints_exist_def split: option.splits)

lemma convexes_exist_update [simp]:
  "convexes_exist g col (cc\<lparr>collIdDict := d, collId := i, cols := cs\<rparr>) = convexes_exist g col cc"
  by (simp add: convexes_exist_def)

lemma add_plain:
  assumes "cc_inv cc" "plain_body (body1 col)" "plain_body (body2 col)" "joints_exist g col cc \<and> convexes_exist g col cc"
    "bodies col \<noteq> (''NONE'', ''NONE'')"
  shows "\<exists>cc'. addCollision (Suc fuel) g col cc = Some (Inr cc') \<and> cc_inv cc' \<and>
    cc_r1 cc' = cc_r1 cc \<and> cc_r2 cc' = cc_r2 cc \<and>
    constraint_pairs cc' = (if \<exists>q\<in>constraint_pairs cc. joined q = joined (bodies col) then constraint_pairs cc
      else insert (bodies col) (constraint_pairs cc))"
proof (cases "\<exists>q\<in>constraint_pairs cc. joined q = joined (bodies col)")
  case True
  then have "map_of (collIdDict cc) (body1 col @ body2 col) \<noteq> None"
    using dict_key [OF assms(1), of "bodies col"] by (auto simp: joined_def bodies_def)
  with True show ?thesis
    using assms by (auto simp: plain_body_def createCollId_def keyByNames_def Let_def)
next
  case False
  let ?cc = "cc\<lparr>collIdDict := (body1 col @ body2 col, collId cc, col) # collIdDict cc, collId := collId cc + 1,
    cols := cols cc @ [col]\<rparr>"
  have key: "map_of (collIdDict cc) (body1 col @ body2 col) = None"
    using False dict_key [OF assms(1), of "bodies col"] by (auto simp: joined_def bodies_def)
  have "bodies col \<notin> constraint_pairs cc" using False by blast
  then have "cc_inv ?cc"
    using assms(1,5) key by (auto simp: cc_inv_def map_of_eq_None_iff joined_def bodies_def constraint_pairs_def)
  moreover have "constraint_pairs ?cc = insert (bodies col) (constraint_pairs cc)"
    by (simp add: constraint_pairs_def)
  moreover have "addCollision (Suc fuel) g col cc = Some (Inr ?cc)"
    using assms(2-4) key by (simp add: plain_body_def createCollId_def keyByNames_def Let_def)
  ultimately show ?thesis using False by auto
qed

lemma extract_bodies:
  assumes "distinct (map bodies cs)" "p \<in> set cs"
  shows "\<exists>xs y ys. List.extract (collision_eq p) cs = Some (xs, y, ys) \<and> cs = xs @ y # ys \<and> y = p"
proof -
  have "\<exists>y\<in>set cs. collision_eq p y" using assms(2) by (auto simp: collision_eq_def)
  then obtain xs y ys where e: "List.extract (collision_eq p) cs = Some (xs, y, ys)"
    by (metis (no_types, lifting) extract_None_iff option.exhaust prod.exhaust)
  then have cs: "cs = xs @ y # ys" "collision_eq p y"
    by (auto simp: extract_Some_iff)
  then have "bodies y = bodies p" "y \<in> set cs" by (auto simp: collision_eq_def bodies_def)
  then have "y = p"
    using assms by (auto simp: distinct_map dest: inj_onD)
  with e cs show ?thesis by blast
qed

lemma cols_unique:
  assumes "cc_inv cc" "c \<in> set (cols cc)" "d \<in> set (cols cc)" "joined (bodies c) = joined (bodies d)"
  shows "c = d"
proof -
  have inv: "distinct (map fst (collIdDict cc))" "\<forall>e\<in>set (collIdDict cc). fst e = joined (bodies (snd (snd e)))"
    "set (cols cc) = (snd \<circ> snd) ` set (collIdDict cc)"
    using assms(1) unfolding cc_inv_def by blast+
  obtain x y where e: "x \<in> set (collIdDict cc)" "y \<in> set (collIdDict cc)" "c = snd (snd x)" "d = snd (snd y)"
    using assms(2,3) unfolding inv(3) by (elim imageE) simp
  then have "fst x = fst y"
    using inv(2) assms(4) by simp
  then have "x = y"
    using inv(1) e(1,2) by (simp add: distinct_map inj_on_def)
  with e show ?thesis by simp
qed

definition without_key :: "string \<Rightarrow> collisions_constraint \<Rightarrow> collisions_constraint" where
  "without_key k cc = cc\<lparr>collIdDict := filter (\<lambda>e. fst e \<noteq> k) (collIdDict cc),
     cols := filter (\<lambda>c. joined (bodies c) \<noteq> k) (cols cc)\<rparr>"

lemma without_key_inv:
  assumes "cc_inv cc"
  shows "cc_inv (without_key k cc)"
proof -
  have inv: "distinct (map fst (collIdDict cc))" "\<forall>e\<in>set (collIdDict cc). fst e = joined (bodies (snd (snd e)))"
    "set (cols cc) = (snd \<circ> snd) ` set (collIdDict cc)" "distinct (map bodies (cols cc))"
    "\<forall>c\<in>set (cols cc). bodies c \<noteq> (''NONE'', ''NONE'')"
    using assms unfolding cc_inv_def by blast+
  have "{c \<in> (snd \<circ> snd) ` set (collIdDict cc). joined (bodies c) \<noteq> k} = (snd \<circ> snd) ` {e \<in> set (collIdDict cc). fst e \<noteq> k}"
    (is "?A = ?B")
  proof
    show "?A \<subseteq> ?B" using inv(2) by fastforce
    show "?B \<subseteq> ?A" using inv(2) by fastforce
  qed
  then show ?thesis
    using inv by (simp add: cc_inv_def without_key_def distinct_map_filter)
qed

lemma erase_without:
  assumes "cc_inv cc"
  shows "eraseCollision b1 b2 cc = without_key (b1 @ b2) cc"
proof (cases "map_of (collIdDict cc) (b1 @ b2)")
  case None
  then have "\<forall>c\<in>set (cols cc). joined (bodies c) \<noteq> b1 @ b2"
    using dict_key [OF assms, of "(b1, b2)"] by (simp add: joined_def constraint_pairs_def)
  moreover have "\<forall>e\<in>set (collIdDict cc). fst e \<noteq> b1 @ b2"
    using None unfolding map_of_eq_None_iff by force
  ultimately show ?thesis
    using None by (simp add: eraseCollision_def popCollId_def keyByNames_def without_key_def filter_True)
next
  case (Some v)
  obtain i p where v: "v = (i, p)" by (cases v)
  have mem: "(b1 @ b2, i, p) \<in> set (collIdDict cc)" using Some v by (simp add: map_of_SomeD)
  have inv: "\<forall>e\<in>set (collIdDict cc). fst e = joined (bodies (snd (snd e)))"
    "set (cols cc) = (snd \<circ> snd) ` set (collIdDict cc)" "distinct (map bodies (cols cc))"
    "\<forall>c\<in>set (cols cc). bodies c \<noteq> (''NONE'', ''NONE'')"
    using assms unfolding cc_inv_def by blast+
  have p: "p \<in> set (cols cc)" "joined (bodies p) = b1 @ b2"
    using inv(2) inv(1) [rule_format, OF mem] image_eqI [OF _ mem, of p "snd \<circ> snd"] by simp_all
  then have p3: "bodies p \<noteq> (''NONE'', ''NONE'')" using inv(4) by blast
  obtain xs ys where x: "List.extract (collision_eq p) (cols cc) = Some (xs, p, ys)" "cols cc = xs @ p # ys"
    using extract_bodies [OF inv(3) p(1)] by blast
  have "joined (bodies c) \<noteq> b1 @ b2" if c: "c \<in> set (xs @ ys)" for c
  proof
    assume "joined (bodies c) = b1 @ b2"
    then have "c = p"
      using cols_unique [OF assms, of c p] c p x(2) by auto
    moreover have "p \<notin> set (xs @ ys)"
      using inv(3) unfolding x(2) by auto
    ultimately show False using c by simp
  qed
  then have "filter (\<lambda>c. joined (bodies c) \<noteq> b1 @ b2) (cols cc) = xs @ ys"
    using p(2) unfolding x(2) by (simp add: filter_id_conv)
  then show ?thesis
    using Some v x(1) p3
    by (auto simp: eraseCollision_def popCollId_def keyByNames_def Let_def bodies_def without_key_def)
qed

lemma erase_pairs:
  assumes "cc_inv cc"
  shows "cc_inv (eraseCollision b1 b2 cc)"
    "constraint_pairs (eraseCollision b1 b2 cc) = {p \<in> constraint_pairs cc. joined p \<noteq> b1 @ b2}"
    "cc_r1 (eraseCollision b1 b2 cc) = cc_r1 cc" "cc_r2 (eraseCollision b1 b2 cc) = cc_r2 cc"
  unfolding erase_without [OF assms]
  using without_key_inv [OF assms] by (auto simp: without_key_def constraint_pairs_def)

section \<open>Collision managers\<close>

definition manager_inv :: "collision_manager \<Rightarrow> bool" where
  "manager_inv m \<longleftrightarrow> (\<forall>key cc. map_of (collision_constraints m) key = Some cc \<longrightarrow>
     cc_inv cc \<and> cc_r1 cc = fst key \<and> cc_r2 cc = snd key)"

definition one_order :: "string \<Rightarrow> string \<Rightarrow> collision_manager \<Rightarrow> bool" where
  "one_order r1 r2 m \<longleftrightarrow> r1 = r2 \<or> map_of (collision_constraints m) (r1, r2) = None \<or> map_of (collision_constraints m) (r2, r1) = None"

definition pairs_at :: "collision_manager \<Rightarrow> string \<times> string \<Rightarrow> (string \<times> string) set" where
  "pairs_at m key = (case map_of (collision_constraints m) key of None \<Rightarrow> {} | Some cc \<Rightarrow> constraint_pairs cc)"

lemma hasCollision_pairs:
  assumes "one_order r1 r2 m"
  shows "hasCollision r1 r2 c1 c2 m \<longleftrightarrow> (c1, c2) \<in> pairs_at m (r1, r2) \<or> (r1 \<noteq> r2 \<and> (c2, c1) \<in> pairs_at m (r2, r1))"
  using assms by (auto simp: hasCollision_def pairs_at_def has_pair one_order_def split: option.splits)

lemma hasCollision_first_order:
  assumes "map_of (collision_constraints m) (r2, r1) = None \<or> r1 = r2"
  shows "hasCollision r1 r2 c1 c2 m \<longleftrightarrow> (c1, c2) \<in> pairs_at m (r1, r2)"
  using assms hasCollision_pairs [of r1 r2 m c1 c2] by (auto simp: one_order_def pairs_at_def)

lemma removeCollisions_ok:
  assumes "manager_inv m" "map_of (collision_constraints m) (r1, r2) = Some cc"
    "plain_body (body1 col)" "plain_body (body2 col)"
  shows "\<exists>m'. removeCollisions (Suc fuel) g r1 r2 [col] m = Some (Inr m') \<and> manager_inv m' \<and>
    pairs_at m' = (pairs_at m)((r1, r2) := {p \<in> pairs_at m (r1, r2). joined p \<noteq> joined (bodies col)}) \<and>
    (\<forall>k. map_of (collision_constraints m') k = None \<longleftrightarrow> map_of (collision_constraints m) k = None)"
proof -
  have inv: "cc_inv cc" "cc_r1 cc = r1" "cc_r2 cc = r2"
    using assms(1,2) by (auto simp: manager_inv_def)
  let ?cc = "eraseCollision (body1 col) (body2 col) cc"
  note e = erase_pairs [OF inv(1), of "body1 col" "body2 col"]
  let ?m = "m\<lparr>collision_constraints := alist_put (r1, r2) ?cc (collision_constraints m)\<rparr>"
  have "removeCollisions (Suc fuel) g r1 r2 [col] m = Some (Inr ?m)"
    using assms(2-4) by (simp add: removeCollisions_def plain_body_def Let_def)
  moreover have "manager_inv ?m"
    using assms(1) e(1,3,4) inv(2,3) by (simp add: manager_inv_def)
  moreover have "pairs_at ?m = (pairs_at m)((r1, r2) := {p \<in> pairs_at m (r1, r2). joined p \<noteq> joined (bodies col)})"
    using e(2) assms(2) by (simp add: pairs_at_def fun_eq_iff joined_def bodies_def)
  moreover have "\<forall>k. map_of (collision_constraints ?m) k = None \<longleftrightarrow> map_of (collision_constraints m) k = None"
    using assms(2) by simp
  ultimately show ?thesis by blast
qed

lemma bodies_swap: "bodies (swap_collision c) = prod.swap (bodies c)"
  by (simp add: bodies_def swap_collision_def)

section \<open>Limits of the collision bookkeeping\<close>

text \<open>Removing a pair in the order opposite to the registered one has no effect.\<close>

lemma removeCollisions_other_order:
  "map_of (collision_constraints m) (r1, r2) = None \<Longrightarrow> removeCollisions fuel g r1 r2 cs m = Some (Inr m)"
  by (simp add: removeCollisions_def)

text \<open>Two pairs with the same concatenated names exclude each other.\<close>

lemma key_clash:
  "createCollId c cc = (False, cc)"
  if "map_of (collIdDict cc) (body1 d @ body2 d) \<noteq> None" "body1 c @ body2 c = body1 d @ body2 d"
  using that by (simp add: createCollId_def keyByNames_def)

end
