(* ===== verification/Mc_Controller_Correct.thy ===== *)
theory Mc_Controller_Correct
  imports Mc_Controller Mc_Contacts_Correct
begin

text \<open>
  The lists of the solver under the operations of the controller, as sets of addresses, and the
  addition of collisions: the first one between two robots creates a constraint and gives it to the
  solver, where it stays.
\<close>

section \<open>Outcomes\<close>

lemma outcome_bind_Inr: "outcome_bind r f = Some (Inr y) \<longleftrightarrow> (\<exists>x. r = Some (Inr x) \<and> f x = Some (Inr y))"
  by (auto simp: outcome_bind_def split: option.splits sum.splits)

lemma outcome_bind_simps [simp]:
  "outcome_bind (Some (Inr x)) f = f x" "outcome_bind (Some (Inl err)) f = Some (Inl err)" "outcome_bind None f = None"
  by (simp_all add: outcome_bind_def)

lemma from_config_Inr [simp]: "from_config r = Some (Inr x) \<longleftrightarrow> r = Inr x"
  by (auto simp: from_config_def split: sum.splits)

lemma from_collision_Inr [simp]: "from_collision r = Some (Inr x) \<longleftrightarrow> r = Some (Inr x)"
  by (auto simp: from_collision_def split: option.splits sum.splits)

lemma outcome_fold_inv:
  assumes "outcome_fold f xs a = Some (Inr b)" "P a" "\<And>x a b. x \<in> set xs \<Longrightarrow> P a \<Longrightarrow> f x a = Some (Inr b) \<Longrightarrow> P b"
  shows "P b"
  using assms
proof (induction xs arbitrary: a)
  case (Cons x xs)
  then obtain a' where "f x a = Some (Inr a')" "outcome_fold f xs a' = Some (Inr b)"
    by (auto simp: outcome_bind_Inr)
  with Cons show ?case by (metis list.set_intros)
qed simp

section \<open>Addresses in the solver\<close>

definition addresses :: "solver_object list \<Rightarrow> nat set" where
  "addresses xs = address ` set xs"

definition drop_address :: "nat \<Rightarrow> solver_object list \<Rightarrow> solver_object list" where
  "drop_address a xs = (case List.extract (\<lambda>x. address x = a) xs of None \<Rightarrow> xs | Some (ys, _, zs) \<Rightarrow> ys @ zs)"

lemma drop_address_filter:
  assumes "distinct (map address xs)"
  shows "drop_address a xs = filter (\<lambda>x. address x \<noteq> a) xs"
proof (cases "List.extract (\<lambda>x. address x = a) xs")
  case None
  then have "\<forall>x\<in>set xs. address x \<noteq> a" by (simp add: extract_None_iff)
  then have "filter (\<lambda>x. address x \<noteq> a) xs = xs" by (simp add: filter_id_conv)
  with None show ?thesis by (simp add: drop_address_def)
next
  case (Some r)
  obtain ys y zs where r: "r = (ys, y, zs)" by (cases r)
  then have xs: "xs = ys @ y # zs" "address y = a" "\<forall>x\<in>set ys. address x \<noteq> a"
    using Some by (auto simp: extract_Some_iff)
  then have "\<forall>x\<in>set zs. address x \<noteq> a"
    using assms by (metis distinct.simps(2) distinct_append imageI list.set_map list.simps(9) map_append)
  with xs Some r show ?thesis
    by (simp add: drop_address_def filter_id_conv)
qed

text \<open>The solver as a state sees it: addresses are distinct and all tasks are of its backend.\<close>

definition solver_ok :: "'u fsm_controller_scheme \<Rightarrow> bool" where
  "solver_ok ctl \<longleftrightarrow> distinct (map address (metaTasks ctl)) \<and> distinct (map address (constraint_sets ctl))"

text \<open>The constraint objects of the collision managers, by pair of robots.\<close>

definition collision_objects :: "collision_manager \<Rightarrow> string \<times> string \<Rightarrow> solver_object option" where
  "collision_objects m key = map_option cc_object (map_of (collision_constraints m) key)"

definition same_solver :: "'u fsm_controller_scheme \<Rightarrow> 'u fsm_controller_scheme \<Rightarrow> bool" where
  "same_solver c d \<longleftrightarrow> metaTasks d = metaTasks c \<and> constraint_sets d = constraint_sets c \<and>
     solver_backend d = solver_backend c \<and> posture_tasks d = posture_tasks c \<and> next_address d = next_address c \<and>
     collision_objects (ctl_collisions d) = collision_objects (ctl_collisions c)"

lemma addTask_ok:
  assumes "object_backend t = solver_backend ctl" "solver_ok ctl"
  shows "\<exists>ctl'. addTask t ctl = Some (Inr ctl') \<and> solver_ok ctl' \<and>
    addresses (metaTasks ctl') = insert (address t) (addresses (metaTasks ctl)) \<and>
    constraint_sets ctl' = constraint_sets ctl \<and> solver_backend ctl' = solver_backend ctl \<and>
    posture_tasks ctl' = posture_tasks ctl \<and> next_address ctl' = next_address ctl \<and>
    ctl_collisions ctl' = ctl_collisions ctl"
  using assms by (auto simp: addTask_def known_def addresses_def solver_ok_def)

lemma removeTask_ok:
  assumes "object_backend t = solver_backend ctl" "solver_ok ctl"
  shows "\<exists>ctl'. removeTask t ctl = Some (Inr ctl') \<and> solver_ok ctl' \<and>
    addresses (metaTasks ctl') = addresses (metaTasks ctl) - {address t} \<and>
    constraint_sets ctl' = constraint_sets ctl \<and> solver_backend ctl' = solver_backend ctl \<and>
    posture_tasks ctl' = posture_tasks ctl \<and> next_address ctl' = next_address ctl \<and>
    ctl_collisions ctl' = ctl_collisions ctl"
  using assms drop_address_filter [of "metaTasks ctl" "address t"]
  by (auto simp: removeTask_def known_def addresses_def solver_ok_def drop_address_def [symmetric] distinct_map_filter)

lemma addConstraintSet_ok:
  assumes "object_backend c = solver_backend ctl" "solver_ok ctl"
  shows "\<exists>ctl'. addConstraintSet c ctl = Some (Inr ctl') \<and> solver_ok ctl' \<and>
    addresses (constraint_sets ctl') = insert (address c) (addresses (constraint_sets ctl)) \<and>
    metaTasks ctl' = metaTasks ctl \<and> solver_backend ctl' = solver_backend ctl \<and>
    posture_tasks ctl' = posture_tasks ctl \<and> next_address ctl' = next_address ctl \<and>
    ctl_collisions ctl' = ctl_collisions ctl"
  using assms by (auto simp: addConstraintSet_def known_def addresses_def solver_ok_def)

lemma removeConstraintSet_ok:
  assumes "object_backend c = solver_backend ctl" "solver_ok ctl"
  shows "\<exists>ctl'. removeConstraintSet c ctl = Some (Inr ctl') \<and> solver_ok ctl' \<and>
    addresses (constraint_sets ctl') = addresses (constraint_sets ctl) - {address c} \<and>
    metaTasks ctl' = metaTasks ctl \<and> solver_backend ctl' = solver_backend ctl \<and>
    posture_tasks ctl' = posture_tasks ctl \<and> next_address ctl' = next_address ctl \<and>
    ctl_collisions ctl' = ctl_collisions ctl"
  using assms drop_address_filter [of "constraint_sets ctl" "address c"]
  by (auto simp: removeConstraintSet_def known_def addresses_def solver_ok_def drop_address_def [symmetric] distinct_map_filter)

lemma same_solver_refl [simp]: "same_solver c c"
  by (simp add: same_solver_def)

lemma same_solver_trans: "same_solver a b \<Longrightarrow> same_solver b c \<Longrightarrow> same_solver a c"
  by (simp add: same_solver_def)

section \<open>The object behind a collision constraint\<close>

lemma erase_object [simp]: "cc_object (eraseCollision b1 b2 cc) = cc_object cc"
  by (simp add: eraseCollision_def popCollId_def Let_def split: option.splits prod.splits if_splits)

lemma addCollision_all_step:
  assumes "addCollision_all n g cs cc = Some (Inr cc')"
    "\<And>col cc cc'. addCollision n g col cc = Some (Inr cc') \<Longrightarrow> cc_object cc' = cc_object cc"
  shows "cc_object cc' = cc_object cc"
  using assms(1) by (induction cs arbitrary: cc) (auto split: option.splits sum.splits dest: assms(2))

lemma addCollision_object: "addCollision n g col cc = Some (Inr cc') \<Longrightarrow> cc_object cc' = cc_object cc"
proof (induction n arbitrary: col cc cc')
  case (Suc n)
  have all: "cc_object cc' = cc_object cc" if "addCollision_all n g cs cc = Some (Inr cc')" for cs cc cc'
    using that by (rule addCollision_all_step) (rule Suc.IH)
  show ?case
    using Suc.prems by (simp add: Let_def createCollId_def split: if_splits) (auto dest: all)
qed simp

lemma addCollision_all_object: "addCollision_all n g cs cc = Some (Inr cc') \<Longrightarrow> cc_object cc' = cc_object cc"
  by (erule addCollision_all_step) (rule addCollision_object)

lemma removeCollision_all_step:
  assumes "removeCollision_all n g bss cc = Some (Inr cc')"
    "\<And>bs cc cc'. removeCollision n g bs cc = Some (Inr cc') \<Longrightarrow> cc_object cc' = cc_object cc"
  shows "cc_object cc' = cc_object cc"
  using assms(1) by (induction bss arbitrary: cc) (auto split: option.splits sum.splits dest: assms(2))

lemma removeCollision_object: "removeCollision n g bs cc = Some (Inr cc') \<Longrightarrow> cc_object cc' = cc_object cc"
proof (induction n arbitrary: bs cc cc')
  case (Suc n)
  have all: "cc_object cc' = cc_object cc" if "removeCollision_all n g bss cc = Some (Inr cc')" for bss cc cc'
    using that by (rule removeCollision_all_step) (rule Suc.IH)
  show ?case
    using Suc.prems by (simp add: Let_def split: if_splits) (auto dest: all)
qed simp

lemma removeCollision_all_object: "removeCollision_all n g bss cc = Some (Inr cc') \<Longrightarrow> cc_object cc' = cc_object cc"
  by (erule removeCollision_all_step) (rule removeCollision_object)

lemma removal_objects:
  "removeCollisions n g r1 r2 cs m = Some (Inr m') \<Longrightarrow> collision_objects m' = collision_objects m"
  "collision_objects (removeAllCollisions r1 r2 m) = collision_objects m"
  by (auto simp: removeCollisions_def removeAllCollisions_def collision_objects_def fun_eq_iff reset_collisions_def
      dest!: removeCollision_all_object split: option.splits sum.splits)

section \<open>Adding collisions\<close>

definition new_solver_object :: "'u fsm_controller_scheme \<Rightarrow> solver_object" where
  "new_solver_object ctl = \<lparr>address = next_address ctl, object_backend = context_backend ctl\<rparr>"

text \<open>The effect on the solver: none, or a new constraint for a pair of robots that had none.\<close>

definition registers :: "string \<times> string \<Rightarrow> 'u fsm_controller_scheme \<Rightarrow> 'u fsm_controller_scheme \<Rightarrow> bool" where
  "registers key c d \<longleftrightarrow> collision_objects (ctl_collisions c) key = None \<and> context_backend c = solver_backend c \<and>
     metaTasks d = metaTasks c \<and> solver_backend d = solver_backend c \<and> posture_tasks d = posture_tasks c \<and>
     next_address d = Suc (next_address c) \<and>
     constraint_sets d = constraint_sets c @ (if known (new_solver_object c) (constraint_sets c) then [] else [new_solver_object c]) \<and>
     collision_objects (ctl_collisions d) = (collision_objects (ctl_collisions c))(key \<mapsto> new_solver_object c)"

lemma manager_constraint_step:
  assumes "manager_constraint key ctl = Some (Inr (found, ctl'))"
  shows "(ctl' = ctl \<and> found = map_of (collision_constraints (ctl_collisions ctl)) key) \<or>
    (\<exists>cc. registers key ctl ctl' \<and> found = Some cc \<and> cc_object cc = new_solver_object ctl)"
proof (cases "map_of (collision_constraints (ctl_collisions ctl)) key")
  case None
  then show ?thesis
    using assms
    by (auto simp: manager_constraint_def Let_def outcome_bind_Inr addConstraintSet_def registers_def new_solver_object_def
        collision_objects_def new_collisions_constraint_def known_def fun_eq_iff split: if_splits)
next
  case (Some cc)
  then show ?thesis using assms by (simp add: manager_constraint_def)
qed

lemma store_constraint_solver:
  assumes "collision_objects (ctl_collisions ctl) key = Some (cc_object cc)"
  shows "same_solver ctl (store_constraint key cc ctl)"
  using assms by (auto simp: same_solver_def store_constraint_def collision_objects_def fun_eq_iff)

lemma registers_same: "registers key a b \<Longrightarrow> same_solver b c \<Longrightarrow> registers key a c"
  by (simp add: registers_def same_solver_def)

lemma add_to_manager_step:
  assumes "add_to_manager n g key cs ctl = Some (Inr ctl')"
  shows "same_solver ctl ctl' \<or> registers key ctl ctl'"
proof -
  obtain found ctl1 where 1: "manager_constraint key ctl = Some (Inr (found, ctl1))"
    and rest: "case found of None \<Rightarrow> ctl' = ctl1
      | Some cc \<Rightarrow> (\<exists>cc'. addCollision_all n g cs cc = Some (Inr cc') \<and> ctl' = store_constraint key cc' ctl1)"
  proof -
    obtain found ctl1 where "manager_constraint key ctl = Some (Inr (found, ctl1))"
      "(case found of None \<Rightarrow> Some (Inr ctl1) | Some cc \<Rightarrow>
         outcome_bind (from_collision (addCollision_all n g cs cc)) (\<lambda>cc. Some (Inr (store_constraint key cc ctl1)))) = Some (Inr ctl')"
      using assms unfolding add_to_manager_def outcome_bind_Inr by auto
    then show thesis
      using that by (cases found) (auto simp: outcome_bind_Inr)
  qed
  show ?thesis
  proof (cases found)
    case None
    then show ?thesis using rest manager_constraint_step [OF 1] by auto
  next
    case (Some cc)
    then obtain cc' where "addCollision_all n g cs cc = Some (Inr cc')" and st: "ctl' = store_constraint key cc' ctl1"
      using rest by auto
    then have cc': "cc_object cc' = cc_object cc" "ctl' = store_constraint key cc' ctl1"
      using addCollision_all_object by blast+
    have "collision_objects (ctl_collisions ctl1) key = Some (cc_object cc)"
      using manager_constraint_step [OF 1]
    proof
      assume "ctl1 = ctl \<and> found = map_of (collision_constraints (ctl_collisions ctl)) key"
      with Some have "map_of (collision_constraints (ctl_collisions ctl1)) key = Some cc" by simp
      then show ?thesis by (simp add: collision_objects_def)
    next
      assume "\<exists>cc. registers key ctl ctl1 \<and> found = Some cc \<and> cc_object cc = new_solver_object ctl"
      with Some show ?thesis by (simp add: registers_def)
    qed
    then have "collision_objects (ctl_collisions ctl1) key = Some (cc_object cc')"
      using cc'(1) by simp
    then have "same_solver ctl1 ctl'"
      unfolding cc'(2) by (rule store_constraint_solver)
    with manager_constraint_step [OF 1] show ?thesis
      using registers_same [of key ctl ctl1 ctl'] by auto
  qed
qed

text \<open>When a pair of robots is registered in both orders, adding to it never returns.\<close>

lemma addCollisions_both_orders:
  assumes "r1 \<noteq> r2" "map_of (collision_constraints (ctl_collisions ctl)) (r1, r2) \<noteq> None" "map_of (collision_constraints (ctl_collisions ctl)) (r2, r1) \<noteq> None"
  shows "addCollisions fuel g r1 r2 cs ctl = None"
proof -
  have "c' = ctl \<longrightarrow> (a, b) \<in> {(r1, r2), (r2, r1)} \<longrightarrow> False" if "addCollisions fuel g a b cs' c' = Some r" for a b cs' c' r
    using _ that
  proof (rule addCollisions.raw_induct)
    fix add :: "nat \<Rightarrow> robot_geometry \<Rightarrow> string \<Rightarrow> string \<Rightarrow> collision list \<Rightarrow> 'a fsm_controller_scheme
        \<Rightarrow> 'a fsm_controller_scheme outcome"
      and fuel g a b cs c' r
    assume "\<And>fuel g a b cs c' r. add fuel g a b cs c' = Some r \<Longrightarrow> c' = ctl \<longrightarrow> (a, b) \<in> {(r1, r2), (r2, r1)} \<longrightarrow> False"
      and "(if a \<noteq> b \<and> map_of (collision_constraints (ctl_collisions c')) (b, a) \<noteq> None then add fuel g b a (map swap_collision cs) c'
          else add_to_manager fuel g (a, b) cs c') = Some r"
    with assms show "c' = ctl \<longrightarrow> (a, b) \<in> {(r1, r2), (r2, r1)} \<longrightarrow> False"
      by (metis (no_types, lifting) insert_iff prod.inject singletonD)
  qed
  then show ?thesis by (cases "addCollisions fuel g r1 r2 cs ctl") blast+
qed

lemma addCollisions_step:
  assumes "addCollisions n g r1 r2 cs ctl = Some (Inr ctl')"
  shows "same_solver ctl ctl' \<or> (\<exists>key. registers key ctl ctl')"
proof -
  have "\<exists>key cs'. add_to_manager n g key cs' ctl = Some (Inr ctl')"
  proof (cases "r1 \<noteq> r2 \<and> map_of (collision_constraints (ctl_collisions ctl)) (r2, r1) \<noteq> None")
    case True
    then have 2: "addCollisions n g r2 r1 (map swap_collision cs) ctl = Some (Inr ctl')"
      using assms by (simp add: addCollisions.simps [of n g r1 r2])
    then have "map_of (collision_constraints (ctl_collisions ctl)) (r1, r2) = None"
      using True addCollisions_both_orders [of r2 r1 ctl n g "map swap_collision cs"] by force
    with 2 have "add_to_manager n g (r2, r1) (map swap_collision cs) ctl = Some (Inr ctl')"
      by (simp add: addCollisions.simps [of n g r2 r1])
    then show ?thesis by blast
  next
    case False
    then have "add_to_manager n g (r1, r2) cs ctl = Some (Inr ctl')"
      using assms by (auto simp: addCollisions.simps [of n g r1 r2])
    then show ?thesis by blast
  qed
  then show ?thesis using add_to_manager_step by blast
qed

section \<open>Adding one pair of bodies\<close>

lemma manager_constraint_ok:
  assumes "manager_inv (ctl_collisions ctl)" "fst key \<in> set (robot_names (ctl_collisions ctl))"
    "snd key \<in> set (robot_names (ctl_collisions ctl))" "context_backend ctl = solver_backend ctl" "solver_backend ctl \<noteq> Backend_Unset"
    "\<forall>x\<in>set (constraint_sets ctl). address x < next_address ctl"
  shows "\<exists>cc ctl'. manager_constraint key ctl = Some (Inr (Some cc, ctl')) \<and> cc_inv cc \<and> cc_r1 cc = fst key \<and> cc_r2 cc = snd key \<and>
    constraint_pairs cc = pairs_at (ctl_collisions ctl) key \<and>
    map_of (collision_constraints (ctl_collisions ctl')) = (map_of (collision_constraints (ctl_collisions ctl)))(key \<mapsto> cc) \<and>
    metaTasks ctl' = metaTasks ctl \<and> constraint_sets ctl' = constraint_sets ctl @
      (if map_of (collision_constraints (ctl_collisions ctl)) key = None then [new_solver_object ctl] else [])"
proof (cases "map_of (collision_constraints (ctl_collisions ctl)) key")
  case None
  let ?x = "new_solver_object ctl"
  let ?cc = "new_collisions_constraint ?x (fst key) (snd key)"
  let ?ctl = "ctl\<lparr>next_address := Suc (next_address ctl), ctl_collisions := ctl_collisions ctl
      \<lparr>collision_constraints := alist_put key ?cc (collision_constraints (ctl_collisions ctl))\<rparr>\<rparr>"
  have fresh: "\<not> known ?x (constraint_sets ctl)"
    using assms(6) by (auto simp: known_def new_solver_object_def)
  have "manager_constraint key ctl = Some (Inr (Some ?cc, ?ctl\<lparr>constraint_sets := constraint_sets ctl @ [?x]\<rparr>))"
    using None assms(2-5) fresh
    by (simp add: manager_constraint_def Let_def new_solver_object_def [symmetric] addConstraintSet_def) (simp add: new_solver_object_def)
  moreover have "cc_inv ?cc" "cc_r1 ?cc = fst key" "cc_r2 ?cc = snd key" "constraint_pairs ?cc = pairs_at (ctl_collisions ctl) key"
    using None by (simp_all add: cc_inv_def new_collisions_constraint_def constraint_pairs_def pairs_at_def)
  ultimately show ?thesis using None by simp
next
  case (Some cc)
  then have "cc_inv cc" "cc_r1 cc = fst key" "cc_r2 cc = snd key"
    using assms(1) unfolding manager_inv_def by blast+
  with Some show ?thesis
    by (intro exI [of _ cc] exI [of _ ctl]) (simp add: manager_constraint_def pairs_at_def map_upd_triv)
qed

lemma add_to_manager_ok:
  assumes "manager_inv (ctl_collisions ctl)" "fst key \<in> set (robot_names (ctl_collisions ctl))"
    "snd key \<in> set (robot_names (ctl_collisions ctl))" "context_backend ctl = solver_backend ctl" "solver_backend ctl \<noteq> Backend_Unset"
    "\<forall>x\<in>set (constraint_sets ctl). address x < next_address ctl"
    and col: "plain_body (body1 col)" "plain_body (body2 col)" "bodies col \<noteq> (''NONE'', ''NONE'')"
    "case r1Joints col of None \<Rightarrow> True | Some js \<Rightarrow> has_joints g (fst key) js"
    "case r2Joints col of None \<Rightarrow> True | Some js \<Rightarrow> has_joints g (snd key) js"
    "body1 col \<in> set (convexes g (fst key))" "body2 col \<in> set (convexes g (snd key))"
    "\<forall>q\<in>pairs_at (ctl_collisions ctl) key. q \<noteq> bodies col \<longrightarrow> joined q \<noteq> joined (bodies col)"
  shows "\<exists>ctl'. add_to_manager (Suc fuel) g key [col] ctl = Some (Inr ctl') \<and> manager_inv (ctl_collisions ctl') \<and>
    pairs_at (ctl_collisions ctl') = (pairs_at (ctl_collisions ctl))(key := insert (bodies col) (pairs_at (ctl_collisions ctl) key)) \<and>
    (\<forall>k. map_of (collision_constraints (ctl_collisions ctl')) k = None \<longleftrightarrow>
      map_of (collision_constraints (ctl_collisions ctl)) k = None \<and> k \<noteq> key) \<and>
    metaTasks ctl' = metaTasks ctl \<and> constraint_sets ctl' = constraint_sets ctl @
      (if map_of (collision_constraints (ctl_collisions ctl)) key = None then [new_solver_object ctl] else [])"
proof -
  obtain cc ctl1 where 1: "manager_constraint key ctl = Some (Inr (Some cc, ctl1))" "cc_inv cc" "cc_r1 cc = fst key" "cc_r2 cc = snd key"
    "constraint_pairs cc = pairs_at (ctl_collisions ctl) key"
    "map_of (collision_constraints (ctl_collisions ctl1)) = (map_of (collision_constraints (ctl_collisions ctl)))(key \<mapsto> cc)"
    "metaTasks ctl1 = metaTasks ctl" "constraint_sets ctl1 = constraint_sets ctl @
      (if map_of (collision_constraints (ctl_collisions ctl)) key = None then [new_solver_object ctl] else [])"
    using manager_constraint_ok [OF assms(1-6)] by blast
  have "joints_exist g col cc \<and> convexes_exist g col cc"
    using col(4-7) 1(3,4) by (simp add: joints_exist_def convexes_exist_def split: option.splits)
  moreover have pairs: "(if \<exists>q\<in>pairs_at (ctl_collisions ctl) key. joined q = joined (bodies col) then pairs_at (ctl_collisions ctl) key
      else insert (bodies col) (pairs_at (ctl_collisions ctl) key)) = insert (bodies col) (pairs_at (ctl_collisions ctl) key)"
    using col(8) by auto
  ultimately obtain cc' where a: "addCollision (Suc fuel) g col cc = Some (Inr cc')" "cc_inv cc'"
    "cc_r1 cc' = fst key" "cc_r2 cc' = snd key" "constraint_pairs cc' = insert (bodies col) (pairs_at (ctl_collisions ctl) key)"
    using add_plain [OF 1(2) col(1,2) _ col(3), of g fuel] pairs unfolding 1(3-5) by metis
  let ?ctl = "store_constraint key cc' ctl1"
  have cs: "map_of (collision_constraints (ctl_collisions ?ctl)) = (map_of (collision_constraints (ctl_collisions ctl)))(key \<mapsto> cc')"
    using 1(6) by (simp add: store_constraint_def fun_eq_iff)
  have "add_to_manager (Suc fuel) g key [col] ctl = Some (Inr ?ctl)"
    using 1(1) a(1) by (simp add: add_to_manager_def from_collision_def del: addCollision.simps)
  moreover have "manager_inv (ctl_collisions ?ctl)"
    using assms(1) a(2-4) unfolding manager_inv_def cs by (metis (no_types, lifting) fun_upd_apply option.inject)
  moreover have "pairs_at (ctl_collisions ?ctl) = (pairs_at (ctl_collisions ctl))
      (key := insert (bodies col) (pairs_at (ctl_collisions ctl) key))"
    using a(5) by (simp add: pairs_at_def fun_eq_iff cs)
  moreover have "metaTasks ?ctl = metaTasks ctl1" "constraint_sets ?ctl = constraint_sets ctl1"
    by (simp_all add: store_constraint_def)
  ultimately show ?thesis using 1(7,8) cs by (intro exI [of _ ?ctl]) simp
qed

end
