(* ===== verification/Fsm_State_Correct.thy ===== *)
theory Fsm_State_Correct
  imports Fsm_State Mc_Controller_Correct State_Factory_Correct Configuration_Correct
begin

text \<open>
  A state that is started and torn down: the tasks and constraint sets it added to the solver are gone
  and the posture tasks it disabled are in it; the constraints of collisions between robots that had
  none stay. Configuring a state merges the configurations, the later one winning.
\<close>

section \<open>Contacts and collisions in the solver\<close>

text \<open>
  The objects of collision constraints that were created since \<open>c\<close>, for pairs of robots that had none.
\<close>

definition new_constraints :: "'u fsm_controller_scheme \<Rightarrow> 'u fsm_controller_scheme \<Rightarrow> nat set" where
  "new_constraints c d = {address x | x key. collision_objects (ctl_collisions d) key = Some x \<and>
     collision_objects (ctl_collisions c) key = None}"

lemma new_constraints_ran:
  "new_constraints c d = address ` ran (\<lambda>key.
     if collision_objects (ctl_collisions c) key = None then collision_objects (ctl_collisions d) key else None)"
  unfolding new_constraints_def ran_def by (auto split: if_splits)

text \<open>
  Relative to the solver \<open>c\<close>, the solver \<open>d\<close> has these new constraints and those at the addresses \<open>C\<close> in
  addition, and the two are different.
\<close>

definition constraints_hold :: "'u fsm_controller_scheme \<Rightarrow> nat set \<Rightarrow> 'u fsm_controller_scheme \<Rightarrow> bool" where
  "constraints_hold c C d \<longleftrightarrow> next_address c \<le> next_address d \<and>
     (\<forall>key. collision_objects (ctl_collisions d) key = None \<longrightarrow> collision_objects (ctl_collisions c) key = None) \<and>
     C \<union> new_constraints c d \<subseteq> {next_address c..<next_address d} \<and> C \<inter> new_constraints c d = {} \<and>
     addresses (constraint_sets d) = addresses (constraint_sets c) \<union> new_constraints c d \<union> C"

text \<open>What adding collisions does to the solver, whatever it is compared with.\<close>

definition grows :: "'u fsm_controller_scheme \<Rightarrow> 'u fsm_controller_scheme \<Rightarrow> bool" where
  "grows c d \<longleftrightarrow> metaTasks d = metaTasks c \<and> solver_backend d = solver_backend c \<and> posture_tasks d = posture_tasks c \<and>
     next_address c \<le> next_address d \<and> (solver_ok c \<longrightarrow> solver_ok d) \<and>
     (\<forall>c0 C. constraints_hold c0 C c \<longrightarrow> constraints_hold c0 C d)"

lemma constraints_hold_same: "constraints_hold c C d \<Longrightarrow> same_solver d d' \<Longrightarrow> constraints_hold c C d'"
  by (simp add: constraints_hold_def same_solver_def new_constraints_def)

lemma grows_same: "same_solver c d \<Longrightarrow> grows c d"
  using constraints_hold_same by (auto simp: grows_def same_solver_def solver_ok_def)

lemma grows_trans: "grows a b \<Longrightarrow> grows b c \<Longrightarrow> grows a c"
  by (simp add: grows_def)

lemma constraints_hold_registers:
  assumes "constraints_hold c0 C c" "registers key c d"
  shows "constraints_hold c0 C d"
proof -
  let ?new = "\<lambda>d key. if collision_objects (ctl_collisions c0) key = None then collision_objects (ctl_collisions d) key else None"
  have r: "collision_objects (ctl_collisions c) key = None" "next_address d = Suc (next_address c)"
    "constraint_sets d = constraint_sets c @ (if known (new_solver_object c) (constraint_sets c) then [] else [new_solver_object c])"
    "collision_objects (ctl_collisions d) = (collision_objects (ctl_collisions c))(key \<mapsto> new_solver_object c)"
    "address (new_solver_object c) = next_address c"
    using assms(2) by (simp_all add: registers_def new_solver_object_def)
  have "collision_objects (ctl_collisions c0) key = None"
    using assms(1) r(1) unfolding constraints_hold_def by blast
  then have "?new d = (?new c)(key \<mapsto> new_solver_object c)" "?new c key = None"
    using r(1,4) by (auto simp: fun_eq_iff)
  then have new: "new_constraints c0 d = insert (next_address c) (new_constraints c0 c)"
    unfolding new_constraints_ran by (simp add: ran_map_upd r(5))
  moreover have "addresses (constraint_sets d) = insert (next_address c) (addresses (constraint_sets c))"
    using r(3,5) by (auto simp: addresses_def known_def)
  moreover have "next_address c \<notin> C"
    using assms(1) unfolding constraints_hold_def by auto
  moreover have "\<forall>key. collision_objects (ctl_collisions d) key = None \<longrightarrow> collision_objects (ctl_collisions c0) key = None"
    using assms(1) r(4) by (simp add: constraints_hold_def)
  ultimately show ?thesis
    using assms(1) r(2) unfolding constraints_hold_def by auto
qed

lemma grows_registers: "registers key c d \<Longrightarrow> grows c d"
  using constraints_hold_registers [of _ _ c key d] unfolding grows_def
  by (auto simp: registers_def solver_ok_def known_def)

lemma apply_contacts_solver: "apply_contacts op config ctl = Some (Inr ctl') \<Longrightarrow> same_solver ctl ctl'"
  by (auto simp: apply_contacts_def same_solver_def outcome_bind_Inr split: json.splits list.splits)

lemma remove_entry_solver: "remove_collision_entry n g c ctl = Some (Inr ctl') \<Longrightarrow> same_solver ctl ctl'"
  by (auto simp: remove_collision_entry_def same_solver_def outcome_bind_Inr removal_objects split: option.splits prod.splits)

lemma add_entry_solver: "add_collision_entry n g c ctl = Some (Inr ctl') \<Longrightarrow> grows ctl ctl'"
proof -
  assume "add_collision_entry n g c ctl = Some (Inr ctl')"
  then obtain r1 r2 cs where "addCollisions n g r1 r2 cs ctl = Some (Inr ctl')"
    by (auto simp: add_collision_entry_def outcome_bind_Inr split: prod.splits)
  from addCollisions_step [OF this] show "grows ctl ctl'"
    using grows_same grows_registers by blast
qed

lemma apply_collisions_solver:
  assumes "apply_collisions op config ctl = Some (Inr ctl')" "\<And>c a b. op c a = Some (Inr b) \<Longrightarrow> R a b"
    "\<And>a. R a a" "\<And>a b c. R a b \<Longrightarrow> R b c \<Longrightarrow> R a c"
  shows "R ctl ctl'"
proof (cases config)
  case (J_array vs)
  then have "outcome_fold op vs ctl = Some (Inr ctl')"
    using assms(1) by (simp add: apply_collisions_def)
  then show ?thesis
    by (rule outcome_fold_inv [where P = "R ctl"]) (use assms(2-4) in blast)+
qed (use assms(1,3) in \<open>auto simp: apply_collisions_def\<close>)

lemma apply_removals_solver:
  "apply_collisions (remove_collision_entry n g) config ctl = Some (Inr ctl') \<Longrightarrow> same_solver ctl ctl'"
  by (erule apply_collisions_solver) (auto dest: remove_entry_solver intro: same_solver_trans)

lemma apply_additions_solver:
  "apply_collisions (add_collision_entry n g) config ctl = Some (Inr ctl') \<Longrightarrow> grows ctl ctl'"
  by (erule apply_collisions_solver) (auto dest: add_entry_solver intro: grows_same grows_trans)

section \<open>What a state holds while it runs\<close>

text \<open>
  Relative to the solver \<open>ctl0\<close> before the start: the disabled posture tasks are out of the solver, the
  tasks and constraint sets of the state are new, and the solver differs by exactly these and by the
  constraints of collisions between robots that had none.
\<close>

definition holds_relative :: "'u fsm_controller_scheme \<Rightarrow> 'v fsm_state_scheme \<Rightarrow> 'u fsm_controller_scheme \<Rightarrow> bool" where
  "holds_relative ctl0 st ctl \<longleftrightarrow> solver_ok ctl \<and> solver_backend ctl = solver_backend ctl0 \<and>
     posture_tasks ctl = posture_tasks ctl0 \<and> constraints_hold ctl0 (addresses (st_constraints st)) ctl \<and>
     set (st_postures st) \<subseteq> snd ` set (posture_tasks ctl0) \<and>
     addresses (map fst (st_tasks st)) \<subseteq> {next_address ctl0..<next_address ctl} \<and>
     addresses (metaTasks ctl) = (addresses (metaTasks ctl0) - addresses (st_postures st)) \<union> addresses (map fst (st_tasks st)) \<and>
     (\<forall>x\<in>set (st_postures st) \<union> fst ` set (st_tasks st) \<union> set (st_constraints st). object_backend x = solver_backend ctl0)"

text \<open>
  A controller whose solver has each object once and only objects that were created, and whose posture
  tasks were created for the backend of the solver. The posture tasks need not be in the solver.
\<close>

definition controller_ok :: "'u fsm_controller_scheme \<Rightarrow> bool" where
  "controller_ok ctl \<longleftrightarrow> solver_ok ctl \<and>
     (\<forall>a\<in>addresses (metaTasks ctl) \<union> addresses (constraint_sets ctl). a < next_address ctl) \<and>
     (\<forall>pt\<in>snd ` set (posture_tasks ctl). address pt < next_address ctl \<and> object_backend pt = solver_backend ctl)"

lemma holds_grows:
  assumes "holds_relative ctl0 st ctl" "grows ctl ctl'"
  shows "holds_relative ctl0 st ctl'"
proof -
  have "constraints_hold ctl0 (addresses (st_constraints st)) ctl'"
    using assms unfolding holds_relative_def grows_def by blast
  then show ?thesis
    using assms unfolding holds_relative_def grows_def by auto
qed

lemmas holds_same_solver = holds_grows [OF _ grows_same]

lemma constraints_hold_refl: "constraints_hold ctl {} ctl"
proof -
  have "new_constraints ctl ctl = {}" by (simp add: new_constraints_def)
  then show ?thesis by (simp add: constraints_hold_def)
qed

lemma holds_start:
  assumes "controller_ok ctl" "st_postures st = []" "st_tasks st = []" "st_constraints st = []"
  shows "holds_relative ctl st ctl"
  using assms constraints_hold_refl [of ctl] by (simp add: holds_relative_def controller_ok_def addresses_def)

lemma disable_posture_holds:
  assumes "controller_ok ctl0" "holds_relative ctl0 st ctl" "st_tasks st = []" "disable_posture r (st, ctl) = Some (Inr (st', ctl'))"
  shows "holds_relative ctl0 st' ctl' \<and> st_tasks st' = []"
proof (cases "getPostureTask r ctl")
  case None
  with assms show ?thesis by (simp add: disable_posture_def)
next
  case (Some pt)
  have mem: "(r, pt) \<in> set (posture_tasks ctl0)"
    using Some assms(2) by (simp add: getPostureTask_def holds_relative_def map_of_SomeD)
  then have pt: "pt \<in> snd ` set (posture_tasks ctl0)" "object_backend pt = solver_backend ctl0"
    using assms(1) by (force simp: controller_ok_def)+
  have "solver_ok ctl" "object_backend pt = solver_backend ctl"
    using assms(2) pt(2) by (simp_all add: holds_relative_def)
  then obtain ctl1 where r: "removeTask pt ctl = Some (Inr ctl1)" "solver_ok ctl1"
    "addresses (metaTasks ctl1) = addresses (metaTasks ctl) - {address pt}"
    "constraint_sets ctl1 = constraint_sets ctl" "solver_backend ctl1 = solver_backend ctl"
    "posture_tasks ctl1 = posture_tasks ctl" "next_address ctl1 = next_address ctl" "ctl_collisions ctl1 = ctl_collisions ctl"
    using removeTask_ok by blast
  have st': "st' = st\<lparr>st_postures := st_postures st @ [pt]\<rparr>" "ctl' = ctl1"
    using assms(4) Some r(1) by (auto simp: disable_posture_def)
  have "constraints_hold ctl0 (addresses (st_constraints st)) ctl1"
    using assms(2) r(4,7,8) by (simp add: holds_relative_def constraints_hold_def new_constraints_def)
  then show ?thesis
    using assms(2,3) pt r(2-) unfolding st' holds_relative_def by (auto simp: addresses_def)
qed

lemma disable_postures_holds:
  assumes "controller_ok ctl0" "holds_relative ctl0 st ctl" "st_tasks st = []" "disable_postures (st, ctl) = Some (Inr sc')"
  shows "holds_relative ctl0 (fst sc') (snd sc') \<and> st_tasks (fst sc') = []"
proof -
  have "holds_relative ctl0 (fst sc') (snd sc') \<and> st_tasks (fst sc') = []"
    if fold: "outcome_fold disable_posture rs (st, ctl) = Some (Inr sc')" for rs
    using fold
  proof (rule outcome_fold_inv [where P = "\<lambda>sc. holds_relative ctl0 (fst sc) (snd sc) \<and> st_tasks (fst sc) = []"])
    fix r a b
    assume "holds_relative ctl0 (fst a) (snd a) \<and> st_tasks (fst a) = []" "disable_posture r a = Some (Inr b)"
    then show "holds_relative ctl0 (fst b) (snd b) \<and> st_tasks (fst b) = []"
      using disable_posture_holds [OF assms(1), of "fst a" "snd a" r "fst b" "snd b"] by simp
  qed (use assms(2,3) in simp)
  then show ?thesis
    using assms(2-4) by (auto simp: disable_postures_def Let_def outcome_bind_Inr split: if_splits)
qed

lemma constraints_hold_insert:
  assumes "constraints_hold c C d" "ctl_collisions e = ctl_collisions d" "next_address e = Suc (next_address d)"
    "addresses (constraint_sets e) = insert (next_address d) (addresses (constraint_sets d))"
  shows "constraints_hold c (insert (next_address d) C) e"
proof -
  have "new_constraints c e = new_constraints c d" using assms(2) by (simp add: new_constraints_def)
  moreover have "next_address d \<notin> new_constraints c d"
    using assms(1) unfolding constraints_hold_def by auto
  ultimately show ?thesis
    using assms unfolding constraints_hold_def by auto
qed

lemma constraints_hold_later:
  assumes "constraints_hold c C d" "ctl_collisions e = ctl_collisions d" "next_address d \<le> next_address e"
    "constraint_sets e = constraint_sets d"
  shows "constraints_hold c C e"
proof -
  have "new_constraints c e = new_constraints c d" using assms(2) by (simp add: new_constraints_def)
  then show ?thesis
    using assms unfolding constraints_hold_def by auto
qed

lemma start_constraint_holds:
  assumes "controller_ok ctl0" "holds_relative ctl0 st ctl" "start_constraint load c (st, ctl) = Some (Inr (st', ctl'))"
  shows "holds_relative ctl0 st' ctl'"
proof -
  define x where "x b = \<lparr>address = next_address ctl, object_backend = b\<rparr>" for b
  let ?ctl = "ctl\<lparr>next_address := Suc (next_address ctl), context_backend := solver_backend ctl\<rparr>"
  obtain b ctl1 where r: "addConstraintSet (x b) ?ctl = Some (Inr ctl1)"
    and st': "st' = st\<lparr>st_constraints := st_constraints st @ [x b]\<rparr>" "ctl' = ctl1"
    using assms(3) by (auto simp: start_constraint_def Let_def outcome_bind_Inr x_def split: option.splits)
  have b: "object_backend (x b) = solver_backend ?ctl" "solver_ok ?ctl"
    using r assms(2) by (auto simp: addConstraintSet_def holds_relative_def solver_ok_def split: if_splits)
  obtain ctl2 where "addConstraintSet (x b) ?ctl = Some (Inr ctl2)" "solver_ok ctl2"
    "addresses (constraint_sets ctl2) = insert (next_address ctl) (addresses (constraint_sets ctl))"
    "metaTasks ctl2 = metaTasks ctl" "solver_backend ctl2 = solver_backend ctl"
    "posture_tasks ctl2 = posture_tasks ctl" "next_address ctl2 = Suc (next_address ctl)" "ctl_collisions ctl2 = ctl_collisions ctl"
    using addConstraintSet_ok [OF b] by (auto simp: x_def)
  with r have 2: "solver_ok ctl1"
    "addresses (constraint_sets ctl1) = insert (next_address ctl) (addresses (constraint_sets ctl))"
    "metaTasks ctl1 = metaTasks ctl" "solver_backend ctl1 = solver_backend ctl"
    "posture_tasks ctl1 = posture_tasks ctl" "next_address ctl1 = Suc (next_address ctl)" "ctl_collisions ctl1 = ctl_collisions ctl"
    by simp_all
  have bk: "object_backend (x b) = solver_backend ctl0"
    using b(1) assms(2) by (simp add: holds_relative_def)
  have addr: "addresses (st_constraints st @ [x b]) = insert (next_address ctl) (addresses (st_constraints st))"
    by (simp add: addresses_def x_def)
  have "constraints_hold ctl0 (addresses (st_constraints st)) ctl"
    using assms(2) unfolding holds_relative_def by blast
  then have "constraints_hold ctl0 (insert (next_address ctl) (addresses (st_constraints st))) ctl1"
    using 2 by (intro constraints_hold_insert)
  then show ?thesis
    using assms(2) 2 bk unfolding st' holds_relative_def by (auto simp: addr)
qed

lemma start_task_holds:
  assumes "controller_ok ctl0" "holds_relative ctl0 st ctl" "start_task load t (st, ctl) = Some (Inr (st', ctl'))"
  shows "holds_relative ctl0 st' ctl'"
proof -
  define x where "x b = \<lparr>address = next_address ctl, object_backend = b\<rparr>" for b
  let ?ctl = "ctl\<lparr>next_address := Suc (next_address ctl), context_backend := solver_backend ctl\<rparr>"
  obtain b cfg ctl1 where r: "addTask (x b) ?ctl = Some (Inr ctl1)"
    and st': "st' = st\<lparr>st_tasks := st_tasks st @ [(x b, cfg)], tasks_config := store_member (fst t) cfg (tasks_config st)\<rparr>"
      "ctl' = ctl1"
    using assms(3) by (auto simp: start_task_def Let_def outcome_bind_Inr x_def split: option.splits)
  have sub: "addresses (metaTasks ctl) \<subseteq> {..<next_address ctl}"
  proof
    fix a
    assume "a \<in> addresses (metaTasks ctl)"
    then have "a \<in> addresses (metaTasks ctl0) \<or> a \<in> {next_address ctl0..<next_address ctl}"
      using assms(2) unfolding holds_relative_def by blast
    moreover have "a \<in> addresses (metaTasks ctl0) \<Longrightarrow> a < next_address ctl0"
      using assms(1) unfolding controller_ok_def by blast
    moreover have "next_address ctl0 \<le> next_address ctl"
      using assms(2) unfolding holds_relative_def constraints_hold_def by blast
    ultimately show "a \<in> {..<next_address ctl}" by auto
  qed
  then have "\<not> known (x b) (metaTasks ctl)"
    unfolding known_def addresses_def x_def by auto
  then have b: "object_backend (x b) = solver_backend ?ctl" "solver_ok ?ctl"
    using r assms(2) by (simp_all add: addTask_def holds_relative_def solver_ok_def split: if_splits)
  obtain ctl2 where "addTask (x b) ?ctl = Some (Inr ctl2)" "solver_ok ctl2"
    "addresses (metaTasks ctl2) = insert (next_address ctl) (addresses (metaTasks ctl))"
    "constraint_sets ctl2 = constraint_sets ctl" "solver_backend ctl2 = solver_backend ctl"
    "posture_tasks ctl2 = posture_tasks ctl" "next_address ctl2 = Suc (next_address ctl)" "ctl_collisions ctl2 = ctl_collisions ctl"
    using addTask_ok [OF b] by (auto simp: x_def)
  with r have 2: "solver_ok ctl1"
    "addresses (metaTasks ctl1) = insert (next_address ctl) (addresses (metaTasks ctl))"
    "constraint_sets ctl1 = constraint_sets ctl" "solver_backend ctl1 = solver_backend ctl"
    "posture_tasks ctl1 = posture_tasks ctl" "next_address ctl1 = Suc (next_address ctl)" "ctl_collisions ctl1 = ctl_collisions ctl"
    by simp_all
  have bk: "object_backend (x b) = solver_backend ctl0"
    using b(1) assms(2) by (simp add: holds_relative_def)
  have addr: "addresses (map fst (st_tasks st) @ [x b]) = insert (next_address ctl) (addresses (map fst (st_tasks st)))"
    by (simp add: addresses_def x_def)
  have "constraints_hold ctl0 (addresses (st_constraints st)) ctl"
    using assms(2) unfolding holds_relative_def by blast
  then have "constraints_hold ctl0 (addresses (st_constraints st)) ctl1"
    by (rule constraints_hold_later) (simp_all add: 2)
  moreover have "next_address ctl0 \<le> next_address ctl"
    using assms(2) unfolding holds_relative_def constraints_hold_def by blast
  ultimately show ?thesis
    using assms(2) 2 bk unfolding st' holds_relative_def by (auto simp: addr)
qed

lemma start_fold_holds:
  assumes "outcome_fold f xs sc = Some (Inr sc')" "holds_relative ctl0 (fst sc) (snd sc)"
    "\<And>x st ctl st' ctl'. holds_relative ctl0 st ctl \<Longrightarrow> f x (st, ctl) = Some (Inr (st', ctl')) \<Longrightarrow> holds_relative ctl0 st' ctl'"
  shows "holds_relative ctl0 (fst sc') (snd sc')"
  using assms(1,2)
proof (rule outcome_fold_inv [where P = "\<lambda>sc. holds_relative ctl0 (fst sc) (snd sc)"])
  fix x a b
  assume "holds_relative ctl0 (fst a) (snd a)" "f x a = Some (Inr b)"
  then show "holds_relative ctl0 (fst b) (snd b)"
    using assms(3) [of "fst a" "snd a" x "fst b" "snd b"] by simp
qed

text \<open>The overridden members of a state leave the objects of the framework alone.\<close>

definition well_behaved :: "('v fsm_state_scheme, 'u fsm_controller_scheme) state_env \<Rightarrow> bool" where
  "well_behaved env \<longleftrightarrow>
     (\<forall>st ctl. case v_start env st ctl of (st', ctl') \<Rightarrow> same_solver ctl ctl' \<and> st_postures st' = st_postures st \<and>
        st_tasks st' = st_tasks st \<and> st_constraints st' = st_constraints st) \<and>
     (\<forall>st ctl. same_solver ctl (v_teardown env st ctl))"

lemma State_start_holds:
  assumes "controller_ok ctl" "well_behaved env" "st_postures st = []" "st_tasks st = []" "st_constraints st = []"
    "State_start env st ctl = Some (Inr (st', ctl'))"
  shows "holds_relative ctl st' ctl'"
proof -
  obtain c1 c2 c3 c4 sc5 sc6 sc7 where
    1: "apply_contacts removeContact (remove_contacts_config st) ctl = Some (Inr c1)" and
    2: "apply_contacts addContact (add_contacts_config st) c1 = Some (Inr c2)" and
    3: "apply_collisions (remove_collision_entry (env_fuel env) (env_geometry env)) (remove_collisions_config st) c2 = Some (Inr c3)" and
    4: "apply_collisions (add_collision_entry (env_fuel env) (env_geometry env)) (add_collisions_config st) c3 = Some (Inr c4)" and
    5: "disable_postures (st, c4) = Some (Inr sc5)" and
    6: "start_constraints (load_constraint env) sc5 = Some (Inr sc6)" and
    7: "start_tasks (load_task env) sc6 = Some (Inr sc7)" and
    8: "v_start env (fst sc7) (snd sc7) = (st', ctl')"
    using assms(6) unfolding State_start_def by (auto simp: outcome_bind_Inr)
  have "same_solver ctl c3"
    using apply_contacts_solver [OF 1] apply_contacts_solver [OF 2] apply_removals_solver [OF 3]
    by (simp add: same_solver_def)
  then have "holds_relative ctl st c4"
    using holds_start [OF assms(1,3-5)] holds_same_solver holds_grows apply_additions_solver [OF 4] by blast
  then have h5: "holds_relative ctl (fst sc5) (snd sc5)"
    using disable_postures_holds [OF assms(1) _ assms(4) 5] by blast
  have h6: "holds_relative ctl (fst sc6) (snd sc6)"
  proof (cases "config_empty (constraints_config (fst sc5))")
    case True
    with 6 h5 show ?thesis by (simp add: start_constraints_def)
  next
    case False
    then obtain cs where "outcome_fold (start_constraint (load_constraint env)) cs sc5 = Some (Inr sc6)"
      using 6 by (auto simp: start_constraints_def outcome_bind_Inr)
    then show ?thesis
      by (rule start_fold_holds [OF _ h5]) (rule start_constraint_holds [OF assms(1)])
  qed
  have h7: "holds_relative ctl (fst sc7) (snd sc7)"
  proof (cases "config_empty (tasks_config (fst sc6))")
    case True
    with 7 h6 show ?thesis by (simp add: start_tasks_def)
  next
    case False
    then obtain ts where "outcome_fold (start_task (load_task env)) ts sc6 = Some (Inr sc7)"
      using 7 by (auto simp: start_tasks_def outcome_bind_Inr)
    then show ?thesis
      by (rule start_fold_holds [OF _ h6]) (rule start_task_holds [OF assms(1)])
  qed
  have "same_solver (snd sc7) ctl'" "st_postures st' = st_postures (fst sc7)" "st_tasks st' = st_tasks (fst sc7)"
    "st_constraints st' = st_constraints (fst sc7)"
    using assms(2) 8 unfolding well_behaved_def by (metis (mono_tags, lifting) case_prod_conv)+
  then show ?thesis
    using holds_same_solver [OF h7] by (simp add: holds_relative_def)
qed

section \<open>Teardown\<close>

lemma fold_solver:
  assumes "\<And>x ctl. x \<in> set xs \<Longrightarrow> solver_ok ctl \<Longrightarrow> solver_backend ctl = b \<Longrightarrow>
    \<exists>ctl'. f x ctl = Some (Inr ctl') \<and> solver_ok ctl' \<and> solver_backend ctl' = b \<and> A ctl' = g (address x) (A ctl) \<and> B ctl' = B ctl"
    "solver_ok ctl" "solver_backend ctl = b"
  shows "\<exists>ctl'. outcome_fold f xs ctl = Some (Inr ctl') \<and> solver_ok ctl' \<and> solver_backend ctl' = b \<and>
    A ctl' = fold g (map address xs) (A ctl) \<and> B ctl' = B ctl"
  using assms
proof (induction xs arbitrary: ctl)
  case (Cons x xs)
  obtain ctl1 where 1: "f x ctl = Some (Inr ctl1)" "solver_ok ctl1" "solver_backend ctl1 = b"
    "A ctl1 = g (address x) (A ctl)" "B ctl1 = B ctl"
    using Cons.prems(1) [of x ctl] Cons.prems(2,3) by auto
  moreover have "\<exists>ctl'. outcome_fold f xs ctl1 = Some (Inr ctl') \<and> solver_ok ctl' \<and> solver_backend ctl' = b \<and>
    A ctl' = fold g (map address xs) (A ctl1) \<and> B ctl' = B ctl1"
    by (rule Cons.IH) (use Cons.prems(1) 1 in auto)
  ultimately show ?case by auto
qed simp

lemma fold_insert_set: "fold insert as S = set as \<union> S"
  by (induction as arbitrary: S) auto

lemma fold_delete_set: "fold (\<lambda>a S. S - {a}) as S = S - set as"
  by (induction as arbitrary: S) auto

text \<open>The three loops over objects of the state never fail.\<close>

lemma teardown_postures:
  assumes "solver_ok ctl" "\<forall>x\<in>set xs. object_backend x = solver_backend ctl"
  shows "\<exists>ctl'. outcome_fold addTask xs ctl = Some (Inr ctl') \<and> solver_ok ctl' \<and> solver_backend ctl' = solver_backend ctl \<and>
    addresses (metaTasks ctl') = addresses xs \<union> addresses (metaTasks ctl) \<and>
    (constraint_sets ctl', next_address ctl', ctl_collisions ctl') = (constraint_sets ctl, next_address ctl, ctl_collisions ctl)"
proof -
  have step: "\<exists>c'. addTask x c = Some (Inr c') \<and> solver_ok c' \<and> solver_backend c' = solver_backend ctl \<and>
      addresses (metaTasks c') = insert (address x) (addresses (metaTasks c)) \<and>
      (constraint_sets c', next_address c', ctl_collisions c') = (constraint_sets c, next_address c, ctl_collisions c)"
    if "x \<in> set xs" "solver_ok c" "solver_backend c = solver_backend ctl" for x and c :: "'a fsm_controller_scheme"
  proof -
    have "object_backend x = solver_backend c" using assms(2) that by simp
    from addTask_ok [OF this that(2)] show ?thesis using that(3) by auto
  qed
  show ?thesis
    using fold_solver [of xs "solver_backend ctl" addTask "\<lambda>c. addresses (metaTasks c)" insert
        "\<lambda>c. (constraint_sets c, next_address c, ctl_collisions c)" ctl, OF step assms(1) refl]
    unfolding fold_insert_set set_map addresses_def .
qed

lemma teardown_constraints:
  assumes "solver_ok ctl" "\<forall>x\<in>set xs. object_backend x = solver_backend ctl"
  shows "\<exists>ctl'. outcome_fold removeConstraintSet xs ctl = Some (Inr ctl') \<and> solver_ok ctl' \<and> solver_backend ctl' = solver_backend ctl \<and>
    addresses (constraint_sets ctl') = addresses (constraint_sets ctl) - addresses xs \<and>
    (metaTasks ctl', ctl_collisions ctl') = (metaTasks ctl, ctl_collisions ctl)"
proof -
  have step: "\<exists>c'. removeConstraintSet x c = Some (Inr c') \<and> solver_ok c' \<and> solver_backend c' = solver_backend ctl \<and>
      addresses (constraint_sets c') = addresses (constraint_sets c) - {address x} \<and>
      (metaTasks c', ctl_collisions c') = (metaTasks c, ctl_collisions c)"
    if "x \<in> set xs" "solver_ok c" "solver_backend c = solver_backend ctl" for x and c :: "'a fsm_controller_scheme"
  proof -
    have "object_backend x = solver_backend c" using assms(2) that by simp
    from removeConstraintSet_ok [OF this that(2)] show ?thesis using that(3) by auto
  qed
  show ?thesis
    using fold_solver [of xs "solver_backend ctl" removeConstraintSet "\<lambda>c. addresses (constraint_sets c)" "\<lambda>a S. S - {a}"
        "\<lambda>c. (metaTasks c, ctl_collisions c)" ctl, OF step assms(1) refl]
    unfolding fold_delete_set set_map addresses_def .
qed

lemma teardown_tasks:
  assumes "solver_ok ctl" "\<forall>x\<in>fst ` set ts. object_backend x = solver_backend ctl"
  shows "\<exists>ctl'. outcome_fold (\<lambda>t. removeTask (fst t)) ts ctl = Some (Inr ctl') \<and> solver_ok ctl' \<and> solver_backend ctl' = solver_backend ctl \<and>
    addresses (metaTasks ctl') = addresses (metaTasks ctl) - addresses (map fst ts) \<and>
    (constraint_sets ctl', ctl_collisions ctl') = (constraint_sets ctl, ctl_collisions ctl)"
proof -
  have map: "outcome_fold (\<lambda>t. removeTask (fst t)) ts ctl = outcome_fold removeTask (map fst ts) ctl" for ctl
    by (induction ts arbitrary: ctl) (simp_all add: outcome_bind_def split: option.splits sum.splits)
  have step: "\<exists>c'. removeTask x c = Some (Inr c') \<and> solver_ok c' \<and> solver_backend c' = solver_backend ctl \<and>
      addresses (metaTasks c') = addresses (metaTasks c) - {address x} \<and>
      (constraint_sets c', ctl_collisions c') = (constraint_sets c, ctl_collisions c)"
    if "x \<in> set (map fst ts)" "solver_ok c" "solver_backend c = solver_backend ctl" for x and c :: "'a fsm_controller_scheme"
  proof -
    have "object_backend x = solver_backend c" using assms(2) that by auto
    from removeTask_ok [OF this that(2)] show ?thesis using that(3) by auto
  qed
  show ?thesis
    unfolding map
    using fold_solver [of "map fst ts" "solver_backend ctl" removeTask "\<lambda>c. addresses (metaTasks c)" "\<lambda>a S. S - {a}"
        "\<lambda>c. (constraint_sets c, ctl_collisions c)" ctl, OF step assms(1) refl]
    unfolding fold_delete_set set_map addresses_def .
qed

text \<open>A state without \<open>After\<close> entries.\<close>

definition no_after_entries :: "'v fsm_state_scheme \<Rightarrow> bool" where
  "no_after_entries st \<longleftrightarrow> config_size (remove_contacts_after_config st) = 0 \<and> config_size (add_contacts_after_config st) = 0 \<and>
     config_size (remove_collisions_after_config st) = 0 \<and> config_size (add_collisions_after_config st) = 0"

lemma apply_nothing:
  "config_size config = 0 \<Longrightarrow> apply_contacts op config ctl = Some (Inr ctl)"
  "config_size config = 0 \<Longrightarrow> apply_collisions op' config ctl = Some (Inr ctl)"
  by (cases config; simp add: config_size_def apply_contacts_def apply_collisions_def)+

lemma State_teardown_restores:
  assumes "holds_relative ctl0 st ctl" "controller_ok ctl0" "well_behaved env" "State_teardown env st ctl = Some (Inr ctl')"
  shows "addresses (metaTasks ctl') = addresses (metaTasks ctl0) \<union> addresses (st_postures st) \<and>
    addresses (constraint_sets ctl') = addresses (constraint_sets ctl0) \<union> new_constraints ctl0 ctl'"
proof -
  let ?P = "addresses (st_postures st)" and ?C = "addresses (st_constraints st)" and ?T = "addresses (map fst (st_tasks st))"
  have h: "solver_ok ctl" "\<forall>x\<in>set (st_postures st). object_backend x = solver_backend ctl"
    "\<forall>x\<in>set (st_constraints st). object_backend x = solver_backend ctl"
    "\<forall>x\<in>fst ` set (st_tasks st). object_backend x = solver_backend ctl"
    "addresses (metaTasks ctl) = (addresses (metaTasks ctl0) - ?P) \<union> ?T" "constraints_hold ctl0 ?C ctl"
    using assms(1) unfolding holds_relative_def by auto
  obtain d0 d1 d2 d3 d4 d5 d6 where
    0: "outcome_fold addTask (st_postures st) ctl = Some (Inr d0)" and
    1: "apply_contacts removeContact (remove_contacts_after_config st) d0 = Some (Inr d1)" and
    2: "apply_contacts addContact (add_contacts_after_config st) d1 = Some (Inr d2)" and
    3: "apply_collisions (remove_collision_entry (env_fuel env) (env_geometry env)) (remove_collisions_after_config st) d2 = Some (Inr d3)" and
    4: "apply_collisions (add_collision_entry (env_fuel env) (env_geometry env)) (add_collisions_after_config st) d3 = Some (Inr d4)" and
    5: "outcome_fold removeConstraintSet (st_constraints st) d4 = Some (Inr d5)" and
    6: "outcome_fold (\<lambda>t. removeTask (fst t)) (st_tasks st) d5 = Some (Inr d6)" and
    7: "ctl' = v_teardown env st d6"
    using assms(4) unfolding State_teardown_def by (auto simp: outcome_bind_Inr)
  have "grows d0 d3"
    using apply_contacts_solver [OF 1] apply_contacts_solver [OF 2] apply_removals_solver [OF 3]
    by (meson grows_same same_solver_trans)
  then have g: "grows d0 d4"
    using apply_additions_solver [OF 4] grows_trans by blast
  have d0: "solver_ok d0" "solver_backend d0 = solver_backend ctl" "addresses (metaTasks d0) = ?P \<union> addresses (metaTasks ctl)"
    "constraint_sets d0 = constraint_sets ctl" "next_address d0 = next_address ctl" "ctl_collisions d0 = ctl_collisions ctl"
    using teardown_postures [OF h(1,2)] 0 by auto
  then have "constraints_hold ctl0 ?C d0"
    by (intro constraints_hold_later [OF h(6)]) simp_all
  with g d0 have d4: "solver_ok d4" "solver_backend d4 = solver_backend ctl" "addresses (metaTasks d4) = ?P \<union> addresses (metaTasks ctl)"
    "constraints_hold ctl0 ?C d4"
    unfolding grows_def by auto
  have d5: "solver_ok d5" "solver_backend d5 = solver_backend ctl"
    "addresses (constraint_sets d5) = addresses (constraint_sets d4) - ?C" "metaTasks d5 = metaTasks d4" "ctl_collisions d5 = ctl_collisions d4"
    using teardown_constraints [OF d4(1), of "st_constraints st"] h(3) d4(2) 5 by auto
  have d6: "addresses (metaTasks d6) = addresses (metaTasks d5) - ?T" "constraint_sets d6 = constraint_sets d5"
    "ctl_collisions d6 = ctl_collisions d5"
    using teardown_tasks [OF d5(1), of "st_tasks st"] h(4) d5(2) 6 by auto
  have "same_solver d6 ctl'"
    using assms(3) 7 by (simp add: well_behaved_def)
  then have after: "addresses (metaTasks ctl') = (?P \<union> ((addresses (metaTasks ctl0) - ?P) \<union> ?T)) - ?T"
    "addresses (constraint_sets ctl') = addresses (constraint_sets d4) - ?C" "new_constraints ctl0 ctl' = new_constraints ctl0 d4"
    using d6 d5(3-5) d4(3) h(5) by (simp_all add: same_solver_def new_constraints_def)
  have old: "\<forall>a\<in>addresses (metaTasks ctl0) \<union> addresses (constraint_sets ctl0) \<union> ?P. a < next_address ctl0"
  proof -
    have "set (st_postures st) \<subseteq> snd ` set (posture_tasks ctl0)"
      using assms(1) unfolding holds_relative_def by blast
    moreover have "\<forall>pt\<in>snd ` set (posture_tasks ctl0). address pt < next_address ctl0"
      using assms(2) unfolding controller_ok_def by blast
    ultimately have "\<forall>x\<in>set (st_postures st). address x < next_address ctl0" by blast
    then have "\<forall>a\<in>?P. a < next_address ctl0" by (simp add: addresses_def)
    moreover have "\<forall>a\<in>addresses (metaTasks ctl0) \<union> addresses (constraint_sets ctl0). a < next_address ctl0"
      using assms(2) unfolding controller_ok_def by blast
    ultimately show ?thesis unfolding ball_Un by blast
  qed
  have new: "\<forall>a\<in>?T \<union> ?C. next_address ctl0 \<le> a"
    using assms(1) unfolding holds_relative_def constraints_hold_def by (auto dest!: subsetD)
  have cs: "addresses (constraint_sets d4) = addresses (constraint_sets ctl0) \<union> new_constraints ctl0 d4 \<union> ?C" "?C \<inter> new_constraints ctl0 d4 = {}"
    using d4(4) unfolding constraints_hold_def by blast+
  have "(addresses (metaTasks ctl0) \<union> addresses (constraint_sets ctl0) \<union> ?P) \<inter> (?T \<union> ?C) = {}"
    using old new by (meson disjoint_iff linorder_not_le)
  then show ?thesis
    unfolding after cs(1) using cs(2) by blast
qed

lemma State_teardown_returns:
  assumes "holds_relative ctl0 st ctl" "no_after_entries st"
  shows "\<exists>ctl'. State_teardown env st ctl = Some (Inr ctl')"
proof -
  have h: "solver_ok ctl" "\<forall>x\<in>set (st_postures st). object_backend x = solver_backend ctl"
    "\<forall>x\<in>set (st_constraints st). object_backend x = solver_backend ctl"
    "\<forall>x\<in>fst ` set (st_tasks st). object_backend x = solver_backend ctl"
    using assms(1) unfolding holds_relative_def by auto
  obtain d0 where 0: "outcome_fold addTask (st_postures st) ctl = Some (Inr d0)" "solver_ok d0" "solver_backend d0 = solver_backend ctl"
    using teardown_postures [OF h(1,2)] by blast
  obtain d5 where 5: "outcome_fold removeConstraintSet (st_constraints st) d0 = Some (Inr d5)" "solver_ok d5"
    "solver_backend d5 = solver_backend ctl"
    using teardown_constraints [OF 0(2), of "st_constraints st"] h(3) 0(3) by auto
  obtain d6 where 6: "outcome_fold (\<lambda>t. removeTask (fst t)) (st_tasks st) d5 = Some (Inr d6)"
    using teardown_tasks [OF 5(2), of "st_tasks st"] h(4) 5(3) by auto
  show ?thesis
    using assms(2) 0(1) 5(1) 6 by (simp add: State_teardown_def apply_nothing no_after_entries_def)
qed

section \<open>Configuration of a state\<close>

lemma config_fold_keeps:
  assumes "config_fold fs st = Inr st'" "\<And>f st st'. f \<in> set fs \<Longrightarrow> f st = Inr st' \<Longrightarrow> get st' = get st"
  shows "get st' = get st"
  using assms
proof (induction fs arbitrary: st)
  case (Cons f fs)
  then obtain st1 where "f st = Inr st1" "config_fold fs st1 = Inr st'"
    by (auto split: sum.splits)
  with Cons show ?case by (metis list.set_intros)
qed simp

lemma config_fold_append:
  "config_fold (fs @ gs) st = (case config_fold fs st of Inl err \<Rightarrow> Inl err | Inr st \<Rightarrow> config_fold gs st)"
  by (induction fs arbitrary: st) (auto split: sum.splits)

lemma load_entry_config:
  assumes "load_entry config key get put st = Inr st'" "\<And>v st. st_config (put v st) = st_config st"
  shows "st_config st' = st_config st"
  using assms by (auto simp: load_entry_def split: if_splits sum.splits)

text \<open>\<open>configure_\<close> merges the whole configuration into the one the state keeps.\<close>

lemma configure_all_config:
  assumes "State_configure_all State_configure config st = Inr st'"
  shows "config_load (st_config st) config = Inr (st_config st')"
proof -
  obtain st1 where fold: "State_configure config st1 = Inr st'" "st_config st1 = st_config st"
  proof -
    let ?loads = "[load_entry config ''RemoveContacts'' remove_contacts_config (\<lambda>v st. st\<lparr>remove_contacts_config := v\<rparr>),
        load_entry config ''AddContacts'' add_contacts_config (\<lambda>v st. st\<lparr>add_contacts_config := v\<rparr>),
        load_entry config ''RemoveContactsAfter'' remove_contacts_after_config (\<lambda>v st. st\<lparr>remove_contacts_after_config := v\<rparr>),
        load_entry config ''AddContactsAfter'' add_contacts_after_config (\<lambda>v st. st\<lparr>add_contacts_after_config := v\<rparr>),
        load_entry config ''RemoveCollisions'' remove_collisions_config (\<lambda>v st. st\<lparr>remove_collisions_config := v\<rparr>),
        load_entry config ''AddCollisions'' add_collisions_config (\<lambda>v st. st\<lparr>add_collisions_config := v\<rparr>),
        load_entry config ''RemoveCollisionsAfter'' remove_collisions_after_config (\<lambda>v st. st\<lparr>remove_collisions_after_config := v\<rparr>),
        load_entry config ''AddCollisionsAfter'' add_collisions_after_config (\<lambda>v st. st\<lparr>add_collisions_after_config := v\<rparr>),
        load_entry config ''constraints'' constraints_config (\<lambda>v st. st\<lparr>constraints_config := v\<rparr>),
        load_entry config ''tasks'' tasks_config (\<lambda>v st. st\<lparr>tasks_config := v\<rparr>),
        load_entry config ''RemovePostureTask'' remove_posture_task (\<lambda>v st. st\<lparr>remove_posture_task := v\<rparr>),
        load_entry config ''DisablePostureTask'' remove_posture_task (\<lambda>v st. st\<lparr>remove_posture_task := v\<rparr>)]"
    have "config_fold (?loads @ [State_configure config]) st = Inr st'"
      using assms unfolding State_configure_all_def append.simps .
    then obtain st1 where 1: "config_fold ?loads st = Inr st1" "State_configure config st1 = Inr st'"
      unfolding config_fold_append by (auto split: sum.splits)
    have "st_config st1 = st_config st"
      using 1(1) by (rule config_fold_keeps) (auto dest!: load_entry_config)
    with 1(2) that show thesis by blast
  qed
  then show ?thesis
    by (auto simp: State_configure_def split: sum.splits)
qed

lemma configure_all_Some:
  assumes "configure_all api cfgs r = Inr (Some st)"
  obtains st1 where "r = Inr (Some st1)" "configure_all api cfgs (Inr (Some st1)) = Inr (Some st)"
proof -
  have err: "fold (\<lambda>(n, cfg). configure_ptr api n cfg) cs (Inl er) = Inl er" for cs er
    by (induction cs) (auto simp: configure_ptr_def)
  have "r \<noteq> Inl er" for er
    using assms by (auto simp: configure_all_def err)
  moreover have "r \<noteq> Inr None"
    using assms by (cases cfgs) (auto simp: configure_all_def configure_ptr_def err)
  ultimately show thesis
    using assms that by (metis not_None_eq sumE)
qed

text \<open>Configuring along a chain: the last state that sets a path decides.\<close>

lemma configure_chain_wf:
  assumes "configure api = State_configure_all State_configure"
    "configure_all api cfgs (Inr (Some st0)) = Inr (Some st)" "json_wf (st_config st0)" "IsObject (st_config st0)"
    "\<forall>(n, d)\<in>set cfgs. json_wf d \<and> IsObject d \<and> merge_names d"
  shows "json_wf (st_config st) \<and> IsObject (st_config st) \<and>
    ((\<forall>(n, d)\<in>set cfgs. untouched d p) \<longrightarrow> config_find_path (st_config st) p = config_find_path (st_config st0) p)"
  using assms(2-)
proof (induction cfgs arbitrary: st0)
  case (Cons e cfgs)
  obtain n d where e: "e = (n, d)" by fastforce
  have d: "json_wf d" "IsObject d" "merge_names d" using Cons.prems(4) e by auto
  obtain st1 where 1: "configure api d st0 = Inr st1" "configure_all api cfgs (Inr (Some st1)) = Inr (Some st)"
  proof -
    have "configure_all api cfgs (configure_ptr api n d (Inr (Some st0))) = Inr (Some st)"
      using Cons.prems(1) e by (simp add: configure_all_def)
    then show thesis
      by (rule configure_all_Some) (use that in \<open>auto simp: configure_ptr_def split: sum.splits\<close>)
  qed
  have load: "config_load (st_config st0) d = Inr (st_config st1)"
    using 1(1) assms(1) configure_all_config by metis
  have wf: "json_wf (st_config st1)" "IsObject (st_config st1)"
    using load_objects [OF Cons.prems(2) d(1) Cons.prems(3) d(2,3)] load by auto
  have "untouched d p \<Longrightarrow> config_find_path (st_config st1) p = config_find_path (st_config st0) p"
    using load_path_target [OF Cons.prems(2) d(1) Cons.prems(3) d(2,3) load] by blast
  then show ?case
    using Cons.IH [OF 1(2) wf] Cons.prems(4) e by auto
qed (simp add: configure_all_def)

lemma configure_all_append:
  "configure_all api (xs @ ys) r = configure_all api ys (configure_all api xs r)"
  by (simp add: configure_all_def)

lemma chain_config:
  assumes "configure api = State_configure_all State_configure"
    "configure_all api (cs1 @ (n, c) # cs2) (Inr (Some st0)) = Inr (Some st)" "st_config st0 = J_object []"
    "\<forall>(n, d)\<in>set (cs1 @ (n, c) # cs2). json_wf d \<and> IsObject d \<and> merge_names d"
    "config_find_path c p = Some x" "\<not> IsObject x" "\<forall>(n, d)\<in>set cs2. untouched d p"
  shows "config_find_path (st_config st) p = Some x"
proof -
  obtain st1 where 1: "configure_all api cs1 (Inr (Some st0)) = Inr (Some st1)"
    and 2: "configure_all api ((n, c) # cs2) (Inr (Some st1)) = Inr (Some st)"
    using assms(2) unfolding configure_all_append by (rule configure_all_Some)
  have 0: "json_wf (st_config st0)" "IsObject (st_config st0)" using assms(3) by simp_all
  have w1: "json_wf (st_config st1)" "IsObject (st_config st1)"
    using configure_chain_wf [OF assms(1) 1 0] assms(4) by auto
  have "configure_all api [(n, c)] (Inr (Some st1)) = configure_ptr api n c (Inr (Some st1))"
    by (simp add: configure_all_def)
  moreover have "configure_all api cs2 (configure_all api [(n, c)] (Inr (Some st1))) = Inr (Some st)"
    using 2 configure_all_append [of api "[(n, c)]" cs2] by simp
  ultimately obtain st2 where 3: "configure api c st1 = Inr st2" "configure_all api cs2 (Inr (Some st2)) = Inr (Some st)"
    by (auto elim!: configure_all_Some simp: configure_ptr_def split: sum.splits)
  have load: "config_load (st_config st1) c = Inr (st_config st2)"
    using 3(1) assms(1) configure_all_config by metis
  have c: "json_wf c" "IsObject c" "merge_names c" using assms(4) by auto
  have w2: "json_wf (st_config st2)" "IsObject (st_config st2)"
    using load_objects [OF w1(1) c(1) w1(2) c(2,3)] load by auto
  have "config_find_path (st_config st2) p = Some x"
    using load_path_source [OF w1(1) c(1) w1(2) c(2,3) load assms(5,6)] .
  then show ?thesis
    using configure_chain_wf [OF assms(1) 3(2) w2, of p] assms(4,7) by auto
qed

end
