(* ===== verification/Fsm_Properties.thy ===== *)
theory Fsm_Properties
  imports Fsm_Executor_Correct Fsm_State_Correct Mc_Contacts_Correct
begin

text \<open>
  The properties of the FSM layer: the state factory, the transition map, the executor, the shared
  part of states, and the contacts and collisions of a controller, each with a concrete instance.
\<close>

section \<open>A small library of states\<close>

text \<open>States that count their configurations and complete at once; the controller counts starts.\<close>

definition sample_api :: "(nat, nat) state_api" where
  "sample_api =
     \<lparr>new_object = (\<lambda>cn arg. Some 0), set_name = (\<lambda>n x. x), configure = (\<lambda>cfg x. Inr (Suc x)),
      start = (\<lambda>x c. (x, Suc c)), run_state = (\<lambda>x c. (True, x, c)), output_state = (\<lambda>x. ''OK''),
      stop_state = (\<lambda>x c. (x, c)), teardown_state = (\<lambda>x c. c)\<rparr>"

definition sample_factory :: state_factory where
  "sample_factory =
     \<lparr>factory_handles = [''A'', ''B''], factory_callbacks = [], factory_states = [''A'', ''B''], factory_configurations = []\<rparr>"

definition sample_env :: "(nat, nat) fsm_env" where
  "sample_env = \<lparr>env_api = sample_api, env_factory = sample_factory, env_resetPostures = (\<lambda>c. c)\<rparr>"

definition sample_fsm :: json where
  "sample_fsm = J_object [(''StepByStep'', J_bool False), (''init'', J_string ''A''),
     (''transitions'', J_array [J_array [J_string ''A'', J_string ''OK'', J_string ''B'']])]"

lemma sample_factory_ok: "factory_ok sample_factory"
proof -
  have "hasState sample_factory s \<Longrightarrow> \<exists>b. buildable sample_factory s b" for s
    using buildable.from_class [of sample_factory s]
    by (auto simp: hasState_def has_object_def sample_factory_def)
  moreover have "has_object sample_factory s \<Longrightarrow> hasState sample_factory s" for s
    by (auto simp: hasState_def has_object_def sample_factory_def)
  ultimately show ?thesis by (auto simp: factory_ok_def)
qed

lemma sample_reliable: "reliable sample_env"
  using sample_factory_ok by (simp add: reliable_def sample_env_def sample_api_def)

section \<open>State factory\<close>

text \<open>C14: loading a set of state declarations, from a configuration or from files, never throws when the
  declared names are new and distinct; it keeps every state that was known, leaves only states that can
  be created, and loads exactly the declared states whose chain of bases can be completed, whatever
  the order of the declarations.\<close>

theorem factory_load_resolves:
  assumes "pending_ok f us"
  shows "(declared_states m = us \<longrightarrow> (\<exists>f'. load_states False m f = Inr f' \<and> factory_ok f' \<and> extends f f' \<and>
      (\<forall>u\<in>set us. loaded f' u \<longleftrightarrow> derives f (set us) (ud_base u)))) \<and>
    (path_states fs files = Some us \<longrightarrow> (\<exists>f'. load_files False fs files f = Inr f' \<and> factory_ok f' \<and> extends f f' \<and>
      (\<forall>u\<in>set us. loaded f' u \<longleftrightarrow> derives f (set us) (ud_base u))))"
proof -
  have spec: "factory_ok f' \<and> extends f f' \<and> (\<forall>u\<in>set us. loaded f' u \<longleftrightarrow> derives f (set us) (ud_base u))"
    if r: "resolves f us f' rest" "stuck f' rest" for f' rest
    using r resolves_exactly [OF assms r] unfolding resolves_def pending_ok_def by blast
  show ?thesis
  proof (intro conjI impI)
    assume "declared_states m = us"
    then obtain f' rest where "load_states False m f = Inr f'" "resolves f us f' rest" "stuck f' rest"
      using load_states_ok [of f m] assms by blast
    then show "\<exists>f'. load_states False m f = Inr f' \<and> factory_ok f' \<and> extends f f' \<and>
      (\<forall>u\<in>set us. loaded f' u \<longleftrightarrow> derives f (set us) (ud_base u))"
      using spec by blast
  next
    assume "path_states fs files = Some us"
    then obtain f' rest where "load_files False fs files f = Inr f'" "resolves f us f' rest" "stuck f' rest"
      using load_files_ok [of fs files us f] assms by blast
    then show "\<exists>f'. load_files False fs files f = Inr f' \<and> factory_ok f' \<and> extends f f' \<and>
      (\<forall>u\<in>set us. loaded f' u \<longleftrightarrow> derives f (set us) (ud_base u))"
      using spec by blast
  qed
qed

definition sample_declarations :: "(string \<times> json) list" where
  "sample_declarations =
     [(''X'', J_object [(''base'', J_string ''Y'')]), (''Y'', J_object [(''base'', J_string ''A'')]),
      (''Z'', J_object [(''base'', J_string ''Q'')])]"

lemma sample_declared:
  "declared_states sample_declarations =
     [\<lparr>ud_name = ''X'', ud_base = ''Y'', ud_config = J_object [(''base'', J_string ''Y'')]\<rparr>,
      \<lparr>ud_name = ''Y'', ud_base = ''A'', ud_config = J_object [(''base'', J_string ''A'')]\<rparr>,
      \<lparr>ud_name = ''Z'', ud_base = ''Q'', ud_config = J_object [(''base'', J_string ''Q'')]\<rparr>]"
  by (simp add: declared_states_def sample_declarations_def config_or_def config_call_def config_find_def FindMember_def to_string_def)

theorem factory_load_resolves_witness:
  "\<exists>f'. load_states False sample_declarations sample_factory = Inr f' \<and>
     loaded f' (declared_states sample_declarations ! 0) \<and> loaded f' (declared_states sample_declarations ! 1)"
proof -
  let ?us = "declared_states sample_declarations"
  have ok: "pending_ok sample_factory ?us"
    using sample_factory_ok by (simp add: pending_ok_def sample_declared hasState_def sample_factory_def)
  obtain f' where f': "load_states False sample_declarations sample_factory = Inr f'"
    "\<forall>u\<in>set ?us. loaded f' u \<longleftrightarrow> derives sample_factory (set ?us) (ud_base u)"
    using factory_load_resolves [OF ok, of sample_declarations] by blast
  have "derives sample_factory (set ?us) ''A''"
    by (rule derives.known) (simp add: hasState_def sample_factory_def)
  then have A: "derives sample_factory (set ?us) (ud_base (?us ! 1))"
    by (simp add: sample_declared)
  then have "derives sample_factory (set ?us) (ud_name (?us ! 1))"
    by (rule derives.declared [rotated]) (simp add: sample_declared)
  then have "derives sample_factory (set ?us) (ud_base (?us ! 0))"
    by (simp add: sample_declared)
  with A f' show ?thesis by (simp add: sample_declared)
qed

text \<open>C25: creating a known state returns; it instantiates the class or loader at the root of the chain
  of bases, gives the object the requested name and configures it with the configurations of the
  chain from the root to the requested state. An unknown state gives a null pointer.\<close>

theorem factory_create_chain:
  assumes "factory_ok f"
  shows "if hasState f s then \<exists>root arg cfgs. buildable f s (root, arg, cfgs) \<and>
      (\<forall>api name. create_named api f s name = Some (configure_all api cfgs (create_object api root arg name)))
    else \<forall>api name. create_named api f s name = Some (Inr None)"
proof (cases "hasState f s")
  case True
  then obtain root arg cfgs where b: "buildable f s (root, arg, cfgs)"
    using assms by (metis factory_ok_def prod.exhaust)
  then show ?thesis
    using True create_buildable [OF b refl] by auto
qed (simp add: create_named.simps)

theorem factory_create_chain_witness:
  "\<exists>root arg cfgs. buildable sample_factory ''A'' (root, arg, cfgs) \<and>
     (\<forall>name. create_named sample_api sample_factory ''A'' name = Some (configure_all sample_api cfgs (create_object sample_api root arg name)))"
proof -
  have "hasState sample_factory ''A''" by (simp add: hasState_def sample_factory_def)
  then show ?thesis
    using factory_create_chain [OF sample_factory_ok, of "''A''", where ?'a = nat and ?'b = nat]
    unfolding if_P [OF \<open>hasState sample_factory ''A''\<close>] by blast
qed

text \<open>
  In a static build a state can be replaced by one based on its own descendant; creating it then
  never returns.
\<close>

lemma static_reload_diverges:
  "\<exists>f1 f2 f3. load_state True ''P'' ''A'' c1 sample_factory = Inr f1 \<and> load_state True ''Q'' ''P'' c2 f1 = Inr f2 \<and>
     load_state True ''P'' ''Q'' c3 f2 = Inr f3 \<and> create_named api f3 ''P'' name = None"
proof -
  let ?c = "\<lambda>b c. \<lparr>sc_base = b, sc_arg = '''', sc_config = c\<rparr>"
  let ?f1 = "sample_factory\<lparr>factory_states := [''A'', ''B'', ''P''], factory_configurations := [(''P'', ?c ''A'' c1)]\<rparr>"
  let ?f2 = "sample_factory\<lparr>factory_states := [''A'', ''B'', ''P'', ''Q''],
    factory_configurations := [(''P'', ?c ''A'' c1), (''Q'', ?c ''P'' c2)]\<rparr>"
  let ?f3 = "sample_factory\<lparr>factory_states := [''A'', ''B'', ''Q'', ''P''],
    factory_configurations := [(''P'', ?c ''Q'' c3), (''Q'', ?c ''P'' c2)]\<rparr>"
  note d = load_state_def find_base_def hasState_def sample_factory_def Let_def
  have "load_state True ''P'' ''A'' c1 sample_factory = Inr ?f1" "load_state True ''Q'' ''P'' c2 ?f1 = Inr ?f2"
    "load_state True ''P'' ''Q'' c3 ?f2 = Inr ?f3"
    by (simp_all add: d)
  moreover have "create_named api ?f3 ''P'' name = None"
    by (rule create_cycle [where b = "''Q''" and ca = "?c ''Q'' c3" and cb = "?c ''P'' c2"])
      (simp_all add: hasState_def has_object_def sample_factory_def)
  ultimately show ?thesis by blast
qed

section \<open>Configuration of derived states\<close>

text \<open>C26: the configuration a created state keeps is the merge of the configurations along its chain of
  bases: what a state of the chain sets at a path, and no state derived from it changes, is what the
  created object finds there. The configurations are objects whose inner objects have names without
  NUL.\<close>

theorem derived_config_wins:
  assumes "configure api = State_configure_all State_configure" "create_object api root arg name = Inr (Some st0)"
    "st_config st0 = J_object []" "buildable f s (root, arg, cs1 @ (n, c) # cs2)"
    "\<forall>(n, d)\<in>set (cs1 @ (n, c) # cs2). json_wf d \<and> IsObject d \<and> merge_names d"
    "create_named api f s name = Some (Inr (Some st))"
    "config_find_path c p = Some x" "\<not> IsObject x" "\<forall>(n, d)\<in>set cs2. untouched d p"
  shows "config_find_path (st_config st) p = Some x"
proof -
  have "configure_all api (cs1 @ (n, c) # cs2) (Inr (Some st0)) = Inr (Some st)"
    using create_buildable [OF assms(4) refl, of api name] assms(2,6) by simp
  then show ?thesis
    using chain_config [OF assms(1), of cs1 n c cs2 st0 st p x] assms(3,5,7-) by simp
qed

text \<open>A state library on the shared part of states, with one derived state.\<close>

definition blank_state :: fsm_state where
  "blank_state =
     \<lparr>st_name = '''', st_output = '''', add_contacts_config = J_object [], remove_contacts_config = J_object [],
      add_contacts_after_config = J_object [], remove_contacts_after_config = J_object [],
      add_collisions_config = J_object [], remove_collisions_config = J_object [],
      add_collisions_after_config = J_object [], remove_collisions_after_config = J_object [],
      constraints_config = J_object [], tasks_config = J_object [], remove_posture_task = J_object [],
      st_config = J_object [], st_constraints = [], st_tasks = [], st_postures = []\<rparr>"

definition state_library :: "(fsm_state, nat) state_api" where
  "state_library =
     \<lparr>new_object = (\<lambda>cn arg. Some blank_state), set_name = (\<lambda>n st. st\<lparr>st_name := n\<rparr>),
      configure = State_configure_all State_configure, start = (\<lambda>st c. (st, c)), run_state = (\<lambda>st c. (True, st, c)),
      output_state = st_output, stop_state = (\<lambda>st c. (st, c)), teardown_state = (\<lambda>st c. c)\<rparr>"

definition derived_factory :: state_factory where
  "derived_factory = sample_factory\<lparr>factory_states := [''A'', ''B'', ''C''],
     factory_configurations := [(''C'', \<lparr>sc_base = ''A'', sc_arg = '''', sc_config = J_object [(''speed'', J_int 3)]\<rparr>)]\<rparr>"

theorem derived_config_wins_witness:
  "\<exists>st. create_named state_library derived_factory ''C'' ''C'' = Some (Inr (Some st)) \<and>
     config_find_path (st_config st) [''speed''] = Some (J_int 3)"
proof -
  let ?c = "J_object [(''speed'', J_int 3)]"
  let ?blank = "blank_state\<lparr>st_name := ''C''\<rparr>"
  let ?st = "?blank\<lparr>st_config := ?c\<rparr>"
  have A: "buildable derived_factory ''A'' (''A'', None, [])"
    by (rule buildable.from_class) (simp_all add: hasState_def has_object_def derived_factory_def sample_factory_def)
  have b: "buildable derived_factory ''C'' (''A'', None, [] @ [(''C'', sc_config \<lparr>sc_base = ''A'', sc_arg = '''', sc_config = ?c\<rparr>)])"
    by (rule buildable.from_base) (use A in \<open>simp_all add: hasState_def has_object_def derived_factory_def sample_factory_def\<close>)
  have o: "create_object state_library ''A'' None ''C'' = Inr (Some ?blank)"
    by (simp add: create_object_def state_library_def)
  have cfg: "configure state_library ?c ?blank = Inr ?st"
    by (simp add: state_library_def State_configure_all_def load_entry_def config_has_def HasMember_def FindMember_def
        State_configure_def blank_state_def AddMember_def)
  have made: "create_named state_library derived_factory ''C'' ''C'' = Some (Inr (Some ?st))"
    using create_buildable [OF b refl, of state_library "''C''"] o cfg by (simp add: configure_all_def configure_ptr_def)
  have "config_find_path (st_config ?st) [''speed''] = Some (J_int 3)"
  proof (rule derived_config_wins)
    show "configure state_library = State_configure_all State_configure" by (simp add: state_library_def)
    show "create_object state_library ''A'' None ''C'' = Inr (Some ?blank)" by (rule o)
    show "buildable derived_factory ''C'' (''A'', None, [] @ (''C'', ?c) # [])" using b by simp
    show "create_named state_library derived_factory ''C'' ''C'' = Some (Inr (Some ?st))" by (rule made)
    show "config_find_path ?c [''speed''] = Some (J_int 3)" by (simp add: config_find_def FindMember_def)
  qed (simp_all add: blank_state_def)
  with made show ?thesis by blast
qed

section \<open>Transition map\<close>

text \<open>C27: initialising an empty transition map. The transitions entry must be a non-empty list of entries
  of three or four strings, at least one of them between known states; otherwise initialisation
  throws the matching error. Then the map holds, for each origin and output, the last valid entry, a
  lookup falls back to the output \<open>DEFAULT\<close>, every target is a known state, and the initial state is the
  configured one when it is the origin of a valid transition and a known state in any case.\<close>

theorem transition_map_init_spec:
  fixes factory config
  defines "ini \<equiv> config_or config ''init'' to_string ''''"
    and "ts \<equiv> config_or config ''transitions'' (to_std_vector (to_std_vector to_string)) []"
    and "r \<equiv> transition_map_init factory config empty_transition_map"
  shows "(ts = [] \<longrightarrow> r = Inl Invalid_transitions) \<and>
    ((\<exists>t\<in>set ts. length t \<noteq> 3 \<and> length t \<noteq> 4) \<longrightarrow> r = Inl Invalid_transition_entry) \<and>
    (ts \<noteq> [] \<and> (\<forall>t\<in>set ts. (length t = 3 \<or> length t = 4) \<and> \<not> entry_valid factory t) \<longrightarrow> r = Inl No_valid_transition) \<and>
    ((\<forall>t\<in>set ts. length t = 3 \<or> length t = 4) \<and> (\<exists>t\<in>set ts. entry_valid factory t) \<longrightarrow>
      (\<exists>tm. r = Inr tm \<and> hasState factory (init_state tm) \<and>
        ((\<exists>t\<in>set ts. entry_valid factory t \<and> t ! 0 = ini) \<longrightarrow> init_state tm = ini) \<and>
        (\<forall>s out. transition tm s out = (case entry_map factory ts (s, out) of Some t \<Rightarrow> Some t | None \<Rightarrow> entry_map factory ts (s, ''DEFAULT''))) \<and>
        (\<forall>s out t. transition tm s out = Some t \<longrightarrow> hasState factory s \<and> hasState factory (trans_state t))))"
proof (intro conjI impI)
  show "r = Inl Invalid_transitions" if "ts = []"
    using that by (simp add: r_def ts_def [symmetric] transition_map_init_def Let_def)
  show "r = Inl Invalid_transition_entry" if bad: "\<exists>t\<in>set ts. length t \<noteq> 3 \<and> length t \<noteq> 4"
  proof -
    obtain t where "t \<in> set ts" "\<not> (length t = 3 \<or> length t = 4)" using bad by blast
    then show ?thesis
      using init_entries_invalid [of t ts factory ini "[]" False "''''"]
      by (auto simp: r_def ts_def [symmetric] ini_def [symmetric] transition_map_init_def Let_def empty_transition_map_def)
  qed
next
  assume none: "ts \<noteq> [] \<and> (\<forall>t\<in>set ts. (length t = 3 \<or> length t = 4) \<and> \<not> entry_valid factory t)"
  then have len: "\<forall>t\<in>set ts. length t = 3 \<or> length t = 4" by blast
  obtain m v fi where e: "init_entries factory ini ts [] False '''' = Inr (m, v, fi)" "map_of m = entry_map factory ts"
    using init_entries_ok [OF len, of factory ini "[]" False "''''"] by auto
  then have "m = []" using none entry_map_empty [of factory ts] by simp
  with e none show "r = Inl No_valid_transition"
    by (simp add: r_def ts_def [symmetric] ini_def [symmetric] transition_map_init_def Let_def empty_transition_map_def)
next
  assume ok: "(\<forall>t\<in>set ts. length t = 3 \<or> length t = 4) \<and> (\<exists>t\<in>set ts. entry_valid factory t)"
  then have len: "\<forall>t\<in>set ts. length t = 3 \<or> length t = 4" by blast
  obtain m v fi where e: "init_entries factory ini ts [] False '''' = Inr (m, v, fi)" "map_of m = entry_map factory ts"
    "v \<longleftrightarrow> (\<exists>t\<in>set ts. entry_valid factory t \<and> t ! 0 = ini)"
    using init_entries_ok [OF len, of factory ini "[]" False "''''"] by auto
  let ?tm = "\<lparr>init_state = (if v then ini else fi), transition_entries = m\<rparr>"
  have "map_of m \<noteq> Map.empty" using e(2) ok entry_map_empty [of factory ts] by auto
  then have m: "m \<noteq> []" "ts \<noteq> []" using ok by auto
  then have r: "r = Inr ?tm"
    using e(1) by (simp add: r_def ts_def [symmetric] ini_def [symmetric] transition_map_init_def Let_def empty_transition_map_def)
  have look: "transition ?tm s out =
      (case entry_map factory ts (s, out) of Some t \<Rightarrow> Some t | None \<Rightarrow> entry_map factory ts (s, ''DEFAULT''))" for s out
    using e(2) by (cases v) (simp_all add: transition_def split: option.splits)
  have "hasState factory s \<and> hasState factory (trans_state t)" if "transition ?tm s out = Some t" for s out t
    using that entry_map_SomeD [of factory ts s] unfolding look by (auto split: option.splits)
  then show "\<exists>tm. r = Inr tm \<and> hasState factory (init_state tm) \<and>
        ((\<exists>t\<in>set ts. entry_valid factory t \<and> t ! 0 = ini) \<longrightarrow> init_state tm = ini) \<and>
        (\<forall>s out. transition tm s out = (case entry_map factory ts (s, out) of Some t \<Rightarrow> Some t | None \<Rightarrow> entry_map factory ts (s, ''DEFAULT''))) \<and>
        (\<forall>s out t. transition tm s out = Some t \<longrightarrow> hasState factory s \<and> hasState factory (trans_state t))"
    using r look e(3) transition_map_states(1) [of factory config ?tm] unfolding r_def
    by (intro exI [of _ ?tm]) simp
qed

lemma sample_fsm_entries:
  "config_or sample_fsm ''init'' to_string '''' = ''A''"
  "config_or sample_fsm ''transitions'' (to_std_vector (to_std_vector to_string)) [] = [[''A'', ''OK'', ''B'']]"
  "config_or sample_fsm ''Managed'' to_bool b = b" "config_or sample_fsm ''StepByStep'' to_bool b = False"
  "config_or sample_fsm ''ResetPostures'' to_bool b = b" "config_find_path sample_fsm [''configs'', s] = None"
  by (simp_all add: sample_fsm_def config_or_def config_call_def config_find_def FindMember_def to_string_def to_std_vector_def
      to_bool_def)

theorem transition_map_init_spec_witness:
  "\<exists>tm. transition_map_init sample_factory sample_fsm empty_transition_map = Inr tm \<and> init_state tm = ''A'' \<and>
     (\<exists>t. transition tm ''A'' ''OK'' = Some t \<and> trans_state t = ''B'')"
proof -
  have v: "entry_valid sample_factory [''A'', ''OK'', ''B'']"
    by (simp add: entry_valid_def hasState_def sample_factory_def)
  have m: "entry_map sample_factory [[''A'', ''OK'', ''B'']] (''A'', ''OK'') = Some (entry_transition [''A'', ''OK'', ''B''])"
    by (simp add: entry_map_def v)
  have "\<exists>tm. transition_map_init sample_factory sample_fsm empty_transition_map = Inr tm \<and> init_state tm = ''A'' \<and>
      (\<forall>s out. transition tm s out = (case entry_map sample_factory [[''A'', ''OK'', ''B'']] (s, out) of
        Some t \<Rightarrow> Some t | None \<Rightarrow> entry_map sample_factory [[''A'', ''OK'', ''B'']] (s, ''DEFAULT'')))"
    using transition_map_init_spec [of sample_fsm sample_factory] v unfolding sample_fsm_entries by auto
  then show ?thesis using m by (auto simp: entry_transition_def)
qed

section \<open>Executor\<close>

text \<open>C11: an initialised executor over states that can be created and configured. Whatever sequence of
  iterations, interruptions, stop requests, requests for the next transition and requests to resume
  in known states it goes through, no call throws, dereferences a null state or fails to return, and
  afterwards it runs a state or is ready to start one.\<close>

theorem executor_never_stuck:
  assumes "reliable env" "executor_init (env_factory env) config new_executor = Inr ex" "\<forall>e\<in>set es. event_ok env e"
  shows "\<exists>ex' ctl'. handle_events env es (ex, ctl) = Some (Inr (ex', ctl')) \<and> (executor_running ex' \<or> ready ex')"
  using events_return [OF assms(1), of "(ex, ctl)" es] init_inv [OF assms(2)] assms(3)
  by (auto simp: executor_inv_def executor_running_def)

definition sample_executor :: "nat executor" where
  "sample_executor = (case executor_init sample_factory sample_fsm new_executor of Inr ex \<Rightarrow> ex | Inl _ \<Rightarrow> new_executor)"

lemma sample_executor_init:
  "executor_init (env_factory sample_env) sample_fsm new_executor = Inr sample_executor"
  "sample_executor = new_executor\<lparr>ex_config := sample_fsm, step_by_step := False, transition_triggered := True, next_state := ''A'',
     ex_map := \<lparr>init_state = ''A'', transition_entries = [((''A'', ''OK''), \<lparr>trans_state = ''B'', trans_type = StepByStep\<rparr>)]\<rparr>\<rparr>"
proof -
  have "executor_init sample_factory sample_fsm new_executor = Inr ((new_executor :: nat executor)\<lparr>ex_config := sample_fsm, step_by_step := False,
     transition_triggered := True, next_state := ''A'',
     ex_map := \<lparr>init_state = ''A'', transition_entries = [((''A'', ''OK''), \<lparr>trans_state = ''B'', trans_type = StepByStep\<rparr>)]\<rparr>\<rparr>)"
    by (simp add: executor_init_def sample_fsm_entries new_executor_def transition_map_init_def empty_transition_map_def Let_def
        hasState_def sample_factory_def)
  then show "executor_init (env_factory sample_env) sample_fsm new_executor = Inr sample_executor"
    "sample_executor = new_executor\<lparr>ex_config := sample_fsm, step_by_step := False, transition_triggered := True, next_state := ''A'',
     ex_map := \<lparr>init_state = ''A'', transition_entries = [((''A'', ''OK''), \<lparr>trans_state = ''B'', trans_type = StepByStep\<rparr>)]\<rparr>\<rparr>"
    by (simp_all add: sample_env_def sample_executor_def)
qed

theorem executor_never_stuck_witness:
  "\<exists>ex' ctl'. handle_events sample_env [Run False, Resume ''B'', Run True, Interrupt, Run False] (sample_executor, 0) = Some (Inr (ex', ctl')) \<and>
     (executor_running ex' \<or> ready ex')"
  using executor_never_stuck [OF sample_reliable sample_executor_init(1),
      of "[Run False, Resume ''B'', Run True, Interrupt, Run False]" 0]
  by (simp add: event_ok_def sample_env_def hasState_def sample_factory_def del: handle_events.simps)

text \<open>C12: along every such history, an iteration leaves the executor in the same state of the FSM, or
  enters the state that a pending request names, or follows a transition from the current state whose
  type lets it fire: an automatic one, one that is not held back by step-by-step execution, or any
  when a transition was requested. A managed executor follows no transition.\<close>

theorem executor_follows_transitions:
  assumes "reliable env" "executor_init (env_factory env) config new_executor = Inr ex" "\<forall>e\<in>set es. event_ok env e"
    "handle_events env es (ex, ctl) = Some (Inr (ex1, ctl1))" "handle_event env (Run keep_state) (ex1, ctl1) = Some (Inr (ex2, ctl2))"
  shows "curr_state ex2 = curr_state ex1 \<or> (transition_triggered ex1 \<and> curr_state ex2 = next_state ex1) \<or>
    (\<not> managed ex1 \<and> (\<exists>out t. transition (ex_map ex1) (curr_state ex1) out = Some t \<and> curr_state ex2 = trans_state t \<and>
      (trans_type t = Auto \<or> (trans_type t = StepByStep \<and> \<not> step_by_step ex1) \<or> transition_triggered ex1)))"
proof -
  have "executor_inv env ex1"
    using events_return [OF assms(1), of "(ex, ctl)" es] init_inv [OF assms(2)] assms(3,4) by auto
  then show ?thesis
  proof -
    obtain r ex' ctl' where "executor_run env keep_state ex1 ctl1 = Some (Inr (r, ex', ctl'))"
      "curr_state ex' = curr_state ex1 \<or> may_enter ex1 (curr_state ex')"
      using run_returns [OF assms(1) \<open>executor_inv env ex1\<close>, of keep_state ctl1] by blast
    with assms(5) have "curr_state ex2 = curr_state ex1 \<or> may_enter ex1 (curr_state ex2)" by simp
    then show ?thesis unfolding may_enter_def by blast
  qed
qed

text \<open>The first two iterations of the sample FSM start \<open>A\<close> and move on to \<open>B\<close>.\<close>

lemma sample_run:
  "handle_events sample_env [Run False] (sample_executor, 0) =
     Some (Inr (sample_executor\<lparr>ex_state := Some 0, curr_state := ''A'', ready := False, transition_triggered := False, next_state := ''''\<rparr>, 1))"
  "handle_event sample_env (Run False)
     (sample_executor\<lparr>ex_state := Some 0, curr_state := ''A'', ready := False, transition_triggered := False, next_state := ''''\<rparr>, 1) =
     Some (Inr (sample_executor\<lparr>ex_state := Some 0, curr_state := ''B'', ready := False, transition_triggered := False,
       next_state := '''', state_output := ''OK''\<rparr>, 2))"
proof -
  have create: "create_started sample_api sample_factory s None c = Some (Inr (Some 0, Suc c))" if "s = ''A'' \<or> s = ''B''" for s c
    using that by (auto simp: create_started_def create_named.simps hasState_def has_object_def sample_factory_def
        create_object_def sample_api_def)
  note d = executor_run_def executor_handle_interrupt_def executor_step_def executor_next_def executor_follow_def
    sample_executor_init(2) new_executor_def sample_env_def next_config_def sample_fsm_entries create Let_def transition_def
  have api: "run_state sample_api x c = (True, x, c)" "output_state sample_api x = ''OK''" "teardown_state sample_api x c = c" for x c
    by (simp_all add: sample_api_def)
  show "handle_events sample_env [Run False] (sample_executor, 0) =
     Some (Inr (sample_executor\<lparr>ex_state := Some 0, curr_state := ''A'', ready := False, transition_triggered := False, next_state := ''''\<rparr>, 1))"
    "handle_event sample_env (Run False)
     (sample_executor\<lparr>ex_state := Some 0, curr_state := ''A'', ready := False, transition_triggered := False, next_state := ''''\<rparr>, 1) =
     Some (Inr (sample_executor\<lparr>ex_state := Some 0, curr_state := ''B'', ready := False, transition_triggered := False,
       next_state := '''', state_output := ''OK''\<rparr>, 2))"
    by (simp_all add: d api del: config_find_path.simps)
qed

theorem executor_follows_transitions_witness:
  "\<exists>ex1 ex2. handle_events sample_env [Run False] (sample_executor, 0) = Some (Inr (ex1, 1)) \<and>
     handle_event sample_env (Run False) (ex1, 1) = Some (Inr (ex2, 2)) \<and> curr_state ex1 = ''A'' \<and> curr_state ex2 = ''B'' \<and>
     (\<exists>out t. transition (ex_map ex1) ''A'' out = Some t \<and> ''B'' = trans_state t)"
proof -
  let ?ex1 = "sample_executor\<lparr>ex_state := Some 0, curr_state := ''A'', ready := False, transition_triggered := False, next_state := ''''\<rparr>"
  let ?ex2 = "sample_executor\<lparr>ex_state := Some 0, curr_state := ''B'', ready := False, transition_triggered := False,
       next_state := '''', state_output := ''OK''\<rparr>"
  have "\<exists>out t. transition (ex_map ?ex1) ''A'' out = Some t \<and> ''B'' = trans_state t"
    using executor_follows_transitions [OF sample_reliable sample_executor_init(1) _ sample_run(1) sample_run(2)]
    by (auto simp: event_ok_def)
  then show ?thesis
    using sample_run by (intro exI [of _ ?ex1] exI [of _ ?ex2]) simp
qed

text \<open>C13: after any such history, a request to resume in a known state takes effect in the very next
  iteration: the executor then runs that state, with no request left over.\<close>

theorem executor_resume_live:
  assumes "reliable env" "executor_init (env_factory env) config new_executor = Inr ex" "\<forall>e\<in>set es. event_ok env e"
    "handle_events env es (ex, ctl) = Some (Inr (ex1, ctl1))" "hasState (env_factory env) s" "s \<noteq> ''''"
  shows "\<exists>ex2 ctl2. handle_events env [Resume s, Run keep_state] (ex1, ctl1) = Some (Inr (ex2, ctl2)) \<and>
    curr_state ex2 = s \<and> executor_running ex2 \<and> \<not> ready ex2 \<and> \<not> transition_triggered ex2 \<and> \<not> interrupt_triggered ex2"
proof -
  have inv: "executor_inv env ex1"
    using events_return [OF assms(1), of "(ex, ctl)" es] init_inv [OF assms(2)] assms(3,4) by auto
  show ?thesis
    using resume_run [OF assms(1) inv assms(5,6), of keep_state ctl1] by auto
qed

theorem executor_resume_live_witness:
  "\<exists>ex1 ex2 ctl2. handle_events sample_env [Run False] (sample_executor, 0) = Some (Inr (ex1, 1)) \<and>
     handle_events sample_env [Resume ''B'', Run False] (ex1, 1) = Some (Inr (ex2, ctl2)) \<and> curr_state ex2 = ''B'' \<and> executor_running ex2"
proof -
  have "hasState (env_factory sample_env) ''B''" by (simp add: sample_env_def hasState_def sample_factory_def)
  then show ?thesis
    using executor_resume_live [OF sample_reliable sample_executor_init(1) _ sample_run(1), of "''B''" False] sample_run(1)
    by (fastforce simp: event_ok_def simp del: handle_events.simps)
qed

text \<open>C28: a running state that completes after \<open>n\<close> further iterations with an output that has a transition
  which may fire is replaced by the target of the transition after exactly \<open>n + 1\<close> iterations.\<close>

theorem executor_auto_live:
  assumes "reliable env" "executor_inv env ex" "ex_state ex = Some x" "\<not> interrupt_triggered ex" "\<not> ready ex" "\<not> managed ex"
    "completes_at (env_api env) n x ctl (x', ctl')"
    "transition (ex_map ex) (curr_state ex) (output_state (env_api env) x') = Some t" "trans_state t \<noteq> ''''"
    "trans_type t = Auto \<or> (trans_type t = StepByStep \<and> \<not> step_by_step ex) \<or> transition_triggered ex"
  shows "\<exists>ex' ctl2. handle_events env (replicate (Suc n) (Run keep_state)) (ex, ctl) = Some (Inr (ex', ctl2)) \<and>
    curr_state ex' = trans_state t \<and> executor_running ex' \<and> \<not> ready ex'"
  by (rule auto_transition [OF assms])

theorem executor_auto_live_witness:
  "\<exists>ex1 ex2 ctl2. handle_events sample_env [Run False] (sample_executor, 0) = Some (Inr (ex1, 1)) \<and>
     handle_events sample_env [Run False] (ex1, 1) = Some (Inr (ex2, ctl2)) \<and> curr_state ex2 = ''B'' \<and> executor_running ex2"
proof -
  let ?ex1 = "sample_executor\<lparr>ex_state := Some 0, curr_state := ''A'', ready := False, transition_triggered := False, next_state := ''''\<rparr>"
  have inv: "executor_inv sample_env ?ex1"
    by (simp add: executor_inv_def sample_executor_init(2) new_executor_def sample_env_def hasState_def sample_factory_def)
  have "\<exists>ex' ctl2. handle_events sample_env (replicate (Suc 0) (Run False)) (?ex1, 1) = Some (Inr (ex', ctl2)) \<and>
      curr_state ex' = trans_state \<lparr>trans_state = ''B'', trans_type = StepByStep\<rparr> \<and> executor_running ex' \<and> \<not> ready ex'"
    by (rule executor_auto_live [OF sample_reliable inv, where x = 0 and x' = 0 and ctl' = 1])
      (simp_all add: sample_executor_init(2) new_executor_def sample_env_def sample_api_def transition_def)
  then obtain ex' ctl2 where "handle_events sample_env [Run False] (?ex1, 1) = Some (Inr (ex', ctl2))"
    "curr_state ex' = ''B''" "executor_running ex'"
    by (auto simp del: handle_events.simps)
  with sample_run(1) show ?thesis by blast
qed

text \<open>C29: an executor that is asked to resume in a state the factory does not know never recovers: from the
  next iteration on it has no state and is not ready, and no later sequence of iterations, requests
  or resumptions, even in known states, changes that.\<close>

theorem executor_unknown_resume_wedges:
  assumes "executor_inv env ex" "\<not> hasState (env_factory env) s" "s \<noteq> ''''"
  shows "\<exists>ex' ctl'. handle_events env (Resume s # Run keep_state # es) (ex, ctl) = Some (Inr (ex', ctl')) \<and>
    \<not> executor_running ex' \<and> \<not> ready ex'"
proof -
  obtain ex1 ctl1 where 1: "handle_events env [Resume s, Run keep_state] (ex, ctl) = Some (Inr (ex1, ctl1))" "wedged ex1"
    using resume_unknown_wedges [OF assms, of keep_state ctl] by blast
  obtain ex2 ctl2 where "handle_events env es (ex1, ctl1) = Some (Inr (ex2, ctl2))" "wedged ex2"
    using wedged_events [OF 1(2), of env es ctl1] by blast
  with 1(1) show ?thesis
    by (auto simp: wedged_def executor_running_def split: option.splits sum.splits prod.splits)
qed

theorem executor_unknown_resume_wedges_witness:
  "\<exists>ex' ctl'. handle_events sample_env [Resume ''nope'', Run False, Resume ''A'', Run False, Run False] (sample_executor, 0)
     = Some (Inr (ex', ctl')) \<and> \<not> executor_running ex' \<and> \<not> ready ex'"
proof -
  have inv: "executor_inv sample_env sample_executor"
    by (rule init_inv [OF sample_executor_init(1)])
  have "\<not> hasState (env_factory sample_env) ''nope''"
    by (simp add: sample_env_def hasState_def sample_factory_def)
  then show ?thesis
    using executor_unknown_resume_wedges [OF inv, of "''nope''" False "[Resume ''A'', Run False, Run False]" 0]
    by (simp del: handle_events.simps)
qed

section \<open>Contacts and collisions\<close>

text \<open>C15: the contact set of a controller behaves as a set of unordered pairs of robot surfaces, where an
  unnamed robot is the main one: adding inserts the pair and stores the friction and degrees of
  freedom given last, removing deletes it, clearing empties the set, the test for presence is
  membership, and the set never holds a pair twice. A change by adding or removing is signalled, so
  that the solver is in step with the set or an update is pending, and an update hands the solver
  exactly the set. Clearing keeps this exactly when the set was not empty or the solver has no
  contact: it drops the pending update of a set that was emptied before.\<close>

theorem contacts_refine_set:
  assumes "contacts_inv m" "contacts_synced m s"
  shows "contacts_inv (addContact c m) \<and> contacts_inv (removeContact c m) \<and> contacts_inv (clearContacts m) \<and>
    contact_pairs (addContact c m) = insert (contact_ends (name_robots (main_robot m) c)) (contact_pairs m) \<and>
    (\<exists>d\<in>set (contacts (addContact c m)). contact_eq d (name_robots (main_robot m) c) \<and> same_data d c) \<and>
    contact_pairs (removeContact c m) = contact_pairs m - {contact_ends (name_robots (main_robot m) c)} \<and>
    contact_pairs (clearContacts m) = {} \<and>
    (hasContact c m \<longleftrightarrow> contact_ends c \<in> contact_pairs m) \<and>
    (contacts (addContact c m) \<noteq> contacts m \<longrightarrow> contacts_changed (addContact c m)) \<and>
    (contacts (removeContact c m) \<noteq> contacts m \<longrightarrow> contacts_changed (removeContact c m)) \<and>
    contacts_synced (addContact c m) s \<and> contacts_synced (removeContact c m) s \<and>
    (contacts_synced (clearContacts m) s \<longleftrightarrow> contacts m \<noteq> [] \<or> s = []) \<and>
    (\<forall>m' s'. updateContacts True valid m s = Inr (m', s') \<longrightarrow> s' = contacts m \<and> contacts m' = contacts m \<and> contacts_synced m' s')"
proof (intro conjI allI impI)
  show "hasContact c m \<longleftrightarrow> contact_ends c \<in> contact_pairs m"
    by (simp add: hasContact_def contact_in_iff contact_pairs_def)
  show "contacts_inv (clearContacts m)" "contact_pairs (clearContacts m) = {}"
    "contacts_synced (clearContacts m) s \<longleftrightarrow> contacts m \<noteq> [] \<or> s = []"
    by (fact clearContacts_ok)+
  show "contacts_changed (addContact c m)" if "contacts (addContact c m) \<noteq> contacts m"
    using addContact_ok(5) [OF assms(1), of c] that by blast
  show "contacts_changed (removeContact c m)" if "contacts (removeContact c m) \<noteq> contacts m"
    using removeContact_ok(3) [OF assms(1), of c] that by blast
  fix m' s'
  assume u: "updateContacts True valid m s = Inr (m', s')"
  show "s' = contacts m" "contacts m' = contacts m" "contacts_synced m' s'"
    using sync_update [OF assms(2) u] by blast+
qed (fact addContact_ok(1-3) [OF assms(1)] removeContact_ok(1,2) [OF assms(1)] sync_add [OF assms] sync_remove [OF assms])+

definition no_contacts :: contact_manager where
  "no_contacts = \<lparr>main_robot = ''r'', contacts = [], contacts_changed = False\<rparr>"

definition sample_contact :: contact where
  "sample_contact =
     \<lparr>c_r1 = None, c_r2 = Some ''ground'', c_r1Surface = ''foot'', c_r2Surface = ''floor'', c_friction = 0, c_dof = []\<rparr>"

definition swapped_contact :: contact where
  "swapped_contact =
     \<lparr>c_r1 = Some ''ground'', c_r2 = Some ''r'', c_r1Surface = ''floor'', c_r2Surface = ''foot'', c_friction = 1, c_dof = []\<rparr>"

text \<open>A contact is added, found and removed with its surfaces in the other order, and the set is cleared.\<close>

theorem contacts_refine_set_witness:
  "contacts_changed (addContact sample_contact no_contacts) \<and>
   hasContact swapped_contact (addContact sample_contact no_contacts) \<and>
   contact_pairs (addContact swapped_contact (addContact sample_contact no_contacts)) =
     contact_pairs (addContact sample_contact no_contacts) \<and>
   contact_pairs (removeContact swapped_contact (addContact sample_contact no_contacts)) = {} \<and>
   contacts_changed (removeContact swapped_contact (addContact sample_contact no_contacts)) \<and>
   contact_pairs (clearContacts (addContact sample_contact no_contacts)) = {} \<and>
   contacts_synced (clearContacts (addContact sample_contact no_contacts)) []"
proof -
  let ?m1 = "addContact sample_contact no_contacts"
  have 0: "contacts_inv no_contacts" "contacts_synced no_contacts []"
    by (simp_all add: no_contacts_def contacts_inv_def contacts_synced_def)
  note r0 = contacts_refine_set [OF 0, of sample_contact "\<lambda>_ _. True"]
  have 1: "contacts_inv ?m1" "contacts_synced ?m1 []" using r0 by blast+
  note r1 = contacts_refine_set [OF 1, of swapped_contact "\<lambda>_ _. True"]
  have m1: "main_robot ?m1 = ''r''" "contacts ?m1 = [name_robots ''r'' sample_contact]"
    by (simp_all add: no_contacts_def addContact_def)
  have ends: "contact_ends (name_robots ''r'' sample_contact) = contact_ends swapped_contact"
    "name_robots ''r'' swapped_contact = swapped_contact"
    by (simp_all add: sample_contact_def swapped_contact_def contact_ends_def name_robots_def insert_commute)
  have pairs: "contact_pairs ?m1 = {contact_ends swapped_contact}"
    by (simp add: contact_pairs_def m1 ends)
  have "contact_pairs (removeContact swapped_contact ?m1) \<noteq> contact_pairs ?m1"
    using r1 unfolding m1(1) ends pairs by auto
  then have "contacts (removeContact swapped_contact ?m1) \<noteq> contacts ?m1"
    by (auto simp: contact_pairs_def)
  moreover have "contacts ?m1 \<noteq> contacts no_contacts" by (simp add: m1) (simp add: no_contacts_def)
  ultimately show ?thesis
    using r0 r1 unfolding m1(1) ends pairs by auto
qed

text \<open>C30: adding one pair of bodies between two known robots that are not registered in the opposite order,
  under names of convexes of the robots that are no wildcards and whose concatenation is that of no
  other pair, returns and makes exactly this pair active. The first addition between the two robots
  gives the solver one new constraint set, a later one none. Removing the pair again in the same
  order of the robots deactivates it and nothing else.\<close>

theorem collisions_add_remove:
  assumes "manager_inv (ctl_collisions ctl)" "map_of (collision_constraints (ctl_collisions ctl)) (r2, r1) = None \<or> r1 = r2"
    "r1 \<in> set (robot_names (ctl_collisions ctl))" "r2 \<in> set (robot_names (ctl_collisions ctl))"
    "context_backend ctl = solver_backend ctl" "solver_backend ctl \<noteq> Backend_Unset"
    "\<forall>x\<in>set (constraint_sets ctl). address x < next_address ctl"
    "plain_body (body1 col)" "plain_body (body2 col)" "bodies col \<noteq> (''NONE'', ''NONE'')"
    "case r1Joints col of None \<Rightarrow> True | Some js \<Rightarrow> has_joints g r1 js"
    "case r2Joints col of None \<Rightarrow> True | Some js \<Rightarrow> has_joints g r2 js"
    "body1 col \<in> set (convexes g r1)" "body2 col \<in> set (convexes g r2)"
    "\<forall>q\<in>pairs_at (ctl_collisions ctl) (r1, r2). q \<noteq> bodies col \<longrightarrow> joined q \<noteq> joined (bodies col)"
  shows "\<exists>ctl' m''. addCollisions (Suc fuel) g r1 r2 [col] ctl = Some (Inr ctl') \<and> manager_inv (ctl_collisions ctl') \<and>
    (\<forall>b1 b2. hasCollision r1 r2 b1 b2 (ctl_collisions ctl') \<longleftrightarrow> hasCollision r1 r2 b1 b2 (ctl_collisions ctl) \<or> (b1, b2) = bodies col) \<and>
    metaTasks ctl' = metaTasks ctl \<and> constraint_sets ctl' = constraint_sets ctl @
      (if map_of (collision_constraints (ctl_collisions ctl)) (r1, r2) = None then [new_solver_object ctl] else []) \<and>
    removeCollisions (Suc fuel) g r1 r2 [col] (ctl_collisions ctl') = Some (Inr m'') \<and> manager_inv m'' \<and>
    (\<forall>b1 b2. hasCollision r1 r2 b1 b2 m'' \<longleftrightarrow> hasCollision r1 r2 b1 b2 (ctl_collisions ctl) \<and> (b1, b2) \<noteq> bodies col)"
proof -
  let ?k = "(r1, r2)" and ?m = "ctl_collisions ctl"
  obtain ctl' where c: "add_to_manager (Suc fuel) g ?k [col] ctl = Some (Inr ctl')" "manager_inv (ctl_collisions ctl')"
    "pairs_at (ctl_collisions ctl') = (pairs_at ?m)(?k := insert (bodies col) (pairs_at ?m ?k))"
    "\<forall>k. map_of (collision_constraints (ctl_collisions ctl')) k = None \<longleftrightarrow> map_of (collision_constraints ?m) k = None \<and> k \<noteq> ?k"
    "metaTasks ctl' = metaTasks ctl" "constraint_sets ctl' = constraint_sets ctl @
      (if map_of (collision_constraints ?m) ?k = None then [new_solver_object ctl] else [])"
    using add_to_manager_ok [of ctl ?k col g fuel, unfolded fst_conv snd_conv, OF assms(1,3-15)] by blast
  have add: "addCollisions (Suc fuel) g r1 r2 [col] ctl = Some (Inr ctl')"
    using assms(2) c(1) by (subst addCollisions.simps) auto
  obtain cc where "map_of (collision_constraints (ctl_collisions ctl')) ?k = Some cc"
    using c(4) by (metis not_None_eq)
  from removeCollisions_ok [OF c(2) this assms(8,9), of fuel g]
  obtain m'' where m'': "removeCollisions (Suc fuel) g r1 r2 [col] (ctl_collisions ctl') = Some (Inr m'')" "manager_inv m''"
    "pairs_at m'' = (pairs_at (ctl_collisions ctl'))(?k := {p \<in> pairs_at (ctl_collisions ctl') ?k. joined p \<noteq> joined (bodies col)})"
    "\<forall>k. map_of (collision_constraints m'') k = None \<longleftrightarrow> map_of (collision_constraints (ctl_collisions ctl')) k = None"
    by blast
  have "pairs_at m'' ?k = pairs_at ?m ?k - {bodies col}"
    using assms(15) unfolding m''(3) c(3) by auto
  moreover have "pairs_at (ctl_collisions ctl') ?k = insert (bodies col) (pairs_at ?m ?k)" unfolding c(3) by simp
  moreover have o': "map_of (collision_constraints (ctl_collisions ctl')) (r2, r1) = None \<or> r1 = r2" using assms(2) c(4) by auto
  moreover have o'': "map_of (collision_constraints m'') (r2, r1) = None \<or> r1 = r2" using o' m''(4) by metis
  ultimately have has: "hasCollision r1 r2 b1 b2 ?m \<longleftrightarrow> (b1, b2) \<in> pairs_at ?m ?k"
    "hasCollision r1 r2 b1 b2 (ctl_collisions ctl') \<longleftrightarrow> (b1, b2) \<in> insert (bodies col) (pairs_at ?m ?k)"
    "hasCollision r1 r2 b1 b2 m'' \<longleftrightarrow> (b1, b2) \<in> pairs_at ?m ?k - {bodies col}" for b1 b2
    using hasCollision_first_order [OF assms(2)] hasCollision_first_order [OF o'] hasCollision_first_order [OF o''] by simp_all
  show ?thesis
    using add c(2,5,6) m''(1,2) has by (intro exI [of _ ctl'] exI [of _ m'']) auto
qed

definition sample_collision :: collision where
  "sample_collision = \<lparr>body1 = ''hand'', body2 = ''table'', iDist = 0, sDist = 0, damping = 0, r1Joints = None, r2Joints = None,
     r1JointsInactive = False, r2JointsInactive = False, overDamping = 0, lambda_cbf = 0\<rparr>"

definition sample_geometry :: robot_geometry where
  "sample_geometry = \<lparr>convexes = (\<lambda>r. [''hand'', ''table'']), has_joints = (\<lambda>r js. False)\<rparr>"

definition collision_controller :: fsm_controller where
  "collision_controller =
     \<lparr>ctl_contacts = \<lparr>main_robot = ''robot'', contacts = [], contacts_changed = False\<rparr>,
      ctl_collisions = \<lparr>robot_names = [''robot'', ''env''], collision_constraints = []\<rparr>,
      solver_backend = Backend_Tasks, context_backend = Backend_Tasks, metaTasks = [], constraint_sets = [],
      posture_tasks = [], next_address = 1\<rparr>"

theorem collisions_add_remove_witness:
  "\<exists>ctl' m''. addCollisions 1 sample_geometry ''robot'' ''env'' [sample_collision] collision_controller = Some (Inr ctl') \<and>
     hasCollision ''robot'' ''env'' ''hand'' ''table'' (ctl_collisions ctl') \<and> address ` set (constraint_sets ctl') = {1} \<and>
     removeCollisions 1 sample_geometry ''robot'' ''env'' [sample_collision] (ctl_collisions ctl') = Some (Inr m'') \<and>
     \<not> hasCollision ''robot'' ''env'' ''hand'' ''table'' m''"
proof -
  let ?c = collision_controller
  have b: "bodies sample_collision = (''hand'', ''table'')" by (simp add: bodies_def sample_collision_def)
  have none: "map_of (collision_constraints (ctl_collisions ?c)) k = None" for k by (simp add: collision_controller_def)
  have "manager_inv (ctl_collisions ?c)" "map_of (collision_constraints (ctl_collisions ?c)) (''env'', ''robot'') = None \<or> ''robot'' = ''env''"
    "''robot'' \<in> set (robot_names (ctl_collisions ?c))" "''env'' \<in> set (robot_names (ctl_collisions ?c))"
    "context_backend ?c = solver_backend ?c" "solver_backend ?c \<noteq> Backend_Unset"
    "\<forall>x\<in>set (constraint_sets ?c). address x < next_address ?c"
    "plain_body (body1 sample_collision)" "plain_body (body2 sample_collision)" "bodies sample_collision \<noteq> (''NONE'', ''NONE'')"
    "case r1Joints sample_collision of None \<Rightarrow> True | Some js \<Rightarrow> has_joints sample_geometry ''robot'' js"
    "case r2Joints sample_collision of None \<Rightarrow> True | Some js \<Rightarrow> has_joints sample_geometry ''env'' js"
    "body1 sample_collision \<in> set (convexes sample_geometry ''robot'')" "body2 sample_collision \<in> set (convexes sample_geometry ''env'')"
    "\<forall>q\<in>pairs_at (ctl_collisions ?c) (''robot'', ''env''). q \<noteq> bodies sample_collision \<longrightarrow> joined q \<noteq> joined (bodies sample_collision)"
    by (simp_all add: manager_inv_def plain_body_def bodies_def sample_collision_def sample_geometry_def pairs_at_def collision_controller_def)
  from collisions_add_remove [OF this, of 0] obtain ctl' m'' where
    "addCollisions 1 sample_geometry ''robot'' ''env'' [sample_collision] ?c = Some (Inr ctl')"
    "hasCollision ''robot'' ''env'' ''hand'' ''table'' (ctl_collisions ctl')" "constraint_sets ctl' = constraint_sets ?c @ [new_solver_object ?c]"
    "removeCollisions 1 sample_geometry ''robot'' ''env'' [sample_collision] (ctl_collisions ctl') = Some (Inr m'')"
    "\<not> hasCollision ''robot'' ''env'' ''hand'' ''table'' m''"
    unfolding b none One_nat_def by auto
  then show ?thesis by (intro exI [of _ ctl'] exI [of _ m'']) (simp add: new_solver_object_def collision_controller_def)
qed

section \<open>Starting and tearing down a state\<close>

text \<open>C10: a state that was started, ran while the solver objects were left alone, and is torn down. While it
  runs, the posture tasks it disables are out of the solver and its own tasks are in. After the
  teardown the solver has the tasks it had before the start and every posture task the state disabled,
  also one that was not in the solver before; and it has the constraint sets it had before and those
  of the collisions that were added between robots that had none, which nothing removes. Without
  entries that act after the state, the teardown returns normally.\<close>

theorem state_start_teardown_restores:
  assumes "controller_ok ctl" "well_behaved env" "st_postures st = []" "st_tasks st = []" "st_constraints st = []"
    "State_start env st ctl = Some (Inr (st1, ctl1))" "same_solver ctl1 ctl2"
  shows "set (st_postures st1) \<subseteq> snd ` set (posture_tasks ctl) \<and>
    address ` set (metaTasks ctl1) = (address ` set (metaTasks ctl) - address ` set (st_postures st1)) \<union> address ` fst ` set (st_tasks st1) \<and>
    (no_after_entries st1 \<longrightarrow> (\<exists>ctl3. State_teardown env st1 ctl2 = Some (Inr ctl3))) \<and>
    (\<forall>ctl3. State_teardown env st1 ctl2 = Some (Inr ctl3) \<longrightarrow>
      address ` set (metaTasks ctl3) = address ` set (metaTasks ctl) \<union> address ` set (st_postures st1) \<and>
      address ` set (constraint_sets ctl3) = address ` set (constraint_sets ctl) \<union> new_constraints ctl ctl3)"
proof -
  have h1: "holds_relative ctl st1 ctl1"
    by (rule State_start_holds [OF assms(1-6)])
  then have h: "holds_relative ctl st1 ctl2"
    using assms(7) holds_same_solver by blast
  have "set (st_postures st1) \<subseteq> snd ` set (posture_tasks ctl)"
    "addresses (metaTasks ctl1) = (addresses (metaTasks ctl) - addresses (st_postures st1)) \<union> addresses (map fst (st_tasks st1))"
    using h1 unfolding holds_relative_def by blast+
  then show ?thesis
    using State_teardown_returns [OF h, of env] State_teardown_restores [OF h assms(1,2)]
    unfolding addresses_def by auto
qed

definition sample_controller :: fsm_controller where
  "sample_controller =
     \<lparr>ctl_contacts = \<lparr>main_robot = ''r'', contacts = [], contacts_changed = False\<rparr>,
      ctl_collisions = \<lparr>robot_names = [''r''], collision_constraints = []\<rparr>,
      solver_backend = Backend_Tasks, context_backend = Backend_Tasks, metaTasks = [\<lparr>address = 1, object_backend = Backend_Tasks\<rparr>], constraint_sets = [],
      posture_tasks = [(''r'', \<lparr>address = 1, object_backend = Backend_Tasks\<rparr>)], next_address = 2\<rparr>"

definition sample_state_env :: "(fsm_state, fsm_controller) state_env" where
  "sample_state_env =
     \<lparr>env_fuel = 3, env_geometry = sample_geometry, load_constraint = (\<lambda>c. Some Backend_Tasks), load_task = (\<lambda>c. Some Backend_Tasks),
      v_start = (\<lambda>st ctl. (st, ctl)), v_teardown = (\<lambda>st ctl. ctl)\<rparr>"

definition sample_state :: fsm_state where
  "sample_state = blank_state\<lparr>remove_posture_task := J_bool True,
     add_collisions_config := J_array [J_object [(''r1'', J_string ''r''), (''collisions'', J_array [])]],
     tasks_config := J_object [(''t'', J_object [(''name'', J_string ''t'')])]\<rparr>"

lemma sample_state_collisions:
  "\<exists>m. apply_collisions (add_collision_entry (env_fuel sample_state_env) (env_geometry sample_state_env))
      (add_collisions_config sample_state) sample_controller =
     Some (Inr (sample_controller\<lparr>ctl_collisions := m, constraint_sets := [\<lparr>address = 2, object_backend = Backend_Tasks\<rparr>],
       next_address := 3\<rparr>)) \<and> robot_names m = [''r''] \<and>
     collision_objects m = [(''r'', ''r'') \<mapsto> \<lparr>address = 2, object_backend = Backend_Tasks\<rparr>]"
proof -
  have add: "addCollisions n g ''r'' ''r'' cs ctl = add_to_manager n g (''r'', ''r'') cs ctl" for n g cs and ctl :: fsm_controller
    by (subst addCollisions.simps) simp
  show ?thesis
    by (simp add: apply_collisions_def add_collision_entry_def collision_robots_def config_call_def config_find_def FindMember_def
        to_string_def to_std_vector_def from_config_def add add_to_manager_def manager_constraint_def Let_def sample_state_def
        sample_controller_def addConstraintSet_def known_def from_collision_def store_constraint_def new_collisions_constraint_def
        sample_state_env_def collision_objects_def fun_eq_iff)
qed

text \<open>The state of the example starts a task, disables a posture task and adds a first collision constraint.\<close>

theorem state_start_teardown_restores_witness:
  "\<exists>st1 ctl1 ctl3. State_start sample_state_env sample_state sample_controller = Some (Inr (st1, ctl1)) \<and>
     address ` set (metaTasks ctl1) = {3} \<and> address ` set (constraint_sets ctl1) = {2} \<and>
     State_teardown sample_state_env st1 ctl1 = Some (Inr ctl3) \<and> address ` set (metaTasks ctl3) = {1} \<and>
     address ` set (constraint_sets ctl3) = new_constraints sample_controller ctl3"
proof -
  let ?cfg = "J_object [(''name'', J_string ''t'')]"
  let ?x = "\<lparr>address = 2, object_backend = Backend_Tasks\<rparr>"
  let ?t = "\<lparr>address = 3, object_backend = Backend_Tasks\<rparr>" and ?p = "\<lparr>address = 1, object_backend = Backend_Tasks\<rparr>"
  let ?st1 = "sample_state\<lparr>st_postures := [?p], st_tasks := [(?t, ?cfg)]\<rparr>"
  obtain m where m: "apply_collisions (add_collision_entry (env_fuel sample_state_env) (env_geometry sample_state_env))
      (add_collisions_config sample_state) sample_controller =
     Some (Inr (sample_controller\<lparr>ctl_collisions := m, constraint_sets := [?x], next_address := 3\<rparr>))" "robot_names m = [''r'']"
    using sample_state_collisions by blast
  let ?ctl1 = "sample_controller\<lparr>ctl_collisions := m, metaTasks := [?t], constraint_sets := [?x], next_address := 4\<rparr>"
  have idle: "apply_contacts op (remove_contacts_config sample_state) ctl = Some (Inr ctl)"
    "apply_contacts op (add_contacts_config sample_state) ctl = Some (Inr ctl)"
    "apply_collisions op' (remove_collisions_config sample_state) ctl = Some (Inr ctl)" for op op' and ctl :: fsm_controller
    by (simp_all add: sample_state_def blank_state_def apply_contacts_def apply_collisions_def)
  have start: "State_start sample_state_env sample_state sample_controller = Some (Inr (?st1, ?ctl1))"
    by (simp only: State_start_def idle outcome_bind_simps m(1)) (simp add: sample_state_def blank_state_def sample_state_env_def sample_controller_def m(2)
        disable_postures_def disable_posture_def getPostureTask_def removeTask_def known_def Let_def
        config_empty_def config_size_def from_config_def to_bool_def start_constraints_def start_tasks_def to_std_map_def FindMember_def
        start_task_def config_has_def HasMember_def addTask_def store_member_def List.extract_def)
  have "controller_ok sample_controller" "well_behaved sample_state_env"
    "st_postures sample_state = []" "st_tasks sample_state = []" "st_constraints sample_state = []"
    by (simp_all add: controller_ok_def solver_ok_def addresses_def sample_controller_def well_behaved_def sample_state_env_def
        sample_state_def blank_state_def)
  from state_start_teardown_restores [OF this start same_solver_refl]
  obtain ctl3 where "State_teardown sample_state_env ?st1 ?ctl1 = Some (Inr ctl3)"
    "address ` set (metaTasks ctl3) = address ` set (metaTasks sample_controller) \<union> address ` set [?p]"
    "address ` set (constraint_sets ctl3) = address ` set (constraint_sets sample_controller) \<union> new_constraints sample_controller ctl3"
    by (auto simp: no_after_entries_def sample_state_def blank_state_def config_size_def)
  with start show ?thesis
    by (intro exI [of _ ?st1] exI [of _ ?ctl1] exI [of _ ctl3]) (simp add: sample_controller_def)
qed

end
