(* ===== verification/Msgpack_Containers.thy ===== *)
theory Msgpack_Containers
  imports Config_Msgpack_Correct
begin

text \<open>
  The templates of \<open>MessagePackBuilder.h\<close> that write standard containers, given a function that writes
  one element, and the calculus used to say what a sequence of builder calls writes.
\<close>

section \<open>Containers\<close>

type_synonym builder_call = "mpack_writer \<Rightarrow> mpack_writer"

text \<open>\<open>start_array(n)\<close>, a sequence of calls, \<open>finish_array()\<close>.\<close>

definition builder_array :: "nat \<Rightarrow> builder_call list \<Rightarrow> builder_call" where
  "builder_array n calls w = builder_finish_array (fold (\<lambda>call w. call w) calls (builder_start_array w n))"

definition builder_write_std_vector :: "('a \<Rightarrow> builder_call) \<Rightarrow> 'a list \<Rightarrow> builder_call" where
  "builder_write_std_vector wr v w = builder_finish_array (fold wr v (builder_start_array w (length v)))"

definition builder_write_pair :: "('a \<Rightarrow> builder_call) \<Rightarrow> ('b \<Rightarrow> builder_call) \<Rightarrow> 'a \<times> 'b \<Rightarrow> builder_call" where
  "builder_write_pair wr1 wr2 p w = builder_finish_array (wr2 (snd p) (wr1 (fst p) (builder_start_array w 2)))"

definition builder_write_std_map :: "('k \<Rightarrow> builder_call) \<Rightarrow> ('a \<Rightarrow> builder_call) \<Rightarrow> ('k \<times> 'a) list \<Rightarrow> builder_call" where
  "builder_write_std_map wr1 wr2 m w =
     builder_finish_map (fold (\<lambda>p w. wr2 (snd p) (wr1 (fst p) w)) m (builder_start_map w (length m)))"

definition builder_write_variant :: "nat \<Rightarrow> builder_call \<Rightarrow> builder_call" where
  "builder_write_variant index call w =
     builder_finish_array (call (builder_write_u64 (builder_start_array w 2) (of_nat index)))"

definition builder_write_str :: "string \<Rightarrow> builder_call" where
  "builder_write_str s w = builder_write_string w (str_bytes s)"

section \<open>What a call writes\<close>

definition writes :: "builder_call \<Rightarrow> mp_value \<Rightarrow> bool" where
  "writes call v \<longleftrightarrow> (\<forall>w. builder_ok w \<longrightarrow> builder_appends w (enc_value v) (call w))"

lemma writes_ok: "writes call v \<Longrightarrow> builder_ok w \<Longrightarrow> builder_ok (call w)"
  unfolding writes_def by (blast intro: appends_ok)

lemma writes_scalars:
  "writes builder_write_nil (MP_scalar Tag_nil)"
  "writes (\<lambda>w. builder_write_bool w b) (MP_scalar (Tag_bool b))"
  "writes (\<lambda>w. builder_write_i8 w i8) (MP_scalar (Tag_int (scast i8)))"
  "writes (\<lambda>w. builder_write_i16 w i16) (MP_scalar (Tag_int (scast i16)))"
  "writes (\<lambda>w. builder_write_i32 w i32) (MP_scalar (Tag_int (scast i32)))"
  "writes (\<lambda>w. builder_write_i64 w i64) (MP_scalar (Tag_int i64))"
  "writes (\<lambda>w. builder_write_u8 w u8) (MP_scalar (Tag_uint (ucast u8)))"
  "writes (\<lambda>w. builder_write_u16 w u16) (MP_scalar (Tag_uint (ucast u16)))"
  "writes (\<lambda>w. builder_write_u32 w u32) (MP_scalar (Tag_uint (ucast u32)))"
  "writes (\<lambda>w. builder_write_u64 w u64) (MP_scalar (Tag_uint u64))"
  "writes (\<lambda>w. builder_write_float w f) (MP_scalar (Tag_float f))"
  "writes (\<lambda>w. builder_write_double w d) (MP_scalar (Tag_double d))"
  unfolding writes_def builder_writes_tags enc_value.simps by (blast intro: appends_tag)+

lemma writes_string: "length s < 2 ^ 32 \<Longrightarrow> writes (builder_write_str s) (MP_str (str_bytes s))"
  unfolding writes_def builder_write_str_def using appends_string(1) [of _ "str_bytes s"] by simp

lemma writes_json: "json_packable v \<Longrightarrow> writes (toMessagePack v) (json_value v)"
  unfolding writes_def by (blast intro: appends_json)

lemma appends_start:
  assumes "builder_ok w"
  shows "builder_appends w (enc_tag (Tag_array (of_nat n))) (builder_start_array w n)"
    "builder_appends w (enc_tag (Tag_map (of_nat n))) (builder_start_map w n)"
  unfolding builder_writes_tags using assms by (blast intro: appends_tag)+

lemma writes_std_vector:
  assumes "\<And>x. x \<in> set xs \<Longrightarrow> writes (wr x) (g x)"
  shows "writes (builder_write_std_vector wr xs) (MP_array (map g xs))"
  unfolding writes_def
proof (intro allI impI)
  fix w
  assume ok: "builder_ok w"
  note h = appends_start(1) [OF ok, of "length xs"]
  have "builder_appends (builder_start_array w (length xs)) (concat (map (\<lambda>x. enc_value (g x)) xs))
      (fold wr xs (builder_start_array w (length xs)))"
    using assms appends_ok [OF h] by (intro appends_fold) (auto simp: writes_def)
  from appends_seq [OF h this] show "builder_appends w (enc_value (MP_array (map g xs))) (builder_write_std_vector wr xs w)"
    by (simp add: builder_write_std_vector_def o_def)
qed

lemma writes_array:
  assumes "list_all2 writes calls vs" "n = length vs"
  shows "writes (builder_array n calls) (MP_array vs)"
proof -
  have len: "length calls = length vs" using assms(1) by (rule list_all2_lengthD)
  have "writes (builder_write_std_vector fst (zip calls vs)) (MP_array (map snd (zip calls vs)))"
    using assms(1) by (intro writes_std_vector) (auto simp: list_all2_iff)
  moreover have "builder_write_std_vector fst (zip calls vs) = builder_array n calls"
  proof
    fix w
    have "fold (\<lambda>x. fst x) (zip calls vs) w' = fold (\<lambda>call w. call w) calls w'" for w'
      using len by (induction calls vs arbitrary: w' rule: list_induct2) auto
    then show "builder_write_std_vector fst (zip calls vs) w = builder_array n calls w"
      using len assms(2) by (simp add: builder_write_std_vector_def builder_array_def)
  qed
  ultimately show ?thesis using len by simp
qed

lemma writes_std_map:
  assumes "\<And>k v. (k, v) \<in> set m \<Longrightarrow> writes (wr1 k) (gk k) \<and> writes (wr2 v) (gv v)"
  shows "writes (builder_write_std_map wr1 wr2 m) (MP_map (map (\<lambda>(k, v). (gk k, gv v)) m))"
  unfolding writes_def
proof (intro allI impI)
  fix w
  assume ok: "builder_ok w"
  let ?f = "\<lambda>p w. wr2 (snd p) (wr1 (fst p) w)" and ?g = "\<lambda>p. enc_value (gk (fst p)) @ enc_value (gv (snd p))"
  note h = appends_start(2) [OF ok, of "length m"]
  have "builder_appends (builder_start_map w (length m)) (concat (map ?g m)) (fold ?f m (builder_start_map w (length m)))"
  proof (rule appends_fold [OF _ appends_ok [OF h]])
    fix p w
    assume p: "p \<in> set m" "builder_ok w"
    then have wr: "writes (wr1 (fst p)) (gk (fst p))" "writes (wr2 (snd p)) (gv (snd p))"
      using assms [of "fst p" "snd p"] by simp_all
    show "builder_appends w (?g p) (?f p w)"
      using appends_seq wr writes_ok [OF wr(1) p(2)] p(2) unfolding writes_def by blast
  qed
  from appends_seq [OF h this]
  show "builder_appends w (enc_value (MP_map (map (\<lambda>(k, v). (gk k, gv v)) m))) (builder_write_std_map wr1 wr2 m w)"
    by (simp add: builder_write_std_map_def o_def case_prod_beta)
qed

text \<open>Eigen vectors and spatial quantities are arrays of doubles.\<close>

definition doubles_value :: "u64 list \<Rightarrow> mp_value" where
  "doubles_value v = MP_array (map (\<lambda>d. MP_scalar (Tag_double d)) v)"

lemma write_vector_append: "write_vector (write_vector w a) b = write_vector w (a @ b)"
  by (simp add: write_vector_def)

lemma write_matrix_rows: "write_matrix w rows = write_vector w (concat rows)"
  by (induction rows arbitrary: w) (simp_all add: write_matrix_def write_vector_def)

lemma writes_doubles:
  assumes "length v = n"
  shows "writes (\<lambda>w. builder_finish_array (write_vector (builder_start_array w n) v)) (doubles_value v)"
  unfolding writes_def
proof (intro allI impI)
  fix w
  assume ok: "builder_ok w"
  note h = appends_start(1) [OF ok, of n]
  from appends_seq [OF h appends_doubles [OF appends_ok [OF h], of v]]
  show "builder_appends w (enc_value (doubles_value v)) (builder_finish_array (write_vector (builder_start_array w n) v))"
    using assms by (simp add: doubles_value_def o_def)
qed

lemma writes_vectors:
  "writes (\<lambda>w. builder_write_vectorx w v) (doubles_value v)"
  "length v = 2 \<Longrightarrow> writes (\<lambda>w. builder_write_vector2 w v) (doubles_value v)"
  "length v = 3 \<Longrightarrow> writes (\<lambda>w. builder_write_vector3 w v) (doubles_value v)"
  "length v = 4 \<Longrightarrow> writes (\<lambda>w. builder_write_vector4 w v) (doubles_value v)"
  "length v = 6 \<Longrightarrow> writes (\<lambda>w. builder_write_vector6 w v) (doubles_value v)"
  "length (a @ b) = 6 \<Longrightarrow> writes (\<lambda>w. builder_write_spatial w a b) (doubles_value (a @ b))"
  "length (concat rows @ t) = 12 \<Longrightarrow> writes (\<lambda>w. builder_write_ptransform w rows t) (doubles_value (concat rows @ t))"
  using writes_doubles [of v] writes_doubles [of "a @ b" 6] writes_doubles [of "concat rows @ t" 12]
  by (simp_all add: builder_write_vectorx_def builder_write_vector2_def builder_write_vector3_def builder_write_vector4_def
      builder_write_vector6_def builder_write_spatial_def builder_write_ptransform_def write_vector_append write_matrix_rows)

lemma writes_quaternion:
  "writes (\<lambda>w. builder_write_quaternion w a b c d) (doubles_value [a, b, c, d])"
  using writes_doubles [of "[a, b, c, d]" 4]
  by (simp add: builder_write_quaternion_def write_vector_def builder_write_double_def Let_def)

end
