(* ===== verification/Circular_Buffer.thy ===== *)
theory Circular_Buffer
  imports Mc_Prelude
begin

text \<open>
  \<open>mc_rtc::CircularBuffer\<close> (\<open>mc_rtc/utils.h\<close>): the queue between the control thread, which pushes, and
  the log thread, which pops. An array of one slot more than the queue can hold and two indices; the
  operations are atomic steps of the model.
\<close>

section \<open>The buffer\<close>

record 'a circular_buffer =
  cb_data :: "'a list"
  cb_tail :: nat
  cb_head :: nat

definition cb_new :: "nat \<Rightarrow> 'a \<Rightarrow> 'a circular_buffer" where
  "cb_new sz x = \<lparr>cb_data = replicate (sz + 1) x, cb_tail = 0, cb_head = 0\<rparr>"

definition cb_increment :: "'a circular_buffer \<Rightarrow> nat \<Rightarrow> nat" where
  "cb_increment b idx = (idx + 1) mod length (cb_data b)"

definition cb_push :: "'a \<Rightarrow> 'a circular_buffer \<Rightarrow> bool \<times> 'a circular_buffer" where
  "cb_push item b =
     (let next_tail = cb_increment b (cb_tail b) in
      if next_tail \<noteq> cb_head b then (True, b\<lparr>cb_data := (cb_data b)[cb_tail b := item], cb_tail := next_tail\<rparr>)
      else (False, b))"

definition cb_pop :: "'a circular_buffer \<Rightarrow> 'a option \<times> 'a circular_buffer" where
  "cb_pop b =
     (if cb_head b = cb_tail b then (None, b)
      else (Some (cb_data b ! cb_head b), b\<lparr>cb_head := cb_increment b (cb_head b)\<rparr>))"

definition cb_empty :: "'a circular_buffer \<Rightarrow> bool" where
  "cb_empty b \<longleftrightarrow> cb_head b = cb_tail b"

section \<open>Bounded queues\<close>

text \<open>What a client relies on: the content, the bound, and what each operation does to them.\<close>

locale bounded_queue =
  fixes valid :: "'q \<Rightarrow> bool" and items :: "'q \<Rightarrow> 'a list" and bound :: "'q \<Rightarrow> nat"
    and push :: "'a \<Rightarrow> 'q \<Rightarrow> bool \<times> 'q" and pop :: "'q \<Rightarrow> 'a option \<times> 'q"
  assumes push_full: "valid q \<Longrightarrow> bound q \<le> length (items q) \<Longrightarrow> push x q = (False, q)"
    and push_room: "valid q \<Longrightarrow> length (items q) < bound q \<Longrightarrow>
      \<exists>q'. push x q = (True, q') \<and> valid q' \<and> items q' = items q @ [x] \<and> bound q' = bound q"
    and pop_nil: "valid q \<Longrightarrow> items q = [] \<Longrightarrow> pop q = (None, q)"
    and pop_cons: "valid q \<Longrightarrow> items q = x # xs \<Longrightarrow> \<exists>q'. pop q = (Some x, q') \<and> valid q' \<and> items q' = xs \<and> bound q' = bound q"
begin

lemma push_cases:
  assumes "valid q" "push x q = (ok, q')"
  shows "valid q' \<and> bound q' = bound q \<and> items q' = items q @ (if ok then [x] else []) \<and> (ok \<longleftrightarrow> length (items q) < bound q)"
proof (cases "length (items q) < bound q")
  case True
  from push_room [OF assms(1) True, of x] assms(2) True show ?thesis by auto
next
  case False
  with push_full [OF assms(1), of x] assms show ?thesis by simp
qed

lemma pop_cases:
  assumes "valid q" "pop q = (r, q')"
  shows "valid q' \<and> bound q' = bound q \<and> items q = (case r of None \<Rightarrow> [] | Some x \<Rightarrow> [x]) @ items q'"
proof (cases "items q")
  case Nil
  with pop_nil [OF assms(1)] assms show ?thesis by auto
next
  case (Cons x xs)
  from pop_cons [OF assms(1) Cons] assms(2) Cons show ?thesis by auto
qed

lemma pop_none:
  assumes "valid q"
  shows "fst (pop q) = None \<longleftrightarrow> items q = []"
proof (cases "items q")
  case Nil
  with pop_nil [OF assms] show ?thesis by simp
next
  case (Cons x xs)
  from pop_cons [OF assms Cons] Cons show ?thesis by auto
qed

end

section \<open>The buffer is a bounded queue\<close>

definition cb_inv :: "'a circular_buffer \<Rightarrow> bool" where
  "cb_inv b \<longleftrightarrow> cb_tail b < length (cb_data b) \<and> cb_head b < length (cb_data b)"

definition cb_bound :: "'a circular_buffer \<Rightarrow> nat" where
  "cb_bound b = length (cb_data b) - 1"

text \<open>The slots in use: from the head to the tail, around the end of the array.\<close>

definition cb_items :: "'a circular_buffer \<Rightarrow> 'a list" where
  "cb_items b =
     (if cb_head b \<le> cb_tail b then drop (cb_head b) (take (cb_tail b) (cb_data b))
      else drop (cb_head b) (cb_data b) @ take (cb_tail b) (cb_data b))"

lemma increment_cases: "cb_inv b \<Longrightarrow> i < length (cb_data b) \<Longrightarrow>
    cb_increment b i = (if Suc i = length (cb_data b) then 0 else Suc i)"
  by (simp add: cb_increment_def)

lemma length_items: "cb_inv b \<Longrightarrow>
    length (cb_items b) = (if cb_head b \<le> cb_tail b then cb_tail b - cb_head b else length (cb_data b) - cb_head b + cb_tail b)"
  by (simp add: cb_inv_def cb_items_def)

lemma full_iff: "cb_inv b \<Longrightarrow> cb_increment b (cb_tail b) = cb_head b \<longleftrightarrow> cb_bound b \<le> length (cb_items b)"
  using increment_cases [of b "cb_tail b"]
  by (auto simp: length_items cb_bound_def cb_inv_def split: if_splits)

lemma drop_take_snoc: "h \<le> t \<Longrightarrow> t < length xs \<Longrightarrow> drop h (take (Suc t) (xs[t := x])) = drop h (take t xs) @ [x]"
  by (simp add: take_Suc_conv_app_nth)

lemma push_items:
  assumes "cb_inv b" "cb_increment b (cb_tail b) \<noteq> cb_head b"
  shows "cb_items (b\<lparr>cb_data := (cb_data b)[cb_tail b := x], cb_tail := cb_increment b (cb_tail b)\<rparr>) = cb_items b @ [x]"
proof (cases "Suc (cb_tail b) = length (cb_data b)")
  case True
  then have "cb_increment b (cb_tail b) = 0" using assms(1) increment_cases [of b "cb_tail b"] by (simp add: cb_inv_def)
  moreover have "drop (cb_head b) ((cb_data b)[cb_tail b := x]) = drop (cb_head b) (take (cb_tail b) (cb_data b)) @ [x]"
    using True assms(1) drop_take_snoc [of "cb_head b" "cb_tail b" "cb_data b" x] by (simp add: cb_inv_def)
  ultimately show ?thesis
    using True assms by (auto simp: cb_items_def cb_inv_def)
next
  case False
  then have "cb_increment b (cb_tail b) = Suc (cb_tail b)"
    using assms(1) increment_cases [of b "cb_tail b"] by (simp add: cb_inv_def)
  with assms False drop_take_snoc [of "cb_head b" "cb_tail b" "cb_data b" x] show ?thesis
    by (auto simp: cb_items_def cb_inv_def take_Suc_conv_app_nth)
qed

lemma pop_items:
  assumes "cb_inv b" "cb_head b \<noteq> cb_tail b"
  shows "cb_items b = cb_data b ! cb_head b # cb_items (b\<lparr>cb_head := cb_increment b (cb_head b)\<rparr>)"
proof (cases "cb_head b < cb_tail b")
  case True
  then have "cb_increment b (cb_head b) = Suc (cb_head b)"
    using assms(1) increment_cases [of b "cb_head b"] by (simp add: cb_inv_def)
  moreover have "drop (cb_head b) (take (cb_tail b) (cb_data b)) =
      cb_data b ! cb_head b # drop (Suc (cb_head b)) (take (cb_tail b) (cb_data b))"
    using True assms(1) by (subst Cons_nth_drop_Suc [symmetric]) (simp_all add: cb_inv_def)
  ultimately show ?thesis using True by (simp add: cb_items_def)
next
  case False
  then have "drop (cb_head b) (cb_data b) = cb_data b ! cb_head b # drop (Suc (cb_head b)) (cb_data b)"
    using assms(1) by (simp add: Cons_nth_drop_Suc cb_inv_def)
  with False assms show ?thesis
    using increment_cases [of b "cb_head b"] by (auto simp: cb_items_def cb_inv_def)
qed

interpretation cb: bounded_queue cb_inv cb_items cb_bound cb_push cb_pop
proof
  fix q :: "'a circular_buffer" and x :: 'a
  assume inv: "cb_inv q"
  show "cb_push x q = (False, q)" if "cb_bound q \<le> length (cb_items q)"
    using that full_iff [OF inv] by (simp add: cb_push_def)
  show "\<exists>q'. cb_push x q = (True, q') \<and> cb_inv q' \<and> cb_items q' = cb_items q @ [x] \<and> cb_bound q' = cb_bound q"
    if "length (cb_items q) < cb_bound q"
  proof -
    have room: "cb_increment q (cb_tail q) \<noteq> cb_head q" using that full_iff [OF inv] by simp
    moreover have "cb_increment q (cb_tail q) < length (cb_data q)"
      using inv increment_cases [OF inv, of "cb_tail q"] by (auto simp: cb_inv_def)
    ultimately show ?thesis
      using inv push_items [OF inv room, of x] by (simp add: cb_push_def cb_inv_def cb_bound_def)
  qed
next
  fix q :: "'a circular_buffer"
  assume inv: "cb_inv q" "cb_items q = []"
  then show "cb_pop q = (None, q)"
    using pop_items [OF inv(1)] by (auto simp: cb_pop_def)
next
  fix q :: "'a circular_buffer" and x xs
  assume inv: "cb_inv q" "cb_items q = x # xs"
  have ne: "cb_head q \<noteq> cb_tail q"
  proof
    assume "cb_head q = cb_tail q"
    then have "cb_items q = []" by (simp add: cb_items_def)
    with inv(2) show False by simp
  qed
  have "cb_increment q (cb_head q) < length (cb_data q)"
    using inv(1) increment_cases [OF inv(1), of "cb_head q"] by (auto simp: cb_inv_def)
  with ne pop_items [OF inv(1) ne] inv
  show "\<exists>q'. cb_pop q = (Some x, q') \<and> cb_inv q' \<and> cb_items q' = xs \<and> cb_bound q' = cb_bound q"
    by (simp add: cb_pop_def cb_inv_def cb_bound_def)
qed

lemma cb_new_items: "cb_inv (cb_new n x) \<and> cb_items (cb_new n x) = [] \<and> cb_bound (cb_new n x) = n"
  by (simp add: cb_new_def cb_inv_def cb_items_def cb_bound_def)

end
