(* ===== verification/Mc_Logger.thy ===== *)
theory Mc_Logger
  imports Msgpack_Containers Circular_Buffer
begin

text \<open>
  \<open>mc_rtc::Logger\<close> (\<open>log/Logger.h\<close>, \<open>log/utils.h\<close>, \<open>Logger.cpp\<close>): the entries that are logged, the events
  recorded since the last call of \<open>log\<close>, the message that \<open>log\<close> builds and the two ways it reaches the
  file. What the callback of an entry returns is an argument of \<open>logger_log\<close>; the time entry \<open>t\<close> is an
  entry like the others. The file is its bytes; whether it can be opened is an argument. Numbers are
  written to the file in the byte order of the machine, taken to be little endian.
\<close>

section \<open>Types of data\<close>

datatype log_type =
    Log_None
  | Log_Bool
  | Log_Int8_t
  | Log_Int16_t
  | Log_Int32_t
  | Log_Int64_t
  | Log_Uint8_t
  | Log_Uint16_t
  | Log_Uint32_t
  | Log_Uint64_t
  | Log_Float
  | Log_Double
  | Log_String
  | Log_Vector2d
  | Log_Vector3d
  | Log_Vector6d
  | Log_VectorXd
  | Log_Quaterniond
  | Log_PTransformd
  | Log_ForceVecd
  | Log_MotionVecd
  | Log_VectorDouble
  | Log_other int

text \<open>The values of the C++ enumeration, a 32 bit integer. \<open>Log_other\<close> is a value without a name.\<close>

fun log_type_code :: "log_type \<Rightarrow> int" where
  "log_type_code Log_None = 0"
| "log_type_code Log_Bool = 1"
| "log_type_code Log_Int8_t = 2"
| "log_type_code Log_Int16_t = 3"
| "log_type_code Log_Int32_t = 4"
| "log_type_code Log_Int64_t = 5"
| "log_type_code Log_Uint8_t = 6"
| "log_type_code Log_Uint16_t = 7"
| "log_type_code Log_Uint32_t = 8"
| "log_type_code Log_Uint64_t = 9"
| "log_type_code Log_Float = 10"
| "log_type_code Log_Double = 11"
| "log_type_code Log_String = 12"
| "log_type_code Log_Vector2d = 13"
| "log_type_code Log_Vector3d = 14"
| "log_type_code Log_Vector6d = 15"
| "log_type_code Log_VectorXd = 16"
| "log_type_code Log_Quaterniond = 17"
| "log_type_code Log_PTransformd = 18"
| "log_type_code Log_ForceVecd = 19"
| "log_type_code Log_MotionVecd = 20"
| "log_type_code Log_VectorDouble = 21"
| "log_type_code (Log_other i) = i"

definition log_types :: "log_type list" where
  "log_types =
     [Log_None, Log_Bool, Log_Int8_t, Log_Int16_t, Log_Int32_t,
      Log_Int64_t, Log_Uint8_t, Log_Uint16_t, Log_Uint32_t,
      Log_Uint64_t, Log_Float, Log_Double, Log_String, Log_Vector2d, Log_Vector3d,
      Log_Vector6d, Log_VectorXd, Log_Quaterniond, Log_PTransformd,
      Log_ForceVecd, Log_MotionVecd, Log_VectorDouble]"

definition log_type_of :: "int \<Rightarrow> log_type" where
  "log_type_of i = (if 0 \<le> i \<and> i < int (length log_types) then log_types ! nat i else Log_other i)"

text \<open>
  The data of one entry. The vectors, quaternions and spatial quantities are lists of doubles in the
  order in which they are stored; which of them a list is, the type of the entry says.
\<close>

datatype log_data =
    LD_bool bool
  | LD_i8 u8
  | LD_i16 u16
  | LD_i32 u32
  | LD_i64 u64
  | LD_u8 u8
  | LD_u16 u16
  | LD_u32 u32
  | LD_u64 u64
  | LD_float u32
  | LD_double u64
  | LD_string string
  | LD_doubles "u64 list"

text \<open>\<open>LogWriter\<close>: the \<open>write\<close> overload of the builder for the type of the data.\<close>

fun write_doubles :: "log_type \<Rightarrow> u64 list \<Rightarrow> builder_call" where
  "write_doubles Log_Vector2d v w = builder_write_vector2 w v"
| "write_doubles Log_Vector3d v w = builder_write_vector3 w v"
| "write_doubles Log_Vector6d v w = builder_write_vector6 w v"
| "write_doubles Log_VectorXd v w = builder_write_vectorx w v"
| "write_doubles Log_Quaterniond v w = builder_write_quaternion w (v ! 0) (v ! 1) (v ! 2) (v ! 3)"
| "write_doubles Log_PTransformd v w =
     builder_write_ptransform w [take 3 v, take 3 (drop 3 v), take 3 (drop 6 v)] (drop 9 v)"
| "write_doubles Log_ForceVecd v w = builder_write_spatial w (take 3 v) (drop 3 v)"
| "write_doubles Log_MotionVecd v w = builder_write_spatial w (take 3 v) (drop 3 v)"
| "write_doubles _ v w = builder_write_std_vector (\<lambda>d w. builder_write_double w d) v w"

fun write_log_data :: "log_type \<Rightarrow> log_data \<Rightarrow> builder_call" where
  "write_log_data ty (LD_bool b) w = builder_write_bool w b"
| "write_log_data ty (LD_i8 i) w = builder_write_i8 w i"
| "write_log_data ty (LD_i16 i) w = builder_write_i16 w i"
| "write_log_data ty (LD_i32 i) w = builder_write_i32 w i"
| "write_log_data ty (LD_i64 i) w = builder_write_i64 w i"
| "write_log_data ty (LD_u8 i) w = builder_write_u8 w i"
| "write_log_data ty (LD_u16 i) w = builder_write_u16 w i"
| "write_log_data ty (LD_u32 i) w = builder_write_u32 w i"
| "write_log_data ty (LD_u64 i) w = builder_write_u64 w i"
| "write_log_data ty (LD_float f) w = builder_write_float w f"
| "write_log_data ty (LD_double d) w = builder_write_double w d"
| "write_log_data ty (LD_string s) w = builder_write_str s w"
| "write_log_data ty (LD_doubles v) w = write_doubles ty v w"

section \<open>The file\<close>

text \<open>An unsigned 64 bit number in memory order.\<close>

definition host_u64 :: "nat \<Rightarrow> u8 list" where
  "host_u64 n = map (\<lambda>i. of_nat (n div 256 ^ i)) [0..<8]"

definition magic :: "u8 list" where
  "magic = [0x41, 0x4E, 0x4E, 0x45]"

definition log_version :: u8 where
  "log_version = 1"

definition log_header :: "u8 list" where
  "log_header = take 3 magic @ [magic ! 3 + log_version]"

text \<open>
  \<open>fwrite\<close>: the size and the data. The number of bytes is converted to \<open>int\<close>; a negative number writes
  nothing.
\<close>

definition log_fwrite :: "u8 list \<Rightarrow> nat \<Rightarrow> u8 list \<Rightarrow> u8 list" where
  "log_fwrite data sz f = f @ host_u64 sz @ take (nat (sint (of_nat sz :: u32))) data"

text \<open>
  The implementation behind a logger: the file, whether it is usable, and for the threaded policy
  the queue and the message that the log thread has popped and not yet written.
\<close>

record log_sink =
  sink_file :: "u8 list"
  sink_open :: bool
  sink_valid :: bool
  sink_threaded :: bool
  sink_queue :: "u8 list circular_buffer"
  sink_popped :: "u8 list option"

definition new_sink :: "bool \<Rightarrow> log_sink" where
  "new_sink threaded =
     \<lparr>sink_file = [], sink_open = False, sink_valid = True, sink_threaded = threaded,
      sink_queue = cb_new 2048 [], sink_popped = None\<rparr>"

text \<open>Writing to a stream that is not open has no effect.\<close>

definition sink_fwrite :: "u8 list \<Rightarrow> nat \<Rightarrow> log_sink \<Rightarrow> log_sink" where
  "sink_fwrite data sz s = (if sink_open s then s\<lparr>sink_file := log_fwrite data sz (sink_file s)\<rparr> else s)"

definition sink_write :: "u8 list \<Rightarrow> nat \<Rightarrow> log_sink \<Rightarrow> log_sink" where
  "sink_write data sz s =
     (if sink_threaded s then
        (case cb_push (take sz data) (sink_queue s) of (_, q) \<Rightarrow> s\<lparr>sink_queue := q\<rparr>)
      else if sink_valid s then sink_fwrite data sz s
      else s)"

text \<open>The two halves of \<open>write_data\<close>, which the log thread runs.\<close>

definition sink_pop :: "log_sink \<Rightarrow> log_sink" where
  "sink_pop s =
     (case sink_popped s of
        Some _ \<Rightarrow> s
      | None \<Rightarrow> (case cb_pop (sink_queue s) of (r, q) \<Rightarrow> s\<lparr>sink_queue := q, sink_popped := r\<rparr>))"

definition sink_flush_popped :: "log_sink \<Rightarrow> log_sink" where
  "sink_flush_popped s =
     (case sink_popped s of
        None \<Rightarrow> s
      | Some data \<Rightarrow> (sink_fwrite data (length data) s)\<lparr>sink_popped := None\<rparr>)"

text \<open>
  \<open>initialize\<close>: the previous file is closed and a new one opened. The threaded policy waits until the
  queue is empty, which the log thread brings about; the model takes the step when it is.
\<close>

definition sink_initialize :: "bool \<Rightarrow> log_sink \<Rightarrow> log_sink" where
  "sink_initialize opens s =
     s\<lparr>sink_file := (if opens then log_header else []), sink_open := opens\<rparr>"

section \<open>The logger\<close>

datatype log_event =
    KeyAddedEvent log_type string
  | KeyRemovedEvent string
  | GUIEvent "string list" string json
  | StartEvent

text \<open>The maps are lists of entries in the order of the keys; a transformation is a rotation and a translation.\<close>

record log_meta =
  timestep :: u64
  main_robot_name :: string
  main_robot_module :: "string list"
  meta_init :: "(string \<times> u64 list \<times> u64 list) list"
  meta_init_q :: "(string \<times> u64 list list) list"
  meta_calibs :: "(string \<times> (string \<times> json) list) list"

record log_entry =
  entry_type :: log_type
  entry_key :: string
  entry_source :: nat

record logger =
  lg_address :: nat
  lg_sink :: log_sink
  lg_data :: "u8 list"
  lg_meta :: log_meta
  log_events :: "log_event list"
  log_entries :: "log_entry list"

text \<open>\<open>setup\<close> chooses the policy; the message buffer starts with a mebibyte. The meta data is set by the caller.\<close>

definition logger_setup :: "bool \<Rightarrow> logger \<Rightarrow> logger" where
  "logger_setup threaded lg = lg\<lparr>lg_sink := new_sink threaded, lg_data := replicate (1024 * 1024) 0\<rparr>"

definition new_logger :: "nat \<Rightarrow> bool \<Rightarrow> log_meta \<Rightarrow> logger" where
  "new_logger address threaded m =
     logger_setup threaded
       \<lparr>lg_address = address, lg_sink = new_sink threaded, lg_data = [], lg_meta = m, log_events = [], log_entries = []\<rparr>"

definition find_entry :: "string \<Rightarrow> log_entry list \<Rightarrow> log_entry option" where
  "find_entry name es = find (\<lambda>e. entry_key e = name) es"

text \<open>\<open>erase(it)\<close> of the entry that \<open>find_entry\<close> returned.\<close>

fun erase_entry :: "string \<Rightarrow> log_entry list \<Rightarrow> log_entry list" where
  "erase_entry name [] = []"
| "erase_entry name (e # es) = (if entry_key e = name then es else e # erase_entry name es)"

definition addLogEntry :: "string \<Rightarrow> nat \<Rightarrow> log_type \<Rightarrow> bool \<Rightarrow> logger \<Rightarrow> logger" where
  "addLogEntry name source ty overwrite lg =
     (let exists = find_entry name (log_entries lg) \<noteq> None in
      if exists \<and> \<not> overwrite then lg
      else
        let es = (if exists then erase_entry name (log_entries lg) else log_entries lg) in
        lg\<lparr>log_events := log_events lg @ [KeyAddedEvent ty name],
           log_entries := es @ [\<lparr>entry_type = ty, entry_key = name, entry_source = source\<rparr>]\<rparr>)"

definition addGUIEvent :: "string list \<Rightarrow> string \<Rightarrow> json \<Rightarrow> logger \<Rightarrow> logger" where
  "addGUIEvent category name data lg = lg\<lparr>log_events := log_events lg @ [GUIEvent category name data]\<rparr>"

definition removeLogEntry :: "string \<Rightarrow> logger \<Rightarrow> logger" where
  "removeLogEntry name lg =
     (if find_entry name (log_entries lg) = None then lg
      else lg\<lparr>log_events := log_events lg @ [KeyRemovedEvent name], log_entries := erase_entry name (log_entries lg)\<rparr>)"

text \<open>The loop that \<open>removeLogEntries\<close> and \<open>clear\<close> share: entries that satisfy \<open>p\<close> go.\<close>

definition remove_where :: "(log_entry \<Rightarrow> bool) \<Rightarrow> bool \<Rightarrow> logger \<Rightarrow> logger" where
  "remove_where p record_events lg =
     lg\<lparr>log_events := log_events lg @
          (if record_events then map (\<lambda>e. KeyRemovedEvent (entry_key e)) (filter p (log_entries lg)) else []),
        log_entries := filter (\<lambda>e. \<not> p e) (log_entries lg)\<rparr>"

definition removeLogEntries :: "nat \<Rightarrow> logger \<Rightarrow> logger" where
  "removeLogEntries source lg = remove_where (\<lambda>e. entry_source e = source) True lg"

definition logger_clear :: "bool \<Rightarrow> logger \<Rightarrow> logger" where
  "logger_clear record_events lg = remove_where (\<lambda>e. entry_key e \<noteq> ''t'') record_events lg"

text \<open>The logger itself is the source of the time entry.\<close>

definition add_time_entry :: "logger \<Rightarrow> logger" where
  "add_time_entry lg = (if find_entry ''t'' (log_entries lg) = None then addLogEntry ''t'' (lg_address lg) Log_Double False lg else lg)"

definition logger_start :: "bool \<Rightarrow> bool \<Rightarrow> logger \<Rightarrow> logger" where
  "logger_start opens resume lg =
     (let lg = lg\<lparr>lg_sink := sink_initialize opens (lg_sink lg)\<rparr>;
          lg = (if opens then
                  add_time_entry
                    (if resume then
                       lg\<lparr>log_events := map (\<lambda>e. KeyAddedEvent (entry_type e) (entry_key e)) (log_entries lg)\<rparr>
                     else lg)
                else lg) in
      lg\<lparr>lg_sink := (lg_sink lg)\<lparr>sink_valid := opens\<rparr>, log_events := log_events lg @ [StartEvent]\<rparr>)"

definition logger_open :: "bool \<Rightarrow> logger \<Rightarrow> logger" where
  "logger_open opens lg =
     (let lg = lg\<lparr>lg_sink := sink_initialize opens (lg_sink lg)\<rparr>;
          lg = (if opens then add_time_entry lg else lg) in
      lg\<lparr>lg_sink := (lg_sink lg)\<lparr>sink_valid := opens\<rparr>, log_events := log_events lg @ [StartEvent]\<rparr>)"

section \<open>The message\<close>

definition write_transform :: "u64 list \<times> u64 list \<Rightarrow> builder_call" where
  "write_transform p w =
     builder_write_ptransform w [take 3 (fst p), take 3 (drop 3 (fst p)), drop 6 (fst p)] (snd p)"

fun write_event :: "log_meta \<Rightarrow> log_event \<Rightarrow> builder_call" where
  "write_event m (KeyAddedEvent ty key) =
     builder_array 3
       [\<lambda>w. builder_write_u8 w 0, \<lambda>w. builder_write_i32 w (of_int (log_type_code ty)), builder_write_str key]"
| "write_event m (KeyRemovedEvent key) = builder_array 2 [\<lambda>w. builder_write_u8 w 1, builder_write_str key]"
| "write_event m (GUIEvent category name data) =
     builder_array 4
       [\<lambda>w. builder_write_u8 w 2, builder_write_std_vector builder_write_str category, builder_write_str name, toMessagePack data]"
| "write_event m StartEvent =
     builder_array 7
       [\<lambda>w. builder_write_u8 w 3, \<lambda>w. builder_write_double w (timestep m), builder_write_str (main_robot_name m),
        builder_write_std_vector builder_write_str (main_robot_module m),
        builder_write_std_map builder_write_str write_transform (meta_init m),
        builder_write_std_map builder_write_str
          (builder_write_std_vector (builder_write_std_vector (\<lambda>d w. builder_write_double w d))) (meta_init_q m),
        builder_write_std_map builder_write_str (builder_write_std_map builder_write_str toMessagePack) (meta_calibs m)]"

definition write_log_message :: "(log_entry \<Rightarrow> log_data) \<Rightarrow> logger \<Rightarrow> builder_call" where
  "write_log_message values lg =
     builder_array 2
       [if log_events lg \<noteq> [] then builder_write_std_vector (write_event (lg_meta lg)) (log_events lg) else builder_write_nil,
        builder_write_std_vector (\<lambda>e. write_log_data (entry_type e) (values e)) (log_entries lg)]"

definition logger_log :: "(log_entry \<Rightarrow> log_data) \<Rightarrow> logger \<Rightarrow> logger" where
  "logger_log values lg =
     (case builder_finish (write_log_message values lg (builder_new (lg_data lg))) of (w, sz) \<Rightarrow>
        lg\<lparr>lg_data := w_buffer w, log_events := [], lg_sink := sink_write (w_buffer w) sz (lg_sink lg)\<rparr>)"

end
