(* ===== verification/Config_Spatial.thy ===== *)
theory Config_Spatial
  imports Configuration
begin

text \<open>
  The conversions of a \<open>Configuration\<close> to gains, matrices, quaternions and spatial quantities
  (\<open>Configuration.cpp\<close>). Matrices are lists of doubles by rows, quaternions are \<open>w\<close>, \<open>x\<close>, \<open>y\<close>, \<open>z\<close>. The
  numerical functions of Eigen and \<open>rpyToMat\<close> are parameters; which one is applied to which numbers is
  what the model says.
\<close>

record rotation_functions =
  normalized :: "u64 list \<Rightarrow> u64 list"
  toRotationMatrix :: "u64 list \<Rightarrow> u64 list"
  matrix_quaternion :: "u64 list \<Rightarrow> u64 list"
  rpyToMat :: "u64 list \<Rightarrow> u64 list"

definition double_one :: u64 where
  "double_one = 0x3FF0000000000000"

definition identity3 :: "u64 list" where
  "identity3 = [double_one, 0, 0, 0, double_one, 0, 0, 0, double_one]"

definition cast_or_default :: "(json \<Rightarrow> config_error + 'a) \<Rightarrow> 'a \<Rightarrow> json option \<Rightarrow> config_error + 'a" where
  "cast_or_default convert d opt = (case opt of Some v \<Rightarrow> convert v | None \<Rightarrow> Inr d)"

text \<open>\<open>Gains2d\<close>, \<open>Gains3d\<close> and \<open>Gains6d\<close>: a number stands for equal components.\<close>

definition to_gains :: "nat \<Rightarrow> json \<Rightarrow> config_error + u64 list" where
  "to_gains n v =
     (if IsNumber v then (case GetDouble v of Inl err \<Rightarrow> Inl err | Inr d \<Rightarrow> Inr (replicate n d)) else to_vector n v)"

text \<open>The elements of an array whose first element is tested; an empty array is read out of bounds.\<close>

definition numeric_array :: "string \<Rightarrow> (u64 list \<Rightarrow> config_error + 'a) \<Rightarrow> json \<Rightarrow> config_error + 'a" where
  "numeric_array what build v =
     (case v of
        J_array [] \<Rightarrow> Inl Rapidjson_assert
      | J_array (x # xs) \<Rightarrow>
          if IsNumber x then (case convert_all GetDouble (x # xs) of Inl err \<Rightarrow> Inl err | Inr ds \<Rightarrow> build ds)
          else Inl (Wrong_type what)
      | _ \<Rightarrow> Inl (Wrong_type what))"

definition to_quaternion :: "rotation_functions \<Rightarrow> json \<Rightarrow> config_error + u64 list" where
  "to_quaternion rf v =
     (if IsArray v \<and> config_size v \<notin> {0, 3, 4, 9} then Inl (Wrong_type ''Quaterniond'')
      else
        numeric_array ''Quaterniond'' (\<lambda>ds.
          if length ds = 4 then Inr (normalized rf ds)
          else if length ds = 9 then Inr (normalized rf (matrix_quaternion rf ds))
          else Inr (normalized rf (matrix_quaternion rf (rpyToMat rf ds)))) v)"

definition to_matrix3 :: "rotation_functions \<Rightarrow> json \<Rightarrow> config_error + u64 list" where
  "to_matrix3 rf v =
     (if IsArray v \<and> config_size v \<notin> {0, 3, 4, 9} then Inl (Wrong_type ''Matrix3d'')
      else
        numeric_array ''Matrix3d'' (\<lambda>ds.
          if length ds = 9 then Inr ds
          else if length ds = 3 then Inr (rpyToMat rf ds)
          else Inr (toRotationMatrix rf (normalized rf ds))) v)"

definition to_matrix6 :: "json \<Rightarrow> config_error + u64 list" where
  "to_matrix6 v =
     (if config_size v = 36 then numeric_array ''Matrix6d'' Inr v else Inl (Wrong_type ''Matrix6d''))"

text \<open>
  \<open>MatrixXd\<close>: the first row gives the number of columns. A longer or shorter row is only caught by an
  assertion.
\<close>

definition to_matrixx :: "json \<Rightarrow> config_error + u64 list list" where
  "to_matrixx v =
     (case v of
        J_array [] \<Rightarrow> Inl Rapidjson_assert
      | J_array (J_array [] # rows) \<Rightarrow> Inl Rapidjson_assert
      | J_array (J_array (x # xs) # rows) \<Rightarrow>
          if \<not> IsNumber x then Inl (Wrong_type ''MatrixXd'')
          else if list_all (\<lambda>r. IsArray r \<and> config_size r = Suc (length xs)) rows then
            convert_all (\<lambda>r. case r of J_array ds \<Rightarrow> convert_all GetDouble ds | _ \<Rightarrow> Inl Rapidjson_assert)
              (J_array (x # xs) # rows)
          else Inl Rapidjson_assert
      | _ \<Rightarrow> Inl (Wrong_type ''MatrixXd''))"

definition index_double :: "json \<Rightarrow> nat \<Rightarrow> config_error + u64" where
  "index_double v i = (case config_index v i of Inl err \<Rightarrow> Inl err | Inr x \<Rightarrow> to_double x)"

text \<open>A transformation is its rotation matrix and its translation.\<close>

definition to_ptransform :: "rotation_functions \<Rightarrow> json \<Rightarrow> config_error + u64 list \<times> u64 list" where
  "to_ptransform rf v =
     (let rot = config_find v ''rotation''; trans = config_find v ''translation'' in
      if rot \<noteq> None \<or> trans \<noteq> None then
        (case cast_or_default (to_matrix3 rf) identity3 rot of
           Inl err \<Rightarrow> Inl err
         | Inr r \<Rightarrow> (case cast_or_default (to_vector 3) [0, 0, 0] trans of Inl err \<Rightarrow> Inl err | Inr t \<Rightarrow> Inr (r, t)))
      else if config_size v = 7 then
        (case convert_all (index_double v) [0..<7] of
           Inl err \<Rightarrow> Inl err
         | Inr ds \<Rightarrow> Inr (toRotationMatrix rf (normalized rf (take 4 ds)), drop 4 ds))
      else if config_size v = 12 then
        (case convert_all (index_double v) [0..<12] of
           Inl err \<Rightarrow> Inl err
         | Inr ds \<Rightarrow> Inr (take 9 ds, drop 9 ds))
      else Inl (Wrong_type ''PTransformd''))"

text \<open>
  \<open>ForceVecd\<close> (keys \<open>couple\<close> and \<open>force\<close>), \<open>MotionVecd\<close> and \<open>ImpedanceVecd\<close> (keys \<open>angular\<close> and \<open>linear\<close>).
\<close>

definition to_spatial :: "string \<Rightarrow> string \<Rightarrow> json \<Rightarrow> config_error + u64 list \<times> u64 list" where
  "to_spatial first second v =
     (let a = config_find v first; b = config_find v second in
      if a \<noteq> None \<or> b \<noteq> None then
        (case cast_or_default (to_vector 3) [0, 0, 0] a of
           Inl err \<Rightarrow> Inl err
         | Inr x \<Rightarrow> (case cast_or_default (to_vector 3) [0, 0, 0] b of Inl err \<Rightarrow> Inl err | Inr y \<Rightarrow> Inr (x, y)))
      else if config_size v = 6 then
        (case convert_all (index_double v) [0..<6] of Inl err \<Rightarrow> Inl err | Inr ds \<Rightarrow> Inr (take 3 ds, drop 3 ds))
      else Inl (Wrong_type ''spatial vector''))"

section \<open>Reading what was written\<close>

lemma convert_all_ok: "list_all2 (\<lambda>x y. f x = Inr y) xs ys \<Longrightarrow> convert_all f xs = Inr ys"
  by (induction xs ys rule: list_all2_induct) auto

lemma convert_all_map: "(\<And>x. x \<in> set xs \<Longrightarrow> f (g x) = Inr (h x)) \<Longrightarrow> convert_all f (map g xs) = Inr (map h xs)"
  by (induction xs) auto

lemma convert_index:
  assumes "length ds = n"
  shows "convert_all (index_double (J_array (map J_double ds))) [0..<n] = Inr ds"
proof (rule convert_all_ok)
  show "list_all2 (\<lambda>i d. index_double (J_array (map J_double ds)) i = Inr d) [0..<n] ds"
    using assms by (auto simp: list_all2_conv_all_nth index_double_def config_index_def config_size_def to_double_def)
qed

lemma ptransform_array:
  assumes "length r = 9" "length t = 3"
  shows "to_ptransform rf (J_array (map J_double (r @ t))) = Inr (r, t)"
proof -
  have "config_size (J_array (map J_double (r @ t))) = 12"
    using assms by (simp add: config_size_def)
  moreover have "convert_all (index_double (J_array (map J_double (r @ t)))) [0..<12] = Inr (r @ t)"
    using assms by (intro convert_index) simp
  ultimately show ?thesis
    using assms by (simp add: to_ptransform_def config_find_def)
qed

lemma spatial_array:
  assumes "length a = 3" "length b = 3"
  shows "to_spatial first second (J_array (map J_double (a @ b))) = Inr (a, b)"
proof -
  have "config_size (J_array (map J_double (a @ b))) = 6"
    using assms by (simp add: config_size_def)
  moreover have "convert_all (index_double (J_array (map J_double (a @ b)))) [0..<6] = Inr (a @ b)"
    using assms by (intro convert_index) simp
  ultimately show ?thesis
    using assms by (simp add: to_spatial_def config_find_def)
qed

end
