(* ===== verification/Mc_Log_Reader.thy ===== *)
theory Mc_Log_Reader
  imports Mc_Logger Config_Spatial
begin

text \<open>
  Reading binary logs: \<open>internal::LogEntry\<close> (\<open>internals/LogEntry.h\<close>) decodes one message of a log,
  \<open>iterate_binary_log\<close> (\<open>iterate_binary_log.cpp\<close>) goes through a file. The nodes of the parsed message are
  read with the accessors of mpack, which may put the tree into its error state. Fuel bounds the
  rebuilding of configurations; \<open>None\<close> means it ran out. A message that the code marks invalid is
  \<open>Log_invalid\<close>, an exception of \<open>Configuration\<close> is \<open>Log_exception\<close>, and reading past the end of a vector is
  \<open>Log_undefined\<close>.
\<close>

section \<open>Results\<close>

datatype log_error = Log_invalid | Log_undefined | Log_exception config_error

type_synonym 'a log_res = "(log_error + 'a) option"

definition log_bind :: "'a log_res \<Rightarrow> ('a \<Rightarrow> 'b log_res) \<Rightarrow> 'b log_res" where
  "log_bind r f = (case r of None \<Rightarrow> None | Some (Inl err) \<Rightarrow> Some (Inl err) | Some (Inr x) \<Rightarrow> f x)"

definition from_res :: "'a res \<Rightarrow> 'a log_res" where
  "from_res r = (case r of None \<Rightarrow> None | Some (Inl err) \<Rightarrow> Some (Inl (Log_exception err)) | Some (Inr x) \<Rightarrow> Some (Inr x))"

definition from_conf :: "config_error + 'a \<Rightarrow> 'a log_res" where
  "from_conf r = Some (case r of Inl err \<Rightarrow> Inl (Log_exception err) | Inr x \<Rightarrow> Inr x)"

section \<open>Nodes\<close>

definition stringFromNode :: "mpack_tree \<Rightarrow> mpack_node \<Rightarrow> mpack_tree \<times> string option" where
  "stringFromNode t n =
     (if mpack_node_type t n \<noteq> mpack_type_str then (t, None)
      else case msgpack_toString t n of (t, s) \<Rightarrow> (t, Some s))"

fun strings_at :: "mpack_tree \<Rightarrow> mpack_node \<Rightarrow> nat list \<Rightarrow> mpack_tree \<times> string list option" where
  "strings_at t n [] = (t, Some [])"
| "strings_at t n (i # is) =
     (case mpack_node_array_at t n i of (t, m) \<Rightarrow>
        (case stringFromNode t m of
           (t, None) \<Rightarrow> (t, None)
         | (t, Some s) \<Rightarrow>
             (case strings_at t n is of (t, None) \<Rightarrow> (t, None) | (t, Some ss) \<Rightarrow> (t, Some (s # ss)))))"

definition stringVectorFromNode :: "mpack_tree \<Rightarrow> mpack_node \<Rightarrow> mpack_tree \<times> string list option" where
  "stringVectorFromNode t n =
     (if mpack_node_type t n \<noteq> mpack_type_array then (t, None)
      else case mpack_node_array_length t n of (t, s) \<Rightarrow> strings_at t n [0..<s])"

definition integer_node :: "mpack_tree \<Rightarrow> mpack_node \<Rightarrow> bool" where
  "integer_node t n \<longleftrightarrow> mpack_node_type t n = mpack_type_int \<or> mpack_node_type t n = mpack_type_uint"

definition logTypeFromNode :: "mpack_tree \<Rightarrow> mpack_node \<Rightarrow> mpack_tree \<times> log_type" where
  "logTypeFromNode t n =
     (if \<not> integer_node t n then (t, Log_None)
      else case mpack_node_i32 t n of (t, i) \<Rightarrow> (t, log_type_of (sint i)))"

text \<open>\<open>DataFromNode\<close>: an accessor is applied when the type of the node allows it.\<close>

definition data_if :: "bool \<Rightarrow> (mpack_tree \<Rightarrow> mpack_node \<Rightarrow> mpack_tree \<times> 'a) \<Rightarrow> ('a \<Rightarrow> log_data) \<Rightarrow> mpack_tree \<Rightarrow> mpack_node
    \<Rightarrow> mpack_tree \<times> log_data option" where
  "data_if allowed get mk t n = (if \<not> allowed then (t, None) else case get t n of (t, x) \<Rightarrow> (t, Some (mk x)))"

fun doubles_at :: "mpack_tree \<Rightarrow> mpack_node \<Rightarrow> nat list \<Rightarrow> mpack_tree \<times> u64 list" where
  "doubles_at t n [] = (t, [])"
| "doubles_at t n (i # is) =
     (case mpack_node_array_at t n i of (t, m) \<Rightarrow>
        (case mpack_node_double t m of (t, d) \<Rightarrow>
           (case doubles_at t n is of (t, ds) \<Rightarrow> (t, d # ds))))"

text \<open>Arrays of doubles; vectors of a fixed size test the length.\<close>

definition doublesFromNode :: "nat option \<Rightarrow> mpack_tree \<Rightarrow> mpack_node \<Rightarrow> mpack_tree \<times> log_data option" where
  "doublesFromNode fixed t n =
     (if mpack_node_type t n \<noteq> mpack_type_array then (t, None)
      else
        case mpack_node_array_length t n of (t, len) \<Rightarrow>
          if fixed \<noteq> None \<and> fixed \<noteq> Some len then (t, None)
          else case doubles_at t n [0..<len] of (t, ds) \<Rightarrow> (t, Some (LD_doubles ds)))"

fun dataFromNode :: "log_type \<Rightarrow> mpack_tree \<Rightarrow> mpack_node \<Rightarrow> mpack_tree \<times> log_data option" where
  "dataFromNode Log_Bool t n = data_if (mpack_node_type t n = mpack_type_bool) mpack_node_bool LD_bool t n"
| "dataFromNode Log_Int8_t t n = data_if (integer_node t n) mpack_node_i8 LD_i8 t n"
| "dataFromNode Log_Int16_t t n = data_if (integer_node t n) mpack_node_i16 LD_i16 t n"
| "dataFromNode Log_Int32_t t n = data_if (integer_node t n) mpack_node_i32 LD_i32 t n"
| "dataFromNode Log_Int64_t t n = data_if (integer_node t n) mpack_node_i64 LD_i64 t n"
| "dataFromNode Log_Uint8_t t n = data_if (integer_node t n) mpack_node_u8 LD_u8 t n"
| "dataFromNode Log_Uint16_t t n = data_if (integer_node t n) mpack_node_u16 LD_u16 t n"
| "dataFromNode Log_Uint32_t t n = data_if (integer_node t n) mpack_node_u32 LD_u32 t n"
| "dataFromNode Log_Uint64_t t n = data_if (integer_node t n) mpack_node_u64 LD_u64 t n"
| "dataFromNode Log_Float t n = data_if (mpack_node_type t n = mpack_type_float) mpack_node_float LD_float t n"
| "dataFromNode Log_Double t n =
     data_if (mpack_node_type t n = mpack_type_float \<or> mpack_node_type t n = mpack_type_double) mpack_node_double LD_double t n"
| "dataFromNode Log_String t n = data_if (mpack_node_type t n = mpack_type_str) msgpack_toString LD_string t n"
| "dataFromNode Log_Vector2d t n = doublesFromNode (Some 2) t n"
| "dataFromNode Log_Vector3d t n = doublesFromNode (Some 3) t n"
| "dataFromNode Log_Vector6d t n = doublesFromNode (Some 6) t n"
| "dataFromNode Log_VectorXd t n = doublesFromNode None t n"
| "dataFromNode Log_Quaterniond t n = doublesFromNode (Some 4) t n"
| "dataFromNode Log_PTransformd t n = doublesFromNode (Some 12) t n"
| "dataFromNode Log_ForceVecd t n = doublesFromNode (Some 6) t n"
| "dataFromNode Log_MotionVecd t n = doublesFromNode (Some 6) t n"
| "dataFromNode Log_VectorDouble t n = doublesFromNode None t n"
| "dataFromNode _ t n = (t, None)"

section \<open>Records\<close>

record log_record =
  rec_type :: log_type
  rec_data :: "log_data option"

definition empty_record :: log_record where
  "empty_record = \<lparr>rec_type = Log_None, rec_data = None\<rparr>"

definition typed_record :: "log_type \<Rightarrow> bool \<Rightarrow> mpack_tree \<Rightarrow> mpack_node \<Rightarrow> nat \<Rightarrow> mpack_tree \<times> log_record" where
  "typed_record ty extract t node idx =
     (if extract then
        (case mpack_node_array_at t node idx of (t, n) \<Rightarrow>
           (case dataFromNode ty t n of (t, d) \<Rightarrow> (t, \<lparr>rec_type = ty, rec_data = d\<rparr>)))
      else (t, \<lparr>rec_type = ty, rec_data = None\<rparr>))"

text \<open>In version 0 the type stands before the data.\<close>

definition recordFromNode_v0 :: "bool \<Rightarrow> mpack_tree \<Rightarrow> mpack_node \<Rightarrow> nat \<Rightarrow> mpack_tree \<times> log_record" where
  "recordFromNode_v0 extract t node idx =
     (if mpack_node_type t node \<noteq> mpack_type_array then (t, empty_record)
      else case mpack_node_array_length t node of (t, len) \<Rightarrow>
        if len = 1 then (t, empty_record)
        else case mpack_node_array_at t node idx of (t, n) \<Rightarrow>
          (case logTypeFromNode t n of (t, ty) \<Rightarrow> typed_record ty extract t node (idx + 1)))"

section \<open>Events\<close>

record typed_key =
  tk_type :: log_type
  tk_key :: string

text \<open>What the constructor of \<open>LogEntry\<close> hands back through its reference arguments.\<close>

record log_state =
  ls_meta :: "log_meta option"
  ls_keys :: "typed_key list"
  ls_events :: "(string list \<times> string \<times> json) list"
  ls_changed :: bool

definition read_key_added :: "mpack_tree \<Rightarrow> mpack_node \<Rightarrow> nat \<Rightarrow> log_state \<Rightarrow> (mpack_tree \<times> log_state) log_res" where
  "read_key_added t event event_size st =
     (if event_size \<noteq> 3 then Some (Inl Log_invalid)
      else
        case mpack_node_array_at t event 1 of (t, n) \<Rightarrow>
        (case logTypeFromNode t n of (t, ty) \<Rightarrow>
           if ty = Log_None then Some (Inl Log_invalid)
           else
             case mpack_node_array_at t event 2 of (t, n) \<Rightarrow>
             (case stringFromNode t n of
                (t, None) \<Rightarrow> Some (Inl Log_invalid)
              | (t, Some key) \<Rightarrow> Some (Inr (t, st\<lparr>ls_keys := ls_keys st @ [\<lparr>tk_type = ty, tk_key = key\<rparr>]\<rparr>)))))"

fun erase_key :: "string \<Rightarrow> typed_key list \<Rightarrow> typed_key list" where
  "erase_key key [] = []"
| "erase_key key (k # ks) = (if tk_key k = key then ks else k # erase_key key ks)"

definition read_key_removed :: "mpack_tree \<Rightarrow> mpack_node \<Rightarrow> nat \<Rightarrow> log_state \<Rightarrow> (mpack_tree \<times> log_state) log_res" where
  "read_key_removed t event event_size st =
     (if event_size \<noteq> 2 then Some (Inl Log_invalid)
      else
        case mpack_node_array_at t event 1 of (t, n) \<Rightarrow>
        (case stringFromNode t n of
           (t, None) \<Rightarrow> Some (Inl Log_invalid)
         | (t, Some key) \<Rightarrow> Some (Inr (t, st\<lparr>ls_keys := erase_key key (ls_keys st)\<rparr>))))"

definition read_gui_event :: "nat \<Rightarrow> mpack_tree \<Rightarrow> mpack_node \<Rightarrow> nat \<Rightarrow> log_state \<Rightarrow> (mpack_tree \<times> log_state) log_res" where
  "read_gui_event fuel t event event_size st =
     (if event_size \<noteq> 4 then Some (Inl Log_invalid)
      else
        case mpack_node_array_at t event 1 of (t, n) \<Rightarrow>
        case stringVectorFromNode t n of (t, category) \<Rightarrow>
        case mpack_node_array_at t event 2 of (t, n) \<Rightarrow>
        case stringFromNode t n of (t, name) \<Rightarrow>
        case mpack_node_array_at t event 3 of (t, n) \<Rightarrow>
        log_bind (from_res (fromMessagePack_root fuel t n)) (\<lambda>(t, data).
          case (category, name) of
            (Some category, Some name) \<Rightarrow> Some (Inr (t, st\<lparr>ls_events := ls_events st @ [(category, name, data)]\<rparr>))
          | _ \<Rightarrow> Some (Inl Log_invalid)))"

definition meta_field :: "json \<Rightarrow> nat \<Rightarrow> (json \<Rightarrow> config_error + 'a) \<Rightarrow> config_error + 'a" where
  "meta_field data i convert = (case config_index data i of Inl err \<Rightarrow> Inl err | Inr v \<Rightarrow> convert v)"

definition read_start_event ::
  "rotation_functions \<Rightarrow> nat \<Rightarrow> mpack_tree \<Rightarrow> mpack_node \<Rightarrow> nat \<Rightarrow> log_state \<Rightarrow> (mpack_tree \<times> log_state) log_res" where
  "read_start_event rf fuel t event event_size st =
     (if event_size < 5 then Some (Inl Log_invalid)
      else
        log_bind (from_res (fromMessagePack_root fuel t event)) (\<lambda>(t, data).
        log_bind (from_conf (meta_field data 1 to_double)) (\<lambda>ts.
        log_bind (from_conf (meta_field data 2 to_string)) (\<lambda>robot.
        log_bind (from_conf (meta_field data 3 (to_std_vector to_string))) (\<lambda>module.
        log_bind (from_conf (meta_field data 4 (to_std_map (to_ptransform rf)))) (\<lambda>init.
        log_bind (if 5 < config_size data
                  then from_conf (meta_field data 5 (to_std_map (to_std_vector (to_std_vector to_double))))
                  else Some (Inr [])) (\<lambda>init_q.
        log_bind (if 6 < config_size data
                  then from_conf (meta_field data 6 (to_std_map (to_std_map Inr)))
                  else Some (Inr [])) (\<lambda>calibs.
          Some (Inr (t, st\<lparr>ls_meta := Some \<lparr>timestep = ts, main_robot_name = robot, main_robot_module = module,
            meta_init = init, meta_init_q = init_q, meta_calibs = calibs\<rparr>\<rparr>))))))))))"

definition read_event ::
  "rotation_functions \<Rightarrow> nat \<Rightarrow> mpack_tree \<Rightarrow> mpack_node \<Rightarrow> log_state \<Rightarrow> (mpack_tree \<times> log_state) log_res" where
  "read_event rf fuel t event st =
     (if mpack_node_type t event \<noteq> mpack_type_array then Some (Inl Log_invalid)
      else
        case mpack_node_array_length t event of (t, event_size) \<Rightarrow>
          if event_size < 1 then Some (Inl Log_invalid)
          else
            case mpack_node_array_at t event 0 of (t, n) \<Rightarrow>
              if \<not> integer_node t n then Some (Inl Log_invalid)
              else
                case mpack_node_u8 t n of (t, event_t) \<Rightarrow>
                  if event_t = 0 then read_key_added t event event_size st
                  else if event_t = 1 then read_key_removed t event event_size st
                  else if event_t = 2 then read_gui_event fuel t event event_size st
                  else if event_t = 3 then read_start_event rf fuel t event event_size st
                  else Some (Inl Log_invalid))"

fun read_events ::
  "rotation_functions \<Rightarrow> nat \<Rightarrow> mpack_tree \<Rightarrow> mpack_node \<Rightarrow> nat list \<Rightarrow> log_state \<Rightarrow> (mpack_tree \<times> log_state) log_res" where
  "read_events rf fuel t events [] st = Some (Inr (t, st))"
| "read_events rf fuel t events (i # is) st =
     (case mpack_node_array_at t events i of (t, event) \<Rightarrow>
        log_bind (read_event rf fuel t event st) (\<lambda>(t, st). read_events rf fuel t events is st))"

section \<open>One message\<close>

text \<open>A decoded message keeps its tree, for \<open>getTime\<close> and \<open>copy\<close>.\<close>

record parsed_log =
  pl_version :: int
  pl_tree :: mpack_tree
  pl_root :: mpack_node
  pl_records :: "log_record list"

text \<open>Version 0: a list of keys, when it changed, and an array of types and data.\<close>

fun records_v0 :: "bool \<Rightarrow> string list \<Rightarrow> mpack_tree \<Rightarrow> mpack_node \<Rightarrow> nat list \<Rightarrow> log_record list \<Rightarrow> log_state
    \<Rightarrow> (mpack_tree \<times> log_record list \<times> log_state) log_res" where
  "records_v0 extract keys t records [] out st = Some (Inr (t, out, st))"
| "records_v0 extract keys t records (i # is) out st =
     (case recordFromNode_v0 extract t records (2 * i) of (t, r) \<Rightarrow>
        if keys = [] then records_v0 extract keys t records is (out @ [r]) st
        else if length keys \<le> i then Some (Inl Log_undefined)
        else
          records_v0 extract keys t records is (out @ [r])
            (st\<lparr>ls_keys := ls_keys st @ [\<lparr>tk_type = rec_type r, tk_key = keys ! i\<rparr>]\<rparr>))"

definition read_keys_v0 :: "mpack_tree \<Rightarrow> mpack_node \<Rightarrow> log_state \<Rightarrow> (mpack_tree \<times> string list \<times> log_state) log_res" where
  "read_keys_v0 t keys st =
     (if mpack_node_type t keys = mpack_type_nil then Some (Inr (t, [], st))
      else if mpack_node_type t keys = mpack_type_array then
        (case mpack_node_array_length t keys of (t, s) \<Rightarrow>
           (case strings_at t keys [0..<s] of
              (t, None) \<Rightarrow> Some (Inl Log_invalid)
            | (t, Some ks) \<Rightarrow> Some (Inr (t, ks, st\<lparr>ls_keys := [], ls_changed := True\<rparr>))))
      else Some (Inl Log_invalid))"

definition read_entry_v0 :: "bool \<Rightarrow> mpack_tree \<Rightarrow> mpack_node \<Rightarrow> log_state \<Rightarrow> (mpack_tree \<times> log_record list \<times> log_state) log_res"
where
  "read_entry_v0 extract t root st =
     (case mpack_node_array_at t root 0 of (t, keys) \<Rightarrow>
        log_bind (read_keys_v0 t keys st) (\<lambda>(t, ks, st).
          case mpack_node_array_at t root 1 of (t, records) \<Rightarrow>
            if mpack_node_type t records \<noteq> mpack_type_array then Some (Inl Log_invalid)
            else
              case mpack_node_array_length t records of (t, s) \<Rightarrow>
                records_v0 extract ks t records [0..<s div 2] [] st))"

text \<open>Version 1: the events since the last message and an array of data in the order of the keys.\<close>

fun records_v1 :: "bool \<Rightarrow> typed_key list \<Rightarrow> mpack_tree \<Rightarrow> mpack_node \<Rightarrow> nat list \<Rightarrow> log_record list
    \<Rightarrow> (mpack_tree \<times> log_record list) log_res" where
  "records_v1 extract keys t records [] out = Some (Inr (t, out))"
| "records_v1 extract keys t records (i # is) out =
     (if length keys \<le> i then Some (Inl Log_undefined)
      else
        case typed_record (tk_type (keys ! i)) extract t records i of (t, r) \<Rightarrow>
          records_v1 extract keys t records is (out @ [r]))"

definition read_entry_v1 ::
  "rotation_functions \<Rightarrow> nat \<Rightarrow> bool \<Rightarrow> mpack_tree \<Rightarrow> mpack_node \<Rightarrow> log_state \<Rightarrow> (mpack_tree \<times> log_record list \<times> log_state) log_res"
where
  "read_entry_v1 rf fuel extract t root st =
     (case mpack_node_array_at t root 0 of (t, events) \<Rightarrow>
        log_bind
          (if mpack_node_type t events = mpack_type_array then
             (case mpack_node_array_length t events of (t, s) \<Rightarrow>
                read_events rf fuel t events [0..<s] (st\<lparr>ls_changed := True\<rparr>))
           else Some (Inr (t, st)))
          (\<lambda>(t, st).
             case mpack_node_array_at t root 1 of (t, records) \<Rightarrow>
               if mpack_node_type t records \<noteq> mpack_type_array then Some (Inl Log_invalid)
               else
                 case mpack_node_array_length t records of (t, s) \<Rightarrow>
                   log_bind (records_v1 extract (ls_keys st) t records [0..<s] []) (\<lambda>(t, out). Some (Inr (t, out, st)))))"

definition LogEntry ::
  "tree_env \<Rightarrow> rotation_functions \<Rightarrow> nat \<Rightarrow> int \<Rightarrow> u8 list \<Rightarrow> bool \<Rightarrow> log_state \<Rightarrow> (parsed_log \<times> log_state) log_res" where
  "LogEntry env rf fuel version data extract st =
     (case mpack_tree_parse env fuel (mpack_tree_init_data data) of
        None \<Rightarrow> None
      | Some t \<Rightarrow>
          if t_error t \<noteq> mpack_ok then Some (Inl Log_invalid)
          else
            case mpack_tree_root t of (t, root) \<Rightarrow>
              if mpack_node_type t root \<noteq> mpack_type_array then Some (Inl Log_invalid)
              else
                case mpack_node_array_length t root of (t, len) \<Rightarrow>
                  if len \<noteq> 2 then Some (Inl Log_invalid)
                  else
                    log_bind
                      (if version = 0 then read_entry_v0 extract t root st
                       else if version = 1 then read_entry_v1 rf fuel extract t root st
                       else Some (Inl Log_invalid))
                      (\<lambda>(t, records, st).
                         Some (Inr (\<lparr>pl_version = version, pl_tree = t, pl_root = root, pl_records = records\<rparr>, st))))"

definition getTime :: "parsed_log \<Rightarrow> nat \<Rightarrow> u64" where
  "getTime pl idx =
     (case mpack_node_array_at (pl_tree pl) (pl_root pl) 1 of (t, vals) \<Rightarrow>
        (case mpack_node_array_at t vals (if pl_version pl = 0 then 2 * idx + 1 else idx) of (t, n) \<Rightarrow>
           snd (mpack_node_double t n)))"

section \<open>Copying a message\<close>

text \<open>\<open>copy_data\<close> descends into arrays; fuel bounds the depth.\<close>

fun copy_data :: "nat \<Rightarrow> mpack_tree \<Rightarrow> mpack_node \<Rightarrow> mpack_writer \<Rightarrow> (mpack_tree \<times> mpack_writer) option"
  and copy_elements :: "nat \<Rightarrow> mpack_tree \<Rightarrow> mpack_node \<Rightarrow> nat list \<Rightarrow> mpack_writer \<Rightarrow> (mpack_tree \<times> mpack_writer) option" where
  "copy_data 0 t n w = None"
| "copy_data (Suc fuel) t n w =
     (case mpack_node_type t n of
        mpack_type_bool \<Rightarrow> (case mpack_node_bool t n of (t, b) \<Rightarrow> Some (t, builder_write_bool w b))
      | mpack_type_int \<Rightarrow> (case mpack_node_i64 t n of (t, i) \<Rightarrow> Some (t, builder_write_i64 w i))
      | mpack_type_uint \<Rightarrow> (case mpack_node_u64 t n of (t, i) \<Rightarrow> Some (t, builder_write_u64 w i))
      | mpack_type_float \<Rightarrow> (case mpack_node_float t n of (t, f) \<Rightarrow> Some (t, builder_write_float w f))
      | mpack_type_double \<Rightarrow> (case mpack_node_double t n of (t, d) \<Rightarrow> Some (t, builder_write_double w d))
      | mpack_type_str \<Rightarrow> (case msgpack_toString t n of (t, s) \<Rightarrow> Some (t, builder_write_chars w (str_bytes s) (length s)))
      | mpack_type_array \<Rightarrow>
          (case mpack_node_array_length t n of (t, len) \<Rightarrow>
             (case copy_elements fuel t n [0..<len] (builder_start_array w len) of
                None \<Rightarrow> None
              | Some (t, w) \<Rightarrow> Some (t, builder_finish_array w)))
      | _ \<Rightarrow> Some (t, w))"
| "copy_elements fuel t n [] w = Some (t, w)"
| "copy_elements fuel t n (i # is) w =
     (case mpack_node_array_at t n i of (t, m) \<Rightarrow>
        (case copy_data fuel t m w of None \<Rightarrow> None | Some (t, w) \<Rightarrow> copy_elements fuel t n is w))"

text \<open>\<open>copy(builder, keys)\<close>: \<open>Inl\<close> when the numbers of keys and of records differ, which is an exception.\<close>

definition log_copy :: "nat \<Rightarrow> parsed_log \<Rightarrow> string list \<Rightarrow> mpack_writer \<Rightarrow> (unit + mpack_writer) option" where
  "log_copy fuel pl keys w =
     (if length keys \<noteq> length (pl_records pl) then Some (Inl ())
      else
        let w = builder_start_array w 2;
            w = builder_finish_array
                  (fold (\<lambda>(k, r). builder_array 3
                      [\<lambda>w. builder_write_u8 w 0, \<lambda>w. builder_write_i32 w (of_int (log_type_code (rec_type r))), builder_write_str k])
                    (zip keys (pl_records pl)) (builder_start_array w (length keys))) in
        case mpack_node_array_at (pl_tree pl) (pl_root pl) 1 of (t, val) \<Rightarrow>
        case mpack_node_array_length t val of (t, s) \<Rightarrow>
        (case copy_elements fuel t val [0..<s] (builder_start_array w s) of
           None \<Rightarrow> None
         | Some (t, w) \<Rightarrow> Some (Inr (builder_finish_array (builder_finish_array w)))))"

section \<open>Files\<close>

definition host_nat :: "u8 list \<Rightarrow> nat" where
  "host_nat bs = foldr (\<lambda>b n. unat b + 256 * n) bs 0"

record log_item =
  it_keys :: "string list"
  it_records :: "log_record list"
  it_gui :: "(string list \<times> string \<times> json) list"
  it_time :: "u64 option"
  it_entry :: parsed_log
  it_data :: "u8 list"
  it_meta :: "log_meta option"

text \<open>The time of a message, when a time key is asked for: the key must exist and hold doubles.\<close>

definition find_time :: "string \<Rightarrow> parsed_log \<Rightarrow> typed_key list \<Rightarrow> u64 option option" where
  "find_time time pl keys =
     (if time = '''' then Some None
      else
        case find (\<lambda>i. tk_key (keys ! i) = time) [0..<length keys] of
          None \<Rightarrow> None
        | Some i \<Rightarrow> if tk_type (keys ! i) \<noteq> Log_Double then None else Some (Some (getTime pl i)))"

text \<open>
  The loop. A callback gets the state of the caller and a message; it may fail, and returns whether
  to go on. A short read ends the loop with success; the number of bytes to read is converted to \<open>int\<close>.
\<close>

function iterate_entries ::
  "tree_env \<Rightarrow> rotation_functions \<Rightarrow> nat \<Rightarrow> ('s \<Rightarrow> log_item \<Rightarrow> log_error + 's \<times> bool) \<Rightarrow> bool \<Rightarrow> string \<Rightarrow> int \<Rightarrow> u8 list \<Rightarrow> u8 list
    \<Rightarrow> log_state \<Rightarrow> 's \<Rightarrow> ('s \<times> bool) log_res" where
  "iterate_entries env rf fuel callback extract time version file buffer st s =
     (if length file < 8 then Some (Inr (s, True))
      else
        let entrySize = host_nat (take 8 file);
            buffer = buffer @ replicate (grow_size (length buffer) entrySize - length buffer) 0;
            count = sint (of_nat entrySize :: u32) in
        if count < 0 \<or> length (drop 8 file) < nat count then Some (Inr (s, True))
        else
          let data = take (nat count) (drop 8 file);
              buffer = data @ drop (nat count) buffer in
          case LogEntry env rf fuel version (take entrySize buffer) extract (st\<lparr>ls_events := [], ls_changed := False\<rparr>) of
            None \<Rightarrow> None
          | Some (Inl Log_invalid) \<Rightarrow> Some (Inr (s, False))
          | Some (Inl err) \<Rightarrow> Some (Inl err)
          | Some (Inr (pl, st)) \<Rightarrow>
              (case find_time time pl (ls_keys st) of
                 None \<Rightarrow> Some (Inr (s, False))
               | Some tm \<Rightarrow>
                   (case callback s \<lparr>it_keys = (if ls_changed st then map tk_key (ls_keys st) else []),
                       it_records = pl_records pl, it_gui = ls_events st, it_time = tm, it_entry = pl,
                       it_data = take entrySize buffer, it_meta = ls_meta st\<rparr> of
                      Inl err \<Rightarrow> Some (Inl err)
                    | Inr (s, False) \<Rightarrow> Some (Inr (s, False))
                    | Inr (s, True) \<Rightarrow>
                        iterate_entries env rf fuel callback extract time version (drop (nat count) (drop 8 file)) buffer st s)))"
  by pat_completeness auto
termination
  by (relation "measure (\<lambda>(env, rf, fuel, callback, extract, time, version, file, buffer, st, s). length file)") auto

declare iterate_entries.simps [simp del]

definition initial_log_state :: log_state where
  "initial_log_state = \<lparr>ls_meta = None, ls_keys = [], ls_events = [], ls_changed = False\<rparr>"

text \<open>\<open>None\<close> as a file: it does not exist or cannot be opened. The buffer starts as zeros.\<close>

definition iterate_binary_log ::
  "tree_env \<Rightarrow> rotation_functions \<Rightarrow> nat \<Rightarrow> u8 list option \<Rightarrow> ('s \<Rightarrow> log_item \<Rightarrow> log_error + 's \<times> bool) \<Rightarrow> bool \<Rightarrow> string \<Rightarrow> 's
    \<Rightarrow> ('s \<times> bool) log_res" where
  "iterate_binary_log env rf fuel file callback extract time s =
     (case file of
        None \<Rightarrow> Some (Inr (s, False))
      | Some bytes \<Rightarrow>
          let buffer = take 4 bytes @ replicate (1024 - length (take 4 bytes)) 0;
              version = sint (buffer ! 3 - magic ! 3) in
          if take 3 buffer \<noteq> take 3 magic then Some (Inr (s, False))
          else if version < 0 \<or> sint log_version < version then Some (Inr (s, False))
          else iterate_entries env rf fuel callback extract time version (drop 4 bytes) buffer initial_log_state s)"

end
