(* ===== verification/Mc_Flat_Log.thy ===== *)
theory Mc_Flat_Log
  imports Mc_Log_Reader
begin

text \<open>
  \<open>mc_rtc::log::FlatLog\<close> (\<open>log/FlatLog.h\<close>, \<open>log/FlatLog.hpp\<close>, \<open>FlatLog.cpp\<close>): a log in memory, one column of
  records per entry. \<open>load\<close> and \<open>append\<close> fill it from a binary log through \<open>iterate_binary_log\<close> or from a file
  of the older flat format, and the accessors read it. The type requested by an accessor is given by its
  \<open>log_type\<close>.
\<close>

section \<open>The log\<close>

type_synonym gui_events = "(string list \<times> string \<times> json) list"

record flat_log =
  fl_data :: "(string \<times> log_record list) list"
  fl_gui_events :: "gui_events list"
  fl_meta :: "log_meta option"

definition new_flat_log :: flat_log where
  "new_flat_log = \<lparr>fl_data = [], fl_gui_events = [], fl_meta = None\<rparr>"

text \<open>\<open>std::vector::resize\<close> on a column.\<close>

definition resize_records :: "nat \<Rightarrow> log_record list \<Rightarrow> log_record list" where
  "resize_records n rs = take n rs @ replicate (n - length rs) empty_record"

definition resize_column :: "nat \<Rightarrow> nat \<Rightarrow> (string \<times> log_record list) list \<Rightarrow> (string \<times> log_record list) list" where
  "resize_column n k data = data[k := (fst (data ! k), resize_records n (snd (data ! k)))]"

definition fl_find :: "string \<Rightarrow> (string \<times> log_record list) list \<Rightarrow> nat option" where
  "fl_find entry data = find (\<lambda>i. fst (data ! i) = entry) [0..<length data]"

definition fl_index :: "string \<Rightarrow> nat \<Rightarrow> (string \<times> log_record list) list \<Rightarrow> nat \<times> (string \<times> log_record list) list" where
  "fl_index entry n data =
     (case fl_find entry data of
        Some i \<Rightarrow> (i, resize_column n i data)
      | None \<Rightarrow> (length data, data @ [(entry, replicate n empty_record)]))"

section \<open>Binary logs\<close>

text \<open>The variables of \<open>appendBin\<close> that its callback captures.\<close>

record append_state =
  ap_log :: flat_log
  ap_current :: "nat list"
  ap_missing :: "nat list"
  ap_size :: nat

fun index_keys :: "string list \<Rightarrow> nat \<Rightarrow> (string \<times> log_record list) list \<Rightarrow> nat list \<times> (string \<times> log_record list) list" where
  "index_keys [] n data = ([], data)"
| "index_keys (k # ks) n data =
     (case fl_index k n data of (i, data) \<Rightarrow>
        (case index_keys ks n data of (is, data) \<Rightarrow> (i # is, data)))"

definition append_keys :: "string list \<Rightarrow> append_state \<Rightarrow> append_state" where
  "append_keys ks a =
     (if ks = [] then a
      else
        let data = fold (resize_column (ap_size a)) (ap_missing a) (fl_data (ap_log a)) in
        case index_keys ks (ap_size a) data of (is, data) \<Rightarrow>
          a\<lparr>ap_log := (ap_log a)\<lparr>fl_data := data\<rparr>, ap_current := is,
            ap_missing := filter (\<lambda>i. i \<notin> set is) [0..<length data]\<rparr>)"

text \<open>The records go to the columns of the current keys; more records than keys read past the end.\<close>

fun push_records :: "nat list \<Rightarrow> log_record list \<Rightarrow> (string \<times> log_record list) list
    \<Rightarrow> log_error + (string \<times> log_record list) list" where
  "push_records is [] data = Inr data"
| "push_records [] (r # rs) data = Inl Log_undefined"
| "push_records (i # is) (r # rs) data = push_records is rs (data[i := (fst (data ! i), snd (data ! i) @ [r])])"

definition append_meta :: "log_meta option \<Rightarrow> append_state \<Rightarrow> append_state" where
  "append_meta m a =
     (if fl_meta (ap_log a) = None \<and> m \<noteq> None then a\<lparr>ap_log := (ap_log a)\<lparr>fl_meta := m\<rparr>\<rparr> else a)"

definition append_row :: "append_state \<Rightarrow> log_item \<Rightarrow> log_error + append_state \<times> bool" where
  "append_row a item =
     (let a = append_keys (it_keys item) (append_meta (it_meta item) a) in
      case push_records (ap_current a) (it_records item) (fl_data (ap_log a)) of
        Inl err \<Rightarrow> Inl err
      | Inr data \<Rightarrow>
          Inr (a\<lparr>ap_log := (ap_log a)\<lparr>fl_data := data, fl_gui_events := fl_gui_events (ap_log a) @ [it_gui item]\<rparr>,
                 ap_size := ap_size a + 1\<rparr>, True))"

definition flat_log_size :: "flat_log \<Rightarrow> nat" where
  "flat_log_size fl = (case fl_data fl of [] \<Rightarrow> 0 | d # _ \<Rightarrow> length (snd d))"

definition append_finish :: "append_state \<Rightarrow> flat_log" where
  "append_finish a = (ap_log a)\<lparr>fl_data := fold (resize_column (ap_size a)) (ap_missing a) (fl_data (ap_log a))\<rparr>"

definition appendBin :: "tree_env \<Rightarrow> rotation_functions \<Rightarrow> nat \<Rightarrow> u8 list option \<Rightarrow> flat_log \<Rightarrow> flat_log log_res" where
  "appendBin env rf fuel bytes fl =
     log_bind
       (iterate_binary_log env rf fuel bytes append_row True ''''
         \<lparr>ap_log = fl, ap_current = [], ap_missing = [], ap_size = flat_log_size fl\<rparr>)
       (\<lambda>(a, ok). Some (Inr (append_finish a)))"

section \<open>Flat files\<close>

text \<open>
  A file stream: the bytes ahead, and whether a read has failed. A read past the end stores what is
  left and fails; after that reads store nothing. The value is the bytes of the variable before the read.
\<close>

type_synonym ifstream = "u8 list \<times> bool"

definition ifs_read :: "nat \<Rightarrow> u8 list \<Rightarrow> ifstream \<Rightarrow> u8 list \<times> ifstream" where
  "ifs_read n old s =
     (if snd s then (old, s)
      else (take n (fst s) @ drop (length (take n (fst s))) old, (drop n (fst s), length (fst s) < n)))"

text \<open>\<open>read(&str[0], static_cast<int>(n))\<close>: a negative count fails.\<close>

definition ifs_read_string :: "nat \<Rightarrow> ifstream \<Rightarrow> string \<times> ifstream" where
  "ifs_read_string n s =
     (let count = sint (of_nat n :: u32); old = str_bytes (replicate n (CHR ''0'')) in
      if count < 0 then (replicate n (CHR ''0''), (fst s, True))
      else case ifs_read (nat count) old s of (bs, s) \<Rightarrow> (bytes_str bs, s))"

definition ifs_read_u64 :: "nat \<Rightarrow> ifstream \<Rightarrow> nat \<times> ifstream" where
  "ifs_read_u64 old s = (case ifs_read 8 (host_u64 old) s of (bs, s) \<Rightarrow> (host_nat bs, s))"

definition isnan :: "u64 \<Rightarrow> bool" where
  "isnan d \<longleftrightarrow> 0x7FF0000000000000 < d AND 0x7FFFFFFFFFFFFFFF"

definition flat_record :: "bool \<Rightarrow> ifstream \<Rightarrow> log_record \<times> ifstream" where
  "flat_record is_numeric s =
     (if is_numeric then
        (case ifs_read 8 (replicate 8 0) s of (bs, s) \<Rightarrow>
           let d = of_nat (host_nat bs) in
           (if isnan d then empty_record else \<lparr>rec_type = Log_Double, rec_data = Some (LD_double d)\<rparr>, s))
      else
        (case ifs_read_u64 0 s of (n, s) \<Rightarrow>
           if n = 0 then (empty_record, s)
           else case ifs_read_string n s of (str, s) \<Rightarrow>
             (\<lparr>rec_type = Log_String, rec_data = Some (LD_string str)\<rparr>, s)))"

fun flat_records :: "nat \<Rightarrow> bool \<Rightarrow> ifstream \<Rightarrow> log_record list \<times> ifstream" where
  "flat_records 0 is_numeric s = ([], s)"
| "flat_records (Suc n) is_numeric s =
     (case flat_record is_numeric s of (r, s) \<Rightarrow>
        (case flat_records n is_numeric s of (rs, s) \<Rightarrow> (r # rs, s)))"

fun flat_entries :: "nat \<Rightarrow> nat \<Rightarrow> nat \<Rightarrow> (string \<times> log_record list) list \<Rightarrow> ifstream
    \<Rightarrow> nat \<times> (string \<times> log_record list) list" where
  "flat_entries 0 n nsize data s = (nsize, data)"
| "flat_entries (Suc m) n nsize data s =
     (case ifs_read 1 [0] s of (b, s) \<Rightarrow>
      case ifs_read_u64 0 s of (sz, s) \<Rightarrow>
      case ifs_read_string sz s of (key, s) \<Rightarrow>
      case fl_index key n data of (i, data) \<Rightarrow>
      case ifs_read_u64 sz s of (sz, s) \<Rightarrow>
      case flat_records sz (b \<noteq> [0]) s of (rs, s) \<Rightarrow>
        let column = snd (data ! i) @ rs in
        flat_entries m n (length column) (data[i := (fst (data ! i), column)]) s)"

text \<open>\<open>None\<close>: the file does not exist or cannot be opened.\<close>

definition appendFlat :: "u8 list option \<Rightarrow> flat_log \<Rightarrow> flat_log" where
  "appendFlat bytes fl =
     (case bytes of
        None \<Rightarrow> fl
      | Some bs \<Rightarrow>
          (case ifs_read_u64 0 (bs, False) of (nEntries, s) \<Rightarrow>
             (case flat_entries nEntries (flat_log_size fl) 0 (fl_data fl) s of (nsize, data) \<Rightarrow>
                fl\<lparr>fl_data := map (\<lambda>(name, rs). (name, resize_records nsize rs)) data\<rparr>)))"

definition flat_log_append ::
  "tree_env \<Rightarrow> rotation_functions \<Rightarrow> nat \<Rightarrow> bool \<Rightarrow> u8 list option \<Rightarrow> flat_log \<Rightarrow> flat_log log_res" where
  "flat_log_append env rf fuel is_flat bytes fl =
     (if is_flat then Some (Inr (appendFlat bytes fl)) else appendBin env rf fuel bytes fl)"

text \<open>The events and the meta data of a previous file stay.\<close>

definition flat_log_load ::
  "tree_env \<Rightarrow> rotation_functions \<Rightarrow> nat \<Rightarrow> bool \<Rightarrow> u8 list option \<Rightarrow> flat_log \<Rightarrow> flat_log log_res" where
  "flat_log_load env rf fuel is_flat bytes fl = flat_log_append env rf fuel is_flat bytes (fl\<lparr>fl_data := []\<rparr>)"

section \<open>Accessors\<close>

definition flat_log_entries :: "flat_log \<Rightarrow> string set" where
  "flat_log_entries fl = set (map fst (fl_data fl))"

definition flat_log_has :: "string \<Rightarrow> flat_log \<Rightarrow> bool" where
  "flat_log_has entry fl \<longleftrightarrow> list_ex (\<lambda>d. fst d = entry) (fl_data fl)"

text \<open>\<open>at\<close> throws when there is no such entry; every caller has tested it.\<close>

definition flat_log_at :: "string \<Rightarrow> flat_log \<Rightarrow> log_record list option" where
  "flat_log_at entry fl = map_of (fl_data fl) entry"

definition flat_log_types :: "string \<Rightarrow> flat_log \<Rightarrow> log_type set" where
  "flat_log_types entry fl =
     (case flat_log_at entry fl of None \<Rightarrow> {} | Some rs \<Rightarrow> set (map rec_type rs) - {Log_None})"

definition flat_log_type :: "string \<Rightarrow> flat_log \<Rightarrow> log_type" where
  "flat_log_type entry fl =
     (case flat_log_at entry fl of
        None \<Rightarrow> Log_None
      | Some rs \<Rightarrow> (case find (\<lambda>r. rec_type r \<noteq> Log_None) rs of None \<Rightarrow> Log_None | Some r \<Rightarrow> rec_type r))"

definition flat_log_type_at :: "string \<Rightarrow> nat \<Rightarrow> flat_log \<Rightarrow> log_type" where
  "flat_log_type_at entry i fl =
     (case flat_log_at entry fl of
        None \<Rightarrow> Log_None
      | Some rs \<Rightarrow> if length rs \<le> i then Log_None else rec_type (rs ! i))"

definition record_cast :: "log_type \<Rightarrow> log_record \<Rightarrow> log_data option" where
  "record_cast ty r = (if rec_type r = ty then rec_data r else None)"

definition convert_record :: "log_type \<Rightarrow> log_record \<Rightarrow> log_data \<Rightarrow> log_data" where
  "convert_record ty r out = (case record_cast ty r of None \<Rightarrow> out | Some d \<Rightarrow> d)"

definition getRaw :: "log_type \<Rightarrow> string \<Rightarrow> flat_log \<Rightarrow> log_data option list" where
  "getRaw ty entry fl = (case flat_log_at entry fl of None \<Rightarrow> [] | Some rs \<Rightarrow> map (record_cast ty) rs)"

definition getRaw_at :: "log_type \<Rightarrow> string \<Rightarrow> nat \<Rightarrow> flat_log \<Rightarrow> log_data option" where
  "getRaw_at ty entry i fl =
     (case flat_log_at entry fl of
        None \<Rightarrow> None
      | Some rs \<Rightarrow> if length rs \<le> i then None else record_cast ty (rs ! i))"

definition get_default :: "log_type \<Rightarrow> string \<Rightarrow> log_data \<Rightarrow> flat_log \<Rightarrow> log_data list" where
  "get_default ty entry def fl =
     (case flat_log_at entry fl of None \<Rightarrow> [] | Some rs \<Rightarrow> map (\<lambda>r. convert_record ty r def) rs)"

definition get_at :: "log_type \<Rightarrow> string \<Rightarrow> nat \<Rightarrow> log_data \<Rightarrow> flat_log \<Rightarrow> log_data" where
  "get_at ty entry i def fl = (case getRaw_at ty entry i fl of None \<Rightarrow> def | Some d \<Rightarrow> d)"

text \<open>\<open>get(entry)\<close>: the first value found stands for the records before it, the last one for the gaps.\<close>

fun fill_records :: "log_type \<Rightarrow> log_data \<Rightarrow> log_record list \<Rightarrow> log_data list" where
  "fill_records ty def [] = []"
| "fill_records ty def (r # rs) = (let def = convert_record ty r def in def # fill_records ty def rs)"

definition get_fill :: "log_type \<Rightarrow> string \<Rightarrow> flat_log \<Rightarrow> log_data list" where
  "get_fill ty entry fl =
     (case flat_log_at entry fl of
        None \<Rightarrow> []
      | Some rs \<Rightarrow>
          (case dropWhile (\<lambda>r. record_cast ty r = None) rs of
             [] \<Rightarrow> []
           | r # rest \<Rightarrow>
               let def = the (record_cast ty r) in
               replicate (length rs - length (r # rest)) def @ fill_records ty def (r # rest)))"

end
