(* ===== verification/Mc_Log_Values.thy ===== *)
theory Mc_Log_Values
  imports Mc_Flat_Log
begin

text \<open>
  What the logger writes and what \<open>LogEntry\<close> reads, against MessagePack values: every entry and every
  event of a message stands for a value, the writer emits its encoding, and reading a node that
  holds it gives the entry or performs the event again.
\<close>

section \<open>Nodes\<close>

text \<open>A node of a tree without error that holds what the encoding of \<open>v\<close> decodes to.\<close>

definition node_reads :: "mpack_tree \<Rightarrow> mpack_node \<Rightarrow> mp_value \<Rightarrow> bool" where
  "node_reads t n v \<longleftrightarrow> t_error t = mpack_ok \<and> node_holds t n (value_normal v)"

lemma reads_json_iff: "node_reads t n (json_value v) \<longleftrightarrow> holds_json t n v"
  by (simp add: node_reads_def holds_json_def)

lemma reads_type:
  assumes "node_reads t n v"
  shows "mpack_node_type t n = tag_type (value_tag (value_normal v))" "mpack_node_tag t n = value_tag (value_normal v)"
  using assms node_type_holds [of t n] node_tag_holds [of t n]
  by (simp_all add: node_reads_def mpack_node_type_def mpack_node_error_def)

lemma value_int_normal [simp]: "value_int (MP_scalar (tag_normal tag)) = value_int (MP_scalar tag)"
  by (cases tag) (simp_all add: tag_normal_def uint_of_nonneg)

lemma reads_signed:
  assumes "node_reads t n (MP_scalar (Tag_int i))"
  shows "integer_node t n"
    "sint i = sint i8 \<Longrightarrow> mpack_node_i8 t n = (t, i8)"
    "sint i = sint i16 \<Longrightarrow> mpack_node_i16 t n = (t, i16)"
    "sint i = sint i32 \<Longrightarrow> mpack_node_i32 t n = (t, i32)"
    "mpack_node_i64 t n = (t, i)"
proof -
  have h: "node_holds t n (MP_scalar (tag_normal (Tag_int i)))" "t_error t = mpack_ok"
    using assms by (simp_all add: node_reads_def)
  note r = int_accessors_signed [OF h, unfolded value_int_normal]
  show "integer_node t n"
    using reads_type(1) [OF assms] by (simp add: integer_node_def tag_normal_def)
  have eq: "f = (t, x)" if "apsnd sint f = (t, sint x)" for f :: "mpack_tree \<times> 'a::len word" and x
    using that by (cases f) (simp add: signed_word_eqI)
  show "mpack_node_i8 t n = (t, i8)" if "sint i = sint i8"
    by (rule eq) (use r(1) that sint_lt [of i8] sint_ge [of i8] in \<open>simp add: int_in_range_def\<close>)
  show "mpack_node_i16 t n = (t, i16)" if "sint i = sint i16"
    by (rule eq) (use r(2) that sint_lt [of i16] sint_ge [of i16] in \<open>simp add: int_in_range_def\<close>)
  show "mpack_node_i32 t n = (t, i32)" if "sint i = sint i32"
    by (rule eq) (use r(3) that sint_lt [of i32] sint_ge [of i32] in \<open>simp add: int_in_range_def\<close>)
  show "mpack_node_i64 t n = (t, i)"
    by (rule eq) (use r(4) sint_lt [of i] sint_ge [of i] in \<open>simp add: int_in_range_def\<close>)
qed

lemma reads_unsigned:
  assumes "node_reads t n (MP_scalar (Tag_uint u))"
  shows "integer_node t n"
    "uint u = uint u8 \<Longrightarrow> mpack_node_u8 t n = (t, u8)"
    "uint u = uint u16 \<Longrightarrow> mpack_node_u16 t n = (t, u16)"
    "uint u = uint u32 \<Longrightarrow> mpack_node_u32 t n = (t, u32)"
    "mpack_node_u64 t n = (t, u)"
proof -
  have h: "node_holds t n (MP_scalar (tag_normal (Tag_uint u)))" "t_error t = mpack_ok"
    using assms by (simp_all add: node_reads_def)
  note r = int_accessors_unsigned [OF h, unfolded value_int_normal]
  show "integer_node t n"
    using reads_type(1) [OF assms] by (simp add: integer_node_def tag_normal_def)
  have eq: "f = (t, x)" if "apsnd uint f = (t, uint x)" for f :: "mpack_tree \<times> 'a::len word" and x
    using that by (cases f) (simp add: word_uint_eq_iff)
  show "mpack_node_u8 t n = (t, u8)" if "uint u = uint u8"
    by (rule eq) (use r(1) that uint_lt2p [of u8] in \<open>simp add: int_in_range_def\<close>)
  show "mpack_node_u16 t n = (t, u16)" if "uint u = uint u16"
    by (rule eq) (use r(2) that uint_lt2p [of u16] in \<open>simp add: int_in_range_def\<close>)
  show "mpack_node_u32 t n = (t, u32)" if "uint u = uint u32"
    by (rule eq) (use r(3) that uint_lt2p [of u32] in \<open>simp add: int_in_range_def\<close>)
  show "mpack_node_u64 t n = (t, u)"
    by (rule eq) (use r(4) uint_lt2p [of u] in \<open>simp add: int_in_range_def\<close>)
qed

lemma reads_string:
  assumes "node_reads t n (MP_str (str_bytes s))"
  shows "mpack_node_type t n = mpack_type_str" "msgpack_toString t n = (t, s)" "stringFromNode t n = (t, Some s)"
  using assms reads_type(1) [OF assms] node_string [of t n s] by (simp_all add: node_reads_def stringFromNode_def)

lemma reads_floating:
  "node_reads t n (MP_scalar (Tag_bool b)) \<Longrightarrow> mpack_node_bool t n = (t, b) \<and> mpack_node_type t n = mpack_type_bool"
  "node_reads t n (MP_scalar (Tag_float f)) \<Longrightarrow> mpack_node_float t n = (t, f) \<and> mpack_node_type t n = mpack_type_float"
  "node_reads t n (MP_scalar (Tag_double d)) \<Longrightarrow> mpack_node_double t n = (t, d) \<and> mpack_node_type t n = mpack_type_double"
  using reads_type [of t n "MP_scalar (Tag_bool b)"] reads_type [of t n "MP_scalar (Tag_float f)"]
    reads_type [of t n "MP_scalar (Tag_double d)"]
  by (simp_all add: node_reads_def mpack_node_bool_def mpack_node_float_def mpack_node_double_def mpack_node_error_def
      mpack_node_tag_def mpack_node_type_def tag_normal_def)

lemma reads_array:
  assumes "node_reads t n (MP_array vs)"
  shows "mpack_node_array_length t n = (t, length vs)" "mpack_node_type t n = mpack_type_array"
    "i < length vs \<Longrightarrow> \<exists>m. mpack_node_array_at t n i = (t, m) \<and> node_reads t m (vs ! i)"
proof -
  have ok: "t_error t = mpack_ok" and h: "node_holds t n (MP_array (map value_normal vs))"
    using assms by (simp_all add: node_reads_def)
  have "unat (node_len t n) = length vs" "node_type t n = mpack_type_array"
    using h by (auto simp: node_holds_def children_node_def elim!: represents_arrayE)
  then show "mpack_node_array_length t n = (t, length vs)" "mpack_node_type t n = mpack_type_array"
    using ok by (simp_all add: mpack_node_array_length_def mpack_node_error_def mpack_node_type_def)
  show "\<exists>m. mpack_node_array_at t n i = (t, m) \<and> node_reads t m (vs ! i)" if "i < length vs"
    using array_at_holds(1) [OF h ok, of i] that ok by (auto simp: node_reads_def)
qed

section \<open>Data\<close>

fun data_value :: "log_data \<Rightarrow> mp_value" where
  "data_value (LD_bool b) = MP_scalar (Tag_bool b)"
| "data_value (LD_i8 i) = MP_scalar (Tag_int (scast i))"
| "data_value (LD_i16 i) = MP_scalar (Tag_int (scast i))"
| "data_value (LD_i32 i) = MP_scalar (Tag_int (scast i))"
| "data_value (LD_i64 i) = MP_scalar (Tag_int i)"
| "data_value (LD_u8 i) = MP_scalar (Tag_uint (ucast i))"
| "data_value (LD_u16 i) = MP_scalar (Tag_uint (ucast i))"
| "data_value (LD_u32 i) = MP_scalar (Tag_uint (ucast i))"
| "data_value (LD_u64 i) = MP_scalar (Tag_uint i)"
| "data_value (LD_float f) = MP_scalar (Tag_float f)"
| "data_value (LD_double d) = MP_scalar (Tag_double d)"
| "data_value (LD_string s) = MP_str (str_bytes s)"
| "data_value (LD_doubles v) = doubles_value v"

text \<open>The data is of the C++ type that the type of the entry stands for, and not too long for MessagePack.\<close>

fun doubles_ok :: "log_type \<Rightarrow> nat \<Rightarrow> bool" where
  "doubles_ok Log_Vector2d n = (n = 2)"
| "doubles_ok Log_Vector3d n = (n = 3)"
| "doubles_ok Log_Vector6d n = (n = 6)"
| "doubles_ok Log_VectorXd n = (n < 2 ^ 32)"
| "doubles_ok Log_Quaterniond n = (n = 4)"
| "doubles_ok Log_PTransformd n = (n = 12)"
| "doubles_ok Log_ForceVecd n = (n = 6)"
| "doubles_ok Log_MotionVecd n = (n = 6)"
| "doubles_ok Log_VectorDouble n = (n < 2 ^ 32)"
| "doubles_ok _ n = False"

fun data_ok :: "log_type \<Rightarrow> log_data \<Rightarrow> bool" where
  "data_ok ty (LD_bool b) = (ty = Log_Bool)"
| "data_ok ty (LD_i8 i) = (ty = Log_Int8_t)"
| "data_ok ty (LD_i16 i) = (ty = Log_Int16_t)"
| "data_ok ty (LD_i32 i) = (ty = Log_Int32_t)"
| "data_ok ty (LD_i64 i) = (ty = Log_Int64_t)"
| "data_ok ty (LD_u8 i) = (ty = Log_Uint8_t)"
| "data_ok ty (LD_u16 i) = (ty = Log_Uint16_t)"
| "data_ok ty (LD_u32 i) = (ty = Log_Uint32_t)"
| "data_ok ty (LD_u64 i) = (ty = Log_Uint64_t)"
| "data_ok ty (LD_float f) = (ty = Log_Float)"
| "data_ok ty (LD_double d) = (ty = Log_Double)"
| "data_ok ty (LD_string s) = (ty = Log_String \<and> length s < 2 ^ 32)"
| "data_ok ty (LD_doubles v) = doubles_ok ty (length v)"

lemma length_4E: "length v = 4 \<Longrightarrow> \<exists>a b c d. v = [a, b, c, d]"
  by (auto simp: numeral_eq_Suc length_Suc_conv)

lemma concat_rows: "take 3 v @ take 3 (drop 3 v) @ take 3 (drop 6 v) @ drop 9 v = v"
proof -
  have "take 3 (drop 6 v) @ drop 9 v = drop 6 v" "take 3 (drop 3 v) @ drop 6 v = drop 3 v"
    using append_take_drop_id [of 3 "drop 6 v"] append_take_drop_id [of 3 "drop 3 v"] by simp_all
  then show ?thesis by simp
qed

lemma writes_doubles_as:
  assumes "doubles_ok ty (length v)"
  shows "writes (write_doubles ty v) (doubles_value v)"
proof -
  have vec: "writes (builder_write_std_vector (\<lambda>d w. builder_write_double w d) v) (doubles_value v)"
    unfolding doubles_value_def by (rule writes_std_vector) (rule writes_scalars)
  have spatial: "length v = 6 \<Longrightarrow> writes (\<lambda>w. builder_write_spatial w (take 3 v) (drop 3 v)) (doubles_value v)"
    using writes_vectors(6) [of "take 3 v" "drop 3 v"] by simp
  have pt: "length v = 12 \<Longrightarrow>
      writes (\<lambda>w. builder_write_ptransform w [take 3 v, take 3 (drop 3 v), take 3 (drop 6 v)] (drop 9 v)) (doubles_value v)"
    using writes_vectors(7) [of "[take 3 v, take 3 (drop 3 v), take 3 (drop 6 v)]" "drop 9 v"] by (simp add: concat_rows)
  have q: "length v = 4 \<Longrightarrow> writes (\<lambda>w. builder_write_quaternion w (v ! 0) (v ! 1) (v ! 2) (v ! 3)) (doubles_value v)"
    using length_4E [of v] writes_quaternion by (auto simp: numeral_eq_Suc)
  from assms vec spatial pt q writes_vectors(1-3,5) [of v] show ?thesis
    unfolding writes_def by (cases ty) simp_all
qed

lemma writes_data:
  assumes "data_ok ty d"
  shows "writes (write_log_data ty d) (data_value d)"
  using assms writes_scalars writes_string writes_doubles_as [of ty]
  unfolding writes_def by (cases d) simp_all

lemma data_value_ok: "data_ok ty d \<Longrightarrow> value_ok ext (data_value d)"
  by (cases d; cases ty) (auto simp: doubles_value_def list_all_iff)


lemma drop_upt_step: "i < n \<Longrightarrow> [i..<n] = i # [Suc i..<n]"
  by (rule upt_conv_Cons)

lemma doubles_at_from:
  assumes h: "node_reads t n (doubles_value ds)"
  shows "i \<le> length ds \<Longrightarrow> doubles_at t n [i..<length ds] = (t, drop i ds)"
proof (induction "length ds - i" arbitrary: i)
  case (Suc k)
  then have i: "i < length ds" by simp
  then obtain m where m: "mpack_node_array_at t n i = (t, m)" "node_reads t m (MP_scalar (Tag_double (ds ! i)))"
    using reads_array(3) [OF h [unfolded doubles_value_def], of i] by auto
  have "doubles_at t n [Suc i..<length ds] = (t, drop (Suc i) ds)"
    using Suc i by (intro Suc.hyps) simp_all
  with m i reads_floating(3) [OF m(2)] show ?case
    by (simp add: drop_upt_step [OF i] Cons_nth_drop_Suc)
qed simp

lemma reads_doubles:
  assumes "node_reads t n (doubles_value ds)" "fixed = None \<or> fixed = Some (length ds)"
  shows "doublesFromNode fixed t n = (t, Some (LD_doubles ds))"
  using reads_array(1,2) [OF assms(1) [unfolded doubles_value_def]] doubles_at_from [OF assms(1), of 0] assms(2)
  by (auto simp: doublesFromNode_def)

lemma reads_data:
  assumes "node_reads t n (data_value d)" "data_ok ty d"
  shows "dataFromNode ty t n = (t, Some d)"
proof (cases d)
  case (LD_doubles v)
  then have h: "node_reads t n (doubles_value v)" and ok: "doubles_ok ty (length v)"
    using assms by simp_all
  from ok reads_doubles [OF h] show ?thesis
    unfolding LD_doubles by (cases ty) auto
next
  case (LD_string s)
  then show ?thesis
    using assms reads_string [of t n s] by (simp add: data_if_def)
qed (use assms reads_signed [of t n] reads_unsigned [of t n] reads_floating [of t n]
    in \<open>simp_all add: data_if_def sint_widen uint_widen\<close>)

section \<open>Keys and types\<close>

definition type_ok :: "log_type \<Rightarrow> bool" where
  "type_ok ty \<longleftrightarrow> ty \<noteq> Log_None \<and> log_type_of (log_type_code ty) = ty \<and> - (2 ^ 31) \<le> log_type_code ty \<and> log_type_code ty < 2 ^ 31"

lemma type_of_code: "ty \<noteq> Log_None \<Longrightarrow> (\<And>i. ty \<noteq> Log_other i) \<Longrightarrow> type_ok ty"
  by (cases ty) (auto simp: type_ok_def log_type_of_def log_types_def numeral_eq_Suc)

lemma reads_log_type:
  assumes "node_reads t n (MP_scalar (Tag_int (scast (of_int (log_type_code ty) :: u32))))" "type_ok ty"
  shows "logTypeFromNode t n = (t, ty)"
proof -
  have code: "sint (of_int (log_type_code ty) :: u32) = log_type_code ty"
    using assms(2) of_int_signed [of "log_type_code ty", where 'a = 32] by (simp add: type_ok_def)
  have "mpack_node_i32 t n = (t, of_int (log_type_code ty))"
    using reads_signed(4) [OF assms(1), of "of_int (log_type_code ty)"] by (simp add: sint_widen)
  with code assms(2) reads_signed(1) [OF assms(1)] show ?thesis
    by (simp add: logTypeFromNode_def type_ok_def)
qed

lemma strings_at_from:
  assumes h: "node_reads t n (MP_array (map (\<lambda>s. MP_str (str_bytes s)) ss))"
  shows "i \<le> length ss \<Longrightarrow> strings_at t n [i..<length ss] = (t, Some (drop i ss))"
proof (induction "length ss - i" arbitrary: i)
  case (Suc k)
  then have i: "i < length ss" by simp
  then obtain m where m: "mpack_node_array_at t n i = (t, m)" "node_reads t m (MP_str (str_bytes (ss ! i)))"
    using reads_array(3) [OF h, of i] by auto
  have "strings_at t n [Suc i..<length ss] = (t, Some (drop (Suc i) ss))"
    using Suc i by (intro Suc.hyps) simp_all
  with m i reads_string(3) [OF m(2)] show ?case
    by (simp add: drop_upt_step [OF i] Cons_nth_drop_Suc)
qed simp

lemma reads_strings:
  assumes "node_reads t n (MP_array (map (\<lambda>s. MP_str (str_bytes s)) ss))"
  shows "stringVectorFromNode t n = (t, Some ss)"
  using reads_array(1,2) [OF assms] strings_at_from [OF assms, of 0] by (simp add: stringVectorFromNode_def)


section \<open>Meta data\<close>

text \<open>The documents that the parts of the meta data are read back as.\<close>

definition strings_json :: "string list \<Rightarrow> json" where
  "strings_json ss = J_array (map J_string ss)"

definition doubles_json :: "u64 list \<Rightarrow> json" where
  "doubles_json ds = J_array (map J_double ds)"

definition map_json :: "('a \<Rightarrow> json) \<Rightarrow> (string \<times> 'a) list \<Rightarrow> json" where
  "map_json g m = J_object (map (\<lambda>(k, x). (k, g x)) m)"

definition meta_json :: "log_meta \<Rightarrow> json" where
  "meta_json m =
     J_array [J_int 3, J_double (timestep m), J_string (main_robot_name m), strings_json (main_robot_module m),
       map_json (\<lambda>p. doubles_json (fst p @ snd p)) (meta_init m),
       map_json (\<lambda>q. J_array (map doubles_json q)) (meta_init_q m),
       map_json (map_json id) (meta_calibs m)]"

definition strings_ok :: "string list \<Rightarrow> bool" where
  "strings_ok ss \<longleftrightarrow> length ss < 2 ^ 32 \<and> list_all (\<lambda>s. length s < 2 ^ 32) ss"

text \<open>A map is in the order of its keys.\<close>

definition map_ok :: "('a \<Rightarrow> bool) \<Rightarrow> (string \<times> 'a) list \<Rightarrow> bool" where
  "map_ok ok m \<longleftrightarrow> length m < 2 ^ 32 \<and> sorted (map fst m) \<and> distinct (map fst m) \<and>
     list_all (\<lambda>(k, x). length k < 2 ^ 32 \<and> c_str k = k \<and> ok x) m"

definition transform_ok :: "u64 list \<times> u64 list \<Rightarrow> bool" where
  "transform_ok p \<longleftrightarrow> length (fst p) = 9 \<and> length (snd p) = 3"

definition joints_ok :: "u64 list list \<Rightarrow> bool" where
  "joints_ok q \<longleftrightarrow> length q < 2 ^ 32 \<and> list_all (\<lambda>ds. length ds < 2 ^ 32) q"

definition meta_ok :: "log_meta \<Rightarrow> bool" where
  "meta_ok m \<longleftrightarrow> length (main_robot_name m) < 2 ^ 32 \<and> strings_ok (main_robot_module m) \<and>
     map_ok transform_ok (meta_init m) \<and> map_ok joints_ok (meta_init_q m) \<and>
     map_ok (map_ok json_packable) (meta_calibs m)"

lemma strings_packable: "strings_ok ss \<Longrightarrow> json_packable (strings_json ss)"
  by (simp add: strings_ok_def strings_json_def list_all_iff)

lemma doubles_packable: "length ds < 2 ^ 32 \<Longrightarrow> json_packable (doubles_json ds)"
  by (simp add: doubles_json_def list_all_iff)

lemma map_packable:
  assumes "map_ok ok m" "\<And>x. ok x \<Longrightarrow> json_packable (g x)"
  shows "json_packable (map_json g m)"
  using assms by (fastforce simp: map_ok_def map_json_def list_all_iff o_def case_prod_beta)

lemma joints_packable: "joints_ok q \<Longrightarrow> json_packable (J_array (map doubles_json q))"
  using doubles_packable by (auto simp: joints_ok_def list_all_iff)

lemma meta_packable:
  assumes "meta_ok m"
  shows "json_packable (meta_json m)"
proof -
  have "json_packable (map_json (\<lambda>p. doubles_json (fst p @ snd p)) (meta_init m))"
    using assms by (auto simp: meta_ok_def transform_ok_def intro!: map_packable doubles_packable)
  moreover have "json_packable (map_json (\<lambda>q. J_array (map doubles_json q)) (meta_init_q m))"
    using assms joints_packable by (auto simp: meta_ok_def intro!: map_packable)
  moreover have "json_packable (map_json (map_json id) (meta_calibs m))"
    using assms by (auto simp: meta_ok_def intro!: map_packable)
  ultimately show ?thesis
    using assms strings_packable by (simp add: meta_json_def meta_ok_def)
qed

lemma writes_strings:
  assumes "strings_ok ss"
  shows "writes (builder_write_std_vector builder_write_str ss) (json_value (strings_json ss))"
proof -
  have "writes (builder_write_std_vector builder_write_str ss) (MP_array (map (\<lambda>s. MP_str (str_bytes s)) ss))"
    using assms by (intro writes_std_vector writes_string) (simp add: strings_ok_def list_all_iff)
  then show ?thesis by (simp add: strings_json_def o_def)
qed

lemma writes_map:
  assumes "map_ok ok m" "\<And>x. ok x \<Longrightarrow> writes (wr x) (json_value (g x))"
  shows "writes (builder_write_std_map builder_write_str wr m) (json_value (map_json g m))"
proof -
  have "writes (builder_write_std_map builder_write_str wr m)
      (MP_map (map (\<lambda>(k, x). (MP_str (str_bytes k), json_value (g x))) m))"
    using assms by (intro writes_std_map) (auto simp: map_ok_def list_all_iff intro!: writes_string)
  moreover have "json_value (map_json g m) = MP_map (map (\<lambda>(k, x). (MP_str (str_bytes k), json_value (g x))) m)"
    by (simp add: map_json_def o_def case_prod_beta)
  ultimately show ?thesis by simp
qed

lemma doubles_json_value: "json_value (doubles_json ds) = doubles_value ds"
  by (simp add: doubles_json_def doubles_value_def o_def)

lemma writes_vector_doubles: "writes (builder_write_std_vector (\<lambda>d w. builder_write_double w d) ds) (json_value (doubles_json ds))"
  unfolding doubles_json_value doubles_value_def by (rule writes_std_vector) (rule writes_scalars)

lemma writes_joints:
  "writes (builder_write_std_vector (builder_write_std_vector (\<lambda>d w. builder_write_double w d)) q)
     (json_value (J_array (map doubles_json q)))"
  using writes_std_vector [of q _ "\<lambda>ds. json_value (doubles_json ds)", OF writes_vector_doubles] by (simp add: o_def)

lemma writes_transform:
  assumes "transform_ok p"
  shows "writes (write_transform p) (json_value (doubles_json (fst p @ snd p)))"
proof -
  have "take 3 (drop 3 (fst p)) @ drop 6 (fst p) = drop 3 (fst p)"
    using append_take_drop_id [of 3 "drop 3 (fst p)"] by simp
  then have rows: "concat [take 3 (fst p), take 3 (drop 3 (fst p)), drop 6 (fst p)] = fst p"
    by simp
  from writes_vectors(7) [of "[take 3 (fst p), take 3 (drop 3 (fst p)), drop 6 (fst p)]" "snd p"] assms
  show ?thesis
    unfolding rows doubles_json_value writes_def write_transform_def by (simp add: transform_ok_def)
qed

lemma read_std_map:
  assumes "map_ok ok m" "\<And>x. ok x \<Longrightarrow> conv (g x) = Inr x"
  shows "to_std_map conv (map_json g m) = Inr m"
proof -
  let ?ms = "map (\<lambda>(k, x). (k, g x)) m"
  have d: "distinct (map fst ?ms)" "sorted (map fst m)"
    using assms(1) by (simp_all add: map_ok_def o_def case_prod_beta)
  have "FindMember ?ms k = Some (g x) \<and> conv (g x) = Inr x" if "(k, x) \<in> set m" for k x
  proof -
    have "map_of ?ms k = Some (g x)"
      using that d(1) by (intro map_of_is_SomeI) force+
    then show ?thesis
      using that assms by (force simp: FindMember_def map_ok_def list_all_iff)
  qed
  then have "convert_all (\<lambda>k. case FindMember ?ms k of
      None \<Rightarrow> Inl Rapidjson_assert
    | Some c \<Rightarrow> (case conv c of Inl err \<Rightarrow> Inl err | Inr x \<Rightarrow> Inr (k, x))) (map fst m) = Inr (map id m)"
    by (intro convert_all_map) auto
  moreover have "map fst ?ms = map fst m" by (simp add: o_def case_prod_beta)
  moreover have "remdups m = m" using d(1) by (intro distinct_remdups_id) (simp add: o_def case_prod_beta distinct_map)
  moreover have "sort_key fst m = m" using d(2) by (rule sort_key_id_if_sorted)
  ultimately show ?thesis
    by (simp add: to_std_map_def map_json_def distinct_remdups_id del: map_map)
qed


lemma read_strings: "to_std_vector to_string (strings_json ss) = Inr ss"
  using convert_all_map [of ss to_string J_string id] by (simp add: to_std_vector_def strings_json_def to_string_def)

lemma read_doubles: "to_std_vector to_double (doubles_json ds) = Inr ds"
  using convert_all_map [of ds to_double J_double id] by (simp add: to_std_vector_def doubles_json_def to_double_def)

lemma read_joints: "to_std_vector (to_std_vector to_double) (J_array (map doubles_json q)) = Inr q"
  using convert_all_map [of q "to_std_vector to_double" doubles_json id] by (simp add: to_std_vector_def [of "to_std_vector to_double"] read_doubles)

lemma read_transform: "transform_ok p \<Longrightarrow> to_ptransform rf (doubles_json (fst p @ snd p)) = Inr p"
  using ptransform_array [of "fst p" "snd p" rf] by (simp add: transform_ok_def doubles_json_def)

lemma read_meta_fields:
  assumes "meta_ok m"
  shows "meta_field (meta_json m) 1 to_double = Inr (timestep m)"
    "meta_field (meta_json m) 2 to_string = Inr (main_robot_name m)"
    "meta_field (meta_json m) 3 (to_std_vector to_string) = Inr (main_robot_module m)"
    "meta_field (meta_json m) 4 (to_std_map (to_ptransform rf)) = Inr (meta_init m)"
    "meta_field (meta_json m) 5 (to_std_map (to_std_vector (to_std_vector to_double))) = Inr (meta_init_q m)"
    "meta_field (meta_json m) 6 (to_std_map (to_std_map Inr)) = Inr (meta_calibs m)"
    "config_size (meta_json m) = 7"
proof -
  have "to_std_map (to_ptransform rf) (map_json (\<lambda>p. doubles_json (fst p @ snd p)) (meta_init m)) = Inr (meta_init m)"
    using assms by (intro read_std_map [of transform_ok] read_transform) (simp_all add: meta_ok_def)
  moreover have "to_std_map (to_std_vector (to_std_vector to_double)) (map_json (\<lambda>q. J_array (map doubles_json q)) (meta_init_q m)) =
      Inr (meta_init_q m)"
    using assms by (intro read_std_map [of joints_ok] read_joints) (simp add: meta_ok_def)
  moreover have "to_std_map (to_std_map Inr) (map_json (map_json id) (meta_calibs m)) = Inr (meta_calibs m)"
    using assms by (intro read_std_map [of "map_ok json_packable"] read_std_map [of json_packable]) (simp_all add: meta_ok_def)
  ultimately show "meta_field (meta_json m) 1 to_double = Inr (timestep m)"
    "meta_field (meta_json m) 2 to_string = Inr (main_robot_name m)"
    "meta_field (meta_json m) 3 (to_std_vector to_string) = Inr (main_robot_module m)"
    "meta_field (meta_json m) 4 (to_std_map (to_ptransform rf)) = Inr (meta_init m)"
    "meta_field (meta_json m) 5 (to_std_map (to_std_vector (to_std_vector to_double))) = Inr (meta_init_q m)"
    "meta_field (meta_json m) 6 (to_std_map (to_std_map Inr)) = Inr (meta_calibs m)"
    "config_size (meta_json m) = 7"
    by (simp_all add: meta_field_def meta_json_def config_index_def config_size_def read_strings to_string_def to_double_def)
qed

section \<open>Events\<close>

fun event_value :: "log_meta \<Rightarrow> log_event \<Rightarrow> mp_value" where
  "event_value m (KeyAddedEvent ty key) =
     MP_array [MP_scalar (Tag_uint 0), MP_scalar (Tag_int (scast (of_int (log_type_code ty) :: u32))), MP_str (str_bytes key)]"
| "event_value m (KeyRemovedEvent key) = MP_array [MP_scalar (Tag_uint 1), MP_str (str_bytes key)]"
| "event_value m (GUIEvent category name data) =
     MP_array [MP_scalar (Tag_uint 2), json_value (strings_json category), MP_str (str_bytes name), json_value data]"
| "event_value m StartEvent = json_value (meta_json m)"

fun event_ok :: "log_meta \<Rightarrow> log_event \<Rightarrow> bool" where
  "event_ok m (KeyAddedEvent ty key) = (type_ok ty \<and> length key < 2 ^ 32)"
| "event_ok m (KeyRemovedEvent key) = (length key < 2 ^ 32)"
| "event_ok m (GUIEvent category name data) = (strings_ok category \<and> length name < 2 ^ 32 \<and> json_packable data)"
| "event_ok m StartEvent = meta_ok m"

text \<open>What an event means for the reader.\<close>

fun apply_event :: "log_meta \<Rightarrow> log_event \<Rightarrow> log_state \<Rightarrow> log_state" where
  "apply_event m (KeyAddedEvent ty key) st = st\<lparr>ls_keys := ls_keys st @ [\<lparr>tk_type = ty, tk_key = key\<rparr>]\<rparr>"
| "apply_event m (KeyRemovedEvent key) st = st\<lparr>ls_keys := erase_key key (ls_keys st)\<rparr>"
| "apply_event m (GUIEvent category name data) st = st\<lparr>ls_events := ls_events st @ [(category, name, data)]\<rparr>"
| "apply_event m StartEvent st = st\<lparr>ls_meta := Some m\<rparr>"

lemma writes_enc: "writes call v \<Longrightarrow> enc_value v = enc_value v' \<Longrightarrow> writes call v'"
  by (simp add: writes_def)

lemma writes_u8: "uint b = uint u \<Longrightarrow> writes (\<lambda>w. builder_write_u8 w b) (MP_scalar (Tag_uint u))"
  using writes_scalars(7) [of b] uint_widen(1) [of b] by (metis word_uint_eq_iff)

lemma writes_event:
  assumes "event_ok m ev"
  shows "writes (write_event m ev) (event_value m ev)"
proof (cases ev)
  case (KeyAddedEvent ty key)
  then show ?thesis
    using assms by simp (intro writes_array list_all2_Cons [THEN iffD2] conjI writes_u8 writes_scalars writes_string; simp)
next
  case (KeyRemovedEvent key)
  then show ?thesis
    using assms by simp (intro writes_array list_all2_Cons [THEN iffD2] conjI writes_u8 writes_string; simp)
next
  case (GUIEvent category name data)
  then show ?thesis
    using assms by simp (intro writes_array list_all2_Cons [THEN iffD2] conjI writes_u8 writes_strings writes_string writes_json; simp)
next
  case StartEvent
  have m: "meta_ok m" using assms StartEvent by simp
  have three: "writes (\<lambda>w. builder_write_u8 w 3) (json_value (J_int 3))"
    by (rule writes_enc [OF writes_u8 [of _ 3]]) (simp_all add: number_value_def enc_int_def)
  have calib: "writes (builder_write_std_map builder_write_str toMessagePack c) (json_value (map_json id c))"
    if "map_ok json_packable c" for c
    using that by (intro writes_map [of json_packable]) (simp_all add: writes_json)
  from m show ?thesis
    unfolding StartEvent write_event.simps event_value.simps meta_json_def json_value.simps list.map meta_ok_def
    by (intro writes_array list_all2_Cons [THEN iffD2] conjI three [unfolded json_value.simps] writes_scalars writes_string
        writes_strings writes_map [of transform_ok] writes_map [of joints_ok] writes_map [of "map_ok json_packable"]
        writes_transform writes_joints calib) simp_all
qed


lemma event_value_ok:
  assumes "event_ok m ev"
  shows "value_ok ext (event_value m ev)"
proof (cases ev)
  case (GUIEvent category name data)
  then show ?thesis
    using assms packable_value_ok [of "strings_json category" ext] packable_value_ok [of data ext] strings_packable by simp
next
  case StartEvent
  then show ?thesis
    using assms packable_value_ok [OF meta_packable] by simp
qed (use assms in simp_all)

lemma element_shorter: "v \<in> set vs \<Longrightarrow> length (enc_value v) \<le> length (enc_value (MP_array vs))"
proof -
  assume "v \<in> set vs"
  then obtain a b where "vs = a @ v # b" by (meson split_list)
  then show ?thesis by simp
qed

lemma reads_element:
  assumes "node_reads t n (MP_array vs)" "i < length vs"
  obtains m where "mpack_node_array_at t n i = (t, m)" "node_reads t m (vs ! i)"
  using reads_array(3) [OF assms] by blast

lemma reads_code:
  assumes "node_reads t n (MP_array (MP_scalar (Tag_uint u) # vs))" "uint u = uint b"
  obtains m where "mpack_node_array_at t n 0 = (t, m)" "integer_node t m" "mpack_node_u8 t m = (t, b)"
proof -
  obtain m where m: "mpack_node_array_at t n 0 = (t, m)" "node_reads t m (MP_scalar (Tag_uint u))"
    using reads_element [OF assms(1), of 0] by auto
  with reads_unsigned(1,2) [OF m(2)] assms(2) that show thesis by blast
qed

lemma read_event_key:
  assumes "node_reads t n (event_value m ev)" "event_ok m ev" "ev = KeyAddedEvent ty key \<or> ev = KeyRemovedEvent key"
  shows "read_event rf fuel t n st = Some (Inr (t, apply_event m ev st))"
  using assms(3)
proof
  assume ev: "ev = KeyAddedEvent ty key"
  note h = assms(1) [unfolded ev event_value.simps]
  obtain m0 where m0: "mpack_node_array_at t n 0 = (t, m0)" "integer_node t m0" "mpack_node_u8 t m0 = (t, 0)"
    using reads_code [OF h, of 0] by auto
  obtain m1 where m1: "mpack_node_array_at t n 1 = (t, m1)"
    "node_reads t m1 (MP_scalar (Tag_int (scast (of_int (log_type_code ty) :: u32))))"
    using reads_element [OF h, of 1] by auto
  obtain m2 where m2: "mpack_node_array_at t n 2 = (t, m2)" "node_reads t m2 (MP_str (str_bytes key))"
    using reads_element [OF h, of 2] by auto
  have ty: "logTypeFromNode t m1 = (t, ty)" "ty \<noteq> Log_None"
    using reads_log_type [OF m1(2)] assms(2) ev by (simp_all add: type_ok_def)
  from m0 m1(1) m2(1) ty reads_string(3) [OF m2(2)] reads_array(1,2) [OF h] show ?thesis
    unfolding ev by (simp add: read_event_def read_key_added_def)
next
  assume ev: "ev = KeyRemovedEvent key"
  note h = assms(1) [unfolded ev event_value.simps]
  obtain m0 where m0: "mpack_node_array_at t n 0 = (t, m0)" "integer_node t m0" "mpack_node_u8 t m0 = (t, 1)"
    using reads_code [OF h, of 1] by auto
  obtain m1 where m1: "mpack_node_array_at t n 1 = (t, m1)" "node_reads t m1 (MP_str (str_bytes key))"
    using reads_element [OF h, of 1] by auto
  from m0 m1(1) reads_string(3) [OF m1(2)] reads_array(1,2) [OF h] show ?thesis
    unfolding ev by (simp add: read_event_def read_key_removed_def)
qed

lemma read_event_gui:
  assumes "node_reads t n (event_value m (GUIEvent category name data))" "event_ok m (GUIEvent category name data)"
    and "json_weight data \<le> fuel"
  shows "read_event rf fuel t n st = Some (Inr (t, apply_event m (GUIEvent category name data) st))"
proof -
  note h = assms(1) [unfolded event_value.simps]
  obtain m0 where m0: "mpack_node_array_at t n 0 = (t, m0)" "integer_node t m0" "mpack_node_u8 t m0 = (t, 2)"
    using reads_code [OF h, of 2] by auto
  obtain m1 where m1: "mpack_node_array_at t n 1 = (t, m1)" "node_reads t m1 (MP_array (map (\<lambda>s. MP_str (str_bytes s)) category))"
    using reads_element [OF h, of 1] by (auto simp: strings_json_def o_def)
  obtain m2 where m2: "mpack_node_array_at t n 2 = (t, m2)" "node_reads t m2 (MP_str (str_bytes name))"
    using reads_element [OF h, of 2] by auto
  obtain m3 where m3: "mpack_node_array_at t n 3 = (t, m3)" "node_reads t m3 (json_value data)"
    using reads_element [OF h, of 3] by (auto simp: numeral_eq_Suc)
  have "fromMessagePack_root fuel t m3 = Some (Inr (t, data))"
    using m3(2) assms(2,3) by (intro read_root) (simp_all add: reads_json_iff)
  with m0 m1(1) m2(1) m3(1) reads_strings [OF m1(2)] reads_string(3) [OF m2(2)] reads_array(1,2) [OF h] show ?thesis
    by (simp add: read_event_def read_gui_event_def from_res_def log_bind_def)
qed

lemma read_event_start:
  assumes "node_reads t n (event_value m StartEvent)" "meta_ok m" "json_weight (meta_json m) \<le> fuel"
  shows "read_event rf fuel t n st = Some (Inr (t, apply_event m StartEvent st))"
proof -
  have h: "holds_json t n (meta_json m)"
    using assms(1) by (simp add: reads_json_iff)
  then have "node_reads t n (MP_array (json_value (J_int 3) # map json_value
      [J_double (timestep m), J_string (main_robot_name m), strings_json (main_robot_module m),
       map_json (\<lambda>p. doubles_json (fst p @ snd p)) (meta_init m),
       map_json (\<lambda>q. J_array (map doubles_json q)) (meta_init_q m), map_json (map_json id) (meta_calibs m)]))"
    (is "node_reads t n (MP_array (_ # map json_value ?rest))")
    unfolding meta_json_def reads_json_iff [symmetric] by simp
  then have a: "node_reads t n (MP_array (MP_scalar (Tag_uint 3) # map json_value ?rest))"
    by (simp add: node_reads_def number_value_def tag_normal_def)
  obtain m0 where m0: "mpack_node_array_at t n 0 = (t, m0)" "integer_node t m0" "mpack_node_u8 t m0 = (t, 3)"
    using reads_code [OF a, of 3] by auto
  have "fromMessagePack_root fuel t n = Some (Inr (t, meta_json m))"
    using read_root [OF h meta_packable [OF assms(2)] assms(3)] .
  with m0 reads_array(1,2) [OF a] read_meta_fields [OF assms(2)] show ?thesis
    by (simp add: read_event_def read_start_event_def from_res_def from_conf_def log_bind_def)
qed

lemma read_event_applies:
  assumes "node_reads t n (event_value m ev)" "event_ok m ev" "3 * length (enc_value (event_value m ev)) \<le> fuel"
  shows "read_event rf fuel t n st = Some (Inr (t, apply_event m ev st))"
proof (cases ev)
  case (GUIEvent category name data)
  have "length (enc_value (json_value data)) \<le> length (enc_value (event_value m ev))"
    unfolding GUIEvent event_value.simps by (rule element_shorter) simp
  with assms(3) weight_bound [of data] have "json_weight data \<le> fuel" by linarith
  with assms(1,2) GUIEvent show ?thesis using read_event_gui by blast
next
  case StartEvent
  with assms weight_bound [of "meta_json m"] have "json_weight (meta_json m) \<le> fuel" by (simp del: enc_value.simps)
  with assms StartEvent show ?thesis using read_event_start by simp
qed (use assms read_event_key in blast)+

lemma read_events_from:
  assumes h: "node_reads t n (MP_array (map (event_value m) evs))" and ok: "list_all (event_ok m) evs"
    and fuel: "3 * length (enc_value (MP_array (map (event_value m) evs))) \<le> fuel"
  shows "i \<le> length evs \<Longrightarrow>
    read_events rf fuel t n [i..<length evs] st = Some (Inr (t, fold (apply_event m) (drop i evs) st))"
proof (induction "length evs - i" arbitrary: i st)
  case (Suc k)
  then have i: "i < length evs" by simp
  obtain e where e: "mpack_node_array_at t n i = (t, e)" "node_reads t e (event_value m (evs ! i))"
    using reads_element [OF h, of i] i by auto
  have "length (enc_value (event_value m (evs ! i))) \<le> length (enc_value (MP_array (map (event_value m) evs)))"
    using i by (intro element_shorter) simp
  then have "read_event rf fuel t e st = Some (Inr (t, apply_event m (evs ! i) st))"
    using e(2) ok i fuel by (intro read_event_applies) (auto simp: list_all_length simp del: enc_value.simps)
  moreover have "read_events rf fuel t n [Suc i..<length evs] st' = Some (Inr (t, fold (apply_event m) (drop (Suc i) evs) st'))" for st'
    using Suc i by (intro Suc.hyps) simp_all
  moreover have "drop i evs = evs ! i # drop (Suc i) evs"
    using i by (simp add: Cons_nth_drop_Suc)
  ultimately show ?case
    using e(1) by (simp add: drop_upt_step [OF i] log_bind_def)
qed simp

end
