(* ===== verification/Mc_Log_Correct.thy ===== *)
theory Mc_Log_Correct
  imports Mc_Log_Values
begin

text \<open>
  One message of a log: what \<open>log\<close> builds is the encoding of a value, and \<open>LogEntry\<close> applied to it
  performs the events and gives one record per entry, of the type of the key in the same position.
\<close>

section \<open>Writing a message\<close>

definition message_value :: "log_meta \<Rightarrow> log_event list \<Rightarrow> log_data list \<Rightarrow> mp_value" where
  "message_value m evs ds =
     MP_array [if evs = [] then MP_scalar Tag_nil else MP_array (map (event_value m) evs), MP_array (map data_value ds)]"

definition log_message :: "(log_entry \<Rightarrow> log_data) \<Rightarrow> logger \<Rightarrow> u8 list" where
  "log_message values lg = enc_value (message_value (lg_meta lg) (log_events lg) (map values (log_entries lg)))"

definition message_ok :: "(log_entry \<Rightarrow> log_data) \<Rightarrow> logger \<Rightarrow> bool" where
  "message_ok values lg \<longleftrightarrow> list_all (event_ok (lg_meta lg)) (log_events lg) \<and>
     list_all (\<lambda>e. data_ok (entry_type e) (values e)) (log_entries lg) \<and> length (log_message values lg) < 2 ^ 31"

definition buffer_ok :: "u8 list \<Rightarrow> bool" where
  "buffer_ok buf \<longleftrightarrow> buf = [] \<or> 32 \<le> length buf"

lemma writes_message:
  assumes "message_ok values lg"
  shows "writes (write_log_message values lg) (message_value (lg_meta lg) (log_events lg) (map values (log_entries lg)))"
proof -
  have evs: "writes (builder_write_std_vector (write_event (lg_meta lg)) (log_events lg))
      (MP_array (map (event_value (lg_meta lg)) (log_events lg)))"
    using assms by (intro writes_std_vector writes_event) (simp add: message_ok_def list_all_iff)
  have ds: "writes (builder_write_std_vector (\<lambda>e. write_log_data (entry_type e) (values e)) (log_entries lg))
      (MP_array (map (\<lambda>e. data_value (values e)) (log_entries lg)))"
    using assms by (intro writes_std_vector writes_data) (simp add: message_ok_def list_all_iff)
  have "writes (builder_array 2
       [if log_events lg \<noteq> [] then builder_write_std_vector (write_event (lg_meta lg)) (log_events lg) else builder_write_nil,
        builder_write_std_vector (\<lambda>e. write_log_data (entry_type e) (values e)) (log_entries lg)])
     (message_value (lg_meta lg) (log_events lg) (map values (log_entries lg)))"
    unfolding message_value_def using evs ds writes_scalars(1) by (intro writes_array) (simp_all add: o_def)
  then show ?thesis
    by (simp add: writes_def write_log_message_def)
qed

lemma logger_log_eq:
  assumes "message_ok values lg" "buffer_ok (lg_data lg)"
  shows "\<exists>buf. logger_log values lg =
      lg\<lparr>lg_data := buf, log_events := [], lg_sink := sink_write buf (length (log_message values lg)) (lg_sink lg)\<rparr> \<and>
    take (length (log_message values lg)) buf = log_message values lg \<and> buffer_ok buf"
proof -
  let ?w = "write_log_message values lg (builder_new (lg_data lg))"
  have new: "builder_ok (builder_new (lg_data lg))" "writer_output (builder_new (lg_data lg)) = []"
    using builder_new_ok [of "lg_data lg"] assms(2) by (auto simp: buffer_ok_def)
  have w: "builder_ok ?w" "writer_output ?w = log_message values lg"
    using writes_message [OF assms(1)] new by (auto simp: writes_def builder_appends_def log_message_def)
  have fin: "snd (builder_finish ?w) = length (log_message values lg)"
    "take (length (log_message values lg)) (w_buffer (fst (builder_finish ?w))) = log_message values lg"
    using builder_finish_ok [OF w(1)] w(2) by simp_all
  have "w_buffer (fst (builder_finish ?w)) = w_buffer ?w"
    by (simp add: builder_finish_def mpack_writer_destroy_def mpack_std_vector_writer_flush_def Let_def)
  then have "buffer_ok (w_buffer (fst (builder_finish ?w)))"
    using w(1) by (simp add: builder_ok_def writer_wf_def buffer_ok_def MPACK_WRITER_MINIMUM_BUFFER_SIZE_def)
  with fin show ?thesis
    by (intro exI [of _ "w_buffer (fst (builder_finish ?w))"]) (simp add: logger_log_def case_prod_beta)
qed

section \<open>Reading a message\<close>

lemma enc_nonempty: "value_ok ext v \<Longrightarrow> enc_value v \<noteq> []"
  using encodes_nonempty [OF encodes_enc_value] by blast

lemma array_length_bound:
  assumes "list_all (value_ok ext) vs"
  shows "length vs \<le> length (enc_value (MP_array vs))"
proof -
  have "length vs \<le> length (concat (map enc_value vs))"
    using assms
  proof (induction vs)
    case (Cons v vs)
    then show ?case using enc_nonempty [of ext v] by (cases "enc_value v") auto
  qed simp
  then show ?thesis by simp
qed

lemma message_value_ok:
  assumes "list_all (event_ok m) evs" "\<And>d. d \<in> set ds \<Longrightarrow> \<exists>ty. data_ok ty d" "length (enc_value (message_value m evs ds)) < 2 ^ 32"
  shows "value_ok ext (message_value m evs ds)"
proof -
  let ?e = "MP_array (map (event_value m) evs)" and ?d = "MP_array (map data_value ds)"
  have e: "list_all (value_ok ext) (map (event_value m) evs)" and d: "list_all (value_ok ext) (map data_value ds)"
    using assms(1,2) event_value_ok data_value_ok unfolding list_all_iff by (force, fastforce)
  have "length ds \<le> length (enc_value ?d)" "length (enc_value ?d) \<le> length (enc_value (message_value m evs ds))"
    using array_length_bound [OF d] element_shorter [of ?d] by (simp_all add: message_value_def del: enc_value.simps)
  moreover have "length evs \<le> length (enc_value ?e)" "evs \<noteq> [] \<Longrightarrow> length (enc_value ?e) \<le> length (enc_value (message_value m evs ds))"
    using array_length_bound [OF e] element_shorter [of ?e] by (simp_all add: message_value_def del: enc_value.simps)
  ultimately show ?thesis
    using e d assms(3) by (cases "evs = []") (simp_all add: message_value_def del: enc_value.simps)
qed

definition key_record :: "typed_key \<Rightarrow> log_data \<Rightarrow> log_record" where
  "key_record k d = \<lparr>rec_type = tk_type k, rec_data = Some d\<rparr>"

lemma records_from:
  assumes h: "node_reads t n (MP_array (map data_value ds))" and ok: "list_all2 (\<lambda>k d. data_ok (tk_type k) d) ks ds"
  shows "i \<le> length ds \<Longrightarrow>
    records_v1 True ks t n [i..<length ds] out = Some (Inr (t, out @ drop i (map2 key_record ks ds)))"
proof (induction "length ds - i" arbitrary: i out)
  case 0
  then show ?case using list_all2_lengthD [OF ok] by simp
next
  case (Suc k)
  then have i: "i < length ds" "i < length ks" using list_all2_lengthD [OF ok] by simp_all
  obtain m where m: "mpack_node_array_at t n i = (t, m)" "node_reads t m (data_value (ds ! i))"
    using reads_element [OF h, of i] i by auto
  have "dataFromNode (tk_type (ks ! i)) t m = (t, Some (ds ! i))"
    using reads_data [OF m(2)] list_all2_nthD [OF ok i(2)] by blast
  with m(1) have "typed_record (tk_type (ks ! i)) True t n i = (t, key_record (ks ! i) (ds ! i))"
    by (simp add: typed_record_def key_record_def)
  moreover have "records_v1 True ks t n [Suc i..<length ds] out' =
      Some (Inr (t, out' @ drop (Suc i) (map2 key_record ks ds)))" for out'
    using Suc i by (intro Suc.hyps) simp_all
  moreover have "drop i (map2 key_record ks ds) = key_record (ks ! i) (ds ! i) # drop (Suc i) (map2 key_record ks ds)"
    using i by (subst Cons_nth_drop_Suc [symmetric]) simp_all
  ultimately show ?case
    using i by (simp add: drop_upt_step [OF i(1)])
qed

text \<open>The state of the reader after a message.\<close>

definition after_events :: "log_meta \<Rightarrow> log_event list \<Rightarrow> log_state \<Rightarrow> log_state" where
  "after_events m evs st = (if evs = [] then st else fold (apply_event m) evs (st\<lparr>ls_changed := True\<rparr>))"

lemma read_entry_message:
  assumes h: "node_reads t root (message_value m evs ds)" and evs: "list_all (event_ok m) evs"
    and ds: "list_all2 (\<lambda>k d. data_ok (tk_type k) d) (ls_keys (after_events m evs st)) ds"
    and fuel: "3 * length (enc_value (message_value m evs ds)) \<le> fuel"
  shows "read_entry_v1 rf fuel True t root st =
    Some (Inr (t, map2 key_record (ls_keys (after_events m evs st)) ds, after_events m evs st))"
proof -
  let ?e = "MP_array (map (event_value m) evs)"
  note h' = h [unfolded message_value_def]
  obtain m1 where m1: "mpack_node_array_at t root 1 = (t, m1)" "node_reads t m1 (MP_array (map data_value ds))"
    using reads_element [OF h', of 1] by auto
  obtain m0 where m0: "mpack_node_array_at t root 0 = (t, m0)" "node_reads t m0 (if evs = [] then MP_scalar Tag_nil else ?e)"
    using reads_element [OF h', of 0] by auto
  have "(if mpack_node_type t m0 = mpack_type_array then
       (case mpack_node_array_length t m0 of (t, s) \<Rightarrow> read_events rf fuel t m0 [0..<s] (st\<lparr>ls_changed := True\<rparr>))
     else Some (Inr (t, st))) = Some (Inr (t, after_events m evs st))"
  proof (cases "evs = []")
    case True
    with m0(2) reads_type(1) [OF m0(2)] show ?thesis by (simp add: after_events_def tag_normal_def)
  next
    case False
    then have e: "node_reads t m0 ?e" using m0(2) by simp
    have "length (enc_value ?e) \<le> length (enc_value (message_value m evs ds))"
      using False element_shorter [of ?e] by (simp add: message_value_def del: enc_value.simps)
    then have "3 * length (enc_value ?e) \<le> fuel" using fuel by linarith
    from read_events_from [OF e evs this, of 0] reads_array(1,2) [OF e] False show ?thesis
      by (simp add: after_events_def)
  qed
  then show ?thesis
    using m0(1) m1(1) reads_array(1,2) [OF m1(2)] records_from [OF m1(2) ds, of 0 "[]"]
    by (simp add: read_entry_v1_def log_bind_def)
qed

lemma LogEntry_message:
  assumes alloc: "te_alloc env = (\<lambda>_. True)" and evs: "list_all (event_ok m) evs"
    and ds: "list_all2 (\<lambda>k d. data_ok (tk_type k) d) (ls_keys (after_events m evs st)) ds"
    and len: "length (enc_value (message_value m evs ds)) < 2 ^ 32"
    and fuel: "3 * length (enc_value (message_value m evs ds)) \<le> fuel"
  shows "\<exists>pl. LogEntry env rf fuel 1 (enc_value (message_value m evs ds)) True st = Some (Inr (pl, after_events m evs st)) \<and>
    pl_records pl = map2 key_record (ls_keys (after_events m evs st)) ds \<and>
    pl_version pl = 1 \<and> node_reads (pl_tree pl) (pl_root pl) (message_value m evs ds)"
proof -
  let ?v = "message_value m evs ds"
  have "value_ok (te_ext env) ?v"
    using ds len by (intro message_value_ok [OF evs]) (auto simp: list_all2_conv_all_nth in_set_conv_nth)
  from parse_message [OF _ encodes_enc_value [OF this], of "[]" fuel] alloc len fuel
  obtain t where t: "mpack_tree_parse env fuel (mpack_tree_init_data (enc_value ?v)) = Some t" "t_error t = mpack_ok"
    "p_state t = parsed" "represents (t_data t) (t_nodes t) UNIV (t_root t) (value_normal ?v)"
    by (auto simp del: enc_value.simps)
  have h: "node_reads t (N_at (t_root t)) ?v"
    using t by (simp add: node_reads_def node_holds_def)
  have root: "mpack_tree_root t = (t, N_at (t_root t))" using t by (simp add: mpack_tree_root_def)
  have "mpack_node_array_length t (N_at (t_root t)) = (t, 2)" "mpack_node_type t (N_at (t_root t)) = mpack_type_array"
    using reads_array(1,2) [OF h [unfolded message_value_def]] by simp_all
  with t(1,2) root read_entry_message [OF h evs ds fuel] h show ?thesis
    by (simp add: LogEntry_def log_bind_def del: enc_value.simps)
qed

lemma getTime_message:
  assumes "node_reads (pl_tree pl) (pl_root pl) (message_value m evs ds)" "pl_version pl = 1" "i < length ds" "ds ! i = LD_double d"
  shows "getTime pl i = d"
proof -
  note h = assms(1) [unfolded message_value_def]
  obtain m1 where m1: "mpack_node_array_at (pl_tree pl) (pl_root pl) 1 = (pl_tree pl, m1)"
    "node_reads (pl_tree pl) m1 (MP_array (map data_value ds))"
    using reads_element [OF h, of 1] by auto
  obtain n where n: "mpack_node_array_at (pl_tree pl) m1 i = (pl_tree pl, n)" "node_reads (pl_tree pl) n (MP_scalar (Tag_double d))"
    using reads_element [OF m1(2), of i] assms(3,4) by auto
  with m1(1) reads_floating(3) [OF n(2)] assms(2) show ?thesis
    by (simp add: getTime_def)
qed

end
