(* ===== verification/Mc_Log_Session.thy ===== *)
theory Mc_Log_Session
  imports Mc_Log_Correct
begin

text \<open>
  Whole logs. The events that a logger has pending bring the keys of the reader up to date with its
  entries: this is the invariant of the logger, which every operation keeps but the replacement of an
  entry. With it a file written by any sequence of operations is read back row by row.
\<close>

section \<open>Keys on both sides\<close>

definition key_of :: "log_entry \<Rightarrow> typed_key" where
  "key_of e = \<lparr>tk_type = entry_type e, tk_key = entry_key e\<rparr>"

lemma key_of_simps [simp]: "tk_type (key_of e) = entry_type e" "tk_key (key_of e) = entry_key e"
  by (simp_all add: key_of_def)

fun apply_key :: "log_event \<Rightarrow> typed_key list \<Rightarrow> typed_key list" where
  "apply_key (KeyAddedEvent ty key) ks = ks @ [\<lparr>tk_type = ty, tk_key = key\<rparr>]"
| "apply_key (KeyRemovedEvent key) ks = erase_key key ks"
| "apply_key _ ks = ks"

fun gui_of :: "log_event list \<Rightarrow> gui_events" where
  "gui_of [] = []"
| "gui_of (GUIEvent category name data # evs) = (category, name, data) # gui_of evs"
| "gui_of (_ # evs) = gui_of evs"

lemma fold_apply_event:
  "ls_keys (fold (apply_event m) evs st) = fold apply_key evs (ls_keys st)"
  "ls_events (fold (apply_event m) evs st) = ls_events st @ gui_of evs"
  "ls_changed (fold (apply_event m) evs st) = ls_changed st"
  "ls_meta (fold (apply_event m) evs st) = (if StartEvent \<in> set evs then Some m else ls_meta st)"
proof -
  have "ls_keys (fold (apply_event m) evs st) = fold apply_key evs (ls_keys st) \<and>
    ls_events (fold (apply_event m) evs st) = ls_events st @ gui_of evs \<and>
    ls_changed (fold (apply_event m) evs st) = ls_changed st \<and>
    ls_meta (fold (apply_event m) evs st) = (if StartEvent \<in> set evs then Some m else ls_meta st)"
  proof (induction evs arbitrary: st)
    case (Cons ev evs)
    then show ?case by (cases ev) simp_all
  qed simp
  then show
    "ls_keys (fold (apply_event m) evs st) = fold apply_key evs (ls_keys st)"
    "ls_events (fold (apply_event m) evs st) = ls_events st @ gui_of evs"
    "ls_changed (fold (apply_event m) evs st) = ls_changed st"
    "ls_meta (fold (apply_event m) evs st) = (if StartEvent \<in> set evs then Some m else ls_meta st)"
    by blast+
qed

lemma after_events_simps:
  "ls_keys (after_events m evs st) = fold apply_key evs (ls_keys st)"
  "ls_events (after_events m evs st) = ls_events st @ gui_of evs"
  "ls_changed (after_events m evs st) = (ls_changed st \<or> evs \<noteq> [])"
  "ls_meta (after_events m evs st) = (if StartEvent \<in> set evs then Some m else ls_meta st)"
  by (auto simp: after_events_def fold_apply_event)

lemma gui_of_append: "gui_of (evs @ evs') = gui_of evs @ gui_of evs'"
  by (induction evs rule: gui_of.induct) simp_all

text \<open>The pending events turn the keys \<open>ks\<close> of the reader into the entries of the logger.\<close>

definition log_synced :: "typed_key list \<Rightarrow> logger \<Rightarrow> bool" where
  "log_synced ks lg \<longleftrightarrow> fold apply_key (log_events lg) ks = map key_of (log_entries lg)"

definition entry_ok :: "log_entry \<Rightarrow> bool" where
  "entry_ok e \<longleftrightarrow> type_ok (entry_type e) \<and> length (entry_key e) < 2 ^ 32"

definition logger_wf :: "logger \<Rightarrow> bool" where
  "logger_wf lg \<longleftrightarrow> distinct (map entry_key (log_entries lg)) \<and> list_all entry_ok (log_entries lg) \<and>
     list_all (event_ok (lg_meta lg)) (log_events lg) \<and> meta_ok (lg_meta lg) \<and> buffer_ok (lg_data lg)"

lemma find_entry_iff: "find_entry name es = None \<longleftrightarrow> name \<notin> entry_key ` set es"
  by (auto simp: find_entry_def find_None_iff)

lemma erase_keys: "erase_key name (map key_of es) = map key_of (erase_entry name es)"
  by (induction es) simp_all

lemma erase_entry_set: "set (erase_entry name es) \<subseteq> set es"
  by (induction es) auto

lemma erase_entry_distinct: "distinct (map entry_key es) \<Longrightarrow> distinct (map entry_key (erase_entry name es))"
  using erase_entry_set by (induction es) fastforce+

lemma erase_entry_length: "name \<in> entry_key ` set es \<Longrightarrow> Suc (length (erase_entry name es)) = length es"
  by (induction es) auto

lemma erase_entry_filter: "distinct (map entry_key es) \<Longrightarrow> erase_entry name es = filter (\<lambda>e. entry_key e \<noteq> name) es"
proof (induction es)
  case (Cons e es)
  have "filter (\<lambda>x. entry_key x \<noteq> entry_key e) es = es"
    using Cons.prems by (intro filter_True) (auto simp: image_iff)
  with Cons show ?case by auto
qed simp

lemma erase_filtered:
  "distinct (map entry_key es) \<Longrightarrow>
    fold apply_key (map (\<lambda>e. KeyRemovedEvent (entry_key e)) rs) (map key_of es) =
    map key_of (filter (\<lambda>e. entry_key e \<notin> entry_key ` set rs) es)"
proof (induction rs arbitrary: es)
  case (Cons r rs)
  have "distinct (map entry_key (filter (\<lambda>e. entry_key e \<noteq> entry_key r) es))"
    using Cons.prems by (rule distinct_map_filter)
  from Cons.IH [OF this] Cons.prems show ?case
    by (simp add: erase_keys erase_entry_filter conj_commute)
qed simp

lemma filter_other_keys:
  assumes "distinct (map entry_key es)"
  shows "filter (\<lambda>e. entry_key e \<notin> entry_key ` set (filter p es)) es = filter (\<lambda>e. \<not> p e) es"
proof (rule filter_cong [OF refl])
  fix e
  assume e: "e \<in> set es"
  have "e = e'" if "e' \<in> set es" "entry_key e = entry_key e'" for e'
    using assms e that by (auto simp: distinct_map inj_on_def)
  with e show "entry_key e \<notin> entry_key ` set (filter p es) \<longleftrightarrow> \<not> p e" by auto
qed

section \<open>Operations\<close>

text \<open>The operations of a logger between opening a file and closing it. Entries are not replaced.\<close>

datatype log_op =
    Add_entry string nat log_type
  | Gui_event "string list" string json
  | Remove_entry string
  | Remove_entries nat
  | Clear_entries
  | Log_values "log_entry \<Rightarrow> log_data"

fun run_op :: "log_op \<Rightarrow> logger \<Rightarrow> logger" where
  "run_op (Add_entry name source ty) lg = addLogEntry name source ty False lg"
| "run_op (Gui_event category name data) lg = addGUIEvent category name data lg"
| "run_op (Remove_entry name) lg = removeLogEntry name lg"
| "run_op (Remove_entries source) lg = removeLogEntries source lg"
| "run_op Clear_entries lg = logger_clear True lg"
| "run_op (Log_values values) lg = logger_log values lg"

fun op_ok :: "log_op \<Rightarrow> logger \<Rightarrow> bool" where
  "op_ok (Add_entry name source ty) lg = (type_ok ty \<and> length name < 2 ^ 32)"
| "op_ok (Gui_event category name data) lg = event_ok (lg_meta lg) (GUIEvent category name data)"
| "op_ok (Log_values values) lg =
     (list_all (\<lambda>e. data_ok (entry_type e) (values e)) (log_entries lg) \<and> length (log_message values lg) < 2 ^ 31)"
| "op_ok _ lg = True"

fun is_log :: "log_op \<Rightarrow> bool" where
  "is_log (Log_values values) = True"
| "is_log _ = False"

lemma remove_where_keeps:
  assumes "logger_wf lg" "log_synced ks lg"
  shows "logger_wf (remove_where p True lg) \<and> log_synced ks (remove_where p True lg)"
proof
  have "fold apply_key (log_events (remove_where p True lg)) ks = map key_of (filter (\<lambda>e. \<not> p e) (log_entries lg))"
    using assms erase_filtered [of "log_entries lg" "filter p (log_entries lg)"] filter_other_keys [of "log_entries lg" p]
    by (simp add: remove_where_def log_synced_def logger_wf_def)
  then show "log_synced ks (remove_where p True lg)"
    by (simp add: log_synced_def remove_where_def)
  show "logger_wf (remove_where p True lg)"
    using assms(1) by (auto simp: logger_wf_def remove_where_def list_all_iff entry_ok_def distinct_map_filter)
qed

lemma remove_where_frame [simp]:
  "lg_sink (remove_where p b lg) = lg_sink lg" "lg_meta (remove_where p b lg) = lg_meta lg"
  by (simp_all add: remove_where_def)

lemma remove_keeps:
  assumes "logger_wf lg" "log_synced ks lg"
  shows "logger_wf (removeLogEntry name lg) \<and> log_synced ks (removeLogEntry name lg)"
proof (cases "find_entry name (log_entries lg) = None")
  case False
  then obtain e where e: "e \<in> set (log_entries lg)" "entry_key e = name"
    by (auto simp: find_entry_iff)
  then have "event_ok (lg_meta lg) (KeyRemovedEvent name)"
    using assms(1) by (auto simp: logger_wf_def list_all_iff entry_ok_def)
  with False assms erase_entry_set [of name "log_entries lg"] show ?thesis
    by (auto simp: removeLogEntry_def logger_wf_def log_synced_def erase_keys erase_entry_distinct list_all_iff)
qed (use assms in \<open>simp add: removeLogEntry_def\<close>)

lemma add_keeps:
  assumes "logger_wf lg" "log_synced ks lg" "type_ok ty" "length name < 2 ^ 32"
  shows "logger_wf (addLogEntry name source ty False lg) \<and> log_synced ks (addLogEntry name source ty False lg)"
  using assms
  by (auto simp: addLogEntry_def logger_wf_def log_synced_def find_entry_iff entry_ok_def key_of_def Let_def)

lemma op_keeps:
  assumes "logger_wf lg" "log_synced ks lg" "op_ok opr lg" "\<not> is_log opr"
  shows "logger_wf (run_op opr lg) \<and> log_synced ks (run_op opr lg) \<and>
    lg_sink (run_op opr lg) = lg_sink lg \<and> lg_meta (run_op opr lg) = lg_meta lg"
proof (cases opr)
  case (Add_entry name source ty)
  with add_keeps [OF assms(1,2)] assms(3) show ?thesis by (simp add: addLogEntry_def Let_def)
next
  case (Gui_event category name data)
  with assms show ?thesis by (simp add: addGUIEvent_def logger_wf_def log_synced_def)
next
  case (Remove_entry name)
  with remove_keeps [OF assms(1,2)] show ?thesis by (simp add: removeLogEntry_def)
next
  case (Remove_entries source)
  with remove_where_keeps [OF assms(1,2)] show ?thesis by (simp add: removeLogEntries_def)
next
  case Clear_entries
  with remove_where_keeps [OF assms(1,2)] show ?thesis by (simp add: logger_clear_def)
qed (use assms in simp)

lemma message_ok_of: "logger_wf lg \<Longrightarrow> op_ok (Log_values values) lg \<Longrightarrow> message_ok values lg"
  by (simp add: logger_wf_def message_ok_def)

lemma log_keeps:
  assumes "logger_wf lg" "op_ok (Log_values values) lg"
  shows "logger_wf (logger_log values lg) \<and> log_synced (map key_of (log_entries lg)) (logger_log values lg) \<and>
    lg_meta (logger_log values lg) = lg_meta lg \<and> log_entries (logger_log values lg) = log_entries lg \<and>
    log_events (logger_log values lg) = []"
  using logger_log_eq [OF message_ok_of [OF assms]] assms(1)
  by (auto simp: logger_wf_def log_synced_def)

text \<open>
  Replacing an entry records that its key was added but not that it was removed: the reader then has
  one key too many.
\<close>

lemma overwrite_keys:
  assumes "log_synced ks lg" "name \<in> entry_key ` set (log_entries lg)"
  shows "fold apply_key (log_events (addLogEntry name source ty True lg)) ks =
      map key_of (log_entries lg) @ [\<lparr>tk_type = ty, tk_key = name\<rparr>]"
    "length (log_entries (addLogEntry name source ty True lg)) = length (log_entries lg)"
  using assms erase_entry_length [OF assms(2)]
  by (simp_all add: addLogEntry_def log_synced_def find_entry_iff Let_def)


section \<open>Frames\<close>

definition frame :: "u8 list \<Rightarrow> u8 list" where
  "frame data = host_u64 (length data) @ data"

lemma host_nat_bytes: "host_nat (map (\<lambda>i. of_nat (n div 256 ^ i)) [0..<k]) = n mod 256 ^ k"
proof (induction k arbitrary: n)
  case (Suc k)
  have "host_nat (map (\<lambda>i. of_nat (n div 256 ^ i)) [0..<Suc k]) =
      n mod 256 + 256 * host_nat (map (\<lambda>i. of_nat (n div 256 div 256 ^ i)) [0..<k])"
    unfolding upt_conv_Cons [OF zero_less_Suc] map_Suc_upt [symmetric]
    by (simp add: host_nat_def o_def unat_of_nat div_mult2_eq)
  also have "\<dots> = n mod 256 ^ Suc k"
    by (simp add: Suc.IH mod_mult2_eq)
  finally show ?case .
qed (simp add: host_nat_def)

lemma host_nat_u64: "n < 2 ^ 64 \<Longrightarrow> host_nat (host_u64 n) = n"
  using host_nat_bytes [of n 8] by (simp add: host_u64_def)

lemma length_host_u64 [simp]: "length (host_u64 n) = 8"
  by (simp add: host_u64_def)

lemma count_small: "n < 2 ^ 31 \<Longrightarrow> sint (of_nat n :: u32) = int n"
  using of_int_signed [of "int n", where 'a = 32] by simp

lemma fwrite_frame: "sz < 2 ^ 31 \<Longrightarrow> take sz buf = data \<Longrightarrow> length data = sz \<Longrightarrow> log_fwrite buf sz f = f @ frame data"
  by (simp add: log_fwrite_def frame_def count_small)

section \<open>Reading frames\<close>

definition message_item :: "u8 list \<Rightarrow> parsed_log \<Rightarrow> log_state \<Rightarrow> log_item" where
  "message_item msg pl st =
     \<lparr>it_keys = (if ls_changed st then map tk_key (ls_keys st) else []), it_records = pl_records pl, it_gui = ls_events st,
      it_time = None, it_entry = pl, it_data = msg, it_meta = ls_meta st\<rparr>"

lemma iterate_frame:
  assumes "LogEntry env rf fuel version msg extract (st\<lparr>ls_events := [], ls_changed := False\<rparr>) = Some (Inr (pl, st'))"
    and "length msg < 2 ^ 31" "buffer \<noteq> []" "callback s (message_item msg pl st') = Inr (s', True)"
  obtains buffer' where "buffer' \<noteq> []"
    "iterate_entries env rf fuel callback extract '''' version (frame msg @ rest) buffer st s =
     iterate_entries env rf fuel callback extract '''' version rest buffer' st' s'"
proof -
  let ?b = "buffer @ replicate (grow_size (length buffer) (length msg) - length buffer) 0"
  let ?b' = "msg @ drop (length msg) ?b"
  have n: "host_nat (host_u64 (length msg)) = length msg" "sint (of_nat (length msg) :: u32) = int (length msg)"
    using assms(2) by (simp_all add: host_nat_u64 count_small)
  have "iterate_entries env rf fuel callback extract '''' version (frame msg @ rest) buffer st s =
      iterate_entries env rf fuel callback extract '''' version rest ?b' st' s'"
    using assms(1,4) n by (subst iterate_entries.simps) (simp add: frame_def find_time_def message_item_def Let_def)
  moreover have "?b' \<noteq> []" using assms(3) by (cases msg) simp_all
  ultimately show thesis using that by blast
qed

lemma iterate_end: "iterate_entries env rf fuel callback extract time version [] buffer st s = Some (Inr (s, True))"
  by (subst iterate_entries.simps) simp

section \<open>Rows\<close>

text \<open>A row: what one call of \<open>log\<close> records. The keys are part of the message when something changed.\<close>

record log_row =
  row_data :: "(typed_key \<times> log_data) list"
  row_gui :: gui_events
  row_changed :: bool

definition row_of :: "(log_entry \<Rightarrow> log_data) \<Rightarrow> logger \<Rightarrow> log_row" where
  "row_of values lg =
     \<lparr>row_data = map (\<lambda>e. (key_of e, values e)) (log_entries lg), row_gui = gui_of (log_events lg),
      row_changed = (log_events lg \<noteq> [])\<rparr>"

fun logged_rows :: "log_op list \<Rightarrow> logger \<Rightarrow> log_row list" where
  "logged_rows [] lg = []"
| "logged_rows (opr # ops) lg =
     (case opr of Log_values values \<Rightarrow> [row_of values lg] | _ \<Rightarrow> []) @ logged_rows ops (run_op opr lg)"

fun logged_messages :: "log_op list \<Rightarrow> logger \<Rightarrow> u8 list list" where
  "logged_messages [] lg = []"
| "logged_messages (opr # ops) lg =
     (case opr of Log_values values \<Rightarrow> [log_message values lg] | _ \<Rightarrow> []) @ logged_messages ops (run_op opr lg)"

fun session_ok :: "log_op list \<Rightarrow> logger \<Rightarrow> bool" where
  "session_ok [] lg = True"
| "session_ok (opr # ops) lg = (op_ok opr lg \<and> session_ok ops (run_op opr lg))"

text \<open>An item that presents a row to the callback.\<close>

definition row_records :: "log_row \<Rightarrow> log_record list" where
  "row_records row = map (\<lambda>(k, d). key_record k d) (row_data row)"

definition row_keys :: "log_row \<Rightarrow> string list" where
  "row_keys row = (if row_changed row then map (\<lambda>(k, d). tk_key k) (row_data row) else [])"

definition shows_row :: "log_meta \<Rightarrow> log_row \<Rightarrow> log_item \<Rightarrow> bool" where
  "shows_row m row item \<longleftrightarrow> it_keys item = row_keys row \<and> it_records item = row_records row \<and>
     it_gui item = row_gui row \<and> it_meta item = Some m"

lemma records_of_entries:
  "map2 key_record (map key_of es) (map values es) = map (\<lambda>e. key_record (key_of e) (values e)) es"
  by (induction es) simp_all

lemma read_row:
  assumes wf: "logger_wf lg" "log_synced (ls_keys st) lg" "op_ok (Log_values values) lg"
    and meta: "ls_meta st = Some (lg_meta lg) \<or> StartEvent \<in> set (log_events lg)"
    and env: "te_alloc env = (\<lambda>_. True)" "3 * length (log_message values lg) \<le> fuel"
  obtains pl st' where
    "LogEntry env rf fuel 1 (log_message values lg) True (st\<lparr>ls_events := [], ls_changed := False\<rparr>) = Some (Inr (pl, st'))"
    "shows_row (lg_meta lg) (row_of values lg) (message_item (log_message values lg) pl st')"
    "ls_keys st' = map key_of (log_entries lg)" "ls_meta st' = Some (lg_meta lg)"
proof -
  let ?st = "st\<lparr>ls_events := [], ls_changed := False\<rparr>" and ?ds = "map values (log_entries lg)"
  let ?st' = "after_events (lg_meta lg) (log_events lg) ?st"
  have keys: "ls_keys ?st' = map key_of (log_entries lg)"
    using wf(2) by (simp add: after_events_simps log_synced_def)
  have "list_all2 (\<lambda>k d. data_ok (tk_type k) d) (ls_keys ?st') ?ds"
    using wf(3) unfolding keys by (simp add: list_all2_map1 list_all2_map2 list_all2_same list_all_iff)
  from LogEntry_message [OF env(1) _ this] wf env(2)
  obtain pl where pl: "LogEntry env rf fuel 1 (log_message values lg) True ?st = Some (Inr (pl, ?st'))"
    "pl_records pl = map2 key_record (ls_keys ?st') ?ds"
    by (auto simp: log_message_def logger_wf_def simp del: enc_value.simps)
  from pl(2) keys meta records_of_entries [of "log_entries lg" "values"]
  have "shows_row (lg_meta lg) (row_of values lg) (message_item (log_message values lg) pl ?st')"
    by (auto simp: shows_row_def message_item_def row_of_def row_keys_def row_records_def after_events_simps)
  with pl(1) keys meta that [OF pl(1)] show thesis
    by (auto simp: after_events_simps)
qed


text \<open>The number of frames that the first \<open>n\<close> bytes hold completely.\<close>

fun complete_frames :: "nat \<Rightarrow> u8 list list \<Rightarrow> nat" where
  "complete_frames n [] = 0"
| "complete_frames n (msg # msgs) =
     (if length (frame msg) \<le> n then Suc (complete_frames (n - length (frame msg)) msgs) else 0)"

lemma complete_all: "length (concat (map frame msgs)) \<le> n \<Longrightarrow> complete_frames n msgs = length msgs"
  by (induction msgs arbitrary: n) auto

lemma length_logged: "length (logged_messages ops lg) = length (logged_rows ops lg)"
  by (induction ops arbitrary: lg) (simp_all split: log_op.split)

text \<open>A frame that is cut off ends the reading.\<close>

lemma iterate_cut:
  assumes "length msg < 2 ^ 31" "n < length (frame msg)"
  shows "iterate_entries env rf fuel callback extract time version (take n (frame msg)) buffer st s = Some (Inr (s, True))"
proof (cases "n < 8")
  case True
  then have "length (take n (frame msg)) < 8" by simp
  then show ?thesis by (subst iterate_entries.simps) (simp only: if_True)
next
  case False
  have "host_nat (host_u64 (length msg)) = length msg" "sint (of_nat (length msg) :: u32) = int (length msg)"
    using assms(1) by (simp_all add: host_nat_u64 count_small)
  moreover have "n - 8 < length msg" using False assms(2) by (simp add: frame_def)
  ultimately show ?thesis
    using False by (subst iterate_entries.simps) (simp add: frame_def Let_def)
qed

lemma events_kept:
  assumes "\<not> is_log opr"
  shows "set (log_events lg) \<subseteq> set (log_events (run_op opr lg))"
  using assms
  by (cases opr) (auto simp: addLogEntry_def addGUIEvent_def removeLogEntry_def removeLogEntries_def logger_clear_def
      remove_where_def Let_def)

section \<open>Consumers of a log\<close>

text \<open>
  What the callback of \<open>iterate_binary_log\<close> has to do: from a state in which it expects some rows it
  takes an item that shows the first of them and expects the others.
\<close>

locale log_consumer =
  fixes callback :: "'s \<Rightarrow> log_item \<Rightarrow> log_error + 's \<times> bool" and expects :: "log_meta \<Rightarrow> 's \<Rightarrow> log_row list \<Rightarrow> bool"
  assumes consume: "expects m s (row # rows) \<Longrightarrow> shows_row m row item \<Longrightarrow>
    \<exists>s'. callback s item = Inr (s', True) \<and> expects m s' rows"
begin

lemma consume_prefix:
  assumes "logger_wf lg" "log_synced (ls_keys st) lg" "session_ok ops lg"
    and "ls_meta st = Some (lg_meta lg) \<or> StartEvent \<in> set (log_events lg)"
    and "te_alloc env = (\<lambda>_. True)" "buffer \<noteq> []"
    and "expects (lg_meta lg) s (take (complete_frames n (logged_messages ops lg)) (logged_rows ops lg))"
    and "3 * length (concat (map frame (logged_messages ops lg))) \<le> fuel"
  shows "\<exists>s'. iterate_entries env rf fuel callback True '''' 1 (take n (concat (map frame (logged_messages ops lg)))) buffer st s =
      Some (Inr (s', True)) \<and> expects (lg_meta lg) s' []"
  using assms
proof (induction ops arbitrary: lg st s buffer n)
  case Nil
  then show ?case by (simp add: iterate_end)
next
  case (Cons opr ops)
  show ?case
  proof (cases "is_log opr")
    case False
    from Cons.prems(3) have ok: "op_ok opr lg" by simp
    have same: "logged_rows (opr # ops) lg = logged_rows ops (run_op opr lg)"
      "logged_messages (opr # ops) lg = logged_messages ops (run_op opr lg)"
      using False by (cases opr; simp)+
    note keeps = op_keeps [OF Cons.prems(1,2) ok False]
    have "ls_meta st = Some (lg_meta (run_op opr lg)) \<or> StartEvent \<in> set (log_events (run_op opr lg))"
      using Cons.prems(4) keeps events_kept [OF False, of lg] by auto
    with Cons.IH [of "run_op opr lg" st buffer s n] keeps Cons.prems(3,5-) show ?thesis
      unfolding same by simp
  next
    case True
    then obtain vals where opr: "opr = Log_values vals" by (cases opr) auto
    let ?lg = "logger_log vals lg" and ?msg = "log_message vals lg"
    let ?n = "n - length (frame ?msg)" and ?rest = "concat (map frame (logged_messages ops (logger_log vals lg)))"
    have ok: "op_ok (Log_values vals) lg" "session_ok ops ?lg" "length ?msg < 2 ^ 31"
      using Cons.prems(3) opr by simp_all
    show ?thesis
    proof (cases "length (frame ?msg) \<le> n")
      case False
      then have "take n (concat (map frame (logged_messages (opr # ops) lg))) = take n (frame ?msg)"
        using opr by simp
      moreover have "expects (lg_meta lg) s []" using False Cons.prems(7) opr by simp
      ultimately show ?thesis using False iterate_cut [OF ok(3), of n env rf fuel callback True "''''" 1 buffer st s] by simp
    next
      case True
      note keeps = log_keeps [OF Cons.prems(1) ok(1)]
      have "3 * length ?msg \<le> fuel" using Cons.prems(8) opr by (simp add: frame_def)
      from read_row [OF Cons.prems(1,2) ok(1) Cons.prems(4,5) this] obtain pl st' where
        e: "LogEntry env rf fuel 1 ?msg True (st\<lparr>ls_events := [], ls_changed := False\<rparr>) = Some (Inr (pl, st'))"
        and row: "shows_row (lg_meta lg) (row_of vals lg) (message_item ?msg pl st')"
        and st': "ls_keys st' = map key_of (log_entries lg)" "ls_meta st' = Some (lg_meta lg)"
        by metis
      from consume [OF _ row, of s] Cons.prems(7) opr True obtain s' where s': "callback s (message_item ?msg pl st') = Inr (s', True)"
        "expects (lg_meta lg) s' (take (complete_frames ?n (logged_messages ops ?lg)) (logged_rows ops ?lg))"
        by auto
      from iterate_frame [OF e ok(3) Cons.prems(6), of callback s s' "take ?n ?rest"] s'(1)
      obtain buffer' where b: "buffer' \<noteq> []"
        "iterate_entries env rf fuel callback True '''' 1 (frame ?msg @ take ?n ?rest) buffer st s =
         iterate_entries env rf fuel callback True '''' 1 (take ?n ?rest) buffer' st' s'"
        by blast
      have "\<exists>s''. iterate_entries env rf fuel callback True '''' 1 (take ?n ?rest) buffer' st' s' =
          Some (Inr (s'', True)) \<and> expects (lg_meta ?lg) s'' []"
        using keeps st' ok(2) b(1) s'(2) Cons.prems(5,8) opr by (intro Cons.IH) simp_all
      with b(2) keeps opr True show ?thesis by simp
    qed
  qed
qed

end


text \<open>A callback that keeps what it is shown.\<close>

type_synonym row_view = "string list \<times> log_record list \<times> gui_events \<times> log_meta option"

definition item_view :: "log_item \<Rightarrow> row_view" where
  "item_view item = (it_keys item, it_records item, it_gui item, it_meta item)"

definition collect_item :: "row_view list \<Rightarrow> log_item \<Rightarrow> log_error + row_view list \<times> bool" where
  "collect_item s item = Inr (s @ [item_view item], True)"

definition row_view :: "log_meta \<Rightarrow> log_row \<Rightarrow> row_view" where
  "row_view m row = (row_keys row, row_records row, row_gui row, Some m)"

interpretation collected: log_consumer collect_item "\<lambda>m s rows. s @ map (row_view m) rows = expected" for expected
  by unfold_locales (simp add: collect_item_def item_view_def row_view_def shows_row_def)

section \<open>Files\<close>

definition sink_ready :: "log_sink \<Rightarrow> bool" where
  "sink_ready s \<longleftrightarrow> sink_open s \<and> sink_valid s \<and> \<not> sink_threaded s"

lemma session_file:
  assumes "logger_wf lg" "log_synced ks lg" "session_ok ops lg" "sink_ready (lg_sink lg)"
  shows "sink_file (lg_sink (fold run_op ops lg)) = sink_file (lg_sink lg) @ concat (map frame (logged_messages ops lg))"
  using assms
proof (induction ops arbitrary: lg ks)
  case (Cons opr ops)
  from Cons.prems(3) have ok: "op_ok opr lg" "session_ok ops (run_op opr lg)" by simp_all
  show ?case
  proof (cases "is_log opr")
    case False
    have same: "logged_messages (opr # ops) lg = logged_messages ops (run_op opr lg)"
      using False by (cases opr) simp_all
    from op_keeps [OF Cons.prems(1,2) ok(1) False] Cons.IH [of "run_op opr lg" ks] ok(2) Cons.prems(4) show ?thesis
      unfolding same by simp
  next
    case True
    then obtain vals where opr: "opr = Log_values vals" by (cases opr) auto
    have msg: "message_ok vals lg" "buffer_ok (lg_data lg)"
      using message_ok_of [OF Cons.prems(1)] ok(1) opr Cons.prems(1) by (simp_all add: logger_wf_def)
    obtain buf where buf: "logger_log vals lg =
        lg\<lparr>lg_data := buf, log_events := [], lg_sink := sink_write buf (length (log_message vals lg)) (lg_sink lg)\<rparr>"
      "take (length (log_message vals lg)) buf = log_message vals lg"
      using logger_log_eq [OF msg] by blast
    have "lg_sink (logger_log vals lg) = (lg_sink lg)\<lparr>sink_file := sink_file (lg_sink lg) @ frame (log_message vals lg)\<rparr>"
      using Cons.prems(4) buf fwrite_frame [OF _ buf(2)] msg(1)
      by (simp add: sink_write_def sink_fwrite_def sink_ready_def message_ok_def)
    with Cons.IH [of "logger_log vals lg" "map key_of (log_entries lg)"] log_keeps [OF Cons.prems(1), of vals] ok opr Cons.prems(4)
    show ?thesis by (simp add: sink_ready_def)
  qed
qed simp

lemma new_logger_wf: "meta_ok m \<Longrightarrow> logger_wf (new_logger address threaded m) \<and> log_synced [] (new_logger address threaded m)"
  by (simp add: new_logger_def logger_setup_def logger_wf_def log_synced_def buffer_ok_def)

lemma time_entry_keeps:
  assumes "logger_wf lg" "log_synced ks lg"
  shows "logger_wf (add_time_entry lg) \<and> log_synced ks (add_time_entry lg)"
  using add_keeps [OF assms, of Log_Double "''t''"] type_of_code [of Log_Double] assms by (simp add: add_time_entry_def)

lemma resume_synced:
  "fold apply_key (map (\<lambda>e. KeyAddedEvent (entry_type e) (entry_key e)) es) ks = ks @ map key_of es"
  by (induction es arbitrary: ks) (simp_all add: key_of_def)

text \<open>A file started on a well-formed logger: with \<open>resume\<close>, or as the first file of the logger.\<close>

lemma start_session:
  assumes "logger_wf lg" "resume \<or> log_synced [] lg" "\<not> sink_threaded (lg_sink lg)"
  shows "logger_wf (logger_start True resume lg)" "log_synced [] (logger_start True resume lg)"
    "StartEvent \<in> set (log_events (logger_start True resume lg))" "sink_ready (lg_sink (logger_start True resume lg))"
    "sink_file (lg_sink (logger_start True resume lg)) = log_header" "lg_meta (logger_start True resume lg) = lg_meta lg"
proof -
  let ?lg = "if resume then lg\<lparr>lg_sink := sink_initialize True (lg_sink lg),
       log_events := map (\<lambda>e. KeyAddedEvent (entry_type e) (entry_key e)) (log_entries lg)\<rparr>
     else lg\<lparr>lg_sink := sink_initialize True (lg_sink lg)\<rparr>"
  have wf: "logger_wf ?lg" "log_synced [] ?lg"
    using assms(1,2) resume_synced [of "log_entries lg" "[]"]
    by (auto simp: logger_wf_def log_synced_def list_all_iff entry_ok_def)
  have frame: "lg_meta (add_time_entry ?lg) = lg_meta lg" "lg_sink (add_time_entry ?lg) = sink_initialize True (lg_sink lg)"
    by (simp_all add: add_time_entry_def addLogEntry_def Let_def)
  have eq: "logger_start True resume lg =
      (add_time_entry ?lg)\<lparr>lg_sink := (lg_sink (add_time_entry ?lg))\<lparr>sink_valid := True\<rparr>,
        log_events := log_events (add_time_entry ?lg) @ [StartEvent]\<rparr>"
    by (simp add: logger_start_def Let_def)
  from time_entry_keeps [OF wf] frame assms(1,3)
  show "logger_wf (logger_start True resume lg)" "log_synced [] (logger_start True resume lg)"
    "StartEvent \<in> set (log_events (logger_start True resume lg))" "sink_ready (lg_sink (logger_start True resume lg))"
    "sink_file (lg_sink (logger_start True resume lg)) = log_header" "lg_meta (logger_start True resume lg) = lg_meta lg"
    unfolding eq by (simp_all add: logger_wf_def log_synced_def sink_ready_def sink_initialize_def)
qed

lemma iterate_log:
  "iterate_binary_log env rf fuel (Some (log_header @ rest)) callback extract time s =
    iterate_entries env rf fuel callback extract time 1 rest (log_header @ replicate 1020 0) initial_log_state s"
  by (simp add: iterate_binary_log_def log_header_def magic_def log_version_def)

context log_consumer
begin

lemma consume_cut_file:
  assumes "logger_wf lg" "resume \<or> log_synced [] lg" "\<not> sink_threaded (lg_sink lg)"
    and "session_ok ops (logger_start True resume lg)" "te_alloc env = (\<lambda>_. True)"
    and "sink_file (lg_sink (fold run_op ops (logger_start True resume lg))) = bytes" "3 * length bytes \<le> fuel"
    and "expects (lg_meta lg) s
      (take (complete_frames n (logged_messages ops (logger_start True resume lg))) (logged_rows ops (logger_start True resume lg)))"
  shows "\<exists>s'. iterate_binary_log env rf fuel (Some (take (4 + n) bytes)) callback True '''' s = Some (Inr (s', True)) \<and>
    expects (lg_meta lg) s' []"
proof -
  note st = start_session [OF assms(1-3)]
  have bytes: "bytes = log_header @ concat (map frame (logged_messages ops (logger_start True resume lg)))"
    using session_file [OF st(1,2) assms(4) st(4)] st(5) assms(6) by simp
  have cut: "take (4 + n) bytes = log_header @ take n (concat (map frame (logged_messages ops (logger_start True resume lg))))"
    by (simp add: bytes log_header_def magic_def take_Cons')
  have "\<exists>s'. iterate_entries env rf fuel callback True '''' 1
      (take n (concat (map frame (logged_messages ops (logger_start True resume lg))))) (log_header @ replicate 1020 0) initial_log_state s =
      Some (Inr (s', True)) \<and> expects (lg_meta (logger_start True resume lg)) s' []"
    using st assms(4,5,7,8) bytes by (intro consume_prefix) (simp_all add: initial_log_state_def)
  then show ?thesis
    using st(6) by (simp add: cut iterate_log)
qed

lemma consume_file:
  assumes "logger_wf lg" "resume \<or> log_synced [] lg" "\<not> sink_threaded (lg_sink lg)"
    and "session_ok ops (logger_start True resume lg)" "te_alloc env = (\<lambda>_. True)"
    and "sink_file (lg_sink (fold run_op ops (logger_start True resume lg))) = bytes" "3 * length bytes \<le> fuel"
    and "expects (lg_meta lg) s (logged_rows ops (logger_start True resume lg))"
  shows "\<exists>s'. iterate_binary_log env rf fuel (Some bytes) callback True '''' s = Some (Inr (s', True)) \<and> expects (lg_meta lg) s' []"
proof -
  note st = start_session [OF assms(1-3)]
  have len: "length (concat (map frame (logged_messages ops (logger_start True resume lg)))) \<le> length bytes"
    using session_file [OF st(1,2) assms(4) st(4)] assms(6) by simp
  from consume_cut_file [OF assms(1-7), of s "length bytes" rf] complete_all [OF len] assms(8) show ?thesis
    by (simp add: length_logged)
qed

end

end
