(* ===== verification/Mc_Flat_Log_Correct.thy ===== *)
theory Mc_Flat_Log_Correct
  imports Mc_Log_Session
begin

text \<open>
  A flat log filled from a binary log: every column has one record per row, which is the record logged
  under its name in that row or an empty one, whenever the entry was added or removed.
\<close>

section \<open>Columns\<close>

definition dense :: "(string \<Rightarrow> log_record list) \<Rightarrow> string list \<Rightarrow> (string \<times> log_record list) list" where
  "dense col names = map (\<lambda>k. (k, col k)) names"

text \<open>
  The columns \<open>cur\<close> are complete up to row \<open>n\<close>; the others may be short, and what is missing are empty
  records. The content of the column \<open>k\<close> is \<open>col k\<close>.
\<close>

definition columns_hold :: "nat \<Rightarrow> (string \<Rightarrow> log_record list) \<Rightarrow> nat list \<Rightarrow> (string \<times> log_record list) list \<Rightarrow> bool" where
  "columns_hold n col cur data \<longleftrightarrow> distinct (map fst data) \<and>
     (\<forall>i<length data. length (snd (data ! i)) \<le> n \<and> resize_records n (snd (data ! i)) = col (fst (data ! i))) \<and>
     (\<forall>i\<in>set cur. i < length data \<and> length (snd (data ! i)) = n)"

lemma resize_full [simp]: "length rs = n \<Longrightarrow> resize_records n rs = rs"
  by (simp add: resize_records_def)

lemma resize_length [simp]: "length (resize_records n rs) = n"
  by (simp add: resize_records_def)

lemma resize_more: "length rs \<le> n \<Longrightarrow> resize_records (Suc n) rs = resize_records n rs @ [empty_record]"
  by (simp add: resize_records_def Suc_diff_le replicate_append_same)

lemma resize_columns:
  "(\<And>i. i \<in> set mis \<Longrightarrow> i < length data) \<Longrightarrow>
    fold (resize_column n) mis data =
      map (\<lambda>i. (fst (data ! i), if i \<in> set mis then resize_records n (snd (data ! i)) else snd (data ! i))) [0..<length data]"
proof (induction mis arbitrary: data)
  case Nil
  show ?case by (simp add: map_nth)
next
  case (Cons k mis)
  have k: "k < length data" using Cons.prems by simp
  have "fold (resize_column n) mis (resize_column n k data) =
      map (\<lambda>i. (fst (resize_column n k data ! i), if i \<in> set mis then resize_records n (snd (resize_column n k data ! i))
        else snd (resize_column n k data ! i))) [0..<length (resize_column n k data)]"
    using Cons.prems by (intro Cons.IH) (simp add: resize_column_def)
  also have "\<dots> = map (\<lambda>i. (fst (data ! i), if i \<in> set (k # mis) then resize_records n (snd (data ! i)) else snd (data ! i)))
      [0..<length data]"
    using k by (auto simp: resize_column_def nth_list_update intro!: map_cong)
  finally show ?case by simp
qed

lemma resize_missing:
  assumes "columns_hold n col cur data" "set mis = {..<length data} - set cur"
  shows "fold (resize_column n) mis data = dense col (map fst data)"
proof -
  have "(if i \<in> set mis then resize_records n (snd (data ! i)) else snd (data ! i)) = col (fst (data ! i))" if "i < length data" for i
  proof -
    have "resize_records n (snd (data ! i)) = col (fst (data ! i))" "i \<in> set cur \<Longrightarrow> length (snd (data ! i)) = n"
      using assms(1) that by (simp_all add: columns_hold_def)
    then show ?thesis using that unfolding assms(2) by (cases "i \<in> set cur") simp_all
  qed
  then have eq: "map (\<lambda>i. (fst (data ! i), if i \<in> set mis then resize_records n (snd (data ! i)) else snd (data ! i))) [0..<length data] =
      map (\<lambda>i. (fst (data ! i), col (fst (data ! i)))) [0..<length data]"
    by (intro map_cong) simp_all
  have "fold (resize_column n) mis data = map (\<lambda>i. (fst (data ! i), col (fst (data ! i)))) [0..<length data]"
    unfolding eq [symmetric] by (rule resize_columns) (simp add: assms(2))
  also have "\<dots> = dense col (map fst data)"
    by (rule nth_equalityI) (simp_all add: dense_def)
  finally show ?thesis .
qed

lemma dense_nth: "i < length names \<Longrightarrow> dense col names ! i = (names ! i, col (names ! i))"
  by (simp add: dense_def)

lemma length_dense [simp]: "length (dense col names) = length names"
  by (simp add: dense_def)

lemma map_fst_dense [simp]: "map fst (dense col names) = names"
  by (simp add: dense_def o_def)

lemma index_dense:
  assumes "\<And>k. length (col k) = n" "k \<notin> set names \<Longrightarrow> col k = replicate n empty_record"
  obtains i names' where "fl_index k n (dense col names) = (i, dense col names')"
    "names' = names @ (if k \<in> set names then [] else [k])" "i < length names'" "names' ! i = k"
proof (cases "fl_find k (dense col names)")
  case None
  then have "\<forall>i<length names. names ! i \<noteq> k"
    by (simp add: fl_find_def find_None_iff dense_nth)
  then have k: "k \<notin> set names" by (metis in_set_conv_nth)
  have "fl_index k n (dense col names) = (length names, dense col (names @ [k]))"
    using None assms(2) [OF k] by (simp add: fl_index_def dense_def)
  with k that show thesis by simp
next
  case (Some i)
  then have i: "i < length names" "names ! i = k"
    by (auto simp: fl_find_def find_Some_iff dense_nth)
  have "resize_column n i (dense col names) = (dense col names)[i := dense col names ! i]"
    using assms(1) i(1) by (simp add: resize_column_def dense_nth)
  then have "fl_index k n (dense col names) = (i, dense col names)"
    using Some by (simp add: fl_index_def)
  moreover have "k \<in> set names" using i by auto
  ultimately show thesis using i that by simp
qed

lemma index_keys_dense:
  assumes len: "\<And>k. length (col k) = n" and new: "\<And>k. k \<in> set ks \<Longrightarrow> k \<notin> set names \<Longrightarrow> col k = replicate n empty_record"
    and d: "distinct names"
  shows "\<exists>js names'. index_keys ks n (dense col names) = (js, dense col names') \<and> distinct names' \<and>
    set names' = set names \<union> set ks \<and> (\<exists>ext. names' = names @ ext) \<and> length js = length ks \<and>
    (\<forall>j<length ks. js ! j < length names' \<and> names' ! (js ! j) = ks ! j)"
  using new d
proof (induction ks arbitrary: names)
  case (Cons k ks)
  obtain i names1 where i: "fl_index k n (dense col names) = (i, dense col names1)"
    "names1 = names @ (if k \<in> set names then [] else [k])" "i < length names1" "names1 ! i = k"
    using index_dense [of col n k names] len Cons.prems(1) by (metis list.set_intros(1))
  have "distinct names1" "\<And>k. k \<in> set ks \<Longrightarrow> k \<notin> set names1 \<Longrightarrow> col k = replicate n empty_record"
    using Cons.prems i(2) by auto
  from Cons.IH [OF this(2,1)] obtain js names' where r: "index_keys ks n (dense col names1) = (js, dense col names')"
    "distinct names'" "set names' = set names1 \<union> set ks" "\<exists>ext. names' = names1 @ ext" "length js = length ks"
    "\<forall>j<length ks. js ! j < length names' \<and> names' ! (js ! j) = ks ! j" by blast
  have "i < length names'" "names' ! i = k" using i(3,4) r(4) by (auto simp: nth_append)
  moreover have "set names' = set names \<union> set (k # ks)" "\<exists>ext. names' = names @ ext" using r(3,4) i(2) by auto
  ultimately show ?case
    using i(1) r by (intro exI [of _ "i # js"] exI [of _ names']) (auto simp: nth_Cons split: nat.split)
qed auto

lemma push_records_ok:
  "distinct js \<Longrightarrow> length rs = length js \<Longrightarrow> (\<And>i. i \<in> set js \<Longrightarrow> i < length data) \<Longrightarrow>
    \<exists>data'. push_records js rs data = Inr data' \<and> map fst data' = map fst data \<and>
      (\<forall>i<length data. i \<notin> set js \<longrightarrow> data' ! i = data ! i) \<and>
      (\<forall>j<length js. snd (data' ! (js ! j)) = snd (data ! (js ! j)) @ [rs ! j])"
proof (induction js arbitrary: rs data)
  case (Cons i js)
  then obtain r rs' where rs: "rs = r # rs'" by (cases rs) auto
  let ?data = "data[i := (fst (data ! i), snd (data ! i) @ [r])]"
  have i: "i < length data" using Cons.prems(3) by simp
  have "\<exists>data'. push_records js rs' ?data = Inr data' \<and> map fst data' = map fst ?data \<and>
      (\<forall>k<length ?data. k \<notin> set js \<longrightarrow> data' ! k = ?data ! k) \<and>
      (\<forall>j<length js. snd (data' ! (js ! j)) = snd (?data ! (js ! j)) @ [rs' ! j])"
    using Cons.prems rs by (intro Cons.IH) simp_all
  then obtain data' where d: "push_records js rs' ?data = Inr data'" "map fst data' = map fst ?data"
    "\<forall>k<length ?data. k \<notin> set js \<longrightarrow> data' ! k = ?data ! k"
    "\<forall>j<length js. snd (data' ! (js ! j)) = snd (?data ! (js ! j)) @ [rs' ! j]" by blast
  have "i \<noteq> js ! j" if "j < length js" for j using Cons.prems(1) that by auto
  then have ne: "\<forall>j<length js. snd (data' ! (js ! j)) = snd (data ! (js ! j)) @ [rs' ! j]"
    using d(4) by simp
  have "map fst ?data = map fst data" by (simp add: map_update list_update_same_conv i)
  with d(1-3) ne i Cons.prems(1) rs show ?case
    by (intro exI [of _ data']) (auto simp: nth_Cons split: nat.split)
qed simp


section \<open>Rows\<close>

definition row_names :: "log_row \<Rightarrow> string list" where
  "row_names row = map (\<lambda>(k, d). tk_key k) (row_data row)"

text \<open>The record of a row under a name, and what a column holds after some rows.\<close>

definition cell :: "string \<Rightarrow> log_row \<Rightarrow> log_record" where
  "cell k row = (case map_of (zip (row_names row) (row_records row)) k of Some r \<Rightarrow> r | None \<Rightarrow> empty_record)"

definition column :: "flat_log \<Rightarrow> log_row list \<Rightarrow> string \<Rightarrow> log_record list" where
  "column fl rows k =
     (case flat_log_at k fl of Some rs \<Rightarrow> rs | None \<Rightarrow> replicate (flat_log_size fl) empty_record) @ map (cell k) rows"

lemma length_row [simp]: "length (row_names row) = length (row_data row)" "length (row_records row) = length (row_data row)"
  by (simp_all add: row_names_def row_records_def)

lemma cell_nth:
  assumes "distinct (row_names row)" "j < length (row_data row)"
  shows "cell (row_names row ! j) row = row_records row ! j"
  using assms by (simp add: cell_def map_of_zip_nth)

lemma cell_other: "k \<notin> set (row_names row) \<Longrightarrow> cell k row = empty_record"
  by (auto simp: cell_def split: option.split dest: map_of_SomeD set_zip_leftD)

text \<open>All columns have the size of the log.\<close>

definition flat_aligned :: "flat_log \<Rightarrow> bool" where
  "flat_aligned fl \<longleftrightarrow> distinct (map fst (fl_data fl)) \<and> list_all (\<lambda>(k, rs). length rs = flat_log_size fl) (fl_data fl)"

lemma aligned_dense:
  assumes "flat_aligned fl"
  shows "dense (column fl []) (map fst (fl_data fl)) = fl_data fl"
proof -
  have "map_of (fl_data fl) k = Some rs" if "(k, rs) \<in> set (fl_data fl)" for k rs
    using assms that by (intro map_of_is_SomeI) (simp_all add: flat_aligned_def)
  then show ?thesis
    by (auto simp: dense_def column_def flat_log_at_def o_def intro!: map_idI)
qed

lemma column_length: "flat_aligned fl \<Longrightarrow> length (column fl rows k) = flat_log_size fl + length rows"
  by (auto simp: column_def flat_aligned_def flat_log_at_def list_all_iff split: option.split dest: map_of_SomeD)

lemma column_new:
  assumes "k \<notin> set (map fst (fl_data fl))" "\<And>row. row \<in> set rows \<Longrightarrow> k \<notin> set (row_names row)"
  shows "column fl rows k = replicate (flat_log_size fl + length rows) empty_record"
proof -
  have "map (cell k) rows = map (\<lambda>_. empty_record) rows"
    using assms(2) cell_other by (intro map_cong) simp_all
  moreover have "map_of (fl_data fl) k = None" using assms(1) by (simp add: map_of_eq_None_iff)
  ultimately show ?thesis
    by (simp add: column_def flat_log_at_def map_replicate_const replicate_add)
qed

text \<open>The state of \<open>appendBin\<close> after \<open>rows\<close>, the keys of the last one being \<open>names\<close>.\<close>

definition flat_ready :: "flat_log \<Rightarrow> log_row list \<Rightarrow> string list \<Rightarrow> append_state \<Rightarrow> bool" where
  "flat_ready fl rows names a \<longleftrightarrow>
     (let data = fl_data (ap_log a) in
      ap_size a = flat_log_size fl + length rows \<and> columns_hold (ap_size a) (column fl rows) (ap_current a) data \<and>
      set (ap_missing a) = {..<length data} - set (ap_current a) \<and> map (\<lambda>i. fst (data ! i)) (ap_current a) = names \<and>
      set (map fst data) = set (map fst (fl_data fl)) \<union> set (concat (map row_names rows)) \<union> set names)"

definition flat_start :: "flat_log \<Rightarrow> append_state \<Rightarrow> bool" where
  "flat_start fl a \<longleftrightarrow> fl_data (ap_log a) = fl_data fl \<and> ap_current a = [] \<and> ap_missing a = [] \<and> ap_size a = flat_log_size fl"

definition flat_state :: "flat_log \<Rightarrow> log_row list \<Rightarrow> append_state \<Rightarrow> bool" where
  "flat_state fl rows a \<longleftrightarrow> (if rows = [] then flat_start fl a else flat_ready fl rows (row_names (last rows)) a)"

lemma state_names:
  assumes "flat_aligned fl" "flat_state fl rows a"
  shows "ap_size a = flat_log_size fl + length rows" "distinct (map fst (fl_data (ap_log a)))"
    "set (map fst (fl_data (ap_log a))) = set (map fst (fl_data fl)) \<union> set (concat (map row_names rows))"
proof -
  show "ap_size a = flat_log_size fl + length rows" "distinct (map fst (fl_data (ap_log a)))"
    using assms by (auto simp: flat_state_def flat_start_def flat_ready_def flat_aligned_def columns_hold_def Let_def split: if_splits)
  have "set (row_names (last rows)) \<subseteq> set (concat (map row_names rows))" if "rows \<noteq> []"
    using last_in_set [OF that] by auto
  then show "set (map fst (fl_data (ap_log a))) = set (map fst (fl_data fl)) \<union> set (concat (map row_names rows))"
    using assms(2) unfolding flat_state_def flat_start_def flat_ready_def Let_def by (cases "rows = []") auto
qed

lemma missing_dense:
  assumes "flat_aligned fl" "flat_state fl rows a"
  shows "fold (resize_column (ap_size a)) (ap_missing a) (fl_data (ap_log a)) = dense (column fl rows) (map fst (fl_data (ap_log a)))"
proof (cases "rows = []")
  case True
  with assms aligned_dense [OF assms(1)] show ?thesis by (simp add: flat_state_def flat_start_def)
next
  case False
  with assms(2) have "columns_hold (ap_size a) (column fl rows) (ap_current a) (fl_data (ap_log a))"
    "set (ap_missing a) = {..<length (fl_data (ap_log a))} - set (ap_current a)"
    unfolding flat_state_def flat_ready_def Let_def by (metis (no_types))+
  then show ?thesis by (rule resize_missing)
qed

lemma keys_ready:
  assumes al: "flat_aligned fl" and st: "flat_state fl rows a" and ks: "ks \<noteq> []" "distinct ks"
  shows "\<exists>data js mis. append_keys ks a = a\<lparr>ap_log := (ap_log a)\<lparr>fl_data := data\<rparr>, ap_current := js, ap_missing := mis\<rparr> \<and>
    flat_ready fl rows ks (append_keys ks a)"
proof -
  let ?col = "column fl rows" and ?n = "ap_size a" and ?names = "map fst (fl_data (ap_log a))"
  note m = state_names [OF al st]
  have "\<And>k. k \<notin> set ?names \<Longrightarrow> ?col k = replicate ?n empty_record"
    unfolding m(1,3) by (rule column_new) auto
  then obtain js names' where r: "index_keys ks ?n (dense ?col ?names) = (js, dense ?col names')" "distinct names'"
    "set names' = set ?names \<union> set ks" "length js = length ks"
    "\<forall>j<length ks. js ! j < length names' \<and> names' ! (js ! j) = ks ! j"
    using index_keys_dense [of ?col ?n ks ?names] column_length [OF al, of rows] m(1,2) by metis
  let ?a = "a\<lparr>ap_log := (ap_log a)\<lparr>fl_data := dense ?col names'\<rparr>, ap_current := js,
     ap_missing := filter (\<lambda>i. i \<notin> set js) [0..<length names']\<rparr>"
  have eq: "append_keys ks a = ?a"
    using ks(1) r(1) missing_dense [OF al st] by (simp add: append_keys_def Let_def)
  have js: "\<forall>i\<in>set js. i < length names'" using r(4,5) by (metis in_set_conv_nth)
  then have "columns_hold ?n ?col js (dense ?col names')"
    using r(2) column_length [OF al, of rows] m(1) by (simp add: columns_hold_def dense_nth)
  moreover have "map (\<lambda>i. fst (dense ?col names' ! i)) js = ks"
    using r(4,5) by (intro nth_equalityI) (simp_all add: dense_nth)
  moreover have "set (map fst (dense ?col names')) = set (map fst (fl_data fl)) \<union> set (concat (map row_names rows)) \<union> set ks"
    unfolding map_fst_dense r(3) m(3) ..
  moreover have "set (filter (\<lambda>i. i \<notin> set js) [0..<length names']) = {..<length names'} - set js" by auto
  ultimately have "flat_ready fl rows ks ?a"
    using m(1) unfolding flat_ready_def Let_def by simp
  with eq show ?thesis by metis
qed

lemma column_at:
  assumes "columns_hold n col js data" "i \<in> set js"
  shows "snd (data ! i) = col (fst (data ! i))" "length (snd (data ! i)) = n" "i < length data"
  using assms by (auto simp: columns_hold_def)

lemma column_names:
  assumes "columns_hold n col js data" "i < length data" "i \<notin> set js"
  shows "fst (data ! i) \<notin> set (map (\<lambda>i. fst (data ! i)) js)"
proof
  assume "fst (data ! i) \<in> set (map (\<lambda>i. fst (data ! i)) js)"
  then obtain k where k: "k \<in> set js" "fst (data ! i) = fst (data ! k)" by auto
  have "distinct (map fst data)" using assms(1) by (simp add: columns_hold_def)
  moreover have "map fst data ! i = map fst data ! k" using k assms(2) column_at(3) [OF assms(1) k(1)] by simp
  ultimately have "i = k"
    using assms(2) column_at(3) [OF assms(1) k(1)] nth_eq_iff_index_eq [of "map fst data" i k] by (simp del: nth_map)
  with k(1) assms(3) show False by simp
qed

lemma push_columns:
  assumes h: "columns_hold n col js data" and ks: "map (\<lambda>i. fst (data ! i)) js = ks" "distinct ks" "length rs = length ks"
    and cur: "\<And>j. j < length ks \<Longrightarrow> col' (ks ! j) = col (ks ! j) @ [rs ! j]"
    and oth: "\<And>k. k \<notin> set ks \<Longrightarrow> col' k = col k @ [empty_record]"
  obtains data' where "push_records js rs data = Inr data'" "map fst data' = map fst data" "columns_hold (Suc n) col' js data'"
proof -
  have "distinct js" using ks(1,2) by (metis distinct_map)
  moreover have len: "length rs = length js" using ks(1,3) by (metis length_map)
  ultimately obtain data' where d: "push_records js rs data = Inr data'" "map fst data' = map fst data"
    "\<forall>i<length data. i \<notin> set js \<longrightarrow> data' ! i = data ! i"
    "\<forall>j<length js. snd (data' ! (js ! j)) = snd (data ! (js ! j)) @ [rs ! j]"
    using push_records_ok [of js rs data] column_at(3) [OF h] by blast
  have ld: "length data' = length data" using d(2) by (rule map_eq_imp_length_eq)
  have fst: "fst (data' ! i) = fst (data ! i)" if "i < length data" for i
    using d(2) ld that by (metis nth_map)
  have c: "snd (data' ! i) = col' (fst (data' ! i)) \<and> length (snd (data' ! i)) = Suc n" if i: "i \<in> set js" for i
  proof -
    obtain j where j: "j < length js" "i = js ! j" using i by (auto simp: in_set_conv_nth)
    then have "fst (data ! i) = ks ! j" "j < length ks" using ks(1) by auto
    then show ?thesis
      using d(4) j column_at [OF h i] cur [of j] fst by simp
  qed
  have o: "length (snd (data' ! i)) \<le> n \<and> resize_records (Suc n) (snd (data' ! i)) = col' (fst (data' ! i))"
    if i: "i < length data" "i \<notin> set js" for i
  proof -
    have "length (snd (data ! i)) \<le> n" "resize_records n (snd (data ! i)) = col (fst (data ! i))"
      using h i(1) by (simp_all add: columns_hold_def)
    then show ?thesis
      using d(3) i oth [of "fst (data ! i)"] column_names [OF h i] ks(1) by (simp add: resize_more)
  qed
  have "columns_hold (Suc n) col' js data'"
    unfolding columns_hold_def ld d(2)
  proof (intro conjI allI impI ballI)
    show "distinct (map fst data)" using h by (simp add: columns_hold_def)
    fix i
    assume "i < length data"
    then show "length (snd (data' ! i)) \<le> Suc n" "resize_records (Suc n) (snd (data' ! i)) = col' (fst (data' ! i))"
      using c [of i] o [of i] by (cases "i \<in> set js"; fastforce)+
  next
    fix i
    assume "i \<in> set js"
    then show "i < length data" "length (snd (data' ! i)) = Suc n" using c [of i] column_at(3) [OF h] by blast+
  qed
  with d(1,2) that show thesis by blast
qed


lemma push_ready:
  assumes al: "flat_aligned fl" and r: "flat_ready fl rows (row_names row) a" and d: "distinct (row_names row)"
  obtains data where "push_records (ap_current a) (row_records row) (fl_data (ap_log a)) = Inr data"
    "flat_ready fl (rows @ [row]) (row_names row) (a\<lparr>ap_log := (ap_log a)\<lparr>fl_data := data, fl_gui_events := g\<rparr>, ap_size := ap_size a + 1\<rparr>)"
proof -
  let ?data = "fl_data (ap_log a)" and ?js = "ap_current a" and ?n = "ap_size a"
  have n: "?n = flat_log_size fl + length rows" and h: "columns_hold ?n (column fl rows) ?js ?data"
    and mis: "set (ap_missing a) = {..<length ?data} - set ?js" and names: "map (\<lambda>i. fst (?data ! i)) ?js = row_names row"
    and all: "set (map fst ?data) = set (map fst (fl_data fl)) \<union> set (concat (map row_names rows)) \<union> set (row_names row)"
    using r unfolding flat_ready_def Let_def by blast+
  obtain data where data: "push_records ?js (row_records row) ?data = Inr data" "map fst data = map fst ?data"
    "columns_hold (Suc ?n) (column fl (rows @ [row])) ?js data"
    using push_columns [OF h names d, of "row_records row" "column fl (rows @ [row])"]
    by (auto simp: column_def cell_nth [OF d] cell_other)
  have ld: "length data = length ?data" using data(2) by (rule map_eq_imp_length_eq)
  have "fst (data ! i) = fst (?data ! i)" if "i \<in> set ?js" for i
    using data(2) ld column_at(3) [OF h that] by (metis nth_map)
  then have "map (\<lambda>i. fst (data ! i)) ?js = row_names row"
    unfolding names [symmetric] by (intro map_cong) simp_all
  moreover have "set (map fst data) =
      set (map fst (fl_data fl)) \<union> set (concat (map row_names (rows @ [row]))) \<union> set (row_names row)"
    unfolding data(2) all by auto
  ultimately have "flat_ready fl (rows @ [row]) (row_names row)
      (a\<lparr>ap_log := (ap_log a)\<lparr>fl_data := data, fl_gui_events := g\<rparr>, ap_size := ap_size a + 1\<rparr>)"
    using n mis ld data(3) unfolding flat_ready_def Let_def by simp
  with data(1) that show thesis by blast
qed

section \<open>Appending a log\<close>

text \<open>
  The rows of a log: every row has an entry, no key twice, and the keys are repeated exactly when they
  may have changed.
\<close>

fun rows_ok :: "string list \<Rightarrow> log_row list \<Rightarrow> bool" where
  "rows_ok names [] = True"
| "rows_ok names (row # rows) =
     (row_names row \<noteq> [] \<and> distinct (row_names row) \<and> (row_changed row \<or> row_names row = names) \<and> rows_ok (row_names row) rows)"

definition appended_meta :: "log_meta \<Rightarrow> flat_log \<Rightarrow> log_row list \<Rightarrow> log_meta option" where
  "appended_meta m fl rows = (if rows = [] \<or> fl_meta fl \<noteq> None then fl_meta fl else Some m)"

text \<open>What \<open>appendBin\<close> expects after the rows \<open>seen\<close> of a log.\<close>

definition flat_expects :: "flat_log \<Rightarrow> log_row list \<Rightarrow> log_meta \<Rightarrow> append_state \<Rightarrow> log_row list \<Rightarrow> bool" where
  "flat_expects fl all_rows m a rows \<longleftrightarrow>
     (\<exists>seen. all_rows = seen @ rows \<and> flat_aligned fl \<and> flat_state fl seen a \<and>
        rows_ok (if seen = [] then [] else row_names (last seen)) rows \<and>
        fl_gui_events (ap_log a) = fl_gui_events fl @ map row_gui seen \<and> fl_meta (ap_log a) = appended_meta m fl seen)"

lemma row_keys_names: "row_keys row = (if row_changed row then row_names row else [])"
  by (simp add: row_keys_def row_names_def)

lemma append_meta_simps:
  "append_meta m a = a\<lparr>ap_log := (ap_log a)\<lparr>fl_meta := (if fl_meta (ap_log a) = None then m else fl_meta (ap_log a))\<rparr>\<rparr>"
  by (auto simp: append_meta_def)

lemma state_frame: "flat_state fl rows (a\<lparr>ap_log := (ap_log a)\<lparr>fl_meta := x\<rparr>\<rparr>) = flat_state fl rows a"
  by (simp add: flat_state_def flat_start_def flat_ready_def)

lemma keys_of_row:
  assumes "flat_aligned fl" "flat_state fl seen a" "rows_ok (if seen = [] then [] else row_names (last seen)) (row # rows)"
  shows "flat_ready fl seen (row_names row) (append_keys (row_keys row) a) \<and>
    fl_gui_events (ap_log (append_keys (row_keys row) a)) = fl_gui_events (ap_log a) \<and>
    fl_meta (ap_log (append_keys (row_keys row) a)) = fl_meta (ap_log a)"
proof (cases "row_changed row")
  case True
  from keys_ready [OF assms(1,2), of "row_names row"] assms(3)
  obtain data js mis where k: "append_keys (row_names row) a =
      a\<lparr>ap_log := (ap_log a)\<lparr>fl_data := data\<rparr>, ap_current := js, ap_missing := mis\<rparr>"
    "flat_ready fl seen (row_names row) (append_keys (row_names row) a)" by auto
  have "fl_gui_events (ap_log (append_keys (row_names row) a)) = fl_gui_events (ap_log a)"
    "fl_meta (ap_log (append_keys (row_names row) a)) = fl_meta (ap_log a)"
    unfolding k(1) by simp_all
  with k(2) True show ?thesis by (simp add: row_keys_names)
next
  case False
  then have "seen \<noteq> []" "row_names (last seen) = row_names row" "append_keys (row_keys row) a = a"
    using assms(3) by (auto simp: row_keys_names append_keys_def split: if_splits)
  with assms(2) show ?thesis by (simp add: flat_state_def)
qed

interpretation flat: log_consumer append_row "flat_expects fl all_rows" for fl all_rows
proof
  fix m a row rows item
  assume "flat_expects fl all_rows m a (row # rows)" and item: "shows_row m row item"
  then obtain seen where e: "all_rows = seen @ row # rows" "flat_aligned fl" "flat_state fl seen a"
    "rows_ok (if seen = [] then [] else row_names (last seen)) (row # rows)"
    "fl_gui_events (ap_log a) = fl_gui_events fl @ map row_gui seen" "fl_meta (ap_log a) = appended_meta m fl seen"
    by (auto simp: flat_expects_def)
  let ?a = "append_keys (row_keys row) (append_meta (Some m) a)"
  have st: "flat_state fl seen (append_meta (Some m) a)" unfolding append_meta_simps state_frame by (rule e(3))
  note k = keys_of_row [OF e(2) st e(4)]
  have meta: "fl_meta (ap_log ?a) = appended_meta m fl (seen @ [row])"
    using k e(6) by (auto simp: append_meta_simps appended_meta_def)
  have gui: "fl_gui_events (ap_log ?a) = fl_gui_events fl @ map row_gui seen"
    using k e(5) by (simp add: append_meta_simps)
  obtain data where d: "push_records (ap_current ?a) (row_records row) (fl_data (ap_log ?a)) = Inr data"
    "flat_ready fl (seen @ [row]) (row_names row)
      (?a\<lparr>ap_log := (ap_log ?a)\<lparr>fl_data := data, fl_gui_events := fl_gui_events (ap_log ?a) @ [row_gui row]\<rparr>, ap_size := ap_size ?a + 1\<rparr>)"
    (is "flat_ready _ _ _ ?a'")
    using push_ready [OF e(2), of seen row ?a] k e(4) by auto
  have "append_row a item = Inr (?a', True)"
    using item d(1) by (simp add: append_row_def shows_row_def Let_def)
  moreover have "flat_expects fl all_rows m ?a' rows"
    unfolding flat_expects_def
    using e(1,2,4) d(2) meta gui by (intro exI [of _ "seen @ [row]"]) (simp add: flat_state_def)
  ultimately show "\<exists>s'. append_row a item = Inr (s', True) \<and> flat_expects fl all_rows m s' rows" by blast
qed


lemma dense_map_of: "map_of (dense col names) k = (if k \<in> set names then Some (col k) else None)"
  by (simp add: dense_def map_of_map_restrict)

lemma finish_columns:
  assumes "flat_expects fl rows m a []"
  shows "flat_log_at k (append_finish a) =
      (if k \<in> set (map fst (fl_data fl)) \<union> set (concat (map row_names rows)) then Some (column fl rows k) else None)"
    "distinct (map fst (fl_data (append_finish a)))" "\<forall>(k, rs)\<in>set (fl_data (append_finish a)). rs = column fl rows k"
    "fl_gui_events (append_finish a) = fl_gui_events fl @ map row_gui rows" "fl_meta (append_finish a) = appended_meta m fl rows"
proof -
  have e: "flat_aligned fl" "flat_state fl rows a" "fl_gui_events (ap_log a) = fl_gui_events fl @ map row_gui rows"
    "fl_meta (ap_log a) = appended_meta m fl rows"
    using assms by (auto simp: flat_expects_def)
  have data: "fl_data (append_finish a) = dense (column fl rows) (map fst (fl_data (ap_log a)))"
    using missing_dense [OF e(1,2)] by (simp add: append_finish_def)
  show "flat_log_at k (append_finish a) =
      (if k \<in> set (map fst (fl_data fl)) \<union> set (concat (map row_names rows)) then Some (column fl rows k) else None)"
    unfolding flat_log_at_def data dense_map_of state_names(3) [OF e(1,2)] ..
  show "distinct (map fst (fl_data (append_finish a)))" unfolding data using state_names(2) [OF e(1,2)] by simp
  show "\<forall>(k, rs)\<in>set (fl_data (append_finish a)). rs = column fl rows k" unfolding data by (auto simp: dense_def)
  show "fl_gui_events (append_finish a) = fl_gui_events fl @ map row_gui rows" "fl_meta (append_finish a) = appended_meta m fl rows"
    using e(3,4) by (simp_all add: append_finish_def)
qed

lemma finish_aligned:
  assumes "flat_expects fl rows m a []" "rows_ok [] rows"
  shows "flat_aligned (append_finish a)" "flat_log_size (append_finish a) = flat_log_size fl + length rows"
proof -
  have al: "flat_aligned fl" using assms(1) by (auto simp: flat_expects_def)
  have len: "length rs = flat_log_size fl + length rows" if "(k, rs) \<in> set (fl_data (append_finish a))" for k rs
    using finish_columns(3) [OF assms(1)] that column_length [OF al] by auto
  show sz: "flat_log_size (append_finish a) = flat_log_size fl + length rows"
  proof (cases "fl_data (append_finish a)")
    case (Cons kr data)
    with len [of "fst kr" "snd kr"] show ?thesis by (simp add: flat_log_size_def)
  next
    case Nil
    then have none: "flat_log_at k (append_finish a) = None" for k by (simp add: flat_log_at_def)
    then have empty: "set (map fst (fl_data fl)) \<union> set (concat (map row_names rows)) = {}"
      using finish_columns(1) [OF assms(1)] by (metis all_not_in_conv option.distinct(1))
    then have "rows = []" using assms(2) by (cases rows) auto
    with Nil empty show ?thesis by (simp add: flat_log_size_def)
  qed
  with len finish_columns(2) [OF assms(1)] show "flat_aligned (append_finish a)"
    by (auto simp: flat_aligned_def list_all_iff)
qed


lemma unchanged_op:
  assumes "\<not> is_log opr" "log_events (run_op opr lg) = []"
  shows "log_events lg = []" "log_entries (run_op opr lg) = log_entries lg"
proof -
  have removed: "log_events lg = [] \<and> log_entries (remove_where p True lg) = log_entries lg"
    if "log_events (remove_where p True lg) = []" for p
    using that by (auto simp: remove_where_def filter_empty_conv intro!: filter_True)
  have "log_events lg = [] \<and> log_entries (run_op opr lg) = log_entries lg"
  proof (cases opr)
    case (Remove_entries source)
    with assms(2) removed show ?thesis by (simp add: removeLogEntries_def)
  next
    case Clear_entries
    with assms(2) removed show ?thesis by (simp add: logger_clear_def)
  next
    case (Add_entry name source ty)
    with assms(2) show ?thesis by (simp add: addLogEntry_def Let_def split: if_splits)
  next
    case (Remove_entry name)
    with assms(2) show ?thesis by (simp add: removeLogEntry_def split: if_splits)
  qed (use assms in \<open>simp_all add: addGUIEvent_def\<close>)
  then show "log_events lg = []" "log_entries (run_op opr lg) = log_entries lg" by simp_all
qed

lemma session_rows_ok:
  assumes "logger_wf lg" "log_synced ks lg" "session_ok ops lg" "\<forall>row\<in>set (logged_rows ops lg). row_data row \<noteq> []"
    and "log_events lg = [] \<Longrightarrow> map entry_key (log_entries lg) = names"
  shows "rows_ok names (logged_rows ops lg)"
  using assms
proof (induction ops arbitrary: lg ks names)
  case (Cons opr ops)
  from Cons.prems(3) have ok: "op_ok opr lg" "session_ok ops (run_op opr lg)" by simp_all
  show ?case
  proof (cases "is_log opr")
    case False
    have same: "logged_rows (opr # ops) lg = logged_rows ops (run_op opr lg)"
      using False by (cases opr) simp_all
    show ?thesis
      unfolding same
    proof (rule Cons.IH [of "run_op opr lg" ks])
      show "logger_wf (run_op opr lg)" "log_synced ks (run_op opr lg)"
        using op_keeps [OF Cons.prems(1,2) ok(1) False] by simp_all
    qed (use ok(2) Cons.prems(4,5) same unchanged_op [OF False, of lg] in simp_all)
  next
    case True
    then obtain vals where opr: "opr = Log_values vals" by (cases opr) auto
    note keeps = log_keeps [OF Cons.prems(1), of vals]
    have names: "row_names (row_of vals lg) = map entry_key (log_entries lg)"
      by (simp add: row_names_def row_of_def o_def)
    have "rows_ok (map entry_key (log_entries lg)) (logged_rows ops (logger_log vals lg))"
      using keeps ok opr Cons.prems(4) by (intro Cons.IH [of _ "map key_of (log_entries lg)"]) simp_all
    moreover have "row_names (row_of vals lg) \<noteq> []" "distinct (row_names (row_of vals lg))"
      using Cons.prems(1,4) opr unfolding names by (auto simp: row_of_def logger_wf_def)
    ultimately show ?thesis
      using Cons.prems(5) opr names by (auto simp: row_of_def)
  qed
qed simp

lemma append_session:
  assumes "logger_wf lg" "resume \<or> log_synced [] lg" "\<not> sink_threaded (lg_sink lg)"
    and "session_ok ops (logger_start True resume lg)" "te_alloc env = (\<lambda>_. True)"
    and "sink_file (lg_sink (fold run_op ops (logger_start True resume lg))) = bytes" "3 * length bytes \<le> fuel"
    and "logged_rows ops (logger_start True resume lg) = rows" "\<forall>row\<in>set rows. row_data row \<noteq> []" "flat_aligned fl"
  obtains a where "appendBin env rf fuel (Some bytes) fl = Some (Inr (append_finish a))" "flat_expects fl rows (lg_meta lg) a []"
    "rows_ok [] rows"
proof -
  note st = start_session [OF assms(1-3)]
  have ok: "rows_ok [] rows"
    unfolding assms(8) [symmetric]
    using st(3) assms(8,9) by (intro session_rows_ok [OF st(1,2) assms(4)]) auto
  let ?a = "\<lparr>ap_log = fl, ap_current = [], ap_missing = [], ap_size = flat_log_size fl\<rparr>"
  have "flat_expects fl rows (lg_meta lg) ?a rows"
    using ok assms(10) by (simp add: flat_expects_def flat_state_def flat_start_def appended_meta_def)
  from flat.consume_file [OF assms(1-7), of fl rows ?a rf] this assms(8) obtain a where
    "iterate_binary_log env rf fuel (Some bytes) append_row True '''' ?a = Some (Inr (a, True))" "flat_expects fl rows (lg_meta lg) a []"
    by auto
  with that ok show thesis by (simp add: appendBin_def log_bind_def)
qed


lemma finish_new_rows:
  assumes "flat_expects fl rows m a []" "i < length rows"
  shows "getRaw_at ty name (flat_log_size fl + i) (append_finish a) = record_cast ty (cell name (rows ! i))"
proof -
  have al: "flat_aligned fl" using assms(1) by (auto simp: flat_expects_def)
  have none: "record_cast ty (cell name (rows ! i)) = None" if "name \<notin> set (concat (map row_names rows))"
    using that assms(2) by (subst cell_other) (auto simp: record_cast_def empty_record_def)
  have "column fl rows name ! (flat_log_size fl + i) = cell name (rows ! i)"
    using assms(2) column_length [OF al, of "[]" name] by (auto simp: column_def nth_append split: option.splits)
  with none assms(2) column_length [OF al, of rows name] show ?thesis
    by (auto simp: getRaw_at_def finish_columns(1) [OF assms(1)])
qed

lemma finish_old_rows:
  assumes "flat_expects fl rows m a []" "i < flat_log_size fl"
  shows "getRaw_at ty name i (append_finish a) = getRaw_at ty name i fl"
proof -
  have al: "flat_aligned fl" using assms(1) by (auto simp: flat_expects_def)
  have len: "length (column fl rows name) = flat_log_size fl + length rows" by (rule column_length [OF al])
  show ?thesis
  proof (cases "flat_log_at name fl")
    case None
    then have "column fl rows name ! i = empty_record" using assms(2) by (simp add: column_def nth_append)
    moreover have "record_cast ty empty_record = None" by (simp add: record_cast_def empty_record_def)
    ultimately show ?thesis
      using None len by (simp add: getRaw_at_def finish_columns(1) [OF assms(1)])
  next
    case (Some rs)
    then have "length rs = flat_log_size fl" using column_length [OF al, of "[]" name] by (simp add: column_def)
    moreover have "name \<in> set (map fst (fl_data fl))"
      using Some by (force simp: flat_log_at_def dest: map_of_SomeD)
    moreover have "column fl rows name ! i = rs ! i" using Some calculation(1) assms(2) by (simp add: column_def nth_append)
    ultimately show ?thesis
      using Some len assms(2) by (simp add: getRaw_at_def finish_columns(1) [OF assms(1)])
  qed
qed

lemma cell_entry:
  assumes "distinct (row_names row)" "(k, d) \<in> set (row_data row)"
  shows "record_cast (tk_type k) (cell (tk_key k) row) = Some d"
proof -
  obtain j where j: "j < length (row_data row)" "row_data row ! j = (k, d)" using assms(2) by (auto simp: in_set_conv_nth)
  then have "row_names row ! j = tk_key k" "row_records row ! j = key_record k d" by (simp_all add: row_names_def row_records_def)
  with cell_nth [OF assms(1) j(1)] show ?thesis by (simp add: record_cast_def key_record_def)
qed

lemma rows_ok_distinct: "rows_ok names rows \<Longrightarrow> row \<in> set rows \<Longrightarrow> distinct (row_names row)"
  by (induction rows arbitrary: names) auto


text \<open>Appending a flat file without entries does not append nothing: it cuts every column to length zero.\<close>

lemma append_empty_flat: "flat_log_size (appendFlat (Some (host_u64 0)) fl) = 0"
proof -
  have "take 8 (host_u64 0) = host_u64 0" "drop 8 (host_u64 0) = []" by simp_all
  then have "ifs_read_u64 0 (host_u64 0, False) = (0, ([], False))"
    using host_nat_u64 [of 0] by (simp add: ifs_read_u64_def ifs_read_def)
  then show ?thesis
    by (cases "fl_data fl") (auto simp: appendFlat_def flat_log_size_def resize_records_def)
qed

end
