(* ===== verification/Mc_Log_Sink.thy ===== *)
theory Mc_Log_Sink
  imports Mc_Log_Session
begin

text \<open>
  The threaded policy against the other one. The control thread writes messages into the queue while
  the log thread pops them and writes them to the file, in any interleaving. As long as the queue is
  not full, the file with what is still under way is the file of the policy without a thread.
\<close>

section \<open>Interleavings\<close>

datatype sink_step = Write_message "u8 list" nat | Pop_message | Flush_message

fun run_step :: "sink_step \<Rightarrow> log_sink \<Rightarrow> log_sink" where
  "run_step (Write_message data n) s = sink_write data n s"
| "run_step Pop_message s = sink_pop s"
| "run_step Flush_message s = sink_flush_popped s"

fun is_write :: "sink_step \<Rightarrow> bool" where
  "is_write (Write_message data n) = True"
| "is_write _ = False"

text \<open>The messages that have been accepted and are not in the file, oldest first.\<close>

definition under_way :: "log_sink \<Rightarrow> u8 list list" where
  "under_way s = (case sink_popped s of None \<Rightarrow> [] | Some data \<Rightarrow> [data]) @ cb_items (sink_queue s)"

definition sink_content :: "log_sink \<Rightarrow> u8 list" where
  "sink_content s = sink_file s @ concat (map frame (under_way s))"

definition queue_inv :: "log_sink \<Rightarrow> bool" where
  "queue_inv s \<longleftrightarrow> sink_threaded s \<and> sink_open s \<and> cb_inv (sink_queue s) \<and> list_all (\<lambda>d. length d < 2 ^ 31) (under_way s)"

text \<open>A step that loses nothing: the message is as long as it says and the queue has room.\<close>

fun step_ok :: "sink_step \<Rightarrow> log_sink \<Rightarrow> bool" where
  "step_ok (Write_message data n) s =
     (n \<le> length data \<and> n < 2 ^ 31 \<and> length (cb_items (sink_queue s)) < cb_bound (sink_queue s))"
| "step_ok _ s = True"

fun steps_ok :: "sink_step list \<Rightarrow> log_sink \<Rightarrow> bool" where
  "steps_ok [] s = True"
| "steps_ok (x # xs) s = (step_ok x s \<and> steps_ok xs (run_step x s))"

fun written :: "sink_step list \<Rightarrow> u8 list list" where
  "written [] = []"
| "written (Write_message data n # xs) = take n data # written xs"
| "written (_ # xs) = written xs"

lemma write_step:
  assumes "queue_inv s" "step_ok (Write_message data n) s"
  shows "queue_inv (sink_write data n s)" "sink_content (sink_write data n s) = sink_content s @ frame (take n data)"
proof -
  obtain ok q where q: "cb_push (take n data) (sink_queue s) = (ok, q)" by fastforce
  have "cb_inv q" "cb_items q = cb_items (sink_queue s) @ [take n data]"
    using cb.push_cases [OF _ q] assms by (auto simp: queue_inv_def)
  with q assms show "queue_inv (sink_write data n s)" "sink_content (sink_write data n s) = sink_content s @ frame (take n data)"
    by (auto simp: queue_inv_def sink_write_def sink_content_def under_way_def)
qed

lemma pop_step:
  assumes "queue_inv s"
  shows "queue_inv (sink_pop s)" "sink_content (sink_pop s) = sink_content s" "under_way (sink_pop s) = under_way s"
    "sink_popped (sink_pop s) = None \<longleftrightarrow> under_way s = []"
proof -
  obtain r q where q: "cb_pop (sink_queue s) = (r, q)" by fastforce
  have inv: "cb_inv (sink_queue s)" using assms by (simp add: queue_inv_def)
  have p: "cb_inv q" "cb_items (sink_queue s) = (case r of None \<Rightarrow> [] | Some x \<Rightarrow> [x]) @ cb_items q"
    using cb.pop_cases [OF inv q] by auto
  show u: "under_way (sink_pop s) = under_way s"
    using p q by (simp add: sink_pop_def under_way_def split: option.split)
  show "queue_inv (sink_pop s)"
    using assms p(1) q u unfolding queue_inv_def u by (simp add: sink_pop_def split: option.split)
  have "sink_file (sink_pop s) = sink_file s" using q by (simp add: sink_pop_def split: option.split)
  with u show "sink_content (sink_pop s) = sink_content s" by (simp add: sink_content_def)
  show "sink_popped (sink_pop s) = None \<longleftrightarrow> under_way s = []"
    using p q cb.pop_none [OF inv] by (auto simp: sink_pop_def under_way_def split: option.splits)
qed

lemma flush_step:
  assumes "queue_inv s"
  shows "queue_inv (sink_flush_popped s)" "sink_content (sink_flush_popped s) = sink_content s"
    "under_way (sink_flush_popped s) = cb_items (sink_queue s)"
  using assms fwrite_frame [OF _ refl, of _ _ "sink_file s"]
  by (auto simp: sink_flush_popped_def queue_inv_def sink_content_def under_way_def sink_fwrite_def split: option.split)

lemma steps_content:
  "queue_inv s \<Longrightarrow> steps_ok xs s \<Longrightarrow>
    queue_inv (fold run_step xs s) \<and> sink_content (fold run_step xs s) = sink_content s @ concat (map frame (written xs))"
proof (induction xs arbitrary: s)
  case (Cons x xs)
  then show ?case
    using write_step [of s] pop_step(1,2) [of s] flush_step(1,2) [of s] by (cases x) simp_all
qed simp

section \<open>The log thread catches up\<close>

lemma drain_steps:
  "queue_inv s \<Longrightarrow> length (under_way s) \<le> k \<Longrightarrow>
    under_way (fold run_step (concat (replicate k [Pop_message, Flush_message])) s) = []"
proof (induction k arbitrary: s)
  case (Suc k)
  note p = pop_step [OF Suc.prems(1)]
  note f = flush_step [OF p(1)]
  have "length (under_way (sink_flush_popped (sink_pop s))) \<le> k"
  proof (cases "sink_popped (sink_pop s)")
    case None
    then show ?thesis using p(3,4) f(3) by (simp add: under_way_def)
  next
    case (Some d)
    then have "length (under_way (sink_pop s)) = Suc (length (cb_items (sink_queue (sink_pop s))))"
      by (simp add: under_way_def)
    with p(3) f(3) Suc.prems(2) show ?thesis by simp
  qed
  with Suc.IH [OF f(1)] show ?case by simp
qed simp

section \<open>The policy without a thread\<close>

lemma direct_content:
  "sink_ready s \<Longrightarrow> list_all is_write xs \<Longrightarrow> list_all (\<lambda>x. \<forall>data n. x = Write_message data n \<longrightarrow> n \<le> length data \<and> n < 2 ^ 31) xs \<Longrightarrow>
    sink_file (fold run_step xs s) = sink_file s @ concat (map frame (written xs))"
proof (induction xs arbitrary: s)
  case (Cons x xs)
  then obtain data n where x: "x = Write_message data n" by (cases x) auto
  with Cons.prems have "sink_write data n s = s\<lparr>sink_file := sink_file s @ frame (take n data)\<rparr>"
    by (simp add: sink_write_def sink_fwrite_def sink_ready_def fwrite_frame)
  with Cons x show ?case by (simp add: sink_ready_def)
qed simp

lemma steps_small: "steps_ok xs s \<Longrightarrow> list_all (\<lambda>x. \<forall>data n. x = Write_message data n \<longrightarrow> n \<le> length data \<and> n < 2 ^ 31) xs"
  by (induction xs arbitrary: s) (auto simp: list_all_iff)

lemma written_writes: "written (filter is_write xs) = written xs"
  by (induction xs rule: written.induct) simp_all

lemma direct_writes:
  assumes "steps_ok xs s" "sink_ready d"
  shows "sink_file (fold run_step (filter is_write xs) d) = sink_file d @ concat (map frame (written xs))"
  using direct_content [OF assms(2), of "filter is_write xs"] steps_small [OF assms(1)]
  by (auto simp: written_writes list_all_iff)

end
