(* ===== verification/Mc_Log_Copy.thy ===== *)
theory Mc_Log_Copy
  imports Mc_Log_Session
begin

text \<open>
  \<open>LogEntry::copy\<close>: the copy of a message announces all the keys it is given and repeats the data byte
  for byte, so that it can open a log of its own.
\<close>

section \<open>Copying nodes\<close>

definition copies :: "nat \<Rightarrow> mpack_tree \<Rightarrow> mp_value \<Rightarrow> bool" where
  "copies fuel t v \<longleftrightarrow>
     (\<forall>n w. node_reads t n v \<longrightarrow> builder_ok w \<longrightarrow> (\<exists>w'. copy_data fuel t n w = Some (t, w') \<and> builder_appends w (enc_value v) w'))"

lemma copies_number:
  "copies (Suc fuel) t (MP_scalar (Tag_uint u))" "copies (Suc fuel) t (MP_scalar (Tag_int i))"
proof -
  show u: "copies (Suc fuel) t (MP_scalar (Tag_uint u))" for u
    unfolding copies_def
  proof (intro allI impI)
    fix n w
    assume h: "node_reads t n (MP_scalar (Tag_uint u))" and ok: "builder_ok w"
    have "mpack_node_type t n = mpack_type_uint" using reads_type(1) [OF h] by (simp add: tag_normal_def)
    then show "\<exists>w'. copy_data (Suc fuel) t n w = Some (t, w') \<and> builder_appends w (enc_value (MP_scalar (Tag_uint u))) w'"
      using reads_unsigned(5) [OF h] writes_scalars(10) [of u] ok by (simp add: writes_def)
  qed
  show "copies (Suc fuel) t (MP_scalar (Tag_int i))"
  proof (cases "0 \<le> sint i")
    case True
    then have "enc_value (MP_scalar (Tag_int i)) = enc_value (MP_scalar (Tag_uint i))"
      "\<And>n. node_reads t n (MP_scalar (Tag_int i)) = node_reads t n (MP_scalar (Tag_uint i))"
      by (simp_all add: enc_int_def node_reads_def tag_normal_def)
    with u [of i] show ?thesis unfolding copies_def by simp
  next
    case False
    show ?thesis
      unfolding copies_def
    proof (intro allI impI)
      fix n w
      assume h: "node_reads t n (MP_scalar (Tag_int i))" and ok: "builder_ok w"
      have "mpack_node_type t n = mpack_type_int" using reads_type(1) [OF h] False by (simp add: tag_normal_def)
      then show "\<exists>w'. copy_data (Suc fuel) t n w = Some (t, w') \<and> builder_appends w (enc_value (MP_scalar (Tag_int i))) w'"
        using reads_signed(5) [OF h] writes_scalars(6) [of i] ok by (simp add: writes_def)
    qed
  qed
qed

lemma copies_other:
  "copies (Suc fuel) t (MP_scalar (Tag_bool b))" "copies (Suc fuel) t (MP_scalar (Tag_float f))"
  "copies (Suc fuel) t (MP_scalar (Tag_double d))"
  unfolding copies_def using reads_floating [of t] writes_scalars(2,11,12) by (auto simp: writes_def)

lemma copies_string: "length s < 2 ^ 32 \<Longrightarrow> copies (Suc fuel) t (MP_str (str_bytes s))"
  unfolding copies_def using reads_string [of t] appends_string(2) [of _ "str_bytes s"] by auto

lemma copy_elements_from:
  assumes h: "node_reads t n (MP_array vs)" and vs: "\<And>v. v \<in> set vs \<Longrightarrow> copies fuel t v"
  shows "i \<le> length vs \<Longrightarrow> builder_ok w \<Longrightarrow>
    \<exists>w'. copy_elements fuel t n [i..<length vs] w = Some (t, w') \<and> builder_appends w (concat (map enc_value (drop i vs))) w'"
proof (induction "length vs - i" arbitrary: i w)
  case 0
  then show ?case by (simp add: appends_refl)
next
  case (Suc k)
  then have i: "i < length vs" by simp
  obtain m where m: "mpack_node_array_at t n i = (t, m)" "node_reads t m (vs ! i)"
    using reads_element [OF h i] by blast
  obtain w1 where w1: "copy_data fuel t m w = Some (t, w1)" "builder_appends w (enc_value (vs ! i)) w1"
    using vs [of "vs ! i"] i m(2) Suc.prems(2) by (auto simp: copies_def)
  obtain w2 where w2: "copy_elements fuel t n [Suc i..<length vs] w1 = Some (t, w2)"
    "builder_appends w1 (concat (map enc_value (drop (Suc i) vs))) w2"
    using Suc.hyps(1) [of "Suc i" w1] Suc_diff_Suc [OF i] Suc.hyps(2) i appends_ok [OF w1(2)] by auto
  have "drop i vs = vs ! i # drop (Suc i) vs" using i by (simp add: Cons_nth_drop_Suc)
  with m(1) w1 w2 appends_seq [OF w1(2) w2(2)] show ?case
    by (simp add: drop_upt_step [OF i])
qed

lemma copies_array:
  assumes "\<And>v. v \<in> set vs \<Longrightarrow> copies fuel t v"
  shows "copies (Suc fuel) t (MP_array vs)"
  unfolding copies_def
proof (intro allI impI)
  fix n w
  assume h: "node_reads t n (MP_array vs)" and ok: "builder_ok w"
  note s = appends_start(1) [OF ok, of "length vs"]
  obtain w' where w': "copy_elements fuel t n [0..<length vs] (builder_start_array w (length vs)) = Some (t, w')"
    "builder_appends (builder_start_array w (length vs)) (concat (map enc_value vs)) w'"
    using copy_elements_from [OF h assms, of 0 "builder_start_array w (length vs)"] appends_ok [OF s] by auto
  with reads_array(1,2) [OF h] appends_seq [OF s w'(2)]
  show "\<exists>w'. copy_data (Suc fuel) t n w = Some (t, w') \<and> builder_appends w (enc_value (MP_array vs)) w'"
    by simp
qed

lemma copies_data:
  assumes "data_ok ty d"
  shows "copies (Suc (Suc fuel)) t (data_value d)"
  using assms
  by (cases d) (auto simp: doubles_value_def intro: copies_number copies_other copies_string intro!: copies_array)

section \<open>Copying a message\<close>

definition announce :: "string list \<Rightarrow> log_record list \<Rightarrow> log_event list" where
  "announce keys rs = map (\<lambda>(k, r). KeyAddedEvent (rec_type r) k) (zip keys rs)"

lemma writes_announced:
  assumes "list_all (event_ok m) (announce keys rs)" "length keys = length rs" "builder_ok w"
  shows "builder_appends w (enc_value (MP_array (map (event_value m) (announce keys rs))))
    (builder_finish_array
       (fold (\<lambda>(k, r). builder_array 3
           [\<lambda>w. builder_write_u8 w 0, \<lambda>w. builder_write_i32 w (of_int (log_type_code (rec_type r))), builder_write_str k])
         (zip keys rs) (builder_start_array w (length keys))))"
proof -
  have "writes (builder_write_std_vector (write_event m) (announce keys rs)) (MP_array (map (event_value m) (announce keys rs)))"
    using assms(1) by (intro writes_std_vector writes_event) (simp add: list_all_iff)
  moreover have "fold (write_event m) (announce keys rs) w' =
      fold (\<lambda>(k, r). builder_array 3
           [\<lambda>w. builder_write_u8 w 0, \<lambda>w. builder_write_i32 w (of_int (log_type_code (rec_type r))), builder_write_str k])
         (zip keys rs) w'" for w'
    unfolding announce_def fold_map by (rule fold_cong) auto
  ultimately show ?thesis
    using assms(2,3) by (simp add: writes_def builder_write_std_vector_def announce_def)
qed

lemma copy_message:
  assumes h: "node_reads (pl_tree pl) (pl_root pl) (message_value m evs ds)"
    and rs: "pl_records pl = map2 key_record ks ds" "list_all2 (\<lambda>k d. data_ok (tk_type k) d) ks ds"
    and keys: "length keys = length ds" "list_all (event_ok m) (announce keys (pl_records pl))" "ds \<noteq> []"
    and w: "builder_ok w" and fuel: "2 \<le> fuel"
  obtains w' where "log_copy fuel pl keys w = Some (Inr w')"
    "builder_appends w (enc_value (message_value m (announce keys (pl_records pl)) ds)) w'"
proof -
  let ?t = "pl_tree pl" and ?e = "MP_array (map (event_value m) (announce keys (pl_records pl)))" and ?d = "MP_array (map data_value ds)"
  note s2 = appends_start(1) [OF w, of 2]
  have len: "length keys = length (pl_records pl)" using rs(1) keys(1) list_all2_lengthD [OF rs(2)] by simp
  define w1 where "w1 = builder_finish_array (fold (\<lambda>(k, r). builder_array 3
           [\<lambda>w. builder_write_u8 w 0, \<lambda>w. builder_write_i32 w (of_int (log_type_code (rec_type r))), builder_write_str k])
         (zip keys (pl_records pl)) (builder_start_array (builder_start_array w 2) (length keys)))"
  have ev: "builder_appends (builder_start_array w 2) (enc_value ?e) w1"
    unfolding w1_def by (rule writes_announced [OF keys(2) len appends_ok [OF s2]])
  obtain n where n: "mpack_node_array_at ?t (pl_root pl) 1 = (?t, n)" "node_reads ?t n ?d"
    using reads_element [OF h [unfolded message_value_def], of 1] by auto
  obtain f where f: "fuel = Suc (Suc f)" using fuel by (cases fuel; cases "fuel - 1") auto
  have c: "copies fuel ?t v" if v: "v \<in> set (map data_value ds)" for v
  proof -
    obtain d where d: "d \<in> set ds" "v = data_value d" using v by auto
    then obtain i where i: "i < length ds" "ds ! i = d" by (auto simp: in_set_conv_nth)
    then have "data_ok (tk_type (ks ! i)) d" using list_all2_nthD2 [OF rs(2) i(1)] by simp
    then show ?thesis unfolding d(2) f by (rule copies_data)
  qed
  note s3 = appends_start(1) [OF appends_ok [OF ev], of "length ds"]
  obtain w' where w': "copy_elements fuel ?t n [0..<length ds] (builder_start_array w1 (length ds)) = Some (?t, w')"
    "builder_appends (builder_start_array w1 (length ds)) (concat (map enc_value (map data_value ds))) w'"
    using copy_elements_from [OF n(2) c, of 0 "builder_start_array w1 (length ds)"] appends_ok [OF s3] by auto
  have "log_copy fuel pl keys w = Some (Inr w')"
    using len n(1) reads_array(1) [OF n(2)] w'(1) unfolding log_copy_def Let_def w1_def [symmetric] by simp
  moreover have "announce keys (pl_records pl) \<noteq> []" using keys(1,3) len by (cases keys; cases "pl_records pl") (auto simp: announce_def)
  then have "builder_appends w (enc_value (message_value m (announce keys (pl_records pl)) ds)) w'"
    using appends_seq [OF s2 appends_seq [OF ev appends_seq [OF s3 w'(2)]]]
    by (simp add: message_value_def del: enc_tag.simps)
  ultimately show thesis using that by blast
qed


lemma announce_ok:
  assumes "list_all (\<lambda>k. length k < 2 ^ 32) keys" "list_all (\<lambda>r. type_ok (rec_type r)) rs"
  shows "list_all (event_ok m) (announce keys rs)"
proof -
  have "event_ok m (KeyAddedEvent (rec_type r) k)" if "(k, r) \<in> set (zip keys rs)" for k r
    using assms set_zip_leftD [OF that] set_zip_rightD [OF that] by (simp add: list_all_iff)
  then show ?thesis by (auto simp: announce_def list_all_iff)
qed

lemma announce_entries:
  "length keys = length es \<Longrightarrow>
    announce keys (map (\<lambda>e. key_record (key_of e) (values e)) es) = map2 (\<lambda>e k. KeyAddedEvent (entry_type e) k) es keys"
  unfolding announce_def by (induction keys es rule: list_induct2) (simp_all add: key_record_def)

lemma announced_keys:
  "length keys = length rs \<Longrightarrow> fold apply_key (announce keys rs) ks = ks @ map2 (\<lambda>k r. \<lparr>tk_type = rec_type r, tk_key = k\<rparr>) keys rs"
  unfolding announce_def by (induction keys rs arbitrary: ks rule: list_induct2) simp_all

lemma announced_gui: "gui_of (announce keys rs) = []" "StartEvent \<notin> set (announce keys rs)"
proof -
  have "gui_of (map (\<lambda>(k, r). KeyAddedEvent (rec_type r) k) xs) = []" for xs by (induction xs) auto
  then show "gui_of (announce keys rs) = []" by (simp add: announce_def)
qed (auto simp: announce_def)

text \<open>The copy of a message reads as a message that announces the given keys.\<close>

lemma copy_reads:
  assumes h: "node_reads (pl_tree pl) (pl_root pl) (message_value m evs ds)"
    and rs: "pl_records pl = map2 key_record ks ds" "list_all2 (\<lambda>k d. data_ok (tk_type k) d) ks ds"
    and keys: "length keys = length ds" "list_all (event_ok m) (announce keys (pl_records pl))" "ds \<noteq> []"
    and buf: "buffer_ok buf" "2 \<le> fuel" and env: "te_alloc env = (\<lambda>_. True)"
    and copy: "enc_value (message_value m (announce keys (pl_records pl)) ds) = copy" "length copy < 2 ^ 32" "3 * length copy \<le> fuel"
  obtains w pl' st' where "log_copy fuel pl keys (builder_new buf) = Some (Inr w)"
    "snd (builder_finish w) = length copy" "take (length copy) (w_buffer (fst (builder_finish w))) = copy"
    "LogEntry env rf fuel 1 copy True initial_log_state = Some (Inr (pl', st'))" "pl_records pl' = pl_records pl"
    "map tk_key (ls_keys st') = keys"
proof -
  have new: "builder_ok (builder_new buf)" "writer_output (builder_new buf) = []"
    using builder_new_ok [of buf] buf(1) by (auto simp: buffer_ok_def)
  from copy_message [OF h rs keys new(1) buf(2)] obtain w where w: "log_copy fuel pl keys (builder_new buf) = Some (Inr w)"
    "builder_appends (builder_new buf) (enc_value (message_value m (announce keys (pl_records pl)) ds)) w" by blast
  have len: "length ks = length ds" "length keys = length (pl_records pl)" using rs keys(1) list_all2_lengthD [OF rs(2)] by simp_all
  let ?evs = "announce keys (pl_records pl)" and ?st = initial_log_state
  let ?st' = "after_events m ?evs ?st"
  have ok: "builder_ok w" "writer_output w = copy"
    using w(2) new(2) copy(1) by (simp_all add: builder_appends_def)
  note fin = builder_finish_ok [OF ok(1), unfolded ok(2)]
  have ks': "ls_keys ?st' = map2 (\<lambda>k r. \<lparr>tk_type = rec_type r, tk_key = k\<rparr>) keys (pl_records pl)"
    using announced_keys [OF len(2), of "[]"] by (simp add: after_events_simps initial_log_state_def)
  have nth: "tk_type (ls_keys ?st' ! i) = tk_type (ks ! i)" "tk_key (ls_keys ?st' ! i) = keys ! i" if "i < length ds" for i
    unfolding ks' using that len keys(1) rs(1) by (simp_all add: key_record_def)
  have lks: "length (ls_keys ?st') = length ds" using len keys(1) by (simp add: ks')
  have d: "list_all2 (\<lambda>k d. data_ok (tk_type k) d) (ls_keys ?st') ds"
    using rs(2) lks nth(1) by (simp add: list_all2_conv_all_nth)
  have "map2 key_record (ls_keys ?st') ds = map2 key_record ks ds"
    using lks len(1) nth(1) by (intro nth_equalityI) (simp_all add: key_record_def)
  then have recs: "map2 key_record (ls_keys ?st') ds = pl_records pl" using rs(1) by simp
  have names: "map tk_key (ls_keys ?st') = keys"
    using lks keys(1) nth(2) by (intro nth_equalityI) simp_all
  from LogEntry_message [OF env keys(2) d, unfolded copy(1), OF copy(2,3), of rf] obtain pl' where
    "LogEntry env rf fuel 1 copy True ?st = Some (Inr (pl', ?st'))" "pl_records pl' = pl_records pl"
    unfolding recs by blast
  from that [OF w(1) _ _ this names] fin show thesis by simp
qed

end
