(* ===== verification/Log_Properties.thy ===== *)
theory Log_Properties
  imports Mc_Flat_Log_Correct Mc_Log_Sink Mc_Log_Copy
begin

text \<open>
  The properties of the binary logs: a file read back row by row, a file that was cut off, the columns
  of a flat log, the copy of a message, the threaded policy, and what replacing an entry does.
\<close>

section \<open>A sample log\<close>

text \<open>A log with an entry \<open>x\<close> that is added before the first row and removed before the second.\<close>

definition sample_meta :: log_meta where
  "sample_meta = \<lparr>timestep = 0, main_robot_name = ''r'', main_robot_module = [], meta_init = [], meta_init_q = [], meta_calibs = []\<rparr>"

definition sample_values :: "log_entry \<Rightarrow> log_data" where
  "sample_values e = LD_double 1"

definition sample_ops :: "log_op list" where
  "sample_ops = [Add_entry ''x'' 7 Log_Double, Log_values sample_values, Remove_entry ''x'', Log_values sample_values]"

definition sample_logger :: logger where
  "sample_logger = new_logger 1 False sample_meta"

definition sample_rotations :: rotation_functions where
  "sample_rotations = \<lparr>normalized = id, toRotationMatrix = id, matrix_quaternion = id, rpyToMat = id\<rparr>"

definition sample_tree_env :: tree_env where
  "sample_tree_env = \<lparr>te_read = \<lambda>t n. (t, None), te_alloc = \<lambda>_. True, te_ext = False\<rparr>"

definition sample_file :: "u8 list" where
  "sample_file = sink_file (lg_sink (fold run_op sample_ops (logger_start True False sample_logger)))"

lemma log_frame:
  "log_entries (logger_log values lg) = log_entries lg" "log_events (logger_log values lg) = []" "lg_meta (logger_log values lg) = lg_meta lg"
  by (simp_all add: logger_log_def case_prod_beta)

lemma sample_start:
  "log_entries (logger_start True False sample_logger) = [\<lparr>entry_type = Log_Double, entry_key = ''t'', entry_source = 1\<rparr>]"
  "log_events (logger_start True False sample_logger) = [KeyAddedEvent Log_Double ''t'', StartEvent]"
  "lg_meta (logger_start True False sample_logger) = sample_meta"
  by (simp_all add: logger_start_def sample_logger_def new_logger_def logger_setup_def add_time_entry_def addLogEntry_def
      find_entry_def Let_def)

lemma sample_wf: "logger_wf sample_logger" "log_synced [] sample_logger" "\<not> sink_threaded (lg_sink sample_logger)" "lg_meta sample_logger = sample_meta"
proof -
  have "meta_ok sample_meta" by (simp add: meta_ok_def sample_meta_def strings_ok_def map_ok_def)
  then show "logger_wf sample_logger" "log_synced [] sample_logger"
    using new_logger_wf [of sample_meta 1 False] by (simp_all add: sample_logger_def)
qed (simp_all add: sample_logger_def new_logger_def logger_setup_def new_sink_def)

lemmas sample_log_run = sample_ops_def sample_values_def log_frame sample_start addLogEntry_def removeLogEntry_def find_entry_def Let_def

lemma sample_session: "session_ok sample_ops (logger_start True False sample_logger)"
  by (simp add: sample_log_run log_message_def message_value_def type_of_code sample_meta_def meta_json_def strings_json_def map_json_def
      number_value_def doubles_value_def enc_defs encode_defs)

lemma sample_rows: "logged_rows sample_ops (logger_start True False sample_logger) =
  [\<lparr>row_data = [(\<lparr>tk_type = Log_Double, tk_key = ''t''\<rparr>, LD_double 1), (\<lparr>tk_type = Log_Double, tk_key = ''x''\<rparr>, LD_double 1)],
    row_gui = [], row_changed = True\<rparr>,
   \<lparr>row_data = [(\<lparr>tk_type = Log_Double, tk_key = ''t''\<rparr>, LD_double 1)], row_gui = [], row_changed = True\<rparr>]"
  by (simp add: sample_log_run row_of_def key_of_def)


section \<open>Files\<close>

text \<open>C6: a log is read back as it was written: after any sequence of adding and removing entries, clearing,
  GUI events and calls of \<open>log\<close>, \<open>iterate_binary_log\<close> applied to the file succeeds and shows its
  callback one item per call of \<open>log\<close>, with the keys in the order of the entries whenever something
  changed, one record per entry with the type and the data that were logged, the GUI events since the
  previous row and the meta data.\<close>

theorem log_file_roundtrip:
  assumes "logger_wf lg" "resume \<or> log_synced [] lg" "\<not> sink_threaded (lg_sink lg)"
    and "session_ok ops (logger_start True resume lg)" "te_alloc env = (\<lambda>_. True)"
    and "sink_file (lg_sink (fold run_op ops (logger_start True resume lg))) = bytes" "3 * length bytes \<le> fuel"
  shows "iterate_binary_log env rf fuel (Some bytes) collect_item True '''' [] =
    Some (Inr (map (row_view (lg_meta lg)) (logged_rows ops (logger_start True resume lg)), True))"
  using collected.consume_file [OF assms, of "[]" _ rf] by auto

theorem log_file_roundtrip_witness:
  "iterate_binary_log sample_tree_env sample_rotations (3 * length sample_file) (Some sample_file) collect_item True '''' [] =
    Some (Inr ([([''t'', ''x''], [\<lparr>rec_type = Log_Double, rec_data = Some (LD_double 1)\<rparr>, \<lparr>rec_type = Log_Double, rec_data = Some (LD_double 1)\<rparr>],
        [], Some sample_meta),
      ([''t''], [\<lparr>rec_type = Log_Double, rec_data = Some (LD_double 1)\<rparr>], [], Some sample_meta)], True))"
  using log_file_roundtrip [OF sample_wf(1) _ sample_wf(3) sample_session _ sample_file_def [symmetric], of sample_tree_env
      "3 * length sample_file" sample_rotations] sample_wf(2,4) sample_rows
  by (simp add: sample_tree_env_def row_view_def row_keys_def row_records_def key_record_def)

text \<open>C20: a file that was cut off, as after a crash, is read up to the last message that is complete: reading succeeds
  with exactly the rows whose frames the file still holds.\<close>

theorem log_file_truncated:
  assumes "logger_wf lg" "resume \<or> log_synced [] lg" "\<not> sink_threaded (lg_sink lg)"
    and "session_ok ops (logger_start True resume lg)" "te_alloc env = (\<lambda>_. True)"
    and "sink_file (lg_sink (fold run_op ops (logger_start True resume lg))) = bytes" "3 * length bytes \<le> fuel"
  shows "iterate_binary_log env rf fuel (Some (take (4 + n) bytes)) collect_item True '''' [] =
    Some (Inr (map (row_view (lg_meta lg))
      (take (complete_frames n (logged_messages ops (logger_start True resume lg))) (logged_rows ops (logger_start True resume lg))), True))"
  using collected.consume_cut_file [OF assms, of "[]" n _ rf] by auto

theorem log_file_truncated_witness:
  "iterate_binary_log sample_tree_env sample_rotations (3 * length sample_file) (Some (take 11 sample_file)) collect_item True '''' [] =
    Some (Inr ([], True))"
proof -
  have "complete_frames 7 msgs = 0" for msgs by (cases msgs) (simp_all add: frame_def)
  then show ?thesis
    using log_file_truncated [OF sample_wf(1) _ sample_wf(3) sample_session _ sample_file_def [symmetric], of sample_tree_env
        "3 * length sample_file" sample_rotations 7] sample_wf(2)
    by (simp add: sample_tree_env_def)
qed

section \<open>Flat logs\<close>

text \<open>C7: appending a binary log to a flat log adds one row per call of \<open>log\<close> to every column: the new size is the old
  one plus the number of rows, the record of an entry in a row is the data logged under its name in that
  row with its type, nothing for the rows in which there was no such entry, and the old rows are
  unchanged.\<close>

theorem flat_log_rows:
  assumes "logger_wf lg" "resume \<or> log_synced [] lg" "\<not> sink_threaded (lg_sink lg)"
    and "session_ok ops (logger_start True resume lg)" "te_alloc env = (\<lambda>_. True)"
    and "sink_file (lg_sink (fold run_op ops (logger_start True resume lg))) = bytes" "3 * length bytes \<le> fuel"
    and "logged_rows ops (logger_start True resume lg) = rows" "\<forall>row\<in>set rows. row_data row \<noteq> []" "flat_aligned fl"
  shows "\<exists>fl'. flat_log_append env rf fuel False (Some bytes) fl = Some (Inr fl') \<and> flat_aligned fl' \<and>
    flat_log_size fl' = flat_log_size fl + length rows \<and>
    (\<forall>i<length rows. \<forall>k d. (k, d) \<in> set (row_data (rows ! i)) \<longrightarrow>
       getRaw_at (tk_type k) (tk_key k) (flat_log_size fl + i) fl' = Some d) \<and>
    (\<forall>i<length rows. \<forall>name ty. name \<notin> set (row_names (rows ! i)) \<longrightarrow> getRaw_at ty name (flat_log_size fl + i) fl' = None) \<and>
    (\<forall>i<flat_log_size fl. \<forall>name ty. getRaw_at ty name i fl' = getRaw_at ty name i fl)"
proof -
  obtain a where a: "appendBin env rf fuel (Some bytes) fl = Some (Inr (append_finish a))" "flat_expects fl rows (lg_meta lg) a []"
    "rows_ok [] rows"
    using append_session [OF assms, of rf] by blast
  have "getRaw_at (tk_type k) (tk_key k) (flat_log_size fl + i) (append_finish a) = Some d"
    if "i < length rows" "(k, d) \<in> set (row_data (rows ! i))" for i k d
    using finish_new_rows [OF a(2) that(1)] cell_entry [OF rows_ok_distinct [OF a(3)] that(2)] that(1) by simp
  moreover have "getRaw_at ty name (flat_log_size fl + i) (append_finish a) = None"
    if "i < length rows" "name \<notin> set (row_names (rows ! i))" for i name ty
    using finish_new_rows [OF a(2) that(1)] cell_other [OF that(2)] by (simp add: record_cast_def empty_record_def)
  ultimately show ?thesis
    using a(1) finish_aligned [OF a(2,3)] finish_old_rows [OF a(2)] by (simp add: flat_log_append_def)
qed

theorem flat_log_rows_witness:
  "\<exists>fl'. flat_log_append sample_tree_env sample_rotations (3 * length sample_file) False (Some sample_file) new_flat_log = Some (Inr fl') \<and>
     flat_log_size fl' = 2 \<and> getRaw_at Log_Double ''x'' 0 fl' = Some (LD_double 1) \<and> getRaw_at Log_Double ''x'' 1 fl' = None"
proof -
  have al: "flat_aligned new_flat_log" "flat_log_size new_flat_log = 0"
    by (simp_all add: flat_aligned_def new_flat_log_def flat_log_size_def)
  from flat_log_rows [OF sample_wf(1) _ sample_wf(3) sample_session _ sample_file_def [symmetric] _ sample_rows _ al(1), of sample_tree_env
      "3 * length sample_file" sample_rotations]
  obtain fl' where fl': "flat_log_append sample_tree_env sample_rotations (3 * length sample_file) False (Some sample_file) new_flat_log = Some (Inr fl')"
    "flat_log_size fl' = 2"
    and new: "getRaw_at Log_Double ''x'' (0 + 0) fl' = Some (LD_double 1)" and none: "getRaw_at Log_Double ''x'' (0 + 1) fl' = None"
    using sample_wf(2) al(2) by (fastforce simp: sample_tree_env_def row_names_def)
  then show ?thesis by auto
qed


section \<open>Copies\<close>

text \<open>C23: the copy of a decoded message under a list of names, one per record, is a message of its own: byte for byte what
  the logger would write had it just been told of these names, and decoded as the first message of a log
  it announces exactly these names and gives the same records.\<close>

theorem log_copy_standalone:
  assumes "logger_wf lg" "log_synced (ls_keys st) lg" "op_ok (Log_values values) lg" "log_entries lg \<noteq> []"
    and "te_alloc env = (\<lambda>_. True)" "3 * length (log_message values lg) \<le> fuel" "buffer_ok buf"
    and "length keys = length (log_entries lg)" "list_all (\<lambda>k. length k < 2 ^ 32) keys"
    and "log_message values (lg\<lparr>log_events := map2 (\<lambda>e k. KeyAddedEvent (entry_type e) k) (log_entries lg) keys\<rparr>) = copy"
    and "length copy < 2 ^ 32" "3 * length copy \<le> fuel"
  shows "\<exists>pl st' w w' pl' st''. LogEntry env rf fuel 1 (log_message values lg) True st = Some (Inr (pl, st')) \<and>
    log_copy fuel pl keys (builder_new buf) = Some (Inr w) \<and>
    builder_finish w = (w', length copy) \<and> take (length copy) (w_buffer w') = copy \<and>
    LogEntry env rf fuel 1 copy True initial_log_state = Some (Inr (pl', st'')) \<and>
    map tk_key (ls_keys st'') = keys \<and> pl_records pl' = pl_records pl"
proof -
  let ?m = "lg_meta lg" and ?evs = "log_events lg" and ?ds = "map values (log_entries lg)"
  have evs: "list_all (event_ok ?m) ?evs" using assms(1) by (simp add: logger_wf_def)
  have keys: "ls_keys (after_events ?m ?evs st) = map key_of (log_entries lg)"
    using assms(2) by (simp add: after_events_simps log_synced_def)
  have ds: "list_all2 (\<lambda>k d. data_ok (tk_type k) d) (map key_of (log_entries lg)) ?ds"
    using assms(3) by (simp add: list_all2_map1 list_all2_map2 list_all2_same list_all_iff)
  from LogEntry_message [OF assms(5) evs, of st, unfolded keys, OF ds] assms(3,6) obtain pl where
    pl: "LogEntry env rf fuel 1 (log_message values lg) True st = Some (Inr (pl, after_events ?m ?evs st))"
      "pl_records pl = map2 key_record (map key_of (log_entries lg)) ?ds"
      "node_reads (pl_tree pl) (pl_root pl) (message_value ?m ?evs ?ds)"
    by (auto simp: log_message_def simp del: enc_value.simps)
  have "list_all (event_ok ?m) (announce keys (pl_records pl))"
    using assms(1,9) unfolding pl(2) records_of_entries
    by (intro announce_ok) (auto simp: list_all_iff logger_wf_def entry_ok_def key_record_def)
  moreover have "2 \<le> fuel"
    using assms(6) enc_tag_nonempty [of "Tag_array 2"] by (simp add: log_message_def message_value_def del: enc_tag.simps)
  moreover have "enc_value (message_value ?m (announce keys (pl_records pl)) ?ds) = copy"
    using assms(10) announce_entries [OF assms(8)] unfolding pl(2) records_of_entries by (simp add: log_message_def)
  ultimately show ?thesis
    using copy_reads [OF pl(3,2) ds, of keys buf fuel env copy rf] assms(4,5,7,8,11,12) pl(1)
    by (simp del: enc_value.simps) (metis prod.collapse)
qed

theorem log_copy_standalone_witness:
  "\<exists>pl st' w w' n pl' st''.
     LogEntry sample_tree_env sample_rotations 1000 1 (log_message sample_values (logger_start True False sample_logger)) True initial_log_state =
       Some (Inr (pl, st')) \<and>
     log_copy 1000 pl [''time''] (builder_new []) = Some (Inr w) \<and> builder_finish w = (w', n) \<and>
     LogEntry sample_tree_env sample_rotations 1000 1 (take n (w_buffer w')) True initial_log_state = Some (Inr (pl', st'')) \<and>
     map tk_key (ls_keys st'') = [''time''] \<and> pl_records pl' = pl_records pl"
proof -
  let ?lg = "logger_start True False sample_logger"
  have st: "logger_wf ?lg" "log_synced [] ?lg" using start_session [OF sample_wf(1) _ sample_wf(3)] sample_wf(2) by auto
  have ok: "op_ok (Log_values sample_values) ?lg" "length (log_message sample_values ?lg) \<le> 333"
    by (simp_all add: sample_log_run log_message_def message_value_def sample_meta_def meta_json_def strings_json_def map_json_def
        number_value_def enc_defs encode_defs)
  have copy: "length (log_message sample_values
      (?lg\<lparr>log_events := map2 (\<lambda>e k. KeyAddedEvent (entry_type e) k) (log_entries ?lg) [''time'']\<rparr>)) \<le> 333"
    by (simp add: sample_log_run log_message_def message_value_def enc_defs encode_defs)
  from log_copy_standalone [of ?lg initial_log_state sample_values sample_tree_env 1000 "[]" "[''time'']", OF _ _ ok(1) _ _ _ _ _ _ refl,
      of sample_rotations] st ok(2) copy
  show ?thesis
    by (fastforce simp: initial_log_state_def sample_start sample_tree_env_def buffer_ok_def)
qed

section \<open>Threads\<close>

text \<open>C16: the threaded policy writes the file of the other policy: whatever the interleaving of the control thread and the
  log thread, if no message meets a full queue then the file and the messages under way are what direct
  writing gives, and as many turns of the log thread as there are messages under way empty the queue and
  complete the file.\<close>

theorem threaded_log_refines:
  assumes "queue_inv s" "under_way s = []" "steps_ok xs s" "sink_ready d" "sink_file d = sink_file s"
    and "fold run_step xs s = s'" "length (under_way s') \<le> k"
  shows "sink_content s' = sink_file (fold run_step (filter is_write xs) d) \<and>
    sink_file (fold run_step (concat (replicate k [Pop_message, Flush_message])) s') = sink_file (fold run_step (filter is_write xs) d)"
proof -
  have s': "queue_inv s'" "sink_content s' = sink_file s @ concat (map frame (written xs))"
    using steps_content [OF assms(1,3)] assms(2,6) by (auto simp: sink_content_def)
  let ?ys = "concat (replicate k [Pop_message, Flush_message])"
  have "steps_ok ?ys t" "written ?ys = []" for t
    by (induction k arbitrary: t) simp_all
  then have "sink_content (fold run_step ?ys s') = sink_content s'"
    using steps_content [OF s'(1), of ?ys] by simp
  moreover have "sink_content (fold run_step ?ys s') = sink_file (fold run_step ?ys s')"
    using drain_steps [OF s'(1) assms(7)] by (simp add: sink_content_def)
  ultimately show ?thesis
    using direct_writes [OF assms(3,4)] s'(2) assms(5) by simp
qed

definition sample_sink :: "bool \<Rightarrow> log_sink" where
  "sample_sink threaded = sink_initialize True (new_sink threaded)"

theorem threaded_log_refines_witness:
  "sink_file (fold run_step [Pop_message, Flush_message]
     (fold run_step [Write_message [1, 2] 2, Pop_message, Write_message [3] 1, Flush_message] (sample_sink True))) =
   sink_file (fold run_step [Write_message [1, 2] 2, Write_message [3] 1] (sample_sink False))"
proof -
  let ?xs = "[Write_message [1, 2] 2, Pop_message, Write_message [3] 1, Flush_message]" and ?s = "sample_sink True"
  have q: "cb_inv (sink_queue ?s)" "cb_items (sink_queue ?s) = []" "cb_bound (sink_queue ?s) = 2048"
    using cb_new_items [of 2048 "[] :: u8 list"] by (simp_all add: sample_sink_def sink_initialize_def new_sink_def)
  have s: "queue_inv ?s" "under_way ?s = []"
    using q by (simp_all add: queue_inv_def under_way_def sample_sink_def sink_initialize_def new_sink_def)
  note run = sink_write_def sink_pop_def sink_flush_popped_def sink_fwrite_def cb_push_def cb_pop_def cb_increment_def cb_items_def
    cb_bound_def sample_sink_def sink_initialize_def new_sink_def cb_new_def under_way_def Let_def
  have ok: "steps_ok ?xs ?s"
    by (simp add: run)
  have "length (under_way (fold run_step ?xs ?s)) \<le> 1"
    by (simp add: run)
  from threaded_log_refines [OF s ok, of "sample_sink False", OF _ _ refl this] show ?thesis
    by (simp add: sample_sink_def sink_ready_def sink_initialize_def new_sink_def)
qed

section \<open>Replacing an entry\<close>

text \<open>C21: replacing an entry breaks the log: a logger whose reader is up to date, in which an existing entry is added again
  with the overwrite flag, tells the reader of one key more than it has entries, so that the records that
  follow belong to other keys than the reader takes them for.\<close>

theorem overwrite_desynchronises:
  assumes "log_synced ks lg" "name \<in> entry_key ` set (log_entries lg)" "addLogEntry name source ty True lg = lg'"
  shows "\<not> log_synced ks lg' \<and>
    length (fold apply_key (log_events lg') ks) = Suc (length (log_entries lg')) \<and>
    take (length (log_entries lg)) (fold apply_key (log_events lg') ks) = map key_of (log_entries lg)"
  using overwrite_keys [OF assms(1,2), of source ty] assms(3) by (auto simp: log_synced_def dest: arg_cong [of _ _ length])

theorem overwrite_desynchronises_witness:
  "\<not> log_synced [] (addLogEntry ''t'' 1 Log_Double True (logger_start True False sample_logger))"
proof -
  have "log_synced [] (logger_start True False sample_logger)"
    using start_session(2) [OF sample_wf(1) _ sample_wf(3)] sample_wf(2) by auto
  from overwrite_desynchronises [OF this _ refl, of "''t''" 1 Log_Double] show ?thesis
    by (simp add: sample_start)
qed

end
