(* ===== verification/Gui_Types.thy ===== *)
theory Gui_Types
  imports Mc_Log_Values
begin

text \<open>
  The visual styles of GUI elements (\<open>gui/types.h\<close>) and of plots (\<open>gui/plot/types.h\<close>): each has a
  MessagePack form, written by the server and read by the client, and most have a form in a
  configuration. Doubles are their 64 bits.
\<close>

section \<open>Reading and building configurations\<close>

definition conf_bind :: "config_error + 'a \<Rightarrow> ('a \<Rightarrow> config_error + 'b) \<Rightarrow> config_error + 'b" where
  "conf_bind r f = (case r of Inl err \<Rightarrow> Inl err | Inr x \<Rightarrow> f x)"

lemma conf_bind_simps [simp]: "conf_bind (Inl err) f = Inl err" "conf_bind (Inr x) f = f x"
  by (simp_all add: conf_bind_def)

text \<open>\<open>data[i]\<close> converted to a type.\<close>

definition at_as :: "json \<Rightarrow> nat \<Rightarrow> (json \<Rightarrow> config_error + 'a) \<Rightarrow> config_error + 'a" where
  "at_as data i convert = conf_bind (config_index data i) convert"

lemma at_as_array [simp]: "i < length vs \<Longrightarrow> at_as (J_array vs) i convert = convert (vs ! i)"
  by (simp add: at_as_def config_index_def config_size_def)

text \<open>A new object to which entries are added in turn, and a new array to which values are pushed.\<close>

definition add_each :: "(json \<Rightarrow> config_error + json) list \<Rightarrow> config_error + json" where
  "add_each fs = fold (\<lambda>f r. conf_bind r f) fs (Inr (J_object []))"

definition push_each :: "json list \<Rightarrow> config_error + json" where
  "push_each vs = fold (\<lambda>v r. conf_bind r (config_push v)) vs (Inr (J_array []))"

definition add_saved :: "string \<Rightarrow> config_error + json \<Rightarrow> json \<Rightarrow> config_error + json" where
  "add_saved key saved v = conf_bind saved (\<lambda>x. config_add_config key x v)"

section \<open>Colors\<close>

record gui_color =
  col_r :: u64
  col_g :: u64
  col_b :: u64
  col_a :: u64

definition Color :: "u64 \<Rightarrow> u64 \<Rightarrow> u64 \<Rightarrow> u64 \<Rightarrow> gui_color" where
  "Color r g b a = \<lparr>col_r = r, col_g = g, col_b = b, col_a = a\<rparr>"

text \<open>The doubles 0.6 and 0.75.\<close>

definition ColorMap :: "(string \<times> gui_color) list" where
  "ColorMap =
     (let o1 = double_one; g = 0x3FE3333333333333; l = 0x3FE8000000000000 in
      [(''white'', Color o1 o1 o1 o1), (''black'', Color 0 0 0 o1), (''red'', Color o1 0 0 o1), (''green'', Color 0 o1 0 o1),
       (''blue'', Color 0 0 o1 o1), (''cyan'', Color 0 o1 o1 o1), (''magenta'', Color o1 0 o1 o1),
       (''yellow'', Color o1 o1 0 o1), (''gray'', Color g g g o1), (''lightgray'', Color l l l o1)])"

definition color_default :: gui_color where
  "color_default = Color double_one 0 0 double_one"

definition color_of :: "u64 list \<Rightarrow> gui_color" where
  "color_of data = Color (data ! 0) (data ! 1) (data ! 2) (data ! 3)"

definition color_fromMessagePack :: "json \<Rightarrow> config_error + gui_color" where
  "color_fromMessagePack config = conf_bind (to_std_array 4 to_double config) (\<lambda>data. Inr (color_of data))"

definition color_fromConfig :: "json \<Rightarrow> config_error + gui_color" where
  "color_fromConfig config =
     (case to_std_array 4 to_double config of
        Inr data \<Rightarrow> Inr (color_of data)
      | Inl _ \<Rightarrow>
          (case conf_bind (to_string config) (\<lambda>color.
               case map_of ColorMap color of Some c \<Rightarrow> Inr c | None \<Rightarrow> Inl (Wrong_type ''Color'')) of
             Inr c \<Rightarrow> Inr c
           | Inl _ \<Rightarrow> Inl (Wrong_type ''Color'')))"

definition color_saveConfig :: "gui_color \<Rightarrow> config_error + json" where
  "color_saveConfig c = push_each [J_double (col_r c), J_double (col_g c), J_double (col_b c), J_double (col_a c)]"

definition write_double :: "u64 \<Rightarrow> builder_call" where
  "write_double d w = builder_write_double w d"

definition write_bool :: "bool \<Rightarrow> builder_call" where
  "write_bool b w = builder_write_bool w b"

definition write_int :: "u32 \<Rightarrow> builder_call" where
  "write_int i w = builder_write_i32 w i"

definition write_uint64 :: "u64 \<Rightarrow> builder_call" where
  "write_uint64 u w = builder_write_u64 w u"

definition write_strings :: "string list \<Rightarrow> builder_call" where
  "write_strings ss = builder_write_std_vector builder_write_str ss"

definition write_reals :: "u64 list \<Rightarrow> builder_call" where
  "write_reals ds = builder_write_std_vector write_double ds"

definition color_write :: "gui_color \<Rightarrow> builder_call" where
  "color_write c = builder_array 4 [write_double (col_r c), write_double (col_g c), write_double (col_b c), write_double (col_a c)]"

section \<open>Lines\<close>

datatype line_style = Line_Solid | Line_Dotted | Line_other u32

fun line_style_code :: "line_style \<Rightarrow> u32" where
  "line_style_code Line_Solid = 0"
| "line_style_code Line_Dotted = 1"
| "line_style_code (Line_other i) = i"

definition line_style_of :: "u32 \<Rightarrow> line_style" where
  "line_style_of i = (if i = 0 then Line_Solid else if i = 1 then Line_Dotted else Line_other i)"

record line_config =
  lc_color :: gui_color
  lc_width :: u64
  lc_style :: line_style

definition line_default :: line_config where
  "line_default = \<lparr>lc_color = color_default, lc_width = 0x3F847AE147AE147B, lc_style = Line_Solid\<rparr>"

definition line_fromMessagePack :: "json \<Rightarrow> config_error + line_config" where
  "line_fromMessagePack config =
     conf_bind (at_as config 0 color_fromMessagePack) (\<lambda>color.
     conf_bind (at_as config 1 to_double) (\<lambda>width.
     conf_bind (at_as config 2 to_int32) (\<lambda>style.
       Inr \<lparr>lc_color = color, lc_width = width, lc_style = line_style_of style\<rparr>)))"

definition line_fromConfig :: "json \<Rightarrow> line_config \<Rightarrow> config_error + line_config" where
  "line_fromConfig config l =
     (let l = l\<lparr>lc_color := config_or config ''color'' color_fromConfig (lc_color l),
                lc_width := config_or config ''width'' to_double (lc_width l)\<rparr> in
      if config_has config ''style'' then
        conf_bind (config_call config ''style'') (\<lambda>s. conf_bind (to_string s) (\<lambda>s.
          Inr (if s = ''solid'' then l\<lparr>lc_style := Line_Solid\<rparr>
               else if s = ''dotted'' then l\<lparr>lc_style := Line_Dotted\<rparr> else l)))
      else Inr l)"

definition line_saveConfig :: "line_config \<Rightarrow> config_error + json" where
  "line_saveConfig l =
     add_each
       ([add_saved ''color'' (color_saveConfig (lc_color l)), config_add ''width'' (J_double (lc_width l))] @
        (if lc_style l = Line_Solid then [config_add ''style'' (J_string ''solid'')]
         else if lc_style l = Line_Dotted then [config_add ''style'' (J_string ''dotted'')] else []))"

definition line_write :: "line_config \<Rightarrow> builder_call" where
  "line_write l = builder_array 3 [color_write (lc_color l), write_double (lc_width l), write_int (line_style_code (lc_style l))]"

section \<open>Arrows and forces\<close>

record arrow_config =
  head_diam :: u64
  head_len :: u64
  shaft_diam :: u64
  ac_scale :: u64
  start_point_scale :: u64
  end_point_scale :: u64
  ac_color :: gui_color

definition arrow_default :: arrow_config where
  "arrow_default =
     \<lparr>head_diam = 0x3F8EB851EB851EB8, head_len = 0x3FA999999999999A, shaft_diam = 0x3F8EB851EB851EB8,
      ac_scale = 0x3F589374BC6A7EFA, start_point_scale = 0, end_point_scale = 0, ac_color = Color 0 double_one 0 double_one\<rparr>"

definition arrow_fromMessagePack :: "json \<Rightarrow> config_error + arrow_config" where
  "arrow_fromMessagePack config =
     conf_bind (at_as config 0 to_double) (\<lambda>hd.
     conf_bind (at_as config 1 to_double) (\<lambda>hl.
     conf_bind (at_as config 2 to_double) (\<lambda>sd.
     conf_bind (at_as config 3 to_double) (\<lambda>sc.
     conf_bind (at_as config 4 to_double) (\<lambda>sp.
     conf_bind (at_as config 5 to_double) (\<lambda>ep.
     conf_bind (at_as config 6 color_fromMessagePack) (\<lambda>c.
       Inr \<lparr>head_diam = hd, head_len = hl, shaft_diam = sd, ac_scale = sc, start_point_scale = sp, end_point_scale = ep, ac_color = c\<rparr>)))))))"

definition arrow_fromConfig :: "json \<Rightarrow> arrow_config \<Rightarrow> arrow_config" where
  "arrow_fromConfig config a =
     \<lparr>head_diam = config_or config ''head_diam'' to_double (head_diam a),
      head_len = config_or config ''head_len'' to_double (head_len a),
      shaft_diam = config_or config ''shaft_diam'' to_double (shaft_diam a),
      ac_scale = config_or config ''scale'' to_double (ac_scale a),
      start_point_scale = config_or config ''start_point_scale'' to_double (start_point_scale a),
      end_point_scale = config_or config ''end_point_scale'' to_double (end_point_scale a),
      ac_color = config_or config ''color'' color_fromConfig (ac_color a)\<rparr>"

definition arrow_entries :: "arrow_config \<Rightarrow> (json \<Rightarrow> config_error + json) list" where
  "arrow_entries a =
     [config_add ''head_diam'' (J_double (head_diam a)), config_add ''head_len'' (J_double (head_len a)),
      config_add ''shaft_diam'' (J_double (shaft_diam a)), config_add ''scale'' (J_double (ac_scale a)),
      config_add ''start_point_scale'' (J_double (start_point_scale a)),
      config_add ''end_point_scale'' (J_double (end_point_scale a)), add_saved ''color'' (color_saveConfig (ac_color a))]"

definition arrow_saveConfig :: "arrow_config \<Rightarrow> config_error + json" where
  "arrow_saveConfig a = add_each (arrow_entries a)"

definition arrow_write :: "arrow_config \<Rightarrow> builder_call" where
  "arrow_write a =
     builder_array 7 [write_double (head_diam a), write_double (head_len a), write_double (shaft_diam a), write_double (ac_scale a),
       write_double (start_point_scale a), write_double (end_point_scale a), color_write (ac_color a)]"

record force_config =
  fc_arrow :: arrow_config
  force_scale :: u64

definition force_default :: force_config where
  "force_default = \<lparr>fc_arrow = arrow_default, force_scale = 0x3F589374BC6A7EFA\<rparr>"

definition force_fromMessagePack :: "json \<Rightarrow> config_error + force_config" where
  "force_fromMessagePack config =
     conf_bind (at_as config 0 arrow_fromMessagePack) (\<lambda>a.
     conf_bind (at_as config 1 to_double) (\<lambda>s. Inr \<lparr>fc_arrow = a, force_scale = s\<rparr>))"

definition force_fromConfig :: "json \<Rightarrow> force_config \<Rightarrow> force_config" where
  "force_fromConfig config f =
     \<lparr>fc_arrow = arrow_fromConfig config (fc_arrow f), force_scale = config_or config ''force_scale'' to_double (force_scale f)\<rparr>"

definition force_saveConfig :: "force_config \<Rightarrow> config_error + json" where
  "force_saveConfig f = conf_bind (arrow_saveConfig (fc_arrow f)) (config_add ''force_scale'' (J_double (force_scale f)))"

definition force_write :: "force_config \<Rightarrow> builder_call" where
  "force_write f = builder_array 2 [arrow_write (fc_arrow f), write_double (force_scale f)]"

section \<open>Points\<close>

record point_config =
  pc_color :: gui_color
  pc_scale :: u64

definition point_default :: point_config where
  "point_default = \<lparr>pc_color = color_default, pc_scale = 0x3F947AE147AE147B\<rparr>"

definition point_fromMessagePack :: "json \<Rightarrow> config_error + point_config" where
  "point_fromMessagePack config =
     conf_bind (at_as config 0 color_fromMessagePack) (\<lambda>c.
     conf_bind (at_as config 1 to_double) (\<lambda>s. Inr \<lparr>pc_color = c, pc_scale = s\<rparr>))"

definition point_fromConfig :: "json \<Rightarrow> point_config \<Rightarrow> point_config" where
  "point_fromConfig config p =
     \<lparr>pc_color = config_or config ''color'' color_fromConfig (pc_color p), pc_scale = config_or config ''scale'' to_double (pc_scale p)\<rparr>"

definition point_saveConfig :: "point_config \<Rightarrow> config_error + json" where
  "point_saveConfig p = add_each [add_saved ''color'' (color_saveConfig (pc_color p)), config_add ''scale'' (J_double (pc_scale p))]"

definition point_write :: "point_config \<Rightarrow> builder_call" where
  "point_write p = builder_array 2 [color_write (pc_color p), write_double (pc_scale p)]"

section \<open>Polyhedra\<close>

record polyhedron_config =
  triangle_color :: gui_color
  show_triangle :: bool
  use_triangle_color :: bool
  edge_config :: line_config
  show_edges :: bool
  fixed_edge_color :: bool
  vertices_config :: point_config
  show_vertices :: bool
  fixed_vertices_color :: bool

definition polyhedron_default :: polyhedron_config where
  "polyhedron_default =
     \<lparr>triangle_color = color_default, show_triangle = True, use_triangle_color = False, edge_config = line_default,
      show_edges = True, fixed_edge_color = True, vertices_config = point_default, show_vertices = True,
      fixed_vertices_color = True\<rparr>"

definition polyhedron_fromConfig :: "json \<Rightarrow> polyhedron_config \<Rightarrow> polyhedron_config" where
  "polyhedron_fromConfig config p =
     \<lparr>triangle_color = config_or config ''triangle_color'' color_fromConfig (triangle_color p),
      show_triangle = config_or config ''show_triangle'' to_bool (show_triangle p),
      use_triangle_color = config_or config ''use_triangle_color'' to_bool (use_triangle_color p),
      edge_config = config_or config ''edges'' (\<lambda>c. line_fromConfig c line_default) (edge_config p),
      show_edges = config_or config ''show_edges'' to_bool (show_edges p),
      fixed_edge_color = config_or config ''fixed_edge_color'' to_bool (fixed_edge_color p),
      vertices_config = config_or config ''vertices'' (\<lambda>c. Inr (point_fromConfig c point_default)) (vertices_config p),
      show_vertices = config_or config ''show_vertices'' to_bool (show_vertices p),
      fixed_vertices_color = config_or config ''fixed_vertices_color'' to_bool (fixed_vertices_color p)\<rparr>"

definition polyhedron_saveConfig :: "polyhedron_config \<Rightarrow> config_error + json" where
  "polyhedron_saveConfig p =
     add_each
       [add_saved ''triangle_color'' (color_saveConfig (triangle_color p)), config_add ''show_triangle'' (J_bool (show_triangle p)),
        config_add ''use_triangle_color'' (J_bool (use_triangle_color p)), add_saved ''edges'' (line_saveConfig (edge_config p)),
        config_add ''show_edges'' (J_bool (show_edges p)), config_add ''fixed_edge_color'' (J_bool (fixed_edge_color p)),
        add_saved ''vertices'' (point_saveConfig (vertices_config p)), config_add ''show_vertices'' (J_bool (show_vertices p)),
        config_add ''fixed_vertices_color'' (J_bool (fixed_vertices_color p))]"

definition polyhedron_fromMessagePack :: "json \<Rightarrow> config_error + polyhedron_config" where
  "polyhedron_fromMessagePack config =
     conf_bind (at_as config 0 color_fromMessagePack) (\<lambda>tc.
     conf_bind (at_as config 1 to_bool) (\<lambda>st.
     conf_bind (at_as config 2 to_bool) (\<lambda>ut.
     conf_bind (at_as config 3 line_fromMessagePack) (\<lambda>ec.
     conf_bind (at_as config 4 to_bool) (\<lambda>se.
     conf_bind (at_as config 5 to_bool) (\<lambda>fe.
     conf_bind (at_as config 6 point_fromMessagePack) (\<lambda>vc.
     conf_bind (at_as config 7 to_bool) (\<lambda>sv.
     conf_bind (at_as config 8 to_bool) (\<lambda>fv.
       Inr \<lparr>triangle_color = tc, show_triangle = st, use_triangle_color = ut, edge_config = ec, show_edges = se,
             fixed_edge_color = fe, vertices_config = vc, show_vertices = sv, fixed_vertices_color = fv\<rparr>)))))))))"

definition polyhedron_write :: "polyhedron_config \<Rightarrow> builder_call" where
  "polyhedron_write p =
     builder_array 9 [color_write (triangle_color p), write_bool (show_triangle p), write_bool (use_triangle_color p),
       line_write (edge_config p), write_bool (show_edges p), write_bool (fixed_edge_color p), point_write (vertices_config p),
       write_bool (show_vertices p), write_bool (fixed_vertices_color p)]"

end
