(* ===== verification/Gui_Elements.thy ===== *)
theory Gui_Elements
  imports Gui_Types
begin

text \<open>
  The elements of a GUI (\<open>gui/elements.h\<close> and one header per element) and the forms (\<open>gui/Form.h\<close>).
  An element reads its data through getters and reacts to a client through callbacks, both code of
  the controller: getters are functions of the controller's state \<open>'s\<close>, callbacks change that state and
  may throw a \<open>Configuration::Exception\<close>. What a robot or a visual is written from is data of the
  getter.
\<close>

section \<open>Written values\<close>

type_synonym vec3 = "u64 list"
type_synonym ptransform = "u64 list \<times> u64 list"
type_synonym force_vec = "u64 list \<times> u64 list"

definition write_vec3 :: "vec3 \<Rightarrow> builder_call" where
  "write_vec3 v w = builder_write_vector3 w v"

definition write_vecx :: "u64 list \<Rightarrow> builder_call" where
  "write_vecx v w = builder_write_vectorx w v"

definition write_force :: "force_vec \<Rightarrow> builder_call" where
  "write_force f w = builder_write_spatial w (fst f) (snd f)"

text \<open>The types that a label or a table shows.\<close>

datatype gui_data =
    GD_bool bool
  | GD_int u32
  | GD_uint64 u64
  | GD_double u64
  | GD_string string
  | GD_vector "u64 list"
  | GD_strings "string list"
  | GD_config json

fun write_data :: "gui_data \<Rightarrow> builder_call" where
  "write_data (GD_bool b) = write_bool b"
| "write_data (GD_int i) = write_int i"
| "write_data (GD_uint64 u) = write_uint64 u"
| "write_data (GD_double d) = write_double d"
| "write_data (GD_string s) = builder_write_str s"
| "write_data (GD_vector v) = write_vecx v"
| "write_data (GD_strings ss) = write_strings ss"
| "write_data (GD_config c) = toMessagePack c"

section \<open>Types of elements\<close>

datatype elements =
    E_Label | E_ArrayLabel | E_Button | E_Checkbox | E_StringInput | E_IntegerInput | E_NumberInput | E_NumberSlider
  | E_ArrayInput | E_ComboInput | E_DataComboInput | E_Point3D | E_Trajectory | E_Rotation | E_Transform | E_Schema | E_Form
  | E_Polygon | E_Force | E_Arrow | E_XYTheta | E_Table | E_Robot | E_Visual | E_PolyhedronTrianglesList
  | E_PolyhedronVerticesTriangles | E_GenericArray | E_OneOf | E_RobotMsg

definition all_elements :: "elements list" where
  "all_elements =
     [E_Label, E_ArrayLabel, E_Button, E_Checkbox, E_StringInput, E_IntegerInput, E_NumberInput, E_NumberSlider,
      E_ArrayInput, E_ComboInput, E_DataComboInput, E_Point3D, E_Trajectory, E_Rotation, E_Transform, E_Schema, E_Form,
      E_Polygon, E_Force, E_Arrow, E_XYTheta, E_Table, E_Robot, E_Visual, E_PolyhedronTrianglesList,
      E_PolyhedronVerticesTriangles, E_GenericArray, E_OneOf, E_RobotMsg]"

text \<open>The value of an enumerator is its position.\<close>

fun position_of :: "'a \<Rightarrow> 'a list \<Rightarrow> nat" where
  "position_of x [] = 0"
| "position_of x (y # ys) = (if x = y then 0 else Suc (position_of x ys))"

definition element_code :: "elements \<Rightarrow> u32" where
  "element_code e = of_nat (position_of e all_elements)"

definition element_of :: "u32 \<Rightarrow> elements option" where
  "element_of i = (if unat i < length all_elements then Some (all_elements ! unat i) else None)"

section \<open>Forms\<close>

text \<open>\<open>CallbackOrValue\<close>: a default value that is fixed or read when the form is written.\<close>

datatype ('s, 'a) callback_or_value = CV_value 'a | CV_callback "'s \<Rightarrow> 'a"

datatype 's form_input =
    FormCheckbox string bool "('s, bool) callback_or_value" bool
  | FormIntegerInput string bool "('s, u32) callback_or_value" bool
  | FormNumberInput string bool "('s, u64) callback_or_value" bool
  | FormStringInput string bool "('s, string) callback_or_value" bool
  | FormPoint3DInput string bool "('s, vec3) callback_or_value" bool bool
  | FormRotationInput string bool "('s, ptransform) callback_or_value" bool bool
  | FormTransformInput string bool "('s, ptransform) callback_or_value" bool bool
  | FormArrayInput string bool "('s, u64 list) callback_or_value" bool bool "string list"
  | FormComboInput string bool "string list" bool u32
  | FormDataComboInput string bool "string list" bool
  | FormObjectInput string bool "'s form_input list"
  | FormGenericArrayInput string bool "'s form_input" "('s, json) callback_or_value option"
  | FormOneOfInput string bool "('s, nat \<times> json) callback_or_value option" "'s form_input list"

text \<open>
  \<open>FormElements\<close>: a static element is written once, when it is added; a dynamic one is written each time
  the form is. A part of a form is the one or the other.
\<close>

type_synonym 's form_part = "builder_call + ('s \<Rightarrow> builder_call)"

record 's form_elements =
  fe_count :: nat
  fe_dynamic :: "('s \<Rightarrow> builder_call) list"
  fe_data :: "u8 list"
  fe_data_size :: nat

definition form_add_part :: "'s form_part \<Rightarrow> mpack_writer \<times> ('s \<Rightarrow> builder_call) list \<Rightarrow> mpack_writer \<times> ('s \<Rightarrow> builder_call) list" where
  "form_add_part part st = (case part of Inl call \<Rightarrow> (call (fst st), snd st) | Inr f \<Rightarrow> (fst st, snd st @ [f]))"

definition form_elements_new :: "'s form_part list \<Rightarrow> 's form_elements" where
  "form_elements_new parts =
     (let (w, dyn) = fold form_add_part parts (builder_new [], []); (w, n) = builder_finish w in
      \<lparr>fe_count = length parts, fe_dynamic = dyn, fe_data = w_buffer w, fe_data_size = n\<rparr>)"

definition form_addElement :: "'s form_part \<Rightarrow> 's form_elements \<Rightarrow> 's form_elements" where
  "form_addElement part fe =
     (let fe = fe\<lparr>fe_count := fe_count fe + 1\<rparr> in
      case part of
        Inr f \<Rightarrow> fe\<lparr>fe_dynamic := fe_dynamic fe @ [f]\<rparr>
      | Inl call \<Rightarrow>
          let data = fe_data fe;
              (w, n) = builder_finish (call (builder_write_object (builder_new (fe_data fe)) (take (fe_data_size fe) data)))
          in fe\<lparr>fe_data := w_buffer w, fe_data_size := n\<rparr>)"

text \<open>The dynamic elements come first. The empty objects write nothing.\<close>

definition form_write_impl :: "'s form_elements \<Rightarrow> 's \<Rightarrow> builder_call" where
  "form_write_impl fe s =
     builder_array (fe_count fe)
       (map (\<lambda>f. f s) (fe_dynamic fe) @ [\<lambda>w. builder_write_object w (take (fe_data_size fe) (fe_data fe))] @
        replicate (fe_count fe - (length (fe_dynamic fe) + 1)) (\<lambda>w. builder_write_object w []))"

text \<open>\<open>FormElement::write\<close>: the name, the type, whether it is required, and the part of the element.\<close>

definition form_element_write :: "string \<Rightarrow> bool \<Rightarrow> elements \<Rightarrow> builder_call list \<Rightarrow> builder_call" where
  "form_element_write name required ty calls =
     builder_array (3 + length calls) ([builder_write_str name, write_int (element_code ty), write_bool required] @ calls)"

definition form_data_part :: "string \<Rightarrow> bool \<Rightarrow> elements \<Rightarrow> ('a \<Rightarrow> builder_call) \<Rightarrow> ('s, 'a) callback_or_value \<Rightarrow> builder_call list \<Rightarrow> 's form_part" where
  "form_data_part name required ty wr def rest =
     (case def of
        CV_value x \<Rightarrow> Inl (form_element_write name required ty (wr x # rest))
      | CV_callback g \<Rightarrow> Inr (\<lambda>s. form_element_write name required ty (wr (g s) # rest)))"

definition optional_write :: "('a \<Rightarrow> builder_call) \<Rightarrow> ('s, 'a) callback_or_value option \<Rightarrow> 's \<Rightarrow> builder_call" where
  "optional_write wr def s =
     (case def of None \<Rightarrow> builder_write_nil | Some (CV_value x) \<Rightarrow> wr x | Some (CV_callback g) \<Rightarrow> wr (g s))"

fun form_part :: "'s form_input \<Rightarrow> 's form_part" where
  "form_part (FormCheckbox name required def has_def) = form_data_part name required E_Checkbox write_bool def [write_bool has_def]"
| "form_part (FormIntegerInput name required def has_def) = form_data_part name required E_IntegerInput write_int def [write_bool has_def]"
| "form_part (FormNumberInput name required def has_def) = form_data_part name required E_NumberInput write_double def [write_bool has_def]"
| "form_part (FormStringInput name required def has_def) = form_data_part name required E_StringInput builder_write_str def [write_bool has_def]"
| "form_part (FormPoint3DInput name required def has_def interactive) =
     form_data_part name required E_Point3D write_vec3 def [write_bool has_def, write_bool interactive]"
| "form_part (FormRotationInput name required def has_def interactive) =
     form_data_part name required E_Rotation write_transform def [write_bool has_def, write_bool interactive]"
| "form_part (FormTransformInput name required def has_def interactive) =
     form_data_part name required E_Transform write_transform def [write_bool has_def, write_bool interactive]"
| "form_part (FormArrayInput name required def fixed_size has_def labels) =
     form_data_part name required E_ArrayInput write_vecx def [write_bool fixed_size, write_bool has_def, write_strings labels]"
| "form_part (FormComboInput name required values send_index def) =
     Inl (form_element_write name required E_ComboInput [write_strings values, write_bool send_index, write_int def])"
| "form_part (FormDataComboInput name required ref send_index) =
     Inl (form_element_write name required E_DataComboInput [write_strings ref, write_bool send_index])"
| "form_part (FormObjectInput name required els) =
     (let fe = form_elements_new (map form_part els) in
      Inr (\<lambda>s. form_element_write name required E_Form [form_write_impl fe s]))"
| "form_part (FormGenericArrayInput name required el data) =
     (let fe = form_elements_new [form_part el] in
      Inr (\<lambda>s. form_element_write name required E_GenericArray [form_write_impl fe s, optional_write toMessagePack data s]))"
| "form_part (FormOneOfInput name required def els) =
     (let fe = form_elements_new (map form_part els) in
      Inr (\<lambda>s. form_element_write name required E_OneOf
        [optional_write (\<lambda>(i, v). builder_write_variant i (toMessagePack v)) def s, form_write_impl fe s]))"

end
