(* ===== verification/Gui_Widgets.thy ===== *)
theory Gui_Widgets
  imports Gui_Elements
begin

text \<open>
  The elements that a controller puts in its GUI, with what each writes after its name, type and
  stacking id, and how it answers a request. A read-only element has no setter.
\<close>

section \<open>Elements\<close>

text \<open>What a callback does: the state after it, and the exception it throws if any.\<close>

type_synonym 's effect = "'s \<Rightarrow> 's \<times> config_error option"

datatype trajectory_data =
    TR_point vec3
  | TR_pose ptransform
  | TR_points "vec3 list"
  | TR_poses "ptransform list"

datatype polygon_data =
    PD_points "vec3 list"
  | PD_polygons "vec3 list list"

datatype visual_pose = VP_position vec3 | VP_pose ptransform

record robot_msg =
  rm_parameters :: "string list"
  rm_q :: "u64 list"
  rm_alpha :: "u64 list"
  rm_alphaD :: "u64 list"
  rm_tau :: "u64 list"
  rm_forces :: "force_vec list"
  rm_posW :: ptransform

datatype 's widget =
    Label "'s \<Rightarrow> gui_data"
  | ArrayLabel "'s \<Rightarrow> u64 list" "string list"
  | Button "'s effect"
  | Checkbox "'s \<Rightarrow> bool" "'s effect"
  | StringInput "'s \<Rightarrow> string" "string \<Rightarrow> 's effect"
  | IntegerInput "'s \<Rightarrow> u32" "u32 \<Rightarrow> 's effect"
  | NumberInput "'s \<Rightarrow> u64" "u64 \<Rightarrow> 's effect"
  | NumberSlider "'s \<Rightarrow> u64" "u64 \<Rightarrow> 's effect" u64 u64
  | ArrayInput "'s \<Rightarrow> u64 list" "nat option" "u64 list \<Rightarrow> 's effect" "string list"
  | ComboInput "'s \<Rightarrow> string" "string \<Rightarrow> 's effect" "string list"
  | DataComboInput "'s \<Rightarrow> string" "string \<Rightarrow> 's effect" "string list"
  | Point3D "'s \<Rightarrow> vec3" "(vec3 \<Rightarrow> 's effect) option" point_config
  | Trajectory "'s \<Rightarrow> trajectory_data" line_config
  | Rotation "'s \<Rightarrow> ptransform" "(u64 list \<Rightarrow> 's effect) option"
  | Transform "'s \<Rightarrow> ptransform" "(ptransform \<Rightarrow> 's effect) option"
  | Schema string "json \<Rightarrow> 's effect"
  | Form "'s form_input list" "json \<Rightarrow> 's effect"
  | Polygon "'s \<Rightarrow> polygon_data" line_config
  | Force "'s \<Rightarrow> force_vec" "'s \<Rightarrow> ptransform" "(force_vec \<Rightarrow> 's effect) option" force_config
  | Arrow "'s \<Rightarrow> vec3" "'s \<Rightarrow> vec3" "((vec3 \<Rightarrow> 's effect) \<times> (vec3 \<Rightarrow> 's effect)) option" arrow_config
  | XYTheta "'s \<Rightarrow> u64 list" "(u64 list \<Rightarrow> 's effect) option"
  | Table "'s \<Rightarrow> string list" "'s \<Rightarrow> gui_data list list" "('s \<Rightarrow> string list) option"
  | Robot "'s \<Rightarrow> string list \<times> u64 list list \<times> ptransform"
  | Visual "'s \<Rightarrow> json" "'s \<Rightarrow> visual_pose"
  | PolyhedronTrianglesList "'s \<Rightarrow> vec3 list list" polyhedron_config "('s \<Rightarrow> gui_color list list) option"
  | PolyhedronVerticesTriangles "'s \<Rightarrow> vec3 list" "'s \<Rightarrow> u64 list list" polyhedron_config "('s \<Rightarrow> gui_color list) option"
  | RobotMsg "'s \<Rightarrow> robot_msg"

fun widget_type :: "'s widget \<Rightarrow> elements" where
  "widget_type (Label _) = E_Label"
| "widget_type (ArrayLabel _ _) = E_ArrayLabel"
| "widget_type (Button _) = E_Button"
| "widget_type (Checkbox _ _) = E_Checkbox"
| "widget_type (StringInput _ _) = E_StringInput"
| "widget_type (IntegerInput _ _) = E_IntegerInput"
| "widget_type (NumberInput _ _) = E_NumberInput"
| "widget_type (NumberSlider _ _ _ _) = E_NumberSlider"
| "widget_type (ArrayInput _ _ _ _) = E_ArrayInput"
| "widget_type (ComboInput _ _ _) = E_ComboInput"
| "widget_type (DataComboInput _ _ _) = E_DataComboInput"
| "widget_type (Point3D _ _ _) = E_Point3D"
| "widget_type (Trajectory _ _) = E_Trajectory"
| "widget_type (Rotation _ _) = E_Rotation"
| "widget_type (Transform _ _) = E_Transform"
| "widget_type (Schema _ _) = E_Schema"
| "widget_type (Form _ _) = E_Form"
| "widget_type (Polygon _ _) = E_Polygon"
| "widget_type (Force _ _ _ _) = E_Force"
| "widget_type (Arrow _ _ _ _) = E_Arrow"
| "widget_type (XYTheta _ _) = E_XYTheta"
| "widget_type (Table _ _ _) = E_Table"
| "widget_type (Robot _) = E_Robot"
| "widget_type (Visual _ _) = E_Visual"
| "widget_type (PolyhedronTrianglesList _ _ _) = E_PolyhedronTrianglesList"
| "widget_type (PolyhedronVerticesTriangles _ _ _ _) = E_PolyhedronVerticesTriangles"
| "widget_type (RobotMsg _) = E_RobotMsg"

section \<open>Writing\<close>

text \<open>\<open>write_size\<close> of each class, which the server announces before the element is written. Every style has size one.\<close>

definition Element_write_size :: nat where
  "Element_write_size = 3"

definition DataElement_write_size :: nat where
  "DataElement_write_size = Element_write_size + 1"

definition ArrayLabel_write_size :: nat where
  "ArrayLabel_write_size = DataElement_write_size + 1"

definition NumberSlider_write_size :: nat where
  "NumberSlider_write_size = DataElement_write_size + 2"

definition ArrayInput_write_size :: nat where
  "ArrayInput_write_size = DataElement_write_size + 1"

definition ComboInput_write_size :: nat where
  "ComboInput_write_size = DataElement_write_size + 1"

definition DataComboInput_write_size :: nat where
  "DataComboInput_write_size = DataElement_write_size + 1"

definition Point3D_write_size :: nat where
  "Point3D_write_size = DataElement_write_size + 1 + 1"

definition Trajectory_write_size :: nat where
  "Trajectory_write_size = DataElement_write_size + 1"

definition Rotation_write_size :: nat where
  "Rotation_write_size = DataElement_write_size + 1"

definition Transform_write_size :: nat where
  "Transform_write_size = DataElement_write_size + 1"

definition Schema_write_size :: nat where
  "Schema_write_size = Element_write_size + 1"

definition Form_write_size :: nat where
  "Form_write_size = Element_write_size + 1"

definition Polygon_write_size :: nat where
  "Polygon_write_size = DataElement_write_size + 1"

definition Force_write_size :: nat where
  "Force_write_size = Element_write_size + 3 + 1"

definition Arrow_write_size :: nat where
  "Arrow_write_size = Element_write_size + 3 + 1"

definition XYTheta_write_size :: nat where
  "XYTheta_write_size = DataElement_write_size + 1"

definition Table_write_size :: nat where
  "Table_write_size = Element_write_size + 2"

definition FormattedTable_write_size :: nat where
  "FormattedTable_write_size = Table_write_size + 1"

definition Robot_write_size :: nat where
  "Robot_write_size = Element_write_size + 3"

definition Visual_write_size :: nat where
  "Visual_write_size = Element_write_size + 2"

definition PolyhedronTrianglesList_write_size :: nat where
  "PolyhedronTrianglesList_write_size = Element_write_size + 1 + 1"

definition PolyhedronVerticesTriangles_write_size :: nat where
  "PolyhedronVerticesTriangles_write_size = Element_write_size + 2 + 1"

definition RobotMsg_write_size :: nat where
  "RobotMsg_write_size = Element_write_size + 7"

definition ColoredPolyhedron_write_size :: "nat \<Rightarrow> nat" where
  "ColoredPolyhedron_write_size polyhedron = polyhedron + 1"

lemmas write_sizes [simp] = Element_write_size_def DataElement_write_size_def ArrayLabel_write_size_def NumberSlider_write_size_def ArrayInput_write_size_def ComboInput_write_size_def DataComboInput_write_size_def Point3D_write_size_def Trajectory_write_size_def Rotation_write_size_def Transform_write_size_def Schema_write_size_def Form_write_size_def Polygon_write_size_def Force_write_size_def Arrow_write_size_def XYTheta_write_size_def Table_write_size_def FormattedTable_write_size_def Robot_write_size_def Visual_write_size_def PolyhedronTrianglesList_write_size_def PolyhedronVerticesTriangles_write_size_def RobotMsg_write_size_def ColoredPolyhedron_write_size_def

fun widget_write_size :: "'s widget \<Rightarrow> nat" where
  "widget_write_size (Label _) = DataElement_write_size"
| "widget_write_size (ArrayLabel _ _) = ArrayLabel_write_size"
| "widget_write_size (Button _) = Element_write_size"
| "widget_write_size (Checkbox _ _) = DataElement_write_size"
| "widget_write_size (StringInput _ _) = DataElement_write_size"
| "widget_write_size (IntegerInput _ _) = DataElement_write_size"
| "widget_write_size (NumberInput _ _) = DataElement_write_size"
| "widget_write_size (NumberSlider _ _ _ _) = NumberSlider_write_size"
| "widget_write_size (ArrayInput _ _ _ _) = ArrayInput_write_size"
| "widget_write_size (ComboInput _ _ _) = ComboInput_write_size"
| "widget_write_size (DataComboInput _ _ _) = DataComboInput_write_size"
| "widget_write_size (Point3D _ _ _) = Point3D_write_size"
| "widget_write_size (Trajectory _ _) = Trajectory_write_size"
| "widget_write_size (Rotation _ _) = Rotation_write_size"
| "widget_write_size (Transform _ _) = Transform_write_size"
| "widget_write_size (Schema _ _) = Schema_write_size"
| "widget_write_size (Form _ _) = Form_write_size"
| "widget_write_size (Polygon _ _) = Polygon_write_size"
| "widget_write_size (Force _ _ _ _) = Force_write_size"
| "widget_write_size (Arrow _ _ _ _) = Arrow_write_size"
| "widget_write_size (XYTheta _ _) = XYTheta_write_size"
| "widget_write_size (Table _ _ None) = Table_write_size"
| "widget_write_size (Table _ _ (Some _)) = FormattedTable_write_size"
| "widget_write_size (Robot _) = Robot_write_size"
| "widget_write_size (Visual _ _) = Visual_write_size"
| "widget_write_size (PolyhedronTrianglesList _ _ None) = PolyhedronTrianglesList_write_size"
| "widget_write_size (PolyhedronTrianglesList _ _ (Some _)) = ColoredPolyhedron_write_size PolyhedronTrianglesList_write_size"
| "widget_write_size (PolyhedronVerticesTriangles _ _ _ None) = PolyhedronVerticesTriangles_write_size"
| "widget_write_size (PolyhedronVerticesTriangles _ _ _ (Some _)) = ColoredPolyhedron_write_size PolyhedronVerticesTriangles_write_size"
| "widget_write_size (RobotMsg _) = RobotMsg_write_size"

fun write_trajectory :: "trajectory_data \<Rightarrow> builder_call" where
  "write_trajectory (TR_point v) = write_vec3 v"
| "write_trajectory (TR_pose p) = write_transform p"
| "write_trajectory (TR_points vs) = builder_write_std_vector write_vec3 vs"
| "write_trajectory (TR_poses ps) = builder_write_std_vector write_transform ps"

fun write_polygon :: "polygon_data \<Rightarrow> builder_call" where
  "write_polygon (PD_points vs) = builder_write_std_vector write_vec3 vs"
| "write_polygon (PD_polygons ps) = builder_write_std_vector (builder_write_std_vector write_vec3) ps"

fun write_visual_pose :: "visual_pose \<Rightarrow> builder_call" where
  "write_visual_pose (VP_position v) = write_vec3 v"
| "write_visual_pose (VP_pose p) = write_transform p"

definition write_triangle_colors :: "gui_color list list \<Rightarrow> builder_call" where
  "write_triangle_colors colors =
     builder_array (length colors) (map (\<lambda>c. builder_array 3 [color_write (c ! 0), color_write (c ! 1), color_write (c ! 2)]) colors)"

definition write_colors :: "gui_color list \<Rightarrow> builder_call" where
  "write_colors colors = builder_array (length colors) (map color_write colors)"

text \<open>\<open>write\<close> of each class. \<open>std::is_same_v<SetT, std::nullptr_t>\<close> is the absence of a setter.\<close>

definition DataElement_write :: "builder_call \<Rightarrow> builder_call list" where
  "DataElement_write call = [call]"

definition ArrayLabel_write :: "('s \<Rightarrow> u64 list) \<Rightarrow> string list \<Rightarrow> 's \<Rightarrow> builder_call list" where
  "ArrayLabel_write get labels s = DataElement_write (write_vecx (get s)) @ [write_strings labels]"

definition NumberSlider_write :: "('s \<Rightarrow> u64) \<Rightarrow> u64 \<Rightarrow> u64 \<Rightarrow> 's \<Rightarrow> builder_call list" where
  "NumberSlider_write get mn mx s =
     DataElement_write (write_double (get s)) @ [write_double mn, write_double mx]"

definition ArrayInput_write :: "('s \<Rightarrow> u64 list) \<Rightarrow> string list \<Rightarrow> 's \<Rightarrow> builder_call list" where
  "ArrayInput_write get labels s =
     DataElement_write (write_vecx (get s)) @ [write_strings labels]"

definition ComboInput_write :: "('s \<Rightarrow> string) \<Rightarrow> string list \<Rightarrow> 's \<Rightarrow> builder_call list" where
  "ComboInput_write get values s =
     DataElement_write (builder_write_str (get s)) @ [write_strings values]"

definition DataComboInput_write :: "('s \<Rightarrow> string) \<Rightarrow> string list \<Rightarrow> 's \<Rightarrow> builder_call list" where
  "DataComboInput_write get data_ref s =
     DataElement_write (builder_write_str (get s)) @ [write_strings data_ref]"

definition Point3D_write :: "('s \<Rightarrow> vec3) \<Rightarrow> 'c option \<Rightarrow> point_config \<Rightarrow> 's \<Rightarrow> builder_call list" where
  "Point3D_write get set_fn config s =
     DataElement_write (write_vec3 (get s)) @ [write_bool (set_fn = None), point_write config]"

definition Trajectory_write :: "('s \<Rightarrow> trajectory_data) \<Rightarrow> line_config \<Rightarrow> 's \<Rightarrow> builder_call list" where
  "Trajectory_write get config s =
     DataElement_write (write_trajectory (get s)) @ [line_write config]"

definition Rotation_write :: "('s \<Rightarrow> ptransform) \<Rightarrow> 'c option \<Rightarrow> 's \<Rightarrow> builder_call list" where
  "Rotation_write get set_fn s = DataElement_write (write_transform (get s)) @ [write_bool (set_fn = None)]"

definition Transform_write :: "('s \<Rightarrow> ptransform) \<Rightarrow> 'c option \<Rightarrow> 's \<Rightarrow> builder_call list" where
  "Transform_write get set_fn s =
     DataElement_write (write_transform (get s)) @ [write_bool (set_fn = None)]"

definition Schema_write :: "string \<Rightarrow> builder_call list" where
  "Schema_write schema = [builder_write_str schema]"

definition FormImpl_write :: "'s form_input list \<Rightarrow> 's \<Rightarrow> builder_call list" where
  "FormImpl_write els s = [form_write_impl (form_elements_new (map form_part els)) s]"

definition Polygon_write :: "('s \<Rightarrow> polygon_data) \<Rightarrow> line_config \<Rightarrow> 's \<Rightarrow> builder_call list" where
  "Polygon_write get config s =
     DataElement_write (write_polygon (get s)) @ [line_write config]"

definition Force_write :: "('s \<Rightarrow> force_vec) \<Rightarrow> ('s \<Rightarrow> ptransform) \<Rightarrow> 'c option \<Rightarrow> force_config \<Rightarrow> 's \<Rightarrow> builder_call list" where
  "Force_write get surface set_fn config s =
     [write_force (get s), write_transform (surface s), write_bool (set_fn = None), force_write config]"

definition Arrow_write :: "('s \<Rightarrow> vec3) \<Rightarrow> ('s \<Rightarrow> vec3) \<Rightarrow> 'c option \<Rightarrow> arrow_config \<Rightarrow> 's \<Rightarrow> builder_call list" where
  "Arrow_write get_start get_end set_fn config s =
     [write_vec3 (get_start s), write_vec3 (get_end s), write_bool (set_fn = None), arrow_write config]"

definition XYTheta_write :: "('s \<Rightarrow> u64 list) \<Rightarrow> 'c option \<Rightarrow> 's \<Rightarrow> builder_call list" where
  "XYTheta_write get set_fn s =
     DataElement_write (write_vecx (get s)) @ [write_bool (set_fn = None)]"

definition Table_write :: "('s \<Rightarrow> string list) \<Rightarrow> ('s \<Rightarrow> gui_data list list) \<Rightarrow> 's \<Rightarrow> builder_call list" where
  "Table_write header data s =
     [write_strings (header s), builder_write_std_vector (builder_write_std_vector write_data) (data s)]"

definition FormattedTable_write :: "('s \<Rightarrow> string list) \<Rightarrow> ('s \<Rightarrow> gui_data list list) \<Rightarrow> ('s \<Rightarrow> string list) \<Rightarrow> 's \<Rightarrow> builder_call list" where
  "FormattedTable_write header data format s = Table_write header data s @ [write_strings (format s)]"

definition Robot_write :: "('s \<Rightarrow> string list \<times> u64 list list \<times> ptransform) \<Rightarrow> 's \<Rightarrow> builder_call list" where
  "Robot_write get s =
     (let (parameters, q, posW) = get s in
      [write_strings parameters, builder_write_std_vector write_reals q, write_transform posW])"

definition Visual_write :: "('s \<Rightarrow> json) \<Rightarrow> ('s \<Rightarrow> visual_pose) \<Rightarrow> 's \<Rightarrow> builder_call list" where
  "Visual_write visual pose s = [toMessagePack (visual s), write_visual_pose (pose s)]"

definition PolyhedronTrianglesList_write :: "('s \<Rightarrow> vec3 list list) \<Rightarrow> polyhedron_config \<Rightarrow> 's \<Rightarrow> builder_call list" where
  "PolyhedronTrianglesList_write triangles config s =
     [builder_write_std_vector (builder_write_std_vector write_vec3) (triangles s), polyhedron_write config]"

definition PolyhedronVerticesTriangles_write :: "('s \<Rightarrow> vec3 list) \<Rightarrow> ('s \<Rightarrow> u64 list list) \<Rightarrow> polyhedron_config \<Rightarrow> 's \<Rightarrow> builder_call list" where
  "PolyhedronVerticesTriangles_write vertices triangles config s =
     [builder_write_std_vector write_vec3 (vertices s), builder_write_std_vector (builder_write_std_vector write_uint64) (triangles s),
      polyhedron_write config]"

definition ColoredPolyhedron_write :: "builder_call list \<Rightarrow> builder_call \<Rightarrow> builder_call list" where
  "ColoredPolyhedron_write polyhedron colors = polyhedron @ [colors]"

definition RobotMsg_write :: "('s \<Rightarrow> robot_msg) \<Rightarrow> 's \<Rightarrow> builder_call list" where
  "RobotMsg_write get s =
     (let m = get s in
      [write_strings (rm_parameters m), write_vecx (rm_q m), write_vecx (rm_alpha m), write_vecx (rm_alphaD m), write_vecx (rm_tau m),
       builder_write_std_vector write_force (rm_forces m), write_transform (rm_posW m)])"

lemmas element_writes [simp] = DataElement_write_def ArrayLabel_write_def NumberSlider_write_def ArrayInput_write_def ComboInput_write_def DataComboInput_write_def Point3D_write_def Trajectory_write_def Rotation_write_def Transform_write_def Schema_write_def FormImpl_write_def Polygon_write_def Force_write_def Arrow_write_def XYTheta_write_def Table_write_def FormattedTable_write_def Robot_write_def Visual_write_def PolyhedronTrianglesList_write_def PolyhedronVerticesTriangles_write_def ColoredPolyhedron_write_def RobotMsg_write_def

text \<open>The write of the element that an \<open>ElementStore\<close> holds.\<close>

fun widget_write :: "'s \<Rightarrow> 's widget \<Rightarrow> builder_call list" where
  "widget_write s (Label get) = DataElement_write (write_data (get s))"
| "widget_write s (ArrayLabel get labels) = ArrayLabel_write get labels s"
| "widget_write s (Button cb) = []"
| "widget_write s (Checkbox get cb) = DataElement_write (write_bool (get s))"
| "widget_write s (StringInput get set_fn) = DataElement_write (builder_write_str (get s))"
| "widget_write s (IntegerInput get set_fn) = DataElement_write (write_int (get s))"
| "widget_write s (NumberInput get set_fn) = DataElement_write (write_double (get s))"
| "widget_write s (NumberSlider get set_fn mn mx) = NumberSlider_write get mn mx s"
| "widget_write s (ArrayInput get dim set_fn labels) = ArrayInput_write get labels s"
| "widget_write s (ComboInput get set_fn values) = ComboInput_write get values s"
| "widget_write s (DataComboInput get set_fn data_ref) = DataComboInput_write get data_ref s"
| "widget_write s (Point3D get set_fn config) = Point3D_write get set_fn config s"
| "widget_write s (Trajectory get config) = Trajectory_write get config s"
| "widget_write s (Rotation get set_fn) = Rotation_write get set_fn s"
| "widget_write s (Transform get set_fn) = Transform_write get set_fn s"
| "widget_write s (Schema schema cb) = Schema_write schema"
| "widget_write s (Form els cb) = FormImpl_write els s"
| "widget_write s (Polygon get config) = Polygon_write get config s"
| "widget_write s (Force get surface set_fn config) = Force_write get surface set_fn config s"
| "widget_write s (Arrow get_start get_end set_fn config) = Arrow_write get_start get_end set_fn config s"
| "widget_write s (XYTheta get set_fn) = XYTheta_write get set_fn s"
| "widget_write s (Table header data None) = Table_write header data s"
| "widget_write s (Table header data (Some format)) = FormattedTable_write header data format s"
| "widget_write s (Robot get) = Robot_write get s"
| "widget_write s (Visual visual pose) = Visual_write visual pose s"
| "widget_write s (PolyhedronTrianglesList triangles config None) = PolyhedronTrianglesList_write triangles config s"
| "widget_write s (PolyhedronTrianglesList triangles config (Some colors)) =
     ColoredPolyhedron_write (PolyhedronTrianglesList_write triangles config s) (write_triangle_colors (colors s))"
| "widget_write s (PolyhedronVerticesTriangles vertices triangles config None) = PolyhedronVerticesTriangles_write vertices triangles config s"
| "widget_write s (PolyhedronVerticesTriangles vertices triangles config (Some colors)) =
     ColoredPolyhedron_write (PolyhedronVerticesTriangles_write vertices triangles config s) (write_colors (colors s))"
| "widget_write s (RobotMsg get) = RobotMsg_write get s"

section \<open>Requests\<close>

definition run_effect :: "'s effect \<Rightarrow> 's \<Rightarrow> 's \<times> (config_error + bool)" where
  "run_effect eff s = (case eff s of (s, None) \<Rightarrow> (s, Inr True) | (s, Some err) \<Rightarrow> (s, Inl err))"

text \<open>\<open>cb_(data)\<close>: the request is converted to the parameter of the callback.\<close>

definition call_with :: "(json \<Rightarrow> config_error + 'a) \<Rightarrow> ('a \<Rightarrow> 's effect) \<Rightarrow> json \<Rightarrow> 's \<Rightarrow> 's \<times> (config_error + bool)" where
  "call_with convert cb data s = (case convert data of Inl err \<Rightarrow> (s, Inl err) | Inr x \<Rightarrow> run_effect (cb x) s)"

definition call_optional :: "(json \<Rightarrow> config_error + 'a) \<Rightarrow> ('a \<Rightarrow> 's effect) option \<Rightarrow> json \<Rightarrow> 's \<Rightarrow> 's \<times> (config_error + bool)" where
  "call_optional convert cb data s = (case cb of None \<Rightarrow> (s, Inr False) | Some f \<Rightarrow> call_with convert f data s)"

definition seq_effect :: "'s effect \<Rightarrow> 's effect \<Rightarrow> 's effect" where
  "seq_effect f g s = (case f s of (s, None) \<Rightarrow> g s | (s, Some err) \<Rightarrow> (s, Some err))"

definition Force_handleRequest :: "(force_vec \<Rightarrow> 's effect) option \<Rightarrow> json \<Rightarrow> 's \<Rightarrow> 's \<times> (config_error + bool)" where
  "Force_handleRequest cb data s = call_optional (to_spatial ''couple'' ''force'') cb data s"

definition Arrow_handleRequest ::
  "((vec3 \<Rightarrow> 's effect) \<times> (vec3 \<Rightarrow> 's effect)) option \<Rightarrow> json \<Rightarrow> 's \<Rightarrow> 's \<times> (config_error + bool)" where
  "Arrow_handleRequest cb data s =
     call_optional (to_vector 6)
       (map_option (\<lambda>(set_start, set_end) arrow. seq_effect (set_start (take 3 arrow)) (set_end (drop 3 arrow))) cb) data s"

fun widget_handleRequest :: "rotation_functions \<Rightarrow> 's widget \<Rightarrow> json \<Rightarrow> 's \<Rightarrow> 's \<times> (config_error + bool)" where
  "widget_handleRequest rf (Button cb) data s = run_effect cb s"
| "widget_handleRequest rf (Checkbox get cb) data s = run_effect cb s"
| "widget_handleRequest rf (StringInput get cb) data s = call_with to_string cb data s"
| "widget_handleRequest rf (IntegerInput get cb) data s = call_with to_int32 cb data s"
| "widget_handleRequest rf (NumberInput get cb) data s = call_with to_double cb data s"
| "widget_handleRequest rf (NumberSlider get cb mn mx) data s = call_with to_double cb data s"
| "widget_handleRequest rf (ArrayInput get dim cb labels) data s =
     call_with (case dim of None \<Rightarrow> to_vectorx | Some n \<Rightarrow> to_vector n) cb data s"
| "widget_handleRequest rf (ComboInput get cb values) data s = call_with to_string cb data s"
| "widget_handleRequest rf (DataComboInput get cb data_ref) data s = call_with to_string cb data s"
| "widget_handleRequest rf (Point3D get cb config) data s = call_optional (to_vector 3) cb data s"
| "widget_handleRequest rf (Rotation get cb) data s = call_optional (to_quaternion rf) cb data s"
| "widget_handleRequest rf (Transform get cb) data s = call_optional (to_ptransform rf) cb data s"
| "widget_handleRequest rf (Schema schema cb) data s = call_with Inr cb data s"
| "widget_handleRequest rf (Form els cb) data s = call_with Inr cb data s"
| "widget_handleRequest rf (Force get surface cb config) data s = Force_handleRequest cb data s"
| "widget_handleRequest rf (Arrow get_start get_end cb config) data s = Arrow_handleRequest cb data s"
| "widget_handleRequest rf (XYTheta get cb) data s = call_optional to_vectorx cb data s"
| "widget_handleRequest rf _ data s = (s, Inr False)"

end
