(* ===== verification/Gui_Plot.thy ===== *)
theory Gui_Plot
  imports Gui_Elements
begin

text \<open>
  The plots of a GUI (\<open>gui/plot/*.h\<close> and the plot part of \<open>StateBuilder.hpp\<close>). A curve collects a value at
  every control step in a cache, which is sent and emptied when a message is written.
\<close>

section \<open>Axes and polygons\<close>

record range =
  range_min :: u64
  range_max :: u64

definition range_fromMessagePack :: "json \<Rightarrow> config_error + range" where
  "range_fromMessagePack config =
     conf_bind (to_std_array 2 to_double config) (\<lambda>data. Inr \<lparr>range_min = data ! 0, range_max = data ! 1\<rparr>)"

definition range_write :: "range \<Rightarrow> builder_call" where
  "range_write r = builder_array 2 [write_double (range_min r), write_double (range_max r)]"

record axis_config =
  axis_name :: string
  axis_range :: range

text \<open>The default range is from minus to plus infinity.\<close>

definition axis_default :: axis_config where
  "axis_default = \<lparr>axis_name = [], axis_range = \<lparr>range_min = 0xFFF0000000000000, range_max = 0x7FF0000000000000\<rparr>\<rparr>"

definition axis_fromMessagePack :: "json \<Rightarrow> config_error + axis_config" where
  "axis_fromMessagePack config =
     conf_bind (at_as config 0 to_string) (\<lambda>n.
     conf_bind (at_as config 1 range_fromMessagePack) (\<lambda>r. Inr \<lparr>axis_name = n, axis_range = r\<rparr>))"

definition axis_write :: "axis_config \<Rightarrow> builder_call" where
  "axis_write a = builder_array 2 [builder_write_str (axis_name a), range_write (axis_range a)]"

text \<open>The enumerations \<open>Plot\<close>, \<open>Type\<close>, \<open>Style\<close> and \<open>Side\<close> are written as unsigned 64 bit numbers.\<close>

datatype plot_kind = Plot_Standard | Plot_XY

fun plot_kind_code :: "plot_kind \<Rightarrow> u64" where
  "plot_kind_code Plot_Standard = 0"
| "plot_kind_code Plot_XY = 1"

datatype plot_type = PT_Abscissa | PT_Ordinate | PT_Polygon | PT_Polygons | PT_AbscissaOrdinate

fun plot_type_code :: "plot_type \<Rightarrow> u64" where
  "plot_type_code PT_Abscissa = 0"
| "plot_type_code PT_Ordinate = 1"
| "plot_type_code PT_Polygon = 2"
| "plot_type_code PT_Polygons = 3"
| "plot_type_code PT_AbscissaOrdinate = 4"

type_synonym plot_style = u64
type_synonym plot_side = u64

type_synonym point2 = "u64 list"

definition write_points2 :: "point2 list \<Rightarrow> builder_call" where
  "write_points2 ps = builder_write_std_vector write_reals ps"

record polygon_description =
  pd_points :: "point2 list"
  pd_outline :: gui_color
  pd_style :: plot_style
  pd_fill :: gui_color
  pd_closed :: bool

definition polygon_fromMessagePack :: "json \<Rightarrow> config_error + polygon_description" where
  "polygon_fromMessagePack data =
     conf_bind (at_as data 0 (to_std_vector (to_std_array 2 to_double))) (\<lambda>points.
     conf_bind (at_as data 1 color_fromMessagePack) (\<lambda>outline.
     conf_bind (at_as data 2 to_uint64) (\<lambda>style.
     conf_bind (at_as data 3 color_fromMessagePack) (\<lambda>fill.
     conf_bind (at_as data 4 to_bool) (\<lambda>closed.
       Inr \<lparr>pd_points = points, pd_outline = outline, pd_style = style, pd_fill = fill, pd_closed = closed\<rparr>)))))"

definition polygon_write :: "polygon_description \<Rightarrow> builder_call" where
  "polygon_write p =
     builder_array 5 [write_points2 (pd_points p), color_write (pd_outline p), write_uint64 (pd_style p), color_write (pd_fill p),
       write_bool (pd_closed p)]"

section \<open>Curves\<close>

record 's abscissa =
  ab_config :: axis_config
  ab_get :: "'s \<Rightarrow> u64"
  ab_cache :: "u64 list"

definition abscissa_update :: "'s \<Rightarrow> 's abscissa \<Rightarrow> 's abscissa" where
  "abscissa_update s a = a\<lparr>ab_cache := ab_cache a @ [ab_get a s]\<rparr>"

definition abscissa_write :: "'s abscissa \<Rightarrow> 's abscissa \<times> builder_call" where
  "abscissa_write a = (a\<lparr>ab_cache := []\<rparr>, builder_array 2 [axis_write (ab_config a), write_reals (ab_cache a)])"

text \<open>
  A color that a callback gives is read when the curve is written. The callback of an
  \<open>AbscissaOrdinate\<close> changes the cache as it likes.
\<close>

datatype 's plot_data =
    Ordinate string "'s \<Rightarrow> u64" "('s, gui_color) callback_or_value" "u64 list" plot_style plot_side
  | AbscissaOrdinate string "'s \<Rightarrow> point2 list \<Rightarrow> point2 list" "('s, gui_color) callback_or_value" "point2 list" plot_style plot_side
  | Plot_Polygon string "'s \<Rightarrow> polygon_description" plot_side
  | Plot_Polygons string "'s \<Rightarrow> polygon_description list" plot_side

fun plot_type_of :: "'s plot_data \<Rightarrow> plot_type" where
  "plot_type_of (Ordinate _ _ _ _ _ _) = PT_Ordinate"
| "plot_type_of (AbscissaOrdinate _ _ _ _ _ _) = PT_AbscissaOrdinate"
| "plot_type_of (Plot_Polygon _ _ _) = PT_Polygon"
| "plot_type_of (Plot_Polygons _ _ _) = PT_Polygons"

definition is_2d :: "'s plot_data \<Rightarrow> bool" where
  "is_2d d \<longleftrightarrow> plot_type_of d \<noteq> PT_Abscissa \<and> plot_type_of d \<noteq> PT_Ordinate"

definition Ordinate_update :: "'s \<Rightarrow> ('s \<Rightarrow> u64) \<Rightarrow> u64 list \<Rightarrow> u64 list" where
  "Ordinate_update s get cache = cache @ [get s]"

definition AbscissaOrdinate_update :: "'s \<Rightarrow> ('s \<Rightarrow> point2 list \<Rightarrow> point2 list) \<Rightarrow> point2 list \<Rightarrow> point2 list" where
  "AbscissaOrdinate_update s update_fn cache = update_fn s cache"

fun plot_data_update :: "'s \<Rightarrow> 's plot_data \<Rightarrow> 's plot_data" where
  "plot_data_update s (Ordinate name get color cache style side) = Ordinate name get color (Ordinate_update s get cache) style side"
| "plot_data_update s (AbscissaOrdinate name upd color cache style side) =
     AbscissaOrdinate name upd color (AbscissaOrdinate_update s upd cache) style side"
| "plot_data_update s d = d"

fun color_now :: "'s \<Rightarrow> ('s, gui_color) callback_or_value \<Rightarrow> gui_color" where
  "color_now s (CV_value c) = c"
| "color_now s (CV_callback g) = g s"

text \<open>\<open>write\<close> of each class; the cache of a curve is empty afterwards.\<close>

definition Ordinate_write :: "string \<Rightarrow> gui_color \<Rightarrow> u64 list \<Rightarrow> plot_style \<Rightarrow> plot_side \<Rightarrow> builder_call" where
  "Ordinate_write name color cache style side =
     builder_array 6 [write_uint64 (plot_type_code PT_Ordinate), builder_write_str name, write_reals cache, color_write color,
       write_uint64 style, write_uint64 side]"

definition AbscissaOrdinate_write :: "string \<Rightarrow> gui_color \<Rightarrow> point2 list \<Rightarrow> plot_style \<Rightarrow> plot_side \<Rightarrow> builder_call" where
  "AbscissaOrdinate_write name color cache style side =
     builder_array 6 [write_uint64 (plot_type_code PT_AbscissaOrdinate), builder_write_str name, write_points2 cache, color_write color,
       write_uint64 style, write_uint64 side]"

definition plot_polygon_write :: "string \<Rightarrow> polygon_description \<Rightarrow> plot_side \<Rightarrow> builder_call" where
  "plot_polygon_write name polygon side =
     builder_array 4 [write_uint64 (plot_type_code PT_Polygon), builder_write_str name, polygon_write polygon, write_uint64 side]"

definition plot_polygons_write :: "string \<Rightarrow> polygon_description list \<Rightarrow> plot_side \<Rightarrow> builder_call" where
  "plot_polygons_write name polygons side =
     builder_array 4 [write_uint64 (plot_type_code PT_Polygons), builder_write_str name,
       builder_array (length polygons) (map polygon_write polygons), write_uint64 side]"

lemmas curve_writes [simp] =
  Ordinate_update_def AbscissaOrdinate_update_def Ordinate_write_def AbscissaOrdinate_write_def plot_polygon_write_def plot_polygons_write_def

fun plot_data_write :: "'s \<Rightarrow> 's plot_data \<Rightarrow> 's plot_data \<times> builder_call" where
  "plot_data_write s (Ordinate name get color cache style side) =
     (Ordinate name get color [] style side, Ordinate_write name (color_now s color) cache style side)"
| "plot_data_write s (AbscissaOrdinate name upd color cache style side) =
     (AbscissaOrdinate name upd color [] style side, AbscissaOrdinate_write name (color_now s color) cache style side)"
| "plot_data_write s (Plot_Polygon name get side) = (Plot_Polygon name get side, plot_polygon_write name (get s) side)"
| "plot_data_write s (Plot_Polygons name get side) = (Plot_Polygons name get side, plot_polygons_write name (get s) side)"

section \<open>Plots\<close>

datatype 's plot_axes =
    Axes_XY axis_config axis_config axis_config
  | Axes_Standard "'s abscissa" axis_config axis_config

text \<open>
  \<open>PlotCallback\<close>: the callback is the one of the axes followed by one per curve, in the order in which
  the curves were added.
\<close>

record 's plot_callback =
  plot_msg_size :: nat
  plot_uid :: u64
  plot_axes :: "'s plot_axes"
  plot_curves :: "'s plot_data list"

definition plot_type_kind :: "'s plot_callback \<Rightarrow> plot_kind" where
  "plot_type_kind p = (case plot_axes p of Axes_XY _ _ _ \<Rightarrow> Plot_XY | Axes_Standard _ _ _ \<Rightarrow> Plot_Standard)"

text \<open>
  The callback of the axes. Called with \<open>update\<close> true it collects the abscissa only; called with
  \<open>update\<close> false it collects the abscissa once more and writes.
\<close>

fun axes_update :: "'s \<Rightarrow> 's plot_axes \<Rightarrow> 's plot_axes" where
  "axes_update s (Axes_XY x l r) = Axes_XY x l r"
| "axes_update s (Axes_Standard a l r) = Axes_Standard (abscissa_update s a) l r"

definition xy_axes_write :: "u64 \<Rightarrow> string \<Rightarrow> axis_config \<Rightarrow> axis_config \<Rightarrow> axis_config \<Rightarrow> builder_call list" where
  "xy_axes_write uid name x l r =
     [write_uint64 (plot_kind_code Plot_XY), write_uint64 uid, builder_write_str name, axis_write x, axis_write l, axis_write r]"

definition standard_axes_write :: "'s \<Rightarrow> u64 \<Rightarrow> string \<Rightarrow> 's abscissa \<Rightarrow> axis_config \<Rightarrow> axis_config \<Rightarrow> 's abscissa \<times> builder_call list" where
  "standard_axes_write s uid name a l r =
     (let (a, call) = abscissa_write (abscissa_update s a) in
      (a, [write_uint64 (plot_kind_code Plot_Standard), write_uint64 uid, builder_write_str name, call, axis_write l, axis_write r]))"

fun plot_axes_write :: "'s \<Rightarrow> u64 \<Rightarrow> string \<Rightarrow> 's plot_axes \<Rightarrow> 's plot_axes \<times> builder_call list" where
  "plot_axes_write s uid name (Axes_XY x l r) = (Axes_XY x l r, xy_axes_write uid name x l r)"
| "plot_axes_write s uid name (Axes_Standard a l r) =
     (let (a, calls) = standard_axes_write s uid name a l r in (Axes_Standard a l r, calls))"

lemmas axes_writes = plot_axes_write.simps xy_axes_write_def standard_axes_write_def

text \<open>The whole callback of a plot: the axes, then each curve is updated and, when a message is written, written.\<close>

definition plot_step :: "'s \<Rightarrow> 's plot_callback \<Rightarrow> 's plot_callback" where
  "plot_step s p = p\<lparr>plot_axes := axes_update s (plot_axes p), plot_curves := map (plot_data_update s) (plot_curves p)\<rparr>"

definition plot_write :: "'s \<Rightarrow> string \<Rightarrow> 's plot_callback \<Rightarrow> 's plot_callback \<times> builder_call" where
  "plot_write s name p =
     (let (axes, calls) = plot_axes_write s (plot_uid p) name (plot_axes p);
          curves = map (\<lambda>d. plot_data_write s (plot_data_update s d)) (plot_curves p) in
      (p\<lparr>plot_axes := axes, plot_curves := map fst curves\<rparr>, builder_array (plot_msg_size p) (calls @ map snd curves)))"

definition plot_add_data :: "'s plot_data list \<Rightarrow> 's plot_callback \<Rightarrow> 's plot_callback" where
  "plot_add_data ds p = p\<lparr>plot_msg_size := plot_msg_size p + length ds, plot_curves := plot_curves p @ ds\<rparr>"

end
