(* ===== verification/Gui_Client.thy ===== *)
theory Gui_Client
  imports Gui_Widgets Gui_Plot
begin

text \<open>
  \<open>mc_control::ControllerClient\<close> (\<open>ControllerClient.cpp\<close>): what a client does with a GUI message. The class
  calls virtual functions that a user interface overrides; the model gives the sequence of these calls.
  A \<open>Configuration::Exception\<close> ends the sequence where it is thrown, or at the handler that catches
  it. Reading a vector out of bounds is \<open>Client_undefined\<close>. Dumping a configuration as text, formatting
  and the loader of \<open>rbd::parsers::Visual\<close> are parameters.
\<close>

section \<open>Calls\<close>

record element_id =
  eid_category :: "string list"
  eid_name :: string
  eid_sid :: int

datatype client_call =
    CC_started
  | CC_stopped
  | CC_category "string list" string
  | CC_label element_id string
  | CC_array_label element_id "string list" "u64 list"
  | CC_button element_id
  | CC_checkbox element_id bool
  | CC_string_input element_id string
  | CC_integer_input element_id u32
  | CC_number_input element_id u64
  | CC_number_slider element_id u64 u64 u64
  | CC_array_input element_id "string list" "u64 list"
  | CC_combo_input element_id "string list" string
  | CC_data_combo_input element_id "string list" string
  | CC_point3d element_id element_id bool vec3 point_config
  | CC_trajectory element_id trajectory_data line_config
  | CC_polygon element_id "vec3 list list" line_config
  | CC_polyhedron_triangles element_id "vec3 list list" "gui_color list list" polyhedron_config
  | CC_polyhedron_vertices element_id "vec3 list" "u64 list list" "gui_color list" polyhedron_config
  | CC_force element_id element_id force_vec ptransform force_config bool
  | CC_arrow element_id element_id vec3 vec3 arrow_config bool
  | CC_rotation element_id element_id bool ptransform
  | CC_transform element_id element_id bool ptransform
  | CC_xytheta element_id element_id bool "u64 list" u64
  | CC_schema element_id string
  | CC_form element_id
  | CC_form_checkbox element_id string bool bool bool
  | CC_form_integer_input element_id string bool u32 bool
  | CC_form_number_input element_id string bool u64 bool
  | CC_form_string_input element_id string bool string bool
  | CC_form_array_input element_id string bool "string list" "u64 list" bool bool
  | CC_form_combo_input element_id string bool "string list" bool u32
  | CC_form_data_combo_input element_id string bool "string list" bool
  | CC_form_point3d_input element_id string bool vec3 bool bool
  | CC_form_rotation_input element_id string bool ptransform bool bool
  | CC_form_transform_input element_id string bool ptransform bool bool
  | CC_start_form_object_input string bool
  | CC_end_form_object_input
  | CC_start_form_generic_array_input string bool "json list option"
  | CC_end_form_generic_array_input
  | CC_start_form_one_of_input string bool "(u64 \<times> json) option"
  | CC_end_form_one_of_input
  | CC_table_start element_id "string list"
  | CC_table_row element_id "string list"
  | CC_table_end element_id
  | CC_robot element_id "string list" "u64 list list" ptransform
  | CC_robot_msg element_id robot_msg
  | CC_visual element_id json ptransform
  | CC_start_plot u64 string
  | CC_plot_setup_xaxis u64 string range
  | CC_plot_setup_yaxis_left u64 string range
  | CC_plot_setup_yaxis_right u64 string range
  | CC_plot_point u64 nat string u64 u64 gui_color plot_style plot_side
  | CC_plot_polygon u64 nat string polygon_description plot_side
  | CC_plot_polygons u64 nat string "polygon_description list" plot_side
  | CC_end_plot u64

datatype client_error = Client_config config_error | Client_undefined

type_synonym client_result = "client_call list \<times> client_error option"

record client_env =
  ce_dump :: "json \<Rightarrow> string"
  ce_fmt_string :: "string \<Rightarrow> string \<Rightarrow> string option"
  ce_fmt_double :: "string \<Rightarrow> u64 \<Rightarrow> string option"
  ce_visual :: "json \<Rightarrow> config_error + json"
  ce_rotation :: rotation_functions

definition calls :: "client_call list \<Rightarrow> client_result" where
  "calls cs = (cs, None)"

definition then_do :: "client_result \<Rightarrow> client_result \<Rightarrow> client_result" where
  "then_do r r' = (case snd r of Some err \<Rightarrow> r | None \<Rightarrow> (fst r @ fst r', snd r'))"

definition converted :: "config_error + 'a \<Rightarrow> ('a \<Rightarrow> client_result) \<Rightarrow> client_result" where
  "converted r f = (case r of Inl err \<Rightarrow> ([], Some (Client_config err)) | Inr x \<Rightarrow> f x)"

fun do_each :: "('a \<Rightarrow> client_result) \<Rightarrow> 'a list \<Rightarrow> client_result" where
  "do_each f [] = calls []"
| "do_each f (x # xs) = then_do (f x) (do_each f xs)"

lemma do_each_cong [fundef_cong]: "xs = ys \<Longrightarrow> (\<And>x. x \<in> set ys \<Longrightarrow> f x = g x) \<Longrightarrow> do_each f xs = do_each g ys"
  by (induction xs arbitrary: ys) auto

lemma converted_cong [fundef_cong]: "r = r' \<Longrightarrow> (\<And>x. r' = Inr x \<Longrightarrow> f x = g x) \<Longrightarrow> converted r f = converted r' g"
  by (auto simp: converted_def split: sum.split)

text \<open>\<open>catch(mc_rtc::Configuration::Exception &)\<close>: the calls made before the exception remain.\<close>

definition caught :: "client_result \<Rightarrow> client_result" where
  "caught r = (case snd r of Some (Client_config err) \<Rightarrow> (fst r, None) | _ \<Rightarrow> r)"

definition array_elements :: "json \<Rightarrow> json list" where
  "array_elements v = (case v of J_array vs \<Rightarrow> vs | _ \<Rightarrow> [])"

definition sub_id :: "element_id \<Rightarrow> string \<Rightarrow> element_id" where
  "sub_id eid suffix = eid\<lparr>eid_name := eid_name eid @ suffix\<rparr>"

definition label_or_input :: "bool \<Rightarrow> element_id \<Rightarrow> string list \<Rightarrow> u64 list \<Rightarrow> client_call" where
  "label_or_input ro eid labels v = (if ro then CC_array_label eid labels v else CC_array_input eid labels v)"

text \<open>\<open>config.fromMessagePack(data[i])\<close> when the message has that many entries.\<close>

definition optional_config :: "json \<Rightarrow> nat \<Rightarrow> (json \<Rightarrow> config_error + 'a) \<Rightarrow> 'a \<Rightarrow> config_error + 'a" where
  "optional_config data i convert d = (if i < config_size data then at_as data i convert else Inr d)"

section \<open>Elements\<close>

definition handle_point3d :: "element_id \<Rightarrow> json \<Rightarrow> client_result" where
  "handle_point3d eid data =
     converted (at_as data 3 (to_vector 3)) (\<lambda>pos.
     converted (at_as data 4 to_bool) (\<lambda>ro.
     converted (optional_config data 5 point_fromMessagePack point_default) (\<lambda>config.
       calls [label_or_input ro eid [''x'', ''y'', ''z''] pos, CC_point3d (sub_id eid ''_point3d'') eid ro pos config])))"

definition or_else :: "config_error + 'a \<Rightarrow> config_error + 'a \<Rightarrow> config_error + 'a" where
  "or_else r r' = (case r of Inl _ \<Rightarrow> r' | Inr x \<Rightarrow> Inr x)"

definition to_trajectory :: "rotation_functions \<Rightarrow> json \<Rightarrow> config_error + trajectory_data" where
  "to_trajectory rf data =
     (if IsArray data then
        or_else (conf_bind (to_std_vector (to_ptransform rf) data) (\<lambda>ps. Inr (TR_poses ps)))
        (or_else (conf_bind (to_std_vector (to_vector 3) data) (\<lambda>vs. Inr (TR_points vs)))
        (or_else (conf_bind (to_vector 3 data) (\<lambda>v. Inr (TR_point v)))
        (conf_bind (to_ptransform rf data) (\<lambda>p. Inr (TR_pose p)))))
      else conf_bind (to_ptransform rf data) (\<lambda>p. Inr (TR_pose p)))"

definition handle_trajectory :: "client_env \<Rightarrow> element_id \<Rightarrow> json \<Rightarrow> client_result" where
  "handle_trajectory env eid data =
     converted (at_as data 3 Inr) (\<lambda>d.
     converted (optional_config data 4 line_fromMessagePack line_default) (\<lambda>config.
     converted (to_trajectory (ce_rotation env) d) (\<lambda>t. calls [CC_trajectory eid t config])))"

text \<open>A polygon that is neither of the two forms is reported, not shown. The double 0.005.\<close>

definition handle_polygon :: "element_id \<Rightarrow> json \<Rightarrow> client_result" where
  "handle_polygon eid data =
     converted (at_as data 3 Inr) (\<lambda>d.
     converted
       (if 4 < config_size data then
          conf_bind (at_as data 4 Inr) (\<lambda>c.
            if config_size c = 4 then
              conf_bind (color_fromMessagePack c) (\<lambda>col. Inr (line_default\<lparr>lc_color := col, lc_width := 0x3F747AE147AE147B\<rparr>))
            else line_fromMessagePack c)
        else Inr line_default) (\<lambda>config.
     case or_else (to_std_vector (to_std_vector (to_vector 3)) d)
       (conf_bind (to_std_vector (to_vector 3) d) (\<lambda>p. Inr [p])) of
       Inl _ \<Rightarrow> calls []
     | Inr points \<Rightarrow> calls [CC_polygon eid points config]))"

text \<open>
  Colors that cannot be read are left out; a wrong number of them leaves out the polyhedron.
\<close>

definition optional_colors :: "json \<Rightarrow> nat \<Rightarrow> (json \<Rightarrow> config_error + 'a) \<Rightarrow> 'a list" where
  "optional_colors data i convert = (case at_as data i (to_std_vector convert) of Inl _ \<Rightarrow> [] | Inr cs \<Rightarrow> cs)"

definition handle_polyhedron_triangles_list :: "element_id \<Rightarrow> json \<Rightarrow> client_result" where
  "handle_polyhedron_triangles_list eid data =
     converted (at_as data 4 polyhedron_fromMessagePack) (\<lambda>config.
     case at_as data 3 (to_std_vector (to_std_array 3 (to_vector 3))) of
       Inl _ \<Rightarrow> calls []
     | Inr triangles \<Rightarrow>
         if 5 < config_size data then
           let colors = optional_colors data 5 (to_std_array 3 color_fromConfig) in
           if length colors \<noteq> 0 \<and> length colors \<noteq> length triangles then calls []
           else calls [CC_polyhedron_triangles eid triangles colors config]
         else calls [CC_polyhedron_triangles eid triangles [] config])"

definition handle_polyhedron_vertices_triangles :: "element_id \<Rightarrow> json \<Rightarrow> client_result" where
  "handle_polyhedron_vertices_triangles eid data =
     converted (at_as data 5 polyhedron_fromMessagePack) (\<lambda>config.
     case at_as data 3 (to_std_vector (to_vector 3)) of
       Inl _ \<Rightarrow> calls []
     | Inr vertices \<Rightarrow>
         (case at_as data 4 (to_std_vector (to_std_array 3 to_uint64)) of
            Inl _ \<Rightarrow> calls []
          | Inr indices \<Rightarrow>
              if 6 < config_size data then
                let colors = optional_colors data 6 color_fromConfig in
                if length colors \<noteq> 0 \<and> length colors \<noteq> length vertices then calls []
                else calls [CC_polyhedron_vertices eid vertices indices colors config]
              else calls [CC_polyhedron_vertices eid vertices indices [] config]))"

definition handle_force :: "client_env \<Rightarrow> element_id \<Rightarrow> json \<Rightarrow> client_result" where
  "handle_force env eid data =
     converted (at_as data 3 (to_spatial ''couple'' ''force'')) (\<lambda>f.
     converted (at_as data 4 (to_ptransform (ce_rotation env))) (\<lambda>surface.
     converted (at_as data 5 to_bool) (\<lambda>ro.
     converted (optional_config data 6 force_fromMessagePack force_default) (\<lambda>config.
       calls [label_or_input ro eid [''cx'', ''cy'', ''cz'', ''fx'', ''fy'', ''fz''] (fst f @ snd f),
              CC_force (sub_id eid ''_arrow'') eid f surface config ro]))))"

definition handle_arrow :: "element_id \<Rightarrow> json \<Rightarrow> client_result" where
  "handle_arrow eid data =
     converted (at_as data 3 (to_vector 3)) (\<lambda>arrow_start.
     converted (at_as data 4 (to_vector 3)) (\<lambda>arrow_end.
     converted (at_as data 5 to_bool) (\<lambda>ro.
     converted (optional_config data 6 arrow_fromMessagePack arrow_default) (\<lambda>config.
       calls [label_or_input ro eid [''tx_0'', ''ty_0'', ''tz_0'', ''tx_1'', ''ty_1'', ''tz_1''] (arrow_start @ arrow_end),
              CC_arrow (sub_id eid ''_arrow'') eid arrow_start arrow_end config ro]))))"

definition handle_rotation :: "client_env \<Rightarrow> element_id \<Rightarrow> json \<Rightarrow> client_result" where
  "handle_rotation env eid data =
     converted (at_as data 3 (to_ptransform (ce_rotation env))) (\<lambda>pos.
     converted (at_as data 4 to_bool) (\<lambda>ro.
       calls [label_or_input ro eid [''w'', ''x'', ''y'', ''z''] (matrix_quaternion (ce_rotation env) (fst pos)),
              CC_rotation (sub_id eid ''_rotation'') eid ro pos]))"

definition handle_transform :: "client_env \<Rightarrow> element_id \<Rightarrow> json \<Rightarrow> client_result" where
  "handle_transform env eid data =
     converted (at_as data 3 (to_ptransform (ce_rotation env))) (\<lambda>pos.
     converted (at_as data 4 to_bool) (\<lambda>ro.
       calls [label_or_input ro eid [''qw'', ''qx'', ''qy'', ''qz'', ''tx'', ''ty'', ''tz'']
                (matrix_quaternion (ce_rotation env) (fst pos) @ snd pos),
              CC_transform (sub_id eid ''_transform'') eid ro pos]))"

definition handle_xytheta :: "element_id \<Rightarrow> json \<Rightarrow> client_result" where
  "handle_xytheta eid data =
     converted (at_as data 3 to_vectorx) (\<lambda>vec.
     converted (at_as data 4 to_bool) (\<lambda>ro.
       if length vec < 3 then calls []
       else
         calls [label_or_input ro eid [''X'', ''Y'', ''Theta'', ''Altitude''] vec,
                CC_xytheta (sub_id eid ''_xytheta'') eid ro (take 3 vec) (if length vec = 4 then vec ! 3 else 0)]))"

text \<open>\<open>entry.at(i, entry[i].dump())\<close>\<close>

definition at_or_dump :: "client_env \<Rightarrow> json \<Rightarrow> nat \<Rightarrow> config_error + string" where
  "at_or_dump env entry i =
     conf_bind (config_index entry i) (\<lambda>v. Inr (config_at_or entry i to_string (ce_dump env v)))"

definition format_data :: "client_env \<Rightarrow> string list \<Rightarrow> json \<Rightarrow> nat \<Rightarrow> config_error + string" where
  "format_data env format entry i =
     (let f = (if i < length format then format ! i else ''{}'') in
      conf_bind (config_index entry i) (\<lambda>v.
      conf_bind (at_or_dump env entry i) (\<lambda>text.
        if IsString v then Inr (case ce_fmt_string env f text of Some out \<Rightarrow> out | None \<Rightarrow> text)
        else
          (case to_double v of
             Inr d \<Rightarrow> Inr (case ce_fmt_double env f d of Some out \<Rightarrow> out | None \<Rightarrow> text)
           | Inl _ \<Rightarrow> Inr (case ce_fmt_string env f (ce_dump env v) of Some out \<Rightarrow> out | None \<Rightarrow> text)))))"

definition handle_table :: "client_env \<Rightarrow> element_id \<Rightarrow> string list \<Rightarrow> string list \<Rightarrow> json list \<Rightarrow> client_result" where
  "handle_table env eid header format data =
     then_do (calls [CC_table_start eid header])
     (then_do
        (do_each (\<lambda>c.
           if config_size c = 0 then calls []
           else converted (convert_all (format_data env format c) [0..<config_size c]) (\<lambda>data_str. calls [CC_table_row eid data_str])) data)
        (calls [CC_table_end eid]))"

end
