(* ===== verification/Gui_Client_Forms.thy ===== *)
theory Gui_Client_Forms
  imports Gui_Client
begin

text \<open>
  \<open>ControllerClient::handle_form\<close>: the description of a form is read recursively; nested forms, lists and
  selectors are announced by a pair of calls around their content.
\<close>

section \<open>Forms\<close>

definition default_at :: "json \<Rightarrow> nat \<Rightarrow> (json \<Rightarrow> config_error + 'a) \<Rightarrow> 'a \<Rightarrow> config_error + 'a" where
  "default_at el i convert d = (if i < config_size el then at_as el i convert else Inr d)"

definition form_input_call :: "(string \<Rightarrow> bool \<Rightarrow> 'a \<Rightarrow> bool \<Rightarrow> client_call) \<Rightarrow> (json \<Rightarrow> config_error + 'a) \<Rightarrow> string \<Rightarrow> bool \<Rightarrow> json \<Rightarrow> client_result" where
  "form_input_call call convert name required el =
     converted (at_as el 3 convert) (\<lambda>x.
     converted (default_at el 4 to_bool True) (\<lambda>user_default. calls [call name required x user_default]))"

definition form_interactive_call :: "(string \<Rightarrow> bool \<Rightarrow> 'a \<Rightarrow> bool \<Rightarrow> bool \<Rightarrow> client_call) \<Rightarrow> (json \<Rightarrow> config_error + 'a) \<Rightarrow> string \<Rightarrow> bool \<Rightarrow> json \<Rightarrow> client_result" where
  "form_interactive_call call convert name required el =
     converted (at_as el 3 convert) (\<lambda>x.
     converted (at_as el 4 to_bool) (\<lambda>user_default.
     converted (at_as el 5 to_bool) (\<lambda>interactive. calls [call name required x user_default interactive])))"

definition to_pair :: "json \<Rightarrow> config_error + u64 \<times> json" where
  "to_pair v =
     (if config_size v = 2 then conf_bind (at_as v 0 to_uint64) (\<lambda>i. conf_bind (at_as v 1 Inr) (\<lambda>x. Inr (i, x)))
      else Inl (Wrong_type ''pair''))"


lemma size_array_element: "el \<in> set (array_elements v) \<Longrightarrow> size el < size v"
  by (cases v) (auto simp: array_elements_def less_Suc_eq_le intro: size_list_estimation')

lemma size_index: "config_index el i = Inr v \<Longrightarrow> size v < size el"
  by (rule size_array_element) (cases el; auto simp: config_index_def config_size_def array_elements_def split: if_splits)

text \<open>The number of entries of a description: nested descriptions are smaller.\<close>

function handle_form :: "client_env \<Rightarrow> element_id \<Rightarrow> json \<Rightarrow> client_result" where
  "handle_form env eid gui =
     do_each (\<lambda>el.
       converted (at_as el 0 to_string) (\<lambda>name.
       converted (at_as el 1 to_int32) (\<lambda>type.
       converted (at_as el 2 to_bool) (\<lambda>required.
       case element_of type of
         Some E_Checkbox \<Rightarrow> form_input_call (CC_form_checkbox eid) to_bool name required el
       | Some E_IntegerInput \<Rightarrow> form_input_call (CC_form_integer_input eid) to_int32 name required el
       | Some E_NumberInput \<Rightarrow> form_input_call (CC_form_number_input eid) to_double name required el
       | Some E_StringInput \<Rightarrow> form_input_call (CC_form_string_input eid) to_string name required el
       | Some E_ArrayInput \<Rightarrow>
           converted (default_at el 6 (to_std_vector to_string) []) (\<lambda>labels.
           converted (at_as el 3 to_vectorx) (\<lambda>x.
           converted (at_as el 4 to_bool) (\<lambda>fixed_size.
           converted (default_at el 5 to_bool True) (\<lambda>user_default.
             calls [CC_form_array_input eid name required labels x fixed_size user_default]))))
       | Some E_ComboInput \<Rightarrow>
           converted (at_as el 3 (to_std_vector to_string)) (\<lambda>values.
           converted (at_as el 4 to_bool) (\<lambda>send_index.
           converted (default_at el 5 to_int32 (- 1)) (\<lambda>def.
             calls [CC_form_combo_input eid name required values send_index def])))
       | Some E_DataComboInput \<Rightarrow>
           converted (at_as el 3 (to_std_vector to_string)) (\<lambda>ref.
           converted (at_as el 4 to_bool) (\<lambda>send_index. calls [CC_form_data_combo_input eid name required ref send_index]))
       | Some E_Point3D \<Rightarrow> form_interactive_call (CC_form_point3d_input eid) (to_vector 3) name required el
       | Some E_Rotation \<Rightarrow> form_interactive_call (CC_form_rotation_input eid) (to_ptransform (ce_rotation env)) name required el
       | Some E_Transform \<Rightarrow> form_interactive_call (CC_form_transform_input eid) (to_ptransform (ce_rotation env)) name required el
       | Some E_Form \<Rightarrow>
           then_do (calls [CC_start_form_object_input name required])
           (then_do (converted (config_index el 3) (\<lambda>sub. handle_form env eid sub)) (calls [CC_end_form_object_input]))
       | Some E_GenericArray \<Rightarrow>
           converted (config_index el 3) (\<lambda>sub.
             if config_size sub \<noteq> 1 then calls []
             else
               converted (at_as el 4 (\<lambda>d. Inr (if IsArray d then Some (array_elements d) else None))) (\<lambda>data.
               then_do (calls [CC_start_form_generic_array_input name required data])
               (then_do (handle_form env eid sub) (calls [CC_end_form_generic_array_input]))))
       | Some E_OneOf \<Rightarrow>
           converted (at_as el 3 (\<lambda>d. if IsArray d then conf_bind (to_pair d) (\<lambda>p. Inr (Some p)) else Inr None)) (\<lambda>data.
           then_do (calls [CC_start_form_one_of_input name required data])
           (then_do (converted (config_index el 4) (\<lambda>sub. handle_form env eid sub)) (calls [CC_end_form_one_of_input])))
       | _ \<Rightarrow> calls [])))) (array_elements gui)"
  by pat_completeness auto

termination
  by (relation "measure (\<lambda>(env, eid, gui). size gui)") (auto dest!: size_index size_array_element)

end
