(* ===== verification/Gui_Client_State.thy ===== *)
theory Gui_Client_State
  imports Gui_Client_Forms Config_Msgpack
begin

text \<open>
  \<open>ControllerClient\<close>: dispatching an element to its handler, walking through the categories, the plots,
  and the entry points that receive a message and send a request.
\<close>

section \<open>Elements and categories\<close>

definition handle_widget :: "client_env \<Rightarrow> element_id \<Rightarrow> json \<Rightarrow> client_result" where
  "handle_widget env eid data =
     converted (at_as data 1 to_int32) (\<lambda>type.
     caught (case element_of type of
       Some E_Label \<Rightarrow> converted (at_or_dump env data 3) (\<lambda>text. calls [CC_label eid text])
     | Some E_ArrayLabel \<Rightarrow>
         converted (at_as data 3 to_vectorx) (\<lambda>v. calls [CC_array_label eid (config_at_or data 4 (to_std_vector to_string) []) v])
     | Some E_Button \<Rightarrow> calls [CC_button eid]
     | Some E_Checkbox \<Rightarrow> converted (at_as data 3 to_bool) (\<lambda>b. calls [CC_checkbox eid b])
     | Some E_StringInput \<Rightarrow> converted (at_as data 3 to_string) (\<lambda>s. calls [CC_string_input eid s])
     | Some E_IntegerInput \<Rightarrow> converted (at_as data 3 to_int32) (\<lambda>i. calls [CC_integer_input eid i])
     | Some E_NumberInput \<Rightarrow> converted (at_as data 3 to_double) (\<lambda>d. calls [CC_number_input eid d])
     | Some E_NumberSlider \<Rightarrow>
         converted (at_as data 3 to_double) (\<lambda>d. converted (at_as data 4 to_double) (\<lambda>mn. converted (at_as data 5 to_double) (\<lambda>mx.
           calls [CC_number_slider eid d mn mx])))
     | Some E_ArrayInput \<Rightarrow>
         converted (at_as data 3 to_vectorx) (\<lambda>v. calls [CC_array_input eid (config_at_or data 4 (to_std_vector to_string) []) v])
     | Some E_ComboInput \<Rightarrow>
         converted (at_as data 4 (to_std_vector to_string)) (\<lambda>values. converted (at_as data 3 to_string) (\<lambda>s.
           calls [CC_combo_input eid values s]))
     | Some E_DataComboInput \<Rightarrow>
         converted (at_as data 4 (to_std_vector to_string)) (\<lambda>ref. converted (at_as data 3 to_string) (\<lambda>s.
           calls [CC_data_combo_input eid ref s]))
     | Some E_Point3D \<Rightarrow> handle_point3d eid data
     | Some E_Trajectory \<Rightarrow> handle_trajectory env eid data
     | Some E_Polygon \<Rightarrow> handle_polygon eid data
     | Some E_PolyhedronTrianglesList \<Rightarrow> handle_polyhedron_triangles_list eid data
     | Some E_PolyhedronVerticesTriangles \<Rightarrow> handle_polyhedron_vertices_triangles eid data
     | Some E_Force \<Rightarrow> handle_force env eid data
     | Some E_Arrow \<Rightarrow> handle_arrow eid data
     | Some E_Rotation \<Rightarrow> handle_rotation env eid data
     | Some E_Transform \<Rightarrow> handle_transform env eid data
     | Some E_Schema \<Rightarrow> converted (at_as data 3 to_string) (\<lambda>s. calls [CC_schema eid s])
     | Some E_Form \<Rightarrow> then_do (calls [CC_form eid]) (converted (config_index data 3) (\<lambda>gui. handle_form env eid gui))
     | Some E_XYTheta \<Rightarrow> handle_xytheta eid data
     | Some E_Table \<Rightarrow>
         handle_table env eid (config_at_or data 3 (to_std_vector to_string) []) (config_at_or data 5 (to_std_vector to_string) [])
           (config_at_or data 4 (to_std_vector Inr) [])
     | Some E_Robot \<Rightarrow>
         converted (at_as data 3 (to_std_vector to_string)) (\<lambda>parameters.
         converted (at_as data 4 (to_std_vector (to_std_vector to_double))) (\<lambda>q.
         converted (at_as data 5 (to_ptransform (ce_rotation env))) (\<lambda>posW. calls [CC_robot eid parameters q posW])))
     | Some E_RobotMsg \<Rightarrow>
         converted (at_as data 3 (to_std_vector to_string)) (\<lambda>parameters.
         converted (at_as data 4 to_vectorx) (\<lambda>q. converted (at_as data 5 to_vectorx) (\<lambda>alpha.
         converted (at_as data 6 to_vectorx) (\<lambda>alphaD. converted (at_as data 7 to_vectorx) (\<lambda>tau.
         converted (at_as data 8 (to_std_vector (to_spatial ''couple'' ''force''))) (\<lambda>forces.
         converted (at_as data 9 (to_ptransform (ce_rotation env))) (\<lambda>posW.
           calls [CC_robot_msg eid \<lparr>rm_parameters = parameters, rm_q = q, rm_alpha = alpha, rm_alphaD = alphaD, rm_tau = tau,
                    rm_forces = forces, rm_posW = posW\<rparr>])))))))
     | Some E_Visual \<Rightarrow>
         converted (at_as data 4 (\<lambda>p. if config_size p = 3 then conf_bind (to_vector 3 p) (\<lambda>pos. Inr (identity3, pos))
                                    else to_ptransform (ce_rotation env) p)) (\<lambda>pose.
         converted (at_as data 3 (ce_visual env)) (\<lambda>visual. calls [CC_visual eid visual pose]))
     | _ \<Rightarrow> calls []))"

definition handle_entry :: "client_env \<Rightarrow> string list \<Rightarrow> json \<Rightarrow> client_result" where
  "handle_entry env category data =
     converted (at_as data 0 to_string) (\<lambda>name.
       handle_widget env \<lparr>eid_category = category, eid_name = name, eid_sid = config_at_or data 2 (\<lambda>v. conf_bind (to_int32 v) (\<lambda>i. Inr (sint i))) (- 1)\<rparr> data)"

text \<open>The first entry of a category is its name, the last one its sub-categories.\<close>

function handle_category :: "client_env \<Rightarrow> string list \<Rightarrow> string \<Rightarrow> json \<Rightarrow> client_result" where
  "handle_category env parent category data =
     (if config_size data < 2 then calls []
      else
        let vs = array_elements data; next_category = (if category = [] then parent else parent @ [category]) in
        then_do (calls (if category = [] then [] else [CC_category parent category]))
        (then_do (do_each (handle_entry env next_category) (butlast (tl vs)))
           (do_each (\<lambda>c. converted (at_as c 0 to_string) (\<lambda>name. handle_category env next_category name c)) (array_elements (last vs)))))"
  by pat_completeness auto
termination
proof (relation "measure (\<lambda>(env, parent, category, data). size data)")
  fix env parent category data vs next_category c name
  assume "\<not> config_size data < 2" and vs: "vs = array_elements data" and c: "c \<in> set (array_elements (last vs))"
  then have "last vs \<in> set vs"
    by (intro last_in_set) (auto simp: config_size_def array_elements_def split: json.splits)
  then have "size (last vs) < size data"
    unfolding vs by (rule size_array_element)
  with size_array_element [OF c]
  show "((env, next_category, name, c), (env, parent, category, data)) \<in> measure (\<lambda>(env, parent, category, data). size data)"
    by simp
qed simp

section \<open>Plots\<close>

text \<open>
  The index \<open>x_0 + j\<close> is computed modulo \<open>2^64\<close> from the difference of the two sizes.
\<close>

definition plot_x :: "u64 list \<Rightarrow> u64 list \<Rightarrow> nat \<Rightarrow> nat" where
  "plot_x xs ys j = unat (of_nat (length ys) - of_nat (length xs) + of_nat j :: u64)"

definition curve_points :: "u64 \<Rightarrow> nat \<Rightarrow> string \<Rightarrow> u64 list \<Rightarrow> u64 list \<Rightarrow> gui_color \<Rightarrow> plot_style \<Rightarrow> plot_side \<Rightarrow> client_result" where
  "curve_points uid did legend xs ys color style side =
     do_each (\<lambda>j.
       if plot_x xs ys j < length xs then calls [CC_plot_point uid did legend (xs ! plot_x xs ys j) (ys ! j) color style side]
       else ([], Some Client_undefined)) [0..<length ys]"

definition handle_curve :: "plot_kind \<Rightarrow> u64 list \<Rightarrow> u64 \<Rightarrow> nat \<Rightarrow> json \<Rightarrow> client_result" where
  "handle_curve kind xs uid did y =
     converted (at_as y 0 to_uint64) (\<lambda>type.
       if type = plot_type_code PT_Ordinate \<and> kind = Plot_Standard then
         converted (at_as y 1 to_string) (\<lambda>legend. converted (at_as y 2 (to_std_vector to_double)) (\<lambda>ys.
         converted (at_as y 3 color_fromMessagePack) (\<lambda>color. converted (at_as y 4 to_uint64) (\<lambda>style.
         converted (at_as y 5 to_uint64) (\<lambda>side. curve_points uid did legend xs ys color style side)))))
       else if type = plot_type_code PT_AbscissaOrdinate then
         converted (at_as y 1 to_string) (\<lambda>legend. converted (at_as y 2 (to_std_vector (to_std_array 2 to_double))) (\<lambda>ps.
         converted (at_as y 3 color_fromMessagePack) (\<lambda>color. converted (at_as y 4 to_uint64) (\<lambda>style.
         converted (at_as y 5 to_uint64) (\<lambda>side.
           calls (map (\<lambda>p. CC_plot_point uid did legend (p ! 0) (p ! 1) color style side) ps))))))
       else if type = plot_type_code PT_Polygon then
         converted (at_as y 1 to_string) (\<lambda>legend. converted (at_as y 2 polygon_fromMessagePack) (\<lambda>p.
         converted (at_as y 3 to_uint64) (\<lambda>side. calls [CC_plot_polygon uid did legend p side])))
       else if type = plot_type_code PT_Polygons then
         converted (at_as y 1 to_string) (\<lambda>legend.
         converted (at_as y 2 (\<lambda>v. convert_all polygon_fromMessagePack (array_elements v))) (\<lambda>ps.
         converted (at_as y 3 to_uint64) (\<lambda>side. calls [CC_plot_polygons uid did legend ps side])))
       else calls [])"

definition handle_curves :: "plot_kind \<Rightarrow> u64 list \<Rightarrow> u64 \<Rightarrow> json \<Rightarrow> client_result" where
  "handle_curves kind xs uid plot =
     do_each (\<lambda>i. converted (config_index plot i) (handle_curve kind xs uid (i - 6))) [6..<config_size plot]"

definition setup_yaxes :: "u64 \<Rightarrow> json \<Rightarrow> client_result" where
  "setup_yaxes uid plot =
     converted (at_as plot 4 axis_fromMessagePack) (\<lambda>y1.
     then_do (calls [CC_plot_setup_yaxis_left uid (axis_name y1) (axis_range y1)])
     (converted (at_as plot 5 axis_fromMessagePack) (\<lambda>y2.
       calls [CC_plot_setup_yaxis_right uid (axis_name y2) (axis_range y2)])))"

definition handle_standard_plot :: "json \<Rightarrow> client_result" where
  "handle_standard_plot plot =
     converted (at_as plot 1 to_uint64) (\<lambda>uid. converted (at_as plot 2 to_string) (\<lambda>title.
     then_do (calls [CC_start_plot uid title])
     (converted (at_as plot 3 (\<lambda>d. conf_bind (at_as d 0 axis_fromMessagePack) (\<lambda>c. conf_bind (at_as d 1 (to_std_vector to_double)) (\<lambda>v. Inr (c, v))))) (\<lambda>(x, xs).
     then_do (calls [CC_plot_setup_xaxis uid (axis_name x) (axis_range x)])
     (then_do (setup_yaxes uid plot) (then_do (handle_curves Plot_Standard xs uid plot) (calls [CC_end_plot uid])))))))"

definition handle_xy_plot :: "json \<Rightarrow> client_result" where
  "handle_xy_plot plot =
     converted (at_as plot 1 to_uint64) (\<lambda>uid. converted (at_as plot 2 to_string) (\<lambda>title.
     then_do (calls [CC_start_plot uid title])
     (converted (at_as plot 3 axis_fromMessagePack) (\<lambda>x.
     then_do (calls [CC_plot_setup_xaxis uid (axis_name x) (axis_range x)])
     (then_do (setup_yaxes uid plot) (then_do (handle_curves Plot_XY [] uid plot) (calls [CC_end_plot uid])))))))"

definition handle_plot :: "json \<Rightarrow> client_result" where
  "handle_plot plot =
     converted (at_as plot 0 to_uint64) (\<lambda>type.
       if type = plot_kind_code Plot_Standard then handle_standard_plot plot
       else if type = plot_kind_code Plot_XY then handle_xy_plot plot
       else calls [])"

section \<open>Messages\<close>

record client =
  cl_run :: bool
  cl_data :: json

text \<open>The static data is kept, also when what follows throws.\<close>

definition handle_gui_state :: "client_env \<Rightarrow> json \<Rightarrow> client \<Rightarrow> client \<times> client_result" where
  "handle_gui_state env state cl =
     (if config_size state = 0 then
        (cl, then_do (calls [CC_started]) (then_do (handle_category env [] [] (J_object [])) (calls [CC_stopped])))
      else
        case at_as state 0 to_int32 of
          Inl err \<Rightarrow> (cl, ([CC_started], Some (Client_config err)))
        | Inr version \<Rightarrow>
            if 4 < sint version then
              (cl, then_do (calls [CC_started]) (then_do (handle_category env [] [] (J_object [])) (calls [CC_stopped])))
            else
              case config_index state 1 of
                Inl err \<Rightarrow> (cl, ([CC_started], Some (Client_config err)))
              | Inr data \<Rightarrow>
                  (cl\<lparr>cl_data := data\<rparr>,
                   then_do (calls [CC_started])
                   (then_do (converted (config_index state 2) (\<lambda>c. handle_category env [] [] c))
                   (then_do
                      (if 3 < config_size state then
                         converted (config_index state 3) (\<lambda>plots. do_each handle_plot (array_elements plots))
                       else calls [])
                      (calls [CC_stopped])))))"

text \<open>
  \<open>run(buffer, bufferSize)\<close>. \<open>None\<close>: the fuel of the MessagePack reader ran out.
\<close>

definition client_run :: "client_env \<Rightarrow> tree_env \<Rightarrow> nat \<Rightarrow> u8 list \<Rightarrow> client \<Rightarrow> (client \<times> client_result) option" where
  "client_run env tenv fuel buffer cl =
     (if cl_run cl then
        (case config_fromMessagePack tenv fuel buffer of
           None \<Rightarrow> None
         | Some (Inl err) \<Rightarrow> Some (cl, ([], Some (Client_config err)))
         | Some (Inr state) \<Rightarrow> Some (handle_gui_state env state cl))
      else Some (cl, calls []))"

text \<open>\<open>raw_request\<close>: the request before it is dumped as text.\<close>

definition raw_request :: "element_id \<Rightarrow> json \<Rightarrow> config_error + json" where
  "raw_request eid data =
     add_each [config_add_config ''category'' (J_array (map J_string (eid_category eid))), config_add ''name'' (J_string (eid_name eid)),
       config_add_config ''data'' data]"

end
