(* ===== verification/Gui_State.thy ===== *)
theory Gui_State
  imports Gui_Widgets Gui_Plot
begin

text \<open>
  \<open>mc_rtc::gui::StateBuilder\<close> (\<open>gui/StateBuilder.h\<close>, \<open>.hpp\<close>, \<open>.cpp\<close>): a tree of categories that hold elements,
  static data and plots. A reference to a category is its path; an operation through the reference is
  a function applied at the path. Plots are in a hash table: the list of plots is in the order in which
  the table is iterated.
\<close>

section \<open>Categories\<close>

datatype stacking = Vertical | Horizontal

text \<open>\<open>ElementStore\<close>: the element with its name and stacking id, how it is stacked, and its source.\<close>

record 's element_store =
  es_name :: string
  es_id :: int
  es_widget :: "'s widget"
  es_stacking :: stacking
  es_source :: "nat option"

datatype 's category =
  Category (cat_name: string) (cat_elements: "'s element_store list") (cat_sub: "'s category list") (cat_id: int)

fun set_elements :: "'s element_store list \<Rightarrow> 's category \<Rightarrow> 's category" where
  "set_elements els (Category n _ sub i) = Category n els sub i"

fun set_sub :: "'s category list \<Rightarrow> 's category \<Rightarrow> 's category" where
  "set_sub sub (Category n els _ i) = Category n els sub i"

fun category_size :: "'s category \<Rightarrow> nat" where
  "category_size (Category n els sub i) = sum_list (map category_size sub) + length els"

text \<open>\<open>Category::find\<close>: the first sub-category of that name.\<close>

definition category_find :: "string \<Rightarrow> 's category \<Rightarrow> 's category option" where
  "category_find name c = find (\<lambda>s. cat_name s = name) (cat_sub c)"

fun update_named :: "string \<Rightarrow> ('s category \<Rightarrow> 's category) \<Rightarrow> 's category list \<Rightarrow> 's category list" where
  "update_named name f [] = []"
| "update_named name f (c # cs) = (if cat_name c = name then f c # cs else c # update_named name f cs)"

fun erase_named :: "string \<Rightarrow> 's category list \<Rightarrow> 's category list" where
  "erase_named name [] = []"
| "erase_named name (c # cs) = (if cat_name c = name then cs else c # erase_named name cs)"

fun getCategory_from :: "string list \<Rightarrow> 's category \<Rightarrow> 's category option" where
  "getCategory_from [] c = Some c"
| "getCategory_from (n # path) c = (case category_find n c of None \<Rightarrow> None | Some s \<Rightarrow> getCategory_from path s)"

definition getCategory :: "'s category \<Rightarrow> string list \<Rightarrow> nat \<Rightarrow> 's category option" where
  "getCategory root category depth = getCategory_from (take (min depth (length category)) category) root"

text \<open>Changing the category that a path of existing categories leads to.\<close>

fun at_category :: "string list \<Rightarrow> ('s category \<Rightarrow> 's category) \<Rightarrow> 's category \<Rightarrow> 's category" where
  "at_category [] f c = f c"
| "at_category (n # path) f c = set_sub (update_named n (at_category path f) (cat_sub c)) c"

text \<open>\<open>getOrCreateCategory\<close>, and what is then done with the category it returns.\<close>

fun getOrCreateCategory :: "string list \<Rightarrow> ('s category \<Rightarrow> 's category) \<Rightarrow> 's category \<Rightarrow> 's category" where
  "getOrCreateCategory [] f c = f c"
| "getOrCreateCategory (n # path) f c =
     (case category_find n c of
        None \<Rightarrow> set_sub (cat_sub c @ [getOrCreateCategory path f (Category n [] [] 0)]) c
      | Some s \<Rightarrow> set_sub (update_named n (getOrCreateCategory path f) (cat_sub c)) c)"

definition category_empty :: "'s category \<Rightarrow> bool" where
  "category_empty c \<longleftrightarrow> cat_elements c = [] \<and> cat_sub c = []"

section \<open>Adding and removing\<close>

definition find_element :: "string \<Rightarrow> 's category \<Rightarrow> 's element_store option" where
  "find_element name c = find (\<lambda>el. es_name el = name) (cat_elements c)"

definition addElementImpl :: "nat option \<Rightarrow> string list \<Rightarrow> stacking \<Rightarrow> string \<times> 's widget \<Rightarrow> nat \<Rightarrow> 's category \<Rightarrow> 's category" where
  "addElementImpl source category stacking el rem root =
     getOrCreateCategory category (\<lambda>cat.
       if find_element (fst el) cat \<noteq> None then cat
       else
         let store = \<lparr>es_name = fst el, es_id = cat_id cat, es_widget = snd el, es_stacking = stacking, es_source = source\<rparr> in
         Category (cat_name cat) (cat_elements cat @ [store]) (cat_sub cat) (if rem = 0 then cat_id cat + 1 else cat_id cat)) root"

text \<open>The variadic \<open>addElement\<close>: \<open>rem\<close> counts the elements still to come on the same line.\<close>

fun addElement :: "nat option \<Rightarrow> string list \<Rightarrow> stacking \<Rightarrow> (string \<times> 's widget) list \<Rightarrow> 's category \<Rightarrow> 's category" where
  "addElement source category stacking [] root = root"
| "addElement source category stacking (el # args) root =
     addElement source category stacking args
       (addElementImpl source category stacking el (if stacking = Vertical then 0 else length args) root)"

definition hasElement :: "'s category \<Rightarrow> string list \<Rightarrow> string \<Rightarrow> bool" where
  "hasElement root category name =
     (case getCategory root category (length category) of None \<Rightarrow> False | Some cat \<Rightarrow> find_element name cat \<noteq> None)"

fun remove_category_from :: "string list \<Rightarrow> nat \<Rightarrow> 's category \<Rightarrow> 's category" where
  "remove_category_from category depth root =
     (case getCategory root category depth of
        None \<Rightarrow> root
      | Some cat \<Rightarrow>
          if category_find (category ! depth) cat = None then root
          else
            let sub = erase_named (category ! depth) (cat_sub cat);
                root = at_category (take depth category) (set_sub sub) root in
            case depth of
              0 \<Rightarrow> root
            | Suc d \<Rightarrow> if cat_elements cat = [] \<and> sub = [] then remove_category_from category d root else root)"

definition removeCategory :: "string list \<Rightarrow> 's category \<Rightarrow> 's category" where
  "removeCategory category root = (if category = [] then root else remove_category_from category (length category - 1) root)"

fun erase_element :: "string \<Rightarrow> 's element_store list \<Rightarrow> 's element_store list" where
  "erase_element name [] = []"
| "erase_element name (el # els) = (if es_name el = name then els else el # erase_element name els)"

definition removeElement :: "string list \<Rightarrow> string \<Rightarrow> 's category \<Rightarrow> 's category" where
  "removeElement category name root =
     (case getCategory root category (length category) of
        None \<Rightarrow> root
      | Some cat \<Rightarrow>
          let els = erase_element name (cat_elements cat); root = at_category category (set_elements els) root in
          if els = [] \<and> cat_sub cat = [] then removeCategory category root else root)"

definition not_from :: "nat \<Rightarrow> 's element_store \<Rightarrow> bool" where
  "not_from source el \<longleftrightarrow> es_source el \<noteq> Some source"

fun remove_source :: "nat \<Rightarrow> 's category \<Rightarrow> 's category" where
  "remove_source source (Category n els sub i) =
     Category n (filter (not_from source) els) (filter (\<lambda>c. \<not> category_empty c) (map (remove_source source) sub)) i"

definition removeElements :: "string list \<Rightarrow> nat option \<Rightarrow> bool \<Rightarrow> 's category \<Rightarrow> 's category" where
  "removeElements category source recurse root =
     (case source of
        None \<Rightarrow> root
      | Some src \<Rightarrow>
          (case getCategory root category (length category) of
             None \<Rightarrow> root
           | Some cat \<Rightarrow>
               let cat' = (if recurse then remove_source src cat else set_elements (filter (not_from src) (cat_elements cat)) cat);
                   root = at_category category (\<lambda>_. cat') root in
               if category_empty cat' then removeCategory category root else root))"

definition removeElements_all :: "nat option \<Rightarrow> 's category \<Rightarrow> 's category" where
  "removeElements_all source root = (case source of None \<Rightarrow> root | Some src \<Rightarrow> remove_source src root)"

section \<open>The builder\<close>

record 's state_builder =
  sb_data :: json
  plot_id :: u64
  sb_plots :: "(string \<times> 's plot_callback) list"
  update_data :: bool
  data_buffer :: "u8 list"
  data_buffer_size :: nat
  sb_elements :: "'s category"

definition state_builder_new :: "'s state_builder" where
  "state_builder_new =
     \<lparr>sb_data = J_object [], plot_id = 0, sb_plots = [], update_data = True, data_buffer = [], data_buffer_size = 0,
      sb_elements = Category [] [] [] 0\<rparr>"

definition gui_reset :: "'s state_builder \<Rightarrow> 's state_builder" where
  "gui_reset sb = sb\<lparr>sb_elements := set_sub [] (set_elements [] (sb_elements sb))\<rparr>"

text \<open>\<open>data()\<close> gives a handle; what the caller then stores through it is a later step.\<close>

definition gui_data_access :: "'s state_builder \<Rightarrow> 's state_builder" where
  "gui_data_access sb = sb\<lparr>update_data := True\<rparr>"

definition gui_size :: "'s state_builder \<Rightarrow> nat" where
  "gui_size sb = category_size (sb_elements sb)"

definition add_plot :: "string \<Rightarrow> 's plot_axes \<Rightarrow> 's plot_data list \<Rightarrow> 's state_builder \<Rightarrow> 's state_builder" where
  "add_plot name axes curves sb =
     (if map_of (sb_plots sb) name \<noteq> None then sb
      else
        let uid = plot_id sb + 1;
            p = plot_add_data curves \<lparr>plot_msg_size = 6, plot_uid = uid, plot_axes = axes, plot_curves = []\<rparr> in
        sb\<lparr>plot_id := uid, sb_plots := sb_plots sb @ [(name, p)]\<rparr>)"

definition addXYPlot :: "string \<Rightarrow> axis_config \<Rightarrow> axis_config \<Rightarrow> axis_config \<Rightarrow> 's plot_data list \<Rightarrow> 's state_builder \<Rightarrow> 's state_builder" where
  "addXYPlot name xConfig yLeftConfig yRightConfig args sb = add_plot name (Axes_XY xConfig yLeftConfig yRightConfig) args sb"

definition addPlot :: "string \<Rightarrow> 's abscissa \<Rightarrow> axis_config \<Rightarrow> axis_config \<Rightarrow> 's plot_data list \<Rightarrow> 's state_builder \<Rightarrow> 's state_builder" where
  "addPlot name abscissa yLeftConfig yRightConfig args sb = add_plot name (Axes_Standard abscissa yLeftConfig yRightConfig) args sb"

definition addPlotData :: "string \<Rightarrow> 's plot_data \<Rightarrow> 's state_builder \<Rightarrow> 's state_builder \<times> bool" where
  "addPlotData name d sb =
     (case map_of (sb_plots sb) name of
        None \<Rightarrow> (sb, False)
      | Some p \<Rightarrow>
          if plot_type_kind p = Plot_XY \<and> \<not> is_2d d then (sb, False)
          else (sb\<lparr>sb_plots := alist_put name (plot_add_data [d] p) (sb_plots sb)\<rparr>, True))"

definition removePlot :: "string \<Rightarrow> 's state_builder \<Rightarrow> 's state_builder" where
  "removePlot name sb = sb\<lparr>sb_plots := filter (\<lambda>(n, p). n \<noteq> name) (sb_plots sb)\<rparr>"

section \<open>The message\<close>

definition PROTOCOL_VERSION :: u8 where
  "PROTOCOL_VERSION = 4"

text \<open>\<open>ElementStore::write\<close>: an element that is not stacked horizontally has no stacking id.\<close>

definition element_write :: "'s \<Rightarrow> 's element_store \<Rightarrow> builder_call" where
  "element_write s el =
     builder_array (widget_write_size (es_widget el))
       ([builder_write_str (es_name el), write_int (element_code (widget_type (es_widget el))),
         if es_stacking el = Vertical then builder_write_nil else write_int (of_int (es_id el))] @
        widget_write s (es_widget el))"

fun update_category :: "'s \<Rightarrow> 's category \<Rightarrow> builder_call" where
  "update_category s (Category name els sub i) =
     builder_array (1 + length els + 1)
       ([builder_write_str name] @ map (element_write s) els @ [builder_array (length sub) (map (update_category s) sub)])"

definition refresh_data :: "'s state_builder \<Rightarrow> 's state_builder" where
  "refresh_data sb =
     (if update_data sb then
        let (buf, n) = config_toMessagePack (sb_data sb) (data_buffer sb) in
        sb\<lparr>data_buffer := buf, data_buffer_size := n, update_data := False\<rparr>
      else sb)"

definition plots_write :: "'s \<Rightarrow> (string \<times> 's plot_callback) list \<Rightarrow> builder_call" where
  "plots_write s ps = builder_array (length ps) (map (\<lambda>(name, p). snd (plot_write s name p)) ps)"

definition gui_write :: "'s \<Rightarrow> 's state_builder \<Rightarrow> builder_call" where
  "gui_write s sb =
     builder_array 4 [\<lambda>w. builder_write_i8 w PROTOCOL_VERSION,
       \<lambda>w. builder_write_object w (take (data_buffer_size sb) (data_buffer sb)),
       update_category s (sb_elements sb), plots_write s (sb_plots sb)]"

definition gui_update :: "'s \<Rightarrow> 's state_builder \<Rightarrow> u8 list \<Rightarrow> 's state_builder \<times> u8 list \<times> nat" where
  "gui_update s sb buffer =
     (let sb = refresh_data sb; (w, n) = builder_finish (gui_write s sb (builder_new buffer)) in
      (sb\<lparr>sb_plots := map (\<lambda>(name, p). (name, fst (plot_write s name p))) (sb_plots sb)\<rparr>, w_buffer w, n))"

text \<open>\<open>update()\<close>, between two messages: the plots only.\<close>

definition gui_step :: "'s \<Rightarrow> 's state_builder \<Rightarrow> 's state_builder" where
  "gui_step s sb = sb\<lparr>sb_plots := map (\<lambda>(name, p). (name, plot_step s p)) (sb_plots sb)\<rparr>"

section \<open>Requests\<close>

definition gui_handleRequest :: "rotation_functions \<Rightarrow> 's state_builder \<Rightarrow> string list \<Rightarrow> string \<Rightarrow> json \<Rightarrow> 's \<Rightarrow> 's \<times> bool" where
  "gui_handleRequest rf sb category name data s =
     (case getCategory (sb_elements sb) category (length category) of
        None \<Rightarrow> (s, False)
      | Some cat \<Rightarrow>
          (case find_element name cat of
             None \<Rightarrow> (s, False)
           | Some el \<Rightarrow>
               (case widget_handleRequest rf (es_widget el) data s of
                  (s, Inl err) \<Rightarrow> (s, False)
                | (s, Inr ok) \<Rightarrow> (s, ok))))"

end
