(* ===== verification/Gui_Server.thy ===== *)
theory Gui_Server
  imports Gui_Client_State Gui_State
begin

text \<open>
  \<open>ControllerServer\<close>: publishing the state of the interface at the rate of the server, and handling the
  requests of the clients, those pushed by a replay first and then those received from the network.
  Text is read and written by RapidJSON; its parser (\<open>load\<close>) and its writer (\<open>dump\<close>) are parameters.
\<close>

section \<open>Requests\<close>

record gui_request =
  rq_category :: "string list"
  rq_name :: string
  rq_data :: json

record server =
  sv_iter :: u32
  sv_rate :: u32
  sv_buffer :: "u8 list"
  sv_buffer_size :: nat
  sv_logger :: "logger option"
  sv_requests :: "gui_request list"

definition push_requests :: "gui_request list \<Rightarrow> server \<Rightarrow> server" where
  "push_requests rs sv = sv\<lparr>sv_requests := sv_requests sv @ rs\<rparr>"

text \<open>A request is handled, then logged whether it succeeded or not.\<close>

definition handle_request :: "rotation_functions \<Rightarrow> 's state_builder \<Rightarrow> gui_request \<Rightarrow> server \<times> 's \<Rightarrow> server \<times> 's" where
  "handle_request rf sb r =
     (\<lambda>(sv, s).
        let (s, ok) = gui_handleRequest rf sb (rq_category r) (rq_name r) (rq_data r) s in
        (sv\<lparr>sv_logger := map_option (addGUIEvent (rq_category r) (rq_name r) (rq_data r)) (sv_logger sv)\<rparr>, s))"

text \<open>\<open>Configuration::fromData\<close>: a text that does not parse leaves the empty object of a new configuration.\<close>

definition fromData :: "(string \<Rightarrow> json option) \<Rightarrow> string \<Rightarrow> json" where
  "fromData load data = (case load data of Some v \<Rightarrow> v | None \<Rightarrow> J_object [])"

definition request_of :: "json \<Rightarrow> gui_request" where
  "request_of config =
     \<lparr>rq_category = config_or config ''category'' (to_std_vector to_string) [], rq_name = config_or config ''name'' to_string [],
      rq_data = config_or config ''data'' Inr (J_object [])\<rparr>"

definition handle_raw_request ::
  "rotation_functions \<Rightarrow> (string \<Rightarrow> json option) \<Rightarrow> 's state_builder \<Rightarrow> string \<Rightarrow> server \<times> 's \<Rightarrow> server \<times> 's" where
  "handle_raw_request rf load sb dataIn st = handle_request rf sb (request_of (fromData load dataIn)) st"

text \<open>
  The messages that the pull socket holds, in order. A message is used as a C string: one without a
  terminating NUL is read past its end, which the model marks by \<open>False\<close>.
\<close>

fun receive_requests ::
  "rotation_functions \<Rightarrow> (string \<Rightarrow> json option) \<Rightarrow> 's state_builder \<Rightarrow> string list \<Rightarrow> server \<times> 's \<Rightarrow> (server \<times> 's) \<times> bool" where
  "receive_requests rf load sb [] st = (st, True)"
| "receive_requests rf load sb (m # ms) st =
     (if CHR 0x00 \<in> set m then receive_requests rf load sb ms (handle_raw_request rf load sb (c_str m) st) else (st, False))"

definition handle_requests ::
  "rotation_functions \<Rightarrow> (string \<Rightarrow> json option) \<Rightarrow> 's state_builder \<Rightarrow> string list \<Rightarrow> server \<times> 's \<Rightarrow> (server \<times> 's) \<times> bool" where
  "handle_requests rf load sb inbox st =
     (let (sv, s) = fold (handle_request rf sb) (sv_requests (fst st)) st in
      receive_requests rf load sb inbox (sv\<lparr>sv_requests := []\<rparr>, s))"

section \<open>Publishing\<close>

text \<open>
  One iteration; \<open>None\<close> is the division by a rate of zero. The last component is the message that is sent.
\<close>

definition publish :: "'s \<Rightarrow> server \<times> 's state_builder \<Rightarrow> ((server \<times> 's state_builder) \<times> u8 list option) option" where
  "publish s =
     (\<lambda>(sv, sb).
        if sv_rate sv = 0 then None
        else if sv_iter sv mod sv_rate sv = 0 then
          let (sb, buf, n) = gui_update s sb (sv_buffer sv) in
          Some ((sv\<lparr>sv_iter := sv_iter sv + 1, sv_buffer := buf, sv_buffer_size := n\<rparr>, sb), Some (take n buf))
        else Some ((sv\<lparr>sv_iter := sv_iter sv + 1, sv_buffer_size := 0\<rparr>, gui_step s sb), None))"

definition server_data :: "server \<Rightarrow> u8 list \<times> nat" where
  "server_data sv = (sv_buffer sv, sv_buffer_size sv)"

section \<open>A client in the same process\<close>

text \<open>The buffer of the client doubles until the message fits.\<close>

function fit_size :: "nat \<Rightarrow> nat \<Rightarrow> nat" where
  "fit_size nsize s = (if 0 < nsize \<and> nsize < s then fit_size (2 * nsize) s else nsize)"
  by pat_completeness auto
termination
  by (relation "measure (\<lambda>(nsize, s). s - nsize)") auto

definition resize_to_fit :: "u8 list \<Rightarrow> nat \<Rightarrow> u8 list" where
  "resize_to_fit buff s =
     (if s \<le> length buff then buff
      else
        let nsize = fit_size (if length buff = 0 then 65535 else 2 * length buff) s in
        buff @ replicate (nsize - length buff) 0)"

definition client_poll ::
  "client_env \<Rightarrow> tree_env \<Rightarrow> nat \<Rightarrow> server \<Rightarrow> u8 list \<Rightarrow> client \<Rightarrow> (u8 list \<times> client \<times> client_result) option" where
  "client_poll env tenv fuel sv buff cl =
     (let (data, n) = server_data sv in
      if n = 0 then Some (buff, cl, calls [])
      else
        let buff = take n data @ drop n (resize_to_fit buff n) in
        map_option (\<lambda>(cl, r). (buff, cl, r)) (client_run env tenv fuel (take n buff) cl))"

text \<open>
  \<open>send_request\<close>: the text that is pushed to the network, with its NUL, and handled at once by a server in
  the same process. Building the request cannot fail.
\<close>

definition request_text :: "(json \<Rightarrow> string) \<Rightarrow> element_id \<Rightarrow> json \<Rightarrow> string" where
  "request_text dump eid data = (case raw_request eid data of Inl err \<Rightarrow> [] | Inr request \<Rightarrow> dump request)"

definition send_request ::
  "rotation_functions \<Rightarrow> (string \<Rightarrow> json option) \<Rightarrow> (json \<Rightarrow> string) \<Rightarrow> 's state_builder \<Rightarrow> element_id \<Rightarrow> json \<Rightarrow> server \<times> 's \<Rightarrow>
   (server \<times> 's) \<times> string" where
  "send_request rf load dump sb eid data st =
     (let out = request_text dump eid data in (handle_raw_request rf load sb (c_str out) st, out @ [CHR 0x00]))"

end
