(* ===== verification/Gui_Tree.thy ===== *)
theory Gui_Tree
  imports Gui_State "HOL-Library.Sublist"
begin

text \<open>
  The tree of categories as what a user of the builder sees: a map from a category and a name to an
  element. Every operation is a change of that map, and it keeps the tree well formed: names are unique
  in their category and no category below the root is empty.
\<close>

section \<open>The contract\<close>

text \<open>
  What the rest of the system relies on. \<open>place\<close> is the element that adding a widget stores, which
  depends on the tree through the stacking id only.
\<close>

locale element_tree =
  fixes inv :: "'t \<Rightarrow> bool"
    and look :: "'t \<Rightarrow> string list \<Rightarrow> string \<Rightarrow> 'e option"
    and ins :: "string list \<Rightarrow> string \<Rightarrow> 'w \<Rightarrow> 't \<Rightarrow> 't"
    and place :: "'t \<Rightarrow> string list \<Rightarrow> string \<Rightarrow> 'w \<Rightarrow> 'e"
    and del :: "string list \<Rightarrow> string \<Rightarrow> 't \<Rightarrow> 't"
    and del_below :: "string list \<Rightarrow> 't \<Rightarrow> 't"
  assumes inv_ins: "inv t \<Longrightarrow> inv (ins p n w t)"
    and inv_del: "inv t \<Longrightarrow> inv (del p n t)"
    and inv_del_below: "inv t \<Longrightarrow> inv (del_below p t)"
    and look_ins: "inv t \<Longrightarrow>
      look (ins p n w t) q m = (if q = p \<and> m = n \<and> look t p n = None then Some (place t p n w) else look t q m)"
    and look_del: "inv t \<Longrightarrow> look (del p n t) q m = (if q = p \<and> m = n then None else look t q m)"
    and look_del_below: "inv t \<Longrightarrow> p \<noteq> [] \<Longrightarrow> look (del_below p t) q m = (if prefix p q then None else look t q m)"
begin

lemma del_ins: "inv t \<Longrightarrow> look t p n = None \<Longrightarrow> look (del p n (ins p n w t)) q m = look t q m"
  by (simp add: look_del look_ins inv_ins)

lemma ins_twice: "inv t \<Longrightarrow> look (ins p n w' (ins p n w t)) q m = look (ins p n w t) q m"
  by (simp add: look_ins inv_ins)

lemma del_below_ins: "inv t \<Longrightarrow> p \<noteq> [] \<Longrightarrow> look (del_below p (ins (p @ r) n w t)) q m = look (del_below p t) q m"
  by (auto simp: look_del_below look_ins inv_ins)

end

section \<open>Lists of categories\<close>

lemma set_sub_sel [simp]:
  "cat_name (set_sub sub c) = cat_name c" "cat_elements (set_sub sub c) = cat_elements c" "cat_sub (set_sub sub c) = sub"
  "cat_id (set_sub sub c) = cat_id c"
  by (cases c; simp)+

lemma set_elements_sel [simp]:
  "cat_name (set_elements els c) = cat_name c" "cat_elements (set_elements els c) = els" "cat_sub (set_elements els c) = cat_sub c"
  "cat_id (set_elements els c) = cat_id c"
  by (cases c; simp)+

lemma set_sub_twice [simp]: "set_sub sub (set_sub sub' c) = set_sub sub c"
  by (cases c) simp

lemma find_append: "find P (xs @ ys) = (case find P xs of None \<Rightarrow> find P ys | Some x \<Rightarrow> Some x)"
  by (induction xs) auto

lemma find_SomeD: "find P xs = Some x \<Longrightarrow> x \<in> set xs \<and> P x"
  by (induction xs) (auto split: if_splits)

lemma find_update_named:
  assumes "\<And>c. cat_name (f c) = cat_name c"
  shows "find (\<lambda>s. cat_name s = m) (update_named n f cs) =
    (if m = n then map_option f (find (\<lambda>s. cat_name s = n) cs) else find (\<lambda>s. cat_name s = m) cs)"
  by (induction cs) (auto simp: assms)

lemma names_update_named: "(\<And>c. cat_name (f c) = cat_name c) \<Longrightarrow> map cat_name (update_named n f cs) = map cat_name cs"
  by (induction cs) auto

lemma find_named: "find (\<lambda>s. cat_name s = n) cs = Some c \<Longrightarrow> c \<in> set cs \<and> cat_name c = n"
  by (induction cs) (auto split: if_splits)

lemma find_named_None: "find (\<lambda>s. cat_name s = n) cs = None \<longleftrightarrow> n \<notin> cat_name ` set cs"
  by (induction cs) auto

lemma update_named_found:
  "find (\<lambda>s. cat_name s = n) cs = Some c \<Longrightarrow> update_named n f cs = update_named n (\<lambda>_. f c) cs"
  by (induction cs) (auto split: if_splits)

lemma update_named_missing: "find (\<lambda>s. cat_name s = n) cs = None \<Longrightarrow> update_named n f cs = cs"
  by (induction cs) (auto split: if_splits)

lemma update_named_twice:
  "(\<And>c. cat_name (f c) = cat_name c) \<Longrightarrow> update_named n g (update_named n f cs) = update_named n (\<lambda>c. g (f c)) cs"
  by (induction cs) auto

lemma erase_update_named: "(\<And>c. cat_name (f c) = cat_name c) \<Longrightarrow> erase_named n (update_named n f cs) = erase_named n cs"
  by (induction cs) auto

lemma erase_named_filter: "distinct (map cat_name cs) \<Longrightarrow> erase_named n cs = filter (\<lambda>c. cat_name c \<noteq> n) cs"
  by (induction cs) (auto simp: image_iff intro!: filter_True [symmetric])

lemma find_erase_named:
  "distinct (map cat_name cs) \<Longrightarrow>
   find (\<lambda>s. cat_name s = m) (erase_named n cs) = (if m = n then None else find (\<lambda>s. cat_name s = m) cs)"
  by (induction cs) (auto simp: find_named_None image_iff)

lemma update_named_nonempty: "update_named n f cs = [] \<longleftrightarrow> cs = []"
  by (cases cs) auto

lemma set_update_named: "set (update_named n f cs) \<subseteq> set cs \<union> f ` {c \<in> set cs. cat_name c = n}"
  by (induction cs) auto

lemma set_erase_named: "set (erase_named n cs) \<subseteq> set cs"
  by (induction cs) auto

section \<open>Paths\<close>

lemma category_find_set_sub [simp]: "category_find n (set_sub cs c) = find (\<lambda>s. cat_name s = n) cs"
  by (simp add: category_find_def)

lemma at_category_name [simp]: "(\<And>c. cat_name (f c) = cat_name c) \<Longrightarrow> cat_name (at_category p f c) = cat_name c"
  by (cases p) simp_all

lemma get_or_create_name [simp]: "(\<And>c. cat_name (f c) = cat_name c) \<Longrightarrow> cat_name (getOrCreateCategory p f c) = cat_name c"
  by (cases p) (simp_all split: option.split)

lemma getCategory_simp: "getCategory root p (length p) = getCategory_from p root"
  by (simp add: getCategory_def)

lemma get_at_category:
  assumes "\<And>c. cat_name (f c) = cat_name c"
  shows "getCategory_from p (at_category p f c) = map_option f (getCategory_from p c)"
  by (induction p arbitrary: c) (auto simp: find_update_named assms category_find_def split: option.split)

text \<open>Reading an element: \<open>hasElement\<close> and \<open>handleRequest\<close> find it this way.\<close>

definition find_in :: "'s category \<Rightarrow> string list \<Rightarrow> string \<Rightarrow> 's element_store option" where
  "find_in root p name = (case getCategory_from p root of None \<Rightarrow> None | Some c \<Rightarrow> find_element name c)"

lemma find_in_Nil: "find_in c [] m = find_element m c"
  by (simp add: find_in_def)

lemma find_in_Cons:
  "find_in c (n # p) m = (case category_find n c of None \<Rightarrow> None | Some s \<Rightarrow> find_in s p m)"
  by (simp add: find_in_def split: option.split)

lemma hasElement_find_in: "hasElement root p name \<longleftrightarrow> find_in root p name \<noteq> None"
  by (simp add: hasElement_def find_in_def getCategory_simp split: option.split)

lemma find_element_cong [simp]: "find_element m (set_sub cs c) = find_element m c"
  by (simp add: find_element_def)

lemma find_element_sub: "cat_elements c = cat_elements c' \<Longrightarrow> find_element m c = find_element m c'"
  by (simp add: find_element_def)

section \<open>Well-formed trees\<close>

fun category_wf :: "'s category \<Rightarrow> bool" where
  "category_wf (Category n els sub i) \<longleftrightarrow>
     distinct (map es_name els) \<and> distinct (map cat_name sub) \<and> list_all (\<lambda>s. \<not> category_empty s \<and> category_wf s) sub"

lemma category_wf_iff:
  "category_wf c \<longleftrightarrow> distinct (map es_name (cat_elements c)) \<and> distinct (map cat_name (cat_sub c)) \<and>
     (\<forall>s \<in> set (cat_sub c). \<not> category_empty s \<and> category_wf s)"
  by (cases c) (simp add: list_all_iff)

lemma category_wf_find: "category_wf c \<Longrightarrow> category_find n c = Some s \<Longrightarrow> category_wf s \<and> \<not> category_empty s \<and> cat_name s = n"
  using find_named unfolding category_find_def category_wf_iff [of c] by blast

lemma category_wf_get: "category_wf c \<Longrightarrow> getCategory_from p c = Some d \<Longrightarrow> category_wf d"
  by (induction p arbitrary: c) (auto dest: category_wf_find split: option.splits)

lemma category_wf_set_sub:
  assumes "category_wf c" "distinct (map cat_name cs)" "\<And>s. s \<in> set cs \<Longrightarrow> \<not> category_empty s \<and> category_wf s"
  shows "category_wf (set_sub cs c)"
  using assms by (simp add: category_wf_iff [of c] category_wf_iff [of "set_sub cs c"])

lemma category_wf_update:
  assumes "category_wf c" "\<And>c. cat_name (f c) = cat_name c"
    and "\<And>s. category_find n c = Some s \<Longrightarrow> \<not> category_empty (f s) \<and> category_wf (f s)"
  shows "category_wf (set_sub (update_named n f (cat_sub c)) c)"
proof (cases "category_find n c")
  case None
  then have "update_named n f (cat_sub c) = cat_sub c"
    unfolding category_find_def by (rule update_named_missing)
  with assms(1) show ?thesis by (cases c) simp
next
  case (Some s)
  then have "update_named n f (cat_sub c) = update_named n (\<lambda>_. f s) (cat_sub c)"
    unfolding category_find_def by (rule update_named_found)
  then have "set (update_named n f (cat_sub c)) \<subseteq> insert (f s) (set (cat_sub c))"
    using set_update_named [of n "\<lambda>_. f s" "cat_sub c"] by auto
  with assms Some show ?thesis
    by (intro category_wf_set_sub) (auto simp: names_update_named category_wf_iff [of c])
qed


section \<open>Adding\<close>

definition category_at :: "string list \<Rightarrow> 's category \<Rightarrow> 's category" where
  "category_at p c = (case getCategory_from p c of Some d \<Rightarrow> d | None \<Rightarrow> Category (last p) [] [] 0)"

lemma category_at_new: "category_at p (Category n [] [] 0) = Category (last (n # p)) [] [] 0"
  by (cases p) (simp_all add: category_at_def category_find_def)

lemma find_in_new: "find_in (Category n [] [] i) p m = None"
  by (cases p) (simp_all add: find_in_def find_element_def category_find_def)

lemma find_in_get_or_create:
  assumes "\<And>c. cat_name (f c) = cat_name c" "\<And>c. cat_sub (f c) = cat_sub c"
  shows "find_in (getOrCreateCategory p f c) q m = (if q = p then find_element m (f (category_at p c)) else find_in c q m)"
proof (induction p arbitrary: c q)
  case Nil
  then show ?case
    by (cases q) (simp_all add: find_in_Nil find_in_Cons category_at_def category_find_def assms)
next
  case (Cons n p)
  show ?case
  proof (cases q)
    case Nil
    then show ?thesis by (simp add: find_in_Nil split: option.split)
  next
    case q: (Cons k q')
    show ?thesis
    proof (cases "category_find n c")
      case None
      then have "category_at (n # p) c = category_at p (Category n [] [] 0)"
        by (simp add: category_at_new) (simp add: category_at_def)
      with None q Cons [of "Category n [] [] 0" q'] assms(1) show ?thesis
        by (auto simp: find_in_Cons category_find_def find_in_new find_append split: option.split)
    next
      case (Some s)
      then have "category_at (n # p) c = category_at p s"
        by (cases p) (auto simp: category_at_def split: option.split)
      with Some q Cons [of s q'] assms(1) show ?thesis
        by (auto simp: find_in_Cons category_find_def find_update_named split: option.split)
    qed
  qed
qed


lemma get_or_create_nonempty: "(\<And>c. cat_elements (f c) \<noteq> []) \<Longrightarrow> \<not> category_empty (getOrCreateCategory p f c)"
  by (cases p) (auto simp: category_empty_def category_find_def update_named_nonempty split: option.split)

lemma category_wf_get_or_create:
  assumes f: "\<And>c. cat_name (f c) = cat_name c" "\<And>c. category_wf c \<Longrightarrow> category_wf (f c)" "\<And>c. cat_elements (f c) \<noteq> []"
  shows "category_wf c \<Longrightarrow> category_wf (getOrCreateCategory p f c)"
proof (induction p arbitrary: c)
  case (Cons n p)
  show ?case
  proof (cases "category_find n c")
    case None
    moreover have "category_wf (getOrCreateCategory p f (Category n [] [] 0))"
      by (rule Cons.IH) simp
    moreover have "n \<notin> cat_name ` set (cat_sub c)"
      using None by (simp add: category_find_def find_named_None)
    ultimately show ?thesis
      using Cons.prems get_or_create_nonempty [of f, OF f(3)] f(1)
      by (auto simp: category_wf_iff [of c] intro!: category_wf_set_sub)
  next
    case (Some s)
    then show ?thesis
      using Cons get_or_create_nonempty [of f, OF f(3)] f(1) category_wf_find [OF Cons.prems]
      by (auto intro!: category_wf_update)
  qed
qed (simp add: f)

text \<open>The element that \<open>addElementImpl\<close> stores.\<close>

definition placed :: "nat option \<Rightarrow> stacking \<Rightarrow> 's category \<Rightarrow> string list \<Rightarrow> string \<Rightarrow> 's widget \<Rightarrow> 's element_store" where
  "placed source stacking root p name w =
     \<lparr>es_name = name, es_id = cat_id (category_at p root), es_widget = w, es_stacking = stacking, es_source = source\<rparr>"

lemma find_in_at: "find_in c p m = find_element m (category_at p c)"
  by (simp add: find_in_def category_at_def find_element_def split: option.split)

lemma find_in_add:
  "find_in (addElementImpl source p stacking (n, w) rem root) q m =
     (if q = p \<and> m = n \<and> find_in root p n = None then Some (placed source stacking root p n w) else find_in root q m)"
  unfolding addElementImpl_def
  by (subst find_in_get_or_create)
    (auto simp: Let_def find_in_at placed_def find_element_def find_append split: option.split)

lemma category_wf_add:
  assumes "category_wf root"
  shows "category_wf (addElementImpl source p stacking el rem root)"
  unfolding addElementImpl_def
proof (rule category_wf_get_or_create [OF _ _ _ assms])
  fix c :: "'a category"
  let ?f = "\<lambda>cat. if find_element (fst el) cat \<noteq> None then cat
       else let store = \<lparr>es_name = fst el, es_id = cat_id cat, es_widget = snd el, es_stacking = stacking, es_source = source\<rparr> in
         Category (cat_name cat) (cat_elements cat @ [store]) (cat_sub cat) (if rem = 0 then cat_id cat + 1 else cat_id cat)"
  show "cat_name (?f c) = cat_name c" by (simp add: Let_def)
  show "cat_elements (?f c) \<noteq> []" by (auto simp: Let_def find_element_def)
  show "category_wf (?f c)" if "category_wf c"
    using that by (auto simp: Let_def category_wf_iff [of c] list_all_iff find_element_def find_None_iff)
qed


section \<open>Removing a category\<close>

text \<open>
  The loop of \<open>removeCategory\<close> walks from the category towards the root as long as it leaves an empty
  category behind. The same by recursion on the path:
\<close>

fun prune :: "string list \<Rightarrow> 's category \<Rightarrow> 's category" where
  "prune [] c = c"
| "prune (n # p) c =
     (case category_find n c of
        None \<Rightarrow> c
      | Some s \<Rightarrow>
          if p = [] \<or> category_empty (prune p s) then set_sub (erase_named n (cat_sub c)) c
          else set_sub (update_named n (\<lambda>_. prune p s) (cat_sub c)) c)"

declare remove_category_from.simps [simp del]

lemma get_append: "getCategory_from (p @ q) c = (case getCategory_from p c of None \<Rightarrow> None | Some d \<Rightarrow> getCategory_from q d)"
  by (induction p arbitrary: c) (auto split: option.split)

lemma get_take_Suc:
  assumes "d < length p" "getCategory_from (take (Suc d) p) c \<noteq> None"
  obtains cat where "getCategory_from (take d p) c = Some cat" "category_find (p ! d) cat \<noteq> None"
  using assms by (auto simp: take_Suc_conv_app_nth get_append split: option.splits)

lemma remove_found:
  assumes "d < length p" "getCategory_from (take d p) c = Some cat" "category_find (p ! d) cat \<noteq> None"
  shows "remove_category_from p d c =
    (let sub = erase_named (p ! d) (cat_sub cat); c' = at_category (take d p) (set_sub sub) c in
     case d of 0 \<Rightarrow> c' | Suc d' \<Rightarrow> if cat_elements cat = [] \<and> sub = [] then remove_category_from p d' c' else c')"
  using assms by (subst remove_category_from.simps) (auto simp: getCategory_def min_def Let_def)

lemma update_named_const:
  assumes "cat_name s1 = n"
  shows "erase_named n (update_named n (\<lambda>_. s1) cs) = erase_named n cs"
    "update_named n f (update_named n (\<lambda>_. s1) cs) = update_named n (\<lambda>_. f s1) cs"
    "find (\<lambda>s. cat_name s = m) (update_named n (\<lambda>_. s1) cs) =
      (if m = n then map_option (\<lambda>_. s1) (find (\<lambda>s. cat_name s = n) cs) else find (\<lambda>s. cat_name s = m) cs)"
  using assms by (induction cs) auto

definition put_child :: "string \<Rightarrow> 's category \<Rightarrow> 's category \<Rightarrow> 's category" where
  "put_child n s c =
     (if category_empty s then set_sub (erase_named n (cat_sub c)) c else set_sub (update_named n (\<lambda>_. s) (cat_sub c)) c)"

lemma put_child_update:
  "cat_name s1 = n \<Longrightarrow> put_child n s (set_sub (update_named n (\<lambda>_. s1) (cat_sub c)) c) = put_child n s c"
  by (simp add: put_child_def update_named_const)


lemma at_category_found:
  "category_find n c = Some s \<Longrightarrow> at_category (n # p) f c = set_sub (update_named n (\<lambda>_. at_category p f s) (cat_sub c)) c"
  unfolding category_find_def using update_named_found by fastforce

lemma at_category_sub_nonempty:
  "p \<noteq> [] \<Longrightarrow> getCategory_from p c \<noteq> None \<Longrightarrow> \<not> category_empty (at_category p f c)"
  by (cases p) (auto simp: category_empty_def category_find_def update_named_nonempty split: option.splits)

lemma remove_in_child:
  assumes "category_find n c = Some s" "d < length p" "getCategory_from (take (Suc d) p) s \<noteq> None"
  shows "remove_category_from (n # p) (Suc d) c = put_child n (remove_category_from p d s) c"
  using assms
proof (induction d arbitrary: c s)
  case 0
  obtain cat where cat: "getCategory_from (take 0 p) s = Some cat" "category_find (p ! 0) cat \<noteq> None"
    using get_take_Suc [OF 0(2,3)] by auto
  let ?sub = "erase_named (p ! 0) (cat_sub s)"
  let ?s1 = "set_sub ?sub s"
  let ?c1 = "set_sub (update_named n (\<lambda>_. ?s1) (cat_sub c)) c"
  have n: "cat_name s = n"
    using 0(1) find_named unfolding category_find_def by blast
  have "remove_category_from p 0 s = ?s1"
    using remove_found [OF 0(2) cat] cat by (simp add: Let_def)
  moreover have "category_find n ?c1 \<noteq> None"
    using 0(1) n by (simp add: category_find_def update_named_const)
  then have "remove_category_from (n # p) 0 ?c1 = set_sub (erase_named n (cat_sub c)) c"
    using remove_found [of 0 "n # p" ?c1 ?c1] n by (simp add: Let_def update_named_const)
  ultimately show ?case
    using remove_found [of "Suc 0" "n # p" c s] 0 cat n at_category_found [OF 0(1), of "[]"]
    by (auto simp: Let_def put_child_def category_empty_def)
next
  case (Suc d)
  obtain cat where cat: "getCategory_from (take (Suc d) p) s = Some cat" "category_find (p ! Suc d) cat \<noteq> None"
    using get_take_Suc [OF Suc.prems(2,3)] by auto
  define sub where "sub = erase_named (p ! Suc d) (cat_sub cat)"
  define s1 where "s1 = at_category (take (Suc d) p) (set_sub sub) s"
  define c1 where "c1 = set_sub (update_named n (\<lambda>_. s1) (cat_sub c)) c"
  have n: "cat_name s1 = n" "category_find n c1 = Some s1"
    using Suc.prems(1) find_named [of n "cat_sub c" s] by (simp_all add: category_find_def s1_def c1_def update_named_const)
  have "remove_category_from (n # p) (Suc (Suc d)) c =
      (if cat_elements cat = [] \<and> sub = [] then remove_category_from (n # p) (Suc d) c1 else c1)"
    using remove_found [of "Suc (Suc d)" "n # p" c cat] Suc.prems cat at_category_found [OF Suc.prems(1), of "take (Suc d) p"]
    by (simp add: Let_def sub_def s1_def c1_def)
  moreover have "remove_category_from p (Suc d) s = (if cat_elements cat = [] \<and> sub = [] then remove_category_from p d s1 else s1)"
    using remove_found [OF Suc.prems(2) cat] by (simp add: Let_def sub_def s1_def)
  moreover have "remove_category_from (n # p) (Suc d) c1 = put_child n (remove_category_from p d s1) c1"
    using Suc.prems(2) n(2) cat(1) by (intro Suc.IH) (simp_all add: s1_def get_at_category)
  moreover have "\<not> category_empty s1"
    using Suc.prems(2) cat(1) unfolding s1_def by (intro at_category_sub_nonempty) auto
  ultimately show ?case
    using put_child_update [OF n(1), of _ c] by (simp add: put_child_def c1_def)
qed


lemma removeCategory_prune:
  assumes "getCategory_from p root \<noteq> None" "p \<noteq> []"
  shows "removeCategory p root = prune p root"
  using assms
proof (induction p arbitrary: root)
  case (Cons n p)
  then obtain s where s: "category_find n root = Some s" "getCategory_from p s \<noteq> None"
    by (auto split: option.splits)
  show ?case
  proof (cases p)
    case Nil
    then show ?thesis
      using s remove_found [of 0 "[n]" root root] by (auto simp: removeCategory_def Let_def)
  next
    case (Cons k q)
    then have "removeCategory (n # p) root = put_child n (removeCategory p s) root"
      using s remove_in_child [OF s(1), of "length q" p] by (simp add: removeCategory_def)
    then show ?thesis
      using s Cons Cons.IH [of s] by (simp add: put_child_def)
  qed
qed simp

lemma removeCategory_missing:
  assumes "getCategory_from p root = None"
  shows "removeCategory p root = root"
proof (cases p rule: rev_cases)
  case (snoc q n)
  then have "case getCategory_from q root of None \<Rightarrow> True | Some cat \<Rightarrow> category_find n cat = None"
    using assms by (auto simp: get_append split: option.splits)
  then have "remove_category_from (q @ [n]) (length q) root = root"
    by (subst remove_category_from.simps) (auto simp: getCategory_def split: option.splits)
  with snoc show ?thesis by (simp add: removeCategory_def)
qed (use assms in simp)

section \<open>What the operations do to the map\<close>

lemma find_in_append: "getCategory_from p c = Some d \<Longrightarrow> find_in c (p @ r) m = find_in d r m"
  by (simp add: find_in_def get_append)

lemma find_in_missing: "getCategory_from p c = None \<Longrightarrow> prefix p q \<Longrightarrow> find_in c q m = None"
  by (auto simp: prefix_def find_in_def get_append)

lemma find_in_empty: "category_empty c \<Longrightarrow> find_in c q m = None"
  by (cases q) (simp_all add: category_empty_def find_in_Nil find_in_Cons find_element_def category_find_def)

lemma find_in_at_category:
  assumes "\<And>c. cat_name (f c) = cat_name c" "getCategory_from p c = Some d"
  shows "find_in (at_category p f c) q m = (if prefix p q then find_in (f d) (drop (length p) q) m else find_in c q m)"
  using assms(2)
proof (induction p arbitrary: c q)
  case (Cons n p)
  then obtain s where s: "category_find n c = Some s" "getCategory_from p s = Some d"
    by (auto split: option.splits)
  then show ?case
    using Cons.IH [OF s(2)] assms(1)
    by (cases q) (auto simp: find_in_Nil find_in_Cons category_find_def find_update_named)
qed simp

lemma category_wf_at:
  assumes "\<And>c. cat_name (f c) = cat_name c" "getCategory_from p c = Some d" "category_wf c" "category_wf (f d)"
    and "p = [] \<or> \<not> category_empty (f d)"
  shows "category_wf (at_category p f c)"
  using assms(2,3,5)
proof (induction p arbitrary: c)
  case (Cons n p)
  then obtain s where s: "category_find n c = Some s" "getCategory_from p s = Some d"
    by (auto split: option.splits)
  have "\<not> category_empty (at_category p f s)"
    using Cons.prems(3) s(2) at_category_sub_nonempty [of p s f] by (cases p) auto
  moreover have "category_wf (at_category p f s)"
    using Cons s category_wf_find [OF Cons.prems(2) s(1)] by auto
  ultimately show ?case
    using Cons.prems(2) s(1) assms(1) by (auto intro!: category_wf_update)
qed (simp add: assms)

lemma prune_name [simp]: "cat_name (prune p c) = cat_name c"
  by (cases p) (auto split: option.split)

lemma category_wf_prune: "category_wf c \<Longrightarrow> category_wf (prune p c)"
proof (induction p arbitrary: c)
  case (Cons n p)
  show ?case
  proof (cases "category_find n c")
    case (Some s)
    have subs: "distinct (map cat_name (cat_sub c))" "\<And>s. s \<in> set (cat_sub c) \<Longrightarrow> \<not> category_empty s \<and> category_wf s"
      using Cons.prems unfolding category_wf_iff [of c] by blast+
    then have "distinct (map cat_name (erase_named n (cat_sub c)))"
      by (simp add: erase_named_filter distinct_map_filter)
    then have "category_wf (set_sub (erase_named n (cat_sub c)) c)"
      using Cons.prems subs(2) set_erase_named [of n "cat_sub c"] by (intro category_wf_set_sub) blast+
    moreover have "category_wf (set_sub (update_named n (\<lambda>_. prune p s) (cat_sub c)) c)" if "\<not> category_empty (prune p s)"
    proof -
      have "update_named n (\<lambda>_. prune p s) (cat_sub c) = update_named n (prune p) (cat_sub c)"
        using Some update_named_found [of n "cat_sub c" s "prune p"] by (simp add: category_find_def)
      then show ?thesis
        using Cons.prems that Some Cons.IH category_wf_find [OF Cons.prems Some]
        by (simp only:) (rule category_wf_update, simp_all)
    qed
    ultimately show ?thesis using Some by simp
  qed (use Cons in simp)
qed simp

lemma find_in_prune:
  assumes "category_wf c" "p \<noteq> []"
  shows "find_in (prune p c) q m = (if prefix p q then None else find_in c q m)"
  using assms
proof (induction p arbitrary: c q)
  case (Cons n p)
  have d: "distinct (map cat_name (cat_sub c))"
    using Cons.prems by (simp add: category_wf_iff [of c])
  show ?case
  proof (cases q)
    case Nil
    then show ?thesis by (auto simp: find_in_Nil split: option.split)
  next
    case q: (Cons k q')
    show ?thesis
    proof (cases "category_find n c")
      case None
      then show ?thesis by (auto simp: q find_in_Cons)
    next
      case (Some s)
      then have "category_wf s" "cat_name (prune p s) = n"
        using category_wf_find [OF Cons.prems(1) Some] by simp_all
      then show ?thesis
        using Some d q Cons.IH [of s q'] find_in_empty [of "prune p s" q' m]
        by (cases "p = []") (auto simp: find_in_Cons category_find_def find_erase_named update_named_const split: option.split)
    qed
  qed
qed simp


lemma prune_at_category:
  assumes "\<And>c. cat_name (f c) = cat_name c"
  shows "p \<noteq> [] \<Longrightarrow> prune p (at_category p f c) = prune p c"
proof (induction p arbitrary: c)
  case (Cons n p)
  show ?case
  proof (cases "category_find n c")
    case None
    then have "at_category (n # p) f c = c"
      using update_named_missing [of n "cat_sub c"] by (cases c) (simp add: category_find_def)
    then show ?thesis by simp
  next
    case (Some s)
    then have "category_find n (at_category (n # p) f c) = Some (at_category p f s)"
      using assms by (simp add: category_find_def find_update_named)
    moreover have "erase_named n (cat_sub (at_category (n # p) f c)) = erase_named n (cat_sub c)"
      "update_named n (\<lambda>_. x) (cat_sub (at_category (n # p) f c)) = update_named n (\<lambda>_. x) (cat_sub c)" for x
      using assms by (simp_all add: erase_update_named update_named_twice)
    ultimately show ?thesis
      using Some Cons.IH [of s] by (cases "p = []") simp_all
  qed
qed simp

text \<open>Elements of a category.\<close>

lemma find_erase_element:
  "distinct (map es_name els) \<Longrightarrow>
   find (\<lambda>el. es_name el = m) (erase_element n els) = (if m = n then None else find (\<lambda>el. es_name el = m) els)"
  by (induction els) (auto simp: find_None_iff image_iff)

lemma distinct_erase_element: "distinct (map es_name els) \<Longrightarrow> distinct (map es_name (erase_element n els))"
proof (induction els)
  case (Cons el els)
  moreover have "set (erase_element n els) \<subseteq> set els" by (induction els) auto
  ultimately show ?case by auto
qed simp

lemma category_wf_set_elements: "category_wf c \<Longrightarrow> distinct (map es_name els) \<Longrightarrow> category_wf (set_elements els c)"
  by (cases c) simp

lemma category_empty_set_elements: "category_empty (set_elements els c) \<longleftrightarrow> els = [] \<and> cat_sub c = []"
  by (simp add: category_empty_def)

text \<open>
  Replacing the category at a path, and removing it when the replacement is empty: the end of
  \<open>removeElement\<close> and of \<open>removeElements\<close>.
\<close>

definition replace_or_prune :: "string list \<Rightarrow> 's category \<Rightarrow> 's category \<Rightarrow> 's category" where
  "replace_or_prune p d root =
     (if category_empty d then removeCategory p (at_category p (\<lambda>_. d) root) else at_category p (\<lambda>_. d) root)"

lemma at_category_const:
  "getCategory_from p c = Some d \<Longrightarrow> at_category p f c = at_category p (\<lambda>_. f d) c"
proof (induction p arbitrary: c)
  case (Cons n p)
  then obtain s where "category_find n c = Some s" "getCategory_from p s = Some d"
    by (auto split: option.splits)
  with Cons.IH [of s] show ?case
    using at_category_found [of n c s p f] at_category_found [of n c s p "\<lambda>_. f d"] by (simp del: at_category.simps)
qed simp

lemma replace_or_prune:
  assumes wf: "category_wf root" and d: "getCategory_from p root = Some d" and d': "category_wf d'" "cat_name d' = cat_name d"
  shows "category_wf (replace_or_prune p d' root)"
    "find_in (replace_or_prune p d' root) q m = (if prefix p q then find_in d' (drop (length p) q) m else find_in root q m)"
proof -
  define f where "f x = (if x = d then d' else x)" for x
  have f: "\<And>c. cat_name (f c) = cat_name c" "f d = d'"
    using d'(2) by (simp_all add: f_def)
  have at: "at_category p (\<lambda>_. d') root = at_category p f root"
    using at_category_const [OF d, of f] f(2) by simp
  have get: "getCategory_from p (at_category p f root) = Some d'"
    using d f by (simp add: get_at_category)
  have prune: "removeCategory p (at_category p f root) = prune p root" if "p \<noteq> []"
    using that removeCategory_prune [of p "at_category p f root"] get prune_at_category [OF f(1)] by simp
  have emp: "category_empty d' \<Longrightarrow> find_in d' q' m = None" for q' m
    by (rule find_in_empty)
  show "category_wf (replace_or_prune p d' root)"
  proof (cases "category_empty d' \<and> p \<noteq> []")
    case True
    then show ?thesis using wf by (simp add: replace_or_prune_def at prune category_wf_prune)
  next
    case False
    then have "category_wf (at_category p f root)"
      using category_wf_at [OF f(1) d wf] d'(1) f(2) by auto
    with False d'(1) show ?thesis by (auto simp: replace_or_prune_def at removeCategory_def)
  qed
  show "find_in (replace_or_prune p d' root) q m = (if prefix p q then find_in d' (drop (length p) q) m else find_in root q m)"
  proof (cases "category_empty d' \<and> p \<noteq> []")
    case True
    then show ?thesis using wf emp by (simp add: replace_or_prune_def at prune find_in_prune)
  next
    case False
    then have "replace_or_prune p d' root = at_category p f root"
      using d f(2) by (auto simp: replace_or_prune_def at removeCategory_def)
    then show ?thesis using find_in_at_category [OF f(1) d] f(2) by simp
  qed
qed

lemma removeElement_eq:
  "removeElement p n root =
     (case getCategory_from p root of
        None \<Rightarrow> root
      | Some d \<Rightarrow> replace_or_prune p (set_elements (erase_element n (cat_elements d)) d) root)"
proof (cases "getCategory_from p root")
  case (Some d)
  then show ?thesis
    using at_category_const [OF Some, of "set_elements (erase_element n (cat_elements d))"]
    by (auto simp: removeElement_def replace_or_prune_def getCategory_simp Let_def category_empty_set_elements)
qed (simp add: removeElement_def getCategory_simp)

lemma find_in_removeElement:
  assumes "category_wf root"
  shows "category_wf (removeElement p n root)"
    "find_in (removeElement p n root) q m = (if q = p \<and> m = n then None else find_in root q m)"
proof -
  have "category_wf (removeElement p n root) \<and>
    find_in (removeElement p n root) q m = (if q = p \<and> m = n then None else find_in root q m)"
  proof (cases "getCategory_from p root")
    case None
    then show ?thesis using assms by (simp add: removeElement_eq find_in_def)
  next
    case (Some d)
    let ?d = "set_elements (erase_element n (cat_elements d)) d"
    have "category_wf d" using category_wf_get [OF assms Some] .
    then have dist: "distinct (map es_name (cat_elements d))" by (simp add: category_wf_iff [of d])
    then have wf: "category_wf ?d" "cat_name ?d = cat_name d"
      using \<open>category_wf d\<close> by (simp_all add: category_wf_set_elements distinct_erase_element)
    have "find_in ?d r m = (if r = [] \<and> m = n then None else find_in d r m)" for r
      using dist by (cases r) (auto simp: find_in_Nil find_in_Cons find_element_def find_erase_element category_find_def)
    then have "find_in ?d (drop (length p) q) m = (if q = p \<and> m = n then None else find_in root q m)" if "prefix p q"
      using that find_in_append [OF Some] by (auto elim!: prefixE)
    then show ?thesis
      using replace_or_prune [OF assms Some wf] by (auto simp: removeElement_eq Some)
  qed
  then show "category_wf (removeElement p n root)"
    "find_in (removeElement p n root) q m = (if q = p \<and> m = n then None else find_in root q m)"
    by blast+
qed


text \<open>Elements of a source.\<close>

definition keep :: "nat \<Rightarrow> 's element_store option \<Rightarrow> 's element_store option" where
  "keep src e = (case e of Some el \<Rightarrow> if not_from src el then Some el else None | None \<Rightarrow> None)"

lemma find_filter_elements:
  "distinct (map es_name els) \<Longrightarrow>
   find (\<lambda>el. es_name el = m) (filter (not_from src) els) = keep src (find (\<lambda>el. es_name el = m) els)"
  by (induction els) (auto simp: keep_def find_None_iff image_iff split: option.split dest!: find_SomeD)

lemma remove_source_sel [simp]:
  "cat_name (remove_source src c) = cat_name c"
  "cat_elements (remove_source src c) = filter (not_from src) (cat_elements c)"
  "cat_sub (remove_source src c) = filter (\<lambda>c. \<not> category_empty c) (map (remove_source src) (cat_sub c))"
  by (cases c; simp)+

lemma find_remove_source:
  assumes "distinct (map cat_name cs)"
  shows "find (\<lambda>s. cat_name s = n) (filter (\<lambda>c. \<not> category_empty c) (map (remove_source src) cs)) =
    (case find (\<lambda>s. cat_name s = n) cs of
       None \<Rightarrow> None | Some s \<Rightarrow> if category_empty (remove_source src s) then None else Some (remove_source src s))"
  using assms by (induction cs) (auto simp: find_None_iff image_iff split: option.split dest!: find_SomeD)

lemma category_wf_remove_source: "category_wf c \<Longrightarrow> category_wf (remove_source src c)"
proof (induction c)
  case (Category n els sub i)
  then have "distinct (map cat_name (map (remove_source src) sub))"
    by (simp add: o_def)
  then have "distinct (map cat_name (filter (\<lambda>c. \<not> category_empty c) (map (remove_source src) sub)))"
    by (rule distinct_map_filter)
  with Category show ?case
    by (auto simp: list_all_iff distinct_map_filter)
qed

lemma find_in_remove_source:
  "category_wf c \<Longrightarrow> find_in (remove_source src c) q m = keep src (find_in c q m)"
proof (induction q arbitrary: c)
  case Nil
  then show ?case by (simp add: find_in_Nil find_element_def find_filter_elements category_wf_iff [of c])
next
  case (Cons n q)
  have d: "distinct (map cat_name (cat_sub c))"
    using Cons.prems by (simp add: category_wf_iff [of c])
  show ?case
  proof (cases "category_find n c")
    case None
    then show ?thesis using d by (simp add: find_in_Cons category_find_def find_remove_source keep_def)
  next
    case (Some s)
    then have "find_in (remove_source src s) q m = keep src (find_in s q m)"
      using Cons.IH category_wf_find [OF Cons.prems Some] by blast
    with Some d find_in_empty [of "remove_source src s" q m] show ?thesis
      by (auto simp: find_in_Cons category_find_def find_remove_source)
  qed
qed

lemma removeElements_eq:
  "removeElements p (Some src) recurse root =
     (case getCategory_from p root of
        None \<Rightarrow> root
      | Some d \<Rightarrow>
          replace_or_prune p (if recurse then remove_source src d else set_elements (filter (not_from src) (cat_elements d)) d) root)"
  by (simp add: removeElements_def replace_or_prune_def getCategory_simp Let_def split: option.split)

lemma find_in_removeElements:
  assumes "category_wf root"
  shows "category_wf (removeElements p (Some src) recurse root)"
    "find_in (removeElements p (Some src) recurse root) q m =
      (if q = p \<or> recurse \<and> prefix p q then keep src (find_in root q m) else find_in root q m)"
proof -
  have "category_wf (removeElements p (Some src) recurse root) \<and> find_in (removeElements p (Some src) recurse root) q m =
      (if q = p \<or> recurse \<and> prefix p q then keep src (find_in root q m) else find_in root q m)"
  proof (cases "getCategory_from p root")
    case None
    then show ?thesis
      using assms find_in_missing [OF None, of q m] by (auto simp: removeElements_eq keep_def)
  next
    case (Some d)
    define d' where "d' = (if recurse then remove_source src d else set_elements (filter (not_from src) (cat_elements d)) d)"
    have wf: "category_wf d" using category_wf_get [OF assms Some] .
    then have dist: "distinct (map es_name (cat_elements d))" by (simp add: category_wf_iff [of d])
    have d': "category_wf d'" "cat_name d' = cat_name d"
      using wf dist by (auto simp: d'_def category_wf_remove_source category_wf_set_elements distinct_map_filter)
    have "find_in d' r m = (if recurse \<or> r = [] then keep src (find_in d r m) else find_in d r m)" for r
    proof (cases recurse)
      case True
      then show ?thesis using wf by (simp add: d'_def find_in_remove_source)
    next
      case False
      then show ?thesis
        using dist by (cases r) (simp_all add: d'_def find_in_Nil find_in_Cons find_element_def find_filter_elements category_find_def)
    qed
    then have "find_in d' (drop (length p) q) m =
        (if q = p \<or> recurse \<and> prefix p q then keep src (find_in root q m) else find_in root q m)" if "prefix p q"
      using that find_in_append [OF Some] find_in_append [OF Some, of "[]"] by (auto elim!: prefixE)
    then show ?thesis
      using replace_or_prune [OF assms Some d'] by (auto simp: removeElements_eq Some d'_def)
  qed
  then show "category_wf (removeElements p (Some src) recurse root)"
    "find_in (removeElements p (Some src) recurse root) q m =
      (if q = p \<or> recurse \<and> prefix p q then keep src (find_in root q m) else find_in root q m)"
    by blast+
qed

lemma find_in_removeCategory:
  assumes "category_wf root"
  shows "category_wf (removeCategory p root)"
    "p \<noteq> [] \<Longrightarrow> find_in (removeCategory p root) q m = (if prefix p q then None else find_in root q m)"
proof -
  show "category_wf (removeCategory p root)"
    using assms removeCategory_prune [of p root] removeCategory_missing [of p root] category_wf_prune [OF assms]
    by (cases "p = []"; cases "getCategory_from p root") (auto simp: removeCategory_def)
  show "find_in (removeCategory p root) q m = (if prefix p q then None else find_in root q m)" if "p \<noteq> []"
    using that removeCategory_prune [of p root] removeCategory_missing [of p root] find_in_prune [OF assms that]
      find_in_missing [of p root q m]
    by (cases "getCategory_from p root") auto
qed

section \<open>The tree of the builder keeps the contract\<close>

interpretation gui: element_tree category_wf find_in
  "\<lambda>p n (source, stacking, w, rem). addElementImpl source p stacking (n, w) rem"
  "\<lambda>root p n (source, stacking, w, rem). placed source stacking root p n w" removeElement removeCategory
  by unfold_locales
    (auto simp: category_wf_add find_in_add find_in_removeElement find_in_removeCategory split: prod.split)

end
