(* ===== verification/Gui_Types_Correct.thy ===== *)
theory Gui_Types_Correct
  imports Gui_Types
begin

text \<open>
  What the builder calls of the GUI write, as the document that the client reads back: \<open>packs call v\<close>
  says that a call writes the MessagePack form of \<open>v\<close>. The visual styles survive both of their forms.
\<close>

section \<open>Documents written by builder calls\<close>

definition packs :: "builder_call \<Rightarrow> json \<Rightarrow> bool" where
  "packs call v \<longleftrightarrow> writes call (json_value v) \<and> json_packable v"

lemma packs_nil: "packs builder_write_nil J_null"
  using writes_scalars(1) by (simp add: packs_def)

lemma packs_bool [intro]: "packs (write_bool b) (J_bool b)"
  using writes_scalars(2) [of b] by (simp add: packs_def writes_def write_bool_def)

lemma packs_double [intro]: "packs (write_double d) (J_double d)"
  using writes_scalars(12) [of d] by (simp add: packs_def writes_def write_double_def)

lemma packs_str [intro]: "length s < 2 ^ 32 \<Longrightarrow> packs (builder_write_str s) (J_string s)"
  using writes_string [of s] by (simp add: packs_def)

lemma packs_json [intro]: "json_packable v \<Longrightarrow> packs (toMessagePack v) v"
  using writes_json by (simp add: packs_def)

lemma packs_int [intro]: "packs (write_int i) (J_int (sint i))"
proof -
  have r: "- (2 ^ 31) \<le> sint i" "sint i < 2 ^ 31"
    using sint_ge [of i] sint_lt [of i] by simp_all
  have "write_int i = (\<lambda>w. builder_write_i32 w i)"
    by (simp add: write_int_def fun_eq_iff)
  moreover have "json_value (J_int (sint i)) = MP_scalar (Tag_int (scast i))"
    using r unfolding json_value.simps number_value_def by (simp only: IsInt.simps scast_eq) simp
  ultimately have "writes (write_int i) (json_value (J_int (sint i)))"
    using writes_scalars(5) [of i] by simp
  moreover have "json_packable (J_int (sint i))"
    unfolding json_packable.simps using r by simp
  ultimately show ?thesis by (simp only: packs_def simp_thms)
qed

lemma packs_uint64 [intro]: "packs (write_uint64 u) (J_int (uint u))"
proof -
  have r: "0 \<le> uint u" "uint u < 2 ^ 64"
    using uint_bounded [of u] by simp_all
  have "0 \<le> sint u" if "uint u < 2 ^ 63"
    using that r(1) by (simp add: sint_uint bit_iff_odd)
  then have "enc_value (json_value (J_int (uint u))) = enc_value (MP_scalar (Tag_uint u))"
    using r by (auto simp: number_value_def enc_int_def)
  moreover have "write_uint64 u = (\<lambda>w. builder_write_u64 w u)"
    by (simp add: write_uint64_def fun_eq_iff)
  ultimately have "writes (write_uint64 u) (json_value (J_int (uint u)))"
    using writes_enc [OF writes_scalars(10) [of u], of "json_value (J_int (uint u))"] by (simp del: enc_value.simps json_value.simps)
  moreover have "json_packable (J_int (uint u))"
    unfolding json_packable.simps by (intro conjI order_trans [OF _ r(1)] r(2)) simp
  ultimately show ?thesis by (simp only: packs_def simp_thms)
qed

lemma packs_array:
  assumes "list_all2 packs calls vs" "n = length vs" "length vs < 2 ^ 32"
  shows "packs (builder_array n calls) (J_array vs)"
proof -
  have "list_all2 writes calls (map json_value vs)"
    using assms(1) unfolding list_all2_map2 packs_def by (auto elim: list_all2_mono)
  then have "writes (builder_array n calls) (MP_array (map json_value vs))"
    using assms(2) by (intro writes_array) simp_all
  moreover have "list_all json_packable vs"
    using assms(1) by (auto simp: packs_def list_all_length list_all2_conv_all_nth)
  ultimately show ?thesis
    using assms(3) by (simp add: packs_def)
qed

lemma packs_std_vector:
  assumes "\<And>x. x \<in> set xs \<Longrightarrow> packs (wr x) (g x)" "length xs < 2 ^ 32"
  shows "packs (builder_write_std_vector wr xs) (J_array (map g xs))"
proof -
  have "writes (builder_write_std_vector wr xs) (MP_array (map (\<lambda>x. json_value (g x)) xs))"
    using assms(1) by (intro writes_std_vector) (simp add: packs_def)
  moreover have "json_packable (J_array (map g xs))"
    using assms by (simp add: packs_def list_all_iff)
  ultimately show ?thesis by (simp add: packs_def o_def)
qed

lemma packs_strings [intro]: "strings_ok ss \<Longrightarrow> packs (write_strings ss) (strings_json ss)"
  unfolding write_strings_def strings_json_def by (rule packs_std_vector) (auto simp: strings_ok_def list_all_iff)

lemma packs_reals [intro]: "length ds < 2 ^ 32 \<Longrightarrow> packs (write_reals ds) (doubles_json ds)"
  unfolding write_reals_def doubles_json_def by (rule packs_std_vector) auto

section \<open>The MessagePack form of the styles\<close>

definition color_json :: "gui_color \<Rightarrow> json" where
  "color_json c = J_array [J_double (col_r c), J_double (col_g c), J_double (col_b c), J_double (col_a c)]"

definition line_json :: "line_config \<Rightarrow> json" where
  "line_json l = J_array [color_json (lc_color l), J_double (lc_width l), J_int (sint (line_style_code (lc_style l)))]"

definition arrow_json :: "arrow_config \<Rightarrow> json" where
  "arrow_json a =
     J_array [J_double (head_diam a), J_double (head_len a), J_double (shaft_diam a), J_double (ac_scale a),
       J_double (start_point_scale a), J_double (end_point_scale a), color_json (ac_color a)]"

definition force_json :: "force_config \<Rightarrow> json" where
  "force_json f = J_array [arrow_json (fc_arrow f), J_double (force_scale f)]"

definition point_json :: "point_config \<Rightarrow> json" where
  "point_json p = J_array [color_json (pc_color p), J_double (pc_scale p)]"

definition polyhedron_json :: "polyhedron_config \<Rightarrow> json" where
  "polyhedron_json p =
     J_array [color_json (triangle_color p), J_bool (show_triangle p), J_bool (use_triangle_color p), line_json (edge_config p),
       J_bool (show_edges p), J_bool (fixed_edge_color p), point_json (vertices_config p), J_bool (show_vertices p),
       J_bool (fixed_vertices_color p)]"

text \<open>A style is one of the named ones; \<open>Line_other\<close> stands for the other values of the enumeration.\<close>

definition line_ok :: "line_config \<Rightarrow> bool" where
  "line_ok l \<longleftrightarrow> line_style_of (line_style_code (lc_style l)) = lc_style l"

lemma packs_color [intro]: "packs (color_write c) (color_json c)"
  unfolding color_write_def color_json_def by (rule packs_array) auto

lemma packs_line [intro]: "packs (line_write l) (line_json l)"
  unfolding line_write_def line_json_def by (rule packs_array) auto

lemma packs_arrow [intro]: "packs (arrow_write a) (arrow_json a)"
  unfolding arrow_write_def arrow_json_def by (rule packs_array) auto

lemma packs_force [intro]: "packs (force_write f) (force_json f)"
  unfolding force_write_def force_json_def by (rule packs_array) auto

lemma packs_point [intro]: "packs (point_write p) (point_json p)"
  unfolding point_write_def point_json_def by (rule packs_array) auto

lemma packs_polyhedron [intro]: "packs (polyhedron_write p) (polyhedron_json p)"
  unfolding polyhedron_write_def polyhedron_json_def by (rule packs_array) auto

lemma to_double_J [simp]: "to_double (J_double d) = Inr d"
  by (simp add: to_double_def)

lemma to_bool_J [simp]: "to_bool (J_bool b) = Inr b"
  by (simp add: to_bool_def)

lemma to_string_J [simp]: "to_string (J_string s) = Inr s"
  by (simp add: to_string_def)

lemma to_int32_J [simp]: "to_int32 (J_int (sint i)) = Inr i"
  using sint_ge [of i] sint_lt [of i] by (simp add: to_int32_def)

lemma to_uint64_J [simp]: "to_uint64 (J_int (uint u)) = Inr u"
  using uint_bounded [of u] by (simp add: to_uint64_def)

lemma read_color [simp]: "color_fromMessagePack (color_json c) = Inr c"
  by (simp add: color_fromMessagePack_def color_json_def to_std_array_def color_of_def Color_def)

lemma read_line [simp]: "line_ok l \<Longrightarrow> line_fromMessagePack (line_json l) = Inr l"
  by (simp add: line_fromMessagePack_def line_json_def line_ok_def)

lemma read_arrow [simp]: "arrow_fromMessagePack (arrow_json a) = Inr a"
  by (simp add: arrow_fromMessagePack_def arrow_json_def)

lemma read_force [simp]: "force_fromMessagePack (force_json f) = Inr f"
  by (simp add: force_fromMessagePack_def force_json_def)

lemma read_point [simp]: "point_fromMessagePack (point_json p) = Inr p"
  by (simp add: point_fromMessagePack_def point_json_def)

lemma read_polyhedron [simp]: "line_ok (edge_config p) \<Longrightarrow> polyhedron_fromMessagePack (polyhedron_json p) = Inr p"
  by (simp add: polyhedron_fromMessagePack_def polyhedron_json_def)

section \<open>The configuration form of the styles\<close>

text \<open>The names of the entries are short and different from each other.\<close>

lemmas config_form = add_each_def push_each_def add_saved_def config_add_def config_add_config_def config_push_def c_str_def
  HasMember_def AddMember_def FindMember_def config_or_def config_call_def config_find_def config_has_def

lemma save_color [simp]: "color_saveConfig c = Inr (color_json c)"
  by (simp add: color_saveConfig_def color_json_def config_form)

lemma load_color [simp]: "color_fromConfig (color_json c) = Inr c"
  by (simp add: color_fromConfig_def color_json_def to_std_array_def color_of_def Color_def)

lemma save_load_line:
  assumes "lc_style l \<in> {Line_Solid, Line_Dotted}"
  shows "conf_bind (line_saveConfig l) (\<lambda>c. line_fromConfig c l0) = Inr l"
  using assms by (auto simp: line_saveConfig_def line_fromConfig_def config_form)

lemma save_load_arrow: "conf_bind (arrow_saveConfig a) (\<lambda>c. Inr (arrow_fromConfig c a0)) = Inr a"
  by (simp add: arrow_saveConfig_def arrow_entries_def arrow_fromConfig_def config_form)

lemma save_load_force: "conf_bind (force_saveConfig f) (\<lambda>c. Inr (force_fromConfig c f0)) = Inr f"
  by (simp add: force_saveConfig_def force_fromConfig_def arrow_saveConfig_def arrow_entries_def arrow_fromConfig_def config_form)

lemma save_load_point: "conf_bind (point_saveConfig p) (\<lambda>c. Inr (point_fromConfig c p0)) = Inr p"
  by (simp add: point_saveConfig_def point_fromConfig_def config_form)


lemma save_load_polyhedron:
  assumes "lc_style (edge_config p) \<in> {Line_Solid, Line_Dotted}"
  shows "conf_bind (polyhedron_saveConfig p) (\<lambda>c. Inr (polyhedron_fromConfig c p0)) = Inr p"
proof -
  obtain e where e: "line_saveConfig (edge_config p) = Inr e" "line_fromConfig e line_default = Inr (edge_config p)"
    using save_load_line [OF assms, of line_default] by (cases "line_saveConfig (edge_config p)") auto
  obtain v where v: "point_saveConfig (vertices_config p) = Inr v" "point_fromConfig v point_default = vertices_config p"
    using save_load_point [of "vertices_config p" point_default] by (cases "point_saveConfig (vertices_config p)") auto
  show ?thesis
    by (simp add: polyhedron_saveConfig_def polyhedron_fromConfig_def e v config_form)
qed

end
