(* ===== verification/Gui_Message.thy ===== *)
theory Gui_Message
  imports Gui_Tree Gui_Types_Correct
begin

text \<open>
  The message of the GUI: the document that \<open>update\<close> writes, given by the elements, the values their
  getters return, and the plots. Each group has a predicate that bounds its sizes, as MessagePack lengths
  are 32 bit numbers.
\<close>

section \<open>Bytes that calls write\<close>

definition emitted :: "builder_call \<Rightarrow> u8 list \<Rightarrow> bool" where
  "emitted call bs \<longleftrightarrow> (\<forall>w. builder_ok w \<longrightarrow> builder_appends w bs (call w))"

lemma packs_emitted: "packs call v \<Longrightarrow> emitted call (enc_value (json_value v))"
  by (simp add: packs_def writes_def emitted_def)

lemma emitted_object: "emitted (\<lambda>w. builder_write_object w bs) bs"
  unfolding emitted_def builder_write_object_def mpack_write_object_bytes_def
  using vec.write_native vec_ok.write_native_ok builder_ok_ready
  by (auto intro!: emits_appends simp: vec_context_writes)

lemma emitted_calls:
  assumes "list_all2 emitted calls bss"
  shows "builder_ok w \<Longrightarrow> builder_appends w (concat bss) (fold (\<lambda>call w. call w) calls w)"
  using assms
proof (induction calls bss arbitrary: w rule: list_all2_induct)
  case (Cons call calls bs bss)
  then have "builder_appends w bs (call w)" by (simp add: emitted_def)
  from appends_seq [OF this Cons.IH [OF appends_ok [OF this]]] show ?case by simp
qed (simp add: appends_refl)

lemma packs_array_bytes:
  assumes "list_all2 emitted calls bss" "concat bss = concat (map (\<lambda>v. enc_value (json_value v)) vs)"
    and "n = length vs" "length vs < 2 ^ 32" "list_all json_packable vs"
  shows "packs (builder_array n calls) (J_array vs)"
proof -
  have "builder_appends w (enc_value (json_value (J_array vs))) (builder_array n calls w)" if "builder_ok w" for w
  proof -
    note h = appends_start(1) [OF that, of n]
    from appends_seq [OF h emitted_calls [OF assms(1) appends_ok [OF h]]] show ?thesis
      by (simp add: builder_array_def assms(2,3) o_def)
  qed
  then show ?thesis
    using assms(4,5) by (simp add: packs_def writes_def)
qed

lemma packs_array_map:
  assumes "\<And>x. x \<in> set xs \<Longrightarrow> packs (wr x) (g x)" "n = length xs" "length xs < 2 ^ 32"
  shows "packs (builder_array n (map wr xs)) (J_array (map g xs))"
  using assms by (intro packs_array) (simp_all add: list_all2_map1 list_all2_map2 list_all2_same)

section \<open>Values\<close>

definition vec3_ok :: "vec3 \<Rightarrow> bool" where
  "vec3_ok v \<longleftrightarrow> length v = 3"

definition force_ok :: "force_vec \<Rightarrow> bool" where
  "force_ok f \<longleftrightarrow> length (fst f) = 3 \<and> length (snd f) = 3"

definition pair_json :: "u64 list \<times> u64 list \<Rightarrow> json" where
  "pair_json p = doubles_json (fst p @ snd p)"

definition list_ok :: "('a \<Rightarrow> bool) \<Rightarrow> 'a list \<Rightarrow> bool" where
  "list_ok ok xs \<longleftrightarrow> length xs < 2 ^ 32 \<and> list_all ok xs"

definition str_ok :: "string \<Rightarrow> bool" where
  "str_ok s \<longleftrightarrow> length s < 2 ^ 32"

definition vecx_ok :: "u64 list \<Rightarrow> bool" where
  "vecx_ok v \<longleftrightarrow> length v < 2 ^ 32"

lemma packs_of_writes: "writes call (json_value v) \<Longrightarrow> json_packable v \<Longrightarrow> packs call v"
  by (simp add: packs_def)

lemma packs_doubles: "writes call (doubles_value ds) \<Longrightarrow> length ds < 2 ^ 32 \<Longrightarrow> packs call (doubles_json ds)"
  by (simp add: packs_def doubles_json_value doubles_packable)

lemma packs_vec3 [intro]: "vec3_ok v \<Longrightarrow> packs (write_vec3 v) (doubles_json v)"
  using writes_vectors(3) [of v] by (intro packs_doubles) (simp_all add: vec3_ok_def writes_def write_vec3_def)

lemma packs_vecx [intro]: "vecx_ok v \<Longrightarrow> packs (write_vecx v) (doubles_json v)"
  using writes_vectors(1) [of v] by (intro packs_doubles) (simp_all add: vecx_ok_def writes_def write_vecx_def)

lemma packs_transform [intro]: "transform_ok p \<Longrightarrow> packs (write_transform p) (pair_json p)"
  using writes_transform [of p] by (intro packs_of_writes) (simp_all add: pair_json_def transform_ok_def doubles_packable)

lemma packs_force_vec [intro]: "force_ok f \<Longrightarrow> packs (write_force f) (pair_json f)"
  unfolding pair_json_def using writes_vectors(6) [of "fst f" "snd f"]
  by (intro packs_doubles) (simp_all add: force_ok_def writes_def write_force_def)

lemma packs_string [intro]: "str_ok s \<Longrightarrow> packs (builder_write_str s) (J_string s)"
  by (simp add: str_ok_def packs_str)

lemma packs_list:
  "list_ok ok xs \<Longrightarrow> (\<And>x. ok x \<Longrightarrow> packs (wr x) (g x)) \<Longrightarrow> packs (builder_write_std_vector wr xs) (J_array (map g xs))"
  by (rule packs_std_vector) (auto simp: list_ok_def list_all_iff)

lemma packs_list_list:
  assumes "list_ok (list_ok ok) xss" "\<And>x. ok x \<Longrightarrow> packs (wr x) (g x)"
  shows "packs (builder_write_std_vector (builder_write_std_vector wr) xss) (J_array (map (\<lambda>xs. J_array (map g xs)) xss))"
  using assms by (intro packs_list [of "list_ok ok"] packs_list [of ok])

fun data_json :: "gui_data \<Rightarrow> json" where
  "data_json (GD_bool b) = J_bool b"
| "data_json (GD_int i) = J_int (sint i)"
| "data_json (GD_uint64 u) = J_int (uint u)"
| "data_json (GD_double d) = J_double d"
| "data_json (GD_string s) = J_string s"
| "data_json (GD_vector v) = doubles_json v"
| "data_json (GD_strings ss) = strings_json ss"
| "data_json (GD_config c) = c"

fun gdata_ok :: "gui_data \<Rightarrow> bool" where
  "gdata_ok (GD_string s) = str_ok s"
| "gdata_ok (GD_vector v) = vecx_ok v"
| "gdata_ok (GD_strings ss) = strings_ok ss"
| "gdata_ok (GD_config c) = json_packable c"
| "gdata_ok _ = True"

lemma packs_data [intro]: "gdata_ok d \<Longrightarrow> packs (write_data d) (data_json d)"
  by (cases d) auto

section \<open>Forms\<close>

fun cv_now :: "'s \<Rightarrow> ('s, 'a) callback_or_value \<Rightarrow> 'a" where
  "cv_now s (CV_value x) = x"
| "cv_now s (CV_callback g) = g s"

fun is_callback :: "('s, 'a) callback_or_value \<Rightarrow> bool" where
  "is_callback (CV_value x) = False"
| "is_callback (CV_callback g) = True"

fun is_dynamic :: "'s form_input \<Rightarrow> bool" where
  "is_dynamic (FormCheckbox _ _ def _) = is_callback def"
| "is_dynamic (FormIntegerInput _ _ def _) = is_callback def"
| "is_dynamic (FormNumberInput _ _ def _) = is_callback def"
| "is_dynamic (FormStringInput _ _ def _) = is_callback def"
| "is_dynamic (FormPoint3DInput _ _ def _ _) = is_callback def"
| "is_dynamic (FormRotationInput _ _ def _ _) = is_callback def"
| "is_dynamic (FormTransformInput _ _ def _ _) = is_callback def"
| "is_dynamic (FormArrayInput _ _ def _ _ _) = is_callback def"
| "is_dynamic (FormComboInput _ _ _ _ _) = False"
| "is_dynamic (FormDataComboInput _ _ _ _) = False"
| "is_dynamic _ = True"

text \<open>The order in which the elements of a form are sent.\<close>

definition form_order :: "'s form_input list \<Rightarrow> 's form_input list" where
  "form_order els = filter is_dynamic els @ filter (\<lambda>e. \<not> is_dynamic e) els"

lemma set_form_order [simp]: "set (form_order els) = set els"
  by (auto simp: form_order_def)

lemma length_form_order [simp]: "length (form_order els) = length els"
  by (simp add: form_order_def sum_length_filter_compl)

definition form_element_json :: "string \<Rightarrow> bool \<Rightarrow> elements \<Rightarrow> json list \<Rightarrow> json" where
  "form_element_json name required ty vs = J_array ([J_string name, J_int (sint (element_code ty)), J_bool required] @ vs)"

definition variant_json :: "nat \<times> json \<Rightarrow> json" where
  "variant_json p = J_array [J_int (int (fst p)), snd p]"

definition optional_json :: "('a \<Rightarrow> json) \<Rightarrow> ('s, 'a) callback_or_value option \<Rightarrow> 's \<Rightarrow> json" where
  "optional_json g def s = (case def of None \<Rightarrow> J_null | Some d \<Rightarrow> g (cv_now s d))"

fun form_json :: "'s \<Rightarrow> 's form_input \<Rightarrow> json" where
  "form_json s (FormCheckbox n r d h) = form_element_json n r E_Checkbox [J_bool (cv_now s d), J_bool h]"
| "form_json s (FormIntegerInput n r d h) = form_element_json n r E_IntegerInput [J_int (sint (cv_now s d)), J_bool h]"
| "form_json s (FormNumberInput n r d h) = form_element_json n r E_NumberInput [J_double (cv_now s d), J_bool h]"
| "form_json s (FormStringInput n r d h) = form_element_json n r E_StringInput [J_string (cv_now s d), J_bool h]"
| "form_json s (FormPoint3DInput n r d h i) = form_element_json n r E_Point3D [doubles_json (cv_now s d), J_bool h, J_bool i]"
| "form_json s (FormRotationInput n r d h i) = form_element_json n r E_Rotation [pair_json (cv_now s d), J_bool h, J_bool i]"
| "form_json s (FormTransformInput n r d h i) = form_element_json n r E_Transform [pair_json (cv_now s d), J_bool h, J_bool i]"
| "form_json s (FormArrayInput n r d f h ls) =
     form_element_json n r E_ArrayInput [doubles_json (cv_now s d), J_bool f, J_bool h, strings_json ls]"
| "form_json s (FormComboInput n r vs i d) = form_element_json n r E_ComboInput [strings_json vs, J_bool i, J_int (sint d)]"
| "form_json s (FormDataComboInput n r vs i) = form_element_json n r E_DataComboInput [strings_json vs, J_bool i]"
| "form_json s (FormObjectInput n r els) = form_element_json n r E_Form [J_array (map (form_json s) (form_order els))]"
| "form_json s (FormGenericArrayInput n r el d) =
     form_element_json n r E_GenericArray [J_array [form_json s el], optional_json id d s]"
| "form_json s (FormOneOfInput n r d els) =
     form_element_json n r E_OneOf [optional_json variant_json d s, J_array (map (form_json s) (form_order els))]"

fun form_ok :: "'s \<Rightarrow> 's form_input \<Rightarrow> bool" where
  "form_ok s (FormCheckbox n r d h) = str_ok n"
| "form_ok s (FormIntegerInput n r d h) = str_ok n"
| "form_ok s (FormNumberInput n r d h) = str_ok n"
| "form_ok s (FormStringInput n r d h) = (str_ok n \<and> str_ok (cv_now s d))"
| "form_ok s (FormPoint3DInput n r d h i) = (str_ok n \<and> vec3_ok (cv_now s d))"
| "form_ok s (FormRotationInput n r d h i) = (str_ok n \<and> transform_ok (cv_now s d))"
| "form_ok s (FormTransformInput n r d h i) = (str_ok n \<and> transform_ok (cv_now s d))"
| "form_ok s (FormArrayInput n r d f h ls) = (str_ok n \<and> vecx_ok (cv_now s d) \<and> strings_ok ls)"
| "form_ok s (FormComboInput n r vs i d) = (str_ok n \<and> strings_ok vs)"
| "form_ok s (FormDataComboInput n r vs i) = (str_ok n \<and> strings_ok vs)"
| "form_ok s (FormObjectInput n r els) = (str_ok n \<and> length els < 2 ^ 32 \<and> list_all (form_ok s) els)"
| "form_ok s (FormGenericArrayInput n r el d) =
     (str_ok n \<and> form_ok s el \<and> (case d of None \<Rightarrow> True | Some d \<Rightarrow> json_packable (cv_now s d)))"
| "form_ok s (FormOneOfInput n r d els) =
     (str_ok n \<and> length els < 2 ^ 32 \<and> list_all (form_ok s) els \<and>
      (case d of None \<Rightarrow> True | Some d \<Rightarrow> fst (cv_now s d) < 2 ^ 64 \<and> json_packable (snd (cv_now s d))))"


definition part_packs :: "'s \<Rightarrow> 's form_part \<Rightarrow> json \<Rightarrow> bool" where
  "part_packs s part v \<longleftrightarrow> (case part of Inl call \<Rightarrow> packs call v | Inr f \<Rightarrow> packs (f s) v)"

definition is_static :: "'s form_part \<Rightarrow> bool" where
  "is_static part \<longleftrightarrow> (case part of Inl _ \<Rightarrow> True | Inr _ \<Rightarrow> False)"

definition bytes_of :: "json \<Rightarrow> u8 list" where
  "bytes_of v = enc_value (json_value v)"

lemma form_add_parts:
  assumes "list_all (\<lambda>(p, v). part_packs s p v) ps" "builder_ok w"
  shows "\<exists>w'. fold form_add_part (map fst ps) (w, dyn) = (w', dyn @ map (\<lambda>p. projr (fst p)) (filter (\<lambda>p. \<not> is_static (fst p)) ps)) \<and>
    builder_appends w (concat (map (\<lambda>p. bytes_of (snd p)) (filter (\<lambda>p. is_static (fst p)) ps))) w'"
  using assms
proof (induction ps arbitrary: w dyn)
  case Nil
  then show ?case by (simp add: appends_refl)
next
  case (Cons p ps)
  obtain part v where p: "p = (part, v)" by fastforce
  show ?case
  proof (cases part)
    case (Inl call)
    then have "builder_appends w (bytes_of v) (call w)"
      using Cons.prems p packs_emitted [of call v] by (simp add: part_packs_def emitted_def bytes_of_def)
    with Cons.IH [OF _ appends_ok [OF this], of dyn] Cons.prems p Inl show ?thesis
      by (auto simp: form_add_part_def is_static_def intro: appends_seq)
  next
    case (Inr f)
    with Cons.IH [of w "dyn @ [f]"] Cons.prems p show ?thesis
      by (auto simp: form_add_part_def is_static_def)
  qed
qed

text \<open>What a form writes: the dynamic elements, then the static ones.\<close>

lemma packs_form_elements:
  assumes "list_all (\<lambda>(p, v). part_packs s p v) ps" "length ps < 2 ^ 32"
  shows "packs (form_write_impl (form_elements_new (map fst ps)) s)
    (J_array (map snd (filter (\<lambda>p. \<not> is_static (fst p)) ps) @ map snd (filter (\<lambda>p. is_static (fst p)) ps)))"
proof -
  let ?dyn = "filter (\<lambda>p. \<not> is_static (fst p)) ps" and ?st = "filter (\<lambda>p. is_static (fst p)) ps"
  let ?bs = "concat (map (\<lambda>p. bytes_of (snd p)) ?st)"
  obtain w where w: "fold form_add_part (map fst ps) (builder_new [], []) = (w, map (\<lambda>p. projr (fst p)) ?dyn)"
    "builder_appends (builder_new []) ?bs w"
    using form_add_parts [OF assms(1), of "builder_new []" "[]"] builder_new_ok [of "[]"] by auto
  have out: "builder_ok w" "writer_output w = ?bs"
    using w(2) builder_new_ok [of "[]"] by (simp_all add: builder_appends_def)
  define fe where "fe = form_elements_new (map fst ps)"
  have fe: "fe_count fe = length ps" "fe_dynamic fe = map (\<lambda>p. projr (fst p)) ?dyn" "take (fe_data_size fe) (fe_data fe) = ?bs"
    using w(1) builder_finish_ok [OF out(1)] out(2) by (simp_all add: fe_def form_elements_new_def case_prod_beta Let_def)
  have dyn: "list_all2 emitted (map (\<lambda>f. f s) (fe_dynamic fe)) (map (\<lambda>p. bytes_of (snd p)) ?dyn)"
    using assms(1) unfolding fe(2)
    by (auto simp: list_all2_map1 list_all2_map2 list_all2_same list_all_iff part_packs_def is_static_def bytes_of_def
        split: sum.splits intro!: packs_emitted)
  have "list_all2 emitted (map (\<lambda>f. f s) (fe_dynamic fe) @ [\<lambda>w. builder_write_object w ?bs] @
        replicate (length ps - (length (fe_dynamic fe) + 1)) (\<lambda>w. builder_write_object w []))
      (map (\<lambda>p. bytes_of (snd p)) ?dyn @ [?bs] @ replicate (length ps - (length (fe_dynamic fe) + 1)) [])"
    using dyn emitted_object by (intro list_all2_appendI) (auto simp: list_all2_conv_all_nth)
  moreover have "length ?dyn + length ?st = length ps"
    using sum_length_filter_compl [of "\<lambda>p. is_static (fst p)" ps] by simp
  moreover have "json_packable (snd p)" if "p \<in> set ps" for p
    using assms(1) that by (cases p; cases "fst p") (auto simp: list_all_iff part_packs_def packs_def split: sum.splits)
  ultimately have "packs (form_write_impl fe s) (J_array (map snd ?dyn @ map snd ?st))"
    unfolding form_write_impl_def fe(1,3) using assms(2)
    by (intro packs_array_bytes [where bss = "map (\<lambda>p. bytes_of (snd p)) ?dyn @ [?bs] @ replicate (length ps - (length (fe_dynamic fe) + 1)) []"])
      (auto simp: bytes_of_def o_def list_all_iff)
  then show ?thesis by (simp only: fe_def)
qed


lemma form_write_elements:
  assumes "list_all (\<lambda>e. part_packs s (form_part e) (form_json s e) \<and> is_static (form_part e) = (\<not> is_dynamic e)) els" "length els < 2 ^ 32"
  shows "packs (form_write_impl (form_elements_new (map form_part els)) s) (J_array (map (form_json s) (form_order els)))"
proof -
  let ?ps = "map (\<lambda>e. (form_part e, form_json s e)) els"
  have "packs (form_write_impl (form_elements_new (map fst ?ps)) s)
    (J_array (map snd (filter (\<lambda>p. \<not> is_static (fst p)) ?ps) @ map snd (filter (\<lambda>p. is_static (fst p)) ?ps)))"
    using assms by (intro packs_form_elements) (simp_all add: list_all_iff)
  moreover have "filter (\<lambda>p. \<not> is_static (fst p)) ?ps = map (\<lambda>e. (form_part e, form_json s e)) (filter is_dynamic els)"
    "filter (\<lambda>p. is_static (fst p)) ?ps = map (\<lambda>e. (form_part e, form_json s e)) (filter (\<lambda>e. \<not> is_dynamic e) els)"
    using assms(1) by (simp_all add: filter_map o_def list_all_iff cong: filter_cong)
  ultimately show ?thesis
    by (simp add: o_def form_order_def)
qed

lemma packs_form_element:
  assumes "str_ok name" "list_all2 packs calls vs" "length vs < 2 ^ 31"
  shows "packs (form_element_write name required ty calls) (form_element_json name required ty vs)"
  unfolding form_element_write_def form_element_json_def
proof (rule packs_array)
  show "list_all2 packs ([builder_write_str name, write_int (element_code ty), write_bool required] @ calls)
      ([J_string name, J_int (sint (element_code ty)), J_bool required] @ vs)"
    using assms by auto
  show "3 + length calls = length ([J_string name, J_int (sint (element_code ty)), J_bool required] @ vs)"
    using list_all2_lengthD [OF assms(2)] by simp
  show "length ([J_string name, J_int (sint (element_code ty)), J_bool required] @ vs) < 2 ^ 32"
    using assms(3) by simp
qed

lemma part_packs_data:
  assumes "str_ok name" "packs (wr (cv_now s d)) v" "list_all2 packs rest vs" "length vs < 10"
  shows "part_packs s (form_data_part name required ty wr d rest) (form_element_json name required ty (v # vs))"
  using assms by (cases d) (auto simp: form_data_part_def part_packs_def intro!: packs_form_element)

lemma static_data_part [simp]: "is_static (form_data_part name required ty wr d rest) = (\<not> is_callback d)"
  by (cases d) (simp_all add: form_data_part_def is_static_def)

lemma packs_variant: "i < 2 ^ 64 \<Longrightarrow> json_packable v \<Longrightarrow> packs (builder_write_variant i (toMessagePack v)) (variant_json (i, v))"
proof -
  assume i: "i < 2 ^ 64" and v: "json_packable v"
  have "builder_write_variant i (toMessagePack v) = builder_array 2 [write_uint64 (of_nat i), toMessagePack v]"
    by (simp add: builder_write_variant_def builder_array_def write_uint64_def fun_eq_iff)
  moreover have "uint (of_nat i :: u64) = int i"
    using i by (simp add: unat_of_nat uint_nat)
  ultimately show ?thesis
    using packs_array [of "[write_uint64 (of_nat i), toMessagePack v]" "[J_int (int i), v]" 2] packs_uint64 [of "of_nat i"] packs_json [OF v]
    by (simp add: variant_json_def)
qed

lemma form_part_packs:
  "form_ok s e \<Longrightarrow> part_packs s (form_part e) (form_json s e) \<and> is_static (form_part e) = (\<not> is_dynamic e)"
proof (induction e)
  case (FormObjectInput n r els)
  then have "packs (form_write_impl (form_elements_new (map form_part els)) s) (J_array (map (form_json s) (form_order els)))"
    by (intro form_write_elements) (auto simp: list_all_iff)
  with FormObjectInput show ?case
    by (simp add: Let_def part_packs_def is_static_def packs_form_element)
next
  case (FormGenericArrayInput n r el d)
  then have "packs (form_write_impl (form_elements_new (map form_part [el])) s) (J_array (map (form_json s) (form_order [el])))"
    by (intro form_write_elements) auto
  moreover have "form_order [el] = [el]" by (simp add: form_order_def)
  moreover have "packs (optional_write toMessagePack d s) (optional_json id d s)"
    using FormGenericArrayInput.prems packs_nil
    by (auto simp: optional_write_def optional_json_def split: option.splits callback_or_value.splits)
  ultimately show ?case
    using FormGenericArrayInput.prems by (simp add: Let_def part_packs_def is_static_def packs_form_element)
next
  case (FormOneOfInput n r d els)
  then have "packs (form_write_impl (form_elements_new (map form_part els)) s) (J_array (map (form_json s) (form_order els)))"
    by (intro form_write_elements) (auto simp: list_all_iff)
  moreover have "packs (optional_write (\<lambda>(i, v). builder_write_variant i (toMessagePack v)) d s) (optional_json variant_json d s)"
    using FormOneOfInput.prems packs_nil
    by (auto simp: optional_write_def optional_json_def packs_variant split: option.splits callback_or_value.splits prod.splits)
  ultimately show ?case
    using FormOneOfInput.prems by (simp add: Let_def part_packs_def is_static_def packs_form_element)
next
  case (FormComboInput n r vs i d)
  then show ?case by (auto simp: part_packs_def is_static_def intro!: packs_form_element)
next
  case (FormDataComboInput n r vs i)
  then show ?case by (auto simp: part_packs_def is_static_def intro!: packs_form_element)
qed (auto intro!: part_packs_data)

end
