(* ===== verification/Gui_Content.thy ===== *)
theory Gui_Content
  imports Gui_Message
begin

text \<open>
  The document of an element, of a category, of a plot and of the whole GUI, and that \<open>update\<close> writes it.
\<close>

section \<open>Elements\<close>

fun trajectory_json :: "trajectory_data \<Rightarrow> json" where
  "trajectory_json (TR_point v) = doubles_json v"
| "trajectory_json (TR_pose p) = pair_json p"
| "trajectory_json (TR_points vs) = J_array (map doubles_json vs)"
| "trajectory_json (TR_poses ps) = J_array (map pair_json ps)"

fun trajectory_ok :: "trajectory_data \<Rightarrow> bool" where
  "trajectory_ok (TR_point v) = vec3_ok v"
| "trajectory_ok (TR_pose p) = transform_ok p"
| "trajectory_ok (TR_points vs) = list_ok vec3_ok vs"
| "trajectory_ok (TR_poses ps) = list_ok transform_ok ps"

fun polygon_json :: "polygon_data \<Rightarrow> json" where
  "polygon_json (PD_points vs) = J_array (map doubles_json vs)"
| "polygon_json (PD_polygons ps) = J_array (map (\<lambda>vs. J_array (map doubles_json vs)) ps)"

fun polygon_ok :: "polygon_data \<Rightarrow> bool" where
  "polygon_ok (PD_points vs) = list_ok vec3_ok vs"
| "polygon_ok (PD_polygons ps) = list_ok (list_ok vec3_ok) ps"

fun visual_pose_json :: "visual_pose \<Rightarrow> json" where
  "visual_pose_json (VP_position v) = doubles_json v"
| "visual_pose_json (VP_pose p) = pair_json p"

fun visual_pose_ok :: "visual_pose \<Rightarrow> bool" where
  "visual_pose_ok (VP_position v) = vec3_ok v"
| "visual_pose_ok (VP_pose p) = transform_ok p"

definition triple_ok :: "'a list \<Rightarrow> bool" where
  "triple_ok t \<longleftrightarrow> length t = 3"

fun widget_json :: "'s \<Rightarrow> 's widget \<Rightarrow> json list" where
  "widget_json s (Label get) = [data_json (get s)]"
| "widget_json s (ArrayLabel get labels) = [doubles_json (get s), strings_json labels]"
| "widget_json s (Button cb) = []"
| "widget_json s (Checkbox get cb) = [J_bool (get s)]"
| "widget_json s (StringInput get cb) = [J_string (get s)]"
| "widget_json s (IntegerInput get cb) = [J_int (sint (get s))]"
| "widget_json s (NumberInput get cb) = [J_double (get s)]"
| "widget_json s (NumberSlider get cb mn mx) = [J_double (get s), J_double mn, J_double mx]"
| "widget_json s (ArrayInput get dim cb labels) = [doubles_json (get s), strings_json labels]"
| "widget_json s (ComboInput get cb values) = [J_string (get s), strings_json values]"
| "widget_json s (DataComboInput get cb data_ref) = [J_string (get s), strings_json data_ref]"
| "widget_json s (Point3D get cb config) = [doubles_json (get s), J_bool (cb = None), point_json config]"
| "widget_json s (Trajectory get config) = [trajectory_json (get s), line_json config]"
| "widget_json s (Rotation get cb) = [pair_json (get s), J_bool (cb = None)]"
| "widget_json s (Transform get cb) = [pair_json (get s), J_bool (cb = None)]"
| "widget_json s (Schema schema cb) = [J_string schema]"
| "widget_json s (Form els cb) = [J_array (map (form_json s) (form_order els))]"
| "widget_json s (Polygon get config) = [polygon_json (get s), line_json config]"
| "widget_json s (Force get surface cb config) = [pair_json (get s), pair_json (surface s), J_bool (cb = None), force_json config]"
| "widget_json s (Arrow get_start get_end cb config) =
     [doubles_json (get_start s), doubles_json (get_end s), J_bool (cb = None), arrow_json config]"
| "widget_json s (XYTheta get cb) = [doubles_json (get s), J_bool (cb = None)]"
| "widget_json s (Table header data format) =
     [strings_json (header s), J_array (map (\<lambda>row. J_array (map data_json row)) (data s))] @
     (case format of None \<Rightarrow> [] | Some f \<Rightarrow> [strings_json (f s)])"
| "widget_json s (Robot get) =
     (let (parameters, q, posW) = get s in [strings_json parameters, J_array (map doubles_json q), pair_json posW])"
| "widget_json s (Visual visual pose) = [visual s, visual_pose_json (pose s)]"
| "widget_json s (PolyhedronTrianglesList triangles config colors) =
     [J_array (map (\<lambda>t. J_array (map doubles_json t)) (triangles s)), polyhedron_json config] @
     (case colors of None \<Rightarrow> [] | Some f \<Rightarrow> [J_array (map (\<lambda>t. J_array (map color_json t)) (f s))])"
| "widget_json s (PolyhedronVerticesTriangles vertices triangles config colors) =
     [J_array (map doubles_json (vertices s)), J_array (map (\<lambda>t. J_array (map (\<lambda>i. J_int (uint i)) t)) (triangles s)),
      polyhedron_json config] @
     (case colors of None \<Rightarrow> [] | Some f \<Rightarrow> [J_array (map color_json (f s))])"
| "widget_json s (RobotMsg get) =
     (let m = get s in
      [strings_json (rm_parameters m), doubles_json (rm_q m), doubles_json (rm_alpha m), doubles_json (rm_alphaD m), doubles_json (rm_tau m),
       J_array (map pair_json (rm_forces m)), pair_json (rm_posW m)])"

fun widget_ok :: "'s \<Rightarrow> 's widget \<Rightarrow> bool" where
  "widget_ok s (Label get) = gdata_ok (get s)"
| "widget_ok s (ArrayLabel get labels) = (vecx_ok (get s) \<and> strings_ok labels)"
| "widget_ok s (StringInput get cb) = str_ok (get s)"
| "widget_ok s (ArrayInput get dim cb labels) = (vecx_ok (get s) \<and> strings_ok labels)"
| "widget_ok s (ComboInput get cb values) = (str_ok (get s) \<and> strings_ok values)"
| "widget_ok s (DataComboInput get cb data_ref) = (str_ok (get s) \<and> strings_ok data_ref)"
| "widget_ok s (Point3D get cb config) = vec3_ok (get s)"
| "widget_ok s (Trajectory get config) = (trajectory_ok (get s) \<and> line_ok config)"
| "widget_ok s (Rotation get cb) = transform_ok (get s)"
| "widget_ok s (Transform get cb) = transform_ok (get s)"
| "widget_ok s (Schema schema cb) = str_ok schema"
| "widget_ok s (Form els cb) = (length els < 2 ^ 32 \<and> list_all (form_ok s) els)"
| "widget_ok s (Polygon get config) = (polygon_ok (get s) \<and> line_ok config)"
| "widget_ok s (Force get surface cb config) = (force_ok (get s) \<and> transform_ok (surface s))"
| "widget_ok s (Arrow get_start get_end cb config) = (vec3_ok (get_start s) \<and> vec3_ok (get_end s))"
| "widget_ok s (XYTheta get cb) = vecx_ok (get s)"
| "widget_ok s (Table header data format) =
     (strings_ok (header s) \<and> list_ok (list_ok gdata_ok) (data s) \<and> (case format of None \<Rightarrow> True | Some f \<Rightarrow> strings_ok (f s)))"
| "widget_ok s (Robot get) =
     (let (parameters, q, posW) = get s in strings_ok parameters \<and> list_ok vecx_ok q \<and> transform_ok posW)"
| "widget_ok s (Visual visual pose) = (json_packable (visual s) \<and> visual_pose_ok (pose s))"
| "widget_ok s (PolyhedronTrianglesList triangles config colors) =
     (list_ok (\<lambda>t. triple_ok t \<and> list_all vec3_ok t) (triangles s) \<and> line_ok (edge_config config) \<and>
      (case colors of None \<Rightarrow> True | Some f \<Rightarrow> list_ok triple_ok (f s)))"
| "widget_ok s (PolyhedronVerticesTriangles vertices triangles config colors) =
     (list_ok vec3_ok (vertices s) \<and> list_ok triple_ok (triangles s) \<and> line_ok (edge_config config) \<and>
      (case colors of None \<Rightarrow> True | Some f \<Rightarrow> length (f s) < 2 ^ 32))"
| "widget_ok s (RobotMsg get) =
     (let m = get s in
      strings_ok (rm_parameters m) \<and> vecx_ok (rm_q m) \<and> vecx_ok (rm_alpha m) \<and> vecx_ok (rm_alphaD m) \<and> vecx_ok (rm_tau m) \<and>
      list_ok force_ok (rm_forces m) \<and> transform_ok (rm_posW m))"
| "widget_ok s _ = True"

lemma packs_trajectory [intro]: "trajectory_ok t \<Longrightarrow> packs (write_trajectory t) (trajectory_json t)"
  by (cases t) (auto intro: packs_list)

lemma packs_polygon [intro]: "polygon_ok p \<Longrightarrow> packs (write_polygon p) (polygon_json p)"
  by (cases p) (auto intro: packs_list packs_list_list)

lemma packs_visual_pose [intro]: "visual_pose_ok p \<Longrightarrow> packs (write_visual_pose p) (visual_pose_json p)"
  by (cases p) auto

lemma packs_reals' [intro]: "vecx_ok ds \<Longrightarrow> packs (write_reals ds) (doubles_json ds)"
  by (simp add: vecx_ok_def packs_reals)

lemma packs_triples:
  assumes "list_ok (\<lambda>t. triple_ok t \<and> list_all ok t) ts" "\<And>x. ok x \<Longrightarrow> packs (wr x) (g x)"
  shows "packs (builder_write_std_vector (builder_write_std_vector wr) ts) (J_array (map (\<lambda>t. J_array (map g t)) ts))"
  using assms by (intro packs_list_list [of ok]) (auto simp: list_ok_def list_all_iff triple_ok_def)

lemma packs_colors [intro]: "length cs < 2 ^ 32 \<Longrightarrow> packs (write_colors cs) (J_array (map color_json cs))"
  unfolding write_colors_def by (rule packs_array_map) auto

lemma packs_triangle_colors [intro]:
  assumes "list_ok triple_ok cs"
  shows "packs (write_triangle_colors cs) (J_array (map (\<lambda>t. J_array (map color_json t)) cs))"
  unfolding write_triangle_colors_def
proof (rule packs_array_map)
  fix t
  assume "t \<in> set cs"
  then have "length t = 3" using assms by (simp add: list_ok_def list_all_iff triple_ok_def)
  then have "t = [t ! 0, t ! 1, t ! 2]"
    by (auto simp: numeral_eq_Suc length_Suc_conv)
  then have "packs (builder_array 3 [color_write (t ! 0), color_write (t ! 1), color_write (t ! 2)])
      (J_array [color_json (t ! 0), color_json (t ! 1), color_json (t ! 2)])"
    by (intro packs_array) auto
  moreover have "[color_json (t ! 0), color_json (t ! 1), color_json (t ! 2)] = map color_json t"
    by (subst (4) \<open>t = _\<close>) simp
  ultimately show "packs (builder_array 3 [color_write (t ! 0), color_write (t ! 1), color_write (t ! 2)]) (J_array (map color_json t))"
    by simp
qed (use assms in \<open>simp_all add: list_ok_def\<close>)

text \<open>Each element writes as many values as it announces.\<close>

lemma widget_size: "widget_write_size w = 3 + length (widget_write s w)"
  by (cases w rule: widget_write_size.cases) (simp_all add: case_prod_beta Let_def)

lemma packs_widget:
  assumes "widget_ok s w"
  shows "list_all2 packs (widget_write s w) (widget_json s w)"
proof (cases w)
  case (Form els cb)
  then show ?thesis
    using assms form_part_packs [of s] by (auto intro!: form_write_elements simp: list_all_iff)
next
  case (Table header data format)
  then show ?thesis
    using assms by (cases format) (auto intro: packs_list_list [of gdata_ok])
next
  case (Robot get)
  then show ?thesis
    using assms by (auto intro!: packs_list [of vecx_ok] packs_strings packs_transform)
next
  case (PolyhedronTrianglesList triangles config colors)
  then show ?thesis
    using assms by (cases colors) (auto intro: packs_triples [of vec3_ok])
next
  case (PolyhedronVerticesTriangles vertices triangles config colors)
  then show ?thesis
    using assms by (cases colors) (auto intro: packs_list [of vec3_ok] packs_triples [of "\<lambda>_. True"] simp: list_all_iff)
next
  case (RobotMsg get)
  then show ?thesis
    using assms by (auto simp: Let_def intro: packs_list [of force_ok])
qed (use assms in auto)


definition element_json :: "'s \<Rightarrow> 's element_store \<Rightarrow> json" where
  "element_json s el =
     J_array ([J_string (es_name el), J_int (sint (element_code (widget_type (es_widget el)))),
       if es_stacking el = Vertical then J_null else J_int (es_id el)] @ widget_json s (es_widget el))"

definition element_ok :: "'s \<Rightarrow> 's element_store \<Rightarrow> bool" where
  "element_ok s el \<longleftrightarrow> str_ok (es_name el) \<and> 0 \<le> es_id el \<and> es_id el < 2 ^ 31 \<and> widget_ok s (es_widget el)"

lemma widget_write_size_bound: "widget_write_size w \<le> 10"
  by (cases w rule: widget_write_size.cases) simp_all

lemma packs_element [intro]:
  assumes "element_ok s el"
  shows "packs (element_write s el) (element_json s el)"
proof -
  let ?w = "es_widget el"
  have w: "list_all2 packs (widget_write s ?w) (widget_json s ?w)"
    by (rule packs_widget) (use assms in \<open>simp add: element_ok_def\<close>)
  have "sint (of_int (es_id el) :: u32) = es_id el"
    using assms by (simp add: element_ok_def of_int_signed)
  then have "packs (write_int (of_int (es_id el))) (J_int (es_id el))"
    using packs_int [of "of_int (es_id el)"] by simp
  with w show ?thesis
    unfolding element_write_def element_json_def
    using assms packs_nil widget_size [of ?w s] widget_write_size_bound [of ?w] list_all2_lengthD [OF w]
    by (intro packs_array) (auto simp: element_ok_def)
qed

section \<open>Categories\<close>

fun category_json :: "'s \<Rightarrow> 's category \<Rightarrow> json" where
  "category_json s (Category name els sub i) =
     J_array ([J_string name] @ map (element_json s) els @ [J_array (map (category_json s) sub)])"

fun category_ok :: "'s \<Rightarrow> 's category \<Rightarrow> bool" where
  "category_ok s (Category name els sub i) \<longleftrightarrow>
     str_ok name \<and> length els < 2 ^ 31 \<and> list_all (element_ok s) els \<and> length sub < 2 ^ 32 \<and> list_all (category_ok s) sub"

lemma packs_category [intro]: "category_ok s c \<Longrightarrow> packs (update_category s c) (category_json s c)"
proof (induction c)
  case (Category name els sub i)
  then have "packs (builder_array (length sub) (map (update_category s) sub)) (J_array (map (category_json s) sub))"
    by (intro packs_array_map) (auto simp: list_all_iff)
  moreover have "list_all2 packs (map (element_write s) els) (map (element_json s) els)"
    using Category by (auto simp: list_all2_map1 list_all2_map2 list_all2_same list_all_iff)
  ultimately show ?case
    unfolding update_category.simps category_json.simps using Category.prems
    by (intro packs_array list_all2_appendI) auto
qed

section \<open>Plots\<close>

definition range_json :: "range \<Rightarrow> json" where
  "range_json r = doubles_json [range_min r, range_max r]"

definition axis_json :: "axis_config \<Rightarrow> json" where
  "axis_json a = J_array [J_string (axis_name a), range_json (axis_range a)]"

definition axis_ok :: "axis_config \<Rightarrow> bool" where
  "axis_ok a \<longleftrightarrow> str_ok (axis_name a)"

definition points2_json :: "point2 list \<Rightarrow> json" where
  "points2_json ps = J_array (map doubles_json ps)"

definition points2_ok :: "point2 list \<Rightarrow> bool" where
  "points2_ok ps \<longleftrightarrow> list_ok (\<lambda>p. length p = 2) ps"

definition description_json :: "polygon_description \<Rightarrow> json" where
  "description_json p =
     J_array [points2_json (pd_points p), color_json (pd_outline p), J_int (uint (pd_style p)), color_json (pd_fill p), J_bool (pd_closed p)]"

fun curve_json :: "'s \<Rightarrow> 's plot_data \<Rightarrow> json" where
  "curve_json s (Ordinate name get color cache style side) =
     J_array [J_int (uint (plot_type_code PT_Ordinate)), J_string name, doubles_json cache, color_json (color_now s color),
       J_int (uint style), J_int (uint side)]"
| "curve_json s (AbscissaOrdinate name upd color cache style side) =
     J_array [J_int (uint (plot_type_code PT_AbscissaOrdinate)), J_string name, points2_json cache, color_json (color_now s color),
       J_int (uint style), J_int (uint side)]"
| "curve_json s (Plot_Polygon name get side) =
     J_array [J_int (uint (plot_type_code PT_Polygon)), J_string name, description_json (get s), J_int (uint side)]"
| "curve_json s (Plot_Polygons name get side) =
     J_array [J_int (uint (plot_type_code PT_Polygons)), J_string name, J_array (map description_json (get s)), J_int (uint side)]"

fun curve_ok :: "'s \<Rightarrow> 's plot_data \<Rightarrow> bool" where
  "curve_ok s (Ordinate name get color cache style side) = (str_ok name \<and> vecx_ok cache)"
| "curve_ok s (AbscissaOrdinate name upd color cache style side) = (str_ok name \<and> points2_ok cache)"
| "curve_ok s (Plot_Polygon name get side) = (str_ok name \<and> points2_ok (pd_points (get s)))"
| "curve_ok s (Plot_Polygons name get side) = (str_ok name \<and> list_ok (\<lambda>p. points2_ok (pd_points p)) (get s))"

fun axes_json :: "u64 \<Rightarrow> string \<Rightarrow> 's plot_axes \<Rightarrow> json list" where
  "axes_json uid name (Axes_XY x l r) =
     [J_int (uint (plot_kind_code Plot_XY)), J_int (uint uid), J_string name, axis_json x, axis_json l, axis_json r]"
| "axes_json uid name (Axes_Standard a l r) =
     [J_int (uint (plot_kind_code Plot_Standard)), J_int (uint uid), J_string name,
      J_array [axis_json (ab_config a), doubles_json (ab_cache a)], axis_json l, axis_json r]"

fun axes_ok :: "'s plot_axes \<Rightarrow> bool" where
  "axes_ok (Axes_XY x l r) = (axis_ok x \<and> axis_ok l \<and> axis_ok r)"
| "axes_ok (Axes_Standard a l r) = (axis_ok (ab_config a) \<and> vecx_ok (ab_cache a) \<and> axis_ok l \<and> axis_ok r)"

text \<open>The plot that is sent is the one after the update of this step.\<close>

definition plot_json :: "'s \<Rightarrow> string \<Rightarrow> 's plot_callback \<Rightarrow> json" where
  "plot_json s name p =
     (let p = plot_step s p in J_array (axes_json (plot_uid p) name (plot_axes p) @ map (curve_json s) (plot_curves p)))"

definition plot_ok :: "'s \<Rightarrow> string \<Rightarrow> 's plot_callback \<Rightarrow> bool" where
  "plot_ok s name p \<longleftrightarrow>
     (let p = plot_step s p in
      str_ok name \<and> axes_ok (plot_axes p) \<and> list_all (curve_ok s) (plot_curves p) \<and> length (plot_curves p) < 2 ^ 31 \<and>
      plot_msg_size p = 6 + length (plot_curves p))"

lemma packs_range [intro]: "packs (range_write r) (range_json r)"
  unfolding range_write_def range_json_def doubles_json_def by (rule packs_array) auto

lemma packs_axis [intro]: "axis_ok a \<Longrightarrow> packs (axis_write a) (axis_json a)"
  unfolding axis_write_def axis_json_def axis_ok_def by (rule packs_array) auto

lemma packs_points2 [intro]: "points2_ok ps \<Longrightarrow> packs (write_points2 ps) (points2_json ps)"
  unfolding write_points2_def points2_json_def points2_ok_def by (rule packs_list [of "\<lambda>p. length p = 2"]) auto

lemma packs_description [intro]: "points2_ok (pd_points p) \<Longrightarrow> packs (polygon_write p) (description_json p)"
  unfolding polygon_write_def description_json_def by (rule packs_array) auto

lemma packs_curve [intro]: "curve_ok s d \<Longrightarrow> packs (snd (plot_data_write s d)) (curve_json s d)"
proof (cases d)
  case (Plot_Polygons name get side)
  assume ok: "curve_ok s d"
  then have "packs (builder_array (length (get s)) (map polygon_write (get s))) (J_array (map description_json (get s)))"
    using Plot_Polygons by (intro packs_array_map) (auto simp: list_ok_def list_all_iff)
  with ok Plot_Polygons show ?thesis by (auto intro!: packs_array simp del: plot_type_code.simps)
qed (auto intro!: packs_array simp del: plot_type_code.simps)

lemma packs_axes:
  "axes_ok (axes_update s axes) \<Longrightarrow> str_ok name \<Longrightarrow>
   list_all2 packs (snd (plot_axes_write s uid name axes)) (axes_json uid name (axes_update s axes))"
  by (cases axes) (auto simp: axes_writes abscissa_write_def Let_def simp del: plot_kind_code.simps intro!: packs_array)

lemma packs_plot [intro]: "plot_ok s name p \<Longrightarrow> packs (snd (plot_write s name p)) (plot_json s name p)"
proof -
  assume ok: "plot_ok s name p"
  have "list_all2 packs (snd (plot_axes_write s (plot_uid p) name (plot_axes p))) (axes_json (plot_uid p) name (plot_axes (plot_step s p)))"
    using ok packs_axes [where s = s and axes = "plot_axes p" and name = name and uid = "plot_uid p"] by (simp add: plot_ok_def plot_step_def Let_def)
  moreover have "list_all2 packs (map snd (map (\<lambda>d. plot_data_write s (plot_data_update s d)) (plot_curves p)))
      (map (curve_json s) (plot_curves (plot_step s p)))"
    using ok by (auto simp: plot_ok_def plot_step_def Let_def list_all2_map1 list_all2_map2 list_all2_same list_all_iff)
  moreover have "length (axes_json (plot_uid p) name (plot_axes (plot_step s p))) = 6"
    by (cases "plot_axes (plot_step s p)") simp_all
  moreover have "plot_msg_size (plot_step s p) = plot_msg_size p" "plot_uid (plot_step s p) = plot_uid p"
    by (simp_all add: plot_step_def)
  ultimately show ?thesis
    using ok unfolding plot_write_def plot_json_def Let_def case_prod_beta snd_conv
    by (intro packs_array list_all2_appendI) (simp_all add: plot_ok_def Let_def)
qed


section \<open>The message\<close>

definition gui_json :: "'s \<Rightarrow> 's state_builder \<Rightarrow> json" where
  "gui_json s sb =
     J_array [J_int 4, sb_data sb, category_json s (sb_elements sb), J_array (map (\<lambda>(name, p). plot_json s name p) (sb_plots sb))]"

text \<open>The static data in its binary form is the one of the document, unless it is about to be rewritten.\<close>

definition data_synced :: "'s state_builder \<Rightarrow> bool" where
  "data_synced sb \<longleftrightarrow> (data_buffer sb = [] \<or> 32 \<le> length (data_buffer sb)) \<and>
     (update_data sb \<or> take (data_buffer_size sb) (data_buffer sb) = bytes_of (sb_data sb))"

definition gui_ok :: "'s \<Rightarrow> 's state_builder \<Rightarrow> bool" where
  "gui_ok s sb \<longleftrightarrow> json_packable (sb_data sb) \<and> data_synced sb \<and> category_ok s (sb_elements sb) \<and>
     list_ok (\<lambda>(name, p). plot_ok s name p) (sb_plots sb)"

lemma refresh_synced:
  assumes "json_packable (sb_data sb)" "data_synced sb"
  shows "take (data_buffer_size (refresh_data sb)) (data_buffer (refresh_data sb)) = bytes_of (sb_data sb)"
    "sb_elements (refresh_data sb) = sb_elements sb" "sb_plots (refresh_data sb) = sb_plots sb" "sb_data (refresh_data sb) = sb_data sb"
  using assms toMessagePack_output(1) [OF assms(1), of "data_buffer sb"]
  by (auto simp: refresh_data_def data_synced_def bytes_of_def case_prod_beta Let_def)

lemma packs_gui:
  assumes "gui_ok s sb"
  shows "packs (gui_write s (refresh_data sb)) (gui_json s sb)"
proof -
  have ok: "json_packable (sb_data sb)" "data_synced sb"
    using assms by (simp_all add: gui_ok_def)
  note r = refresh_synced [OF ok]
  have "packs (\<lambda>w. builder_write_object w (bytes_of (sb_data sb))) (sb_data sb)"
    using emitted_object ok(1) by (simp add: packs_def writes_def emitted_def bytes_of_def)
  moreover have "json_value (J_int 4) = MP_scalar (Tag_int (scast PROTOCOL_VERSION))"
    by (simp add: number_value_def PROTOCOL_VERSION_def)
  then have "packs (\<lambda>w. builder_write_i8 w PROTOCOL_VERSION) (J_int 4)"
    using writes_scalars(3) [of PROTOCOL_VERSION] by (simp only: packs_def) simp
  moreover have "packs (plots_write s (sb_plots sb)) (J_array (map (\<lambda>(name, p). plot_json s name p) (sb_plots sb)))"
    unfolding plots_write_def using assms
    by (intro packs_array_map) (auto simp: gui_ok_def list_ok_def list_all_iff)
  moreover have "packs (update_category s (sb_elements sb)) (category_json s (sb_elements sb))"
    using assms by (auto simp: gui_ok_def)
  ultimately show ?thesis
    unfolding gui_write_def gui_json_def r by (intro packs_array) simp_all
qed

lemma gui_update_message:
  assumes "gui_ok s sb" "buffer = [] \<or> 32 \<le> length buffer" "gui_update s sb buffer = (sb', buf, n)"
  shows "take n buf = bytes_of (gui_json s sb)" "n = length (bytes_of (gui_json s sb))" "json_packable (gui_json s sb)"
proof -
  let ?w = "gui_write s (refresh_data sb) (builder_new buffer)"
  have new: "builder_ok (builder_new buffer)" "writer_output (builder_new buffer) = []"
    using builder_new_ok [of buffer] assms(2) by auto
  then have w: "builder_ok ?w" "writer_output ?w = bytes_of (gui_json s sb)"
    using packs_emitted [OF packs_gui [OF assms(1)]] by (auto simp: emitted_def builder_appends_def bytes_of_def)
  have "buf = w_buffer (fst (builder_finish ?w))" "n = snd (builder_finish ?w)"
    using assms(3) by (auto simp: gui_update_def Let_def case_prod_beta)
  with builder_finish_ok [OF w(1)] w(2) show "take n buf = bytes_of (gui_json s sb)" "n = length (bytes_of (gui_json s sb))"
    by simp_all
  show "json_packable (gui_json s sb)"
    using packs_gui [OF assms(1)] by (simp add: packs_def)
qed

end
