(* ===== verification/Gui_Client_Correct.thy ===== *)
theory Gui_Client_Correct
  imports Gui_Client_State Gui_Content
begin

text \<open>
  The client against the server: the calls that a GUI ought to cause, given by its elements and the values
  of their getters, are the calls the client makes for the message of that GUI.
\<close>

section \<open>Sequences of calls\<close>

lemma then_do_calls [simp]: "then_do (calls a) (calls b) = calls (a @ b)"
  by (simp add: then_do_def calls_def)

lemma converted_Inr [simp]: "converted (Inr x) f = f x"
  by (simp add: converted_def)

lemma caught_calls [simp]: "caught (calls a) = calls a"
  by (simp add: caught_def calls_def)

lemma calls_inject [simp]: "calls a = calls b \<longleftrightarrow> a = b"
  by (simp add: calls_def)

lemma do_each_calls: "(\<And>x. x \<in> set xs \<Longrightarrow> f x = calls (g x)) \<Longrightarrow> do_each f xs = calls (concat (map g xs))"
  by (induction xs) simp_all

section \<open>Reading values\<close>

lemma to_vector_doubles: "vec3_ok v \<Longrightarrow> to_vector 3 (doubles_json v) = Inr v"
  using convert_all_map [of v GetDouble J_double id] by (cases v) (simp_all add: to_vector_def doubles_json_def vec3_ok_def)

lemma to_vectorx_doubles [simp]: "to_vectorx (doubles_json v) = Inr v"
  using convert_all_map [of v GetDouble J_double id] by (cases v) (simp_all add: to_vectorx_def doubles_json_def)

lemma to_ptransform_pair: "transform_ok p \<Longrightarrow> to_ptransform rf (pair_json p) = Inr p"
  unfolding pair_json_def by (rule read_transform)

lemma to_spatial_pair: "force_ok f \<Longrightarrow> to_spatial a b (pair_json f) = Inr f"
  using spatial_array [of "fst f" "snd f" a b] by (simp add: pair_json_def doubles_json_def force_ok_def)

lemma to_list_map:
  "(\<And>x. x \<in> set xs \<Longrightarrow> conv (g x) = Inr x) \<Longrightarrow> to_std_vector conv (J_array (map g xs)) = Inr xs"
  using convert_all_map [of xs conv g id] by (simp add: to_std_vector_def)

lemma to_array_map:
  "length xs = n \<Longrightarrow> (\<And>x. x \<in> set xs \<Longrightarrow> conv (g x) = Inr x) \<Longrightarrow> to_std_array n conv (J_array (map g xs)) = Inr xs"
  using convert_all_map [of xs conv g id] by (simp add: to_std_array_def)

lemma to_strings [simp]: "to_std_vector to_string (strings_json ss) = Inr ss"
  by (rule read_strings)

lemma to_doubles [simp]: "to_std_vector to_double (doubles_json ds) = Inr ds"
  by (rule read_doubles)

text \<open>The forms of a trajectory and of a polygon exclude each other, except when they are empty.\<close>

lemma not_ptransform:
  "to_ptransform rf (J_double d) = Inl (Wrong_type ''PTransformd'')"
  "vec3_ok v \<Longrightarrow> to_ptransform rf (doubles_json v) = Inl (Wrong_type ''PTransformd'')"
  by (simp_all add: to_ptransform_def config_find_def config_size_def doubles_json_def vec3_ok_def)

lemma not_vector: "to_vector 3 (J_double d) = Inl (Wrong_type ''Vector'')"
  by (simp add: to_vector_def)

lemma not_vector_long: "length ds = 12 \<Longrightarrow> to_vector 3 (doubles_json ds) = Inl (Wrong_type ''Vector'')"
  by (simp add: to_vector_def doubles_json_def)

lemma not_list:
  "xs \<noteq> [] \<Longrightarrow> (\<And>x. x \<in> set xs \<Longrightarrow> conv (g x) = Inl err) \<Longrightarrow> to_std_vector conv (J_array (map g xs)) = Inl err"
  by (cases xs) (simp_all add: to_std_vector_def)

section \<open>Elements\<close>

definition label_text :: "client_env \<Rightarrow> gui_data \<Rightarrow> string" where
  "label_text env d = (case data_json d of J_string t \<Rightarrow> t | v \<Rightarrow> ce_dump env v)"

definition formatted :: "string option \<Rightarrow> string \<Rightarrow> string" where
  "formatted out text = (case out of Some t \<Rightarrow> t | None \<Rightarrow> text)"

definition cell_text :: "client_env \<Rightarrow> string \<Rightarrow> gui_data \<Rightarrow> string" where
  "cell_text env f d =
     formatted
       (if IsString (data_json d) then ce_fmt_string env f (label_text env d)
        else case to_double (data_json d) of
               Inr x \<Rightarrow> ce_fmt_double env f x
             | Inl _ \<Rightarrow> ce_fmt_string env f (ce_dump env (data_json d))) (label_text env d)"

definition row_text :: "client_env \<Rightarrow> string list \<Rightarrow> gui_data list \<Rightarrow> string list" where
  "row_text env format row =
     map (\<lambda>i. cell_text env (if i < length format then format ! i else ''{}'') (row ! i)) [0..<length row]"

fun trajectory_seen :: "trajectory_data \<Rightarrow> trajectory_data" where
  "trajectory_seen (TR_points []) = TR_poses []"
| "trajectory_seen t = t"

fun polygons_seen :: "polygon_data \<Rightarrow> vec3 list list" where
  "polygons_seen (PD_points vs) = (if vs = [] then [] else [vs])"
| "polygons_seen (PD_polygons ps) = ps"

fun pose_seen :: "visual_pose \<Rightarrow> ptransform" where
  "pose_seen (VP_position v) = (identity3, v)"
| "pose_seen (VP_pose p) = p"

definition colors_fit :: "'a list \<Rightarrow> 'b list \<Rightarrow> bool" where
  "colors_fit colors xs \<longleftrightarrow> colors = [] \<or> length colors = length xs"

fun form_calls :: "'s \<Rightarrow> element_id \<Rightarrow> 's form_input \<Rightarrow> client_call list" where
  "form_calls s eid (FormCheckbox n r d h) = [CC_form_checkbox eid n r (cv_now s d) h]"
| "form_calls s eid (FormIntegerInput n r d h) = [CC_form_integer_input eid n r (cv_now s d) h]"
| "form_calls s eid (FormNumberInput n r d h) = [CC_form_number_input eid n r (cv_now s d) h]"
| "form_calls s eid (FormStringInput n r d h) = [CC_form_string_input eid n r (cv_now s d) h]"
| "form_calls s eid (FormPoint3DInput n r d h i) = [CC_form_point3d_input eid n r (cv_now s d) h i]"
| "form_calls s eid (FormRotationInput n r d h i) = [CC_form_rotation_input eid n r (cv_now s d) h i]"
| "form_calls s eid (FormTransformInput n r d h i) = [CC_form_transform_input eid n r (cv_now s d) h i]"
| "form_calls s eid (FormArrayInput n r d f h ls) = [CC_form_array_input eid n r ls (cv_now s d) f h]"
| "form_calls s eid (FormComboInput n r vs i d) = [CC_form_combo_input eid n r vs i d]"
| "form_calls s eid (FormDataComboInput n r vs i) = [CC_form_data_combo_input eid n r vs i]"
| "form_calls s eid (FormObjectInput n r els) =
     [CC_start_form_object_input n r] @ concat (map (form_calls s eid) (form_order els)) @ [CC_end_form_object_input]"
| "form_calls s eid (FormGenericArrayInput n r el d) =
     [CC_start_form_generic_array_input n r
        (case d of None \<Rightarrow> None | Some d \<Rightarrow> (case cv_now s d of J_array vs \<Rightarrow> Some vs | _ \<Rightarrow> None))] @
     form_calls s eid el @ [CC_end_form_generic_array_input]"
| "form_calls s eid (FormOneOfInput n r d els) =
     [CC_start_form_one_of_input n r (map_option (\<lambda>d. (of_nat (fst (cv_now s d)), snd (cv_now s d))) d)] @
     concat (map (form_calls s eid) (form_order els)) @ [CC_end_form_one_of_input]"

fun widget_calls :: "client_env \<Rightarrow> 's \<Rightarrow> element_id \<Rightarrow> 's widget \<Rightarrow> client_call list" where
  "widget_calls env s eid (Label get) = [CC_label eid (label_text env (get s))]"
| "widget_calls env s eid (ArrayLabel get labels) = [CC_array_label eid labels (get s)]"
| "widget_calls env s eid (Button cb) = [CC_button eid]"
| "widget_calls env s eid (Checkbox get cb) = [CC_checkbox eid (get s)]"
| "widget_calls env s eid (StringInput get cb) = [CC_string_input eid (get s)]"
| "widget_calls env s eid (IntegerInput get cb) = [CC_integer_input eid (get s)]"
| "widget_calls env s eid (NumberInput get cb) = [CC_number_input eid (get s)]"
| "widget_calls env s eid (NumberSlider get cb mn mx) = [CC_number_slider eid (get s) mn mx]"
| "widget_calls env s eid (ArrayInput get dim cb labels) = [CC_array_input eid labels (get s)]"
| "widget_calls env s eid (ComboInput get cb values) = [CC_combo_input eid values (get s)]"
| "widget_calls env s eid (DataComboInput get cb data_ref) = [CC_data_combo_input eid data_ref (get s)]"
| "widget_calls env s eid (Point3D get cb config) =
     [label_or_input (cb = None) eid [''x'', ''y'', ''z''] (get s), CC_point3d (sub_id eid ''_point3d'') eid (cb = None) (get s) config]"
| "widget_calls env s eid (Trajectory get config) = [CC_trajectory eid (trajectory_seen (get s)) config]"
| "widget_calls env s eid (Rotation get cb) =
     [label_or_input (cb = None) eid [''w'', ''x'', ''y'', ''z''] (matrix_quaternion (ce_rotation env) (fst (get s))),
      CC_rotation (sub_id eid ''_rotation'') eid (cb = None) (get s)]"
| "widget_calls env s eid (Transform get cb) =
     [label_or_input (cb = None) eid [''qw'', ''qx'', ''qy'', ''qz'', ''tx'', ''ty'', ''tz'']
        (matrix_quaternion (ce_rotation env) (fst (get s)) @ snd (get s)),
      CC_transform (sub_id eid ''_transform'') eid (cb = None) (get s)]"
| "widget_calls env s eid (Schema schema cb) = [CC_schema eid schema]"
| "widget_calls env s eid (Form els cb) = CC_form eid # concat (map (form_calls s eid) (form_order els))"
| "widget_calls env s eid (Polygon get config) = [CC_polygon eid (polygons_seen (get s)) config]"
| "widget_calls env s eid (Force get surface cb config) =
     [label_or_input (cb = None) eid [''cx'', ''cy'', ''cz'', ''fx'', ''fy'', ''fz''] (fst (get s) @ snd (get s)),
      CC_force (sub_id eid ''_arrow'') eid (get s) (surface s) config (cb = None)]"
| "widget_calls env s eid (Arrow get_start get_end cb config) =
     [label_or_input (cb = None) eid [''tx_0'', ''ty_0'', ''tz_0'', ''tx_1'', ''ty_1'', ''tz_1''] (get_start s @ get_end s),
      CC_arrow (sub_id eid ''_arrow'') eid (get_start s) (get_end s) config (cb = None)]"
| "widget_calls env s eid (XYTheta get cb) =
     (if length (get s) < 3 then []
      else [label_or_input (cb = None) eid [''X'', ''Y'', ''Theta'', ''Altitude''] (get s),
            CC_xytheta (sub_id eid ''_xytheta'') eid (cb = None) (take 3 (get s)) (if length (get s) = 4 then get s ! 3 else 0)])"
| "widget_calls env s eid (Table header data format) =
     [CC_table_start eid (header s)] @
     map (\<lambda>row. CC_table_row eid (row_text env (case format of None \<Rightarrow> [] | Some f \<Rightarrow> f s) row)) (filter (\<lambda>row. row \<noteq> []) (data s)) @
     [CC_table_end eid]"
| "widget_calls env s eid (Robot get) = (let (parameters, q, posW) = get s in [CC_robot eid parameters q posW])"
| "widget_calls env s eid (Visual visual pose) = [CC_visual eid (visual s) (pose_seen (pose s))]"
| "widget_calls env s eid (PolyhedronTrianglesList triangles config colors) =
     (let cs = (case colors of None \<Rightarrow> [] | Some f \<Rightarrow> f s) in
      if colors_fit cs (triangles s) then [CC_polyhedron_triangles eid (triangles s) cs config] else [])"
| "widget_calls env s eid (PolyhedronVerticesTriangles vertices triangles config colors) =
     (let cs = (case colors of None \<Rightarrow> [] | Some f \<Rightarrow> f s) in
      if colors_fit cs (vertices s) then [CC_polyhedron_vertices eid (vertices s) (triangles s) cs config] else [])"
| "widget_calls env s eid (RobotMsg get) = [CC_robot_msg eid (get s)]"

text \<open>The loader of \<open>rbd::parsers::Visual\<close> reads what its saver wrote.\<close>

fun visual_loads :: "client_env \<Rightarrow> 's \<Rightarrow> 's widget \<Rightarrow> bool" where
  "visual_loads env s (Visual visual pose) \<longleftrightarrow> ce_visual env (visual s) = Inr (visual s)"
| "visual_loads env s _ \<longleftrightarrow> True"


lemma element_of_code [simp]: "element_of (element_code ty) = Some ty"
  by (cases ty) (simp_all add: element_of_def element_code_def all_elements_def)

declare handle_form.simps [simp del]

lemma form_entry [simp]:
  "at_as (form_element_json n r ty vs) 0 to_string = Inr n"
  "at_as (form_element_json n r ty vs) 1 to_int32 = Inr (element_code ty)"
  "at_as (form_element_json n r ty vs) (Suc 0) to_int32 = Inr (element_code ty)"
  "at_as (form_element_json n r ty vs) 2 to_bool = Inr r"
  "config_size (form_element_json n r ty vs) = 3 + length vs"
  by (simp_all add: form_element_json_def config_size_def)

lemma form_entry_at:
  "i < length vs \<Longrightarrow> at_as (form_element_json n r ty vs) (3 + i) conv = conv (vs ! i)"
  "i < length vs \<Longrightarrow> config_index (form_element_json n r ty vs) (3 + i) = Inr (vs ! i)"
  by (simp_all add: form_element_json_def config_index_def config_size_def)

lemma form_entry_nth [simp]:
  "at_as (form_element_json n r ty (v # vs)) 3 conv = conv v"
  "config_index (form_element_json n r ty (v # vs)) 3 = Inr v"
  "at_as (form_element_json n r ty (v0 # v1 # vs)) 4 conv = conv v1"
  "config_index (form_element_json n r ty (v0 # v1 # vs)) 4 = Inr v1"
  "at_as (form_element_json n r ty (v0 # v1 # v2 # vs)) 5 conv = conv v2"
  "at_as (form_element_json n r ty (v0 # v1 # v2 # v3 # vs)) 6 conv = conv v3"
  by (simp_all add: form_element_json_def config_index_def config_size_def)

text \<open>The client reads the elements of a form in the order in which they were sent.\<close>

definition reads_form :: "'s \<Rightarrow> 's form_input \<Rightarrow> bool" where
  "reads_form s e \<longleftrightarrow> (\<forall>env eid. handle_form env eid (J_array [form_json s e]) = calls (form_calls s eid e))"

lemma then_do_nil [simp]: "then_do r (calls []) = r" "then_do (calls []) r = r"
  by (simp_all add: then_do_def calls_def split: option.split) (metis prod.collapse)

lemma then_do_assoc: "then_do (then_do a b) c = then_do a (then_do b c)"
  by (simp add: then_do_def split: option.split)

lemma handle_form_Cons: "handle_form env eid (J_array (v # vs)) = then_do (handle_form env eid (J_array [v])) (handle_form env eid (J_array vs))"
  by (simp add: handle_form.simps [of _ _ "J_array _"] array_elements_def)

lemma handle_form_list:
  assumes "\<And>e. e \<in> set els \<Longrightarrow> reads_form s e"
  shows "handle_form env eid (J_array (map (form_json s) els)) = calls (concat (map (form_calls s eid) els))"
  using assms
proof (induction els)
  case Nil
  then show ?case by (simp add: handle_form.simps array_elements_def)
next
  case (Cons e els)
  then show ?case
    using handle_form_Cons [of env eid "form_json s e" "map (form_json s) els"] by (simp add: reads_form_def)
qed


lemmas form_readers = form_input_call_def form_interactive_call_def default_at_def to_vector_doubles to_ptransform_pair

lemma reads_form_simple:
  "reads_form s (FormCheckbox n r d h)"
  "reads_form s (FormIntegerInput n r d0 h)"
  "reads_form s (FormNumberInput n r d1 h)"
  "reads_form s (FormStringInput n r d2 h)"
  "reads_form s (FormArrayInput n r d3 f h ls)"
  "reads_form s (FormComboInput n r vs i d4)"
  "reads_form s (FormDataComboInput n r vs i)"
  by (simp_all add: reads_form_def handle_form.simps [of _ _ "J_array _"] array_elements_def form_readers)

lemma reads_form_interactive:
  "vec3_ok (cv_now s d) \<Longrightarrow> reads_form s (FormPoint3DInput n r d h i)"
  "transform_ok (cv_now s d0) \<Longrightarrow> reads_form s (FormRotationInput n r d0 h i)"
  "transform_ok (cv_now s d0) \<Longrightarrow> reads_form s (FormTransformInput n r d0 h i)"
  by (simp_all add: reads_form_def handle_form.simps [of _ _ "J_array _"] array_elements_def form_readers)

lemma handle_form_object:
  "handle_form env eid (J_array [form_element_json n r E_Form [sub]]) =
     then_do (calls [CC_start_form_object_input n r]) (then_do (handle_form env eid sub) (calls [CC_end_form_object_input]))"
  by (subst handle_form.simps) (simp add: array_elements_def)

lemma handle_form_generic:
  "handle_form env eid (J_array [form_element_json n r E_GenericArray [J_array [v], d]]) =
     then_do (calls [CC_start_form_generic_array_input n r (if IsArray d then Some (array_elements d) else None)])
       (then_do (handle_form env eid (J_array [v])) (calls [CC_end_form_generic_array_input]))"
  by (subst handle_form.simps) (simp add: array_elements_def config_size_def)

lemma handle_form_one_of:
  "(if IsArray d then conf_bind (to_pair d) (\<lambda>p. Inr (Some p)) else Inr None) = Inr p \<Longrightarrow>
   handle_form env eid (J_array [form_element_json n r E_OneOf [d, sub]]) =
     then_do (calls [CC_start_form_one_of_input n r p]) (then_do (handle_form env eid sub) (calls [CC_end_form_one_of_input]))"
  by (subst handle_form.simps) (simp add: array_elements_def split: if_splits)

lemma to_pair_variant: "i < 2 ^ 64 \<Longrightarrow> to_pair (variant_json (i, v)) = Inr (of_nat i, v)"
  using to_uint64_J [of "of_nat i"] by (simp add: to_pair_def variant_json_def config_size_def uint_nat unat_of_nat)

lemma reads_form_all: "form_ok s e \<Longrightarrow> reads_form s e"
proof (induction e)
  case (FormObjectInput n r els)
  then have "handle_form env eid (J_array (map (form_json s) (form_order els))) = calls (concat (map (form_calls s eid) (form_order els)))" for env eid
    by (intro handle_form_list) (auto simp: list_all_iff)
  then show ?case
    unfolding reads_form_def form_json.simps handle_form_object by simp
next
  case (FormGenericArrayInput n r el d)
  then show ?case
    unfolding reads_form_def form_json.simps handle_form_generic
    by (cases d) (simp_all add: optional_json_def array_elements_def split: json.split)
next
  case (FormOneOfInput n r d els)
  let ?d = "optional_json variant_json d s"
  let ?p = "map_option (\<lambda>d. (of_nat (fst (cv_now s d)), snd (cv_now s d))) d"
  have "(if IsArray ?d then conf_bind (to_pair ?d) (\<lambda>p. Inr (Some p)) else Inr None) = (Inr ?p :: config_error + (u64 \<times> json) option)"
  proof (cases d)
    case (Some c)
    then show ?thesis
      using FormOneOfInput.prems to_pair_variant [of "fst (cv_now s c)" "snd (cv_now s c)"]
      by (simp add: optional_json_def) (simp add: variant_json_def)
  qed (simp add: optional_json_def)
  moreover have "handle_form env eid (J_array (map (form_json s) (form_order els))) = calls (concat (map (form_calls s eid) (form_order els)))" for env eid
    using FormOneOfInput by (intro handle_form_list) (auto simp: list_all_iff)
  ultimately show ?case
    unfolding reads_form_def form_json.simps by (simp add: handle_form_one_of)
qed (auto simp: reads_form_simple reads_form_interactive)


section \<open>Dispatching an element\<close>

definition element_data :: "string \<Rightarrow> elements \<Rightarrow> json \<Rightarrow> json list \<Rightarrow> json" where
  "element_data n ty sid vs = J_array ([J_string n, J_int (sint (element_code ty)), sid] @ vs)"

lemma element_data_entry [simp]:
  "at_as (element_data n ty sid vs) 0 to_string = Inr n"
  "at_as (element_data n ty sid vs) 1 to_int32 = Inr (element_code ty)"
  "at_as (element_data n ty sid vs) (Suc 0) to_int32 = Inr (element_code ty)"
  "config_size (element_data n ty sid vs) = 3 + length vs"
  "config_index (element_data n ty sid vs) 2 = Inr sid"
  by (simp_all add: element_data_def config_size_def config_index_def)

lemma element_data_nth [simp]:
  "at_as (element_data n ty sid (v # vs)) 3 conv = conv v"
  "config_index (element_data n ty sid (v # vs)) 3 = Inr v"
  "at_as (element_data n ty sid (v0 # v1 # vs)) 4 conv' = conv' v1"
  "config_index (element_data n ty sid (v0 # v1 # vs)) 4 = Inr v1"
  "at_as (element_data n ty sid (v0 # v1 # v2 # vs)) 5 conv2 = conv2 v2"
  "config_index (element_data n ty sid (v0 # v1 # v2 # vs)) 5 = Inr v2"
  "at_as (element_data n ty sid (v0 # v1 # v2 # v3 # vs)) 6 conv3 = conv3 v3"
  "at_as (element_data n ty sid (v0 # v1 # v2 # v3 # v4 # vs)) 7 conv4 = conv4 v4"
  "at_as (element_data n ty sid (v0 # v1 # v2 # v3 # v4 # v5 # vs)) 8 conv5 = conv5 v5"
  "at_as (element_data n ty sid (v0 # v1 # v2 # v3 # v4 # v5 # v6 # vs)) 9 conv6 = conv6 v6"
  by (simp_all add: element_data_def config_index_def config_size_def)

lemma config_at_or_index: "config_index v i = Inr x \<Longrightarrow> conv x = Inr y \<Longrightarrow> config_at_or v i conv d = y"
  by (simp add: config_at_or_def)

lemma config_at_or_missing: "config_index v i = Inl err \<Longrightarrow> config_at_or v i conv d = d"
  by (simp add: config_at_or_def)

definition shown :: "client_env \<Rightarrow> 's \<Rightarrow> 's widget \<Rightarrow> bool" where
  "shown env s w \<longleftrightarrow> (\<forall>eid n sid. handle_widget env eid (element_data n (widget_type w) sid (widget_json s w)) =
     calls (widget_calls env s eid w))"

lemma read_trajectory:
  assumes "trajectory_ok t"
  shows "to_trajectory rf (trajectory_json t) = Inr (trajectory_seen t)"
proof (cases t)
  case (TR_point v)
  then have "v \<noteq> []" "vec3_ok v" using assms by (auto simp: vec3_ok_def)
  then show ?thesis
    using TR_point not_list [of v "to_ptransform rf" J_double] not_list [of v "to_vector 3" J_double] to_vector_doubles [of v]
    by (simp add: to_trajectory_def doubles_json_def not_ptransform not_vector or_else_def)
next
  case (TR_pose p)
  define ds where "ds = fst p @ snd p"
  then have ds: "ds \<noteq> []" "length ds = 12" "pair_json p = doubles_json ds"
    using assms TR_pose by (auto simp: transform_ok_def pair_json_def)
  then show ?thesis
    using assms TR_pose not_list [of ds "to_ptransform rf" J_double] not_list [of ds "to_vector 3" J_double] to_ptransform_pair [of p rf]
      not_vector_long [of ds]
    by (simp add: to_trajectory_def not_ptransform not_vector or_else_def) (simp add: doubles_json_def)
next
  case (TR_points vs)
  then have "\<And>v. v \<in> set vs \<Longrightarrow> vec3_ok v" using assms by (simp add: list_ok_def list_all_iff)
  then show ?thesis
    using TR_points not_list [of vs "to_ptransform rf" doubles_json] to_list_map [of vs "to_vector 3" doubles_json]
    by (cases vs) (simp_all add: to_trajectory_def not_ptransform to_vector_doubles or_else_def to_std_vector_def)
next
  case (TR_poses ps)
  then have "\<And>p. p \<in> set ps \<Longrightarrow> transform_ok p" using assms by (simp add: list_ok_def list_all_iff)
  then show ?thesis
    using TR_poses to_list_map [of ps "to_ptransform rf" pair_json]
    by (simp add: to_trajectory_def to_ptransform_pair or_else_def)
qed

lemma read_polygon:
  assumes "polygon_ok p"
  shows "or_else (to_std_vector (to_std_vector (to_vector 3)) (polygon_json p))
      (conf_bind (to_std_vector (to_vector 3) (polygon_json p)) (\<lambda>p. Inr [p])) = Inr (polygons_seen p)"
proof (cases p)
  case (PD_points vs)
  then have ok: "\<And>v. v \<in> set vs \<Longrightarrow> vec3_ok v" using assms by (simp add: list_ok_def list_all_iff)
  have "to_std_vector (to_vector 3) (doubles_json v) = Inl (Wrong_type ''Vector'')" if "v \<in> set vs" for v
    using ok [OF that] not_list [of v "to_vector 3" J_double] by (cases v) (auto simp: doubles_json_def not_vector vec3_ok_def)
  then show ?thesis
    using PD_points ok not_list [of vs "to_std_vector (to_vector 3)" doubles_json] to_list_map [of vs "to_vector 3" doubles_json]
    by (cases "vs = []") (simp_all add: to_vector_doubles or_else_def to_std_vector_def)
next
  case (PD_polygons ps)
  then have "to_std_vector (to_vector 3) (J_array (map doubles_json vs)) = Inr vs" if "vs \<in> set ps" for vs
    using that assms by (intro to_list_map to_vector_doubles) (auto simp: list_ok_def list_all_iff)
  then show ?thesis
    using PD_polygons to_list_map [of ps "to_std_vector (to_vector 3)" "\<lambda>vs. J_array (map doubles_json vs)"]
    by (simp add: or_else_def)
qed


lemma shown_basic:
  "shown env s (ArrayLabel getv labels)" "shown env s (Button cb)" "shown env s (Checkbox getb cb)"
  "shown env s (StringInput gets set_s)" "shown env s (IntegerInput geti set_i)" "shown env s (NumberInput getd set_d)"
  "shown env s (NumberSlider getd set_d mn mx)" "shown env s (ArrayInput getv dim set_v labels)"
  "shown env s (ComboInput gets set_s values)" "shown env s (DataComboInput gets set_s values)" "shown env s (Schema schema set_j)"
  by (simp_all add: shown_def handle_widget_def config_at_or_index [OF element_data_nth(4)])

lemma shown_label: "shown env s (Label get)"
  by (auto simp: shown_def handle_widget_def at_or_dump_def label_text_def config_at_or_def to_string_def split: json.split)

lemma shown_spatial:
  "vec3_ok (getp s) \<Longrightarrow> shown env s (Point3D getp set_p config)"
  "transform_ok (gett s) \<Longrightarrow> shown env s (Rotation gett set_q)"
  "transform_ok (gett s) \<Longrightarrow> shown env s (Transform gett set_t)"
  "force_ok (getf s) \<Longrightarrow> transform_ok (gett s) \<Longrightarrow> shown env s (Force getf gett set_f fconfig)"
  "vec3_ok (getp s) \<Longrightarrow> vec3_ok (gete s) \<Longrightarrow> shown env s (Arrow getp gete set_a aconfig)"
  "shown env s (XYTheta getv set_v)"
  by (simp_all add: shown_def handle_widget_def handle_point3d_def handle_rotation_def handle_transform_def handle_force_def
      handle_arrow_def handle_xytheta_def optional_config_def to_vector_doubles to_ptransform_pair to_spatial_pair)

lemma shown_trajectory: "trajectory_ok (get s) \<Longrightarrow> line_ok config \<Longrightarrow> shown env s (Trajectory get config)"
  by (simp add: shown_def handle_widget_def handle_trajectory_def optional_config_def read_trajectory)

lemma shown_polygon: "polygon_ok (get s) \<Longrightarrow> line_ok config \<Longrightarrow> shown env s (Polygon get config)"
  by (simp add: shown_def handle_widget_def handle_polygon_def read_polygon) (simp add: line_json_def config_size_def)

lemma shown_form: "list_all (form_ok s) els \<Longrightarrow> shown env s (Form els cb)"
  using handle_form_list [of "form_order els" s] reads_form_all [of s]
  by (simp add: shown_def handle_widget_def list_all_iff)

lemma shown_visual:
  assumes "visual_pose_ok (pose s)" "ce_visual env (visual s) = Inr (visual s)"
  shows "shown env s (Visual visual pose)"
proof (cases "pose s")
  case (VP_position v)
  then show ?thesis
    using assms to_vector_doubles [of v]
    by (simp add: shown_def handle_widget_def config_size_def doubles_json_def vec3_ok_def)
next
  case (VP_pose p)
  moreover have "config_size (pair_json p) = 12" if "transform_ok p"
    using that by (simp add: config_size_def pair_json_def doubles_json_def transform_ok_def)
  ultimately show ?thesis
    using assms to_ptransform_pair [of p "ce_rotation env"] by (simp add: shown_def handle_widget_def)
qed

lemma shown_robot:
  assumes "widget_ok s (Robot get)"
  shows "shown env s (Robot get)"
proof -
  obtain parameters q posW where g: "get s = (parameters, q, posW)" by (cases "get s") auto
  then have "to_std_vector (to_std_vector to_double) (J_array (map doubles_json q)) = Inr q" "transform_ok posW"
    using assms read_joints by auto
  with g to_ptransform_pair [of posW "ce_rotation env"] show ?thesis
    by (simp add: shown_def handle_widget_def)
qed

lemma shown_robot_msg:
  assumes "widget_ok s (RobotMsg get)"
  shows "shown env s (RobotMsg get)"
proof -
  have "to_std_vector (to_spatial ''couple'' ''force'') (J_array (map pair_json (rm_forces (get s)))) = Inr (rm_forces (get s))"
    using assms by (intro to_list_map to_spatial_pair) (auto simp: Let_def list_ok_def list_all_iff)
  with assms to_ptransform_pair [of "rm_posW (get s)" "ce_rotation env"] show ?thesis
    by (simp add: shown_def handle_widget_def Let_def)
qed


lemma read_triangles:
  assumes "list_ok (\<lambda>t. triple_ok t \<and> list_all vec3_ok t) ts"
  shows "to_std_vector (to_std_array 3 (to_vector 3)) (J_array (map (\<lambda>t. J_array (map doubles_json t)) ts)) = Inr ts"
  using assms by (intro to_list_map to_array_map to_vector_doubles) (auto simp: list_ok_def list_all_iff triple_ok_def)

lemma read_triangle_colors:
  "list_ok triple_ok cs \<Longrightarrow> to_std_vector (to_std_array 3 color_fromConfig) (J_array (map (\<lambda>t. J_array (map color_json t)) cs)) = Inr cs"
  by (intro to_list_map to_array_map) (auto simp: list_ok_def list_all_iff triple_ok_def)

lemma read_indices:
  "list_ok triple_ok ts \<Longrightarrow> to_std_vector (to_std_array 3 to_uint64) (J_array (map (\<lambda>t. J_array (map (\<lambda>i. J_int (uint i)) t)) ts)) = Inr ts"
  by (intro to_list_map to_array_map) (auto simp: list_ok_def list_all_iff triple_ok_def)

lemma read_colors: "to_std_vector color_fromConfig (J_array (map color_json cs)) = Inr cs"
  by (intro to_list_map) simp

lemma read_points: "list_ok vec3_ok vs \<Longrightarrow> to_std_vector (to_vector 3) (J_array (map doubles_json vs)) = Inr vs"
  by (intro to_list_map to_vector_doubles) (auto simp: list_ok_def list_all_iff)

lemma shown_triangles:
  assumes "widget_ok s (PolyhedronTrianglesList triangles config colors)"
  shows "shown env s (PolyhedronTrianglesList triangles config colors)"
  using assms read_triangles [of "triangles s"]
  by (cases colors)
    (auto simp: shown_def handle_widget_def handle_polyhedron_triangles_list_def optional_colors_def read_triangle_colors colors_fit_def Let_def)

lemma shown_vertices:
  assumes "widget_ok s (PolyhedronVerticesTriangles vertices triangles config colors)"
  shows "shown env s (PolyhedronVerticesTriangles vertices triangles config colors)"
  using assms read_points [of "vertices s"] read_indices [of "triangles s"]
  by (cases colors)
    (auto simp: shown_def handle_widget_def handle_polyhedron_vertices_triangles_def optional_colors_def read_colors colors_fit_def Let_def)

text \<open>Tables.\<close>

lemma index_row [simp]: "i < length row \<Longrightarrow> config_index (J_array (map data_json row)) i = Inr (data_json (row ! i))"
  by (simp add: config_index_def config_size_def)

lemma at_or_dump_row: "i < length row \<Longrightarrow> at_or_dump env (J_array (map data_json row)) i = Inr (label_text env (row ! i))"
  by (auto simp: at_or_dump_def label_text_def config_at_or_def to_string_def split: json.split)

lemma format_row:
  assumes "i < length row"
  shows "format_data env format (J_array (map data_json row)) i =
    Inr (cell_text env (if i < length format then format ! i else ''{}'') (row ! i))"
  using assms by (auto simp: format_data_def cell_text_def formatted_def at_or_dump_row Let_def split: sum.split option.split)

lemma convert_row:
  "convert_all (format_data env format (J_array (map data_json row))) [0..<length row] = Inr (row_text env format row)"
  unfolding row_text_def using convert_all_map [of "[0..<length row]" "format_data env format (J_array (map data_json row))" id]
    format_row [of _ row env format] by (simp add: atLeast0LessThan)

lemma table_rows:
  "handle_table env eid header format (map (\<lambda>row. J_array (map data_json row)) rows) =
     calls ([CC_table_start eid header] @ map (\<lambda>row. CC_table_row eid (row_text env format row)) (filter (\<lambda>row. row \<noteq> []) rows) @
       [CC_table_end eid])"
proof -
  have "do_each (\<lambda>c. if config_size c = 0 then calls []
      else converted (convert_all (format_data env format c) [0..<config_size c]) (\<lambda>data_str. calls [CC_table_row eid data_str]))
      (map (\<lambda>row. J_array (map data_json row)) rows) =
    calls (map (\<lambda>row. CC_table_row eid (row_text env format row)) (filter (\<lambda>row. row \<noteq> []) rows))"
    using convert_row [of env format] by (induction rows) (auto simp: config_size_def)
  then show ?thesis by (simp add: handle_table_def)
qed

lemma shown_table: "shown env s (Table header data format)"
proof (cases format)
  case None
  have "config_index (element_data n E_Table sid [a, b]) 5 = Inl Out_of_bound" for n sid a b
    by (simp add: element_data_def config_index_def config_size_def)
  with None show ?thesis
    by (simp add: shown_def handle_widget_def config_at_or_def to_std_vector_def [of Inr] table_rows convert_all_map [where g = id and h = id, simplified])
next
  case (Some f)
  then show ?thesis
    by (simp add: shown_def handle_widget_def config_at_or_def to_std_vector_def [of Inr] table_rows convert_all_map [where g = id and h = id, simplified])
qed

lemma shown_all: "widget_ok s w \<Longrightarrow> visual_loads env s w \<Longrightarrow> shown env s w"
  by (cases w) (auto simp: shown_basic shown_label shown_table
      intro: shown_spatial shown_trajectory shown_polygon shown_form shown_visual shown_robot shown_robot_msg shown_triangles shown_vertices
      simp del: widget_ok.simps(17,18,20,21,22))

end
