(* ===== verification/Gui_Roundtrip.thy ===== *)
theory Gui_Roundtrip
  imports Gui_Client_Correct
begin

text \<open>
  From the tree of the server to the calls of the client: categories, plots and the whole message.
\<close>

section \<open>Categories\<close>

definition element_sid :: "'s element_store \<Rightarrow> int" where
  "element_sid el = (if es_stacking el = Vertical then - 1 else es_id el)"

definition element_calls :: "client_env \<Rightarrow> 's \<Rightarrow> string list \<Rightarrow> 's element_store \<Rightarrow> client_call list" where
  "element_calls env s path el =
     widget_calls env s \<lparr>eid_category = path, eid_name = es_name el, eid_sid = element_sid el\<rparr> (es_widget el)"

fun category_calls :: "client_env \<Rightarrow> 's \<Rightarrow> string list \<Rightarrow> 's category \<Rightarrow> client_call list" where
  "category_calls env s parent (Category name els sub i) =
     (let path = (if name = [] then parent else parent @ [name]) in
      (if name = [] then [] else [CC_category parent name]) @
      concat (map (element_calls env s path) els) @ concat (map (category_calls env s path) sub))"

fun category_loads :: "client_env \<Rightarrow> 's \<Rightarrow> 's category \<Rightarrow> bool" where
  "category_loads env s (Category name els sub i) \<longleftrightarrow>
     list_all (\<lambda>el. visual_loads env s (es_widget el)) els \<and> list_all (category_loads env s) sub"

lemma handle_entry_element:
  assumes "element_ok s el" "visual_loads env s (es_widget el)"
  shows "handle_entry env path (element_json s el) = calls (element_calls env s path el)"
proof -
  define sid where "sid = (if es_stacking el = Vertical then J_null else J_int (es_id el))"
  have el: "element_json s el = element_data (es_name el) (widget_type (es_widget el)) sid (widget_json s (es_widget el))"
    by (simp add: element_json_def element_data_def sid_def)
  have "sint (of_int (es_id el) :: u32) = es_id el"
    using assms(1) by (simp add: element_ok_def of_int_signed)
  then have "config_at_or (element_json s el) 2 (\<lambda>v. conf_bind (to_int32 v) (\<lambda>i. Inr (sint i))) (- 1) = element_sid el"
    using assms(1) unfolding el by (auto simp: config_at_or_def sid_def element_sid_def to_int32_def element_ok_def)
  moreover have "shown env s (es_widget el)"
    using assms by (intro shown_all) (simp_all add: element_ok_def)
  ultimately show ?thesis
    unfolding handle_entry_def element_calls_def by (simp add: el shown_def)
qed

declare handle_category.simps [simp del]

lemma do_each_map:
  "(\<And>x. x \<in> set xs \<Longrightarrow> f (h x) = calls (g x)) \<Longrightarrow> do_each f (map h xs) = calls (concat (map g xs))"
  by (induction xs) simp_all

lemma handle_category_json:
  "category_ok s c \<Longrightarrow> category_loads env s c \<Longrightarrow>
   handle_category env parent (cat_name c) (category_json s c) = calls (category_calls env s parent c)"
proof (induction c arbitrary: parent)
  case (Category name els sub i)
  define path where "path = (if name = [] then parent else parent @ [name])"
  have "do_each (handle_entry env path) (map (element_json s) els) = calls (concat (map (element_calls env s path) els))"
    using Category.prems by (intro do_each_map handle_entry_element) (auto simp: list_all_iff)
  moreover have "at_as (category_json s c) 0 to_string = Inr (cat_name c)" for c
    by (cases c) simp
  then have "do_each (\<lambda>c. converted (at_as c 0 to_string) (\<lambda>name. handle_category env path name c)) (map (category_json s) sub) =
      calls (concat (map (category_calls env s path) sub))"
    using Category by (intro do_each_map) (auto simp: list_all_iff)
  moreover have "handle_category env parent name (category_json s (Category name els sub i)) =
      then_do (calls (if name = [] then [] else [CC_category parent name]))
        (then_do (do_each (handle_entry env path) (map (element_json s) els))
          (do_each (\<lambda>c. converted (at_as c 0 to_string) (\<lambda>name. handle_category env path name c)) (map (category_json s) sub)))"
    unfolding path_def by (subst handle_category.simps) (simp add: config_size_def array_elements_def Let_def)
  ultimately show ?case
    by (simp add: path_def Let_def)
qed

section \<open>Plots\<close>

text \<open>The curves of a plot with an abscissa have as many values as the abscissa.\<close>

fun curve_aligned :: "u64 list \<Rightarrow> 's plot_data \<Rightarrow> bool" where
  "curve_aligned xs (Ordinate name get color ys style side) \<longleftrightarrow> length ys = length xs"
| "curve_aligned xs _ \<longleftrightarrow> True"

fun axes_values :: "'s plot_axes \<Rightarrow> u64 list" where
  "axes_values (Axes_XY x l r) = []"
| "axes_values (Axes_Standard a l r) = ab_cache a"

fun axes_x :: "'s plot_axes \<Rightarrow> axis_config" where
  "axes_x (Axes_XY x l r) = x"
| "axes_x (Axes_Standard a l r) = ab_config a"

fun axes_left :: "'s plot_axes \<Rightarrow> axis_config" where
  "axes_left (Axes_XY x l r) = l"
| "axes_left (Axes_Standard a l r) = l"

fun axes_right :: "'s plot_axes \<Rightarrow> axis_config" where
  "axes_right (Axes_XY x l r) = r"
| "axes_right (Axes_Standard a l r) = r"

definition plot_aligned :: "'s plot_callback \<Rightarrow> bool" where
  "plot_aligned p \<longleftrightarrow> plot_type_kind p = Plot_XY \<or> list_all (curve_aligned (axes_values (plot_axes p))) (plot_curves p)"

fun curve_calls :: "'s \<Rightarrow> plot_kind \<Rightarrow> u64 list \<Rightarrow> u64 \<Rightarrow> nat \<Rightarrow> 's plot_data \<Rightarrow> client_call list" where
  "curve_calls s kind xs uid did (Ordinate name get color ys style side) =
     (if kind = Plot_Standard then map2 (\<lambda>x y. CC_plot_point uid did name x y (color_now s color) style side) xs ys else [])"
| "curve_calls s kind xs uid did (AbscissaOrdinate name upd color ps style side) =
     map (\<lambda>p. CC_plot_point uid did name (p ! 0) (p ! 1) (color_now s color) style side) ps"
| "curve_calls s kind xs uid did (Plot_Polygon name get side) = [CC_plot_polygon uid did name (get s) side]"
| "curve_calls s kind xs uid did (Plot_Polygons name get side) = [CC_plot_polygons uid did name (get s) side]"

definition plot_calls :: "'s \<Rightarrow> string \<Rightarrow> 's plot_callback \<Rightarrow> client_call list" where
  "plot_calls s title p =
     (let p = plot_step s p; axes = plot_axes p; uid = plot_uid p in
      [CC_start_plot uid title, CC_plot_setup_xaxis uid (axis_name (axes_x axes)) (axis_range (axes_x axes)),
       CC_plot_setup_yaxis_left uid (axis_name (axes_left axes)) (axis_range (axes_left axes)),
       CC_plot_setup_yaxis_right uid (axis_name (axes_right axes)) (axis_range (axes_right axes))] @
      concat (map (\<lambda>i. curve_calls s (plot_type_kind p) (axes_values axes) uid i (plot_curves p ! i)) [0..<length (plot_curves p)]) @
      [CC_end_plot uid])"

lemma read_axis [simp]: "axis_fromMessagePack (axis_json a) = Inr a"
  by (simp add: axis_fromMessagePack_def axis_json_def range_json_def range_fromMessagePack_def to_std_array_def doubles_json_def)

lemma read_points2: "points2_ok ps \<Longrightarrow> to_std_vector (to_std_array 2 to_double) (points2_json ps) = Inr ps"
  unfolding points2_json_def doubles_json_def
  by (intro to_list_map to_array_map) (auto simp: points2_ok_def list_ok_def list_all_iff)

lemma read_description: "points2_ok (pd_points p) \<Longrightarrow> polygon_fromMessagePack (description_json p) = Inr p"
  by (simp add: polygon_fromMessagePack_def description_json_def read_points2)

lemma plot_x_aligned: "length ys = length xs \<Longrightarrow> j < length ys \<Longrightarrow> length ys < 2 ^ 64 \<Longrightarrow> plot_x xs ys j = j"
  by (simp add: plot_x_def unat_of_nat)

lemma map2_upt: "length ys = length xs \<Longrightarrow> map2 f xs ys = map (\<lambda>j. f (xs ! j) (ys ! j)) [0..<length ys]"
  by (rule nth_equalityI) simp_all

lemma aligned_points:
  assumes "length ys = length xs" "length ys < 2 ^ 64"
  shows "curve_points uid did legend xs ys color style side =
    calls (map2 (\<lambda>x y. CC_plot_point uid did legend x y color style side) xs ys)"
proof -
  have "curve_points uid did legend xs ys color style side =
      calls (concat (map (\<lambda>j. [CC_plot_point uid did legend (xs ! j) (ys ! j) color style side]) [0..<length ys]))"
    unfolding curve_points_def by (rule do_each_calls) (use assms in \<open>simp add: plot_x_aligned\<close>)
  then show ?thesis
    using assms(1) by (simp add: map2_upt)
qed

lemma to_uint64_uint [simp]: "to_uint64 (J_int (uint w)) = Inr w"
  by (rule to_uint64_J)

lemma plot_type_code_inject [simp]: "plot_type_code a = plot_type_code b \<longleftrightarrow> a = b"
  by (cases a; cases b) simp_all

lemma handle_curve_json:
  assumes "curve_ok s d" "kind = Plot_XY \<or> curve_aligned xs d"
  shows "handle_curve kind xs uid did (curve_json s d) = calls (curve_calls s kind xs uid did d)"
proof (cases d)
  case (Ordinate name get color ys style side)
  then show ?thesis
    using assms by (cases kind) (simp_all add: handle_curve_def vecx_ok_def aligned_points del: plot_type_code.simps)
next
  case (AbscissaOrdinate name upd color ps style side)
  then show ?thesis
    using assms by (simp add: handle_curve_def read_points2 del: plot_type_code.simps)
next
  case (Plot_Polygon name get side)
  then show ?thesis
    using assms by (simp add: handle_curve_def read_description del: plot_type_code.simps)
next
  case (Plot_Polygons name get side)
  then have "convert_all polygon_fromMessagePack (map description_json (get s)) = Inr (get s)"
    using assms(1) convert_all_map [of "get s" polygon_fromMessagePack description_json id]
    by (simp add: read_description list_ok_def list_all_iff)
  with Plot_Polygons show ?thesis
    by (simp add: handle_curve_def array_elements_def del: plot_type_code.simps)
qed

lemma config_index_append: "length xs = n \<Longrightarrow> i < length ys \<Longrightarrow> config_index (J_array (xs @ ys)) (n + i) = Inr (ys ! i)"
  by (auto simp: config_index_def config_size_def nth_append)

lemma handle_curves_json:
  assumes "length hs = 6" "\<And>d. d \<in> set ds \<Longrightarrow> curve_ok s d \<and> (kind = Plot_XY \<or> curve_aligned xs d)"
  shows "handle_curves kind xs uid (J_array (hs @ map (curve_json s) ds)) =
    calls (concat (map (\<lambda>i. curve_calls s kind xs uid i (ds ! i)) [0..<length ds]))"
proof -
  have ix: "[6..<config_size (J_array (hs @ map (curve_json s) ds))] = map (\<lambda>i. 6 + i) [0..<length ds]"
    using assms(1) by (simp add: config_size_def map_add_upt add.commute)
  have "do_each (\<lambda>i. converted (config_index (J_array (hs @ map (curve_json s) ds)) i) (handle_curve kind xs uid (i - 6))) (map (\<lambda>i. 6 + i) [0..<length ds]) =
      calls (concat (map (\<lambda>i. curve_calls s kind xs uid i (ds ! i)) [0..<length ds]))"
    using assms by (intro do_each_map) (simp add: config_index_append handle_curve_json)
  then show ?thesis
    unfolding handle_curves_def ix .
qed

lemma plot_kind_code_inject [simp]: "plot_kind_code a = plot_kind_code b \<longleftrightarrow> a = b"
  by (cases a; cases b) simp_all

lemma at_as_nth: "i < length vs \<Longrightarrow> at_as (J_array vs) i conv = conv (vs ! i)"
  by (simp add: config_index_def config_size_def)

lemma handle_plot_json:
  assumes "plot_ok s title p" "plot_aligned (plot_step s p)"
  shows "handle_plot (plot_json s title p) = calls (plot_calls s title p)"
proof -
  define p' where "p' = plot_step s p"
  define cs where "cs = map (curve_json s) (plot_curves p')"
  have ok: "list_all (curve_ok s) (plot_curves p')" and al: "plot_aligned p'"
    using assms by (simp_all add: plot_ok_def p'_def Let_def)
  have js: "plot_json s title p = J_array (axes_json (plot_uid p') title (plot_axes p') @ cs)"
    by (simp add: plot_json_def p'_def cs_def Let_def)
  show ?thesis
  proof (cases "plot_axes p'")
    case (Axes_XY x l r)
    have "handle_curves Plot_XY [] (plot_uid p') (plot_json s title p) =
        calls (concat (map (\<lambda>i. curve_calls s Plot_XY [] (plot_uid p') i (plot_curves p' ! i)) [0..<length (plot_curves p')]))"
      using ok unfolding js cs_def by (intro handle_curves_json) (simp_all add: Axes_XY list_all_iff)
    then show ?thesis
      unfolding handle_plot_def handle_xy_plot_def setup_yaxes_def js
      by (simp add: Axes_XY at_as_nth plot_calls_def p'_def [symmetric] plot_type_kind_def Let_def del: plot_kind_code.simps)
  next
    case (Axes_Standard a l r)
    have "handle_curves Plot_Standard (ab_cache a) (plot_uid p') (plot_json s title p) =
        calls (concat (map (\<lambda>i. curve_calls s Plot_Standard (ab_cache a) (plot_uid p') i (plot_curves p' ! i)) [0..<length (plot_curves p')]))"
      using ok al unfolding js cs_def
      by (intro handle_curves_json) (simp_all add: Axes_Standard list_all_iff plot_aligned_def plot_type_kind_def)
    then show ?thesis
      unfolding handle_plot_def handle_standard_plot_def setup_yaxes_def js
      by (simp add: Axes_Standard at_as_nth plot_calls_def p'_def [symmetric] plot_type_kind_def Let_def del: plot_kind_code.simps)
  qed
qed

text \<open>The curves of a plot that are level with the abscissa stay level.\<close>

lemma curve_aligned_update: "curve_aligned xs d \<Longrightarrow> curve_aligned (xs @ [x]) (plot_data_update s d)"
  by (cases d) simp_all

lemma plot_aligned_step: "plot_aligned p \<Longrightarrow> plot_aligned (plot_step s p)"
  by (cases "plot_axes p")
    (auto simp: plot_aligned_def plot_step_def plot_type_kind_def abscissa_update_def list_all_iff intro!: curve_aligned_update)

section \<open>The whole message\<close>

definition gui_calls :: "client_env \<Rightarrow> 's \<Rightarrow> 's state_builder \<Rightarrow> client_call list" where
  "gui_calls env s sb =
     [CC_started] @ category_calls env s [] (sb_elements sb) @ concat (map (\<lambda>(title, p). plot_calls s title p) (sb_plots sb)) @ [CC_stopped]"

definition gui_loads :: "client_env \<Rightarrow> 's \<Rightarrow> 's state_builder \<Rightarrow> bool" where
  "gui_loads env s sb \<longleftrightarrow>
     cat_name (sb_elements sb) = [] \<and> category_loads env s (sb_elements sb)"

definition plots_aligned :: "'s state_builder \<Rightarrow> bool" where
  "plots_aligned sb \<longleftrightarrow> list_all (\<lambda>(title, p). plot_aligned p) (sb_plots sb)"

lemma handle_gui_state_json:
  assumes "gui_ok s sb" "gui_loads env s sb" "plots_aligned sb"
  shows "handle_gui_state env (gui_json s sb) cl = (cl\<lparr>cl_data := sb_data sb\<rparr>, calls (gui_calls env s sb))"
proof -
  have c: "handle_category env [] [] (category_json s (sb_elements sb)) = calls (category_calls env s [] (sb_elements sb))"
    using handle_category_json [of s "sb_elements sb" env "[]"] assms by (simp add: gui_ok_def gui_loads_def)
  have p: "do_each handle_plot (map (\<lambda>(title, p). plot_json s title p) (sb_plots sb)) =
      calls (concat (map (\<lambda>(title, p). plot_calls s title p) (sb_plots sb)))"
    using assms by (intro do_each_map)
      (auto simp: gui_ok_def plots_aligned_def list_ok_def list_all_iff intro!: handle_plot_json plot_aligned_step)
  have v: "at_as (gui_json s sb) 0 to_int32 = Inr 4"
    by (simp add: gui_json_def at_as_nth to_int32_def)
  show ?thesis
    unfolding handle_gui_state_def v
    by (simp add: gui_json_def config_index_def config_size_def array_elements_def c p gui_calls_def)
qed

lemma client_run_update:
  assumes "gui_ok s sb" "gui_loads env s sb" "plots_aligned sb" "buffer = [] \<or> 32 \<le> length buffer" "gui_update s sb buffer = (sb', buf, n)"
    "te_alloc tenv = (\<lambda>_. True)" "n < 2 ^ 32" "3 * n \<le> fuel" "cl_run cl"
  shows "client_run env tenv fuel (take n buf) cl = Some (cl\<lparr>cl_data := sb_data sb\<rparr>, calls (gui_calls env s sb))"
proof -
  note m = gui_update_message [OF assms(1,4,5)]
  have "config_fromMessagePack tenv fuel (take n buf) = Some (Inr (gui_json s sb))"
    using read_written [OF assms(6) m(3), of "[]" fuel "J_object []"] assms(7,8) m(1,2)
    by (simp add: config_fromMessagePack_def bytes_of_def)
  then show ?thesis
    using assms by (simp add: client_run_def handle_gui_state_json)
qed

end
