(* ===== verification/Gui_Refinement.thy ===== *)
theory Gui_Refinement
  imports Gui_Tree
begin

text \<open>
  A user of the builder sees a map from categories and names to elements. The sequence of operations on
  the tree is refined by the same sequence on the map.
\<close>

section \<open>The map\<close>

type_synonym 's gui_view = "string list \<Rightarrow> string \<Rightarrow> (nat option \<times> stacking \<times> 's widget) option"

definition gui_view :: "'s category \<Rightarrow> 's gui_view" where
  "gui_view root p n = map_option (\<lambda>el. (es_source el, es_stacking el, es_widget el)) (find_in root p n)"

datatype 's gui_op =
    Op_add "nat option" "string list" stacking "(string \<times> 's widget) list"
  | Op_remove "string list" string
  | Op_remove_category "string list"
  | Op_remove_elements "string list" nat bool
  | Op_remove_source nat

fun run_gui_op :: "'s gui_op \<Rightarrow> 's category \<Rightarrow> 's category" where
  "run_gui_op (Op_add source p stacking els) root = addElement source p stacking els root"
| "run_gui_op (Op_remove p n) root = removeElement p n root"
| "run_gui_op (Op_remove_category p) root = removeCategory p root"
| "run_gui_op (Op_remove_elements p src recurse) root = removeElements p (Some src) recurse root"
| "run_gui_op (Op_remove_source src) root = removeElements_all (Some src) root"

fun view_add :: "nat option \<Rightarrow> string list \<Rightarrow> stacking \<Rightarrow> (string \<times> 's widget) list \<Rightarrow> 's gui_view \<Rightarrow> 's gui_view" where
  "view_add source p stacking [] v = v"
| "view_add source p stacking ((n, w) # els) v =
     view_add source p stacking els (\<lambda>q m. if q = p \<and> m = n \<and> v p n = None then Some (source, stacking, w) else v q m)"

definition view_keep :: "nat \<Rightarrow> (nat option \<times> stacking \<times> 's widget) option \<Rightarrow> (nat option \<times> stacking \<times> 's widget) option" where
  "view_keep src e = (case e of Some (source, x) \<Rightarrow> if source = Some src then None else e | None \<Rightarrow> None)"

text \<open>Adding keeps what is there; removing the root as a category does nothing.\<close>

fun view_op :: "'s gui_op \<Rightarrow> 's gui_view \<Rightarrow> 's gui_view" where
  "view_op (Op_add source p stacking els) v = view_add source p stacking els v"
| "view_op (Op_remove p n) v = (\<lambda>q m. if q = p \<and> m = n then None else v q m)"
| "view_op (Op_remove_category p) v = (\<lambda>q m. if p \<noteq> [] \<and> prefix p q then None else v q m)"
| "view_op (Op_remove_elements p src recurse) v =
     (\<lambda>q m. if q = p \<or> recurse \<and> prefix p q then view_keep src (v q m) else v q m)"
| "view_op (Op_remove_source src) v = (\<lambda>q m. view_keep src (v q m))"

section \<open>The tree refines the map\<close>

lemma view_impl:
  "gui_view (addElementImpl source p stacking (n, w) rem root) =
     (\<lambda>q m. if q = p \<and> m = n \<and> gui_view root p n = None then Some (source, stacking, w) else gui_view root q m)"
  by (auto simp: gui_view_def find_in_add placed_def fun_eq_iff)

lemma gui_view_add: "gui_view (addElement source p stacking els root) = view_add source p stacking els (gui_view root)"
  by (induction els arbitrary: root) (auto simp: view_impl)

lemma category_wf_addElement: "category_wf root \<Longrightarrow> category_wf (addElement source p stacking els root)"
  by (induction els arbitrary: root) (simp_all add: category_wf_add)

lemma view_kept: "map_option (\<lambda>el. (es_source el, es_stacking el, es_widget el)) (keep src e) =
  view_keep src (map_option (\<lambda>el. (es_source el, es_stacking el, es_widget el)) e)"
  by (simp add: keep_def view_keep_def not_from_def split: option.split)

lemma run_gui_op_refines:
  assumes "category_wf root"
  shows "category_wf (run_gui_op e root)" "gui_view (run_gui_op e root) = view_op e (gui_view root)"
proof -
  show "category_wf (run_gui_op e root)"
    using assms by (cases e) (simp_all add: category_wf_addElement find_in_removeElement find_in_removeCategory find_in_removeElements
        removeElements_all_def category_wf_remove_source)
  show "gui_view (run_gui_op e root) = view_op e (gui_view root)"
  proof (cases e)
    case (Op_add source p stacking els)
    then show ?thesis by (simp add: gui_view_add)
  next
    case (Op_remove_category p)
    have "removeCategory [] root = root" by (simp add: removeCategory_def)
    with assms Op_remove_category show ?thesis
      by (cases "p = []") (auto simp: gui_view_def fun_eq_iff find_in_removeCategory)
  qed (use assms in \<open>auto simp: gui_view_def fun_eq_iff find_in_removeElement find_in_removeElements removeElements_all_def
      find_in_remove_source view_kept\<close>)
qed

lemma run_gui_ops_refine:
  "category_wf root \<Longrightarrow>
   category_wf (fold run_gui_op ops root) \<and> gui_view (fold run_gui_op ops root) = fold view_op ops (gui_view root)"
  by (induction ops arbitrary: root) (simp_all add: run_gui_op_refines)

lemma handleRequest_view:
  "gui_handleRequest rf sb p n data s =
     (case gui_view (sb_elements sb) p n of
        None \<Rightarrow> (s, False)
      | Some (source, stacking, w) \<Rightarrow>
          (case widget_handleRequest rf w data s of (s, Inl err) \<Rightarrow> (s, False) | (s, Inr ok) \<Rightarrow> (s, ok)))"
  by (simp add: gui_handleRequest_def gui_view_def find_in_def getCategory_simp split: option.split)

lemma hasElement_view: "hasElement root p n \<longleftrightarrow> gui_view root p n \<noteq> None"
  by (simp add: hasElement_def gui_view_def find_in_def getCategory_simp split: option.split)

lemma gui_view_new: "gui_view (Category [] [] [] 0) = (\<lambda>p n. None)"
  by (simp add: gui_view_def find_in_new fun_eq_iff)

end
