(* ===== verification/Gui_Server_Correct.thy ===== *)
theory Gui_Server_Correct
  imports Gui_Server Gui_Roundtrip Gui_Refinement Mc_Log_Correct
begin

text \<open>
  The server and a client together: what a client shows while the server publishes, the samples of the
  plots over a run, and what becomes of a request.
\<close>

section \<open>Buffers\<close>

lemma builder_finish_buffer: "builder_ok w \<Longrightarrow> 32 \<le> length (w_buffer (fst (builder_finish w)))"
  by (simp add: builder_finish_def mpack_writer_destroy_def mpack_std_vector_writer_flush_def builder_ok_def
      writer_wf_def MPACK_WRITER_MINIMUM_BUFFER_SIZE_def Let_def)

lemma gui_update_buffer:
  assumes "gui_ok s sb" "buffer = [] \<or> 32 \<le> length buffer" "gui_update s sb buffer = (sb', buf, n)"
  shows "32 \<le> length buf"
proof -
  let ?w = "gui_write s (refresh_data sb) (builder_new buffer)"
  have "builder_ok (builder_new buffer)"
    using builder_new_ok [of buffer] assms(2) by auto
  then have "builder_ok ?w"
    using packs_emitted [OF packs_gui [OF assms(1)]] by (auto simp: emitted_def builder_appends_def)
  then show ?thesis
    using builder_finish_buffer [of ?w] assms(3) by (auto simp: gui_update_def Let_def case_prod_beta)
qed

lemma fit_size_ge: "0 < n \<Longrightarrow> s \<le> fit_size n s"
proof (induction n s rule: fit_size.induct)
  case (1 n s)
  then show ?case by (subst fit_size.simps) auto
qed

declare fit_size.simps [simp del]

lemma resize_to_fit_length: "n \<le> length (resize_to_fit buff n)"
  using fit_size_ge [of 65535 n] fit_size_ge [of "2 * length buff" n]
  by (cases "length buff = 0") (auto simp: resize_to_fit_def Let_def)

lemma client_poll_run:
  "n \<noteq> 0 \<Longrightarrow> n \<le> length data \<Longrightarrow> server_data sv = (data, n) \<Longrightarrow>
   map_option snd (client_poll env tenv fuel sv buff cl) = client_run env tenv fuel (take n data) cl"
  by (auto simp: client_poll_def option.map_comp o_def case_prod_beta intro: option.map_ident)

section \<open>Alignment of the plots\<close>

lemma curve_aligned_write: "curve_aligned [] (fst (plot_data_write s d))"
  by (cases d) simp_all

lemma plot_aligned_write: "plot_aligned (fst (plot_write s title p))"
  by (cases "plot_axes p")
    (auto simp: plot_aligned_def plot_write_def axes_writes plot_type_kind_def abscissa_write_def Let_def list_all_iff
      intro!: curve_aligned_write)

lemma plots_aligned_step: "plots_aligned sb \<Longrightarrow> plots_aligned (gui_step s sb)"
  by (auto simp: plots_aligned_def gui_step_def list_all_iff plot_aligned_step)

lemma refresh_plots [simp]: "sb_plots (refresh_data sb) = sb_plots sb" "sb_elements (refresh_data sb) = sb_elements sb"
  by (simp_all add: refresh_data_def case_prod_beta Let_def)

lemma gui_update_plots:
  "gui_update s sb buffer = (sb', buf, n) \<Longrightarrow> sb_plots sb' = map (\<lambda>(name, p). (name, fst (plot_write s name p))) (sb_plots sb)"
  by (auto simp: gui_update_def Let_def case_prod_beta)

lemma plots_aligned_update: "gui_update s sb buffer = (sb', buf, n) \<Longrightarrow> plots_aligned sb'"
  by (auto simp: plots_aligned_def gui_update_plots list_all_iff plot_aligned_write)

text \<open>A curve of no samples yet, as the constructors of the plot data give it.\<close>

fun fresh_curve :: "'s plot_data \<Rightarrow> bool" where
  "fresh_curve (Ordinate name get color ys style side) \<longleftrightarrow> ys = []"
| "fresh_curve (AbscissaOrdinate name upd color ps style side) \<longleftrightarrow> ps = []"
| "fresh_curve _ \<longleftrightarrow> True"

lemma fresh_aligned: "fresh_curve d \<Longrightarrow> curve_aligned [] d"
  by (cases d) simp_all

lemma plots_aligned_add:
  "plots_aligned sb \<Longrightarrow> axes_values axes = [] \<Longrightarrow> list_all fresh_curve ds \<Longrightarrow> plots_aligned (add_plot title axes ds sb)"
  by (auto simp: plots_aligned_def add_plot_def plot_add_data_def plot_aligned_def list_all_iff fresh_aligned Let_def)

lemma plots_aligned_remove: "plots_aligned sb \<Longrightarrow> plots_aligned (removePlot title sb)"
  by (auto simp: plots_aligned_def removePlot_def list_all_iff)

section \<open>A session of the server and a client\<close>

text \<open>What a client that is polled after every iteration does.\<close>

fun gui_session ::
  "client_env \<Rightarrow> tree_env \<Rightarrow> nat \<Rightarrow> 's list \<Rightarrow> server \<times> 's state_builder \<Rightarrow> u8 list \<Rightarrow> client \<Rightarrow> client_result list option" where
  "gui_session env tenv fuel [] st buff cl = Some []"
| "gui_session env tenv fuel (s # ss) st buff cl =
     (case publish s st of
        None \<Rightarrow> None
      | Some (st, m) \<Rightarrow>
          (case client_poll env tenv fuel (fst st) buff cl of
             None \<Rightarrow> None
           | Some (buff, cl, r) \<Rightarrow> map_option ((#) r) (gui_session env tenv fuel ss st buff cl)))"

text \<open>The builder at the iterations that send a message, and after the run.\<close>

definition after_message :: "'s \<Rightarrow> 's state_builder \<Rightarrow> 's state_builder" where
  "after_message s sb = fst (gui_update s sb [])"

fun gui_shown :: "u32 \<Rightarrow> u32 \<Rightarrow> 's list \<Rightarrow> 's state_builder \<Rightarrow> ('s \<times> 's state_builder) option list" where
  "gui_shown rate i [] sb = []"
| "gui_shown rate i (s # ss) sb =
     (if i mod rate = 0 then Some (s, sb) # gui_shown rate (i + 1) ss (after_message s sb)
      else None # gui_shown rate (i + 1) ss (gui_step s sb))"

fun gui_after :: "u32 \<Rightarrow> u32 \<Rightarrow> 's list \<Rightarrow> 's state_builder \<Rightarrow> 's state_builder" where
  "gui_after rate i [] sb = sb"
| "gui_after rate i (s # ss) sb =
     gui_after rate (i + 1) ss (if i mod rate = 0 then after_message s sb else gui_step s sb)"

text \<open>
  What a message can hold: the names, lists and values fit the sizes of the format, and the client can
  load the visuals. That the binary form of the static data is up to date is an invariant.
\<close>

definition content_ok :: "'s \<Rightarrow> 's state_builder \<Rightarrow> bool" where
  "content_ok s sb \<longleftrightarrow> json_packable (sb_data sb) \<and> category_ok s (sb_elements sb) \<and> list_ok (\<lambda>(name, p). plot_ok s name p) (sb_plots sb)"

lemma gui_ok_content: "gui_ok s sb \<longleftrightarrow> content_ok s sb \<and> data_synced sb"
  by (auto simp: gui_ok_def content_ok_def)

definition sendable :: "client_env \<Rightarrow> nat \<Rightarrow> ('s \<times> 's state_builder) option \<Rightarrow> bool" where
  "sendable env fuel o1 =
     (case o1 of
        None \<Rightarrow> True
      | Some (s, sb) \<Rightarrow> content_ok s sb \<and> gui_loads env s sb \<and> length (bytes_of (gui_json s sb)) < 2 ^ 32 \<and>
          3 * length (bytes_of (gui_json s sb)) \<le> fuel)"

definition shown_calls :: "client_env \<Rightarrow> ('s \<times> 's state_builder) option \<Rightarrow> client_call list" where
  "shown_calls env o1 = (case o1 of None \<Rightarrow> [] | Some (s, sb) \<Rightarrow> gui_calls env s sb)"

lemma gui_update_builder: "gui_update s sb buffer = (sb', buf, n) \<Longrightarrow> sb' = after_message s sb"
  by (auto simp: gui_update_def after_message_def Let_def case_prod_beta)

lemma toMessagePack_buffer:
  assumes "json_packable v" "buf = [] \<or> 32 \<le> length buf"
  shows "32 \<le> length (fst (config_toMessagePack v buf))"
proof -
  have "builder_ok (builder_new buf)"
    using builder_new_ok [of buf] assms(2) by auto
  then have "builder_ok (toMessagePack v (builder_new buf))"
    using appends_json [OF assms(1)] by (auto simp: builder_appends_def)
  then show ?thesis
    using builder_finish_buffer by (simp add: config_toMessagePack_def case_prod_beta)
qed

lemma data_synced_message:
  assumes "json_packable (sb_data sb)" "data_synced sb"
  shows "data_synced (after_message s sb)"
proof -
  have "data_buffer sb = [] \<or> 32 \<le> length (data_buffer sb)"
    using assms(2) by (simp add: data_synced_def)
  then have "data_buffer (refresh_data sb) = [] \<or> 32 \<le> length (data_buffer (refresh_data sb))"
    using toMessagePack_buffer [OF assms(1)] by (auto simp: refresh_data_def case_prod_beta Let_def)
  then have "data_synced (refresh_data sb)"
    using refresh_synced(1,4) [OF assms] by (simp add: data_synced_def)
  then show ?thesis
    by (simp add: after_message_def gui_update_def Let_def case_prod_beta data_synced_def)
qed

lemma data_synced_step: "data_synced (gui_step s sb) = data_synced sb"
  by (simp add: data_synced_def gui_step_def)

lemma after_message_aligned: "plots_aligned (after_message s sb)"
  using plots_aligned_update [of s sb "[]"] by (cases "gui_update s sb []") (auto simp: after_message_def)

lemma client_poll_message:
  assumes "gui_ok s sb" "gui_loads env s sb" "plots_aligned sb" "buffer = [] \<or> 32 \<le> length buffer"
    "gui_update s sb buffer = (sb', buf, n)" "server_data sv = (buf, n)"
    "te_alloc tenv = (\<lambda>_. True)" "n < 2 ^ 32" "3 * n \<le> fuel" "cl_run cl"
  shows "\<exists>buff'. client_poll env tenv fuel sv buff cl = Some (buff', cl\<lparr>cl_data := sb_data sb\<rparr>, calls (gui_calls env s sb))"
proof -
  note m = gui_update_message [OF assms(1,4,5)]
  have "n \<noteq> 0" "n \<le> length buf"
    using m enc_nonempty [OF packable_value_ok [OF m(3)]] by (auto simp: bytes_of_def dest: arg_cong [where f = length])
  from client_poll_run [OF this assms(6), of env tenv fuel buff cl] client_run_update [OF assms(1-5,7-10)]
  show ?thesis by auto
qed

lemma gui_session_shown:
  assumes "sv_rate sv \<noteq> 0" "te_alloc tenv = (\<lambda>_. True)" "sv_buffer sv = [] \<or> 32 \<le> length (sv_buffer sv)" "plots_aligned sb" "cl_run cl"
    "data_synced sb" "list_all (sendable env fuel) (gui_shown (sv_rate sv) (sv_iter sv) ss sb)"
  shows "gui_session env tenv fuel ss (sv, sb) buff cl =
    Some (map (\<lambda>o1. calls (shown_calls env o1)) (gui_shown (sv_rate sv) (sv_iter sv) ss sb))"
  using assms
proof (induction ss arbitrary: sv sb buff cl)
  case (Cons s ss)
  show ?case
  proof (cases "sv_iter sv mod sv_rate sv = 0")
    case True
    obtain sb' buf n where u: "gui_update s sb (sv_buffer sv) = (sb', buf, n)"
      by (cases "gui_update s sb (sv_buffer sv)") auto
    have ok: "gui_ok s sb" "gui_loads env s sb" "n < 2 ^ 32" "3 * n \<le> fuel"
      using Cons.prems True gui_update_message(2) [OF _ Cons.prems(3) u] by (auto simp: sendable_def gui_ok_content)
    define sv' where "sv' = sv\<lparr>sv_iter := sv_iter sv + 1, sv_buffer := buf, sv_buffer_size := n\<rparr>"
    have "publish s (sv, sb) = Some ((sv', after_message s sb), Some (take n buf))"
      using True Cons.prems(1) u gui_update_builder [OF u] by (simp add: publish_def sv'_def)
    moreover obtain buff' where
      "client_poll env tenv fuel sv' buff cl = Some (buff', cl\<lparr>cl_data := sb_data sb\<rparr>, calls (gui_calls env s sb))"
      using client_poll_message [OF ok(1,2) Cons.prems(4,3) u _ Cons.prems(2) ok(3,4) Cons.prems(5), of sv' buff]
      by (auto simp: server_data_def sv'_def)
    ultimately show ?thesis
      using Cons.IH [of sv' "after_message s sb" "cl\<lparr>cl_data := sb_data sb\<rparr>" buff'] Cons.prems True gui_update_buffer [OF ok(1) Cons.prems(3) u]
      ok(1) by (simp add: sv'_def shown_calls_def after_message_aligned data_synced_message gui_ok_def)
  next
    case False
    define sv' where "sv' = sv\<lparr>sv_iter := sv_iter sv + 1, sv_buffer_size := 0\<rparr>"
    have "publish s (sv, sb) = Some ((sv', gui_step s sb), None)" "client_poll env tenv fuel sv' buff cl = Some (buff, cl, calls [])"
      using False Cons.prems(1) by (simp_all add: publish_def sv'_def client_poll_def server_data_def)
    then show ?thesis
      using Cons.IH [of sv' "gui_step s sb" cl buff] Cons.prems False
      by (simp add: sv'_def shown_calls_def plots_aligned_step data_synced_step)
  qed
qed simp

section \<open>The samples of a curve over a run\<close>

text \<open>The points of one curve among the calls of a client.\<close>

definition plot_points :: "nat \<Rightarrow> client_call list \<Rightarrow> (u64 \<times> u64) list" where
  "plot_points did cs =
     concat (map (\<lambda>c. case c of CC_plot_point u d legend x y color style side \<Rightarrow> if d = did then [(x, y)] else [] | _ \<Rightarrow> []) cs)"

definition title_points :: "string \<Rightarrow> nat \<Rightarrow> ('s \<times> 's state_builder) option \<Rightarrow> (u64 \<times> u64) list" where
  "title_points title did o1 =
     (case o1 of
        None \<Rightarrow> []
      | Some (s, sb) \<Rightarrow> (case map_of (sb_plots sb) title of None \<Rightarrow> [] | Some p \<Rightarrow> plot_points did (plot_calls s title p)))"

text \<open>The curve plots \<open>gy\<close> against \<open>gx\<close>, and these samples have not been sent yet.\<close>

definition waiting :: "string \<Rightarrow> nat \<Rightarrow> ('s \<Rightarrow> u64) \<Rightarrow> ('s \<Rightarrow> u64) \<Rightarrow> (u64 \<times> u64) list \<Rightarrow> 's state_builder \<Rightarrow> bool" where
  "waiting title did gx gy ps sb \<longleftrightarrow>
     (case map_of (sb_plots sb) title of
        None \<Rightarrow> False
      | Some p \<Rightarrow>
          did < length (plot_curves p) \<and>
          (case (plot_axes p, plot_curves p ! did) of
             (Axes_Standard a l r, Ordinate name get color ys style side) \<Rightarrow>
               ab_get a = gx \<and> get = gy \<and> ab_cache a = map fst ps \<and> ys = map snd ps
           | _ \<Rightarrow> False))"

lemma plot_points_append [simp]: "plot_points did (a @ b) = plot_points did a @ plot_points did b"
  by (simp add: plot_points_def)

lemma plot_points_curve:
  "plot_points did (curve_calls s kind xs uid i d) = (if i = did then plot_points did (curve_calls s kind xs uid did d) else [])"
  by (cases d) (auto simp: plot_points_def concat_eq_Nil_conv o_def)

lemma plot_points_other [simp]:
  "plot_points did (CC_start_plot u t # cs) = plot_points did cs" "plot_points did (CC_plot_setup_xaxis u n1 r1 # cs) = plot_points did cs"
  "plot_points did (CC_plot_setup_yaxis_left u n2 r2 # cs) = plot_points did cs"
  "plot_points did (CC_plot_setup_yaxis_right u n3 r3 # cs) = plot_points did cs" "plot_points did [CC_end_plot u] = []"
  by (simp_all add: plot_points_def)

lemma plot_points_curves:
  "did < n \<Longrightarrow> plot_points did (concat (map (\<lambda>i. curve_calls s kind xs uid i (f i)) [0..<n])) = plot_points did (curve_calls s kind xs uid did (f did))"
proof (induction n)
  case (Suc n)
  have "plot_points did (concat (map (\<lambda>i. curve_calls s kind xs uid i (f i)) [0..<m])) = []" if "m \<le> did" for m
    using that by (induction m) (simp_all add: plot_points_def [of _ "[]"] plot_points_curve [where i = "_ :: nat"])
  with Suc show ?case
    using plot_points_curve [of did s kind xs uid n "f n"] by (cases "did = n") (simp_all add: less_Suc_eq)
qed simp

lemma zip_points:
  "plot_points did (map (\<lambda>(x, y). CC_plot_point uid did name x y color style side) ps) = ps"
  "plot_points did [CC_plot_point uid did name x y color style side] = [(x, y)]"
  by (simp_all add: plot_points_def concat_map_singleton o_def case_prod_beta)

lemma plot_points_calls:
  assumes "map_of (sb_plots sb) title = Some p" "waiting title did gx gy ps sb"
  shows "plot_points did (plot_calls s title p) = ps @ [(gx s, gy s)]"
proof -
  obtain a l r name color style side where p: "did < length (plot_curves p)" "plot_axes p = Axes_Standard a l r"
      "plot_curves p ! did = Ordinate name gy color (map snd ps) style side" "ab_get a = gx" "ab_cache a = map fst ps"
    using assms by (auto simp: waiting_def split: plot_axes.splits plot_data.splits)
  then show ?thesis
    by (simp add: plot_calls_def plot_step_def plot_points_curves plot_type_kind_def abscissa_update_def zip_points
        zip_append zip_map_fst_snd Let_def)
qed

lemma map_of_map_named: "map_of (map (\<lambda>(n, p). (n, f n p)) ps) k = map_option (f k) (map_of ps k)"
  by (induction ps) auto

lemma waiting_step: "waiting title did gx gy ps sb \<Longrightarrow> waiting title did gx gy (ps @ [(gx s, gy s)]) (gui_step s sb)"
  by (auto simp: waiting_def gui_step_def map_of_map_named plot_step_def abscissa_update_def
      split: option.splits plot_axes.splits plot_data.splits)

lemma after_message_plots: "sb_plots (after_message s sb) = map (\<lambda>(name, p). (name, fst (plot_write s name p))) (sb_plots sb)"
  using gui_update_plots [of s sb "[]"] by (cases "gui_update s sb []") (auto simp: after_message_def)

lemma waiting_message: "waiting title did gx gy ps sb \<Longrightarrow> waiting title did gx gy [] (after_message s sb)"
  by (auto simp: waiting_def after_message_plots map_of_map_named plot_write_def axes_writes abscissa_write_def
      abscissa_update_def Let_def split: option.splits plot_axes.splits plot_data.splits)

lemma samples_sent:
  assumes "waiting title did gx gy ps sb"
  shows "\<exists>rest. waiting title did gx gy rest (gui_after rate i ss sb) \<and>
    concat (map (title_points title did) (gui_shown rate i ss sb)) @ rest = ps @ map (\<lambda>s. (gx s, gy s)) ss"
  using assms
proof (induction ss arbitrary: ps sb i)
  case (Cons s ss)
  show ?case
  proof (cases "i mod rate = 0")
    case True
    obtain p where p: "map_of (sb_plots sb) title = Some p"
      using Cons.prems by (auto simp: waiting_def split: option.splits)
    with True Cons.IH [OF waiting_message [OF Cons.prems, of s], of "i + 1"] plot_points_calls [OF p Cons.prems, of s]
    show ?thesis by (auto simp: title_points_def)
  next
    case False
    with Cons.IH [OF waiting_step [OF Cons.prems, of s], of "i + 1"] show ?thesis by (auto simp: title_points_def)
  qed
qed simp

section \<open>Requests\<close>

lemma raw_request_object:
  "raw_request eid data =
     Inr (J_object [(''category'', J_array (map J_string (eid_category eid))), (''name'', J_string (eid_name eid)), (''data'', data)])"
  by (simp add: raw_request_def add_each_def config_add_config_def config_add_def c_str_def HasMember_def AddMember_def FindMember_def Let_def)

lemma request_of_raw:
  "raw_request eid data = Inr r \<Longrightarrow> request_of r = \<lparr>rq_category = eid_category eid, rq_name = eid_name eid, rq_data = data\<rparr>"
  using read_strings [of "eid_category eid"]
  by (auto simp: raw_request_object request_of_def config_or_def config_call_def config_find_def strings_json_def FindMember_def)

text \<open>The requests that a server handles: those pushed, then those received.\<close>

definition received :: "(string \<Rightarrow> json option) \<Rightarrow> string list \<Rightarrow> gui_request list" where
  "received load inbox = map (\<lambda>m. request_of (fromData load (c_str m))) inbox"

definition request_event :: "gui_request \<Rightarrow> log_event" where
  "request_event r = GUIEvent (rq_category r) (rq_name r) (rq_data r)"

lemma receive_requests_fold:
  "list_all (\<lambda>m. CHR 0x00 \<in> set m) inbox \<Longrightarrow>
   receive_requests rf load sb inbox st = (fold (handle_request rf sb) (received load inbox) st, True)"
  by (induction inbox arbitrary: st) (simp_all add: received_def handle_raw_request_def)

lemma handle_request_frame:
  "snd (handle_request rf sb r (sv, s)) = fst (gui_handleRequest rf sb (rq_category r) (rq_name r) (rq_data r) s)"
  by (simp add: handle_request_def case_prod_beta Let_def)

lemma fold_requests_state:
  "snd (fold (handle_request rf sb) rs (sv, s)) =
     fold (\<lambda>r s. fst (gui_handleRequest rf sb (rq_category r) (rq_name r) (rq_data r) s)) rs s"
proof (induction rs arbitrary: sv s)
  case (Cons r rs)
  obtain sv' s' where "handle_request rf sb r (sv, s) = (sv', s')"
    by (cases "handle_request rf sb r (sv, s)")
  with Cons [of sv' s'] handle_request_frame [of rf sb r sv s] show ?case by simp
qed simp

lemma fold_requests_log:
  "sv_logger (fst st) = Some lg \<Longrightarrow>
   sv_logger (fst (fold (handle_request rf sb) rs st)) = Some (lg\<lparr>log_events := log_events lg @ map request_event rs\<rparr>)"
proof (induction rs arbitrary: st lg)
  case (Cons r rs)
  have "sv_logger (fst (handle_request rf sb r st)) = Some (lg\<lparr>log_events := log_events lg @ [request_event r]\<rparr>)"
    using Cons.prems by (simp add: handle_request_def case_prod_beta Let_def addGUIEvent_def request_event_def)
  from Cons.IH [OF this] show ?case by simp
qed simp

lemma handle_requests_fold:
  assumes "list_all (\<lambda>m. CHR 0x00 \<in> set m) inbox"
  shows "\<exists>sv'. handle_requests rf load sb inbox (sv, s) =
      ((sv', snd (fold (handle_request rf sb) (sv_requests sv @ received load inbox) (sv, s))), True) \<and>
    sv_logger sv' = sv_logger (fst (fold (handle_request rf sb) (sv_requests sv @ received load inbox) (sv, s)))"
proof -
  let ?f = "fold (handle_request rf sb)"
  have frame: "fst (?f rs (sv\<lparr>sv_requests := q\<rparr>, s)) = (fst (?f rs (sv, s)))\<lparr>sv_requests := q\<rparr> \<and>
      snd (?f rs (sv\<lparr>sv_requests := q\<rparr>, s)) = snd (?f rs (sv, s))" for rs sv s q
  proof (induction rs arbitrary: sv s)
    case (Cons r rs)
    have "handle_request rf sb r (sv\<lparr>sv_requests := q\<rparr>, s) =
        ((fst (handle_request rf sb r (sv, s)))\<lparr>sv_requests := q\<rparr>, snd (handle_request rf sb r (sv, s)))"
      by (simp add: handle_request_def case_prod_beta Let_def)
    with Cons [of "fst (handle_request rf sb r (sv, s))" "snd (handle_request rf sb r (sv, s))"] show ?case by simp
  qed simp
  obtain sv1 s1 where 1: "?f (sv_requests sv) (sv, s) = (sv1, s1)"
    by (cases "?f (sv_requests sv) (sv, s)")
  moreover obtain sv2 s2 where "?f (received load inbox) (sv1\<lparr>sv_requests := []\<rparr>, s1) = (sv2, s2)"
    by (cases "?f (received load inbox) (sv1\<lparr>sv_requests := []\<rparr>, s1)")
  ultimately show ?thesis
    using frame [where rs = "received load inbox" and sv = sv1 and s = s1 and q = "[]"]
    by (intro exI [of _ sv2]) (simp add: handle_requests_def receive_requests_fold [OF assms])
qed

section \<open>Curves out of step\<close>

text \<open>
  A curve with another number of samples than the abscissa: some index of the client is out of bounds.
\<close>

lemma do_each_undefined:
  "x \<in> set xs \<Longrightarrow> snd (f x) = Some Client_undefined \<Longrightarrow> (\<And>x. x \<in> set xs \<Longrightarrow> snd (f x) \<in> {None, Some Client_undefined}) \<Longrightarrow>
   snd (do_each f xs) = Some Client_undefined"
proof (induction xs)
  case (Cons a xs)
  from Cons.prems(3) [of a] have "snd (f a) = None \<or> snd (f a) = Some Client_undefined" by simp
  moreover have "snd (f a) = None \<Longrightarrow> snd (do_each f xs) = Some Client_undefined"
    using Cons by auto
  ultimately show ?case by (elim disjE) (simp_all add: then_do_def)
qed simp

lemma misaligned_index:
  assumes "length ys \<noteq> length xs" "ys \<noteq> []" "length ys < 2 ^ 32" "length xs < 2 ^ 32"
  shows "\<exists>j < length ys. length xs \<le> plot_x xs ys j"
proof (cases "length xs < length ys")
  case True
  then have "of_nat (length ys) - of_nat (length xs) + of_nat (length ys - 1) = (of_nat (length ys - length xs + (length ys - 1)) :: u64)"
    using assms(2) by (simp add: of_nat_diff)
  moreover have "length ys - length xs + (length ys - 1) < 2 ^ 64"
    using assms by simp
  ultimately have "plot_x xs ys (length ys - 1) = length ys - length xs + (length ys - 1)"
    unfolding plot_x_def by (simp only: unat_of_nat) simp
  with True show ?thesis by (intro exI [of _ "length ys - 1"]) linarith
next
  case False
  with assms(1) have lt: "length ys < length xs" by simp
  have "of_nat (length ys) - of_nat (length xs) + of_nat 0 = (- of_nat (length xs - length ys) :: u64)"
    using lt by (simp add: of_nat_diff)
  moreover have "(- of_nat (length xs - length ys) :: u64) = of_nat (2 ^ 64 - (length xs - length ys))"
    using assms(4) by (subst of_nat_diff) simp_all
  then have "unat (- of_nat (length xs - length ys) :: u64) = 2 ^ 64 - (length xs - length ys)"
    using lt by (simp only: unat_of_nat) simp
  ultimately have "plot_x xs ys 0 = 2 ^ 64 - (length xs - length ys)"
    unfolding plot_x_def by simp
  with assms show ?thesis by (intro exI [of _ 0]) auto
qed

lemma misaligned_points:
  assumes "length ys \<noteq> length xs" "ys \<noteq> []" "length ys < 2 ^ 32" "length xs < 2 ^ 32"
  shows "snd (curve_points uid did legend xs ys color style side) = Some Client_undefined"
proof -
  obtain j where "j < length ys" "length xs \<le> plot_x xs ys j"
    using misaligned_index [OF assms] by blast
  then show ?thesis
    unfolding curve_points_def by (intro do_each_undefined [of j]) (auto simp: calls_def)
qed

section \<open>Where a session can start\<close>

lemma builder_starts: "data_synced state_builder_new" "plots_aligned state_builder_new"
  by (simp_all add: data_synced_def plots_aligned_def state_builder_new_def)

lemma data_access_synced: "data_synced sb \<Longrightarrow> data_synced ((gui_data_access sb)\<lparr>sb_data := v\<rparr>)"
  by (simp add: data_synced_def gui_data_access_def)

end
