(* ===== verification/Gui_Properties.thy ===== *)
theory Gui_Properties
  imports Gui_Server_Correct Log_Properties
begin

text \<open>
  The properties of the user interface: what a client shows of a running server, the tree of elements as
  a map, the samples of the plots, and the way of a request to its element, into the log and back.
\<close>

section \<open>A sample interface\<close>

text \<open>A button and a number in a category, and a plot of the state against itself. The state is the number.\<close>

definition sample_gui_ops :: "u64 gui_op list" where
  "sample_gui_ops =
     [Op_add None [''c''] Vertical [(''b'', Button (\<lambda>s. (s + 1, None))), (''n'', NumberInput (\<lambda>s. s) (\<lambda>d s. (d, None)))]]"

definition sample_axis :: axis_config where
  "sample_axis = \<lparr>axis_name = ''t'', axis_range = \<lparr>range_min = 0, range_max = 1\<rparr>\<rparr>"

definition sample_abscissa :: "u64 abscissa" where
  "sample_abscissa = \<lparr>ab_config = sample_axis, ab_get = \<lambda>s. s, ab_cache = []\<rparr>"

definition sample_curve :: "u64 plot_data" where
  "sample_curve = Ordinate ''y'' (\<lambda>s. s) (CV_value color_default) [] 0 0"

definition sample_builder :: "u64 state_builder" where
  "sample_builder = state_builder_new\<lparr>sb_elements := fold run_gui_op sample_gui_ops (Category [] [] [] 0)\<rparr>"

definition sample_gui :: "u64 state_builder" where
  "sample_gui = addPlot ''p'' sample_abscissa sample_axis sample_axis [sample_curve] sample_builder"

definition sample_server :: server where
  "sample_server = \<lparr>sv_iter = 0, sv_rate = 2, sv_buffer = [], sv_buffer_size = 0, sv_logger = Some sample_logger, sv_requests = []\<rparr>"

definition sample_client_env :: client_env where
  "sample_client_env =
     \<lparr>ce_dump = \<lambda>_. [], ce_fmt_string = \<lambda>_ s. Some s, ce_fmt_double = \<lambda>_ _. None, ce_visual = Inr, ce_rotation = sample_rotations\<rparr>"

lemma sample_elements:
  "sb_elements sample_gui =
     Category [] [] [Category ''c''
       [\<lparr>es_name = ''b'', es_id = 0, es_widget = Button (\<lambda>s. (s + 1, None)), es_stacking = Vertical, es_source = None\<rparr>,
        \<lparr>es_name = ''n'', es_id = 1, es_widget = NumberInput (\<lambda>s. s) (\<lambda>d s. (d, None)), es_stacking = Vertical, es_source = None\<rparr>] [] 2] 0"
  by (simp add: sample_gui_def addPlot_def add_plot_def sample_builder_def sample_gui_ops_def state_builder_new_def addElementImpl_def
      category_find_def find_element_def Let_def)

lemma sample_plots:
  "sb_plots sample_gui =
     [(''p'', \<lparr>plot_msg_size = 7, plot_uid = 1, plot_axes = Axes_Standard sample_abscissa sample_axis sample_axis, plot_curves = [sample_curve]\<rparr>)]"
  by (simp add: sample_gui_def addPlot_def add_plot_def sample_builder_def state_builder_new_def plot_add_data_def Let_def)

lemma sample_static: "sb_data sample_gui = J_object []" "update_data sample_gui" "data_buffer sample_gui = []"
  by (simp_all add: sample_gui_def addPlot_def add_plot_def sample_builder_def state_builder_new_def Let_def)

lemmas sample_plot_defs = sample_abscissa_def sample_axis_def sample_curve_def plot_step_def abscissa_update_def

lemma sample_gui_ok: "gui_ok s sample_gui"
  by (simp add: gui_ok_def sample_elements sample_plots sample_static data_synced_def element_ok_def str_ok_def list_ok_def plot_ok_def
      vecx_ok_def axis_ok_def sample_plot_defs Let_def)

lemma sample_gui_loads: "gui_loads env s sample_gui" "plots_aligned sample_gui"
  by (simp_all add: gui_loads_def plots_aligned_def sample_elements sample_plots plot_aligned_def sample_plot_defs)

lemma sample_gui_bytes: "length (bytes_of (gui_json 5 sample_gui)) \<le> 300"
  by (simp add: bytes_of_def gui_json_def sample_elements sample_plots sample_static element_json_def plot_json_def sample_plot_defs
      axis_json_def range_json_def doubles_json_def color_json_def color_default_def Color_def number_value_def element_code_def
      all_elements_def enc_defs encode_defs Let_def)

section \<open>Server and client\<close>

text \<open>C8: a client that is polled after every iteration of the server shows exactly the interface: at each
  iteration that is a multiple of the rate, it makes the calls for the categories, elements and plots that
  the builder held at that iteration, with the values of the controller's state of that iteration, and at
  the other iterations it does nothing. The message goes through the MessagePack writer, the buffers of
  the server and of the client, the MessagePack parser and the handlers of the client. The hypotheses are
  that the sizes fit the format, that the visuals load, and that the builder starts in order.\<close>

theorem gui_client_shows:
  assumes "sv_rate sv \<noteq> 0" "te_alloc tenv = (\<lambda>_. True)" "sv_buffer sv = [] \<or> 32 \<le> length (sv_buffer sv)" "plots_aligned sb" "cl_run cl"
    and "data_synced sb" "list_all (sendable env fuel) (gui_shown (sv_rate sv) (sv_iter sv) ss sb)"
  shows "gui_session env tenv fuel ss (sv, sb) buff cl =
    Some (map (\<lambda>o1. calls (shown_calls env o1)) (gui_shown (sv_rate sv) (sv_iter sv) ss sb))"
  by (rule gui_session_shown [OF assms])

theorem gui_client_shows_witness:
  "gui_session sample_client_env sample_tree_env 900 [5, 6] (sample_server, sample_gui) [] \<lparr>cl_run = True, cl_data = J_null\<rparr> =
    Some [calls [CC_started, CC_category [] ''c'', CC_button \<lparr>eid_category = [''c''], eid_name = ''b'', eid_sid = - 1\<rparr>,
        CC_number_input \<lparr>eid_category = [''c''], eid_name = ''n'', eid_sid = - 1\<rparr> 5,
        CC_start_plot 1 ''p'', CC_plot_setup_xaxis 1 ''t'' \<lparr>range_min = 0, range_max = 1\<rparr>,
        CC_plot_setup_yaxis_left 1 ''t'' \<lparr>range_min = 0, range_max = 1\<rparr>, CC_plot_setup_yaxis_right 1 ''t'' \<lparr>range_min = 0, range_max = 1\<rparr>,
        CC_plot_point 1 0 ''y'' 5 5 color_default 0 0, CC_end_plot 1, CC_stopped],
      calls []]"
proof -
  have "gui_shown 2 0 [5, 6] sample_gui = [Some (5, sample_gui), None]" by simp
  then have "gui_session sample_client_env sample_tree_env 900 [5, 6] (sample_server, sample_gui) [] \<lparr>cl_run = True, cl_data = J_null\<rparr> =
      Some (map (\<lambda>o1. calls (shown_calls sample_client_env o1)) [Some (5, sample_gui), None])"
    using gui_client_shows [of sample_server sample_tree_env sample_gui "\<lparr>cl_run = True, cl_data = J_null\<rparr>" sample_client_env 900 "[5, 6]" "[]"]
      sample_gui_ok [of 5] sample_gui_loads sample_gui_bytes
    by (simp add: sample_server_def sample_tree_env_def sendable_def gui_ok_content)
  then show ?thesis
    by (simp add: shown_calls_def gui_calls_def sample_elements sample_plots element_calls_def element_sid_def plot_calls_def
        plot_type_kind_def sample_plot_defs Let_def)
qed

text \<open>C9: the tree of categories implements a map from categories and names to elements. After any
  sequence of adding elements, removing elements or categories and removing what a source had added, the
  tree is well formed (unique names, no empty category below the root), holds exactly the elements of the
  map after the same operations, and a request reaches the element that the map has under its category and
  name, or fails when there is none.\<close>

theorem gui_tree_refines:
  "let root = fold run_gui_op ops (sb_elements state_builder_new); view = fold view_op ops (\<lambda>p n. None) in
   category_wf root \<and> gui_view root = view \<and> (hasElement root p n \<longleftrightarrow> view p n \<noteq> None) \<and>
   gui_handleRequest rf (sb\<lparr>sb_elements := root\<rparr>) p n data s =
     (case view p n of
        None \<Rightarrow> (s, False)
      | Some (source, stacking, w) \<Rightarrow>
          (case widget_handleRequest rf w data s of (s, Inl err) \<Rightarrow> (s, False) | (s, Inr ok) \<Rightarrow> (s, ok)))"
  using run_gui_ops_refine [of "Category [] [] [] 0" ops]
  by (simp add: Let_def state_builder_new_def gui_view_new hasElement_view handleRequest_view)

section \<open>Plots\<close>

text \<open>C17: no sample of a curve is lost, repeated or reordered: over any run of the server, the points that
  the messages carry for a curve of a standard plot, followed by those that wait for the next message, are
  the values of abscissa and ordinate at every iteration since the plot was added.\<close>

theorem plot_samples_once:
  assumes "map_of (sb_plots sb) title = None" "ab_cache a = []" "did < length ds" "ds ! did = Ordinate name gy color [] style side"
  shows "\<exists>rest. waiting title did (ab_get a) gy rest (gui_after rate i ss (addPlot title a l r ds sb)) \<and>
    concat (map (title_points title did) (gui_shown rate i ss (addPlot title a l r ds sb))) @ rest = map (\<lambda>s. (ab_get a s, gy s)) ss"
proof -
  have "map_of (sb_plots sb @ [(title, p)]) title = Some p" for p
    using assms(1) by (simp add: map_add_def)
  then have "waiting title did (ab_get a) gy [] (addPlot title a l r ds sb)"
    using assms by (simp add: waiting_def addPlot_def add_plot_def plot_add_data_def Let_def)
  from samples_sent [OF this] show ?thesis by simp
qed

theorem plot_samples_once_witness:
  "\<exists>rest. waiting ''p'' 0 (\<lambda>s. s) (\<lambda>s. s) rest (gui_after 2 0 [5, 6, 7] sample_gui) \<and>
    concat (map (title_points ''p'' 0) (gui_shown 2 0 [5, 6, 7] sample_gui)) @ rest = [(5, 5), (6, 6), (7, 7)]"
proof -
  have "map_of (sb_plots sample_builder) ''p'' = None" by (simp add: sample_builder_def state_builder_new_def)
  from plot_samples_once [OF this, of sample_abscissa 0 "[sample_curve]" "''y''" "\<lambda>s. s" "CV_value color_default" 0 0 2 0 "[5, 6, 7]" sample_axis sample_axis]
  show ?thesis by (simp add: sample_gui_def sample_curve_def sample_abscissa_def del: gui_after.simps gui_shown.simps)
qed

text \<open>C22: a client reads the abscissa of a curve in bounds exactly when the curve is empty or has as many
  samples as the abscissa; otherwise, as for a curve added to a plot between two messages, it accesses the
  abscissa out of bounds.\<close>

theorem plot_curve_bounds:
  assumes "length xs < 2 ^ 32" "length ys < 2 ^ 32"
  shows "snd (handle_curve Plot_Standard xs uid did (curve_json s (Ordinate name get color ys style side))) =
    (if ys = [] \<or> length ys = length xs then None else Some Client_undefined)"
proof -
  have "handle_curve Plot_Standard xs uid did (curve_json s (Ordinate name get color ys style side)) =
      curve_points uid did name xs ys (color_now s color) style side"
    by (simp add: handle_curve_def del: plot_type_code.simps)
  moreover have "curve_points uid did name xs [] (color_now s color) style side = calls []"
    by (simp add: curve_points_def)
  ultimately show ?thesis
    using assms aligned_points [of ys xs] misaligned_points [of ys xs] by (auto simp: calls_def)
qed

theorem plot_curve_bounds_witness:
  "snd (handle_curve Plot_Standard [1, 2] 7 0 (curve_json (5 :: u64) (Ordinate ''y'' (\<lambda>s. s) (CV_value color_default) [4] 0 0))) =
    Some Client_undefined"
  using plot_curve_bounds [of "[1, 2]" "[4]" 7 0 5 "''y''" "\<lambda>s. s" "CV_value color_default" 0 0] by simp

section \<open>Requests\<close>

text \<open>C19: a request that a client sends for an element reaches that element with the data of the request,
  whether the server is in the same process or receives the text from the network: the new state of the
  controller is what the callback of the element makes of it.\<close>

theorem request_delivered:
  assumes "raw_request eid data = Inr r" "load (c_str (dump r)) = Some r" "sv_requests sv = []"
    and "gui_view (sb_elements sb) (eid_category eid) (eid_name eid) = Some (source, stacking, w)"
    and "send_request rf load dump sb eid data (sv, s) = (st, out)"
  shows "snd st = fst (widget_handleRequest rf w data s) \<and>
    snd (fst (handle_requests rf load sb [out] (sv, s))) = fst (widget_handleRequest rf w data s)"
proof -
  let ?r = "\<lparr>rq_category = eid_category eid, rq_name = eid_name eid, rq_data = data\<rparr>"
  have out: "out = dump r @ [CHR 0x00]" and st: "st = handle_request rf sb ?r (sv, s)"
    using assms(5) request_of_raw [OF assms(1)] assms(1,2)
    by (auto simp: send_request_def request_text_def handle_raw_request_def fromData_def Let_def)
  have "c_str (dump r @ [CHR 0x00]) = c_str (dump r)"
    by (simp add: c_str_def takeWhile_tail)
  then have "received load [out] = [?r]"
    using assms(2) request_of_raw [OF assms(1)] by (simp add: received_def fromData_def out)
  moreover have "snd (handle_request rf sb ?r (sv, s)) = fst (widget_handleRequest rf w data s)"
    using assms(4) by (auto simp: handle_request_frame handleRequest_view split: prod.split sum.split)
  ultimately show ?thesis
    using handle_requests_fold [of "[out]" rf load sb sv s] assms(3) by (auto simp: st out)
qed

theorem request_delivered_witness:
  "fst (widget_handleRequest sample_rotations (NumberInput (\<lambda>s. s) (\<lambda>d s. (d, None))) (J_double 9) (5 :: u64)) = 9 \<and>
   snd (fst (send_request sample_rotations
     (\<lambda>_. Some (J_object [(''category'', J_array [J_string ''c'']), (''name'', J_string ''n''), (''data'', J_double 9)])) (\<lambda>_. ''request'')
     sample_gui \<lparr>eid_category = [''c''], eid_name = ''n'', eid_sid = - 1\<rparr> (J_double 9) (sample_server, 5))) = 9"
proof -
  let ?eid = "\<lparr>eid_category = [''c''], eid_name = ''n'', eid_sid = - 1\<rparr>"
  let ?r = "J_object [(''category'', J_array [J_string ''c'']), (''name'', J_string ''n''), (''data'', J_double 9)]"
  have r: "raw_request ?eid (J_double 9) = Inr ?r" by (simp add: raw_request_object)
  have el: "gui_view (sb_elements sample_gui) (eid_category ?eid) (eid_name ?eid) =
      Some (None, Vertical, NumberInput (\<lambda>s. s) (\<lambda>d s. (d, None)))"
    by (simp add: sample_elements gui_view_def find_in_def find_element_def category_find_def)
  have "fst (widget_handleRequest sample_rotations (NumberInput (\<lambda>s. s) (\<lambda>d s. (d, None))) (J_double 9) (5 :: u64)) = 9"
    by (simp add: call_with_def run_effect_def)
  then show ?thesis
    using request_delivered [OF r _ _ el, of "\<lambda>_. Some ?r" "\<lambda>_. ''request''" sample_server sample_rotations 5,
        OF refl _ surjective_pairing] by (simp add: sample_server_def)
qed

text \<open>C18: the requests of a session can be replayed: the server logs every request it handles, pushed or
  received, in the order in which it handles them, and pushing the logged requests to another server from
  the same state of the controller leads to the same state.\<close>

theorem requests_replayed:
  assumes "list_all (\<lambda>m. CHR 0x00 \<in> set m) inbox" "sv_logger sv = Some lg" "sv_requests sv2 = []"
    and "handle_requests rf load sb inbox (sv, s) = ((sv', s'), terminated)"
  shows "terminated \<and>
    sv_logger sv' = Some (lg\<lparr>log_events := log_events lg @ map request_event (sv_requests sv @ received load inbox)\<rparr>) \<and>
    snd (fst (handle_requests rf load sb [] (push_requests (sv_requests sv @ received load inbox) sv2, s))) = s'"
proof -
  let ?rs = "sv_requests sv @ received load inbox"
  obtain sv1 where 1: "handle_requests rf load sb inbox (sv, s) = ((sv1, snd (fold (handle_request rf sb) ?rs (sv, s))), True)"
      "sv_logger sv1 = sv_logger (fst (fold (handle_request rf sb) ?rs (sv, s)))"
    using handle_requests_fold [OF assms(1), of rf load sb sv s] by blast
  have "sv_requests (push_requests ?rs sv2) = ?rs" using assms(3) by (simp add: push_requests_def)
  then have "snd (fst (handle_requests rf load sb [] (push_requests ?rs sv2, s))) =
      snd (fold (handle_request rf sb) ?rs (push_requests ?rs sv2, s))"
    using handle_requests_fold [of "[]" rf load sb "push_requests ?rs sv2" s] by (auto simp: received_def)
  also have "\<dots> = snd (fold (handle_request rf sb) ?rs (sv, s))"
    by (simp only: fold_requests_state)
  finally show ?thesis
    using assms(2,4) 1 fold_requests_log [of "(sv, s)" lg rf sb ?rs] by simp
qed

theorem requests_replayed_witness:
  "snd (fst (handle_requests sample_rotations (\<lambda>_. None) sample_gui []
     (push_requests [\<lparr>rq_category = [''c''], rq_name = ''b'', rq_data = J_null\<rparr>, \<lparr>rq_category = [], rq_name = [], rq_data = J_object []\<rparr>] sample_server, 5))) =
   snd (fst (handle_requests sample_rotations (\<lambda>_. None) sample_gui [[CHR 0x00]]
     (push_requests [\<lparr>rq_category = [''c''], rq_name = ''b'', rq_data = J_null\<rparr>] sample_server, 5)))"
proof -
  let ?sv = "push_requests [\<lparr>rq_category = [''c''], rq_name = ''b'', rq_data = J_null\<rparr>] sample_server"
  obtain sv' s' t where h: "handle_requests sample_rotations (\<lambda>_. None) sample_gui [[CHR 0x00]] (?sv, 5) = ((sv', s'), t)"
    by (cases "handle_requests sample_rotations (\<lambda>_. None) sample_gui [[CHR 0x00]] (?sv, 5)") auto
  have "sv_logger ?sv = Some sample_logger" "sv_requests sample_server = []"
    by (simp_all add: sample_server_def push_requests_def)
  from requests_replayed [OF _ this h] h show ?thesis
    by (simp add: push_requests_def sample_server_def received_def fromData_def request_of_def config_or_def config_call_def config_find_def
        FindMember_def)
qed

section \<open>What the code does not keep\<close>

text \<open>The elements of a selector do not keep their order: an index into them means another element after sending.\<close>

lemma one_of_reordered:
  "form_order [FormCheckbox ''a'' r (CV_value True) h, FormCheckbox ''b'' r (CV_callback get) h] =
    [FormCheckbox ''b'' r (CV_callback get) h, FormCheckbox ''a'' r (CV_value True) h]"
  by (simp add: form_order_def)

text \<open>A line whose last element is refused shares its id with the next line.\<close>

lemma duplicate_joins_lines:
  "map (\<lambda>el. (es_name el, es_id el)) (cat_elements
     (addElement None [] Horizontal [(''d'', w), (''e'', w)]
       (addElement None [] Horizontal [(''a'', w), (''b'', w)] (addElement None [] Vertical [(''b'', w)] (Category [] [] [] 0))))) =
   [(''b'', 0), (''a'', 1), (''d'', 1), (''e'', 1)]"
  by (simp add: addElementImpl_def find_element_def Let_def)

lemma reset_keeps_plots: "sb_plots (gui_reset sb) = sb_plots sb \<and> sb_data (gui_reset sb) = sb_data sb"
  by (simp add: gui_reset_def)

end
