(* ===== verification/Spec2Isabelle.thy ===== *)
theory Spec2Isabelle
  imports Mpack_Properties Mpack_Tree_Properties Config_Properties Fsm_Properties Log_Properties Gui_Properties
begin

text \<open>
  This library models the data layer and the decision logic of mc_rtc, a framework for robot
  controllers: how messages and configurations are encoded and decoded, how the finite state
  machine of a controller loads, starts, runs and tears down its states, how the data of a run is
  logged and read back, and how the user interface of a controller is published, shown and acted on.

  \<^bold>\<open>The program and its parts.\<close> A \<open>Configuration\<close> (\<open>src/mc_rtc/Configuration.cpp\<close>,
  \<open>include/mc_rtc/Configuration.h\<close>) is a JSON document on top of RapidJSON. It travels between the
  controller, the GUI and the logs as MessagePack: \<open>internals/json.h\<close> writes it through
  \<open>MessagePackBuilder\<close>, \<open>internals/msgpack.h\<close> reads it back from a tree parsed by the mpack library
  (\<open>3rd-party/mpack/mpack.c\<close>, \<open>mpack.h\<close>). A controller with an FSM (\<open>src/mc_control/fsm\<close>) reads its states
  and its transitions from a configuration: \<open>StateFactory\<close> keeps the known states and creates state
  objects, \<open>TransitionMap\<close> says which state follows an output, \<open>Executor\<close> runs one state per control
  iteration, and the base class \<open>State\<close> adds and removes contacts, collision pairs, tasks and
  constraints on behalf of the state that runs. Contacts and collision pairs belong to \<open>MCController\<close>
  and \<open>CollisionsConstraint\<close>, tasks and constraint sets to \<open>QPSolver\<close>. In every iteration \<open>Logger\<close> writes one message with the values of its entries
  and the events since the last one, directly or through a queue and a thread; \<open>iterate_binary_log\<close> and
  \<open>internals/LogEntry.h\<close> read such files, and \<open>FlatLog\<close> turns them into columns.
  The parts of a controller put elements into a \<open>gui::StateBuilder\<close> (\<open>include/mc_rtc/gui\<close>,
  \<open>src/mc_rtc/gui/StateBuilder.cpp\<close>); \<open>ControllerServer\<close> publishes it as a message, a \<open>ControllerClient\<close>
  turns the message into calls of a user interface and sends requests back, which the server hands to the
  elements and to the logger.

  \<^bold>\<open>MessagePack (\<open>mpack\<close>).\<close> \<open>Mpack_Common\<close>: errors, types, tags, big-endian loads and stores, the tracking
  stack. \<open>Mpack_Utf8\<close>: the UTF-8 checker and the reference encoder it is compared with. \<open>Mpack_Writer\<close>: the
  buffered writer, a record with the buffer, the bytes used and the flush callback as an argument,
  and every encode and write function; \<open>Mpack_Writer_Contract\<close> states what a flush callback promises as
  a locale and interprets it for the growable and the file writer. \<open>Mpack_Reader\<close>: the buffered reader
  with its fill and skip callbacks and the tag decoder; \<open>Mpack_Reader_Contract\<close> is the contract of a
  fill callback, interpreted for files and for memory. \<open>Mpack_Value\<close>: a value type and its encoding, the
  specification the other theories refer to. \<open>Mpack_Discard\<close>: skipping a value. \<open>Mpack_Tree\<close>,
  \<open>Mpack_Tree_Correct\<close>, \<open>Mpack_Tree_Loop\<close>: the tree parser with its pages of nodes and its explicit stack,
  what it means for nodes to represent a value, and the proof that the loop builds it. \<open>Mpack_Node\<close>,
  \<open>Mpack_Node_Correct\<close>: the accessors on a parsed tree. \<open>Mpack_Properties\<close> and \<open>Mpack_Tree_Properties\<close>: the
  properties. Machine integers are words of their C width; an error is the sticky flag of the C
  structure, so every function is total.

  \<^bold>\<open>Configuration.\<close> \<open>Ieee754\<close>: the conversions between integers, floats and doubles that the code uses,
  on bit patterns. \<open>Rapid_Json\<close>: JSON values, the type tests and the operations on members. \<open>Configuration\<close>,
  \<open>Configuration_Correct\<close>: lookup, typed access, modification and merging; exceptions are the left
  summand. \<open>Msgpack_Builder\<close>: the writer over a \<open>std::vector\<close>. \<open>Config_Msgpack\<close>, \<open>Config_Msgpack_Correct\<close>: both
  directions between documents and messages. \<open>Config_Spatial\<close>: matrices, quaternions and spatial
  quantities. \<open>Msgpack_Containers\<close>: standard containers, and the calculus \<open>writes\<close> of what a builder call
  emits. \<open>Config_Properties\<close>: the round trip, merging, lookup after
  a change, conversions.

  \<^bold>\<open>The finite state machine.\<close> \<open>State_Factory\<close>, \<open>State_Factory_Correct\<close>: \<open>StateFactory\<close> as a record of
  classes, states and configurations of derived states; the classes themselves are plug-ins and are
  the parameter \<open>state_api\<close>. Creation follows the bases recursively and is a partial function: \<open>None\<close> is
  a call that does not return, and the proofs show that it returns on every factory the loading
  functions build. \<open>Transition_Map\<close>: \<open>TransitionMap\<close>. \<open>Fsm_Executor\<close>, \<open>Fsm_Executor_Correct\<close>: \<open>Executor\<close>; the locale
  \<open>state_source\<close> is what it needs of the factory, interpreted on the factory's model, and \<open>safe_steps\<close>
  is the induction over histories of events, interpreted on the executor. \<open>Mc_Contacts\<close>,
  \<open>Mc_Contacts_Correct\<close>: the contact set and the collision managers, with their abstraction to sets of
  unordered surface pairs and of body pairs. \<open>Mc_Controller\<close>, \<open>Mc_Controller_Correct\<close>: a controller with
  the lists of its solver, as sets of addresses, and \<open>addCollisions\<close>, which gives the solver a
  constraint set for each pair of robots when it is first used. \<open>Fsm_State\<close>, \<open>Fsm_State_Correct\<close>: \<open>configure_\<close>, \<open>start_\<close> and
  \<open>teardown_\<close> of the base class over the lists of the solver. \<open>Fsm_Properties\<close>: the properties.

  \<^bold>\<open>Logs.\<close> \<open>Circular_Buffer\<close>: the queue of \<open>utils.h\<close>, an interpretation of the locale \<open>bounded_queue\<close>.
  \<open>Mc_Logger\<close>: \<open>Logger\<close> with its entries, events and both policies; the file is its bytes, and the values
  that the callbacks of the entries return are arguments. \<open>Mc_Log_Reader\<close>: \<open>LogEntry\<close> and \<open>iterate_binary_log\<close>.
  \<open>Mc_Flat_Log\<close>: \<open>FlatLog\<close>. \<open>Mc_Log_Values\<close>, \<open>Mc_Log_Correct\<close>: entries, events and messages as MessagePack
  values, written and read. \<open>Mc_Log_Session\<close>: the invariant between the entries of the logger and the keys
  of the reader, and the locale \<open>log_consumer\<close> of callbacks that a whole file is fed to, interpreted for a
  collector and, in \<open>Mc_Flat_Log_Correct\<close>, for the callback of \<open>FlatLog\<close>. \<open>Mc_Log_Sink\<close>: the threaded policy as
  interleaved steps. \<open>Mc_Log_Copy\<close>: copying messages. \<open>Log_Properties\<close>: the properties.

  \<^bold>\<open>The user interface.\<close> \<open>Gui_Types\<close>, \<open>Gui_Types_Correct\<close>: the styles of \<open>gui/types.h\<close>, their two forms, and
  the calculus \<open>packs\<close> of the document that a builder call writes. \<open>Gui_Elements\<close>: the kinds of elements and
  the forms of \<open>gui/Form.h\<close>. \<open>Gui_Widgets\<close>: one constructor per element class, with its \<open>write\<close>, its
  \<open>write_size\<close> and its answer to a request; a callback is a function on the state of the controller.
  \<open>Gui_Plot\<close>: curves and plots. \<open>Gui_State\<close>: \<open>StateBuilder\<close>; a reference to a category is its path, and the
  hash table of plots is a list in the order of its iteration. \<open>Gui_Tree\<close>: the locale \<open>element_tree\<close> of what
  others rely on, interpreted on the tree; \<open>Gui_Refinement\<close>: the tree against a map. \<open>Gui_Message\<close>,
  \<open>Gui_Content\<close>: the document that a message holds. \<open>Gui_Client\<close>, \<open>Gui_Client_Forms\<close>, \<open>Gui_Client_State\<close>:
  \<open>ControllerClient\<close> as a function from documents to the sequence of its virtual calls. \<open>Gui_Client_Correct\<close>,
  \<open>Gui_Roundtrip\<close>: what the client calls for each element, form, category and plot. \<open>Gui_Server\<close>:
  \<open>ControllerServer\<close> and the client in the same process. \<open>Gui_Server_Correct\<close>: sessions of both, the samples
  of plots over a run, requests. \<open>Gui_Properties\<close>: the properties. Formatting of numbers, dumping and parsing
  of JSON text and the loading of visuals are parameters; a rotation matrix read from a message goes
  through the functions of Eigen in \<open>rotation_functions\<close>.

  \<^bold>\<open>What is shown.\<close> Encoding and decoding are inverse, at the level of tags and of whole documents, and
  decoders are sound on arbitrary input: a tag without an error is one the input spells, discarding
  ends on every input, a lookup in a map tells no, one and several matches apart. Writers append exactly the shortest encoding or
  flag an error. Merging configurations lets the source win where it has a value, as long as the names
  of the objects in the source have no NUL. Loading states
  resolves bases declared in any order, creation configures along the chain of bases, the executor
  never raises or gets stuck while it is asked for known states only, follows only transitions that
  may fire, and honours a request in the next iteration. Contacts refine a set, a collision pair that
  is added and removed leaves the others alone, and a state that is started and torn down takes its
  tasks and constraints out of the solver and puts the posture tasks it disabled into it; only the
  constraint sets of collisions between robots that had none stay. A log file is read back row by row, up to the last complete message when it was cut
  off, its columns stay aligned while entries come and go, and the threaded policy writes the same
  file. A client shows exactly the interface that the builder holds at the published iterations, the
  tree of categories is a map from names to elements, every sample of a plot is sent once, and a request
  reaches its element, is logged, and can be replayed. The library also proves where the code falls short: an executor asked for an
  unknown state never recovers, a curve out of step with its abscissa is read out of bounds, replacing a log entry makes the reader misread what follows, replacing a state in a static build can make creation diverge,
  clearing contacts can lose an update, merging an object whose name has a NUL throws or changes another entry, keys of body pairs can clash, and the block of a copied string
  of maximal length is too small.

  \<^bold>\<open>Fuel.\<close> Three loops carry fuel. \<open>mpack_discard\<close> recurses over the input: the property
  \<open>discard_terminates\<close> gives a bound, two for every byte left and one more. The parse loop of the tree
  does one turn per node, and a message of \<open>n\<close> bytes holds at most \<open>n\<close> nodes, so \<open>n\<close> is enough. Reading a
  document from a tree takes at most three calls per byte, which also covers the messages of a log and of the interface. Wildcards in collision pairs nest twice,
  once per body, and a further level adds the pair.

  \<^bold>\<open>Not modelled.\<close> Floating-point geometry and dynamics (robots, tasks, constraints, observers), which
  rest on Eigen, RBDyn, Tasks and TVM; the parser and the printer of RapidJSON, YAML and files, which
  the model takes as parameters; the expect interface and the debug printers of mpack, which the
  framework does not call; qhull, ltdl, spdlog and fmt; timers, the names and links of log files, sockets and the thread of the client, ROS and the Python
  bindings, which are input and output around the parts above. A GUI callback that changes the builder
  it belongs to is outside the model: callbacks change the state of the controller only. An exception is
  a value without a state: what an operation changed before it raised is not modelled.
\<close>

end
